(* ===== verification/Prelude.thy ===== *)
theory Prelude
  imports Main "HOL-Library.Monad_Syntax" "HOL-Library.Word"
begin

section \<open>Shared vocabulary of the chain model\<close>

text \<open>
  What every component of the model uses:
  \<^item> the result of a call that may throw: \<open>None\<close> is "an \<open>fc::exception\<close> is thrown" (the
    modelled code never tells two exceptions apart: every handler catches \<open>fc::exception\<close>),
    and a \<open>do\<close> block threads the normal results;
  \<^item> the integers: \<open>share_type\<close> is \<open>fc::safe<int64_t>\<close>, exact on the int64 range and throwing
    outside it; raw \<open>uint64_t\<close>/\<open>int64_t\<close> expressions (\<open>.value\<close>) wrap; \<open>fc::uint128\<close> is arithmetic
    modulo $2^{128}$;
  \<^item> object tables: the entries of one \<open>bts::db\<close> index by instance number, with its next id;
  \<^item> sums over tables, which the conservation proofs are built from.
\<close>

subsection \<open>Calls that may throw\<close>

definition fc_assert :: "bool \<Rightarrow> unit option" where
  "fc_assert b = (if b then Some () else None)"

lemma fc_assert_Some [simp]: "fc_assert b = Some u \<longleftrightarrow> b"
  by (simp add: fc_assert_def)

lemma fc_assert_None [simp]: "fc_assert b = None \<longleftrightarrow> \<not> b"
  by (simp add: fc_assert_def)

lemma fc_assert_True [simp]: "fc_assert True = Some ()"
  by (simp add: fc_assert_def)

lemma fc_assert_False [simp]: "fc_assert False = None"
  by (simp add: fc_assert_def)

declare Option.bind_eq_Some_conv [simp]

lemma bind_eq_None [simp]:
  "Option.bind m f = None \<longleftrightarrow> m = None \<or> (\<exists>x. m = Some x \<and> f x = None)"
  by (cases m) auto

text \<open>Run a list of steps from left to right; the first exception ends the run.\<close>

fun fold_opt :: "('a \<Rightarrow> 's \<Rightarrow> 's option) \<Rightarrow> 'a list \<Rightarrow> 's \<Rightarrow> 's option" where
  "fold_opt f [] s = Some s"
| "fold_opt f (x # xs) s = do { s' \<leftarrow> f x s; fold_opt f xs s' }"

lemma fold_opt_invariant:
  assumes "fold_opt f xs s = Some s'" and "P s"
    and "\<And>x s s'. x \<in> set xs \<Longrightarrow> P s \<Longrightarrow> f x s = Some s' \<Longrightarrow> P s'"
  shows "P s'"
  using assms by (induction xs arbitrary: s) auto

lemma fold_opt_append:
  "fold_opt f (xs @ ys) s = do { s' \<leftarrow> fold_opt f xs s; fold_opt f ys s' }"
  by (induction xs arbitrary: s) (auto split: Option.bind_splits)

subsection \<open>Machine integers\<close>

type_synonym share_type = int
type_synonym time_point_sec = int \<comment> \<open>seconds since the epoch\<close>

definition int64_ok :: "int \<Rightarrow> bool" where
  "int64_ok x \<longleftrightarrow> - (2 ^ 63) \<le> x \<and> x < 2 ^ 63"

text \<open>The checked result of a \<open>safe<int64_t>\<close> operation.\<close>

definition share :: "int \<Rightarrow> share_type option" where
  "share x = (if int64_ok x then Some x else None)"

lemma share_Some [simp]: "share x = Some y \<longleftrightarrow> int64_ok x \<and> y = x"
  by (auto simp: share_def)

lemma share_None [simp]: "share x = None \<longleftrightarrow> \<not> int64_ok x"
  by (simp add: share_def)

lemma int64_ok_0 [simp]: "int64_ok 0"
  by (simp add: int64_ok_def)

definition uint64 :: "int \<Rightarrow> int" where
  "uint64 x = x mod 2 ^ 64"

definition uint32 :: "int \<Rightarrow> int" where
  "uint32 x = x mod 2 ^ 32"

definition uint16 :: "int \<Rightarrow> int" where
  "uint16 x = x mod 2 ^ 16"

definition int64 :: "int \<Rightarrow> int" where
  "int64 x = (x + 2 ^ 63) mod 2 ^ 64 - 2 ^ 63"

definition u128 :: "int \<Rightarrow> int" where
  "u128 x = x mod 2 ^ 128"

text \<open>\<open>uint128::to_uint64\<close> asserts that the high word is zero.\<close>

definition to_uint64 :: "int \<Rightarrow> int option" where
  "to_uint64 x = (if x < 2 ^ 64 then Some x else None)"

text \<open>C++ integer division truncates towards zero.\<close>

definition cdiv :: "int \<Rightarrow> int \<Rightarrow> int" where
  "cdiv a b = sgn a * sgn b * (\<bar>a\<bar> div \<bar>b\<bar>)"

definition cmod :: "int \<Rightarrow> int \<Rightarrow> int" where
  "cmod a b = a - cdiv a b * b"

lemma uint64_id [simp]: "0 \<le> x \<Longrightarrow> x < 2 ^ 64 \<Longrightarrow> uint64 x = x"
  by (simp add: uint64_def)

lemma uint32_id [simp]: "0 \<le> x \<Longrightarrow> x < 2 ^ 32 \<Longrightarrow> uint32 x = x"
  by (simp add: uint32_def)

lemma uint16_id [simp]: "0 \<le> x \<Longrightarrow> x < 2 ^ 16 \<Longrightarrow> uint16 x = x"
  by (simp add: uint16_def)

lemma int64_id [simp]: "int64_ok x \<Longrightarrow> int64 x = x"
  by (simp add: int64_def int64_ok_def)

lemma u128_id [simp]: "0 \<le> x \<Longrightarrow> x < 2 ^ 128 \<Longrightarrow> u128 x = x"
  by (simp add: u128_def)

lemma u128_nonneg [simp]: "0 \<le> u128 x"
  by (simp add: u128_def)

lemma to_uint64_Some [simp]: "to_uint64 x = Some y \<longleftrightarrow> x < 2 ^ 64 \<and> y = x"
  by (auto simp: to_uint64_def)

lemma cdiv_nonneg_eq: "0 \<le> a \<Longrightarrow> 0 \<le> b \<Longrightarrow> cdiv a b = a div b"
  by (cases "a = 0"; cases "b = 0") (auto simp: cdiv_def sgn_if)

lemma cmod_nonneg_eq: "0 \<le> a \<Longrightarrow> 0 \<le> b \<Longrightarrow> cmod a b = a mod b"
  by (simp add: cmod_def cdiv_nonneg_eq minus_div_mult_eq_mod)

text \<open>The product of two non-negative int64 values fits in 126 bits.\<close>

lemma u128_mult [simp]:
  assumes "0 \<le> a" and "a < 9223372036854775808" and "0 \<le> b" and "b < 9223372036854775808"
  shows "u128 (a * b) = a * b"
proof -
  have "a * b < 2 ^ 63 * 2 ^ 63"
    using assms by (intro mult_strict_mono) auto
  then have "a * b < 2 ^ 128" by simp
  with assms show ?thesis by simp
qed

end
