(* ===== verification/Index.thy ===== *)
theory Index
  imports Prelude
begin

section \<open>The object indexes of the database layer\<close>

text \<open>
  Models the three index classes of \<^verbatim>\<open>libraries/db/include/bts/db\<close>, each of which implements the
  interface \<^verbatim>\<open>bts::db::index\<close> (create, modify, insert, remove, find, next id):
  \<^item> \<^verbatim>\<open>simple_index.hpp\<close>, a vector of owning pointers (\<open>None\<close> is a null pointer);
  \<^item> \<^verbatim>\<open>flat_index.hpp\<close>, a vector of objects;
  \<^item> \<^verbatim>\<open>generic_index.hpp\<close>, a multi-index container with a unique id.
  An object is named by its instance number; a constructor callback is the object it builds.
  The locale states the interface once. The first two laws hold of all three classes; the law on
  removal is a second locale, since \<open>flat_index\<close> does not satisfy it.
\<close>

subsection \<open>The interface\<close>

locale index_core =
  fixes find_obj :: "'s \<Rightarrow> nat \<Rightarrow> 'a option"
    and create_obj :: "'a \<Rightarrow> 's \<Rightarrow> (nat \<times> 's) option"
    and modify_obj :: "nat \<Rightarrow> ('a \<Rightarrow> 'a) \<Rightarrow> 's \<Rightarrow> 's"
    and next_id_of :: "'s \<Rightarrow> nat"
    and invar :: "'s \<Rightarrow> bool"
  assumes create_law: "invar s \<Longrightarrow> create_obj x s = Some (i, s') \<Longrightarrow>
      i = next_id_of s \<and> next_id_of s' = Suc i \<and> invar s' \<and>
      find_obj s' i = Some x \<and> (\<forall>j. j < next_id_of s \<longrightarrow> find_obj s' j = find_obj s j)"
    and create_total: "invar s \<Longrightarrow> create_obj x s \<noteq> None"
    and modify_law: "invar s \<Longrightarrow> find_obj s i = Some x \<Longrightarrow>
      find_obj (modify_obj i f s) = (find_obj s)(i \<mapsto> f x) \<and>
      next_id_of (modify_obj i f s) = next_id_of s \<and> invar (modify_obj i f s)"
begin

text \<open>An id is handed out once: creating again gives a different id.\<close>

lemma create_twice_fresh:
  assumes "invar s" "create_obj x s = Some (i, s1)" "create_obj y s1 = Some (j, s2)"
  shows "i \<noteq> j \<and> find_obj s2 i = Some x \<and> find_obj s2 j = Some y"
  using create_law [OF assms(1,2)] create_law [of s1 y j s2] assms(3) by auto

lemma create_then_modify:
  assumes "invar s" "create_obj x s = Some (i, s1)"
  shows "find_obj (modify_obj i f s1) i = Some (f x)"
proof -
  have "invar s1" and "find_obj s1 i = Some x"
    using create_law [OF assms] by blast+
  then show ?thesis using modify_law [of s1 i x f] by simp
qed

end

locale object_index = index_core +
  fixes remove_obj :: "nat \<Rightarrow> 's \<Rightarrow> 's"
  assumes remove_law: "invar s \<Longrightarrow> find_obj s i = Some x \<Longrightarrow>
      find_obj (remove_obj i s) = (find_obj s)(i := None) \<and>
      next_id_of (remove_obj i s) = next_id_of s \<and> invar (remove_obj i s)"
begin

text \<open>Removal is final: the id never names an object again, whatever is created later.\<close>

lemma removed_id_stays_dead:
  assumes "invar s" "find_obj s i = Some x" "i < next_id_of s"
    and "create_obj y (remove_obj i s) = Some (j, s')"
  shows "find_obj s' i = None \<and> j \<noteq> i"
proof -
  have r: "find_obj (remove_obj i s) = (find_obj s)(i := None)"
    "next_id_of (remove_obj i s) = next_id_of s" "invar (remove_obj i s)"
    using remove_law [OF assms(1,2)] by blast+
  show ?thesis
    using create_law [OF r(3) assms(4)] r assms(3) by auto
qed

lemma create_then_remove:
  assumes "invar s" "create_obj x s = Some (i, s1)" "j < i"
  shows "find_obj (remove_obj i s1) j = find_obj s j"
  using create_law [OF assms(1,2)] remove_law [of s1 i x] assms(3) by auto

end

subsection \<open>simple\_index\<close>

record 'a simple_index =
  si_objects :: "'a option list"
  si_next :: nat

definition si_resize :: "nat \<Rightarrow> 'a option list \<Rightarrow> 'a option list" where
  "si_resize n xs = (if length xs < n then xs @ replicate (n - length xs) None else xs)"

definition slot :: "'a option list \<Rightarrow> nat \<Rightarrow> 'a option" where
  "slot xs i = (if i \<ge> length xs then None else xs ! i)"

definition si_find :: "'a simple_index \<Rightarrow> nat \<Rightarrow> 'a option" where
  "si_find s i = slot (si_objects s) i"

definition si_create :: "'a \<Rightarrow> 'a simple_index \<Rightarrow> (nat \<times> 'a simple_index) option" where
  "si_create x s =
     (let i = si_next s; objs = si_resize (Suc i) (si_objects s)
      in Some (i, s\<lparr>si_objects := objs[i := Some x], si_next := Suc i\<rparr>))"

definition si_modify :: "nat \<Rightarrow> ('a \<Rightarrow> 'a) \<Rightarrow> 'a simple_index \<Rightarrow> 'a simple_index" where
  "si_modify i f s = s\<lparr>si_objects := (si_objects s)[i := map_option f (si_objects s ! i)]\<rparr>"

definition si_insert :: "nat \<Rightarrow> 'a \<Rightarrow> 'a simple_index \<Rightarrow> 'a simple_index" where
  "si_insert i x s = s\<lparr>si_objects := (si_resize (Suc i) (si_objects s))[i := Some x]\<rparr>"

text \<open>\<open>remove\<close> clears the slot and pops the null pointers at the back.\<close>

definition si_remove :: "nat \<Rightarrow> 'a simple_index \<Rightarrow> 'a simple_index" where
  "si_remove i s =
     s\<lparr>si_objects := rev (dropWhile (\<lambda>p. p = None) (rev ((si_objects s)[i := None])))\<rparr>"

definition si_inspect_all :: "'a simple_index \<Rightarrow> 'a list" where
  "si_inspect_all s = List.map_filter id (si_objects s)"

definition si_invar :: "'a simple_index \<Rightarrow> bool" where
  "si_invar s \<longleftrightarrow> length (si_objects s) \<le> si_next s"

lemma slot_drop_trailing_None: "slot (rev (dropWhile (\<lambda>p. p = None) (rev xs))) i = slot xs i"
proof (induction xs rule: rev_induct)
  case Nil
  then show ?case by simp
next
  case (snoc x xs)
  then show ?case
    by (cases x) (auto simp: slot_def nth_append split: if_splits)
qed

lemma length_drop_trailing: "length (rev (dropWhile P (rev xs))) \<le> length xs"
  by (metis length_dropWhile_le length_rev)

lemma si_find_remove:
  "i < length (si_objects s) \<Longrightarrow> si_find (si_remove i s) = (si_find s)(i := None)"
  by (rule ext) (simp add: si_find_def si_remove_def slot_drop_trailing_None,
    simp add: slot_def nth_list_update)

interpretation simple: object_index si_find si_create si_modify si_next si_invar si_remove
proof
  fix s :: "'a simple_index" and x i s'
  assume "si_invar s" and "si_create x s = Some (i, s')"
  then show "i = si_next s \<and> si_next s' = Suc i \<and> si_invar s' \<and> si_find s' i = Some x \<and>
      (\<forall>j. j < si_next s \<longrightarrow> si_find s' j = si_find s j)"
    by (auto simp: si_create_def si_find_def slot_def si_invar_def si_resize_def Let_def nth_append)
next
  fix s :: "'a simple_index" and x
  show "si_create x s \<noteq> None" by (simp add: si_create_def Let_def)
next
  fix s :: "'a simple_index" and i x f
  assume "si_invar s" "si_find s i = Some x"
  then show "si_find (si_modify i f s) = (si_find s)(i \<mapsto> f x) \<and>
      si_next (si_modify i f s) = si_next s \<and> si_invar (si_modify i f s)"
    by (auto simp: si_modify_def si_find_def slot_def si_invar_def fun_eq_iff nth_list_update split: if_splits)
next
  fix s :: "'a simple_index" and i x
  assume "si_invar s" "si_find s i = Some x"
  moreover from this have "i < length (si_objects s)"
    by (auto simp: si_find_def slot_def split: if_splits)
  ultimately show "si_find (si_remove i s) = (si_find s)(i := None) \<and>
      si_next (si_remove i s) = si_next s \<and> si_invar (si_remove i s)"
    using length_drop_trailing [of "\<lambda>p. p = None" "(si_objects s)[i := None]"]
    by (simp add: si_find_remove) (simp add: si_remove_def si_invar_def)
qed

subsection \<open>flat\_index\<close>

record 'a flat_index =
  fi_objects :: "'a list"
  fi_next :: nat

definition fi_resize :: "'a \<Rightarrow> nat \<Rightarrow> 'a list \<Rightarrow> 'a list" where
  "fi_resize d n xs = (if length xs < n then xs @ replicate (n - length xs) d else xs)"

definition fi_find :: "'a flat_index \<Rightarrow> nat \<Rightarrow> 'a option" where
  "fi_find s i = (if i \<ge> length (fi_objects s) then None else Some (fi_objects s ! i))"

definition fi_create :: "'a \<Rightarrow> 'a \<Rightarrow> 'a flat_index \<Rightarrow> (nat \<times> 'a flat_index) option" where
  "fi_create d x s =
     (let i = fi_next s; objs = fi_resize d (Suc i) (fi_objects s)
      in Some (i, s\<lparr>fi_objects := objs[i := x], fi_next := Suc i\<rparr>))"

definition fi_modify :: "nat \<Rightarrow> ('a \<Rightarrow> 'a) \<Rightarrow> 'a flat_index \<Rightarrow> 'a flat_index" where
  "fi_modify i f s = s\<lparr>fi_objects := (fi_objects s)[i := f (fi_objects s ! i)]\<rparr>"

definition fi_insert :: "'a \<Rightarrow> nat \<Rightarrow> 'a \<Rightarrow> 'a flat_index \<Rightarrow> 'a flat_index" where
  "fi_insert d i x s = s\<lparr>fi_objects := (fi_resize d (Suc i) (fi_objects s))[i := x]\<rparr>"

definition fi_remove :: "'a \<Rightarrow> nat \<Rightarrow> 'a flat_index \<Rightarrow> 'a flat_index" where
  "fi_remove d i s = s\<lparr>fi_objects := (fi_objects s)[i := d]\<rparr>"

text \<open>The vector holds exactly the objects created so far; a gap would be filled with defaults.\<close>

definition fi_invar :: "'a flat_index \<Rightarrow> bool" where
  "fi_invar s \<longleftrightarrow> length (fi_objects s) = fi_next s"

interpretation flat: index_core fi_find "fi_create d" fi_modify fi_next fi_invar for d
proof
  fix s :: "'a flat_index" and x i s'
  assume "fi_invar s" and "fi_create d x s = Some (i, s')"
  then show "i = fi_next s \<and> fi_next s' = Suc i \<and> fi_invar s' \<and> fi_find s' i = Some x \<and>
      (\<forall>j. j < fi_next s \<longrightarrow> fi_find s' j = fi_find s j)"
    by (auto simp: fi_create_def fi_find_def fi_invar_def fi_resize_def Let_def nth_append)
next
  fix s :: "'a flat_index" and x
  show "fi_create d x s \<noteq> None" by (simp add: fi_create_def Let_def)
next
  fix s :: "'a flat_index" and i x f
  assume "fi_invar s" "fi_find s i = Some x"
  then show "fi_find (fi_modify i f s) = (fi_find s)(i \<mapsto> f x) \<and>
      fi_next (fi_modify i f s) = fi_next s \<and> fi_invar (fi_modify i f s)"
    by (auto simp: fi_modify_def fi_find_def fi_invar_def fun_eq_iff nth_list_update split: if_splits)
qed

subsection \<open>generic\_index\<close>

text \<open>
  A table: the objects of one index by instance number, in the order of creation, with the next
  instance. This is the index the chain state is made of. The container refuses an object whose id
  it already holds, and \<open>create\<close> asserts that it did not.
\<close>

record 'a table =
  next_id :: nat
  entries :: "(nat \<times> 'a) list"

definition empty_table :: "'a table" where
  "empty_table = \<lparr>next_id = 0, entries = []\<rparr>"

definition gi_find :: "'a table \<Rightarrow> nat \<Rightarrow> 'a option" where
  "gi_find t i = map_of (entries t) i"

definition gi_insert :: "nat \<Rightarrow> 'a \<Rightarrow> 'a table \<Rightarrow> 'a table option" where
  "gi_insert i x t = do {
     fc_assert (gi_find t i = None);
     Some (t\<lparr>entries := entries t @ [(i, x)]\<rparr>) }"

definition gi_create :: "'a \<Rightarrow> 'a table \<Rightarrow> (nat \<times> 'a table) option" where
  "gi_create x t = do {
     let i = next_id t;
     t' \<leftarrow> gi_insert i x t;
     Some (i, t'\<lparr>next_id := Suc i\<rparr>) }"

definition gi_modify :: "nat \<Rightarrow> ('a \<Rightarrow> 'a) \<Rightarrow> 'a table \<Rightarrow> 'a table" where
  "gi_modify i f t = t\<lparr>entries := map (\<lambda>(j, x). (j, if j = i then f x else x)) (entries t)\<rparr>"

definition gi_remove :: "nat \<Rightarrow> 'a table \<Rightarrow> 'a table" where
  "gi_remove i t = t\<lparr>entries := filter (\<lambda>(j, x). j \<noteq> i) (entries t)\<rparr>"

definition gi_invar :: "'a table \<Rightarrow> bool" where
  "gi_invar t \<longleftrightarrow> distinct (map fst (entries t)) \<and> (\<forall>i \<in> fst ` set (entries t). i < next_id t)"

lemma gi_invar_empty [simp]: "gi_invar empty_table"
  by (simp add: gi_invar_def empty_table_def)

lemma gi_find_empty [simp]: "gi_find empty_table i = None"
  by (simp add: gi_find_def empty_table_def)

lemma map_of_map_snd_at:
  "map_of (map (\<lambda>(j, x). (j, if j = i then f x else x)) xs) =
     (\<lambda>j. if j = i then map_option f (map_of xs i) else map_of xs j)"
  by (induction xs) (auto simp: fun_eq_iff)

lemma map_of_filter_ne:
  "map_of (filter (\<lambda>(j, x). j \<noteq> i) xs) = (map_of xs)(i := None)"
  by (induction xs) (auto simp: fun_eq_iff)

lemma gi_find_modify:
  "gi_find (gi_modify i f t) j = (if j = i then map_option f (gi_find t i) else gi_find t j)"
  by (simp add: gi_find_def gi_modify_def map_of_map_snd_at)

lemma gi_find_remove: "gi_find (gi_remove i t) j = (if j = i then None else gi_find t j)"
  by (simp add: gi_find_def gi_remove_def map_of_filter_ne)

lemma gi_next_modify [simp]: "next_id (gi_modify i f t) = next_id t"
  and gi_next_remove [simp]: "next_id (gi_remove i t) = next_id t"
  by (simp_all add: gi_modify_def gi_remove_def)

lemma gi_create_Some:
  "gi_create x t = Some (i, t') \<longleftrightarrow> i = next_id t \<and> gi_find t i = None \<and>
     t' = t\<lparr>entries := entries t @ [(i, x)], next_id := Suc i\<rparr>"
  by (auto simp: gi_create_def gi_insert_def Let_def)

lemma gi_find_create:
  assumes "gi_create x t = Some (i, t')"
  shows "gi_find t' j = (if j = i then Some x else gi_find t j)"
  using assms by (auto simp: gi_create_Some gi_find_def map_add_def split: option.splits)

lemma gi_find_less: "gi_invar t \<Longrightarrow> gi_find t i = Some x \<Longrightarrow> i < next_id t"
  by (force simp: gi_invar_def gi_find_def dest: map_of_SomeD)

lemma gi_find_next: "gi_invar t \<Longrightarrow> next_id t \<le> i \<Longrightarrow> gi_find t i = None"
  using gi_find_less by fastforce

lemma gi_invar_create: "gi_invar t \<Longrightarrow> gi_create x t = Some (i, t') \<Longrightarrow> gi_invar t'"
  by (auto simp: gi_create_Some gi_invar_def gi_find_def map_of_eq_None_iff less_Suc_eq)

lemma map_fst_update: "map (fst \<circ> (\<lambda>(j, x). (j, g j x))) xs = map fst xs"
  by (induction xs) auto

lemma gi_invar_modify [simp]: "gi_invar (gi_modify i f t) = gi_invar t"
  by (force simp: gi_invar_def gi_modify_def map_fst_update)

lemma gi_invar_remove: "gi_invar t \<Longrightarrow> gi_invar (gi_remove i t)"
  by (auto simp: gi_invar_def gi_remove_def distinct_map intro: inj_on_subset)

interpretation generic: object_index gi_find gi_create gi_modify next_id gi_invar gi_remove
proof
  fix s :: "'a table" and x i s'
  assume "gi_invar s" "gi_create x s = Some (i, s')"
  then show "i = next_id s \<and> next_id s' = Suc i \<and> gi_invar s' \<and> gi_find s' i = Some x \<and>
      (\<forall>j. j < next_id s \<longrightarrow> gi_find s' j = gi_find s j)"
    using gi_find_create [of x s i s'] gi_invar_create [of s x i s']
    by (auto simp: gi_create_Some)
next
  fix s :: "'a table" and x
  assume "gi_invar s"
  then show "gi_create x s \<noteq> None"
    using gi_find_next [of s "next_id s"] by (auto simp: gi_create_def gi_insert_def Let_def)
next
  fix s :: "'a table" and i x f
  assume "gi_invar s" "gi_find s i = Some x"
  then show "gi_find (gi_modify i f s) = (gi_find s)(i \<mapsto> f x) \<and>
      next_id (gi_modify i f s) = next_id s \<and> gi_invar (gi_modify i f s)"
    by (auto simp: gi_find_modify fun_eq_iff)
next
  fix s :: "'a table" and i x
  assume "gi_invar s" "gi_find s i = Some x"
  then show "gi_find (gi_remove i s) = (gi_find s)(i := None) \<and>
      next_id (gi_remove i s) = next_id s \<and> gi_invar (gi_remove i s)"
    by (auto simp: gi_find_remove fun_eq_iff gi_invar_remove)
qed

subsection \<open>Sums over a table\<close>

definition tsum :: "('a \<Rightarrow> int) \<Rightarrow> 'a table \<Rightarrow> int" where
  "tsum g t = sum_list (map (g \<circ> snd) (entries t))"

lemma tsum_empty [simp]: "tsum g empty_table = 0"
  by (simp add: tsum_def empty_table_def)

lemma tsum_create: "gi_create x t = Some (i, t') \<Longrightarrow> tsum g t' = tsum g t + g x"
  by (auto simp: gi_create_Some tsum_def)

lemma sum_list_update_at:
  assumes "distinct (map fst xs)" "map_of xs i = Some x"
  shows "sum_list (map (g \<circ> snd) (map (\<lambda>(j, y). (j, if j = i then f y else y)) xs)) =
    sum_list (map (g \<circ> snd) xs) - g x + (g (f x) :: int)"
  using assms
proof (induction xs)
  case Nil
  then show ?case by simp
next
  case (Cons p xs)
  obtain j y where p: "p = (j, y)" by force
  show ?case
  proof (cases "j = i")
    case True
    with Cons.prems p have "i \<notin> fst ` set xs" by auto
    then have "map (\<lambda>(j, y). (j, if j = i then f y else y)) xs = xs"
      by (induction xs) auto
    with True Cons.prems p show ?thesis by simp
  next
    case False
    with Cons p show ?thesis by simp
  qed
qed

lemma tsum_modify:
  assumes "gi_invar t" "gi_find t i = Some x"
  shows "tsum g (gi_modify i f t) = tsum g t - g x + g (f x)"
  using assms sum_list_update_at [of "entries t" i x g f]
  by (simp add: tsum_def gi_modify_def gi_invar_def gi_find_def)

lemma sum_list_filter_out:
  assumes "distinct (map fst xs)" "map_of xs i = Some x"
  shows "sum_list (map (g \<circ> snd) (filter (\<lambda>(j, y). j \<noteq> i) xs)) =
    sum_list (map (g \<circ> snd) xs) - (g x :: int)"
  using assms
proof (induction xs)
  case Nil
  then show ?case by simp
next
  case (Cons p xs)
  obtain j y where p: "p = (j, y)" by force
  show ?case
  proof (cases "j = i")
    case True
    with Cons.prems p have "i \<notin> fst ` set xs" by auto
    then have "filter (\<lambda>(j, y). j \<noteq> i) xs = xs"
      by (intro filter_True) force
    with True Cons.prems p show ?thesis by simp
  next
    case False
    with Cons p show ?thesis by simp
  qed
qed

lemma tsum_remove:
  assumes "gi_invar t" "gi_find t i = Some x"
  shows "tsum g (gi_remove i t) = tsum g t - g x"
  using assms sum_list_filter_out [of "entries t" i x g]
  by (simp add: tsum_def gi_remove_def gi_invar_def gi_find_def)

end
