(* ===== verification/Asset.thy ===== *)
theory Asset
  imports Prelude
begin

section \<open>Assets, prices and price feeds\<close>

text \<open>
  Models \<^verbatim>\<open>libraries/chain/include/bts/chain/asset.hpp\<close> and \<^verbatim>\<open>libraries/chain/asset.cpp\<close>:
  amounts of an asset, prices as ratios of two amounts, their comparison and multiplication, and
  the checks on a price feed. An \<open>asset_id_type\<close> is its instance number; the core asset is 0.
\<close>

type_synonym asset_id_type = nat

definition BTS_MAX_SHARE_SUPPLY :: int where "BTS_MAX_SHARE_SUPPLY = 1000000000000"
definition BTS_BLOCKCHAIN_MAX_SHARES :: int where "BTS_BLOCKCHAIN_MAX_SHARES = 1000000000000000"
definition BTS_100_PERCENT :: int where "BTS_100_PERCENT = 10000"

record asset =
  amount :: share_type
  asset_id :: asset_id_type

abbreviation mk_asset :: "share_type \<Rightarrow> asset_id_type \<Rightarrow> asset" where
  "mk_asset a i \<equiv> \<lparr>amount = a, asset_id = i\<rparr>"

record price =
  base :: asset
  quote :: asset

abbreviation mk_price :: "asset \<Rightarrow> asset \<Rightarrow> price" where
  "mk_price b q \<equiv> \<lparr>base = b, quote = q\<rparr>"

subsection \<open>Asset arithmetic (asset.hpp)\<close>

definition asset_plus :: "asset \<Rightarrow> asset \<Rightarrow> asset option" where
  "asset_plus a b = do {
     fc_assert (asset_id a = asset_id b);
     s \<leftarrow> share (amount a + amount b);
     Some (mk_asset s (asset_id a)) }"

definition asset_minus :: "asset \<Rightarrow> asset \<Rightarrow> asset option" where
  "asset_minus a b = do {
     fc_assert (asset_id a = asset_id b);
     s \<leftarrow> share (amount a - amount b);
     Some (mk_asset s (asset_id a)) }"

definition asset_neg :: "asset \<Rightarrow> asset option" where
  "asset_neg a = do { s \<leftarrow> share (- amount a); Some (mk_asset s (asset_id a)) }"

text \<open>\<open><\<close> and \<open><=\<close> compare the pair (asset id, amount); \<open>>\<close> and \<open>>=\<close> demand equal ids.\<close>

definition asset_lt :: "asset \<Rightarrow> asset \<Rightarrow> bool" where
  "asset_lt a b \<longleftrightarrow>
     asset_id a < asset_id b \<or> asset_id a = asset_id b \<and> amount a < amount b"

definition asset_le :: "asset \<Rightarrow> asset \<Rightarrow> bool" where
  "asset_le a b \<longleftrightarrow>
     asset_id a < asset_id b \<or> asset_id a = asset_id b \<and> amount a \<le> amount b"

definition asset_ge :: "asset \<Rightarrow> asset \<Rightarrow> bool option" where
  "asset_ge a b = do { fc_assert (asset_id a = asset_id b); Some (amount a \<ge> amount b) }"

definition asset_gt :: "asset \<Rightarrow> asset \<Rightarrow> bool option" where
  "asset_gt a b = do { fc_assert (asset_id a = asset_id b); Some (amount a > amount b) }"

definition asset_min :: "asset \<Rightarrow> asset \<Rightarrow> asset" where
  "asset_min a b = (if asset_lt b a then b else a)"

subsection \<open>Price comparison (asset.cpp)\<close>

definition price_lt :: "price \<Rightarrow> price \<Rightarrow> bool" where
  "price_lt a b =
     (if asset_id (base a) < asset_id (base b) then True
      else if asset_id (base a) > asset_id (base b) then False
      else if asset_id (quote a) < asset_id (quote b) then True
      else if asset_id (quote a) > asset_id (quote b) then False
      else let amult = u128 (u128 (amount (quote b)) * u128 (amount (base a)));
               bmult = u128 (u128 (amount (quote a)) * u128 (amount (base b)))
           in amult < bmult)"

definition price_le :: "price \<Rightarrow> price \<Rightarrow> bool" where
  "price_le a b =
     (if asset_id (base a) < asset_id (base b) then True
      else if asset_id (base a) > asset_id (base b) then False
      else if asset_id (quote a) < asset_id (quote b) then True
      else if asset_id (quote a) > asset_id (quote b) then False
      else let amult = u128 (u128 (amount (quote b)) * u128 (amount (base a)));
               bmult = u128 (u128 (amount (quote a)) * u128 (amount (base b)))
           in amult \<le> bmult)"

definition price_eq :: "price \<Rightarrow> price \<Rightarrow> bool" where
  "price_eq a b =
     (if asset_id (base a) < asset_id (base b) then True
      else if asset_id (base a) > asset_id (base b) then False
      else if asset_id (quote a) < asset_id (quote b) then True
      else if asset_id (quote a) > asset_id (quote b) then False
      else let amult = u128 (u128 (amount (quote a)) * u128 (amount (base b)));
               bmult = u128 (u128 (amount (quote b)) * u128 (amount (base a)))
           in amult = bmult)"

definition price_ge :: "price \<Rightarrow> price \<Rightarrow> bool" where
  "price_ge a b \<longleftrightarrow> \<not> price_lt a b"

definition price_gt :: "price \<Rightarrow> price \<Rightarrow> bool" where
  "price_gt a b \<longleftrightarrow> \<not> price_le a b"

subsection \<open>Price operations (asset.cpp)\<close>

definition price_inv :: "price \<Rightarrow> price" where
  "price_inv p = mk_price (quote p) (base p)"

definition asset_mult :: "asset \<Rightarrow> price \<Rightarrow> asset option" where
  "asset_mult a b =
     (if asset_id a = asset_id (base b) then do {
        fc_assert (amount (base b) > 0);
        let result = u128 (u128 (amount a) * u128 (amount (quote b))) div amount (base b);
        fc_assert (result \<le> BTS_MAX_SHARE_SUPPLY);
        r \<leftarrow> to_uint64 result;
        Some (mk_asset r (asset_id (quote b))) }
      else if asset_id a = asset_id (quote b) then do {
        fc_assert (amount (quote b) > 0);
        let result = u128 (u128 (amount a) * u128 (amount (base b))) div amount (quote b);
        fc_assert (result \<le> BTS_MAX_SHARE_SUPPLY);
        r \<leftarrow> to_uint64 result;
        Some (mk_asset r (asset_id (base b))) }
      else None)"

definition asset_div :: "asset \<Rightarrow> asset \<Rightarrow> price option" where
  "asset_div b q = do { fc_assert (asset_id b \<noteq> asset_id q); Some (mk_price b q) }"

definition price_max :: "asset_id_type \<Rightarrow> asset_id_type \<Rightarrow> price option" where
  "price_max b q = asset_div (mk_asset BTS_MAX_SHARE_SUPPLY b) (mk_asset 1 q)"

definition price_min :: "asset_id_type \<Rightarrow> asset_id_type \<Rightarrow> price option" where
  "price_min b q = asset_div (mk_asset 1 b) (mk_asset BTS_MAX_SHARE_SUPPLY q)"

definition call_price :: "asset \<Rightarrow> asset \<Rightarrow> int \<Rightarrow> price option" where
  "call_price debt collateral collateral_ratio = do {
     let tmp = u128 (u128 (amount collateral) * u128 (collateral_ratio - 1000)) div 1000;
     fc_assert (tmp \<le> BTS_MAX_SHARE_SUPPLY);
     t \<leftarrow> to_uint64 tmp;
     asset_div (mk_asset t (asset_id collateral)) debt }"

definition null_price :: price where
  "null_price = mk_price (mk_asset 0 0) (mk_asset 0 0)"

definition is_null :: "price \<Rightarrow> bool" where
  "is_null p = price_eq p null_price"

definition price_validate :: "price \<Rightarrow> bool" where
  "price_validate p \<longleftrightarrow>
     amount (base p) > 0 \<and> amount (quote p) > 0 \<and> asset_id (base p) \<noteq> asset_id (quote p)"

subsection \<open>Price feeds\<close>

record price_feed =
  call_limit :: price
  short_limit :: price
  settlement_price :: price
  max_margin_period_sec :: int
  required_initial_collateral :: int
  required_maintenance_collateral :: int

definition default_feed :: price_feed where
  "default_feed = \<lparr>call_limit = null_price, short_limit = null_price,
     settlement_price = null_price, max_margin_period_sec = 30 * 60 * 60 * 24,
     required_initial_collateral = 2000, required_maintenance_collateral = 1750\<rparr>"

definition feed_validate :: "price_feed \<Rightarrow> bool" where
  "feed_validate f \<longleftrightarrow>
     (is_null (call_limit f) \<or> price_validate (call_limit f)) \<and>
     (is_null (short_limit f) \<or> price_validate (short_limit f)) \<and>
     (is_null (settlement_price f) \<or> price_validate (settlement_price f)) \<and>
     is_null (call_limit f) = is_null (short_limit f) \<and>
     asset_id (base (call_limit f)) = asset_id (quote (short_limit f)) \<and>
     asset_id (quote (call_limit f)) = asset_id (base (short_limit f)) \<and>
     max_margin_period_sec f > 0 \<and>
     required_maintenance_collateral f < required_initial_collateral f \<and>
     required_maintenance_collateral f \<ge> 1000 \<and>
     (is_null (call_limit f) \<or> price_lt (call_limit f) (price_inv (short_limit f)))"

subsection \<open>Lemmas: asset arithmetic\<close>

text \<open>Amounts as every order and balance holds them: non-negative and within int64.\<close>

definition amount_ok :: "asset \<Rightarrow> bool" where
  "amount_ok a \<longleftrightarrow> 0 \<le> amount a \<and> amount a < 2 ^ 63"

definition price_ok :: "price \<Rightarrow> bool" where
  "price_ok p \<longleftrightarrow> 0 < amount (base p) \<and> amount (base p) < 2 ^ 63 \<and>
     0 < amount (quote p) \<and> amount (quote p) < 2 ^ 63"

lemma asset_plus_Some [simp]:
  "asset_plus a b = Some c \<longleftrightarrow>
     asset_id a = asset_id b \<and> int64_ok (amount a + amount b) \<and>
     c = mk_asset (amount a + amount b) (asset_id a)"
  by (auto simp: asset_plus_def)

lemma asset_minus_Some [simp]:
  "asset_minus a b = Some c \<longleftrightarrow>
     asset_id a = asset_id b \<and> int64_ok (amount a - amount b) \<and>
     c = mk_asset (amount a - amount b) (asset_id a)"
  by (auto simp: asset_minus_def)

lemma asset_neg_Some [simp]:
  "asset_neg a = Some c \<longleftrightarrow>
     int64_ok (- amount a) \<and> c = mk_asset (- amount a) (asset_id a)"
  by (auto simp: asset_neg_def)

lemma asset_div_Some [simp]:
  "asset_div b q = Some p \<longleftrightarrow> asset_id b \<noteq> asset_id q \<and> p = mk_price b q"
  by (auto simp: asset_div_def)

lemma asset_ge_Some [simp]:
  "asset_ge a b = Some r \<longleftrightarrow> asset_id a = asset_id b \<and> r = (amount a \<ge> amount b)"
  by (auto simp: asset_ge_def)

lemma asset_gt_Some [simp]:
  "asset_gt a b = Some r \<longleftrightarrow> asset_id a = asset_id b \<and> r = (amount a > amount b)"
  by (auto simp: asset_gt_def)

lemma is_null_iff:
  "is_null p \<longleftrightarrow> asset_id (base p) = 0 \<and> asset_id (quote p) = 0"
  by (auto simp: is_null_def price_eq_def null_price_def u128_def)

subsection \<open>Lemmas: price order\<close>

lemma price_lt_same_market:
  assumes "asset_id (base a) = asset_id (base b)" "asset_id (quote a) = asset_id (quote b)"
    and "price_ok a" "price_ok b"
  shows "price_lt a b \<longleftrightarrow>
    amount (base a) * amount (quote b) < amount (base b) * amount (quote a)"
  using assms by (simp add: price_lt_def price_ok_def mult.commute [of "amount (quote b)"]
      mult.commute [of "amount (quote a)"])

lemma price_le_same_market:
  assumes "asset_id (base a) = asset_id (base b)" "asset_id (quote a) = asset_id (quote b)"
    and "price_ok a" "price_ok b"
  shows "price_le a b \<longleftrightarrow>
    amount (base a) * amount (quote b) \<le> amount (base b) * amount (quote a)"
  using assms by (simp add: price_le_def price_ok_def mult.commute [of "amount (quote b)"]
      mult.commute [of "amount (quote a)"])

lemma price_le_not_gt:
  assumes "price_ok a" "price_ok b"
  shows "price_le a b \<longleftrightarrow> \<not> price_lt b a"
  by (auto simp: price_le_def price_lt_def Let_def not_less mult.commute)

lemma price_lt_irrefl [simp]: "\<not> price_lt a a"
  by (simp add: price_lt_def)

lemma cross_mult_less_trans:
  fixes a b c :: int
  assumes "a * qb < b * qa" and "b * qc < c * qb" and "0 < qa" "0 < qb" "0 < qc"
  shows "a * qc < c * qa"
proof -
  have "(a * qc) * qb < (b * qa) * qc"
    using assms by (metis mult.assoc mult.commute mult_strict_right_mono)
  also have "\<dots> < (c * qa) * qb"
    using assms by (metis mult.assoc mult.commute mult_strict_right_mono)
  finally show ?thesis
    using assms(4) by (metis mult_less_cancel_right_pos)
qed

text \<open>Prices of different markets are ordered by their asset ids alone.\<close>

definition market_lt :: "price \<Rightarrow> price \<Rightarrow> bool" where
  "market_lt a b \<longleftrightarrow> asset_id (base a) < asset_id (base b) \<or>
     asset_id (base a) = asset_id (base b) \<and> asset_id (quote a) < asset_id (quote b)"

definition same_market :: "price \<Rightarrow> price \<Rightarrow> bool" where
  "same_market a b \<longleftrightarrow>
     asset_id (base a) = asset_id (base b) \<and> asset_id (quote a) = asset_id (quote b)"

lemma price_lt_market: "price_lt a b \<Longrightarrow> market_lt a b \<or> same_market a b"
  by (simp add: price_lt_def market_lt_def same_market_def Let_def split: if_splits)

lemma market_lt_price_lt: "market_lt a b \<Longrightarrow> price_lt a b"
  by (auto simp: price_lt_def market_lt_def)

lemma market_lt_not_price_lt: "market_lt a b \<Longrightarrow> \<not> price_lt b a"
  by (auto simp: price_lt_def market_lt_def)

lemma price_lt_trans:
  assumes "price_lt a b" and "price_lt b c" and "price_ok a" "price_ok b" "price_ok c"
  shows "price_lt a c"
proof (cases "same_market a b \<and> same_market b c")
  case True
  then have ab: "same_market a b" and bc: "same_market b c" by simp_all
  have "amount (base a) * amount (quote b) < amount (base b) * amount (quote a)"
    using price_lt_same_market [of a b] ab assms(1,3,4) by (simp add: same_market_def)
  moreover have "amount (base b) * amount (quote c) < amount (base c) * amount (quote b)"
    using price_lt_same_market [of b c] bc assms(2,4,5) by (simp add: same_market_def)
  ultimately have "amount (base a) * amount (quote c) < amount (base c) * amount (quote a)"
    by (rule cross_mult_less_trans) (use assms(3-5) in \<open>simp_all add: price_ok_def\<close>)
  with ab bc assms(3,5) show ?thesis
    using price_lt_same_market [of a c] by (simp add: same_market_def)
next
  case False
  moreover have "market_lt a b \<or> same_market a b" and "market_lt b c \<or> same_market b c"
    using assms by (auto dest: price_lt_market)
  ultimately have "market_lt a c"
    by (auto simp: market_lt_def same_market_def)
  then show ?thesis by (rule market_lt_price_lt)
qed

lemma price_inv_inv [simp]: "price_inv (price_inv p) = p"
  by (simp add: price_inv_def)

subsection \<open>Lemmas: multiplication by a price\<close>

lemma asset_mult_base:
  assumes "asset_id a = asset_id (base p)" and "amount_ok a" and "price_ok p"
  shows "asset_mult a p = Some r \<longleftrightarrow>
    amount a * amount (quote p) div amount (base p) \<le> BTS_MAX_SHARE_SUPPLY \<and>
    r = mk_asset (amount a * amount (quote p) div amount (base p)) (asset_id (quote p))"
  using assms
  by (auto simp: asset_mult_def amount_ok_def price_ok_def Let_def BTS_MAX_SHARE_SUPPLY_def)

lemma asset_mult_quote:
  assumes "asset_id a = asset_id (quote p)" and "asset_id (base p) \<noteq> asset_id (quote p)"
    and "amount_ok a" and "price_ok p"
  shows "asset_mult a p = Some r \<longleftrightarrow>
    amount a * amount (base p) div amount (quote p) \<le> BTS_MAX_SHARE_SUPPLY \<and>
    r = mk_asset (amount a * amount (base p) div amount (quote p)) (asset_id (base p))"
  using assms
  by (auto simp: asset_mult_def amount_ok_def price_ok_def Let_def BTS_MAX_SHARE_SUPPLY_def)

lemma asset_mult_id:
  "asset_mult a p = Some r \<Longrightarrow>
     asset_id r = (if asset_id a = asset_id (base p) then asset_id (quote p) else asset_id (base p))"
  by (auto simp: asset_mult_def Let_def split: if_splits)

lemma asset_mult_range:
  assumes "asset_mult a p = Some r"
  shows "0 \<le> amount r \<and> amount r \<le> BTS_MAX_SHARE_SUPPLY"
  using assms
  by (auto simp: asset_mult_def Let_def pos_imp_zdiv_nonneg_iff split: if_splits)

end
