(* ===== verification/Chain_Types.thy ===== *)
theory Chain_Types
  imports Asset Object_Id "HOL-Library.Product_Lexorder"
begin

section \<open>Chain-wide types and parameters\<close>

text \<open>
  Models the part of \<^verbatim>\<open>types.hpp\<close>, \<^verbatim>\<open>config.hpp\<close>, \<^verbatim>\<open>authority.hpp\<close> and \<^verbatim>\<open>asset_object.hpp\<close>
  (all under \<^verbatim>\<open>libraries/chain/include/bts/chain\<close>) that operations and objects are made of: the fee
  schedule, the chain parameters and their validation, weighted authorities, asset flags and options.
  Ids of one object type are instance numbers; an \<open>object_id_type\<close>, which may name an object of any
  type, is the triple (space, type, instance) that lemma \<open>object_id_decode_encode\<close> shows it packs. A
  \<open>flat_set\<close> is its sorted list of elements, a \<open>flat_map\<close> its list of entries in key order. Hashes
  and keys are opaque numbers.
\<close>

type_synonym key_id_type = nat
type_synonym account_id_type = nat
type_synonym witness_id_type = nat
type_synonym object_id_type = "nat \<times> nat \<times> nat"
type_synonym vote_id_type = "32 word"
type_synonym weight_type = int
type_synonym secret_hash_type = nat
type_synonym block_id_type = nat

definition protocol_ids :: nat where "protocol_ids = 1"
definition implementation_ids :: nat where "implementation_ids = 2"

definition key_object_type :: nat where "key_object_type = 2"
definition account_object_type :: nat where "account_object_type = 3"

definition oid_type :: "object_id_type \<Rightarrow> nat" where "oid_type i = fst (snd i)"
definition oid_space :: "object_id_type \<Rightarrow> nat" where "oid_space i = fst i"
definition oid_instance :: "object_id_type \<Rightarrow> nat" where "oid_instance i = snd (snd i)"

definition is_relative :: "object_id_type \<Rightarrow> bool" where "is_relative i \<longleftrightarrow> oid_space i = 0"

definition key_oid :: "key_id_type \<Rightarrow> object_id_type" where "key_oid k = (protocol_ids, key_object_type, k)"
definition account_oid :: "account_id_type \<Rightarrow> object_id_type" where
  "account_oid a = (protocol_ids, account_object_type, a)"

subsection \<open>Flat sets\<close>

definition fs_insert :: "'a::linorder \<Rightarrow> 'a list \<Rightarrow> 'a list" where
  "fs_insert x xs = (if x \<in> set xs then xs else insort x xs)"

definition fs_erase :: "'a \<Rightarrow> 'a list \<Rightarrow> 'a list" where
  "fs_erase x xs = filter (\<lambda>y. y \<noteq> x) xs"

lemma set_fs_insert [simp]: "set (fs_insert x xs) = insert x (set xs)"
  by (auto simp: fs_insert_def set_insort_key)

lemma set_fs_erase [simp]: "set (fs_erase x xs) = set xs - {x}"
  by (auto simp: fs_erase_def)

lemma sorted_fs_insert [simp]: "sorted xs \<Longrightarrow> sorted (fs_insert x xs)"
  by (simp add: fs_insert_def sorted_insort)

lemma distinct_fs_insert [simp]: "distinct xs \<Longrightarrow> distinct (fs_insert x xs)"
  by (simp add: fs_insert_def distinct_insort)

subsection \<open>Fee schedule\<close>

datatype (plugins only: code size) fee_type =
    key_create_fee_type | account_create_fee_type | account_len8_fee_type | account_len7_fee_type
  | account_len6_fee_type | account_len5_fee_type | account_len4_fee_type | account_len3_fee_type
  | account_premium_fee_type | account_whitelist_fee_type | delegate_create_fee_type
  | witness_withdraw_pay_fee_type | transfer_fee_type | limit_order_fee_type | short_order_fee_type
  | publish_feed_fee_type | asset_create_fee_type | asset_update_fee_type | asset_issue_fee_type
  | asset_fund_fee_pool_fee_type | asset_settle_fee_type | market_fee_type | transaction_fee_type
  | data_fee_type | signature_fee_type | global_parameters_update_fee_type | prime_upgrade_fee_type
  | withdraw_permission_update_fee_type | create_bond_offer_fee_type | cancel_bond_offer_fee_type
  | accept_bond_offer_fee_type | claim_bond_collateral_fee_type | file_storage_fee_per_day_type
  | vesting_balance_create_fee_type | vesting_balance_withdraw_fee_type | global_settle_fee_type
  | worker_create_fee_type | worker_delete_fee_type

definition fee_types :: "fee_type list" where
  "fee_types = [key_create_fee_type, account_create_fee_type, account_len8_fee_type,
     account_len7_fee_type, account_len6_fee_type, account_len5_fee_type, account_len4_fee_type,
     account_len3_fee_type, account_premium_fee_type, account_whitelist_fee_type,
     delegate_create_fee_type, witness_withdraw_pay_fee_type, transfer_fee_type,
     limit_order_fee_type, short_order_fee_type, publish_feed_fee_type, asset_create_fee_type,
     asset_update_fee_type, asset_issue_fee_type, asset_fund_fee_pool_fee_type,
     asset_settle_fee_type, market_fee_type, transaction_fee_type, data_fee_type,
     signature_fee_type, global_parameters_update_fee_type, prime_upgrade_fee_type,
     withdraw_permission_update_fee_type, create_bond_offer_fee_type, cancel_bond_offer_fee_type,
     accept_bond_offer_fee_type, claim_bond_collateral_fee_type, file_storage_fee_per_day_type,
     vesting_balance_create_fee_type, vesting_balance_withdraw_fee_type, global_settle_fee_type,
     worker_create_fee_type, worker_delete_fee_type]"

definition FEE_TYPE_COUNT :: nat where "FEE_TYPE_COUNT = length fee_types"

text \<open>The enumeration value of a fee type; a schedule holds the fees in this order.\<close>

fun position :: "'a \<Rightarrow> 'a list \<Rightarrow> nat" where
  "position x [] = 0"
| "position x (y # ys) = (if x = y then 0 else Suc (position x ys))"

definition fee_index :: "fee_type \<Rightarrow> nat" where
  "fee_index t = position t fee_types"

type_synonym fee_schedule_type = "int list"

definition fees_ok :: "fee_schedule_type \<Rightarrow> bool" where
  "fees_ok k \<longleftrightarrow> length k = FEE_TYPE_COUNT \<and> (\<forall>f \<in> set k. 0 \<le> f \<and> f < 2 ^ 32)"

definition fee_at :: "fee_schedule_type \<Rightarrow> nat \<Rightarrow> share_type option" where
  "fee_at k f = do {
     fc_assert (f < FEE_TYPE_COUNT);
     if f < length k then Some (k ! f) else None }"

definition fee_set :: "nat \<Rightarrow> share_type \<Rightarrow> fee_schedule_type \<Rightarrow> fee_schedule_type option" where
  "fee_set f v k = do {
     fc_assert (f < FEE_TYPE_COUNT \<and> v \<le> 2 ^ 32 - 1);
     Some (k[f := uint32 v]) }"

abbreviation fee_of :: "fee_schedule_type \<Rightarrow> fee_type \<Rightarrow> share_type option" where
  "fee_of k t \<equiv> fee_at k (fee_index t)"

lemma fee_index_less [simp]: "fee_index t < FEE_TYPE_COUNT"
  by (cases t) (simp_all add: fee_index_def fee_types_def FEE_TYPE_COUNT_def)

lemma fee_at_ok:
  assumes "fees_ok k" "f < FEE_TYPE_COUNT"
  obtains v where "fee_at k f = Some v" "0 \<le> v" "v < 2 ^ 32"
  using assms by (auto simp: fee_at_def fees_ok_def)

lemma fee_at_range: "fees_ok k \<Longrightarrow> fee_at k f = Some v \<Longrightarrow> 0 \<le> v \<and> v < 2 ^ 32"
  by (auto simp: fee_at_def fees_ok_def split: if_splits)

subsection \<open>Chain parameters\<close>

record chain_parameters =
  current_fees :: fee_schedule_type
  witness_pay_percent_of_accumulated :: int
  block_interval :: int
  maintenance_interval :: int
  maximum_transaction_size :: int
  maximum_block_size :: int
  maximum_undo_history :: int
  maximum_time_until_expiration :: int
  maximum_proposal_lifetime :: int
  genesis_proposal_review_period :: int
  maximum_asset_whitelist_authorities :: int
  maximum_asset_feed_publishers :: int
  maximum_witness_count :: int
  maximum_committee_count :: int
  maximum_authority_membership :: int
  burn_percent_of_fee :: int
  witness_percent_of_fee :: int
  cashback_vesting_period_seconds :: int
  max_bulk_discount_percent_of_fee :: int
  bulk_discount_threshold_min :: share_type
  bulk_discount_threshold_max :: share_type
  count_non_prime_votes :: bool
  allow_non_prime_whitelists :: bool
  witness_pay_per_block :: share_type
  worker_budget_per_day :: share_type

definition BTS_WITNESS_PAY_PERCENT_PRECISION :: int where "BTS_WITNESS_PAY_PERCENT_PRECISION = 1000000000"
definition BTS_MAX_BLOCK_INTERVAL :: int where "BTS_MAX_BLOCK_INTERVAL = 30"
definition BTS_MIN_TRANSACTION_SIZE_LIMIT :: int where "BTS_MIN_TRANSACTION_SIZE_LIMIT = 1024"
definition BTS_MIN_BLOCK_SIZE_LIMIT :: int where "BTS_MIN_BLOCK_SIZE_LIMIT = 1024 * 5"
definition BTS_MIN_COLLATERAL_RATIO :: int where "BTS_MIN_COLLATERAL_RATIO = 1001"
definition BTS_MAX_COLLATERAL_RATIO :: int where "BTS_MAX_COLLATERAL_RATIO = 32000"
definition MAX_INTEREST_APR :: int where "MAX_INTEREST_APR = 10000"

definition parameters_validate :: "chain_parameters \<Rightarrow> bool" where
  "parameters_validate p \<longleftrightarrow>
     witness_percent_of_fee p \<le> BTS_100_PERCENT \<and>
     burn_percent_of_fee p \<le> BTS_100_PERCENT \<and>
     max_bulk_discount_percent_of_fee p \<le> BTS_100_PERCENT \<and>
     burn_percent_of_fee p + witness_percent_of_fee p \<le> BTS_100_PERCENT \<and>
     bulk_discount_threshold_min p \<le> bulk_discount_threshold_max p \<and>
     bulk_discount_threshold_min p > 0 \<and>
     witness_pay_percent_of_accumulated p < BTS_WITNESS_PAY_PERCENT_PRECISION \<and>
     block_interval p \<le> BTS_MAX_BLOCK_INTERVAL \<and>
     block_interval p > 0 \<and>
     maintenance_interval p > block_interval p \<and>
     maintenance_interval p mod block_interval p = 0 \<and>
     maximum_transaction_size p \<ge> BTS_MIN_TRANSACTION_SIZE_LIMIT \<and>
     maximum_block_size p \<ge> BTS_MIN_BLOCK_SIZE_LIMIT \<and>
     maximum_time_until_expiration p > block_interval p \<and>
     uint32 (maximum_proposal_lifetime p - genesis_proposal_review_period p) > block_interval p \<and>
     list_all (\<lambda>i. case fee_at (current_fees p) i of None \<Rightarrow> False | Some f \<Rightarrow> f \<ge> 0) [0..<FEE_TYPE_COUNT]"

text \<open>The parameters of a default-constructed \<open>chain_parameters\<close> (\<^verbatim>\<open>config.hpp\<close>).\<close>

definition default_fees :: fee_schedule_type where
  "default_fees = replicate FEE_TYPE_COUNT 0"

definition default_parameters :: chain_parameters where
  "default_parameters = \<lparr>current_fees = default_fees, witness_pay_percent_of_accumulated = 1728000,
     block_interval = 5, maintenance_interval = 60 * 60 * 24, maximum_transaction_size = 2048,
     maximum_block_size = 2048 * 5 * 200000, maximum_undo_history = 1024,
     maximum_time_until_expiration = 60 * 60 * 24, maximum_proposal_lifetime = 60 * 60 * 24 * 7 * 4,
     genesis_proposal_review_period = 60 * 60 * 24 * 7 * 2, maximum_asset_whitelist_authorities = 10,
     maximum_asset_feed_publishers = 10, maximum_witness_count = 1001, maximum_committee_count = 1001,
     maximum_authority_membership = 10, burn_percent_of_fee = 10000 div 5,
     witness_percent_of_fee = 10000 div 100, cashback_vesting_period_seconds = 60 * 60 * 24 * 365,
     max_bulk_discount_percent_of_fee = 10000 div 2, bulk_discount_threshold_min = 100000 * 1000,
     bulk_discount_threshold_max = 100000 * 1000 * 100, count_non_prime_votes = True,
     allow_non_prime_whitelists = False, witness_pay_per_block = 100000 * 10,
     worker_budget_per_day = 100000 * 500 * 1000\<rparr>"

lemma default_fees_ok: "fees_ok default_fees"
  by (simp add: fees_ok_def default_fees_def)

lemma default_parameters_valid: "parameters_validate default_parameters"
  by (simp add: parameters_validate_def default_parameters_def default_fees_def fee_at_def BTS_100_PERCENT_def
      BTS_WITNESS_PAY_PERCENT_PRECISION_def BTS_MAX_BLOCK_INTERVAL_def BTS_MIN_TRANSACTION_SIZE_LIMIT_def
      BTS_MIN_BLOCK_SIZE_LIMIT_def list_all_iff)

subsection \<open>Authorities\<close>

record authority =
  weight_threshold :: int
  auths :: "(object_id_type \<times> weight_type) list"

definition null_authority :: authority where
  "null_authority = \<lparr>weight_threshold = 0, auths = []\<rparr>"

text \<open>\<open>flat_map::operator[]\<close>: replace the entry of the key, or insert it at its place.\<close>

fun fm_put :: "'k::linorder \<Rightarrow> 'v \<Rightarrow> ('k \<times> 'v) list \<Rightarrow> ('k \<times> 'v) list" where
  "fm_put k v [] = [(k, v)]"
| "fm_put k v ((j, w) # xs) =
     (if k = j then (k, v) # xs
      else if k < j then (k, v) # (j, w) # xs
      else (j, w) # fm_put k v xs)"

lemma map_of_fm_put: "map_of (fm_put k v xs) = (map_of xs)(k \<mapsto> v)" if "sorted (map fst xs)"
  using that by (induction xs) (auto simp: fun_eq_iff map_of_eq_None_iff)

definition add_authority :: "object_id_type \<Rightarrow> weight_type \<Rightarrow> authority \<Rightarrow> authority" where
  "add_authority k w a = a\<lparr>auths := fm_put k w (auths a)\<rparr>"

definition get_keys :: "authority \<Rightarrow> object_id_type list" where
  "get_keys a = map fst (filter (\<lambda>item. oid_type (fst item) = key_object_type) (auths a))"

subsection \<open>Asset options\<close>

definition charge_market_fee :: int where "charge_market_fee = 1"
definition white_list :: int where "white_list = 2"
definition override_authority :: int where "override_authority = 8"
definition transfer_restricted :: int where "transfer_restricted = 16"
definition market_issued :: int where "market_issued = 32"
definition disable_force_settle :: int where "disable_force_settle = 64"
definition global_settle :: int where "global_settle = 128"

lemmas asset_flag_defs = charge_market_fee_def white_list_def override_authority_def
  transfer_restricted_def market_issued_def disable_force_settle_def global_settle_def

definition ASSET_ISSUER_PERMISSION_MASK :: int where
  "ASSET_ISSUER_PERMISSION_MASK = charge_market_fee OR white_list OR override_authority OR
     transfer_restricted OR market_issued OR disable_force_settle OR global_settle OR transfer_restricted"

definition UIA_ASSET_ISSUER_PERMISSION_MASK :: int where
  "UIA_ASSET_ISSUER_PERMISSION_MASK =
     charge_market_fee OR white_list OR override_authority OR transfer_restricted"

definition has_flag :: "int \<Rightarrow> int \<Rightarrow> bool" where
  "has_flag fl m \<longleftrightarrow> fl AND m \<noteq> 0"

record asset_options =
  max_supply :: share_type
  market_fee_percent :: int
  max_market_fee :: share_type
  min_market_fee :: share_type
  issuer_permissions :: int
  flags :: int
  core_exchange_rate :: price
  whitelist_authorities :: "account_id_type list"
  blacklist_authorities :: "account_id_type list"
  whitelist_markets :: "asset_id_type list"
  blacklist_markets :: "asset_id_type list"

record bitasset_options =
  feed_lifetime_sec :: int
  force_settlement_delay_sec :: int
  force_settlement_offset_percent :: int
  maximum_force_settlement_volume :: int
  short_backing_asset :: asset_id_type
  prediction_market :: bool

definition options_validate :: "asset_options \<Rightarrow> bool" where
  "options_validate opt \<longleftrightarrow>
     max_supply opt > 0 \<and>
     max_supply opt \<le> BTS_MAX_SHARE_SUPPLY \<and>
     market_fee_percent opt \<le> BTS_100_PERCENT \<and>
     (max_market_fee opt \<ge> 0 \<and> max_market_fee opt \<le> BTS_MAX_SHARE_SUPPLY) \<and>
     (min_market_fee opt \<ge> 0 \<and> min_market_fee opt \<le> BTS_MAX_SHARE_SUPPLY) \<and>
     \<not> has_flag (issuer_permissions opt) (NOT ASSET_ISSUER_PERMISSION_MASK) \<and>
     (has_flag (issuer_permissions opt) (disable_force_settle OR global_settle) \<longrightarrow>
        has_flag (issuer_permissions opt) market_issued) \<and>
     (has_flag (issuer_permissions opt) transfer_restricted \<longrightarrow>
        \<not> has_flag (issuer_permissions opt) market_issued) \<and>
     \<not> has_flag (flags opt) (NOT (issuer_permissions opt)) \<and>
     price_validate (core_exchange_rate opt) \<and>
     (asset_id (base (core_exchange_rate opt)) = 0 \<or> asset_id (quote (core_exchange_rate opt)) = 0) \<and>
     (whitelist_authorities opt \<noteq> [] \<or> blacklist_authorities opt \<noteq> [] \<longrightarrow> has_flag (flags opt) white_list) \<and>
     (\<forall>item \<in> set (whitelist_markets opt). item \<notin> set (blacklist_markets opt)) \<and>
     (\<forall>item \<in> set (blacklist_markets opt). item \<notin> set (whitelist_markets opt))"

definition bitasset_options_validate :: "bitasset_options \<Rightarrow> bool" where
  "bitasset_options_validate opt \<longleftrightarrow>
     force_settlement_offset_percent opt \<le> BTS_100_PERCENT \<and>
     maximum_force_settlement_volume opt \<le> BTS_100_PERCENT"

text \<open>
  A flag that is set on a valid asset was permitted, and the combinations that the documentation
  rules out cannot arise: a market-issued asset is never transfer restricted.
\<close>

lemma has_flag_bit: "has_flag f (2 ^ n) \<longleftrightarrow> bit f n"
proof -
  have "f AND 2 ^ n = (if bit f n then 2 ^ n else 0)"
    by (rule bit_eqI) (auto simp: bit_simps)
  then show ?thesis by (simp add: has_flag_def)
qed

lemma flag_bits:
  "has_flag f charge_market_fee = bit f 0" "has_flag f white_list = bit f 1"
  "has_flag f override_authority = bit f 3" "has_flag f transfer_restricted = bit f 4"
  "has_flag f market_issued = bit f 5" "has_flag f disable_force_settle = bit f 6"
  "has_flag f global_settle = bit f 7"
  using has_flag_bit [of f 0] has_flag_bit [of f 1] has_flag_bit [of f 3] has_flag_bit [of f 4]
    has_flag_bit [of f 5] has_flag_bit [of f 6] has_flag_bit [of f 7]
  by (simp_all add: asset_flag_defs)

lemma flags_permitted:
  assumes "\<not> has_flag f (NOT p)" "bit f n"
  shows "bit p n"
proof (rule ccontr)
  assume "\<not> bit p n"
  with assms(2) have "bit (f AND NOT p) n" by (simp add: bit_simps)
  moreover have "f AND NOT p = 0" using assms(1) by (simp add: has_flag_def)
  ultimately show False by simp
qed

lemma valid_options_not_restricted:
  assumes "options_validate opt" "has_flag (flags opt) transfer_restricted"
  shows "\<not> has_flag (flags opt) market_issued"
  using assms flags_permitted [of "flags opt" "issuer_permissions opt"]
  by (auto simp: options_validate_def flag_bits)

end
