(* ===== verification/Names.thy ===== *)
theory Names
  imports Prelude "HOL-Library.Char_ord"
begin

section \<open>Account names and asset symbols\<close>

text \<open>
  Models \<open>is_valid_symbol\<close>, \<open>is_valid_name\<close> and \<open>is_cheap_name\<close> of
  \<^verbatim>\<open>libraries/chain/operations.cpp\<close>. Each loop over the characters is a recursion that carries the
  loop's variables. The lemmas give the language each function accepts, stated without the loop.
\<close>

definition is_upper :: "char \<Rightarrow> bool" where "is_upper c \<longleftrightarrow> CHR ''A'' \<le> c \<and> c \<le> CHR ''Z''"
definition is_lower :: "char \<Rightarrow> bool" where "is_lower c \<longleftrightarrow> CHR ''a'' \<le> c \<and> c \<le> CHR ''z''"
definition is_digit :: "char \<Rightarrow> bool" where "is_digit c \<longleftrightarrow> CHR ''0'' \<le> c \<and> c \<le> CHR ''9''"
definition is_separator :: "char \<Rightarrow> bool" where "is_separator c \<longleftrightarrow> c \<in> {CHR ''/'', CHR ''.'', CHR ''-''}"

subsection \<open>Symbols\<close>

text \<open>The loop: the number of dots, or an early \<open>return false\<close>.\<close>

fun symbol_dots :: "string \<Rightarrow> nat \<Rightarrow> nat option" where
  "symbol_dots [] dot_count = Some dot_count"
| "symbol_dots (c # cs) dot_count =
     (if c = CHR ''.'' then symbol_dots cs (Suc dot_count)
      else if \<not> is_upper c then None
      else symbol_dots cs dot_count)"

definition is_valid_symbol :: "string \<Rightarrow> bool" where
  "is_valid_symbol symbol =
     (if length symbol > 17 then False
      else if length symbol < 3 then False
      else case symbol_dots symbol 0 of
        None \<Rightarrow> False
      | Some dot_count \<Rightarrow>
          if hd symbol = CHR ''.'' \<or> last symbol = CHR ''.'' then False
          else dot_count \<le> 1)"

lemma symbol_dots_eq:
  "symbol_dots s n = (if \<forall>c \<in> set s. c = CHR ''.'' \<or> is_upper c
                      then Some (n + count_list s (CHR ''.'')) else None)"
  by (induction s arbitrary: n) (auto simp: is_upper_def)

subsection \<open>Names\<close>

fun name_chars_ok :: "string \<Rightarrow> nat \<Rightarrow> char \<Rightarrow> bool" where
  "name_chars_ok [] num_slash prev = True"
| "name_chars_ok (c # cs) num_slash prev =
     (if is_lower c then name_chars_ok cs num_slash c
      else if is_digit c then
        (if prev = CHR '' '' \<or> prev = CHR ''.'' \<or> prev = CHR ''-'' \<or> prev = CHR ''/'' then False
         else name_chars_ok cs num_slash c)
      else if is_separator c then
        (let n = (if c = CHR ''/'' then Suc num_slash else num_slash) in
         if n > 1 then False
         else if prev = CHR '' '' \<or> prev = CHR ''/'' \<or> prev = CHR ''.'' \<or> prev = CHR ''-'' then False
         else name_chars_ok cs n c)
      else False)"

definition is_valid_name :: "string \<Rightarrow> bool" where
  "is_valid_name s =
     (if length s < 2 then False
      else if length s \<ge> 64 then False
      else if \<not> name_chars_ok s 0 (CHR '' '') then False
      else \<not> is_separator (last s))"

text \<open>A label starts with a letter and goes on with letters and digits.\<close>

fun labels_ok :: "bool \<Rightarrow> string \<Rightarrow> bool" where
  "labels_ok start [] \<longleftrightarrow> \<not> start"
| "labels_ok start (c # cs) \<longleftrightarrow>
     (if is_separator c then \<not> start \<and> labels_ok True cs
      else (is_lower c \<or> \<not> start \<and> is_digit c) \<and> labels_ok False cs)"

text \<open>The specification: labels joined by separators, at most one of them a slash.\<close>

definition name_spec :: "string \<Rightarrow> bool" where
  "name_spec s \<longleftrightarrow> 2 \<le> length s \<and> length s < 64 \<and> labels_ok True s \<and> count_list s (CHR ''/'') \<le> 1"

lemma sep_not_alnum:
  "is_separator c \<Longrightarrow> \<not> is_lower c" "is_separator c \<Longrightarrow> \<not> is_digit c"
  "is_separator c \<Longrightarrow> c \<noteq> CHR '' ''"
  by (auto simp: is_separator_def is_lower_def is_digit_def)

lemma separator_cases:
  "(prev = CHR '' '' \<or> prev = CHR ''.'' \<or> prev = CHR ''-'' \<or> prev = CHR ''/'') \<longleftrightarrow>
     prev = CHR '' '' \<or> is_separator prev"
  "(prev = CHR '' '' \<or> prev = CHR ''/'' \<or> prev = CHR ''.'' \<or> prev = CHR ''-'') \<longleftrightarrow>
     prev = CHR '' '' \<or> is_separator prev"
  by (auto simp: is_separator_def)

lemma alnum_not_sep:
  "is_lower c \<Longrightarrow> \<not> is_separator c" "is_digit c \<Longrightarrow> \<not> is_separator c"
  "is_lower c \<Longrightarrow> c \<noteq> CHR '' ''" "is_digit c \<Longrightarrow> c \<noteq> CHR '' ''"
  by (auto simp: is_separator_def is_lower_def is_digit_def)

lemma name_chars_ok_eq:
  assumes "n \<le> 1"
  shows "name_chars_ok s n prev \<and> (s \<noteq> [] \<longrightarrow> \<not> is_separator (last s)) \<and>
      (s = [] \<longrightarrow> prev \<noteq> CHR '' '' \<and> \<not> is_separator prev) \<longleftrightarrow>
    labels_ok (prev = CHR '' '' \<or> is_separator prev) s \<and> n + count_list s (CHR ''/'') \<le> 1"
  using assms
proof (induction s arbitrary: n prev)
  case Nil
  then show ?case by auto
next
  case (Cons c cs)
  let ?m = "if c = CHR ''/'' then Suc n else n"
  have sl: "is_separator (CHR ''/'')" by (simp add: is_separator_def)
  show ?case
  proof (cases "is_separator c")
    case True
    show ?thesis
    proof (cases "?m \<le> 1")
      case m: True
      have "name_chars_ok (c # cs) n prev \<longleftrightarrow>
          \<not> (prev = CHR '' '' \<or> is_separator prev) \<and> name_chars_ok cs ?m c"
        using True m by (auto simp only: name_chars_ok.simps sep_not_alnum if_False Let_def
            separator_cases if_True not_less split: if_splits)
      with Cons.IH [OF m, of c] True show ?thesis by (cases cs) auto
    next
      case False
      then have "\<not> name_chars_ok (c # cs) n prev"
        using True by (simp add: Let_def sep_not_alnum)
      moreover from False have "\<not> n + count_list (c # cs) (CHR ''/'') \<le> 1" by (auto split: if_splits)
      ultimately show ?thesis by blast
    qed
  next
    case False
    then have ns: "c \<noteq> CHR ''/''" using sl by blast
    have "name_chars_ok (c # cs) n prev \<longleftrightarrow>
        (is_lower c \<or> \<not> (prev = CHR '' '' \<or> is_separator prev) \<and> is_digit c) \<and> name_chars_ok cs n c"
      using False by (auto simp: separator_cases)
    moreover have "labels_ok (prev = CHR '' '' \<or> is_separator prev) (c # cs) \<longleftrightarrow>
        (is_lower c \<or> \<not> (prev = CHR '' '' \<or> is_separator prev) \<and> is_digit c) \<and> labels_ok False cs"
      using False by (simp only: labels_ok.simps if_False)
    moreover have "count_list (c # cs) (CHR ''/'') = count_list cs (CHR ''/'')" using ns by simp
    moreover have "is_separator (last (c # cs)) \<longleftrightarrow> cs \<noteq> [] \<and> is_separator (last cs)"
      using False by simp
    moreover have "c \<noteq> CHR '' ''" if "is_lower c \<or> is_digit c"
      using alnum_not_sep(3,4) [of c] that by blast
    ultimately show ?thesis
      using Cons.IH [OF Cons.prems, of c] False by (cases "is_lower c \<or> is_digit c") auto
  qed
qed

subsection \<open>Cheap names\<close>

definition is_vowel :: "char \<Rightarrow> bool" where "is_vowel c \<longleftrightarrow> c \<in> set ''aeiouy''"

primrec cheap_name :: "string \<Rightarrow> bool \<Rightarrow> bool" where
  "cheap_name [] v = (if \<not> v then True else False)"
| "cheap_name (c # cs) v =
     (if is_digit c then True
      else if c = CHR ''.'' \<or> c = CHR ''-'' \<or> c = CHR ''/'' then True
      else cheap_name cs (if is_vowel c then True else v))"

definition is_cheap_name :: "string \<Rightarrow> bool" where
  "is_cheap_name n = cheap_name n False"

lemma cheap_name_Cons:
  "cheap_name (c # cs) v \<longleftrightarrow> is_digit c \<or> is_separator c \<or> cheap_name cs (is_vowel c \<or> v)"
  by (simp add: is_separator_def)

lemma cheap_name_eq:
  "cheap_name s v \<longleftrightarrow> (\<exists>c \<in> set s. is_digit c \<or> is_separator c) \<or> \<not> v \<and> (\<forall>c \<in> set s. \<not> is_vowel c)"
proof (induction s arbitrary: v)
  case Nil
  show ?case by simp
next
  case (Cons c cs)
  show ?case unfolding cheap_name_Cons Cons.IH by (simp only: list.set ball_simps bex_simps) blast
qed

subsection \<open>Properties\<close>

text \<open>
  \<open>is_valid_symbol\<close> accepts exactly the strings of 3 to 17 upper case letters and dots with at
  most one dot, which is neither the first nor the last character.
\<close>

theorem is_valid_symbol_iff:
  "is_valid_symbol s \<longleftrightarrow> 3 \<le> length s \<and> length s \<le> 17 \<and>
     list_all (\<lambda>c. c = CHR ''.'' \<or> is_upper c) s \<and> count_list s (CHR ''.'') \<le> 1 \<and>
     hd s \<noteq> CHR ''.'' \<and> last s \<noteq> CHR ''.''"
  by (auto simp: is_valid_symbol_def symbol_dots_eq list_all_iff)


end
