(* ===== verification/Operations.thy ===== *)
theory Operations
  imports Chain_Types Names
begin

section \<open>Operations\<close>

text \<open>
  Models \<^verbatim>\<open>libraries/chain/include/bts/chain/operations.hpp\<close> and \<^verbatim>\<open>operations.cpp\<close>: one record per
  operation struct, the discriminated union of them, and for each operation who pays its fee, which
  authorities it requires, the checks of \<open>validate\<close> and the fee of \<open>calculate_fee\<close>. Field names carry
  a prefix per struct, since the structs share them.
\<close>

record memo_data =
  memo_from :: key_id_type
  memo_to :: key_id_type
  memo_nonce :: int
  memo_message :: string

text \<open>\<open>static_variant<address, public_key_type>\<close>\<close>

datatype key_data = Address nat | Public_Key nat

record key_create_operation =
  kc_fee :: asset
  kc_fee_paying_account :: account_id_type
  kc_key_data :: key_data

record account_create_operation =
  ac_fee :: asset
  ac_registrar :: account_id_type
  ac_referrer :: account_id_type
  ac_referrer_percent :: int
  ac_name :: string
  ac_owner :: authority
  ac_active :: authority
  ac_voting_account :: account_id_type
  ac_memo_key :: object_id_type
  ac_num_witness :: int
  ac_num_committee :: int
  ac_vote :: "vote_id_type list"

record account_whitelist_operation =
  aw_fee :: asset
  aw_authorizing_account :: account_id_type
  aw_account_to_list :: account_id_type
  aw_new_listing :: int

record account_update_operation =
  au_fee :: asset
  au_account :: account_id_type
  au_owner :: "authority option"
  au_active :: "authority option"
  au_voting_account :: "account_id_type option"
  au_memo_key :: "object_id_type option"
  au_vote :: "vote_id_type list option"
  au_num_witness :: int
  au_num_committee :: int
  au_upgrade_to_prime :: bool

record delegate_create_operation =
  dc_fee :: asset
  dc_delegate_account :: account_id_type

record account_transfer_operation =
  at_fee :: asset
  at_account_id :: account_id_type
  at_new_owner :: account_id_type

record witness_create_operation =
  wc_fee :: asset
  wc_witness_account :: account_id_type
  wc_block_signing_key :: key_id_type
  wc_initial_secret :: secret_hash_type

record witness_withdraw_pay_operation =
  ww_fee :: asset
  ww_to_account :: account_id_type
  ww_from_witness :: witness_id_type
  ww_amount :: share_type

record global_parameters_update_operation =
  gp_fee :: asset
  gp_new_parameters :: chain_parameters

record transfer_operation =
  tr_fee :: asset
  tr_from :: account_id_type
  tr_to :: account_id_type
  tr_amount :: asset
  tr_memo :: "memo_data option"

record asset_create_operation =
  cr_fee :: asset
  cr_issuer :: account_id_type
  cr_symbol :: string
  cr_precision :: int
  cr_common_options :: asset_options
  cr_bitasset_options :: "bitasset_options option"

record asset_global_settle_operation =
  gs_fee :: asset
  gs_issuer :: account_id_type
  gs_asset_to_settle :: asset_id_type
  gs_settle_price :: price

record asset_settle_operation =
  as_fee :: asset
  as_account :: account_id_type
  as_amount :: asset

record asset_fund_fee_pool_operation =
  ff_fee :: asset
  ff_from_account :: account_id_type
  ff_asset_id :: asset_id_type
  ff_amount :: share_type

record asset_update_operation =
  up_fee :: asset
  up_issuer :: account_id_type
  up_asset_to_update :: asset_id_type
  up_new_issuer :: "account_id_type option"
  up_new_options :: asset_options

record asset_update_bitasset_operation =
  ub_fee :: asset
  ub_issuer :: account_id_type
  ub_asset_to_update :: asset_id_type
  ub_new_options :: bitasset_options

record asset_update_feed_producers_operation =
  uf_fee :: asset
  uf_issuer :: account_id_type
  uf_asset_to_update :: asset_id_type
  uf_new_feed_producers :: "account_id_type list"

record asset_publish_feed_operation =
  pf_fee :: asset
  pf_publisher :: account_id_type
  pf_asset_id :: asset_id_type
  pf_feed :: price_feed

record asset_issue_operation =
  ai_fee :: asset
  ai_issuer :: account_id_type
  ai_asset_to_issue :: asset
  ai_issue_to_account :: account_id_type
  ai_memo :: "memo_data option"

record asset_burn_operation =
  ab_fee :: asset
  ab_payer :: account_id_type
  ab_amount_to_burn :: asset

record limit_order_create_operation =
  lo_fee :: asset
  lo_seller :: account_id_type
  lo_amount_to_sell :: asset
  lo_min_to_receive :: asset
  lo_expiration :: time_point_sec
  lo_fill_or_kill :: bool

record limit_order_cancel_operation =
  lc_order :: nat
  lc_fee_paying_account :: account_id_type
  lc_fee :: asset

record short_order_create_operation =
  so_seller :: account_id_type
  so_amount_to_sell :: asset
  so_fee :: asset
  so_collateral :: asset
  so_initial_collateral_ratio :: int
  so_maintenance_collateral_ratio :: int
  so_expiration :: time_point_sec

record short_order_cancel_operation =
  sc_order :: nat
  sc_fee_paying_account :: account_id_type
  sc_fee :: asset

record call_order_update_operation =
  cu_funding_account :: account_id_type
  cu_fee :: asset
  cu_collateral_to_add :: asset
  cu_amount_to_cover :: asset
  cu_maintenance_collateral_ratio :: int

text \<open>The proposal holds operations, so it is a datatype: \<open>op_wrapper\<close> only breaks the same cycle.\<close>

datatype 'op proposal_create_operation = Proposal_Create
  (pc_fee_paying_account: account_id_type) (pc_fee: asset) (pc_proposed_ops: "'op list")
  (pc_expiration_time: time_point_sec) (pc_review_period_seconds: "int option")

record proposal_update_operation =
  pu_fee_paying_account :: account_id_type
  pu_fee :: asset
  pu_proposal :: nat
  pu_active_approvals_to_add :: "account_id_type list"
  pu_active_approvals_to_remove :: "account_id_type list"
  pu_owner_approvals_to_add :: "account_id_type list"
  pu_owner_approvals_to_remove :: "account_id_type list"
  pu_key_approvals_to_add :: "key_id_type list"
  pu_key_approvals_to_remove :: "key_id_type list"

record proposal_delete_operation =
  pd_fee_paying_account :: account_id_type
  pd_using_owner_authority :: bool
  pd_fee :: asset
  pd_proposal :: nat

record fill_order_operation =
  fo_order_id :: object_id_type
  fo_account_id :: account_id_type
  fo_pays :: asset
  fo_receives :: asset
  fo_fee :: asset

record withdraw_permission_create_operation =
  wpc_fee :: asset
  wpc_withdraw_from_account :: account_id_type
  wpc_authorized_account :: account_id_type
  wpc_withdrawal_limit :: asset
  wpc_withdrawal_period_sec :: int
  wpc_periods_until_expiration :: int
  wpc_period_start_time :: time_point_sec

record withdraw_permission_update_operation =
  wpu_fee :: asset
  wpu_withdraw_from_account :: account_id_type
  wpu_authorized_account :: account_id_type
  wpu_permission_to_update :: nat
  wpu_withdrawal_limit :: asset
  wpu_withdrawal_period_sec :: int
  wpu_period_start_time :: time_point_sec
  wpu_periods_until_expiration :: int

record withdraw_permission_claim_operation =
  wpk_fee :: asset
  wpk_withdraw_permission :: nat
  wpk_withdraw_from_account :: account_id_type
  wpk_withdraw_to_account :: account_id_type
  wpk_amount_to_withdraw :: asset
  wpk_memo :: "memo_data option"

record withdraw_permission_delete_operation =
  wpd_fee :: asset
  wpd_withdraw_from_account :: account_id_type
  wpd_authorized_account :: account_id_type
  wpd_withdrawal_permission :: nat

record file_write_operation =
  fw_fee :: asset
  fw_payer :: account_id_type
  fw_file_id :: nat
  fw_owner :: account_id_type
  fw_group :: account_id_type
  fw_flags :: int
  fw_offset :: int
  fw_data :: string
  fw_lease_seconds :: int
  fw_file_size :: int
  fw_precondition_checksum :: "nat option"

record bond_create_offer_operation =
  bc_fee :: asset
  bc_creator :: account_id_type
  bc_offer_to_borrow :: bool
  bc_amount :: asset
  bc_min_match :: share_type
  bc_collateral_rate :: price
  bc_min_loan_period_sec :: int
  bc_loan_period_sec :: int
  bc_interest_apr :: int

record bond_cancel_offer_operation =
  bx_fee :: asset
  bx_creator :: account_id_type
  bx_offer_id :: nat
  bx_refund :: asset

record bond_accept_offer_operation =
  ba_fee :: asset
  ba_claimer :: account_id_type
  ba_lender :: account_id_type
  ba_borrower :: account_id_type
  ba_offer_id :: nat
  ba_amount_borrowed :: asset
  ba_amount_collateral :: asset

record bond_claim_collateral_operation =
  bl_fee :: asset
  bl_claimer :: account_id_type
  bl_lender :: account_id_type
  bl_bond_id :: nat
  bl_payoff_amount :: asset
  bl_collateral_claimed :: asset

record vesting_balance_create_operation =
  vc_fee :: asset
  vc_creator :: account_id_type
  vc_owner :: account_id_type
  vc_amount :: asset
  vc_vesting_seconds :: int

record vesting_balance_withdraw_operation =
  vw_fee :: asset
  vw_vesting_balance :: nat
  vw_owner :: account_id_type
  vw_amount :: asset

datatype worker_initializer = Refund_Initializer | Vesting_Initializer (pay_vesting_period_days: int)

record worker_create_operation =
  wk_fee :: asset
  wk_owner :: account_id_type
  wk_work_begin_date :: time_point_sec
  wk_work_end_date :: time_point_sec
  wk_daily_pay :: share_type
  wk_initializer :: worker_initializer

record custom_operation =
  cu_op_fee :: asset
  cu_payer :: account_id_type
  cu_required_auths :: "account_id_type list"
  cu_id :: int
  cu_data :: string

datatype (plugins only: code size) operation =
    Transfer_Op transfer_operation
  | Limit_Order_Create_Op limit_order_create_operation
  | Short_Order_Create_Op short_order_create_operation
  | Limit_Order_Cancel_Op limit_order_cancel_operation
  | Short_Order_Cancel_Op short_order_cancel_operation
  | Call_Order_Update_Op call_order_update_operation
  | Key_Create_Op key_create_operation
  | Account_Create_Op account_create_operation
  | Account_Update_Op account_update_operation
  | Account_Whitelist_Op account_whitelist_operation
  | Account_Transfer_Op account_transfer_operation
  | Asset_Create_Op asset_create_operation
  | Asset_Update_Op asset_update_operation
  | Asset_Update_Bitasset_Op asset_update_bitasset_operation
  | Asset_Update_Feed_Producers_Op asset_update_feed_producers_operation
  | Asset_Issue_Op asset_issue_operation
  | Asset_Burn_Op asset_burn_operation
  | Asset_Fund_Fee_Pool_Op asset_fund_fee_pool_operation
  | Asset_Settle_Op asset_settle_operation
  | Asset_Global_Settle_Op asset_global_settle_operation
  | Asset_Publish_Feed_Op asset_publish_feed_operation
  | Delegate_Create_Op delegate_create_operation
  | Witness_Create_Op witness_create_operation
  | Witness_Withdraw_Pay_Op witness_withdraw_pay_operation
  | Proposal_Create_Op "operation proposal_create_operation"
  | Proposal_Update_Op proposal_update_operation
  | Proposal_Delete_Op proposal_delete_operation
  | Withdraw_Permission_Create_Op withdraw_permission_create_operation
  | Withdraw_Permission_Update_Op withdraw_permission_update_operation
  | Withdraw_Permission_Claim_Op withdraw_permission_claim_operation
  | Withdraw_Permission_Delete_Op withdraw_permission_delete_operation
  | Fill_Order_Op fill_order_operation
  | Global_Parameters_Update_Op global_parameters_update_operation
  | File_Write_Op file_write_operation
  | Vesting_Balance_Create_Op vesting_balance_create_operation
  | Vesting_Balance_Withdraw_Op vesting_balance_withdraw_operation
  | Bond_Create_Offer_Op bond_create_offer_operation
  | Bond_Cancel_Offer_Op bond_cancel_offer_operation
  | Bond_Accept_Offer_Op bond_accept_offer_operation
  | Bond_Claim_Collateral_Op bond_claim_collateral_operation
  | Worker_Create_Op worker_create_operation
  | Custom_Op custom_operation

end
