(* ===== verification/Vesting.thy ===== *)
theory Vesting
  imports Chain_Types
begin

section \<open>Vesting balances\<close>

text \<open>
  Models \<^verbatim>\<open>vesting_balance_object.hpp\<close> and \<^verbatim>\<open>vesting_balance_object.cpp\<close>: the linear and the
  coin-days-destroyed vesting policies, and the object that holds a balance under one of them. The
  arguments (balance, now, amount) of a policy function are its \<open>vesting_policy_context\<close>.
  The locale states what the chain relies on when it lets an owner withdraw; the coin-days-destroyed
  policy, which is the one every evaluator creates, satisfies it, and the linear policy does not: it
  keeps on vesting after its period, past the balance.
\<close>

record linear_vesting_policy =
  ln_vesting_seconds :: int
  ln_begin_date :: time_point_sec
  ln_begin_balance :: share_type
  ln_total_withdrawn :: share_type

record cdd_vesting_policy =
  cd_vesting_seconds :: int
  cd_coin_seconds_earned :: int
  cd_coin_seconds_earned_last_update :: time_point_sec

datatype vesting_policy = Linear linear_vesting_policy | Cdd cdd_vesting_policy

record vesting_balance_object =
  vb_owner :: account_id_type
  vb_balance :: asset
  vb_policy :: vesting_policy

definition sum_below_max_shares :: "asset \<Rightarrow> asset \<Rightarrow> bool" where
  "sum_below_max_shares a b \<longleftrightarrow> amount a \<le> BTS_MAX_SHARE_SUPPLY \<and> amount b \<le> BTS_MAX_SHARE_SUPPLY \<and>
     amount a + amount b \<le> BTS_MAX_SHARE_SUPPLY"

subsection \<open>Linear policy\<close>

definition linear_get_allowed_withdraw :: "linear_vesting_policy \<Rightarrow> asset \<Rightarrow> time_point_sec \<Rightarrow> asset option" where
  "linear_get_allowed_withdraw p balance now =
     (if now \<le> ln_begin_date p then Some (mk_asset 0 (asset_id balance))
      else if ln_vesting_seconds p = 0 then Some balance
      else do {
        let elapsed_seconds = now - ln_begin_date p;
        let total_allowed = u128 (u128 (ln_begin_balance p) * uint64 elapsed_seconds) div ln_vesting_seconds p;
        if total_allowed \<le> u128 (ln_total_withdrawn p) then Some (mk_asset 0 (asset_id balance))
        else do {
          let rest = total_allowed - u128 (ln_total_withdrawn p);
          fc_assert (rest \<le> BTS_MAX_SHARE_SUPPLY);
          r \<leftarrow> to_uint64 rest;
          Some (mk_asset r (asset_id balance)) } })"

definition linear_on_deposit :: "linear_vesting_policy \<Rightarrow> asset \<Rightarrow> time_point_sec \<Rightarrow> asset \<Rightarrow> linear_vesting_policy option"
where "linear_on_deposit p balance now amt = Some p"

definition linear_is_deposit_allowed :: "linear_vesting_policy \<Rightarrow> asset \<Rightarrow> time_point_sec \<Rightarrow> asset \<Rightarrow> bool" where
  "linear_is_deposit_allowed p balance now amt \<longleftrightarrow>
     asset_id amt = asset_id balance \<and> sum_below_max_shares amt balance"

definition linear_on_withdraw :: "linear_vesting_policy \<Rightarrow> asset \<Rightarrow> time_point_sec \<Rightarrow> asset \<Rightarrow> linear_vesting_policy option"
where
  "linear_on_withdraw p balance now amt = do {
     t \<leftarrow> share (ln_total_withdrawn p + amount amt);
     Some (p\<lparr>ln_total_withdrawn := t\<rparr>) }"

definition linear_is_withdraw_allowed :: "linear_vesting_policy \<Rightarrow> asset \<Rightarrow> time_point_sec \<Rightarrow> asset \<Rightarrow> bool option" where
  "linear_is_withdraw_allowed p balance now amt = do {
     a \<leftarrow> linear_get_allowed_withdraw p balance now;
     Some (asset_le amt a) }"

subsection \<open>Coin days destroyed policy\<close>

definition compute_coin_seconds_earned :: "cdd_vesting_policy \<Rightarrow> asset \<Rightarrow> time_point_sec \<Rightarrow> int" where
  "compute_coin_seconds_earned p balance now =
     (let delta_seconds = now - cd_coin_seconds_earned_last_update p;
          delta_coin_seconds = u128 (u128 (amount balance) * u128 delta_seconds);
          coin_seconds_earned_cap = u128 (u128 (amount balance) * cd_vesting_seconds p)
      in min (u128 (cd_coin_seconds_earned p + delta_coin_seconds)) coin_seconds_earned_cap)"

definition update_coin_seconds_earned :: "cdd_vesting_policy \<Rightarrow> asset \<Rightarrow> time_point_sec \<Rightarrow> cdd_vesting_policy" where
  "update_coin_seconds_earned p balance now =
     p\<lparr>cd_coin_seconds_earned := compute_coin_seconds_earned p balance now,
       cd_coin_seconds_earned_last_update := now\<rparr>"

definition cdd_get_allowed_withdraw :: "cdd_vesting_policy \<Rightarrow> asset \<Rightarrow> time_point_sec \<Rightarrow> asset option" where
  "cdd_get_allowed_withdraw p balance now = do {
     let cs_earned = compute_coin_seconds_earned p balance now;
     fc_assert (cd_vesting_seconds p \<noteq> 0); \<comment> \<open>\<open>uint128\<close> refuses to divide by zero\<close>
     let withdraw_available = cs_earned div cd_vesting_seconds p;
     w \<leftarrow> to_uint64 withdraw_available;
     Some (mk_asset (int64 w) (asset_id balance)) }"

definition cdd_on_deposit :: "cdd_vesting_policy \<Rightarrow> asset \<Rightarrow> time_point_sec \<Rightarrow> asset \<Rightarrow> cdd_vesting_policy option" where
  "cdd_on_deposit p balance now amt = Some (update_coin_seconds_earned p balance now)"

definition cdd_on_withdraw :: "cdd_vesting_policy \<Rightarrow> asset \<Rightarrow> time_point_sec \<Rightarrow> asset \<Rightarrow> cdd_vesting_policy option" where
  "cdd_on_withdraw p balance now amt =
     (let p' = update_coin_seconds_earned p balance now;
          coin_seconds_needed = u128 (u128 (amount amt) * cd_vesting_seconds p)
      in Some (p'\<lparr>cd_coin_seconds_earned := u128 (cd_coin_seconds_earned p' - coin_seconds_needed)\<rparr>))"

definition cdd_is_deposit_allowed :: "cdd_vesting_policy \<Rightarrow> asset \<Rightarrow> time_point_sec \<Rightarrow> asset \<Rightarrow> bool" where
  "cdd_is_deposit_allowed p balance now amt \<longleftrightarrow>
     asset_id amt = asset_id balance \<and> sum_below_max_shares amt balance"

definition cdd_is_withdraw_allowed :: "cdd_vesting_policy \<Rightarrow> asset \<Rightarrow> time_point_sec \<Rightarrow> asset \<Rightarrow> bool option" where
  "cdd_is_withdraw_allowed p balance now amt = do {
     a \<leftarrow> cdd_get_allowed_withdraw p balance now;
     Some (asset_le amt a) }"

subsection \<open>The object: the visitors choose the policy\<close>

definition vb_is_deposit_allowed :: "vesting_balance_object \<Rightarrow> time_point_sec \<Rightarrow> asset \<Rightarrow> bool" where
  "vb_is_deposit_allowed obj now amt = (case vb_policy obj of
     Linear p \<Rightarrow> linear_is_deposit_allowed p (vb_balance obj) now amt
   | Cdd p \<Rightarrow> cdd_is_deposit_allowed p (vb_balance obj) now amt)"

definition vb_is_withdraw_allowed :: "vesting_balance_object \<Rightarrow> time_point_sec \<Rightarrow> asset \<Rightarrow> bool option" where
  "vb_is_withdraw_allowed obj now amt = (case vb_policy obj of
     Linear p \<Rightarrow> linear_is_withdraw_allowed p (vb_balance obj) now amt
   | Cdd p \<Rightarrow> cdd_is_withdraw_allowed p (vb_balance obj) now amt)"

definition vb_deposit :: "time_point_sec \<Rightarrow> asset \<Rightarrow> vesting_balance_object \<Rightarrow> vesting_balance_object option" where
  "vb_deposit now amt obj = do {
     p \<leftarrow> (case vb_policy obj of
            Linear p \<Rightarrow> map_option Linear (linear_on_deposit p (vb_balance obj) now amt)
          | Cdd p \<Rightarrow> map_option Cdd (cdd_on_deposit p (vb_balance obj) now amt));
     b \<leftarrow> asset_plus (vb_balance obj) amt;
     Some (obj\<lparr>vb_balance := b, vb_policy := p\<rparr>) }"

definition vb_withdraw :: "time_point_sec \<Rightarrow> asset \<Rightarrow> vesting_balance_object \<Rightarrow> vesting_balance_object option" where
  "vb_withdraw now amt obj = do {
     p \<leftarrow> (case vb_policy obj of
            Linear p \<Rightarrow> map_option Linear (linear_on_withdraw p (vb_balance obj) now amt)
          | Cdd p \<Rightarrow> map_option Cdd (cdd_on_withdraw p (vb_balance obj) now amt));
     b \<leftarrow> asset_minus (vb_balance obj) amt;
     Some (obj\<lparr>vb_balance := b, vb_policy := p\<rparr>) }"

subsection \<open>The contract of a vesting policy\<close>

text \<open>
  \<open>inv p bal t\<close>: the policy is well formed for a balance \<open>bal\<close> when its last event was at \<open>t\<close>.
\<close>

locale vesting_contract =
  fixes allowed :: "'p \<Rightarrow> asset \<Rightarrow> time_point_sec \<Rightarrow> asset option"
    and on_deposit :: "'p \<Rightarrow> asset \<Rightarrow> time_point_sec \<Rightarrow> asset \<Rightarrow> 'p option"
    and on_withdraw :: "'p \<Rightarrow> asset \<Rightarrow> time_point_sec \<Rightarrow> asset \<Rightarrow> 'p option"
    and inv :: "'p \<Rightarrow> asset \<Rightarrow> time_point_sec \<Rightarrow> bool"
  assumes allowed_bound: "inv p bal t \<Longrightarrow> t \<le> now \<Longrightarrow> now < 2 ^ 32 \<Longrightarrow> \<exists>a. allowed p bal now = Some a \<and>
      asset_id a = asset_id bal \<and> 0 \<le> amount a \<and> amount a \<le> amount bal"
    and deposit_inv: "inv p bal t \<Longrightarrow> t \<le> now \<Longrightarrow> now < 2 ^ 32 \<Longrightarrow> 0 \<le> x \<Longrightarrow> amount bal + x < 2 ^ 63 \<Longrightarrow>
      on_deposit p bal now (mk_asset x (asset_id bal)) = Some p' \<Longrightarrow>
      inv p' (mk_asset (amount bal + x) (asset_id bal)) now"
    and withdraw_inv: "inv p bal t \<Longrightarrow> t \<le> now \<Longrightarrow> now < 2 ^ 32 \<Longrightarrow> allowed p bal now = Some a \<Longrightarrow>
      0 \<le> x \<Longrightarrow> x \<le> amount a \<Longrightarrow> on_withdraw p bal now (mk_asset x (asset_id bal)) = Some p' \<Longrightarrow>
      inv p' (mk_asset (amount bal - x) (asset_id bal)) now"
begin

text \<open>Whatever is withdrawn within the allowance leaves a balance that is not negative.\<close>

lemma withdraw_within_balance:
  assumes "inv p bal t" "t \<le> now" "now < 2 ^ 32" "allowed p bal now = Some a" "x \<le> amount a"
  shows "0 \<le> amount bal - x"
  using allowed_bound [OF assms(1-3)] assms(4,5) by auto

lemma withdraw_twice_within_balance:
  assumes "inv p bal t" "t \<le> now" "now < 2 ^ 32" "now \<le> later" "later < 2 ^ 32"
    and "allowed p bal now = Some a" "0 \<le> x" "x \<le> amount a"
    and "on_withdraw p bal now (mk_asset x (asset_id bal)) = Some p'"
    and "allowed p' (mk_asset (amount bal - x) (asset_id bal)) later = Some b" "y \<le> amount b"
  shows "x + y \<le> amount bal"
  using withdraw_within_balance [OF withdraw_inv [OF assms(1-3,6-9)] assms(4,5,10,11)] by simp

end

definition cdd_inv :: "cdd_vesting_policy \<Rightarrow> asset \<Rightarrow> time_point_sec \<Rightarrow> bool" where
  "cdd_inv p bal t \<longleftrightarrow> 0 < cd_vesting_seconds p \<and> cd_vesting_seconds p < 2 ^ 32 \<and>
     0 \<le> amount bal \<and> amount bal < 2 ^ 63 \<and> 0 \<le> t \<and>
     cd_coin_seconds_earned_last_update p = t \<and>
     0 \<le> cd_coin_seconds_earned p \<and> cd_coin_seconds_earned p \<le> amount bal * cd_vesting_seconds p"

lemma coin_seconds_bound:
  fixes a b :: int
  assumes "0 \<le> a" "a < 2 ^ 63" "0 \<le> b" "b < 2 ^ 32"
  shows "0 \<le> a * b \<and> a * b < 2 ^ 95"
proof -
  have "a * b < 2 ^ 63 * 2 ^ 32"
    using assms by (intro mult_strict_mono) auto
  with assms show ?thesis by simp
qed

lemma compute_coin_seconds_earned_eq:
  assumes "cdd_inv p bal t" "t \<le> now" "now < 2 ^ 32"
  shows "compute_coin_seconds_earned p bal now =
    min (cd_coin_seconds_earned p + amount bal * (now - t)) (amount bal * cd_vesting_seconds p)"
proof -
  from assms have r: "0 \<le> amount bal" "amount bal < 2 ^ 63" "0 \<le> now - t" "now - t < 2 ^ 32"
    "0 \<le> cd_vesting_seconds p" "cd_vesting_seconds p < 2 ^ 32"
    "cd_coin_seconds_earned_last_update p = t" "0 \<le> cd_coin_seconds_earned p"
    "cd_coin_seconds_earned p \<le> amount bal * cd_vesting_seconds p"
    by (auto simp: cdd_inv_def)
  have m: "0 \<le> amount bal * (now - t)" "amount bal * (now - t) < 2 ^ 95"
    "0 \<le> amount bal * cd_vesting_seconds p" "amount bal * cd_vesting_seconds p < 2 ^ 95"
    using coin_seconds_bound r(1-6) by blast+
  have "u128 (cd_coin_seconds_earned p + amount bal * (now - t)) =
      cd_coin_seconds_earned p + amount bal * (now - t)"
    using m r(8,9) by (intro u128_id) auto
  with r m show ?thesis
    by (simp add: compute_coin_seconds_earned_def Let_def)
qed

definition cdd_earned :: "cdd_vesting_policy \<Rightarrow> asset \<Rightarrow> time_point_sec \<Rightarrow> time_point_sec \<Rightarrow> int" where
  "cdd_earned p bal t now =
     min (cd_coin_seconds_earned p + amount bal * (now - t)) (amount bal * cd_vesting_seconds p)"

lemma cdd_allowed_eq:
  assumes "cdd_inv p bal t" "t \<le> now" "now < 2 ^ 32"
  shows "cdd_get_allowed_withdraw p bal now =
      Some (mk_asset (cdd_earned p bal t now div cd_vesting_seconds p) (asset_id bal))"
    and "0 \<le> cdd_earned p bal t now div cd_vesting_seconds p"
    and "cdd_earned p bal t now div cd_vesting_seconds p \<le> amount bal"
proof -
  let ?v = "cd_vesting_seconds p" and ?e = "cdd_earned p bal t now"
  from assms have r: "0 < ?v" "0 \<le> amount bal" "amount bal < 2 ^ 63" "0 \<le> cd_coin_seconds_earned p"
    "0 \<le> now - t" by (auto simp: cdd_inv_def)
  have e: "0 \<le> ?e" using r by (simp add: cdd_earned_def)
  then show nn: "0 \<le> ?e div ?v" using r(1) by (simp add: pos_imp_zdiv_nonneg_iff)
  have "?e div ?v \<le> amount bal * ?v div ?v"
    using r(1) by (intro zdiv_mono1) (simp_all add: cdd_earned_def)
  then show le: "?e div ?v \<le> amount bal" using r(1) by simp
  have "int64_ok (?e div ?v)" using nn le r(3) by (simp add: int64_ok_def)
  then show "cdd_get_allowed_withdraw p bal now = Some (mk_asset (?e div ?v) (asset_id bal))"
    using compute_coin_seconds_earned_eq [OF assms] r le
    by (simp add: cdd_get_allowed_withdraw_def cdd_earned_def Let_def)
qed

interpretation cdd: vesting_contract cdd_get_allowed_withdraw cdd_on_deposit cdd_on_withdraw cdd_inv
proof
  fix p bal t now
  assume "cdd_inv p bal t" "t \<le> now" "now < 2 ^ 32"
  then show "\<exists>a. cdd_get_allowed_withdraw p bal now = Some a \<and> asset_id a = asset_id bal \<and>
      0 \<le> amount a \<and> amount a \<le> amount bal"
    using cdd_allowed_eq [of p bal t now] by simp
next
  fix p bal t now x p'
  assume inv: "cdd_inv p bal t" "t \<le> now" "now < 2 ^ 32"
    and x: "0 \<le> x" "amount bal + x < 2 ^ 63"
    and p': "cdd_on_deposit p bal now (mk_asset x (asset_id bal)) = Some p'"
  from inv have r: "0 < cd_vesting_seconds p" "0 \<le> amount bal" by (auto simp: cdd_inv_def)
  have "amount bal * cd_vesting_seconds p \<le> (amount bal + x) * cd_vesting_seconds p"
    using x r by (intro mult_right_mono) auto
  then have cap: "compute_coin_seconds_earned p bal now \<le> (amount bal + x) * cd_vesting_seconds p"
    using compute_coin_seconds_earned_eq [OF inv] by simp
  have "0 \<le> amount bal * (now - t)" using r inv(2) by simp
  then have "0 \<le> compute_coin_seconds_earned p bal now"
    using compute_coin_seconds_earned_eq [OF inv] inv r by (simp add: cdd_inv_def)
  with cap inv x p' r show "cdd_inv p' (mk_asset (amount bal + x) (asset_id bal)) now"
    by (auto simp: cdd_on_deposit_def update_coin_seconds_earned_def cdd_inv_def)
next
  fix p bal t now a x p'
  assume inv: "cdd_inv p bal t" "t \<le> now" "now < 2 ^ 32"
    and a: "cdd_get_allowed_withdraw p bal now = Some a" and x: "0 \<le> x" "x \<le> amount a"
    and p': "cdd_on_withdraw p bal now (mk_asset x (asset_id bal)) = Some p'"
  from inv have r: "0 < cd_vesting_seconds p" "cd_vesting_seconds p < 2 ^ 32" "0 \<le> amount bal"
    "amount bal < 2 ^ 63" by (auto simp: cdd_inv_def)
  let ?e = "compute_coin_seconds_earned p bal now"
  note e = compute_coin_seconds_earned_eq [OF inv]
  have xa: "x \<le> ?e div cd_vesting_seconds p" using cdd_allowed_eq(1) [OF inv] a x e by (simp add: cdd_earned_def)
  have xb: "x \<le> amount bal" using xa cdd_allowed_eq(3) [OF inv] e by (simp add: cdd_earned_def)
  have "x * cd_vesting_seconds p \<le> ?e div cd_vesting_seconds p * cd_vesting_seconds p"
    using xa r by (intro mult_right_mono) auto
  also have "\<dots> \<le> ?e" using r by (simp flip: minus_mod_eq_div_mult)
  finally have need: "x * cd_vesting_seconds p \<le> ?e" .
  have b: "0 \<le> x * cd_vesting_seconds p" "x * cd_vesting_seconds p < 2 ^ 95"
    using coin_seconds_bound [of x "cd_vesting_seconds p"] x(1) xb r by auto
  have cap: "?e \<le> amount bal * cd_vesting_seconds p" using e by simp
  then have eb: "?e < 2 ^ 95"
    using coin_seconds_bound [of "amount bal" "cd_vesting_seconds p"] r by simp
  have "u128 (?e - x * cd_vesting_seconds p) = ?e - x * cd_vesting_seconds p"
    using b need eb by (intro u128_id) auto
  then have "p' = p\<lparr>cd_coin_seconds_earned := ?e - x * cd_vesting_seconds p,
      cd_coin_seconds_earned_last_update := now\<rparr>"
    using p' b need eb x xb r by (auto simp: cdd_on_withdraw_def update_coin_seconds_earned_def Let_def)
  then show "cdd_inv p' (mk_asset (amount bal - x) (asset_id bal)) now"
    using inv x(1) xb r need cap by (simp add: cdd_inv_def left_diff_distrib)
qed

subsection \<open>The object keeps its balance\<close>

definition vb_ok :: "time_point_sec \<Rightarrow> vesting_balance_object \<Rightarrow> bool" where
  "vb_ok now obj \<longleftrightarrow> (\<exists>p t. vb_policy obj = Cdd p \<and> t \<le> now \<and> cdd_inv p (vb_balance obj) t)"

lemma vb_ok_mono: "vb_ok now obj \<Longrightarrow> now \<le> later \<Longrightarrow> vb_ok later obj"
  unfolding vb_ok_def by (meson order_trans)

lemma vb_ok_balance: "vb_ok now obj \<Longrightarrow> 0 \<le> amount (vb_balance obj)"
  by (auto simp: vb_ok_def cdd_inv_def)

lemma asset_eta [simp]: "mk_asset (amount a) (asset_id a) = a"
  by simp

lemma vb_ok_deposit:
  assumes "vb_ok now obj" "now < 2 ^ 32" "0 \<le> amount amt" "vb_deposit now amt obj = Some obj'"
  shows "vb_ok now obj' \<and> asset_id amt = asset_id (vb_balance obj) \<and>
    amount (vb_balance obj') = amount (vb_balance obj) + amount amt"
proof -
  obtain p t where p: "vb_policy obj = Cdd p" "t \<le> now" "cdd_inv p (vb_balance obj) t"
    using assms(1) by (auto simp: vb_ok_def)
  from assms(4) p(1) obtain p' where p': "cdd_on_deposit p (vb_balance obj) now amt = Some p'"
    and id: "asset_id (vb_balance obj) = asset_id amt" and ok: "int64_ok (amount (vb_balance obj) + amount amt)"
    and obj': "obj' = obj\<lparr>vb_balance := mk_asset (amount (vb_balance obj) + amount amt) (asset_id (vb_balance obj)),
      vb_policy := Cdd p'\<rparr>"
    by (auto simp: vb_deposit_def)
  have "cdd_on_deposit p (vb_balance obj) now (mk_asset (amount amt) (asset_id (vb_balance obj))) = Some p'"
    using p' id by simp
  from cdd.deposit_inv [OF p(3,2) assms(2,3) _ this] ok id obj' show ?thesis
    by (auto simp: vb_ok_def int64_ok_def)
qed

lemma vb_ok_withdraw:
  assumes "vb_ok now obj" "now < 2 ^ 32" "0 \<le> amount amt"
    and "vb_is_withdraw_allowed obj now amt = Some True" "vb_withdraw now amt obj = Some obj'"
  shows "vb_ok now obj' \<and> asset_id amt = asset_id (vb_balance obj) \<and>
    amount (vb_balance obj') = amount (vb_balance obj) - amount amt \<and>
    amount amt \<le> amount (vb_balance obj)"
proof -
  obtain p t where p: "vb_policy obj = Cdd p" "t \<le> now" "cdd_inv p (vb_balance obj) t"
    using assms(1) by (auto simp: vb_ok_def)
  from assms(5) p(1) obtain p' where p': "cdd_on_withdraw p (vb_balance obj) now amt = Some p'"
    and id: "asset_id (vb_balance obj) = asset_id amt"
    and obj': "obj' = obj\<lparr>vb_balance := mk_asset (amount (vb_balance obj) - amount amt) (asset_id (vb_balance obj)),
      vb_policy := Cdd p'\<rparr>"
    by (auto simp: vb_withdraw_def)
  from assms(4) p(1) obtain a where a: "cdd_get_allowed_withdraw p (vb_balance obj) now = Some a"
    "asset_le amt a" by (auto simp: vb_is_withdraw_allowed_def cdd_is_withdraw_allowed_def)
  with cdd.allowed_bound [OF p(3,2) assms(2)] id
  have le: "amount amt \<le> amount a" "amount a \<le> amount (vb_balance obj)"
    by (auto simp: asset_le_def)
  have "cdd_on_withdraw p (vb_balance obj) now (mk_asset (amount amt) (asset_id (vb_balance obj))) = Some p'"
    using p' id by simp
  from cdd.withdraw_inv [OF p(3,2) assms(2) a(1) assms(3) le(1) this] id obj' le show ?thesis
    by (auto simp: vb_ok_def)
qed

subsection \<open>Properties\<close>

text \<open>
  C7. A coin-days-destroyed balance is never overdrawn: a withdrawal that the chain allows is in the
  asset of the balance, is at most the balance, takes exactly its amount from it, and leaves the
  object well formed, so the same holds of the next withdrawal at any later time.
\<close>

theorem vesting_withdraw_never_overdraws:
  assumes "vb_ok now obj" "now < 2 ^ 32" "0 \<le> amount amt"
    and "vb_is_withdraw_allowed obj now amt = Some True" "vb_withdraw now amt obj = Some obj'"
  shows "asset_id amt = asset_id (vb_balance obj) \<and> amount amt \<le> amount (vb_balance obj) \<and>
    amount (vb_balance obj') = amount (vb_balance obj) - amount amt \<and>
    (\<forall>later \<ge> now. vb_ok later obj')"
  using vb_ok_withdraw [OF assms] vb_ok_mono by blast

text \<open>
  Vesting is complete after the vesting period: once the balance has not moved for
  \<open>vesting_seconds\<close>, the whole of it may be withdrawn, and at the moment of a full withdrawal nothing
  more may be.
\<close>

theorem vesting_complete_after_period:
  assumes "cdd_inv p bal t" "now < 2 ^ 32" "t + cd_vesting_seconds p \<le> now"
  shows "cdd_get_allowed_withdraw p bal now = Some bal"
proof -
  from assms have r: "0 < cd_vesting_seconds p" "0 \<le> amount bal" "0 \<le> cd_coin_seconds_earned p" "t \<le> now"
    by (auto simp: cdd_inv_def)
  have "amount bal * cd_vesting_seconds p \<le> amount bal * (now - t)"
    using assms(3) r by (intro mult_left_mono) auto
  then have "min (cd_coin_seconds_earned p + amount bal * (now - t)) (amount bal * cd_vesting_seconds p) =
      amount bal * cd_vesting_seconds p"
    using r(3) by (simp add: min_def)
  then show ?thesis using cdd_allowed_eq(1) [OF assms(1) r(4) assms(2)] r(1) by (simp add: cdd_earned_def)
qed

text \<open>
  The linear policy does not keep the contract: \<open>is_withdraw_allowed\<close> accepts a withdrawal of
  more than the balance when the vesting period has passed, since the vested amount is not capped by
  the balance it started from.
\<close>

theorem linear_vesting_overdraws:
  "\<exists>obj amt obj'. vb_is_withdraw_allowed obj 300 amt = Some True \<and> vb_withdraw 300 amt obj = Some obj' \<and>
     amount (vb_balance obj) = 1000 \<and> amount (vb_balance obj') = - 1000"
proof -
  let ?p = "\<lparr>ln_vesting_seconds = 100, ln_begin_date = 100, ln_begin_balance = 1000, ln_total_withdrawn = 0\<rparr>"
  let ?obj = "\<lparr>vb_owner = 7, vb_balance = mk_asset 1000 0, vb_policy = Linear ?p\<rparr>"
  have "vb_is_withdraw_allowed ?obj 300 (mk_asset 2000 0) = Some True"
    by (simp add: vb_is_withdraw_allowed_def linear_is_withdraw_allowed_def
        linear_get_allowed_withdraw_def asset_le_def BTS_MAX_SHARE_SUPPLY_def to_uint64_def)
  moreover have "vb_withdraw 300 (mk_asset 2000 0) ?obj =
      Some (?obj\<lparr>vb_balance := mk_asset (- 1000) 0, vb_policy := Linear (?p\<lparr>ln_total_withdrawn := 2000\<rparr>)\<rparr>)"
    by (simp add: vb_withdraw_def linear_on_withdraw_def int64_ok_def)
  ultimately show ?thesis
    by (intro exI conjI) (assumption+, simp_all)
qed

lemma vesting_withdraw_never_overdraws_witness:
  "\<exists>obj'. vb_withdraw 150 (mk_asset 400 3)
      \<lparr>vb_owner = 7, vb_balance = mk_asset 1000 3,
       vb_policy = Cdd \<lparr>cd_vesting_seconds = 100, cd_coin_seconds_earned = 0,
         cd_coin_seconds_earned_last_update = 100\<rparr>\<rparr> = Some obj' \<and>
     amount (vb_balance obj') = 600"
proof -
  let ?p = "\<lparr>cd_vesting_seconds = 100, cd_coin_seconds_earned = 0, cd_coin_seconds_earned_last_update = 100\<rparr>"
  let ?obj = "\<lparr>vb_owner = 7, vb_balance = mk_asset 1000 3, vb_policy = Cdd ?p\<rparr>"
  have ok: "vb_ok 150 ?obj" by (auto simp: vb_ok_def cdd_inv_def)
  have al: "vb_is_withdraw_allowed ?obj 150 (mk_asset 400 3) = Some True"
    by (simp add: vb_is_withdraw_allowed_def cdd_is_withdraw_allowed_def cdd_get_allowed_withdraw_def
        compute_coin_seconds_earned_def asset_le_def to_uint64_def int64_def)
  obtain obj' where w: "vb_withdraw 150 (mk_asset 400 3) ?obj = Some obj'"
    by (simp add: vb_withdraw_def cdd_on_withdraw_def update_coin_seconds_earned_def int64_ok_def Let_def)
  from vesting_withdraw_never_overdraws [OF ok _ _ al w] w show ?thesis by simp
qed

lemma vesting_complete_after_period_witness:
  "cdd_get_allowed_withdraw \<lparr>cd_vesting_seconds = 100, cd_coin_seconds_earned = 17,
      cd_coin_seconds_earned_last_update = 100\<rparr> (mk_asset 1000 3) 205 = Some (mk_asset 1000 3)"
  by (rule vesting_complete_after_period [of _ _ 100]) (simp_all add: cdd_inv_def)

end
