(* ===== verification/Chain_State.thy ===== *)
theory Chain_State
  imports Index Operations Vesting
begin

section \<open>The chain database\<close>

text \<open>
  The objects of \<^verbatim>\<open>libraries/chain/include/bts/chain/*_object.hpp\<close>, one record per class without the
  id it inherits (the id is the key of its table), and the state \<open>bts::chain::database\<close> evaluates
  operations on: one table per object type, the global and dynamic properties, the pending block
  header and the operations applied in the current block. Each index class of the database layer
  satisfies the contract of theory \<open>Index\<close>, so the model uses the table of \<open>generic_index\<close> for all of
  them. An undo session around a call is the old state itself, which theory \<open>Undo\<close> shows a session
  restores.
\<close>

subsection \<open>Objects\<close>

record asset_dynamic_data_object =
  dyn_current_supply :: share_type
  dyn_accumulated_fees :: share_type
  dyn_fee_pool :: share_type

record asset_object =
  ao_symbol :: string
  ao_precision :: int
  ao_issuer :: account_id_type
  ao_options :: asset_options
  ao_dynamic_asset_data_id :: nat
  ao_bitasset_data_id :: "nat option"

record asset_bitasset_data_object =
  bd_short_backing_asset :: asset_id_type
  bd_options :: bitasset_options
  bd_feeds :: "(account_id_type \<times> time_point_sec \<times> price_feed) list"
  bd_current_feed :: price_feed
  bd_current_feed_publication_time :: time_point_sec
  bd_force_settled_volume :: share_type

record account_statistics_object =
  st_most_recent_op :: nat
  st_total_core_in_orders :: share_type
  st_lifetime_fees_paid :: share_type

record account_balance_object =
  bal_owner :: account_id_type
  bal_asset_type :: asset_id_type
  bal_balance :: share_type

record account_object =
  acct_registrar :: account_id_type
  acct_referrer :: account_id_type
  acct_referrer_percent :: int
  acct_name :: string
  acct_owner :: authority
  acct_active :: authority
  acct_memo_key :: key_id_type
  acct_voting_account :: account_id_type
  acct_num_witness :: int
  acct_num_committee :: int
  acct_votes :: "vote_id_type list"
  acct_statistics :: nat
  acct_whitelisting_accounts :: "account_id_type list"
  acct_blacklisting_accounts :: "account_id_type list"
  acct_cashback_vb :: "nat option"

record limit_order_object =
  lim_expiration :: time_point_sec
  lim_seller :: account_id_type
  lim_for_sale :: share_type
  lim_sell_price :: price

record short_order_object =
  sho_expiration :: time_point_sec
  sho_seller :: account_id_type
  sho_for_sale :: share_type
  sho_available_collateral :: share_type
  sho_sell_price :: price
  sho_call_price :: price
  sho_initial_collateral_ratio :: int
  sho_maintenance_collateral_ratio :: int

record call_order_object =
  call_borrower :: account_id_type
  call_collateral :: share_type
  call_debt :: share_type
  call_call_price :: price
  call_maintenance_collateral_ratio :: int

record force_settlement_object =
  fs_owner :: account_id_type
  fs_balance :: asset
  fs_settlement_date :: time_point_sec

record delegate_object =
  del_delegate_account :: account_id_type
  del_vote_id :: vote_id_type

record witness_object =
  wit_witness_account :: account_id_type
  wit_signing_key :: key_id_type
  wit_next_secret :: secret_hash_type
  wit_last_secret :: secret_hash_type
  wit_accumulated_income :: share_type
  wit_vote_id :: vote_id_type

record withdraw_permission_object =
  wp_withdraw_from_account :: account_id_type
  wp_authorized_account :: account_id_type
  wp_withdrawal_limit :: asset
  wp_withdrawal_period_sec :: int
  wp_next_period_start_time :: time_point_sec
  wp_expiration :: time_point_sec
  wp_claimed_this_period :: share_type

record bond_object =
  bond_borrower :: account_id_type
  bond_lender :: account_id_type
  bond_borrowed :: asset
  bond_collateral :: asset
  bond_interest_apr :: int
  bond_start_date :: time_point_sec
  bond_due_date :: time_point_sec
  bond_earliest_payoff_date :: time_point_sec

record bond_offer_object =
  off_offered_by_account :: account_id_type
  off_offer_to_borrow :: bool
  off_amount :: asset
  off_min_match :: share_type
  off_collateral_rate :: price
  off_min_loan_period_sec :: int
  off_loan_period_sec :: int
  off_interest_apr :: int

datatype worker_type = Refund_Worker (total_burned: share_type) | Vesting_Balance_Worker (worker_balance: nat)

record worker_object =
  wo_worker_account :: account_id_type
  wo_work_begin_date :: time_point_sec
  wo_work_end_date :: time_point_sec
  wo_daily_pay :: share_type
  wo_worker :: worker_type
  wo_vote_for :: vote_id_type
  wo_vote_against :: vote_id_type

subsection \<open>Transactions\<close>

datatype operation_result = Void_Result | Id_Result object_id_type | Asset_Result asset

text \<open>The position of an operation in its block, which the code also records, is left out: nothing reads it.\<close>

record operation_history_object =
  oh_op :: operation
  oh_result :: operation_result

record transaction =
  ref_block_num :: int
  ref_block_prefix :: int
  relative_expiration :: int
  operations :: "operation list"

text \<open>The signatures by the key that made them; a signature is an opaque number.\<close>

record signed_transaction = transaction +
  signatures :: "(key_id_type \<times> nat) list"

record proposal_object =
  prop_expiration_time :: time_point_sec
  prop_review_period_time :: "time_point_sec option"
  prop_proposed_transaction :: transaction
  prop_required_active_approvals :: "account_id_type list"
  prop_available_active_approvals :: "account_id_type list"
  prop_required_owner_approvals :: "account_id_type list"
  prop_available_owner_approvals :: "account_id_type list"
  prop_available_key_approvals :: "key_id_type list"

record transaction_object =
  to_trx :: signed_transaction
  to_expiration :: time_point_sec
  to_trx_id :: nat

record block_summary_object =
  bs_block_id :: block_id_type
  bs_timestamp :: time_point_sec

subsection \<open>Global properties\<close>

record global_property_object =
  parameters :: chain_parameters
  pending_parameters :: "chain_parameters option"
  next_available_vote_id :: int
  active_delegates :: "nat list"
  active_witnesses :: "witness_id_type list"
  witness_accounts :: "account_id_type list"

record dynamic_global_property_object =
  random :: secret_hash_type
  head_block_number :: int
  head_block_id :: block_id_type
  dg_time :: time_point_sec
  current_witness :: witness_id_type
  next_maintenance_time :: time_point_sec
  last_budget_time :: time_point_sec
  witness_budget :: share_type

definition get_next_vote_id :: "vote_type \<Rightarrow> global_property_object \<Rightarrow> vote_id_type \<times> global_property_object" where
  "get_next_vote_id t p =
     (make_vote_id t (word_of_int (next_available_vote_id p)),
      p\<lparr>next_available_vote_id := uint32 (next_available_vote_id p + 1)\<rparr>)"

subsection \<open>The database\<close>

record database =
  assets :: "asset_object table"
  asset_dyns :: "asset_dynamic_data_object table"
  bitassets :: "asset_bitasset_data_object table"
  accounts :: "account_object table"
  statistics :: "account_statistics_object table"
  balances :: "account_balance_object table"
  keys :: "key_data table"
  limit_orders :: "limit_order_object table"
  short_orders :: "short_order_object table"
  call_orders :: "call_order_object table"
  settlements :: "force_settlement_object table"
  delegates :: "delegate_object table"
  witnesses :: "witness_object table"
  permissions :: "withdraw_permission_object table"
  bonds :: "bond_object table"
  bond_offers :: "bond_offer_object table"
  vestings :: "vesting_balance_object table"
  workers :: "worker_object table"
  proposals :: "proposal_object table"
  transactions :: "transaction_object table"
  block_summaries :: "block_summary_object table"
  gprops :: global_property_object
  dprops :: dynamic_global_property_object
  pending_timestamp :: time_point_sec
  pending_previous :: block_id_type
  applied_ops :: "operation_history_object list"

text \<open>The database with no object but the default-constructed property objects.\<close>

definition empty_global :: global_property_object where
  "empty_global = \<lparr>parameters = default_parameters, pending_parameters = None, next_available_vote_id = 0,
     active_delegates = [], active_witnesses = [], witness_accounts = []\<rparr>"

definition empty_dynamic :: dynamic_global_property_object where
  "empty_dynamic = \<lparr>random = 0, head_block_number = 0, head_block_id = 0, dg_time = 0,
     current_witness = 0, next_maintenance_time = 0, last_budget_time = 0, witness_budget = 0\<rparr>"

definition empty_database :: database where
  "empty_database = \<lparr>assets = empty_table, asset_dyns = empty_table, bitassets = empty_table,
     accounts = empty_table, statistics = empty_table, balances = empty_table, keys = empty_table,
     limit_orders = empty_table, short_orders = empty_table, call_orders = empty_table,
     settlements = empty_table, delegates = empty_table, witnesses = empty_table,
     permissions = empty_table, bonds = empty_table, bond_offers = empty_table, vestings = empty_table,
     workers = empty_table, proposals = empty_table, transactions = empty_table,
     block_summaries = empty_table, gprops = empty_global, dprops = empty_dynamic,
     pending_timestamp = 0, pending_previous = 0, applied_ops = []\<rparr>"

definition head_block_time :: "database \<Rightarrow> time_point_sec" where
  "head_block_time db = dg_time (dprops db)"

definition current_fee_schedule :: "database \<Rightarrow> fee_schedule_type" where
  "current_fee_schedule db = current_fees (parameters (gprops db))"

definition push_applied_operation :: "operation \<Rightarrow> database \<Rightarrow> database" where
  "push_applied_operation op db = db\<lparr>applied_ops := applied_ops db @ [\<lparr>oh_op = op, oh_result = Void_Result\<rparr>]\<rparr>"

definition set_applied_operation_result :: "nat \<Rightarrow> operation_result \<Rightarrow> database \<Rightarrow> database" where
  "set_applied_operation_result op_id r db =
     db\<lparr>applied_ops := (applied_ops db)[op_id := (applied_ops db ! op_id)\<lparr>oh_result := r\<rparr>]\<rparr>"

subsection \<open>Object access\<close>

text \<open>
  \<open>db.get(id)\<close> throws when there is no such object; \<open>db.modify\<close> runs a change that may itself throw
  (an overflow of a \<open>share_type\<close>) on an object that exists; \<open>db.remove\<close> takes it out.
\<close>

definition get_object :: "'a table \<Rightarrow> nat \<Rightarrow> 'a option" where
  "get_object t i = gi_find t i"

definition modify_object :: "nat \<Rightarrow> ('a \<Rightarrow> 'a option) \<Rightarrow> 'a table \<Rightarrow> 'a table option" where
  "modify_object i f t = do {
     x \<leftarrow> gi_find t i;
     y \<leftarrow> f x;
     Some (gi_modify i (\<lambda>_. y) t) }"

definition remove_object :: "nat \<Rightarrow> 'a table \<Rightarrow> 'a table option" where
  "remove_object i t = do { _ \<leftarrow> gi_find t i; Some (gi_remove i t) }"

lemma get_object_gi [simp]: "get_object t i = gi_find t i"
  by (simp add: get_object_def)

lemma modify_object_Some:
  "modify_object i f t = Some t' \<longleftrightarrow>
     (\<exists>x y. gi_find t i = Some x \<and> f x = Some y \<and> t' = gi_modify i (\<lambda>_. y) t)"
  by (auto simp: modify_object_def)

lemma remove_object_Some:
  "remove_object i t = Some t' \<longleftrightarrow> (\<exists>x. gi_find t i = Some x) \<and> t' = gi_remove i t"
  by (auto simp: remove_object_def)

lemma modify_object_find:
  assumes "modify_object i f t = Some t'"
  shows "gi_find t' j = (if j = i then Option.bind (gi_find t i) f else gi_find t j)"
  using assms by (auto simp: modify_object_Some gi_find_modify)

lemma modify_object_invar: "modify_object i f t = Some t' \<Longrightarrow> gi_invar t' = gi_invar t"
  by (auto simp: modify_object_Some)

lemma modify_object_next: "modify_object i f t = Some t' \<Longrightarrow> next_id t' = next_id t"
  by (auto simp: modify_object_Some)

lemma remove_object_invar: "remove_object i t = Some t' \<Longrightarrow> gi_invar t \<Longrightarrow> gi_invar t'"
  by (auto simp: remove_object_Some gi_invar_remove)

lemma tsum_modify_object:
  assumes "gi_invar t" "modify_object i f t = Some t'"
  obtains x y where "gi_find t i = Some x" "f x = Some y" "tsum g t' = tsum g t - g x + g y"
  using assms tsum_modify [OF assms(1)] by (auto simp: modify_object_Some)

lemma tsum_remove_object:
  assumes "gi_invar t" "remove_object i t = Some t'"
  obtains x where "gi_find t i = Some x" "tsum g t' = tsum g t - g x"
  using assms tsum_remove [OF assms(1)] by (auto simp: remove_object_Some)

subsection \<open>Object predicates\<close>

definition is_market_issued :: "asset_object \<Rightarrow> bool" where
  "is_market_issued a = has_flag (flags (ao_options a)) market_issued"

definition enforce_white_list :: "asset_object \<Rightarrow> bool" where
  "enforce_white_list a = has_flag (flags (ao_options a)) white_list"

definition can_force_settle :: "asset_object \<Rightarrow> bool" where
  "can_force_settle a = (\<not> has_flag (flags (ao_options a)) disable_force_settle)"

definition can_global_settle :: "asset_object \<Rightarrow> bool" where
  "can_global_settle a = has_flag (flags (ao_options a)) global_settle"

definition charges_market_fees :: "asset_object \<Rightarrow> bool" where
  "charges_market_fees a = has_flag (flags (ao_options a)) charge_market_fee"

definition is_transfer_restricted :: "asset_object \<Rightarrow> bool" where
  "is_transfer_restricted a = has_flag (flags (ao_options a)) transfer_restricted"

definition is_prime :: "account_id_type \<Rightarrow> account_object \<Rightarrow> bool" where
  "is_prime i a \<longleftrightarrow> i = acct_referrer a"

text \<open>\<open>account_object::is_authorized_asset\<close> (account\_object.cpp).\<close>

definition is_authorized_asset :: "account_object \<Rightarrow> asset_object \<Rightarrow> bool" where
  "is_authorized_asset acct asset_obj =
     (if \<exists>i \<in> set (blacklist_authorities (ao_options asset_obj)). i \<in> set (acct_blacklisting_accounts acct)
      then False
      else \<exists>i \<in> set (whitelist_authorities (ao_options asset_obj)). i \<in> set (acct_whitelisting_accounts acct))"

definition lim_amount_for_sale :: "limit_order_object \<Rightarrow> asset" where
  "lim_amount_for_sale o' = mk_asset (lim_for_sale o') (asset_id (base (lim_sell_price o')))"

definition lim_amount_to_receive :: "limit_order_object \<Rightarrow> asset option" where
  "lim_amount_to_receive o' = asset_mult (lim_amount_for_sale o') (lim_sell_price o')"

definition sho_get_collateral :: "short_order_object \<Rightarrow> asset" where
  "sho_get_collateral o' = mk_asset (sho_available_collateral o') (asset_id (quote (sho_sell_price o')))"

definition sho_amount_for_sale :: "short_order_object \<Rightarrow> asset" where
  "sho_amount_for_sale o' = mk_asset (sho_for_sale o') (asset_id (base (sho_sell_price o')))"

definition sho_amount_to_receive :: "short_order_object \<Rightarrow> asset option" where
  "sho_amount_to_receive o' = asset_mult (sho_amount_for_sale o') (sho_sell_price o')"

definition debt_type :: "call_order_object \<Rightarrow> asset_id_type" where
  "debt_type o' = asset_id (quote (call_call_price o'))"

definition call_get_collateral :: "call_order_object \<Rightarrow> asset" where
  "call_get_collateral o' = mk_asset (call_collateral o') (asset_id (base (call_call_price o')))"

definition call_get_debt :: "call_order_object \<Rightarrow> asset" where
  "call_get_debt o' = mk_asset (call_debt o') (debt_type o')"

definition collateralization :: "call_order_object \<Rightarrow> price option" where
  "collateralization o' = asset_div (call_get_collateral o') (call_get_debt o')"

definition update_call_price :: "call_order_object \<Rightarrow> call_order_object option" where
  "update_call_price o' = do {
     p \<leftarrow> call_price (call_get_debt o') (call_get_collateral o') (call_maintenance_collateral_ratio o');
     Some (o'\<lparr>call_call_price := p\<rparr>) }"

definition settlement_asset_id :: "force_settlement_object \<Rightarrow> asset_id_type" where
  "settlement_asset_id o' = asset_id (fs_balance o')"

definition feed_expiration_time :: "asset_bitasset_data_object \<Rightarrow> time_point_sec" where
  "feed_expiration_time b = uint32 (bd_current_feed_publication_time b + feed_lifetime_sec (bd_options b))"

definition feed_is_expired :: "time_point_sec \<Rightarrow> asset_bitasset_data_object \<Rightarrow> bool" where
  "feed_is_expired current_time b \<longleftrightarrow> feed_expiration_time b \<ge> current_time"

definition claimable :: "withdraw_permission_object \<Rightarrow> bool" where
  "claimable p \<longleftrightarrow> wp_claimed_this_period p < amount (wp_withdrawal_limit p)"

definition available_this_period :: "time_point_sec \<Rightarrow> withdraw_permission_object \<Rightarrow> asset option" where
  "available_this_period current_time p =
     (if current_time > uint32 (wp_next_period_start_time p + wp_withdrawal_period_sec p)
      then Some (wp_withdrawal_limit p)
      else if claimable p then do {
        r \<leftarrow> share (amount (wp_withdrawal_limit p) - wp_claimed_this_period p);
        Some (mk_asset r (asset_id (wp_withdrawal_limit p))) }
      else Some (mk_asset 0 (asset_id (wp_withdrawal_limit p))))"

text \<open>\<open>approving_stake\<close> indexes the tally with \<open>operator[]\<close>: out of range it is undefined, here 0.\<close>

definition tally_at :: "int list \<Rightarrow> vote_id_type \<Rightarrow> int" where
  "tally_at tally v = (let i = unat (vote_instance v) in if i < length tally then tally ! i else 0)"

definition approving_stake :: "int list \<Rightarrow> worker_object \<Rightarrow> share_type" where
  "approving_stake tally w = int64 (tally_at tally (wo_vote_for w) - tally_at tally (wo_vote_against w))"

definition worker_is_active :: "time_point_sec \<Rightarrow> worker_object \<Rightarrow> bool" where
  "worker_is_active now w \<longleftrightarrow> now \<ge> wo_work_begin_date w \<and> now \<le> wo_work_end_date w"

end
