(* ===== verification/Ledger.thy ===== *)
theory Ledger
  imports Chain_State
begin

section \<open>Balances and the holdings of an asset\<close>

text \<open>
  Models \<open>get_balance\<close>, \<open>adjust_balance\<close> and \<open>adjust_core_in_orders\<close> of
  \<^verbatim>\<open>libraries/chain/database.cpp\<close> and \<open>account_balance_object\<close>. The locale \<open>ledger\<close> is the contract
  every evaluator uses: an adjustment moves one balance by its amount, never below zero, and the
  total of the asset with it.

  \<open>holdings\<close> is the sum that \<open>database::debug_dump\<close> computes to track down mismatches, over every
  object that holds an amount of the asset, with the objects its TODO leaves out added.
\<close>

subsection \<open>Searching a table by a secondary key\<close>

definition find_first :: "('a \<Rightarrow> bool) \<Rightarrow> 'a table \<Rightarrow> (nat \<times> 'a) option" where
  "find_first P t = List.find (\<lambda>(i, x). P x) (entries t)"

lemma gi_find_entries: "gi_invar t \<Longrightarrow> gi_find t i = Some x \<longleftrightarrow> (i, x) \<in> set (entries t)"
  by (auto simp: gi_find_def gi_invar_def dest: map_of_SomeD)

lemma find_in_list: "List.find P xs = Some x \<Longrightarrow> x \<in> set xs \<and> P x"
  by (induction xs) (auto split: if_splits)

lemma find_first_Some:
  assumes "gi_invar t" "find_first P t = Some (i, x)"
  shows "gi_find t i = Some x" "P x"
  using assms find_in_list [of "\<lambda>(i, x). P x" "entries t" "(i, x)"]
  by (auto simp: find_first_def gi_find_entries)

lemma find_first_None:
  assumes "find_first P t = None" "gi_find t i = Some x"
  shows "\<not> P x"
  using assms by (auto simp: find_first_def find_None_iff gi_find_def dest: map_of_SomeD)

subsection \<open>Balances (database.cpp)\<close>

definition find_balance :: "account_id_type \<Rightarrow> asset_id_type \<Rightarrow> database \<Rightarrow> (nat \<times> account_balance_object) option"
where
  "find_balance owner a db = find_first (\<lambda>b. bal_owner b = owner \<and> bal_asset_type b = a) (balances db)"

definition get_balance :: "account_id_type \<Rightarrow> asset_id_type \<Rightarrow> database \<Rightarrow> asset" where
  "get_balance owner a db = (case find_balance owner a db of
     None \<Rightarrow> mk_asset 0 a
   | Some (_, b) \<Rightarrow> mk_asset (bal_balance b) (bal_asset_type b))"

definition balance_object_adjust :: "asset \<Rightarrow> account_balance_object \<Rightarrow> account_balance_object option" where
  "balance_object_adjust delta b = do {
     s \<leftarrow> share (bal_balance b + amount delta);
     Some (b\<lparr>bal_balance := s\<rparr>) }"

definition adjust_balance :: "account_id_type \<Rightarrow> asset \<Rightarrow> database \<Rightarrow> database option" where
  "adjust_balance account delta db =
     (if amount delta = 0 then Some db
      else case find_balance account (asset_id delta) db of
        None \<Rightarrow> do {
          fc_assert (amount delta > 0);
          (_, t) \<leftarrow> gi_create \<lparr>bal_owner = account, bal_asset_type = asset_id delta, bal_balance = amount delta\<rparr>
                     (balances db);
          Some (db\<lparr>balances := t\<rparr>) }
      | Some (i, b) \<Rightarrow> do {
          ok \<leftarrow> (if amount delta > 0 then Some True
                 else do { d \<leftarrow> asset_neg delta;
                           asset_ge (mk_asset (bal_balance b) (bal_asset_type b)) d });
          fc_assert ok;
          t \<leftarrow> modify_object i (balance_object_adjust delta) (balances db);
          Some (db\<lparr>balances := t\<rparr>) })"

definition adjust_core_in_orders :: "account_object \<Rightarrow> asset \<Rightarrow> database \<Rightarrow> database option" where
  "adjust_core_in_orders acnt delta db =
     (if asset_id delta = 0 \<and> amount delta \<noteq> 0 then do {
        t \<leftarrow> modify_object (acct_statistics acnt)
               (\<lambda>s. do { x \<leftarrow> share (st_total_core_in_orders s + amount delta);
                         Some (s\<lparr>st_total_core_in_orders := x\<rparr>) }) (statistics db);
        Some (db\<lparr>statistics := t\<rparr>) }
      else Some db)"

subsection \<open>The balance table\<close>

definition bal_key :: "account_balance_object \<Rightarrow> account_id_type \<times> asset_id_type" where
  "bal_key b = (bal_owner b, bal_asset_type b)"

definition balances_ok :: "account_balance_object table \<Rightarrow> bool" where
  "balances_ok t \<longleftrightarrow> gi_invar t \<and>
     (\<forall>i j x y. gi_find t i = Some x \<longrightarrow> gi_find t j = Some y \<longrightarrow> bal_key x = bal_key y \<longrightarrow> i = j) \<and>
     (\<forall>i x. gi_find t i = Some x \<longrightarrow> 0 \<le> bal_balance x)"

definition amount_of :: "asset_id_type \<Rightarrow> asset \<Rightarrow> int" where
  "amount_of a x = (if asset_id x = a then amount x else 0)"

definition in_balances :: "asset_id_type \<Rightarrow> database \<Rightarrow> int" where
  "in_balances a db = tsum (\<lambda>b. amount_of a (mk_asset (bal_balance b) (bal_asset_type b))) (balances db)"

lemma amount_of_same [simp]: "asset_id x = a \<Longrightarrow> amount_of a x = amount x"
  by (simp add: amount_of_def)

lemma amount_of_0 [simp]: "amount_of a (mk_asset 0 b) = 0"
  by (simp add: amount_of_def)

lemma amount_of_mk: "amount_of a (mk_asset x b) = (if b = a then x else 0)"
  by (simp add: amount_of_def)

lemma find_balance_Some:
  assumes "balances_ok (balances db)"
  shows "find_balance owner a db = Some (i, b) \<longleftrightarrow>
    gi_find (balances db) i = Some b \<and> bal_key b = (owner, a)" (is "?l = ?r")
proof -
  have inv: "gi_invar (balances db)" using assms by (simp add: balances_ok_def)
  have l: ?r if ?l
    using find_first_Some [of "balances db" _ i b, OF inv] that by (simp add: find_balance_def bal_key_def)
  have "find_balance owner a db = Some (i, b)" if r: ?r
  proof -
    obtain jc where jc: "find_balance owner a db = Some jc"
      using find_first_None [of _ "balances db" i b] r
      by (cases "find_balance owner a db") (auto simp: find_balance_def bal_key_def)
    obtain j c where "jc = (j, c)" by (rule prod.exhaust)
    with jc have c: "gi_find (balances db) j = Some c" "bal_key c = (owner, a)"
      using find_first_Some [of "balances db" _ j c, OF inv]
      by (simp_all add: find_balance_def bal_key_def)
    with r assms have "j = i" unfolding balances_ok_def by metis
    with r c(1) jc \<open>jc = (j, c)\<close> show ?thesis by simp
  qed
  with l show ?thesis by blast
qed
lemma find_balance_None:
  assumes "balances_ok (balances db)"
  shows "find_balance owner a db = None \<longleftrightarrow>
    (\<forall>i b. gi_find (balances db) i = Some b \<longrightarrow> bal_key b \<noteq> (owner, a))"
  using find_balance_Some [OF assms] by (metis not_None_eq prod.collapse)

lemma get_balance_id [simp]: "balances_ok (balances db) \<Longrightarrow> asset_id (get_balance owner a db) = a"
  using find_balance_Some [of db owner a]
  by (auto simp: get_balance_def bal_key_def split: option.splits)

text \<open>What an adjustment does to the table: one entry moves by the amount, or is created with it.\<close>

lemma adjust_balance_cases:
  assumes "adjust_balance account delta db = Some db'" and ok: "balances_ok (balances db)"
  obtains (zero) "amount delta = 0" "db' = db"
  | (create) t i where "amount delta > 0" "find_balance account (asset_id delta) db = None"
      "gi_create \<lparr>bal_owner = account, bal_asset_type = asset_id delta, bal_balance = amount delta\<rparr>
         (balances db) = Some (i, t)" "db' = db\<lparr>balances := t\<rparr>"
  | (change) i b where "find_balance account (asset_id delta) db = Some (i, b)"
      "0 < amount delta \<or> 0 \<le> bal_balance b + amount delta" "int64_ok (bal_balance b + amount delta)"
      "db' = db\<lparr>balances := gi_modify i (\<lambda>_. b\<lparr>bal_balance := bal_balance b + amount delta\<rparr>) (balances db)\<rparr>"
proof (cases "amount delta = 0")
  case True
  with assms(1) show ?thesis by (intro zero) (simp_all add: adjust_balance_def)
next
  case nz: False
  show ?thesis
  proof (cases "find_balance account (asset_id delta) db")
    case None
    with nz assms(1) show ?thesis by (auto simp: adjust_balance_def intro: create)
  next
    case (Some ib)
    obtain i b where ib: "ib = (i, b)" by (rule prod.exhaust)
    have f: "gi_find (balances db) i = Some b" using Some ib find_balance_Some [OF ok] by simp
    show ?thesis
    proof (rule change)
      show "find_balance account (asset_id delta) db = Some (i, b)" using Some ib by simp
      show "0 < amount delta \<or> 0 \<le> bal_balance b + amount delta"
        using nz Some ib assms(1) by (auto simp: adjust_balance_def split: if_splits)
      show "int64_ok (bal_balance b + amount delta)"
        using nz Some ib assms(1) f
        by (auto simp: adjust_balance_def modify_object_Some balance_object_adjust_def split: if_splits)
      show "db' = db\<lparr>balances := gi_modify i (\<lambda>_. b\<lparr>bal_balance := bal_balance b + amount delta\<rparr>) (balances db)\<rparr>"
        using nz Some ib assms(1) f
        by (auto simp: adjust_balance_def modify_object_Some balance_object_adjust_def split: if_splits)
    qed
  qed
qed

lemma balances_ok_adjust:
  assumes "adjust_balance account delta db = Some db'" "balances_ok (balances db)"
  shows "balances_ok (balances db')"
  using assms
proof (cases rule: adjust_balance_cases)
  case (create t i)
  have none: "gi_find (balances db) j = Some b \<Longrightarrow> bal_key b \<noteq> (account, asset_id delta)" for j b
    using create(2) find_balance_None [OF assms(2)] by blast
  have f: "gi_find t j = (if j = i then Some \<lparr>bal_owner = account, bal_asset_type = asset_id delta,
      bal_balance = amount delta\<rparr> else gi_find (balances db) j)" for j
    using gi_find_create [OF create(3)] by simp
  have "p = q" if "gi_find t p = Some x" "gi_find t q = Some y" "bal_key x = bal_key y" for p q x y
  proof (cases "p = i"; cases "q = i")
    assume "p = i" "q \<noteq> i"
    with that show ?thesis using none [of q y] by (auto simp: f bal_key_def)
  next
    assume "p \<noteq> i" "q = i"
    with that show ?thesis using none [of p x] by (auto simp: f bal_key_def)
  next
    assume "p \<noteq> i" "q \<noteq> i"
    with that assms(2) show ?thesis unfolding balances_ok_def by (simp add: f)
  qed simp
  moreover have "0 \<le> bal_balance x" if "gi_find t j = Some x" for j x
    using that assms(2) create(1) unfolding balances_ok_def by (auto simp: f split: if_splits)
  ultimately show ?thesis
    using assms(2) create(4) gi_invar_create [OF _ create(3)]
    unfolding balances_ok_def by simp
next
  case (change i b)
  have f: "gi_find (balances db) i = Some b" using change(1) find_balance_Some [OF assms(2)] by simp
  have "0 \<le> bal_balance b" using assms(2) f unfolding balances_ok_def by blast
  with change(2) have nn: "0 \<le> bal_balance b + amount delta" by auto
  have k: "bal_key (b\<lparr>bal_balance := x\<rparr>) = bal_key b" for x by (simp add: bal_key_def)
  show ?thesis
    using assms(2) change(4) nn f unfolding balances_ok_def
    by (auto simp: gi_find_modify k split: if_splits)
qed (simp add: assms(2))

lemma get_balance_adjust:
  assumes "adjust_balance account delta db = Some db'" "balances_ok (balances db)"
  shows "get_balance owner a db' =
    mk_asset (amount (get_balance owner a db) +
      (if owner = account \<and> a = asset_id delta then amount delta else 0)) a"
  using assms
proof (cases rule: adjust_balance_cases)
  case zero
  then show ?thesis using get_balance_id [OF assms(2), of owner a] by (metis add_0_right asset_eta)
next
  case (create t i)
  note ok' = balances_ok_adjust [OF assms]
  let ?n = "\<lparr>bal_owner = account, bal_asset_type = asset_id delta, bal_balance = amount delta\<rparr>"
  have f: "gi_find (balances db') j = (if j = i then Some ?n else gi_find (balances db) j)" for j
    using gi_find_create [OF create(3)] create(4) by simp
  have fresh: "gi_find (balances db) i = None" using create(3) by (auto simp: gi_create_Some)
  show ?thesis
  proof (cases "owner = account \<and> a = asset_id delta")
    case True
    then have "find_balance owner a db' = Some (i, ?n)"
      by (simp add: find_balance_Some [OF ok'] f bal_key_def)
    with True create(2) show ?thesis by (simp add: get_balance_def)
  next
    case False
    have "find_balance owner a db' = find_balance owner a db"
    proof (cases "find_balance owner a db")
      case None
      then have "find_balance owner a db' = None"
        using False by (auto simp: find_balance_None [OF ok'] find_balance_None [OF assms(2)] f bal_key_def)
      with None show ?thesis by simp
    next
      case (Some jb)
      obtain j b where "jb = (j, b)" by (rule prod.exhaust)
      with Some fresh have "find_balance owner a db' = Some (j, b)"
        using find_balance_Some [OF assms(2), of owner a j b]
        by (auto simp: find_balance_Some [OF ok'] f)
      with Some \<open>jb = (j, b)\<close> show ?thesis by simp
    qed
    then have "get_balance owner a db' = get_balance owner a db" by (simp only: get_balance_def)
    with False show ?thesis
      using get_balance_id [OF assms(2), of owner a] by (simp only: if_False add_0_right) (metis asset_eta)
  qed
next
  case (change i b)
  note ok' = balances_ok_adjust [OF assms]
  let ?b' = "b\<lparr>bal_balance := bal_balance b + amount delta\<rparr>"
  have fb: "gi_find (balances db) i = Some b" "bal_key b = (account, asset_id delta)"
    using change(1) find_balance_Some [OF assms(2)] by simp_all
  have f: "gi_find (balances db') j = (if j = i then Some ?b' else gi_find (balances db) j)" for j
    using change(4) fb by (simp add: gi_find_modify)
  show ?thesis
  proof (cases "owner = account \<and> a = asset_id delta")
    case True
    then have "find_balance owner a db' = Some (i, ?b')"
      using fb by (simp add: find_balance_Some [OF ok'] f bal_key_def)
    with True change(1) fb show ?thesis by (simp add: get_balance_def bal_key_def)
  next
    case False
    have "find_balance owner a db' = find_balance owner a db"
    proof (cases "find_balance owner a db")
      case None
      then have "find_balance owner a db' = None"
        using False fb by (auto simp: find_balance_None [OF ok'] find_balance_None [OF assms(2)] f bal_key_def)
      with None show ?thesis by simp
    next
      case (Some jb)
      obtain j c where jb: "jb = (j, c)" by (rule prod.exhaust)
      with Some have "gi_find (balances db) j = Some c" "bal_key c = (owner, a)"
        by (simp_all add: find_balance_Some [OF assms(2)])
      with False fb have "j \<noteq> i" by auto
      with Some jb have "find_balance owner a db' = Some (j, c)"
        using find_balance_Some [OF assms(2), of owner a j c]
        by (auto simp: find_balance_Some [OF ok'] f)
      with Some jb show ?thesis by simp
    qed
    then have "get_balance owner a db' = get_balance owner a db" by (simp only: get_balance_def)
    with False show ?thesis
      using get_balance_id [OF assms(2), of owner a] by (simp only: if_False add_0_right) (metis asset_eta)
  qed
qed

lemma in_balances_adjust:
  assumes "adjust_balance account delta db = Some db'" "balances_ok (balances db)"
  shows "in_balances a db' = in_balances a db + amount_of a delta"
  using assms
proof (cases rule: adjust_balance_cases)
  case zero
  then show ?thesis by (simp add: amount_of_def)
next
  case (create t i)
  then show ?thesis by (simp add: in_balances_def tsum_create [OF create(3)] amount_of_def)
next
  case (change i b)
  have fb: "gi_find (balances db) i = Some b" "bal_key b = (account, asset_id delta)"
    using change(1) find_balance_Some [OF assms(2)] by simp_all
  have inv: "gi_invar (balances db)" using assms(2) by (simp add: balances_ok_def)
  show ?thesis
    using change(4) fb by (simp add: in_balances_def tsum_modify [OF inv fb(1)] amount_of_def bal_key_def)
qed

lemma adjust_balance_rest:
  assumes "adjust_balance account delta db = Some db'"
  obtains t where "db' = db\<lparr>balances := t\<rparr>"
proof (cases "amount delta = 0")
  case True
  with assms show ?thesis using that [of "balances db"] by (simp add: adjust_balance_def)
next
  case False
  with assms show ?thesis using that by (auto simp: adjust_balance_def split: option.splits)
qed

lemma adjust_balance_frame:
  assumes "adjust_balance i x db = Some db'"
  shows "assets db' = assets db" "limit_orders db' = limit_orders db" "short_orders db' = short_orders db"
    "call_orders db' = call_orders db" "settlements db' = settlements db" "asset_dyns db' = asset_dyns db"
    "accounts db' = accounts db" "statistics db' = statistics db" "bitassets db' = bitassets db"
    "vestings db' = vestings db" "bonds db' = bonds db" "bond_offers db' = bond_offers db"
    "gprops db' = gprops db" "dprops db' = dprops db" "permissions db' = permissions db"
  by (rule adjust_balance_rest [OF assms]; simp)+

subsection \<open>The ledger contract\<close>

text \<open>The balances of one asset by account, an adjustment of one of them, and their total.\<close>

locale ledger =
  fixes bal :: "'s \<Rightarrow> 'k \<Rightarrow> int"
    and adjust :: "'k \<Rightarrow> int \<Rightarrow> 's \<Rightarrow> 's option"
    and total :: "'s \<Rightarrow> int"
    and ok :: "'s \<Rightarrow> bool"
  assumes adjust_bal: "ok s \<Longrightarrow> adjust k d s = Some s' \<Longrightarrow> bal s' j = bal s j + (if j = k then d else 0)"
    and adjust_total: "ok s \<Longrightarrow> adjust k d s = Some s' \<Longrightarrow> total s' = total s + d"
    and adjust_ok: "ok s \<Longrightarrow> adjust k d s = Some s' \<Longrightarrow> ok s'"
    and bal_nonneg: "ok s \<Longrightarrow> 0 \<le> bal s k"
begin

lemma debit_covered:
  assumes "ok s" "adjust k (- d) s = Some s'"
  shows "d \<le> bal s k"
  using bal_nonneg [OF adjust_ok [OF assms], of k] adjust_bal [OF assms, of k] by simp

lemma move:
  assumes "ok s" "adjust j (- d) s = Some s1" "adjust k d s1 = Some s2"
  shows "ok s2" "total s2 = total s" "d \<le> bal s j"
    "bal s2 i = bal s i - (if i = j then d else 0) + (if i = k then d else 0)"
  using adjust_ok [OF assms(1,2)] adjust_ok [OF adjust_ok [OF assms(1,2)] assms(3)]
    adjust_total [OF assms(1,2)] adjust_total [OF adjust_ok [OF assms(1,2)] assms(3)]
    adjust_bal [OF assms(1,2)] adjust_bal [OF adjust_ok [OF assms(1,2)] assms(3)]
    debit_covered [OF assms(1,2)]
  by auto

lemma adjust_commute_bal:
  assumes "ok s" "adjust j x s = Some s1" "adjust k y s1 = Some s2"
    and "adjust k y s = Some t1" "adjust j x t1 = Some t2"
  shows "bal s2 i = bal t2 i" "total s2 = total t2"
  using adjust_bal [OF assms(1,2), of i] adjust_bal [OF adjust_ok [OF assms(1,2)] assms(3), of i]
    adjust_bal [OF assms(1,4), of i] adjust_bal [OF adjust_ok [OF assms(1,4)] assms(5), of i]
    adjust_total [OF assms(1,2)] adjust_total [OF adjust_ok [OF assms(1,2)] assms(3)]
    adjust_total [OF assms(1,4)] adjust_total [OF adjust_ok [OF assms(1,4)] assms(5)]
  by simp_all

end

lemma get_balance_nonneg: "balances_ok (balances db) \<Longrightarrow> 0 \<le> amount (get_balance owner a db)"
  using find_balance_Some [of db owner a]
  by (auto simp: get_balance_def balances_ok_def split: option.splits)

interpretation bal: ledger "\<lambda>db k. amount (get_balance k a db)" "\<lambda>k d. adjust_balance k (mk_asset d a)"
  "in_balances a" "\<lambda>db. balances_ok (balances db)" for a
proof
  fix s :: database and k d s' j
  assume ok: "balances_ok (balances s)" and adj: "adjust_balance k (mk_asset d a) s = Some s'"
  show "amount (get_balance j a s') = amount (get_balance j a s) + (if j = k then d else 0)"
    using get_balance_adjust [OF adj ok, of j a] by simp
  show "in_balances a s' = in_balances a s + d"
    using in_balances_adjust [OF adj ok, of a] by simp
  show "balances_ok (balances s')" using balances_ok_adjust [OF adj ok] .
next
  fix s :: database and k
  assume "balances_ok (balances s)"
  then show "0 \<le> amount (get_balance k a s)" by (rule get_balance_nonneg)
qed

subsection \<open>Holdings\<close>

text \<open>
  The amount of asset \<open>a\<close> that the objects of the database hold: balances, open orders, margin
  collateral, scheduled settlements, bonds and their offers, vesting balances, collected fees and, for
  the core asset, the fee pools, the witnesses' income and the budget set aside for them.
\<close>

definition held_fees :: "asset_id_type \<Rightarrow> asset_dynamic_data_object table \<Rightarrow> int" where
  "held_fees a t = (case gi_find t a of None \<Rightarrow> 0 | Some d \<Rightarrow> dyn_accumulated_fees d)"

definition supply_of :: "asset_id_type \<Rightarrow> database \<Rightarrow> int" where
  "supply_of a db = (case gi_find (asset_dyns db) a of None \<Rightarrow> 0 | Some d \<Rightarrow> dyn_current_supply d)"

definition offer_holding :: "bond_offer_object \<Rightarrow> asset" where
  "offer_holding x = off_amount x"

definition holdings :: "asset_id_type \<Rightarrow> database \<Rightarrow> int" where
  "holdings a db =
     in_balances a db +
     tsum (\<lambda>x. amount_of a (lim_amount_for_sale x)) (limit_orders db) +
     tsum (\<lambda>x. amount_of a (sho_get_collateral x)) (short_orders db) +
     tsum (\<lambda>x. amount_of a (call_get_collateral x)) (call_orders db) +
     tsum (\<lambda>x. amount_of a (fs_balance x)) (settlements db) +
     tsum (\<lambda>x. amount_of a (bond_collateral x)) (bonds db) +
     tsum (\<lambda>x. amount_of a (off_amount x)) (bond_offers db) +
     tsum (\<lambda>x. amount_of a (vb_balance x)) (vestings db) +
     held_fees a (asset_dyns db) +
     (if a = 0 then tsum dyn_fee_pool (asset_dyns db) + tsum wit_accumulated_income (witnesses db) +
        witness_budget (dprops db) else 0)"

text \<open>What is held of an asset beyond its supply: 0 when the books balance.\<close>

definition imbalance :: "asset_id_type \<Rightarrow> database \<Rightarrow> int" where
  "imbalance a db = holdings a db - supply_of a db"

text \<open>
  Well-formedness of the tables the accounting reads: ids are fresh, an asset and its dynamic data
  are created together and so share their number, and balances are unique and not negative.
\<close>

definition tables_ok :: "database \<Rightarrow> bool" where
  "tables_ok db \<longleftrightarrow> balances_ok (balances db) \<and> gi_invar (limit_orders db) \<and> gi_invar (short_orders db) \<and>
     gi_invar (call_orders db) \<and> gi_invar (settlements db) \<and> gi_invar (bonds db) \<and>
     gi_invar (bond_offers db) \<and> gi_invar (vestings db) \<and> gi_invar (asset_dyns db) \<and>
     gi_invar (witnesses db) \<and> gi_invar (assets db) \<and> gi_invar (accounts db) \<and> gi_invar (statistics db) \<and>
     next_id (assets db) = next_id (asset_dyns db) \<and>
     (\<forall>i x. gi_find (assets db) i = Some x \<longrightarrow> ao_dynamic_asset_data_id x = i)"

lemma tables_okD:
  assumes "tables_ok db"
  shows "balances_ok (balances db)" "gi_invar (limit_orders db)" "gi_invar (short_orders db)"
    "gi_invar (call_orders db)" "gi_invar (settlements db)" "gi_invar (bonds db)"
    "gi_invar (bond_offers db)" "gi_invar (vestings db)" "gi_invar (asset_dyns db)"
    "gi_invar (witnesses db)" "gi_invar (assets db)"
    "gi_find (assets db) i = Some x \<Longrightarrow> ao_dynamic_asset_data_id x = i"
    "gi_invar (accounts db)" "gi_invar (statistics db)"
  using assms by (auto simp: tables_ok_def)

lemma adjust_balance_holdings:
  assumes "adjust_balance account delta db = Some db'" "tables_ok db"
  shows "tables_ok db'" "holdings a db' = holdings a db + amount_of a delta" "supply_of a db' = supply_of a db"
proof -
  obtain t where db': "db' = db\<lparr>balances := t\<rparr>" using adjust_balance_rest [OF assms(1)] .
  note ok = tables_okD(1) [OF assms(2)]
  show "tables_ok db'"
    using assms(2) balances_ok_adjust [OF assms(1) ok] by (simp add: tables_ok_def db')
  show "holdings a db' = holdings a db + amount_of a delta"
    using in_balances_adjust [OF assms(1) ok, of a] by (simp add: holdings_def db')
  show "supply_of a db' = supply_of a db" by (simp add: supply_of_def db')
qed

subsection \<open>Changing one table\<close>

text \<open>Replacing a table moves the holdings by the difference of its sum; \<open>ledger_upd\<close> collects the rules.\<close>

named_theorems ledger_upd

lemma holdings_upd [ledger_upd]:
  "holdings a (db\<lparr>limit_orders := t1\<rparr>) = holdings a db +
     (tsum (\<lambda>x. amount_of a (lim_amount_for_sale x)) t1 - tsum (\<lambda>x. amount_of a (lim_amount_for_sale x)) (limit_orders db))"
  "holdings a (db\<lparr>short_orders := t2\<rparr>) = holdings a db +
     (tsum (\<lambda>x. amount_of a (sho_get_collateral x)) t2 - tsum (\<lambda>x. amount_of a (sho_get_collateral x)) (short_orders db))"
  "holdings a (db\<lparr>call_orders := t3\<rparr>) = holdings a db +
     (tsum (\<lambda>x. amount_of a (call_get_collateral x)) t3 - tsum (\<lambda>x. amount_of a (call_get_collateral x)) (call_orders db))"
  "holdings a (db\<lparr>settlements := t4\<rparr>) = holdings a db +
     (tsum (\<lambda>x. amount_of a (fs_balance x)) t4 - tsum (\<lambda>x. amount_of a (fs_balance x)) (settlements db))"
  "holdings a (db\<lparr>bonds := t5\<rparr>) = holdings a db +
     (tsum (\<lambda>x. amount_of a (bond_collateral x)) t5 - tsum (\<lambda>x. amount_of a (bond_collateral x)) (bonds db))"
  "holdings a (db\<lparr>bond_offers := t6\<rparr>) = holdings a db +
     (tsum (\<lambda>x. amount_of a (off_amount x)) t6 - tsum (\<lambda>x. amount_of a (off_amount x)) (bond_offers db))"
  "holdings a (db\<lparr>vestings := t7\<rparr>) = holdings a db +
     (tsum (\<lambda>x. amount_of a (vb_balance x)) t7 - tsum (\<lambda>x. amount_of a (vb_balance x)) (vestings db))"
  "holdings a (db\<lparr>witnesses := t8\<rparr>) = holdings a db +
     (if a = 0 then tsum wit_accumulated_income t8 - tsum wit_accumulated_income (witnesses db) else 0)"
  "holdings a (db\<lparr>dprops := d\<rparr>) = holdings a db +
     (if a = 0 then witness_budget d - witness_budget (dprops db) else 0)"
  by (simp_all add: holdings_def in_balances_def)

lemma holdings_upd_other [simp]:
  "holdings a (db\<lparr>accounts := t1\<rparr>) = holdings a db"
  "holdings a (db\<lparr>statistics := t2\<rparr>) = holdings a db"
  "holdings a (db\<lparr>keys := t3\<rparr>) = holdings a db"
  "holdings a (db\<lparr>delegates := t4\<rparr>) = holdings a db"
  "holdings a (db\<lparr>permissions := t5\<rparr>) = holdings a db"
  "holdings a (db\<lparr>workers := t6\<rparr>) = holdings a db"
  "holdings a (db\<lparr>proposals := t7\<rparr>) = holdings a db"
  "holdings a (db\<lparr>assets := t8\<rparr>) = holdings a db"
  "holdings a (db\<lparr>bitassets := t9\<rparr>) = holdings a db"
  "holdings a (db\<lparr>gprops := g\<rparr>) = holdings a db"
  "holdings a (db\<lparr>applied_ops := ops\<rparr>) = holdings a db"
  by (simp_all add: holdings_def in_balances_def)

lemma supply_upd [simp]:
  "supply_of a (db\<lparr>limit_orders := t1\<rparr>) = supply_of a db"
  "supply_of a (db\<lparr>short_orders := t2\<rparr>) = supply_of a db"
  "supply_of a (db\<lparr>call_orders := t3\<rparr>) = supply_of a db"
  "supply_of a (db\<lparr>settlements := t4\<rparr>) = supply_of a db"
  "supply_of a (db\<lparr>bonds := t5\<rparr>) = supply_of a db"
  "supply_of a (db\<lparr>bond_offers := t6\<rparr>) = supply_of a db"
  "supply_of a (db\<lparr>vestings := t7\<rparr>) = supply_of a db"
  "supply_of a (db\<lparr>witnesses := t8\<rparr>) = supply_of a db"
  "supply_of a (db\<lparr>dprops := d\<rparr>) = supply_of a db"
  "supply_of a (db\<lparr>accounts := u1\<rparr>) = supply_of a db"
  "supply_of a (db\<lparr>statistics := u2\<rparr>) = supply_of a db"
  "supply_of a (db\<lparr>keys := u3\<rparr>) = supply_of a db"
  "supply_of a (db\<lparr>delegates := u4\<rparr>) = supply_of a db"
  "supply_of a (db\<lparr>permissions := u5\<rparr>) = supply_of a db"
  "supply_of a (db\<lparr>workers := u6\<rparr>) = supply_of a db"
  "supply_of a (db\<lparr>proposals := u7\<rparr>) = supply_of a db"
  "supply_of a (db\<lparr>assets := u8\<rparr>) = supply_of a db"
  "supply_of a (db\<lparr>bitassets := u9\<rparr>) = supply_of a db"
  "supply_of a (db\<lparr>gprops := g\<rparr>) = supply_of a db"
  "supply_of a (db\<lparr>applied_ops := ops\<rparr>) = supply_of a db"
  "supply_of a (db\<lparr>balances := u10\<rparr>) = supply_of a db"
  by (simp_all add: supply_of_def)

lemma tables_ok_upd [simp]:
  "tables_ok db \<Longrightarrow> tables_ok (db\<lparr>limit_orders := t1\<rparr>) = gi_invar t1"
  "tables_ok db \<Longrightarrow> tables_ok (db\<lparr>short_orders := t2\<rparr>) = gi_invar t2"
  "tables_ok db \<Longrightarrow> tables_ok (db\<lparr>call_orders := t3\<rparr>) = gi_invar t3"
  "tables_ok db \<Longrightarrow> tables_ok (db\<lparr>settlements := t4\<rparr>) = gi_invar t4"
  "tables_ok db \<Longrightarrow> tables_ok (db\<lparr>bonds := t5\<rparr>) = gi_invar t5"
  "tables_ok db \<Longrightarrow> tables_ok (db\<lparr>bond_offers := t6\<rparr>) = gi_invar t6"
  "tables_ok db \<Longrightarrow> tables_ok (db\<lparr>vestings := t7\<rparr>) = gi_invar t7"
  "tables_ok db \<Longrightarrow> tables_ok (db\<lparr>witnesses := t8\<rparr>) = gi_invar t8"
  "tables_ok db \<Longrightarrow> tables_ok (db\<lparr>accounts := t9\<rparr>) = gi_invar t9"
  "tables_ok db \<Longrightarrow> tables_ok (db\<lparr>statistics := t10\<rparr>) = gi_invar t10"
  by (simp_all add: tables_ok_def)

lemma tables_ok_upd_other [simp]:
  "tables_ok (db\<lparr>keys := t3\<rparr>) = tables_ok db"
  "tables_ok (db\<lparr>delegates := t4\<rparr>) = tables_ok db"
  "tables_ok (db\<lparr>permissions := t5\<rparr>) = tables_ok db"
  "tables_ok (db\<lparr>workers := t6\<rparr>) = tables_ok db"
  "tables_ok (db\<lparr>proposals := t7\<rparr>) = tables_ok db"
  "tables_ok (db\<lparr>bitassets := t9\<rparr>) = tables_ok db"
  "tables_ok (db\<lparr>gprops := g\<rparr>) = tables_ok db"
  "tables_ok (db\<lparr>dprops := d\<rparr>) = tables_ok db"
  "tables_ok (db\<lparr>applied_ops := ops\<rparr>) = tables_ok db"
  by (simp_all add: tables_ok_def)

lemma tsum_modify_by:
  assumes "modify_object i f t = Some t'" "gi_invar t"
    and "\<And>x y. gi_find t i = Some x \<Longrightarrow> f x = Some y \<Longrightarrow> g y = g x + d"
  shows "tsum g t' = tsum g t + d"
  using assms tsum_modify [OF assms(2)] by (auto simp: modify_object_Some)

text \<open>Changing the dynamic data of asset \<open>i\<close>: collected fees by \<open>u\<close>, fee pool by \<open>v\<close>, supply by \<open>w\<close>.\<close>

lemma holdings_dyns:
  assumes "tables_ok db" "modify_object i f (asset_dyns db) = Some t"
    and f: "\<And>x y. gi_find (asset_dyns db) i = Some x \<Longrightarrow> f x = Some y \<Longrightarrow>
      dyn_accumulated_fees y = dyn_accumulated_fees x + u \<and>
      dyn_fee_pool y = dyn_fee_pool x + v \<and> dyn_current_supply y = dyn_current_supply x + w"
  shows "tables_ok (db\<lparr>asset_dyns := t\<rparr>)"
    "holdings a (db\<lparr>asset_dyns := t\<rparr>) = holdings a db + (if a = i then u else 0) + (if a = 0 then v else 0)"
    "supply_of a (db\<lparr>asset_dyns := t\<rparr>) = supply_of a db + (if a = i then w else 0)"
proof -
  note inv = tables_okD(9) [OF assms(1)]
  obtain x y where xy: "gi_find (asset_dyns db) i = Some x" "f x = Some y"
    "t = gi_modify i (\<lambda>_. y) (asset_dyns db)"
    using assms(2) by (auto simp: modify_object_Some)
  note e = f [OF xy(1,2)]
  have pool: "tsum dyn_fee_pool t = tsum dyn_fee_pool (asset_dyns db) + v"
    using tsum_modify [OF inv xy(1), of dyn_fee_pool "\<lambda>_. y"] e xy(3) by simp
  have fees: "held_fees a t = held_fees a (asset_dyns db) + (if a = i then u else 0)"
    using xy e by (simp add: held_fees_def gi_find_modify)
  show "tables_ok (db\<lparr>asset_dyns := t\<rparr>)"
    using assms(1) xy(3) by (simp add: tables_ok_def)
  show "holdings a (db\<lparr>asset_dyns := t\<rparr>) = holdings a db + (if a = i then u else 0) + (if a = 0 then v else 0)"
    using pool fees by (simp add: holdings_def in_balances_def)
  show "supply_of a (db\<lparr>asset_dyns := t\<rparr>) = supply_of a db + (if a = i then w else 0)"
    using xy e by (simp add: supply_of_def gi_find_modify)
qed

subsection \<open>Accounting steps\<close>

text \<open>
  \<open>moves db db' h s\<close>: the step to \<open>db'\<close> keeps the tables well formed, and moves the holdings of asset
  \<open>a\<close> by \<open>h a\<close> and its supply by \<open>s a\<close>. The rules below give one step each; \<open>moves_trans\<close> chains them.
\<close>

definition moves :: "database \<Rightarrow> database \<Rightarrow> (asset_id_type \<Rightarrow> int) \<Rightarrow> (asset_id_type \<Rightarrow> int) \<Rightarrow> bool" where
  "moves db db' h s \<longleftrightarrow> tables_ok db' \<and>
     (\<forall>a. holdings a db' = holdings a db + h a \<and> supply_of a db' = supply_of a db + s a)"

lemma movesD:
  assumes "moves db db' h s"
  shows "tables_ok db'" "holdings a db' = holdings a db + h a" "supply_of a db' = supply_of a db + s a"
  using assms by (simp_all add: moves_def)

lemma moves_refl: "tables_ok db \<Longrightarrow> moves db db (\<lambda>_. 0) (\<lambda>_. 0)"
  by (simp add: moves_def)

lemma moves_trans:
  "moves db db1 h1 s1 \<Longrightarrow> moves db1 db2 h2 s2 \<Longrightarrow> moves db db2 (\<lambda>a. h1 a + h2 a) (\<lambda>a. s1 a + s2 a)"
  by (simp add: moves_def)

lemma moves_cong: "moves db db' h s \<Longrightarrow> (\<And>a. h a = h' a) \<Longrightarrow> (\<And>a. s a = s' a) \<Longrightarrow> moves db db' h' s'"
  by (simp add: moves_def)

lemma moves_imbalance: "moves db db' h s \<Longrightarrow> imbalance a db' = imbalance a db + h a - s a"
  by (simp add: moves_def imbalance_def)

lemma moves_adjust:
  "adjust_balance i x db = Some db' \<Longrightarrow> tables_ok db \<Longrightarrow> moves db db' (\<lambda>a. amount_of a x) (\<lambda>_. 0)"
  using adjust_balance_holdings [of i x db db'] by (simp add: moves_def)

lemma moves_neutral:
  "tables_ok db \<Longrightarrow> modify_object i f (statistics db) = Some t \<Longrightarrow>
     moves db (db\<lparr>statistics := t\<rparr>) (\<lambda>_. 0) (\<lambda>_. 0)"
  "tables_ok db \<Longrightarrow> modify_object i g (accounts db) = Some u \<Longrightarrow>
     moves db (db\<lparr>accounts := u\<rparr>) (\<lambda>_. 0) (\<lambda>_. 0)"
  "tables_ok db \<Longrightarrow> moves db (push_applied_operation op db) (\<lambda>_. 0) (\<lambda>_. 0)"
  by (simp_all add: moves_def modify_object_invar tables_okD push_applied_operation_def)

lemma moves_dyn:
  assumes "modify_object i f (asset_dyns db) = Some t" "tables_ok db"
    and "\<And>x y. gi_find (asset_dyns db) i = Some x \<Longrightarrow> f x = Some y \<Longrightarrow>
      dyn_accumulated_fees y = dyn_accumulated_fees x + u \<and>
      dyn_fee_pool y = dyn_fee_pool x + v \<and> dyn_current_supply y = dyn_current_supply x + w"
  shows "moves db (db\<lparr>asset_dyns := t\<rparr>) (\<lambda>a. (if a = i then u else 0) + (if a = 0 then v else 0))
    (\<lambda>a. if a = i then w else 0)"
  using holdings_dyns [OF assms(2,1) assms(3)] by (simp add: moves_def)

text \<open>One order or other holder is changed, created or removed.\<close>

lemma moves_modify:
  "modify_object i f1 (limit_orders db) = Some t1 \<Longrightarrow> tables_ok db \<Longrightarrow> gi_find (limit_orders db) i = Some x1 \<Longrightarrow>
     f1 x1 = Some y1 \<Longrightarrow> moves db (db\<lparr>limit_orders := t1\<rparr>)
       (\<lambda>a. amount_of a (lim_amount_for_sale y1) - amount_of a (lim_amount_for_sale x1)) (\<lambda>_. 0)"
  "modify_object i f2 (short_orders db) = Some t2 \<Longrightarrow> tables_ok db \<Longrightarrow> gi_find (short_orders db) i = Some x2 \<Longrightarrow>
     f2 x2 = Some y2 \<Longrightarrow> moves db (db\<lparr>short_orders := t2\<rparr>)
       (\<lambda>a. amount_of a (sho_get_collateral y2) - amount_of a (sho_get_collateral x2)) (\<lambda>_. 0)"
  "modify_object i f3 (call_orders db) = Some t3 \<Longrightarrow> tables_ok db \<Longrightarrow> gi_find (call_orders db) i = Some x3 \<Longrightarrow>
     f3 x3 = Some y3 \<Longrightarrow> moves db (db\<lparr>call_orders := t3\<rparr>)
       (\<lambda>a. amount_of a (call_get_collateral y3) - amount_of a (call_get_collateral x3)) (\<lambda>_. 0)"
  "modify_object i f4 (settlements db) = Some t4 \<Longrightarrow> tables_ok db \<Longrightarrow> gi_find (settlements db) i = Some x4 \<Longrightarrow>
     f4 x4 = Some y4 \<Longrightarrow> moves db (db\<lparr>settlements := t4\<rparr>)
       (\<lambda>a. amount_of a (fs_balance y4) - amount_of a (fs_balance x4)) (\<lambda>_. 0)"
  "modify_object i f5 (vestings db) = Some t5 \<Longrightarrow> tables_ok db \<Longrightarrow> gi_find (vestings db) i = Some x5 \<Longrightarrow>
     f5 x5 = Some y5 \<Longrightarrow> moves db (db\<lparr>vestings := t5\<rparr>)
       (\<lambda>a. amount_of a (vb_balance y5) - amount_of a (vb_balance x5)) (\<lambda>_. 0)"
  "modify_object i f6 (bonds db) = Some t6 \<Longrightarrow> tables_ok db \<Longrightarrow> gi_find (bonds db) i = Some x6 \<Longrightarrow>
     f6 x6 = Some y6 \<Longrightarrow> moves db (db\<lparr>bonds := t6\<rparr>)
       (\<lambda>a. amount_of a (bond_collateral y6) - amount_of a (bond_collateral x6)) (\<lambda>_. 0)"
  "modify_object i f7 (bond_offers db) = Some t7 \<Longrightarrow> tables_ok db \<Longrightarrow> gi_find (bond_offers db) i = Some x7 \<Longrightarrow>
     f7 x7 = Some y7 \<Longrightarrow> moves db (db\<lparr>bond_offers := t7\<rparr>)
       (\<lambda>a. amount_of a (off_amount y7) - amount_of a (off_amount x7)) (\<lambda>_. 0)"
  "modify_object i f8 (witnesses db) = Some t8 \<Longrightarrow> tables_ok db \<Longrightarrow> gi_find (witnesses db) i = Some x8 \<Longrightarrow>
     f8 x8 = Some y8 \<Longrightarrow> moves db (db\<lparr>witnesses := t8\<rparr>)
       (\<lambda>a. if a = 0 then wit_accumulated_income y8 - wit_accumulated_income x8 else 0) (\<lambda>_. 0)"
  by (auto simp: moves_def modify_object_Some ledger_upd tables_okD tsum_modify)

lemma moves_create:
  "gi_create y1 (limit_orders db) = Some (i1, t1) \<Longrightarrow> tables_ok db \<Longrightarrow>
     moves db (db\<lparr>limit_orders := t1\<rparr>) (\<lambda>a. amount_of a (lim_amount_for_sale y1)) (\<lambda>_. 0)"
  "gi_create y2 (short_orders db) = Some (i2, t2) \<Longrightarrow> tables_ok db \<Longrightarrow>
     moves db (db\<lparr>short_orders := t2\<rparr>) (\<lambda>a. amount_of a (sho_get_collateral y2)) (\<lambda>_. 0)"
  "gi_create y3 (call_orders db) = Some (i3, t3) \<Longrightarrow> tables_ok db \<Longrightarrow>
     moves db (db\<lparr>call_orders := t3\<rparr>) (\<lambda>a. amount_of a (call_get_collateral y3)) (\<lambda>_. 0)"
  "gi_create y4 (settlements db) = Some (i4, t4) \<Longrightarrow> tables_ok db \<Longrightarrow>
     moves db (db\<lparr>settlements := t4\<rparr>) (\<lambda>a. amount_of a (fs_balance y4)) (\<lambda>_. 0)"
  "gi_create y5 (vestings db) = Some (i5, t5) \<Longrightarrow> tables_ok db \<Longrightarrow>
     moves db (db\<lparr>vestings := t5\<rparr>) (\<lambda>a. amount_of a (vb_balance y5)) (\<lambda>_. 0)"
  "gi_create y6 (bonds db) = Some (i6, t6) \<Longrightarrow> tables_ok db \<Longrightarrow>
     moves db (db\<lparr>bonds := t6\<rparr>) (\<lambda>a. amount_of a (bond_collateral y6)) (\<lambda>_. 0)"
  "gi_create y7 (bond_offers db) = Some (i7, t7) \<Longrightarrow> tables_ok db \<Longrightarrow>
     moves db (db\<lparr>bond_offers := t7\<rparr>) (\<lambda>a. amount_of a (off_amount y7)) (\<lambda>_. 0)"
  "gi_create y8 (witnesses db) = Some (i8, t8) \<Longrightarrow> tables_ok db \<Longrightarrow>
     moves db (db\<lparr>witnesses := t8\<rparr>) (\<lambda>a. if a = 0 then wit_accumulated_income y8 else 0) (\<lambda>_. 0)"
  by (simp_all add: moves_def ledger_upd tables_okD tsum_create)
    (auto intro: gi_invar_create dest: tables_okD)

lemma moves_remove:
  "remove_object i (limit_orders db) = Some t1 \<Longrightarrow> tables_ok db \<Longrightarrow> gi_find (limit_orders db) i = Some x1 \<Longrightarrow>
     moves db (db\<lparr>limit_orders := t1\<rparr>) (\<lambda>a. - amount_of a (lim_amount_for_sale x1)) (\<lambda>_. 0)"
  "remove_object i (short_orders db) = Some t2 \<Longrightarrow> tables_ok db \<Longrightarrow> gi_find (short_orders db) i = Some x2 \<Longrightarrow>
     moves db (db\<lparr>short_orders := t2\<rparr>) (\<lambda>a. - amount_of a (sho_get_collateral x2)) (\<lambda>_. 0)"
  "remove_object i (call_orders db) = Some t3 \<Longrightarrow> tables_ok db \<Longrightarrow> gi_find (call_orders db) i = Some x3 \<Longrightarrow>
     moves db (db\<lparr>call_orders := t3\<rparr>) (\<lambda>a. - amount_of a (call_get_collateral x3)) (\<lambda>_. 0)"
  "remove_object i (settlements db) = Some t4 \<Longrightarrow> tables_ok db \<Longrightarrow> gi_find (settlements db) i = Some x4 \<Longrightarrow>
     moves db (db\<lparr>settlements := t4\<rparr>) (\<lambda>a. - amount_of a (fs_balance x4)) (\<lambda>_. 0)"
  "remove_object i (bonds db) = Some t6 \<Longrightarrow> tables_ok db \<Longrightarrow> gi_find (bonds db) i = Some x6 \<Longrightarrow>
     moves db (db\<lparr>bonds := t6\<rparr>) (\<lambda>a. - amount_of a (bond_collateral x6)) (\<lambda>_. 0)"
  "remove_object i (bond_offers db) = Some t7 \<Longrightarrow> tables_ok db \<Longrightarrow> gi_find (bond_offers db) i = Some x7 \<Longrightarrow>
     moves db (db\<lparr>bond_offers := t7\<rparr>) (\<lambda>a. - amount_of a (off_amount x7)) (\<lambda>_. 0)"
  by (auto simp: moves_def remove_object_Some ledger_upd tables_okD tsum_remove gi_invar_remove)

subsection \<open>A concrete database\<close>

text \<open>
  A small chain on which the properties of the other theories are exercised: the core asset, a user
  issued asset 1 with a funded fee pool and a market-issued asset 2; four accounts, of which account 0
  is prime and the referrer of all and account 3 needs both account 1 and account 2 to sign; accounts 1
  and 2 hold core, account 1 also asset 1.
\<close>

definition table_of :: "'a list \<Rightarrow> 'a table" where
  "table_of xs = \<lparr>next_id = length xs, entries = zip [0..<length xs] xs\<rparr>"

definition sample_options :: asset_options where
  "sample_options = \<lparr>max_supply = 1000000000, market_fee_percent = 0, max_market_fee = 0, min_market_fee = 0,
     issuer_permissions = 0, flags = 0, core_exchange_rate = mk_price (mk_asset 2 0) (mk_asset 1 1),
     whitelist_authorities = [], blacklist_authorities = [], whitelist_markets = [], blacklist_markets = []\<rparr>"

definition sample_assets :: "asset_object list" where
  "sample_assets =
     [\<lparr>ao_symbol = ''BTS'', ao_precision = 5, ao_issuer = 0, ao_options = sample_options,
        ao_dynamic_asset_data_id = 0, ao_bitasset_data_id = None\<rparr>,
      \<lparr>ao_symbol = ''UIA'', ao_precision = 0, ao_issuer = 1, ao_options = sample_options,
        ao_dynamic_asset_data_id = 1, ao_bitasset_data_id = None\<rparr>,
      \<lparr>ao_symbol = ''BITUSD'', ao_precision = 2, ao_issuer = 0,
        ao_options = sample_options\<lparr>flags := market_issued, issuer_permissions := market_issued,
          core_exchange_rate := mk_price (mk_asset 10 0) (mk_asset 1 2)\<rparr>,
        ao_dynamic_asset_data_id = 2, ao_bitasset_data_id = Some 0\<rparr>]"

definition sample_bitasset :: asset_bitasset_data_object where
  "sample_bitasset = \<lparr>bd_short_backing_asset = 0,
     bd_options = \<lparr>feed_lifetime_sec = 60 * 60 * 24, force_settlement_delay_sec = 60 * 60 * 24,
       force_settlement_offset_percent = 0, maximum_force_settlement_volume = 2000,
       short_backing_asset = 0, prediction_market = False\<rparr>,
     bd_feeds = [], bd_current_feed = default_feed, bd_current_feed_publication_time = 0,
     bd_force_settled_volume = 0\<rparr>"

definition sample_account :: "nat \<Rightarrow> string \<Rightarrow> account_object" where
  "sample_account i n = \<lparr>acct_registrar = 0, acct_referrer = 0, acct_referrer_percent = 0, acct_name = n,
     acct_owner = \<lparr>weight_threshold = 1, auths = [(key_oid i, 1)]\<rparr>,
     acct_active = \<lparr>weight_threshold = 1, auths = [(key_oid i, 1)]\<rparr>, acct_memo_key = i,
     acct_voting_account = 0, acct_num_witness = 0, acct_num_committee = 0, acct_votes = [],
     acct_statistics = i, acct_whitelisting_accounts = [], acct_blacklisting_accounts = [],
     acct_cashback_vb = None\<rparr>"

definition sample_database :: database where
  "sample_database = empty_database\<lparr>assets := table_of sample_assets,
     asset_dyns := table_of
       [\<lparr>dyn_current_supply = 3000000, dyn_accumulated_fees = 0, dyn_fee_pool = 0\<rparr>,
        \<lparr>dyn_current_supply = 5000, dyn_accumulated_fees = 0, dyn_fee_pool = 1000000\<rparr>,
        \<lparr>dyn_current_supply = 0, dyn_accumulated_fees = 0, dyn_fee_pool = 0\<rparr>],
     bitassets := table_of [sample_bitasset],
     accounts := table_of [sample_account 0 ''committee'', sample_account 1 ''alice'',
       sample_account 2 ''bob'',
       (sample_account 3 ''carol'')\<lparr>acct_active :=
          \<lparr>weight_threshold = 2, auths = [(account_oid 1, 1), (account_oid 2, 1)]\<rparr>\<rparr>],
     keys := table_of [Public_Key 10, Public_Key 11, Public_Key 12, Public_Key 13],
     statistics := table_of (replicate 4 \<lparr>st_most_recent_op = 0, st_total_core_in_orders = 0, st_lifetime_fees_paid = 0\<rparr>),
     balances := table_of
       [\<lparr>bal_owner = 1, bal_asset_type = 0, bal_balance = 1000000\<rparr>,
        \<lparr>bal_owner = 1, bal_asset_type = 1, bal_balance = 5000\<rparr>,
        \<lparr>bal_owner = 2, bal_asset_type = 0, bal_balance = 1000000\<rparr>]\<rparr>"

lemmas sample_defs = sample_database_def sample_assets_def sample_bitasset_def sample_account_def
  sample_options_def empty_database_def empty_global_def empty_dynamic_def

lemma gi_find_table_of [simp]: "gi_find (table_of xs) i = (if i < length xs then Some (xs ! i) else None)"
proof -
  have "map_of (zip [0..<length xs] xs) i = (if i < length xs then Some (xs ! i) else None)"
  proof (cases "i < length xs")
    case True
    then show ?thesis using map_of_zip_nth [of "[0..<length xs]" xs i] by simp
  next
    case False
    then show ?thesis by (auto simp: map_of_eq_None_iff dest: set_zip_leftD)
  qed
  then show ?thesis by (simp add: gi_find_def table_of_def)
qed

lemma gi_invar_table_of [simp]: "gi_invar (table_of xs)"
  by (auto simp: gi_invar_def table_of_def dest: set_zip_leftD)

lemma next_id_table_of [simp]: "next_id (table_of xs) = length xs"
  by (simp add: table_of_def)

lemma sample_tables_ok: "tables_ok sample_database"
proof -
  have "balances_ok (balances sample_database)"
    by (auto simp: balances_ok_def sample_defs bal_key_def less_Suc_eq numeral_nat nth_Cons' split: if_splits)
  then show ?thesis
    by (auto simp: tables_ok_def sample_defs less_Suc_eq numeral_nat nth_Cons' split: if_splits)
qed

end
