(* ===== verification/Feeds.thy ===== *)
theory Feeds
  imports Complex_Main Ledger "HOL-Library.Multiset"
begin

section \<open>Price feeds of a market-issued asset\<close>

text \<open>
  Models \<open>asset_bitasset_data_object::update_median_feeds\<close> and \<open>max_force_settlement_volume\<close> of
  \<^verbatim>\<open>libraries/chain/asset_object.cpp\<close>. Each field of the current feed is the median of that field
  over the feeds that have not expired. \<open>std::nth_element\<close> chooses an element of the middle rank; among
  elements its comparison does not tell apart the model takes the one a stable sort would.
\<close>

subsection \<open>The middle element\<close>

text \<open>Insertion sort by a strict comparison, stable.\<close>

fun insert_by :: "('a \<Rightarrow> 'a \<Rightarrow> bool) \<Rightarrow> 'a \<Rightarrow> 'a list \<Rightarrow> 'a list" where
  "insert_by lt x [] = [x]"
| "insert_by lt x (y # ys) = (if lt y x then y # insert_by lt x ys else x # y # ys)"

definition sort_by :: "('a \<Rightarrow> 'a \<Rightarrow> bool) \<Rightarrow> 'a list \<Rightarrow> 'a list" where
  "sort_by lt xs = foldr (insert_by lt) xs []"

definition median_of :: "('a \<Rightarrow> 'a \<Rightarrow> bool) \<Rightarrow> 'a list \<Rightarrow> 'a" where
  "median_of lt xs = sort_by lt xs ! (length xs div 2)"

subsection \<open>Updating the median feed (asset\_object.cpp)\<close>

definition live_feed :: "asset_bitasset_data_object \<Rightarrow> time_point_sec \<Rightarrow>
    account_id_type \<times> time_point_sec \<times> price_feed \<Rightarrow> bool" where
  "live_feed b current_time f \<longleftrightarrow>
     current_time - fst (snd f) < feed_lifetime_sec (bd_options b) \<and> fst (snd f) \<noteq> 0"

definition median_feed :: "price_feed list \<Rightarrow> price_feed" where
  "median_feed fs =
     \<lparr>call_limit = median_of price_lt (map call_limit fs),
      short_limit = median_of price_lt (map short_limit fs),
      settlement_price = median_of price_lt (map settlement_price fs),
      max_margin_period_sec = median_of (<) (map max_margin_period_sec fs),
      required_initial_collateral = median_of (<) (map required_initial_collateral fs),
      required_maintenance_collateral = median_of (<) (map required_maintenance_collateral fs)\<rparr>"

definition update_median_feeds ::
  "time_point_sec \<Rightarrow> asset_bitasset_data_object \<Rightarrow> asset_bitasset_data_object" where
  "update_median_feeds current_time b =
     (let live = filter (live_feed b current_time) (bd_feeds b);
          current_feeds = map (snd \<circ> snd) live;
          published = foldl min current_time (map (fst \<circ> snd) live)
      in if current_feeds = [] then
           b\<lparr>bd_current_feed_publication_time := current_time, bd_current_feed := default_feed\<rparr>
         else if length current_feeds = 1 then
           b\<lparr>bd_current_feed_publication_time := published, bd_current_feed := hd current_feeds\<rparr>
         else
           b\<lparr>bd_current_feed_publication_time := published, bd_current_feed := median_feed current_feeds\<rparr>)"

definition max_force_settlement_volume :: "share_type \<Rightarrow> asset_bitasset_data_object \<Rightarrow> share_type option" where
  "max_force_settlement_volume current_supply b =
     (let m = maximum_force_settlement_volume (bd_options b) in
      if m = 0 then Some 0
      else if m = BTS_100_PERCENT then share (current_supply + bd_force_settled_volume b)
      else do {
        let volume = u128 (u128 (int64 (current_supply + bd_force_settled_volume b)) * m) div BTS_100_PERCENT;
        v \<leftarrow> to_uint64 volume;
        Some (int64 v) })"

subsection \<open>The sort\<close>

lemma mset_insert_by: "mset (insert_by lt x xs) = add_mset x (mset xs)"
  by (induction xs) auto

lemma mset_sort_by [simp]: "mset (sort_by lt xs) = mset xs"
  by (induction xs) (simp_all add: sort_by_def mset_insert_by)

lemma length_sort_by [simp]: "length (sort_by lt xs) = length xs"
  by (metis mset_sort_by size_mset)

lemma set_sort_by [simp]: "set (sort_by lt xs) = set xs"
  by (metis mset_sort_by set_mset_mset)

text \<open>A strict weak order on the elements at hand.\<close>

definition weak_order_on :: "'a set \<Rightarrow> ('a \<Rightarrow> 'a \<Rightarrow> bool) \<Rightarrow> bool" where
  "weak_order_on S lt \<longleftrightarrow>
     (\<forall>x \<in> S. \<forall>y \<in> S. lt x y \<longrightarrow> \<not> lt y x) \<and>
     (\<forall>x \<in> S. \<forall>y \<in> S. \<forall>z \<in> S. \<not> lt y x \<longrightarrow> \<not> lt z y \<longrightarrow> \<not> lt z x)"

lemma weak_orderD:
  assumes "weak_order_on S lt"
  shows "x \<in> S \<Longrightarrow> y \<in> S \<Longrightarrow> lt x y \<Longrightarrow> \<not> lt y x"
    "x \<in> S \<Longrightarrow> y \<in> S \<Longrightarrow> z \<in> S \<Longrightarrow> \<not> lt y x \<Longrightarrow> \<not> lt z y \<Longrightarrow> \<not> lt z x"
  using assms unfolding weak_order_on_def by blast+

lemma weak_order_subset:
  assumes "weak_order_on S lt" "T \<subseteq> S"
  shows "weak_order_on T lt"
  unfolding weak_order_on_def
proof (intro conjI ballI impI)
  fix x y assume "x \<in> T" "y \<in> T" "lt x y"
  then show "\<not> lt y x" using weak_orderD(1) [OF assms(1)] assms(2) by (meson subsetD)
next
  fix x y z assume "x \<in> T" "y \<in> T" "z \<in> T" "\<not> lt y x" "\<not> lt z y"
  then show "\<not> lt z x" using weak_orderD(2) [OF assms(1)] assms(2) by (meson subsetD)
qed

definition sorted_by :: "('a \<Rightarrow> 'a \<Rightarrow> bool) \<Rightarrow> 'a list \<Rightarrow> bool" where
  "sorted_by lt xs \<longleftrightarrow> sorted_wrt (\<lambda>x y. \<not> lt y x) xs"

lemma set_insert_by [simp]: "set (insert_by lt x xs) = insert x (set xs)"
  by (metis mset_insert_by set_mset_add_mset_insert set_mset_mset)

lemma sorted_insert_by:
  assumes "weak_order_on (insert x (set xs)) lt" "sorted_by lt xs"
  shows "sorted_by lt (insert_by lt x xs)"
  using assms
proof (induction xs)
  case (Cons y ys)
  have "weak_order_on (insert x (set ys)) lt" by (rule weak_order_subset [OF Cons.prems(1)]) auto
  then have ih: "sorted_by lt (insert_by lt x ys)"
    using Cons.IH Cons.prems(2) by (auto simp: sorted_by_def)
  show ?case
  proof (cases "lt y x")
    case True
    then have "\<not> lt x y" using weak_orderD(1) [OF Cons.prems(1), of y x] by simp
    with True ih Cons.prems(2) show ?thesis by (auto simp: sorted_by_def)
  next
    case False
    have "\<not> lt z x" if "z \<in> set ys" for z
    proof -
      have "\<not> lt z y" using Cons.prems(2) that by (simp add: sorted_by_def)
      moreover have "\<not> lt y x \<longrightarrow> \<not> lt z y \<longrightarrow> \<not> lt z x"
        using weak_orderD(2) [OF Cons.prems(1), of x y z] that by simp
      ultimately show ?thesis using False by simp
    qed
    with False Cons.prems(2) show ?thesis by (auto simp: sorted_by_def)
  qed
qed (simp add: sorted_by_def)

lemma sorted_sort_by: "weak_order_on (set xs) lt \<Longrightarrow> sorted_by lt (sort_by lt xs)"
proof (induction xs)
  case Nil
  then show ?case by (simp add: sort_by_def sorted_by_def)
next
  case (Cons x xs)
  have "weak_order_on (set xs) lt" by (rule weak_order_subset [OF Cons.prems]) auto
  with Cons.IH have s: "sorted_by lt (sort_by lt xs)" by simp
  have e: "sort_by lt (x # xs) = insert_by lt x (sort_by lt xs)" by (simp add: sort_by_def)
  show ?case unfolding e by (rule sorted_insert_by [OF _ s]) (use Cons.prems in simp)
qed

lemma count_before:
  assumes "sorted_by lt xs" "i < length xs" and irrefl: "\<And>x. x \<in> set xs \<Longrightarrow> \<not> lt x x"
  shows "length (filter (\<lambda>y. lt y (xs ! i)) xs) \<le> i"
proof -
  have "filter (\<lambda>y. lt y (xs ! i)) (drop i xs) = []"
  proof -
    have "\<not> lt y (xs ! i)" if y: "y \<in> set (drop i xs)" for y
    proof -
      obtain k where k: "y = xs ! (i + k)" "i + k < length xs"
      proof -
        obtain k where "k < length (drop i xs)" "y = drop i xs ! k" using y
          by (auto simp only: in_set_conv_nth)
        then show ?thesis using that [of k] assms(2) by simp
      qed
      show ?thesis
      proof (cases "k = 0")
        case True
        then show ?thesis using k irrefl by simp
      next
        case False
        with k assms show ?thesis by (auto simp: sorted_by_def sorted_wrt_iff_nth_less)
      qed
    qed
    then show ?thesis by (simp add: filter_empty_conv)
  qed
  then have "length (filter (\<lambda>y. lt y (xs ! i)) xs) = length (filter (\<lambda>y. lt y (xs ! i)) (take i xs))"
    by (metis append_Nil2 append_take_drop_id filter_append)
  also have "\<dots> \<le> i" by (metis length_filter_le length_take min.bounded_iff)
  finally show ?thesis .
qed

lemma count_after:
  assumes "sorted_by lt xs" "i < length xs" and irrefl: "\<And>x. x \<in> set xs \<Longrightarrow> \<not> lt x x"
  shows "length (filter (\<lambda>y. lt (xs ! i) y) xs) \<le> length xs - 1 - i"
proof -
  have "filter (\<lambda>y. lt (xs ! i) y) (take (Suc i) xs) = []"
  proof -
    have "\<not> lt (xs ! i) y" if y: "y \<in> set (take (Suc i) xs)" for y
    proof -
      obtain k where k: "k < Suc i" "y = xs ! k"
      proof -
        obtain k where "k < length (take (Suc i) xs)" "y = take (Suc i) xs ! k" using y
          by (auto simp only: in_set_conv_nth)
        then show ?thesis using that [of k] assms(2) by simp
      qed
      show ?thesis
      proof (cases "k = i")
        case True
        then show ?thesis using k irrefl assms(2) by simp
      next
        case False
        with k assms show ?thesis by (auto simp: sorted_by_def sorted_wrt_iff_nth_less)
      qed
    qed
    then show ?thesis by (simp add: filter_empty_conv)
  qed
  then have "length (filter (\<lambda>y. lt (xs ! i) y) xs) = length (filter (\<lambda>y. lt (xs ! i) y) (drop (Suc i) xs))"
    by (metis append_Nil append_take_drop_id filter_append)
  also have "\<dots> \<le> length xs - 1 - i" by (metis length_filter_le length_drop diff_diff_left plus_1_eq_Suc)
  finally show ?thesis .
qed

lemma length_filter_mset: "mset xs = mset ys \<Longrightarrow> length (filter P xs) = length (filter P ys)"
  by (metis mset_filter size_mset)

lemma upper_half: "(n :: nat) - 1 - n div 2 \<le> (n - 1) div 2"
  by (cases "even n") (auto elim!: evenE oddE)

lemma median_of_middle:
  assumes "weak_order_on (set xs) lt" "xs \<noteq> []"
  shows "median_of lt xs \<in> set xs"
    "length (filter (\<lambda>y. lt y (median_of lt xs)) xs) \<le> length xs div 2"
    "length (filter (\<lambda>y. lt (median_of lt xs) y) xs) \<le> (length xs - 1) div 2"
proof -
  let ?s = "sort_by lt xs" and ?i = "length xs div 2"
  have i: "?i < length ?s" using assms(2) by simp
  have irr: "\<not> lt x x" if "x \<in> set ?s" for x
    using weak_orderD(1) [OF assms(1), of x x] that by auto
  have so: "sorted_by lt ?s" by (rule sorted_sort_by [OF assms(1)])
  have m: "median_of lt xs = ?s ! ?i" by (simp add: median_of_def)
  show "median_of lt xs \<in> set xs" unfolding m using nth_mem [OF i] by simp
  have e: "length (filter P ?s) = length (filter P xs)" for P by (rule length_filter_mset) simp
  show "length (filter (\<lambda>y. lt y (median_of lt xs)) xs) \<le> length xs div 2"
    using count_before [OF so i irr] by (simp only: e m)
  have "length (filter (\<lambda>y. lt (median_of lt xs) y) xs) \<le> length xs - 1 - ?i"
    using count_after [OF so i irr] by (simp only: e m length_sort_by)
  also have "length xs - 1 - ?i \<le> (length xs - 1) div 2" by (rule upper_half)
  finally show "length (filter (\<lambda>y. lt (median_of lt xs) y) xs) \<le> (length xs - 1) div 2" .
qed

subsection \<open>The order of prices\<close>

text \<open>Valid prices are ordered by their market and their quotient.\<close>

definition price_key :: "price \<Rightarrow> asset_id_type \<times> asset_id_type \<times> real" where
  "price_key p = (asset_id (base p), asset_id (quote p), real_of_int (amount (base p)) / real_of_int (amount (quote p)))"

lemma price_lt_key:
  assumes "price_ok a" "price_ok b"
  shows "price_lt a b \<longleftrightarrow> price_key a < price_key b"
proof (cases "same_market a b")
  case True
  have q: "0 < amount (quote a)" "0 < amount (quote b)" using assms by (simp_all add: price_ok_def)
  have "price_lt a b \<longleftrightarrow> amount (base a) * amount (quote b) < amount (base b) * amount (quote a)"
    using price_lt_same_market [of a b] True assms by (simp add: same_market_def)
  also have "\<dots> \<longleftrightarrow> real_of_int (amount (base a) * amount (quote b)) < real_of_int (amount (base b) * amount (quote a))"
    by (simp only: of_int_less_iff)
  also have "\<dots> \<longleftrightarrow> real_of_int (amount (base a)) / real_of_int (amount (quote a))
      < real_of_int (amount (base b)) / real_of_int (amount (quote b))"
    using q by (simp add: divide_less_eq pos_less_divide_eq mult.commute)
  finally show ?thesis using True by (simp add: price_key_def same_market_def)
next
  case False
  then consider "market_lt a b" | "market_lt b a"
    unfolding market_lt_def same_market_def by (metis linorder_neqE_nat)
  then show ?thesis
  proof cases
    case 1
    then have "price_key a < price_key b" by (auto simp: price_key_def market_lt_def)
    then show ?thesis using market_lt_price_lt [OF 1] by simp
  next
    case 2
    then have "price_key b < price_key a" by (auto simp: price_key_def market_lt_def)
    then show ?thesis using market_lt_not_price_lt [OF 2] by simp
  qed
qed

lemma price_weak_order: "(\<And>p. p \<in> S \<Longrightarrow> price_ok p) \<Longrightarrow> weak_order_on S price_lt"
  by (auto simp: weak_order_on_def price_lt_key)

lemma less_weak_order: "weak_order_on S ((<) :: 'a::linorder \<Rightarrow> 'a \<Rightarrow> bool)"
  by (auto simp: weak_order_on_def)

subsection \<open>Properties\<close>

text \<open>
  C33. The settlement price of the current feed cannot be moved by a minority of publishers: with at
  least one live feed it is the price of one of the live feeds, at most half of the live feeds are
  below it and less than half are above it.
\<close>

theorem median_settlement_price:
  assumes "live = filter (live_feed b now) (bd_feeds b)" "live \<noteq> []"
    and "\<And>f. f \<in> set live \<Longrightarrow> price_ok (settlement_price (snd (snd f)))"
  shows "let p = settlement_price (bd_current_feed (update_median_feeds now b));
             prices = map (settlement_price \<circ> snd \<circ> snd) live
         in p \<in> set prices \<and> length (filter (\<lambda>q. price_lt q p) prices) \<le> length live div 2 \<and>
            length (filter (\<lambda>q. price_lt p q) prices) \<le> (length live - 1) div 2"
proof (cases "length live = 1")
  case True
  then obtain f where f: "live = [f]" by (auto simp: length_Suc_conv)
  then have "filter (live_feed b now) (bd_feeds b) = [f]" using assms(1) by simp
  then show ?thesis by (simp add: update_median_feeds_def Let_def f)
next
  case False
  let ?ps = "map (settlement_price \<circ> snd \<circ> snd) live"
  have w: "weak_order_on (set ?ps) price_lt" using assms(3) by (intro price_weak_order) auto
  have "settlement_price (bd_current_feed (update_median_feeds now b)) = median_of price_lt ?ps"
    using assms(1,2) False by (simp add: update_median_feeds_def Let_def median_feed_def comp_assoc)
  then show ?thesis using median_of_middle [OF w] assms(2) by (simp add: Let_def)
qed

text \<open>Three publishers, one of them far off.\<close>

definition sample_feed :: "account_id_type \<Rightarrow> share_type \<Rightarrow> account_id_type \<times> time_point_sec \<times> price_feed" where
  "sample_feed i x = (i, 50, default_feed\<lparr>settlement_price := mk_price (mk_asset x 0) (mk_asset 1 2)\<rparr>)"

definition sample_feeds :: asset_bitasset_data_object where
  "sample_feeds = sample_bitasset\<lparr>bd_feeds := [sample_feed 1 10, sample_feed 2 1000, sample_feed 3 12]\<rparr>"

lemma median_settlement_price_witness:
  "let p = settlement_price (bd_current_feed (update_median_feeds 100 sample_feeds)) in
     p = mk_price (mk_asset 12 0) (mk_asset 1 2) \<and>
     length (filter (\<lambda>q. price_lt q p) (map (settlement_price \<circ> snd \<circ> snd) (bd_feeds sample_feeds))) \<le> 1"
proof -
  have live: "bd_feeds sample_feeds = filter (live_feed sample_feeds 100) (bd_feeds sample_feeds)"
    by (simp add: live_feed_def sample_feeds_def sample_feed_def sample_bitasset_def)
  have e: "settlement_price (bd_current_feed (update_median_feeds 100 sample_feeds)) = mk_price (mk_asset 12 0) (mk_asset 1 2)"
    by code_simp
  have ok: "price_ok (settlement_price (snd (snd f)))" if "f \<in> set (bd_feeds sample_feeds)" for f
    using that by (auto simp: price_ok_def sample_feeds_def sample_feed_def)
  show ?thesis
    using median_settlement_price [OF live _ ok] e
    by (simp add: Let_def) (simp add: sample_feeds_def)
qed

end
