(* ===== verification/Undo.thy ===== *)
theory Undo
  imports Index
begin

section \<open>The undo database\<close>

text \<open>
  Models \<^verbatim>\<open>libraries/db/undo_database.cpp\<close>, the object database it restores
  (\<^verbatim>\<open>object_database.hpp\<close>) and the calls by which \<^verbatim>\<open>primary_index\<close> (\<^verbatim>\<open>index.hpp\<close>) records undo
  state before it delegates to its index. An object id is a pair of its index (space, type) and its
  instance; the undo stack is listed with its back first. A call that throws is \<open>None\<close>.

  The relation \<open>records\<close> says what an undo state remembers of the database it was started on. Every
  database operation keeps it, undoing from it gives the old database back, and merging two of them
  composes it, unless the inner session removes an object that the outer one had modified.
\<close>

type_synonym index_id = "nat \<times> nat"
type_synonym oid = "index_id \<times> nat"

record 'o undo_state =
  old_values :: "(oid \<times> 'o) list"
  old_index_next_ids :: "(index_id \<times> nat) list"
  new_ids :: "oid list"
  removed :: "(oid \<times> 'o) list"

definition empty_undo :: "'o undo_state" where
  "empty_undo = \<lparr>old_values = [], old_index_next_ids = [], new_ids = [], removed = []\<rparr>"

type_synonym 'o object_db = "index_id \<Rightarrow> 'o table"

record 'o undo_database =
  active_sessions :: nat
  disabled :: bool
  stack :: "'o undo_state list" \<comment> \<open>\<open>_stack\<close>, its back first\<close>
  max_size :: nat

subsection \<open>Objects of the database\<close>

definition find_object :: "'o object_db \<Rightarrow> oid \<Rightarrow> 'o option" where
  "find_object db oid = gi_find (db (fst oid)) (snd oid)"

definition db_modify :: "oid \<Rightarrow> ('o \<Rightarrow> 'o) \<Rightarrow> 'o object_db \<Rightarrow> 'o object_db option" where
  "db_modify oid f db = do {
     _ \<leftarrow> find_object db oid;
     Some (db(fst oid := gi_modify (snd oid) f (db (fst oid)))) }"

definition db_remove :: "oid \<Rightarrow> 'o object_db \<Rightarrow> 'o object_db option" where
  "db_remove oid db = do {
     _ \<leftarrow> find_object db oid;
     Some (db(fst oid := gi_remove (snd oid) (db (fst oid)))) }"

definition db_insert :: "oid \<Rightarrow> 'o \<Rightarrow> 'o object_db \<Rightarrow> 'o object_db option" where
  "db_insert oid x db = do {
     t \<leftarrow> gi_insert (snd oid) x (db (fst oid));
     Some (db(fst oid := t)) }"

definition db_set_next_id :: "index_id \<Rightarrow> nat \<Rightarrow> 'o object_db \<Rightarrow> 'o object_db" where
  "db_set_next_id k n db = db(k := (db k)\<lparr>next_id := n\<rparr>)"

subsection \<open>Recording (undo\_database.cpp)\<close>

definition enable :: "'o undo_database \<Rightarrow> 'o undo_database" where
  "enable u = u\<lparr>disabled := False\<rparr>"

definition disable :: "'o undo_database \<Rightarrow> 'o undo_database" where
  "disable u = u\<lparr>disabled := True\<rparr>"

definition start_undo_session :: "'o undo_database \<Rightarrow> 'o undo_database" where
  "start_undo_session u =
     (if disabled u then u
      else let st = (if length (stack u) = max_size u then butlast (stack u) else stack u)
           in u\<lparr>stack := empty_undo # st, active_sessions := Suc (active_sessions u)\<rparr>)"

text \<open>Apply \<open>f\<close> to the state at the back of the stack, pushing an empty one first if there is none.\<close>

definition on_back :: "('o undo_state \<Rightarrow> 'o undo_state) \<Rightarrow> 'o undo_database \<Rightarrow> 'o undo_database" where
  "on_back f u =
     (if disabled u then u
      else case stack u of
        [] \<Rightarrow> u\<lparr>stack := [f empty_undo]\<rparr>
      | st # rest \<Rightarrow> u\<lparr>stack := f st # rest\<rparr>)"

definition record_create :: "oid \<Rightarrow> 'o undo_state \<Rightarrow> 'o undo_state" where
  "record_create oid st =
     (let st1 = (if map_of (old_index_next_ids st) (fst oid) = None
                 then st\<lparr>old_index_next_ids := (fst oid, snd oid) # old_index_next_ids st\<rparr> else st)
      in st1\<lparr>new_ids := List.insert oid (new_ids st1)\<rparr>)"

definition record_modify :: "oid \<Rightarrow> 'o \<Rightarrow> 'o undo_state \<Rightarrow> 'o undo_state" where
  "record_modify oid x st =
     (if oid \<in> set (new_ids st) then st
      else if map_of (old_values st) oid \<noteq> None then st
      else st\<lparr>old_values := (oid, x) # old_values st\<rparr>)"

definition record_remove :: "oid \<Rightarrow> 'o \<Rightarrow> 'o undo_state \<Rightarrow> 'o undo_state" where
  "record_remove oid x st =
     (if oid \<in> set (new_ids st) then st\<lparr>new_ids := removeAll oid (new_ids st)\<rparr>
      else case map_of (old_values st) oid of
        Some v \<Rightarrow> st\<lparr>removed := (oid, v) # removed st,
                     old_values := filter (\<lambda>(i, _). i \<noteq> oid) (old_values st)\<rparr>
      | None \<Rightarrow> if map_of (removed st) oid \<noteq> None then st
                else st\<lparr>removed := (oid, x) # removed st\<rparr>)"

definition on_create :: "oid \<Rightarrow> 'o undo_database \<Rightarrow> 'o undo_database" where
  "on_create oid = on_back (record_create oid)"

definition on_modify :: "oid \<Rightarrow> 'o \<Rightarrow> 'o undo_database \<Rightarrow> 'o undo_database" where
  "on_modify oid x = on_back (record_modify oid x)"

definition on_remove :: "oid \<Rightarrow> 'o \<Rightarrow> 'o undo_database \<Rightarrow> 'o undo_database" where
  "on_remove oid x = on_back (record_remove oid x)"

subsection \<open>Undo, merge, commit\<close>

text \<open>The four restoring loops shared by \<open>undo\<close> and \<open>pop_commit\<close>.\<close>

definition restore_state :: "'o undo_state \<Rightarrow> 'o object_db \<Rightarrow> 'o object_db option" where
  "restore_state st db = do {
     db1 \<leftarrow> fold_opt (\<lambda>(oid, v). db_modify oid (\<lambda>_. v)) (old_values st) db;
     db2 \<leftarrow> fold_opt db_remove (new_ids st) db1;
     let db3 = fold (\<lambda>(k, n). db_set_next_id k n) (old_index_next_ids st) db2;
     fold_opt (\<lambda>(oid, v). db_insert oid v) (removed st) db3 }"

definition undo :: "'o undo_database \<Rightarrow> 'o object_db \<Rightarrow> ('o undo_database \<times> 'o object_db) option" where
  "undo u db = do {
     fc_assert (\<not> disabled u);
     fc_assert (active_sessions u > 0);
     case stack u of
       [] \<Rightarrow> None
     | st # rest \<Rightarrow> do {
         db' \<leftarrow> restore_state st db;
         Some (u\<lparr>stack := (if rest = [] then [empty_undo] else rest),
                 active_sessions := active_sessions u - 1\<rparr>, db') } }"

definition merge_old_value :: "oid \<times> 'o \<Rightarrow> 'o undo_state \<Rightarrow> 'o undo_state" where
  "merge_old_value e p =
     (if fst e \<in> set (new_ids p) then p
      else if map_of (old_values p) (fst e) = None
      then p\<lparr>old_values := (fst e, snd e) # old_values p\<rparr> else p)"

definition merge_next_id :: "index_id \<times> nat \<Rightarrow> 'o undo_state \<Rightarrow> 'o undo_state" where
  "merge_next_id e p =
     (if map_of (old_index_next_ids p) (fst e) = None
      then p\<lparr>old_index_next_ids := (fst e, snd e) # old_index_next_ids p\<rparr> else p)"

definition merge_removed_object :: "oid \<times> 'o \<Rightarrow> 'o undo_state \<Rightarrow> 'o undo_state" where
  "merge_removed_object e p =
     (if fst e \<notin> set (new_ids p)
      then p\<lparr>removed := (fst e, snd e) # filter (\<lambda>(i, _). i \<noteq> fst e) (removed p)\<rparr>
      else p\<lparr>new_ids := removeAll (fst e) (new_ids p)\<rparr>)"

definition merge_states :: "'o undo_state \<Rightarrow> 'o undo_state \<Rightarrow> 'o undo_state" where
  "merge_states st prev =
     (let p1 = fold merge_old_value (old_values st) prev;
          p2 = p1\<lparr>new_ids := fold List.insert (new_ids st) (new_ids p1)\<rparr>;
          p3 = fold merge_next_id (old_index_next_ids st) p2
      in fold merge_removed_object (removed st) p3)"

definition merge :: "'o undo_database \<Rightarrow> 'o undo_database option" where
  "merge u = do {
     fc_assert (active_sessions u > 0);
     case stack u of
       st # prev # rest \<Rightarrow>
         Some (u\<lparr>stack := merge_states st prev # rest, active_sessions := active_sessions u - 1\<rparr>)
     | _ \<Rightarrow> None }"

definition commit :: "'o undo_database \<Rightarrow> 'o undo_database option" where
  "commit u = do {
     fc_assert (active_sessions u > 0);
     Some (u\<lparr>active_sessions := active_sessions u - 1\<rparr>) }"

definition pop_commit :: "'o undo_database \<Rightarrow> 'o object_db \<Rightarrow> ('o undo_database \<times> 'o object_db) option" where
  "pop_commit u db = do {
     fc_assert (active_sessions u = 0);
     case stack u of
       [] \<Rightarrow> None
     | st # rest \<Rightarrow> do {
         db' \<leftarrow> restore_state st db;
         Some (u\<lparr>stack := rest, disabled := False\<rparr>, db') } }"

definition undo_head :: "'o undo_database \<Rightarrow> 'o undo_state option" where
  "undo_head u = (case stack u of [] \<Rightarrow> None | st # _ \<Rightarrow> Some st)"

subsection \<open>The recorded mutators (primary\_index)\<close>

datatype 'o db_op = Create index_id 'o | Modify oid "'o \<Rightarrow> 'o" | Remove oid

fun step_op :: "'o db_op \<Rightarrow> 'o undo_database \<times> 'o object_db \<Rightarrow> ('o undo_database \<times> 'o object_db) option"
where
  "step_op (Create k x) (u, db) = do {
     (i, t) \<leftarrow> gi_create x (db k);
     Some (on_create (k, i) u, db(k := t)) }"
| "step_op (Modify oid f) (u, db) = do {
     x \<leftarrow> find_object db oid;
     db' \<leftarrow> db_modify oid f db;
     Some (on_modify oid x u, db') }"
| "step_op (Remove oid) (u, db) = do {
     x \<leftarrow> find_object db oid;
     db' \<leftarrow> db_remove oid db;
     Some (on_remove oid x u, db') }"

subsection \<open>What an undo state remembers\<close>

definition db_ok :: "'o object_db \<Rightarrow> bool" where
  "db_ok db \<longleftrightarrow> (\<forall>k. gi_invar (db k))"

definition same_db :: "'o object_db \<Rightarrow> 'o object_db \<Rightarrow> bool" where
  "same_db a b \<longleftrightarrow>
     (\<forall>oid. find_object a oid = find_object b oid) \<and> (\<forall>k. next_id (a k) = next_id (b k))"

text \<open>What the undo state says of one object id, and of the next id of one index.\<close>

definition object_recorded :: "'o object_db \<Rightarrow> 'o undo_state \<Rightarrow> 'o object_db \<Rightarrow> oid \<Rightarrow> bool" where
  "object_recorded s0 st s oid \<longleftrightarrow>
     (if oid \<in> set (new_ids st)
      then find_object s0 oid = None \<and> find_object s oid \<noteq> None \<and> next_id (s0 (fst oid)) \<le> snd oid \<and>
           map_of (old_values st) oid = None \<and> map_of (removed st) oid = None
      else case map_of (old_values st) oid of
        Some v \<Rightarrow> find_object s0 oid = Some v \<and> find_object s oid \<noteq> None \<and>
                  map_of (removed st) oid = None
      | None \<Rightarrow> (case map_of (removed st) oid of
          Some v \<Rightarrow> find_object s0 oid = Some v \<and> find_object s oid = None
        | None \<Rightarrow> find_object s oid = find_object s0 oid))"

definition next_recorded :: "'o object_db \<Rightarrow> 'o undo_state \<Rightarrow> 'o object_db \<Rightarrow> index_id \<Rightarrow> bool" where
  "next_recorded s0 st s k \<longleftrightarrow> next_id (s0 k) \<le> next_id (s k) \<and>
     (case map_of (old_index_next_ids st) k of
        Some n \<Rightarrow> next_id (s0 k) = n | None \<Rightarrow> next_id (s k) = next_id (s0 k))"

definition keys_distinct :: "'o undo_state \<Rightarrow> bool" where
  "keys_distinct st \<longleftrightarrow>
     distinct (map fst (old_values st)) \<and> distinct (map fst (removed st)) \<and>
     distinct (map fst (old_index_next_ids st)) \<and> distinct (new_ids st)"

definition records :: "'o object_db \<Rightarrow> 'o undo_state \<Rightarrow> 'o object_db \<Rightarrow> bool" where
  "records s0 st s \<longleftrightarrow> db_ok s0 \<and> db_ok s \<and> keys_distinct st \<and>
     (\<forall>oid. object_recorded s0 st s oid) \<and> (\<forall>k. next_recorded s0 st s k)"

declare map_of_eq_Some_iff [simp del]
declare split_paired_All [simp del] split_paired_Ex [simp del]

lemma records_empty: "db_ok s \<Longrightarrow> records s empty_undo s"
  by (simp add: records_def empty_undo_def object_recorded_def next_recorded_def keys_distinct_def)

lemma find_object_less: "db_ok s \<Longrightarrow> find_object s oid \<noteq> None \<Longrightarrow> snd oid < next_id (s (fst oid))"
  by (auto simp: db_ok_def find_object_def intro: gi_find_less)

lemma db_modify_Some:
  "db_modify oid f db = Some db' \<longleftrightarrow>
     find_object db oid \<noteq> None \<and> db' = db(fst oid := gi_modify (snd oid) f (db (fst oid)))"
  by (auto simp: db_modify_def)

lemma db_remove_Some:
  "db_remove oid db = Some db' \<longleftrightarrow>
     find_object db oid \<noteq> None \<and> db' = db(fst oid := gi_remove (snd oid) (db (fst oid)))"
  by (auto simp: db_remove_def)

lemma find_db_modify:
  assumes "db_modify oid f db = Some db'"
  shows "find_object db' j = (if j = oid then map_option f (find_object db j) else find_object db j)"
    and "next_id (db' k) = next_id (db k)" and "db_ok db' = db_ok db"
  using assms by (cases oid; cases j; auto simp: db_modify_Some find_object_def gi_find_modify db_ok_def)+

lemma find_db_remove:
  assumes "db_remove oid db = Some db'"
  shows "find_object db' j = (if j = oid then None else find_object db j)"
    and "next_id (db' k) = next_id (db k)" and "db_ok db \<Longrightarrow> db_ok db'"
  using assms by (cases oid; cases j; auto simp: db_remove_Some find_object_def gi_find_remove db_ok_def
      intro: gi_invar_remove)+

subsection \<open>The restoring loops\<close>

lemma restore_old_values:
  assumes "distinct (map fst xs)" "\<forall>oid \<in> fst ` set xs. find_object db oid \<noteq> None"
  shows "\<exists>db'. fold_opt (\<lambda>(oid, v). db_modify oid (\<lambda>_. v)) xs db = Some db' \<and>
    (\<forall>oid. find_object db' oid = (case map_of xs oid of Some v \<Rightarrow> Some v | None \<Rightarrow> find_object db oid)) \<and>
    (\<forall>k. next_id (db' k) = next_id (db k))"
  using assms
proof (induction xs arbitrary: db)
  case Nil
  then show ?case by simp
next
  case (Cons p xs)
  obtain oid v where p: "p = (oid, v)" by (rule prod.exhaust)
  with Cons.prems have "find_object db oid \<noteq> None" by simp
  then obtain db1 where db1: "db_modify oid (\<lambda>_. v) db = Some db1"
    by (simp add: db_modify_Some)
  note f = find_db_modify [OF db1]
  have none: "map_of xs oid = None" using Cons.prems p by (simp add: map_of_eq_None_iff)
  have "\<forall>j \<in> fst ` set xs. find_object db1 j \<noteq> None"
    using Cons.prems p by (auto simp: f)
  then obtain db' where "fold_opt (\<lambda>(oid, v). db_modify oid (\<lambda>_. v)) xs db1 = Some db'"
    and g: "\<forall>j. find_object db' j = (case map_of xs j of Some v \<Rightarrow> Some v | None \<Rightarrow> find_object db1 j)"
    and "\<forall>k. next_id (db' k) = next_id (db1 k)"
    using Cons.IH [of db1] Cons.prems by auto
  moreover have "find_object db' j = (case map_of (p # xs) j of Some v \<Rightarrow> Some v | None \<Rightarrow> find_object db j)" for j
    using g p f(1) [of j] none \<open>find_object db oid \<noteq> None\<close>
    by (auto split: option.splits)
  ultimately show ?case using p db1 f(2) by simp
qed

lemma remove_new_ids:
  assumes "distinct xs" "\<forall>oid \<in> set xs. find_object db oid \<noteq> None"
  shows "\<exists>db'. fold_opt db_remove xs db = Some db' \<and>
    (\<forall>oid. find_object db' oid = (if oid \<in> set xs then None else find_object db oid)) \<and>
    (\<forall>k. next_id (db' k) = next_id (db k))"
  using assms
proof (induction xs arbitrary: db)
  case Nil
  then show ?case by simp
next
  case (Cons oid xs)
  then have "find_object db oid \<noteq> None" by simp
  then obtain db1 where db1: "db_remove oid db = Some db1"
    by (simp add: db_remove_Some)
  note f = find_db_remove [OF db1]
  have "\<forall>j \<in> set xs. find_object db1 j \<noteq> None"
    using Cons.prems by (auto simp: f)
  then obtain db' where "fold_opt db_remove xs db1 = Some db'"
    and "\<forall>j. find_object db' j = (if j \<in> set xs then None else find_object db1 j)"
    and "\<forall>k. next_id (db' k) = next_id (db1 k)"
    using Cons.IH [of db1] Cons.prems by auto
  then show ?case using db1 f by auto
qed

lemma restore_next_ids:
  assumes "distinct (map fst xs)"
  shows "find_object (fold (\<lambda>(k, n). db_set_next_id k n) xs db) oid = find_object db oid \<and>
    next_id (fold (\<lambda>(k, n). db_set_next_id k n) xs db k) =
      (case map_of xs k of Some n \<Rightarrow> n | None \<Rightarrow> next_id (db k))"
  using assms
proof (induction xs arbitrary: db)
  case Nil
  then show ?case by simp
next
  case (Cons p xs)
  obtain j n where p: "p = (j, n)" by (rule prod.exhaust)
  have "find_object (db_set_next_id j n db) oid = find_object db oid"
    by (simp add: db_set_next_id_def find_object_def gi_find_def)
  moreover have "next_id (db_set_next_id j n db k) = (if k = j then n else next_id (db k))"
    by (simp add: db_set_next_id_def)
  moreover have "map_of xs j = None"
    using Cons.prems p by (simp add: map_of_eq_None_iff)
  ultimately show ?case
    using Cons p by (auto split: option.splits)
qed

lemma restore_removed:
  assumes "distinct (map fst xs)" "\<forall>oid \<in> fst ` set xs. find_object db oid = None"
  shows "\<exists>db'. fold_opt (\<lambda>(oid, v). db_insert oid v) xs db = Some db' \<and>
    (\<forall>oid. find_object db' oid = (case map_of xs oid of Some v \<Rightarrow> Some v | None \<Rightarrow> find_object db oid)) \<and>
    (\<forall>k. next_id (db' k) = next_id (db k))"
  using assms
proof (induction xs arbitrary: db)
  case Nil
  then show ?case by simp
next
  case (Cons p xs)
  obtain oid v where p: "p = (oid, v)" by (rule prod.exhaust)
  define t where "t = (db (fst oid))\<lparr>entries := entries (db (fst oid)) @ [(snd oid, v)]\<rparr>"
  define db1 where "db1 = db(fst oid := t)"
  have none: "find_object db oid = None" using Cons.prems p by simp
  have new: "map_of xs oid = None" using Cons.prems p by (simp add: map_of_eq_None_iff)
  from none have ins: "db_insert oid v db = Some db1"
    by (simp add: db_insert_def gi_insert_def db1_def t_def find_object_def)
  have f: "find_object db1 j = (if j = oid then Some v else find_object db j)" for j
    using none by (cases oid; cases j)
      (auto simp: find_object_def db1_def t_def gi_find_def map_add_def split: option.splits)
  have n: "next_id (db1 k) = next_id (db k)" for k by (simp add: db1_def t_def)
  have "\<forall>j \<in> fst ` set xs. find_object db1 j = None"
    using Cons.prems p by (auto simp: f)
  then obtain db' where "fold_opt (\<lambda>(oid, v). db_insert oid v) xs db1 = Some db'"
    and g: "\<forall>j. find_object db' j = (case map_of xs j of Some v \<Rightarrow> Some v | None \<Rightarrow> find_object db1 j)"
    and "\<forall>k. next_id (db' k) = next_id (db1 k)"
    using Cons.IH [of db1] Cons.prems by auto
  moreover have "find_object db' j = (case map_of (p # xs) j of Some v \<Rightarrow> Some v | None \<Rightarrow> find_object db j)" for j
    using g p f [of j] new by (auto split: option.splits)
  ultimately show ?case using p ins n by simp
qed

lemma object_recorded_old:
  "object_recorded s0 st s oid \<Longrightarrow> map_of (old_values st) oid = Some v \<Longrightarrow> find_object s oid \<noteq> None"
  by (simp add: object_recorded_def split: if_splits)

lemma object_recorded_removed:
  "object_recorded s0 st s oid \<Longrightarrow> map_of (removed st) oid = Some v \<Longrightarrow>
     find_object s oid = None \<and> oid \<notin> set (new_ids st) \<and> map_of (old_values st) oid = None"
  by (simp add: object_recorded_def split: if_splits option.splits)

lemma map_of_key: "k \<in> fst ` set xs \<Longrightarrow> \<exists>v. map_of xs k = Some v"
  by (metis map_of_eq_None_iff not_None_eq)

lemma records_old:
  assumes "records s0 st s" "oid \<in> fst ` set (old_values st)"
  shows "find_object s oid \<noteq> None"
proof -
  obtain v where "map_of (old_values st) oid = Some v" using map_of_key [OF assms(2)] by blast
  moreover have "object_recorded s0 st s oid" using assms(1) by (simp only: records_def)
  ultimately show ?thesis by (rule object_recorded_old [rotated])
qed

lemma restore_state_records:
  assumes r: "records s0 st s"
  shows "\<exists>s'. restore_state st s = Some s' \<and> same_db s' s0"
proof -
  from r have d: "keys_distinct st" by (simp add: records_def)
  from r have o: "object_recorded s0 st s oid" for oid by (simp add: records_def)
  from r have n: "next_recorded s0 st s k" for k by (simp add: records_def)
  obtain d1 where d1: "fold_opt (\<lambda>(oid, v). db_modify oid (\<lambda>_. v)) (old_values st) s = Some d1"
    "\<And>oid. find_object d1 oid = (case map_of (old_values st) oid of Some v \<Rightarrow> Some v | None \<Rightarrow> find_object s oid)"
    "\<And>k. next_id (d1 k) = next_id (s k)"
    using restore_old_values [of "old_values st" s] d records_old [OF r]
    by (auto simp: keys_distinct_def)
  have "find_object d1 oid \<noteq> None" if "oid \<in> set (new_ids st)" for oid
    using o [of oid] that by (auto simp: d1(2) object_recorded_def split: option.splits)
  then obtain d2 where d2: "fold_opt db_remove (new_ids st) d1 = Some d2"
    "\<And>oid. find_object d2 oid = (if oid \<in> set (new_ids st) then None else find_object d1 oid)"
    "\<And>k. next_id (d2 k) = next_id (d1 k)"
    using remove_new_ids [of "new_ids st" d1] d by (auto simp: keys_distinct_def)
  define d3 where "d3 = fold (\<lambda>(k, n). db_set_next_id k n) (old_index_next_ids st) d2"
  have d3: "find_object d3 oid = find_object d2 oid"
    "next_id (d3 k) = (case map_of (old_index_next_ids st) k of Some n \<Rightarrow> n | None \<Rightarrow> next_id (d2 k))" for oid k
    using restore_next_ids [of "old_index_next_ids st" d2 oid k] d
    by (simp_all add: d3_def keys_distinct_def)
  have "find_object d3 oid = None" if "oid \<in> fst ` set (removed st)" for oid
  proof -
    obtain v where "map_of (removed st) oid = Some v"
      using map_of_key [OF \<open>oid \<in> fst ` set (removed st)\<close>] by blast
    from object_recorded_removed [OF o this] show ?thesis
      by (simp add: d3(1) d2(2) d1(2))
  qed
  then obtain d4 where d4: "fold_opt (\<lambda>(oid, v). db_insert oid v) (removed st) d3 = Some d4"
    "\<And>oid. find_object d4 oid = (case map_of (removed st) oid of Some v \<Rightarrow> Some v | None \<Rightarrow> find_object d3 oid)"
    "\<And>k. next_id (d4 k) = next_id (d3 k)"
    using restore_removed [of "removed st" d3] d by (auto simp: keys_distinct_def)
  have "find_object d4 oid = find_object s0 oid" for oid
    using o [of oid]
    by (auto simp: d4 d3 d2 d1 object_recorded_def split: option.splits if_splits)
  moreover have "next_id (d4 k) = next_id (s0 k)" for k
    using n [of k] by (auto simp: d4 d3 d2 d1 next_recorded_def split: option.splits)
  ultimately show ?thesis
    using d1(1) d2(1) d4(1) by (simp add: restore_state_def same_db_def d3_def Let_def)
qed

subsection \<open>Every operation is recorded\<close>

lemma keys_distinct_record:
  assumes "keys_distinct st"
  shows "keys_distinct (record_create oid st)"
    and "keys_distinct (record_modify oid x st)"
    and "map_of (removed st) oid = None \<Longrightarrow> keys_distinct (record_remove oid x st)"
  using assms
  by (auto simp: keys_distinct_def record_create_def record_modify_def record_remove_def Let_def
      map_of_eq_None_iff distinct_removeAll intro: distinct_map_filter split: option.splits)

lemma map_of_filter_key:
  "map_of (filter (\<lambda>(i, _). i \<noteq> k) xs) j = (if j = k then None else map_of xs j)"
  by (induction xs) auto

lemma record_create_records:
  assumes r: "records s0 st s" and c: "gi_create x (s k) = Some (i, t)"
  shows "records s0 (record_create (k, i) st) (s(k := t))"
proof -
  from r have o: "object_recorded s0 st s oid" and n: "next_recorded s0 st s j"
    and ok: "db_ok s" "db_ok s0" for oid j by (simp_all add: records_def)
  have i: "i = next_id (s k)" "gi_find (s k) i = None" "next_id t = Suc i"
    using c by (auto simp: gi_create_Some)
  have none: "find_object s (k, i) = None" by (simp add: find_object_def i(2))
  have le: "next_id (s0 k) \<le> i" using n [of k] i by (simp add: next_recorded_def)
  have none0: "find_object s0 (k, i) = None"
    using find_object_less [OF ok(2), of "(k, i)"] le by (cases "find_object s0 (k, i)") auto
  have f: "find_object (s(k := t)) j = (if j = (k, i) then Some x else find_object s j)" for j
    using gi_find_create [OF c] by (cases j) (auto simp: find_object_def)
  have "db_ok (s(k := t))"
    using ok gi_invar_create [OF _ c] by (simp add: db_ok_def)
  moreover have "object_recorded s0 (record_create (k, i) st) (s(k := t)) j" for j
    using o [of j] none none0 le
    by (auto simp: object_recorded_def record_create_def Let_def f split: option.splits if_splits)
  moreover have "next_recorded s0 (record_create (k, i) st) (s(k := t)) j" for j
    using n [of j] i le by (auto simp: next_recorded_def record_create_def Let_def split: option.splits)
  ultimately show ?thesis
    using r keys_distinct_record(1) [of st "(k, i)"] by (simp add: records_def)
qed

lemma record_modify_records:
  assumes r: "records s0 st s" and x: "find_object s oid = Some x" and m: "db_modify oid f s = Some s'"
  shows "records s0 (record_modify oid x st) s'"
proof -
  from r have o: "object_recorded s0 st s oid" and n: "next_recorded s0 st s j" for oid j
    by (simp_all add: records_def)
  note f = find_db_modify [OF m]
  have "object_recorded s0 (record_modify oid x st) s' j" for j
    using o [of j] x
    by (auto simp: object_recorded_def record_modify_def f split: option.splits if_splits)
  moreover have "next_recorded s0 (record_modify oid x st) s' j" for j
    using n [of j] by (auto simp: next_recorded_def record_modify_def f split: option.splits)
  ultimately show ?thesis
    using r f(3) keys_distinct_record(2) [of st oid x] by (simp add: records_def)
qed

lemma record_remove_records:
  assumes r: "records s0 st s" and x: "find_object s oid = Some x" and m: "db_remove oid s = Some s'"
  shows "records s0 (record_remove oid x st) s'"
proof -
  from r have o: "object_recorded s0 st s oid" and n: "next_recorded s0 st s j" for oid j
    by (simp_all add: records_def)
  note f = find_db_remove [OF m]
  have nr: "map_of (removed st) oid = None"
    using o [of oid] x by (auto simp: object_recorded_def split: option.splits if_splits)
  have "object_recorded s0 (record_remove oid x st) s' j" for j
    using o [of j] x nr
    by (auto simp: object_recorded_def record_remove_def f map_of_filter_key
        split: option.splits if_splits)
  moreover have "next_recorded s0 (record_remove oid x st) s' j" for j
    using n [of j] by (auto simp: next_recorded_def record_remove_def f split: option.splits)
  ultimately show ?thesis
    using r f(3) nr keys_distinct_record(3) [of st oid x] by (simp add: records_def)
qed

subsection \<open>Merging a session into the one below\<close>

lemma merge_old_value_eq [simp]:
  "map_of (old_values (merge_old_value e p)) j =
     (case map_of (old_values p) j of Some v \<Rightarrow> Some v
      | None \<Rightarrow> if j \<in> set (new_ids p) \<or> j \<noteq> fst e then None else Some (snd e))"
  "new_ids (merge_old_value e p) = new_ids p"
  "removed (merge_old_value e p) = removed p"
  "old_index_next_ids (merge_old_value e p) = old_index_next_ids p"
  by (auto simp: merge_old_value_def split: option.splits)

lemma merge_old_value_distinct: "keys_distinct p \<Longrightarrow> keys_distinct (merge_old_value e p)"
  by (auto simp: merge_old_value_def keys_distinct_def map_of_eq_None_iff)

lemma merge_old_values_eq:
  "map_of (old_values (fold merge_old_value xs p)) j =
     (case map_of (old_values p) j of Some v \<Rightarrow> Some v
      | None \<Rightarrow> if j \<in> set (new_ids p) then None else map_of xs j)"
  by (induction xs arbitrary: p) (auto split: option.splits)

lemma merge_old_values_keep [simp]:
  "new_ids (fold merge_old_value xs p) = new_ids p"
  "removed (fold merge_old_value xs p) = removed p"
  "old_index_next_ids (fold merge_old_value xs p) = old_index_next_ids p"
  by (induction xs arbitrary: p) simp_all

lemma fold_keys_distinct:
  assumes "\<And>e p. keys_distinct p \<Longrightarrow> keys_distinct (f e p)"
  shows "keys_distinct p \<Longrightarrow> keys_distinct (fold f xs p)"
  by (induction xs arbitrary: p) (simp_all add: assms)

lemma merge_next_id_eq [simp]:
  "map_of (old_index_next_ids (merge_next_id e p)) k =
     (case map_of (old_index_next_ids p) k of Some n \<Rightarrow> Some n
      | None \<Rightarrow> if k = fst e then Some (snd e) else None)"
  "new_ids (merge_next_id e p) = new_ids p"
  "removed (merge_next_id e p) = removed p"
  "old_values (merge_next_id e p) = old_values p"
  by (auto simp: merge_next_id_def split: option.splits)

lemma merge_next_id_distinct: "keys_distinct p \<Longrightarrow> keys_distinct (merge_next_id e p)"
  by (auto simp: merge_next_id_def keys_distinct_def map_of_eq_None_iff)

lemma merge_next_ids_eq:
  "map_of (old_index_next_ids (fold merge_next_id xs p)) k =
     (case map_of (old_index_next_ids p) k of Some n \<Rightarrow> Some n | None \<Rightarrow> map_of xs k)"
  by (induction xs arbitrary: p) (auto split: option.splits)

lemma merge_next_ids_keep [simp]:
  "new_ids (fold merge_next_id xs p) = new_ids p"
  "removed (fold merge_next_id xs p) = removed p"
  "old_values (fold merge_next_id xs p) = old_values p"
  by (induction xs arbitrary: p) simp_all

lemma merge_removed_object_eq [simp]:
  "map_of (removed (merge_removed_object e p)) j =
     (if j = fst e \<and> j \<notin> set (new_ids p) then Some (snd e) else map_of (removed p) j)"
  "set (new_ids (merge_removed_object e p)) = set (new_ids p) - {fst e}"
  "old_values (merge_removed_object e p) = old_values p"
  "old_index_next_ids (merge_removed_object e p) = old_index_next_ids p"
  by (auto simp: merge_removed_object_def map_of_filter_key)

lemma merge_removed_object_distinct: "keys_distinct p \<Longrightarrow> keys_distinct (merge_removed_object e p)"
  by (auto simp: merge_removed_object_def keys_distinct_def distinct_removeAll
      intro: distinct_map_filter)

lemma merge_removed_keep [simp]:
  "set (new_ids (fold merge_removed_object xs p)) = set (new_ids p) - fst ` set xs"
  "old_values (fold merge_removed_object xs p) = old_values p"
  "old_index_next_ids (fold merge_removed_object xs p) = old_index_next_ids p"
  by (induction xs arbitrary: p) auto

lemma merge_removed_eq:
  "distinct (map fst xs) \<Longrightarrow> map_of (removed (fold merge_removed_object xs p)) j =
     (case map_of xs j of Some v \<Rightarrow> (if j \<in> set (new_ids p) then map_of (removed p) j else Some v)
      | None \<Rightarrow> map_of (removed p) j)"
proof (induction xs arbitrary: p)
  case (Cons e xs)
  then have "map_of xs (fst e) = None" by (simp add: map_of_eq_None_iff)
  with Cons show ?case by (auto split: option.splits)
qed simp

lemma set_fold_insert: "set (fold List.insert xs ys) = set xs \<union> set ys"
  and distinct_fold_insert: "distinct ys \<Longrightarrow> distinct (fold List.insert xs ys)"
  by (induction xs arbitrary: ys) auto

lemma merge_states_eq:
  assumes "keys_distinct st" "keys_distinct prev"
  shows "map_of (old_values (merge_states st prev)) j =
      (case map_of (old_values prev) j of Some v \<Rightarrow> Some v
       | None \<Rightarrow> if j \<in> set (new_ids prev) then None else map_of (old_values st) j)"
    and "set (new_ids (merge_states st prev)) =
      (set (new_ids st) \<union> set (new_ids prev)) - fst ` set (removed st)"
    and "map_of (old_index_next_ids (merge_states st prev)) k =
      (case map_of (old_index_next_ids prev) k of Some n \<Rightarrow> Some n
       | None \<Rightarrow> map_of (old_index_next_ids st) k)"
    and "map_of (removed (merge_states st prev)) j =
      (case map_of (removed st) j of
         Some v \<Rightarrow> if j \<in> set (new_ids st) \<union> set (new_ids prev) then map_of (removed prev) j else Some v
       | None \<Rightarrow> map_of (removed prev) j)"
    and "keys_distinct (merge_states st prev)"
proof -
  have d: "distinct (map fst (removed st))" using assms(1) by (simp add: keys_distinct_def)
  let ?p1 = "fold merge_old_value (old_values st) prev"
  let ?p2 = "?p1\<lparr>new_ids := fold List.insert (new_ids st) (new_ids ?p1)\<rparr>"
  have k: "keys_distinct ?p2"
    using fold_keys_distinct [of merge_old_value, OF merge_old_value_distinct assms(2)] distinct_fold_insert
    by (auto simp: keys_distinct_def)
  show "map_of (old_values (merge_states st prev)) j =
      (case map_of (old_values prev) j of Some v \<Rightarrow> Some v
       | None \<Rightarrow> if j \<in> set (new_ids prev) then None else map_of (old_values st) j)"
    by (simp add: merge_states_def Let_def merge_removed_eq merge_next_ids_eq merge_old_values_eq)
  show "set (new_ids (merge_states st prev)) =
      (set (new_ids st) \<union> set (new_ids prev)) - fst ` set (removed st)"
    by (simp add: merge_states_def Let_def merge_removed_eq merge_next_ids_eq merge_old_values_eq
        set_fold_insert)
  show "map_of (old_index_next_ids (merge_states st prev)) k =
      (case map_of (old_index_next_ids prev) k of Some n \<Rightarrow> Some n
       | None \<Rightarrow> map_of (old_index_next_ids st) k)"
    by (simp add: merge_states_def Let_def merge_removed_eq merge_next_ids_eq merge_old_values_eq)
  show "map_of (removed (merge_states st prev)) j =
      (case map_of (removed st) j of
         Some v \<Rightarrow> if j \<in> set (new_ids st) \<union> set (new_ids prev) then map_of (removed prev) j else Some v
       | None \<Rightarrow> map_of (removed prev) j)"
    by (simp add: merge_states_def Let_def merge_removed_eq [OF d] set_fold_insert split: option.split)
  show "keys_distinct (merge_states st prev)"
    unfolding merge_states_def Let_def by (intro fold_keys_distinct merge_removed_object_distinct merge_next_id_distinct k)
qed

text \<open>
  The merged state records the outer session's start, unless an object that the outer session
  modified is removed in the inner one: then it stays both in \<open>old_values\<close> and in \<open>removed\<close>.
\<close>

lemma merge_records:
  assumes r0: "records s0 prev s1" and r1: "records s1 st s2"
    and disj: "\<And>oid. map_of (removed st) oid \<noteq> None \<Longrightarrow> map_of (old_values prev) oid = None"
  shows "records s0 (merge_states st prev) s2"
proof -
  from r0 r1 have kd: "keys_distinct st" "keys_distinct prev" by (simp_all add: records_def)
  note m = merge_states_eq [OF kd]
  from r0 have o0: "object_recorded s0 prev s1 oid" and n0: "next_recorded s0 prev s1 k" for oid k
    by (simp_all add: records_def)
  from r1 have o1: "object_recorded s1 st s2 oid" and n1: "next_recorded s1 st s2 k" for oid k
    by (simp_all add: records_def)
  have rem: "j \<in> fst ` set (removed st) \<longleftrightarrow> map_of (removed st) j \<noteq> None" for j
    by (simp add: map_of_eq_None_iff)
  have ok0: "db_ok s0" using r0 by (simp add: records_def)
  have "object_recorded s0 (merge_states st prev) s2 j" for j
  proof -
    have le: "next_id (s0 (fst j)) \<le> next_id (s1 (fst j))"
      using n0 [of "fst j"] by (simp add: next_recorded_def)
    have old: "find_object s0 j \<noteq> None \<Longrightarrow> snd j < next_id (s1 (fst j))"
      using find_object_less [OF ok0, of j] le by simp
    show ?thesis
      using o0 [of j] o1 [of j] disj [of j] le old
      by (auto simp: object_recorded_def m rem split: option.splits if_splits)
  qed
  moreover have "next_recorded s0 (merge_states st prev) s2 k" for k
    using n0 [of k] n1 [of k] by (auto simp: next_recorded_def m split: option.splits)
  ultimately show ?thesis
    using r0 r1 m(5) by (simp add: records_def)
qed

subsection \<open>Sessions\<close>

text \<open>A session is open on \<open>s0\<close> when the back of the stack records the way from \<open>s0\<close>.\<close>

fun session_on :: "'o object_db \<Rightarrow> 'o undo_state list \<Rightarrow> 'o undo_database \<times> 'o object_db \<Rightarrow> bool" where
  "session_on s0 rest (u, s) \<longleftrightarrow> \<not> disabled u \<and> active_sessions u > 0 \<and>
     (\<exists>st. stack u = st # rest \<and> records s0 st s)"

definition kept_stack :: "'o undo_database \<Rightarrow> 'o undo_state list" where
  "kept_stack u = (if length (stack u) = max_size u then butlast (stack u) else stack u)"

lemma session_on_start:
  assumes "\<not> disabled u" "db_ok s"
  shows "session_on s (kept_stack u) (start_undo_session u, s)"
  using assms by (simp add: start_undo_session_def kept_stack_def records_empty)

lemma session_on_step:
  assumes "session_on s0 rest us" "step_op op us = Some us'"
  shows "session_on s0 rest us'"
proof -
  obtain u s where us: "us = (u, s)" by (rule prod.exhaust)
  from assms(1) obtain st where st: "stack u = st # rest" "records s0 st s" "\<not> disabled u"
    "active_sessions u > 0" by (auto simp: us)
  show ?thesis
  proof (cases op)
    case (Create k x)
    with assms(2) us obtain i t where "gi_create x (s k) = Some (i, t)"
      "us' = (on_create (k, i) u, s(k := t))" by auto
    then show ?thesis
      using st record_create_records [OF st(2)] by (simp add: on_create_def on_back_def)
  next
    case (Modify oid f)
    with assms(2) us obtain x s' where "find_object s oid = Some x" "db_modify oid f s = Some s'"
      "us' = (on_modify oid x u, s')" by auto
    then show ?thesis
      using st record_modify_records [OF st(2)] by (simp add: on_modify_def on_back_def)
  next
    case (Remove oid)
    with assms(2) us obtain x s' where "find_object s oid = Some x" "db_remove oid s = Some s'"
      "us' = (on_remove oid x u, s')" by auto
    then show ?thesis
      using st record_remove_records [OF st(2)] by (simp add: on_remove_def on_back_def)
  qed
qed

lemma session_on_run:
  assumes "session_on s0 rest us" "fold_opt step_op ops us = Some us'"
  shows "session_on s0 rest us'"
  using assms(2,1) by (rule fold_opt_invariant) (rule session_on_step)

lemma session_on_undo:
  assumes "session_on s0 rest (u, s)"
  shows "\<exists>u' s'. undo u s = Some (u', s') \<and> same_db s' s0 \<and>
    stack u' = (if rest = [] then [empty_undo] else rest) \<and>
    active_sessions u' = active_sessions u - 1"
  using assms restore_state_records by (fastforce simp: undo_def)

lemma on_back_keep [simp]:
  "active_sessions (on_back f u) = active_sessions u"
  "max_size (on_back f u) = max_size u"
  "disabled (on_back f u) = disabled u"
  by (simp_all add: on_back_def split: list.split)

definition depth :: "'o undo_database \<times> 'o object_db \<Rightarrow> nat \<times> nat \<times> bool" where
  "depth us = (active_sessions (fst us), max_size (fst us), disabled (fst us))"

lemma depth_step: "step_op op us = Some us' \<Longrightarrow> depth us' = depth us"
  by (cases us; cases op) (auto simp: depth_def on_create_def on_modify_def on_remove_def)

lemma session_on_depth:
  assumes "fold_opt step_op ops (u, s) = Some (u', s')"
  shows "active_sessions u' = active_sessions u \<and> max_size u' = max_size u \<and> disabled u' = disabled u"
proof -
  have "depth (u', s') = depth (u, s)"
    by (rule fold_opt_invariant [OF assms, where P = "\<lambda>us. depth us = depth (u, s)"])
      (simp_all add: depth_step)
  then show ?thesis by (simp add: depth_def)
qed

text \<open>Only the objects a session modified are in its old values, only those it removed in its removed.\<close>

definition touched_by :: "'o db_op list \<Rightarrow> 'o undo_state \<Rightarrow> bool" where
  "touched_by ops st \<longleftrightarrow>
     (\<forall>oid. map_of (old_values st) oid \<noteq> None \<longrightarrow> (\<exists>f. Modify oid f \<in> set ops)) \<and>
     (\<forall>oid. map_of (removed st) oid \<noteq> None \<longrightarrow> Remove oid \<in> set ops)"

lemma touched_by_empty [simp]: "touched_by ops empty_undo"
  by (simp add: touched_by_def empty_undo_def)

lemma touched_by_record:
  assumes "touched_by ops st"
  shows "touched_by ops (record_create i st)"
    and "Modify oid f \<in> set ops \<Longrightarrow> touched_by ops (record_modify oid x st)"
    and "Remove oid \<in> set ops \<Longrightarrow> touched_by ops (record_remove oid x st)"
  using assms
  by (auto simp: touched_by_def record_create_def record_modify_def record_remove_def Let_def
      map_of_filter_key split: option.splits if_splits)

fun back_touched :: "'o db_op list \<Rightarrow> 'o undo_database \<times> 'o object_db \<Rightarrow> bool" where
  "back_touched ops (u, s) \<longleftrightarrow> \<not> disabled u \<and> (\<exists>st rest. stack u = st # rest \<and> touched_by ops st)"

lemma back_touched_step:
  assumes "op \<in> set ops" "back_touched ops us" "step_op op us = Some us'"
  shows "back_touched ops us'"
proof -
  obtain u s where us: "us = (u, s)" by (rule prod.exhaust)
  from assms(2) obtain st rest where st: "\<not> disabled u" "stack u = st # rest" "touched_by ops st"
    by (auto simp: us)
  show ?thesis
  proof (cases op)
    case (Create k x)
    with assms(3) us obtain i t where "us' = (on_create (k, i) u, s(k := t))" by auto
    then show ?thesis using st touched_by_record(1) [OF st(3)] by (simp add: on_create_def on_back_def)
  next
    case (Modify oid f)
    with assms(3) us obtain x s' where "us' = (on_modify oid x u, s')" by auto
    then show ?thesis
      using st touched_by_record(2) [OF st(3), of oid f] assms(1) Modify
      by (simp add: on_modify_def on_back_def)
  next
    case (Remove oid)
    with assms(3) us obtain x s' where "us' = (on_remove oid x u, s')" by auto
    then show ?thesis
      using st touched_by_record(3) [OF st(3), of oid] assms(1) Remove
      by (simp add: on_remove_def on_back_def)
  qed
qed

lemma back_touched_run:
  assumes "\<not> disabled u" "fold_opt step_op ops (start_undo_session u, s) = Some us'"
  shows "back_touched ops us'"
  using assms(2)
proof (rule fold_opt_invariant)
  show "back_touched ops (start_undo_session u, s)"
    using assms(1) by (simp add: start_undo_session_def)
qed (rule back_touched_step)

lemma session_on_merge:
  assumes outer: "session_on s0 rest (u1, s1)" and room: "length (stack u1) < max_size u1"
    and run: "fold_opt step_op ops (start_undo_session u1, s1) = Some (u2, s2)"
    and disj: "\<And>oid. Remove oid \<in> set ops \<Longrightarrow> map_of (old_values (hd (stack u1))) oid = None"
  shows "\<exists>u3. merge u2 = Some u3 \<and> session_on s0 rest (u3, s2)"
proof -
  from outer obtain prev where prev: "stack u1 = prev # rest" "records s0 prev s1"
    "\<not> disabled u1" "active_sessions u1 > 0" by auto
  have ok: "db_ok s1" using prev(2) by (simp add: records_def)
  have "session_on s1 (kept_stack u1) (u2, s2)"
    using session_on_run [OF session_on_start [OF prev(3) ok] run] .
  then obtain st where st: "stack u2 = st # prev # rest" "records s1 st s2" "\<not> disabled u2"
    "active_sessions u2 > 0"
    using room prev by (auto simp: kept_stack_def)
  have a: "active_sessions u2 = Suc (active_sessions u1)"
    using session_on_depth [OF run] prev(3) by (simp add: start_undo_session_def)
  have "touched_by ops st" using back_touched_run [OF prev(3) run] st by simp
  then have "map_of (removed st) oid \<noteq> None \<Longrightarrow> map_of (old_values prev) oid = None" for oid
    using disj [of oid] prev(1) by (simp add: touched_by_def)
  from merge_records [OF prev(2) st(2) this] show ?thesis
    using st a prev(4) by (simp add: merge_def)
qed

subsection \<open>Properties\<close>

text \<open>
  C1. Undoing a session puts the database back: whatever creations, modifications and removals are
  made after \<open>start_undo_session\<close>, \<open>undo\<close> succeeds, every object and every next id is what it was,
  and the undo stack is the one the session was started on (an empty state is pushed when nothing is
  left).
\<close>

theorem session_undo_restores:
  assumes "\<not> disabled u" "db_ok s" "fold_opt step_op ops (start_undo_session u, s) = Some (u1, s1)"
  shows "\<exists>u2 s2. undo u1 s1 = Some (u2, s2) \<and> same_db s2 s \<and>
    stack u2 = (if kept_stack u = [] then [empty_undo] else kept_stack u) \<and>
    active_sessions u2 = active_sessions u"
proof -
  have "session_on s (kept_stack u) (u1, s1)"
    using session_on_run [OF session_on_start [OF assms(1,2)] assms(3)] .
  from session_on_undo [OF this] show ?thesis
    using session_on_depth [OF assms(3)] assms(1) by (simp add: start_undo_session_def)
qed

text \<open>
  Nested sessions compose: run some operations in a session, some more in an inner session, and
  merge the inner one. A single undo then restores the database the outer session started on,
  provided that the inner session removes no object which the outer one had modified.
\<close>

theorem merged_session_undo_restores:
  assumes "\<not> disabled u" "db_ok s" "Suc (length (kept_stack u)) < max_size u"
    and "fold_opt step_op ops (start_undo_session u, s) = Some (u1, s1)"
    and "fold_opt step_op ops' (start_undo_session u1, s1) = Some (u2, s2)"
    and "\<And>oid f. Remove oid \<in> set ops' \<Longrightarrow> Modify oid f \<notin> set ops"
  shows "\<exists>u3 u4 s4. merge u2 = Some u3 \<and> undo u3 s2 = Some (u4, s4) \<and> same_db s4 s"
proof -
  have on: "session_on s (kept_stack u) (u1, s1)"
    using session_on_run [OF session_on_start [OF assms(1,2)] assms(4)] .
  then have room: "length (stack u1) < max_size u1"
    using session_on_depth [OF assms(4)] assms(1,3) by (auto simp: start_undo_session_def)
  have "touched_by ops (hd (stack u1))" using back_touched_run [OF assms(1,4)] by auto
  then have "Remove oid \<in> set ops' \<Longrightarrow> map_of (old_values (hd (stack u1))) oid = None" for oid
    using assms(6) [of oid] unfolding touched_by_def by blast
  from session_on_merge [OF on room assms(5) this]
  obtain u3 where "merge u2 = Some u3" "session_on s (kept_stack u) (u3, s2)" by blast
  with session_on_undo [of s "kept_stack u" u3 s2] show ?thesis by blast
qed

text \<open>
  The proviso is needed: modify an object in a session, remove it in an inner session and merge;
  the merged state lists the object both in \<open>old_values\<close> and in \<open>removed\<close>, and the undo throws.
\<close>

theorem merge_of_modify_and_remove_cannot_undo:
  assumes "\<not> disabled u" "db_ok s" "Suc (length (kept_stack u)) < max_size u"
    and "find_object s oid = Some x"
  shows "\<exists>u1 s1 u2 s2 u3. step_op (Modify oid f) (start_undo_session u, s) = Some (u1, s1) \<and>
    step_op (Remove oid) (start_undo_session u1, s1) = Some (u2, s2) \<and>
    merge u2 = Some u3 \<and> undo u3 s2 = None"
proof -
  define st where "st = (record_modify oid x empty_undo :: 'a undo_state)"
  define u1 where "u1 = on_modify oid x (start_undo_session u)"
  define s1 where "s1 = s(fst oid := gi_modify (snd oid) f (s (fst oid)))"
  define u2 where "u2 = on_remove oid (f x) (start_undo_session u1)"
  define s2 where "s2 = s1(fst oid := gi_remove (snd oid) (s1 (fst oid)))"
  have m: "db_modify oid f s = Some s1" using assms(4) by (simp add: db_modify_Some s1_def)
  have f1: "find_object s1 oid = Some (f x)" using find_db_modify(1) [OF m, of oid] assms(4) by simp
  then have r: "db_remove oid s1 = Some s2" by (simp add: db_remove_Some s2_def)
  have gone: "find_object s2 oid = None" using find_db_remove(1) [OF r, of oid] by simp
  have stk1: "stack u1 = st # kept_stack u" "\<not> disabled u1" "max_size u1 = max_size u"
    using assms(1) by (simp_all add: u1_def on_modify_def on_back_def start_undo_session_def
        kept_stack_def st_def)
  then have u2: "stack u2 = record_remove oid (f x) empty_undo # st # kept_stack u"
    "\<not> disabled u2" "active_sessions u2 > 0"
    using assms(3) by (simp_all add: u2_def on_remove_def on_back_def start_undo_session_def)
  then obtain u3 rest where u3: "merge u2 = Some u3"
    "stack u3 = merge_states (record_remove oid (f x) empty_undo) st # rest"
    by (simp add: merge_def)
  have old: "old_values (merge_states (record_remove oid (f x) empty_undo) st) = [(oid, x)]"
    by (simp add: merge_states_def st_def record_modify_def record_remove_def empty_undo_def)
  have "restore_state (merge_states (record_remove oid (f x) empty_undo) st) s2 = None"
    using gone by (simp add: restore_state_def old db_modify_def)
  then have "undo u3 s2 = None" using u3 by (auto simp: undo_def)
  moreover have "step_op (Modify oid f) (start_undo_session u, s) = Some (u1, s1)"
    using m assms(4) by (simp add: u1_def)
  moreover have "step_op (Remove oid) (start_undo_session u1, s1) = Some (u2, s2)"
    using r f1 by (simp add: u2_def)
  ultimately show ?thesis using u3(1) by blast
qed

subsection \<open>The properties at concrete inputs\<close>

definition sample_db :: "nat object_db" where
  "sample_db = (\<lambda>_. \<lparr>next_id = 2, entries = [(0, 10), (1, 11)]\<rparr>)"

definition sample_undo :: "nat undo_database" where
  "sample_undo = \<lparr>active_sessions = 0, disabled = False, stack = [], max_size = 256\<rparr>"

definition sample_ops :: "nat db_op list" where
  "sample_ops = [Create (1, 3) 12, Modify ((1, 3), 0) Suc, Remove ((1, 3), 1), Remove ((1, 3), 2)]"

definition sample_inner :: "nat db_op list" where
  "sample_inner = [Modify ((1, 3), 0) Suc, Create (1, 2) 12, Remove ((1, 2), 0)]"

lemma sample_db_ok: "db_ok sample_db"
  by (simp add: db_ok_def sample_db_def gi_invar_def)

lemmas eval_defs = sample_undo_def sample_db_def start_undo_session_def find_object_def gi_find_def
  gi_create_def gi_insert_def db_modify_def db_remove_def gi_modify_def gi_remove_def
  on_create_def on_modify_def on_remove_def on_back_def empty_undo_def Let_def

lemma sample_run: "\<exists>r. fold_opt step_op sample_ops (start_undo_session sample_undo, sample_db) = Some r"
  by (simp add: sample_ops_def eval_defs)

lemma sample_inner_run:
  assumes "fold_opt step_op sample_ops (start_undo_session sample_undo, sample_db) = Some (u, s)"
  shows "\<exists>r. fold_opt step_op sample_inner (start_undo_session u, s) = Some r"
  using assms by (auto simp: sample_ops_def sample_inner_def eval_defs)

lemma session_undo_restores_witness:
  "\<exists>u1 s1 u2 s2. fold_opt step_op sample_ops (start_undo_session sample_undo, sample_db) = Some (u1, s1) \<and>
     undo u1 s1 = Some (u2, s2) \<and> same_db s2 sample_db"
proof -
  obtain u1 s1 where run: "fold_opt step_op sample_ops (start_undo_session sample_undo, sample_db) = Some (u1, s1)"
    using sample_run by auto
  have "\<not> disabled sample_undo" by (simp add: sample_undo_def)
  from session_undo_restores [OF this sample_db_ok run] run show ?thesis by blast
qed

lemma merged_session_undo_restores_witness:
  "\<exists>u1 s1 u2 s2 u3 u4 s4.
     fold_opt step_op sample_ops (start_undo_session sample_undo, sample_db) = Some (u1, s1) \<and>
     fold_opt step_op sample_inner (start_undo_session u1, s1) = Some (u2, s2) \<and>
     merge u2 = Some u3 \<and> undo u3 s2 = Some (u4, s4) \<and> same_db s4 sample_db"
proof -
  obtain u1 s1 where run: "fold_opt step_op sample_ops (start_undo_session sample_undo, sample_db) = Some (u1, s1)"
    using sample_run by auto
  obtain u2 s2 where inner: "fold_opt step_op sample_inner (start_undo_session u1, s1) = Some (u2, s2)"
    using sample_inner_run [OF run] by auto
  have "\<not> disabled sample_undo" "Suc (length (kept_stack sample_undo)) < max_size sample_undo"
    by (simp_all add: sample_undo_def kept_stack_def)
  moreover have "Remove oid \<in> set sample_inner \<Longrightarrow> Modify oid f \<notin> set sample_ops" for oid f
    by (auto simp: sample_inner_def sample_ops_def)
  ultimately show ?thesis
    using merged_session_undo_restores [OF _ sample_db_ok _ run inner] run inner by blast
qed

lemma merge_of_modify_and_remove_cannot_undo_witness:
  "\<exists>u1 s1 u2 s2 u3. step_op (Modify ((1, 3), 0) Suc) (start_undo_session sample_undo, sample_db) = Some (u1, s1) \<and>
    step_op (Remove ((1, 3), 0)) (start_undo_session u1, s1) = Some (u2, s2) \<and>
    merge u2 = Some u3 \<and> undo u3 s2 = None"
proof (rule merge_of_modify_and_remove_cannot_undo)
  show "\<not> disabled sample_undo" "Suc (length (kept_stack sample_undo)) < max_size sample_undo"
    by (simp_all add: sample_undo_def kept_stack_def)
  show "db_ok sample_db" by (rule sample_db_ok)
  show "find_object sample_db ((1, 3), 0) = Some 10" by (simp add: sample_db_def find_object_def gi_find_def)
qed

end
