(* ===== verification/Op_Rules.thy ===== *)
theory Op_Rules
  imports Operations
begin

section \<open>Fees, authorities and validation of operations\<close>

text \<open>
  Models the member functions of the operation structs of \<^verbatim>\<open>operations.hpp\<close> and
  \<^verbatim>\<open>operations.cpp\<close>: \<open>fee_payer\<close>, \<open>get_required_auth\<close>, \<open>validate\<close> and \<open>calculate_fee\<close>, each as
  one function by cases on the operation.
\<close>

subsection \<open>Who pays, and what\<close>

fun fee_payer :: "operation \<Rightarrow> account_id_type" where
  "fee_payer (Transfer_Op o') = tr_from o'"
| "fee_payer (Limit_Order_Create_Op o') = lo_seller o'"
| "fee_payer (Short_Order_Create_Op o') = so_seller o'"
| "fee_payer (Limit_Order_Cancel_Op o') = lc_fee_paying_account o'"
| "fee_payer (Short_Order_Cancel_Op o') = sc_fee_paying_account o'"
| "fee_payer (Call_Order_Update_Op o') = cu_funding_account o'"
| "fee_payer (Key_Create_Op o') = kc_fee_paying_account o'"
| "fee_payer (Account_Create_Op o') = ac_registrar o'"
| "fee_payer (Account_Update_Op o') = au_account o'"
| "fee_payer (Account_Whitelist_Op o') = aw_authorizing_account o'"
| "fee_payer (Account_Transfer_Op o') = at_account_id o'"
| "fee_payer (Asset_Create_Op o') = cr_issuer o'"
| "fee_payer (Asset_Update_Op o') = up_issuer o'"
| "fee_payer (Asset_Update_Bitasset_Op o') = ub_issuer o'"
| "fee_payer (Asset_Update_Feed_Producers_Op o') = uf_issuer o'"
| "fee_payer (Asset_Issue_Op o') = ai_issuer o'"
| "fee_payer (Asset_Burn_Op o') = ab_payer o'"
| "fee_payer (Asset_Fund_Fee_Pool_Op o') = ff_from_account o'"
| "fee_payer (Asset_Settle_Op o') = as_account o'"
| "fee_payer (Asset_Global_Settle_Op o') = gs_issuer o'"
| "fee_payer (Asset_Publish_Feed_Op o') = pf_publisher o'"
| "fee_payer (Delegate_Create_Op o') = dc_delegate_account o'"
| "fee_payer (Witness_Create_Op o') = wc_witness_account o'"
| "fee_payer (Witness_Withdraw_Pay_Op o') = ww_to_account o'"
| "fee_payer (Proposal_Create_Op o') = pc_fee_paying_account o'"
| "fee_payer (Proposal_Update_Op o') = pu_fee_paying_account o'"
| "fee_payer (Proposal_Delete_Op o') = pd_fee_paying_account o'"
| "fee_payer (Withdraw_Permission_Create_Op o') = wpc_withdraw_from_account o'"
| "fee_payer (Withdraw_Permission_Update_Op o') = wpu_withdraw_from_account o'"
| "fee_payer (Withdraw_Permission_Claim_Op o') = wpk_withdraw_to_account o'"
| "fee_payer (Withdraw_Permission_Delete_Op o') = wpd_withdraw_from_account o'"
| "fee_payer (Fill_Order_Op o') = fo_account_id o'"
| "fee_payer (Global_Parameters_Update_Op o') = 0"
| "fee_payer (File_Write_Op o') = fw_payer o'"
| "fee_payer (Vesting_Balance_Create_Op o') = vc_creator o'"
| "fee_payer (Vesting_Balance_Withdraw_Op o') = vw_owner o'"
| "fee_payer (Bond_Create_Offer_Op o') = bc_creator o'"
| "fee_payer (Bond_Cancel_Offer_Op o') = bx_creator o'"
| "fee_payer (Bond_Accept_Offer_Op o') = ba_claimer o'"
| "fee_payer (Bond_Claim_Collateral_Op o') = bl_claimer o'"
| "fee_payer (Worker_Create_Op o') = wk_owner o'"
| "fee_payer (Custom_Op o') = cu_payer o'"

fun op_fee :: "operation \<Rightarrow> asset" where
  "op_fee (Transfer_Op o') = tr_fee o'"
| "op_fee (Limit_Order_Create_Op o') = lo_fee o'"
| "op_fee (Short_Order_Create_Op o') = so_fee o'"
| "op_fee (Limit_Order_Cancel_Op o') = lc_fee o'"
| "op_fee (Short_Order_Cancel_Op o') = sc_fee o'"
| "op_fee (Call_Order_Update_Op o') = cu_fee o'"
| "op_fee (Key_Create_Op o') = kc_fee o'"
| "op_fee (Account_Create_Op o') = ac_fee o'"
| "op_fee (Account_Update_Op o') = au_fee o'"
| "op_fee (Account_Whitelist_Op o') = aw_fee o'"
| "op_fee (Account_Transfer_Op o') = at_fee o'"
| "op_fee (Asset_Create_Op o') = cr_fee o'"
| "op_fee (Asset_Update_Op o') = up_fee o'"
| "op_fee (Asset_Update_Bitasset_Op o') = ub_fee o'"
| "op_fee (Asset_Update_Feed_Producers_Op o') = uf_fee o'"
| "op_fee (Asset_Issue_Op o') = ai_fee o'"
| "op_fee (Asset_Burn_Op o') = ab_fee o'"
| "op_fee (Asset_Fund_Fee_Pool_Op o') = ff_fee o'"
| "op_fee (Asset_Settle_Op o') = as_fee o'"
| "op_fee (Asset_Global_Settle_Op o') = gs_fee o'"
| "op_fee (Asset_Publish_Feed_Op o') = pf_fee o'"
| "op_fee (Delegate_Create_Op o') = dc_fee o'"
| "op_fee (Witness_Create_Op o') = wc_fee o'"
| "op_fee (Witness_Withdraw_Pay_Op o') = ww_fee o'"
| "op_fee (Proposal_Create_Op o') = pc_fee o'"
| "op_fee (Proposal_Update_Op o') = pu_fee o'"
| "op_fee (Proposal_Delete_Op o') = pd_fee o'"
| "op_fee (Withdraw_Permission_Create_Op o') = wpc_fee o'"
| "op_fee (Withdraw_Permission_Update_Op o') = wpu_fee o'"
| "op_fee (Withdraw_Permission_Claim_Op o') = wpk_fee o'"
| "op_fee (Withdraw_Permission_Delete_Op o') = wpd_fee o'"
| "op_fee (Fill_Order_Op o') = fo_fee o'"
| "op_fee (Global_Parameters_Update_Op o') = gp_fee o'"
| "op_fee (File_Write_Op o') = fw_fee o'"
| "op_fee (Vesting_Balance_Create_Op o') = vc_fee o'"
| "op_fee (Vesting_Balance_Withdraw_Op o') = vw_fee o'"
| "op_fee (Bond_Create_Offer_Op o') = bc_fee o'"
| "op_fee (Bond_Cancel_Offer_Op o') = bx_fee o'"
| "op_fee (Bond_Accept_Offer_Op o') = ba_fee o'"
| "op_fee (Bond_Claim_Collateral_Op o') = bl_fee o'"
| "op_fee (Worker_Create_Op o') = wk_fee o'"
| "op_fee (Custom_Op o') = cu_op_fee o'"

subsection \<open>Required authorities\<close>

text \<open>The active and the owner authorities an operation adds to the two sets.\<close>

fun get_required_auth ::
  "operation \<Rightarrow> account_id_type list \<times> account_id_type list \<Rightarrow> account_id_type list \<times> account_id_type list"
where
  "get_required_auth (Account_Update_Op o') (act, own) =
     (if au_owner o' \<noteq> None \<or> au_active o' \<noteq> None then (act, fs_insert (au_account o') own)
      else (fs_insert (au_account o') act, own))"
| "get_required_auth (Proposal_Update_Op o') (act, own) =
     (fold fs_insert (pu_active_approvals_to_add o' @ pu_active_approvals_to_remove o')
        (fs_insert (pu_fee_paying_account o') act),
      fold fs_insert (pu_owner_approvals_to_add o' @ pu_owner_approvals_to_remove o') own)"
| "get_required_auth (Proposal_Delete_Op o') (act, own) =
     (if pd_using_owner_authority o' then (act, fs_insert (pd_fee_paying_account o') own)
      else (fs_insert (pd_fee_paying_account o') act, own))"
| "get_required_auth (Custom_Op o') (act, own) = (fold fs_insert (cu_required_auths o') act, own)"
| "get_required_auth op (act, own) = (fs_insert (fee_payer op) act, own)"

subsection \<open>Fees\<close>

text \<open>A surcharge per kilobyte of user data, in unsigned 64 bit arithmetic.\<close>

definition data_surcharge :: "nat \<Rightarrow> fee_schedule_type \<Rightarrow> int option" where
  "data_surcharge n k = do {
     d \<leftarrow> fee_of k data_fee_type;
     Some (int64 (uint64 (int n * d) div 1024)) }"

definition memo_fee :: "memo_data option \<Rightarrow> fee_schedule_type \<Rightarrow> share_type option" where
  "memo_fee memo schedule = do {
     bts_fee_required \<leftarrow> fee_of schedule transfer_fee_type;
     case memo of
       None \<Rightarrow> Some bts_fee_required
     | Some m \<Rightarrow> do {
         d \<leftarrow> data_surcharge (length (memo_message m)) schedule;
         share (bts_fee_required + d) } }"

definition account_create_calculate_fee :: "account_create_operation \<Rightarrow> fee_schedule_type \<Rightarrow> share_type option"
where
  "account_create_calculate_fee o' schedule = do {
     bts_fee_required \<leftarrow> fee_of schedule account_create_fee_type;
     let s = (if is_cheap_name (ac_name o') then 63 else length (ac_name o'));
     fc_assert (s \<ge> 2);
     if s \<le> 8 then fee_at schedule (fee_index account_create_fee_type + 9 - s)
     else Some bts_fee_required }"

function short_symbol_fee :: "share_type \<Rightarrow> nat \<Rightarrow> share_type option" where
  "short_symbol_fee fee s =
     (if s \<le> 6 then do { f \<leftarrow> share (fee * 30); short_symbol_fee f (Suc s) } else Some fee)"
  by pat_completeness auto

termination by (relation "measure (\<lambda>(_, s). 7 - s)") auto

definition asset_create_calculate_fee :: "asset_create_operation \<Rightarrow> fee_schedule_type \<Rightarrow> share_type option"
where
  "asset_create_calculate_fee o' schedule = do {
     bts_fee_required \<leftarrow> fee_of schedule asset_create_fee_type;
     short_symbol_fee bts_fee_required (length (cr_symbol o')) }"

definition file_write_calculate_fee :: "file_write_operation \<Rightarrow> fee_schedule_type \<Rightarrow> share_type option" where
  "file_write_calculate_fee o' k = do {
     day \<leftarrow> fee_of k file_storage_fee_per_day_type;
     d \<leftarrow> fee_of k data_fee_type;
     let lease = cdiv (int64 (cdiv (int64 (day * fw_lease_seconds o')) (60 * 60 * 24) * fw_file_size o')) 255;
     Some (int64 (uint64 (lease + uint64 (int (length (fw_data o')) * d) div 1024))) }"

fun calculate_fee :: "operation \<Rightarrow> fee_schedule_type \<Rightarrow> share_type option" where
  "calculate_fee (Transfer_Op o') k = memo_fee (tr_memo o') k"
| "calculate_fee (Limit_Order_Create_Op o') k = fee_of k limit_order_fee_type"
| "calculate_fee (Short_Order_Create_Op o') k = fee_of k short_order_fee_type"
| "calculate_fee (Limit_Order_Cancel_Op o') k = fee_of k limit_order_fee_type"
| "calculate_fee (Short_Order_Cancel_Op o') k = fee_of k short_order_fee_type"
| "calculate_fee (Call_Order_Update_Op o') k = fee_of k short_order_fee_type"
| "calculate_fee (Key_Create_Op o') k = fee_of k key_create_fee_type"
| "calculate_fee (Account_Create_Op o') k = account_create_calculate_fee o' k"
| "calculate_fee (Account_Update_Op o') k =
     (if au_upgrade_to_prime o' then fee_of k prime_upgrade_fee_type else fee_of k account_create_fee_type)"
| "calculate_fee (Account_Whitelist_Op o') k = fee_of k account_whitelist_fee_type"
| "calculate_fee (Account_Transfer_Op o') k = fee_of k transfer_fee_type"
| "calculate_fee (Asset_Create_Op o') k = asset_create_calculate_fee o' k"
| "calculate_fee (Asset_Update_Op o') k = fee_of k asset_update_fee_type"
| "calculate_fee (Asset_Update_Bitasset_Op o') k = fee_of k asset_update_fee_type"
| "calculate_fee (Asset_Update_Feed_Producers_Op o') k = fee_of k asset_update_fee_type"
| "calculate_fee (Asset_Issue_Op o') k = fee_of k asset_issue_fee_type"
| "calculate_fee (Asset_Burn_Op o') k = fee_of k asset_issue_fee_type"
| "calculate_fee (Asset_Fund_Fee_Pool_Op o') k = fee_of k asset_fund_fee_pool_fee_type"
| "calculate_fee (Asset_Settle_Op o') k = fee_of k asset_settle_fee_type"
| "calculate_fee (Asset_Global_Settle_Op o') k = fee_of k global_settle_fee_type"
| "calculate_fee (Asset_Publish_Feed_Op o') k = fee_of k publish_feed_fee_type"
| "calculate_fee (Delegate_Create_Op o') k = fee_of k delegate_create_fee_type"
| "calculate_fee (Witness_Create_Op o') k = fee_of k delegate_create_fee_type"
| "calculate_fee (Witness_Withdraw_Pay_Op o') k = fee_of k witness_withdraw_pay_fee_type"
| "calculate_fee (Proposal_Create_Op o') k = Some 0"
| "calculate_fee (Proposal_Update_Op o') k = Some 0"
| "calculate_fee (Proposal_Delete_Op o') k = Some 0"
| "calculate_fee (Withdraw_Permission_Create_Op o') k = fee_of k withdraw_permission_update_fee_type"
| "calculate_fee (Withdraw_Permission_Update_Op o') k = fee_of k withdraw_permission_update_fee_type"
| "calculate_fee (Withdraw_Permission_Claim_Op o') k = memo_fee (wpk_memo o') k"
| "calculate_fee (Withdraw_Permission_Delete_Op o') k = fee_of k withdraw_permission_update_fee_type"
| "calculate_fee (Fill_Order_Op o') k = Some 0"
| "calculate_fee (Global_Parameters_Update_Op o') k = fee_of k global_parameters_update_fee_type"
| "calculate_fee (File_Write_Op o') k = file_write_calculate_fee o' k"
| "calculate_fee (Vesting_Balance_Create_Op o') k = fee_of k vesting_balance_create_fee_type"
| "calculate_fee (Vesting_Balance_Withdraw_Op o') k = fee_of k vesting_balance_withdraw_fee_type"
| "calculate_fee (Bond_Create_Offer_Op o') k = fee_of k create_bond_offer_fee_type"
| "calculate_fee (Bond_Cancel_Offer_Op o') k = fee_of k cancel_bond_offer_fee_type"
| "calculate_fee (Bond_Accept_Offer_Op o') k = fee_of k accept_bond_offer_fee_type"
| "calculate_fee (Bond_Claim_Collateral_Op o') k = fee_of k claim_bond_collateral_fee_type"
| "calculate_fee (Worker_Create_Op o') k = fee_of k worker_create_fee_type"
| "calculate_fee (Custom_Op o') k = data_surcharge (length (cu_data o')) k"

subsection \<open>Validation\<close>

definition account_create_validate :: "account_create_operation \<Rightarrow> bool" where
  "account_create_validate o' \<longleftrightarrow>
     amount (ac_fee o') \<ge> 0 \<and>
     is_valid_name (ac_name o') \<and>
     ac_referrer_percent o' \<ge> 0 \<and>
     ac_referrer_percent o' \<le> 100 \<and>
     auths (ac_owner o') \<noteq> [] \<and>
     (CHR ''/'' \<in> set (ac_name o') \<longrightarrow>
        weight_threshold (ac_owner o') = 1 \<and> length (auths (ac_owner o')) = 1) \<and>
     ac_num_witness o' + ac_num_committee o' \<ge> ac_num_witness o' \<and>
     ac_num_witness o' + ac_num_committee o' \<le> int (length (ac_vote o'))"

definition asset_create_validate :: "asset_create_operation \<Rightarrow> bool" where
  "asset_create_validate o' \<longleftrightarrow>
     amount (cr_fee o') \<ge> 0 \<and>
     is_valid_symbol (cr_symbol o') \<and>
     options_validate (cr_common_options o') \<and>
     (has_flag (flags (cr_common_options o')) (disable_force_settle OR global_settle) \<longrightarrow>
        has_flag (flags (cr_common_options o')) market_issued) \<and>
     (cr_bitasset_options o' \<noteq> None) = has_flag (flags (cr_common_options o')) market_issued \<and>
     (case cr_bitasset_options o' of None \<Rightarrow> True | Some b \<Rightarrow> bitasset_options_validate b) \<and>
     (case asset_mult (mk_asset 1 0) (core_exchange_rate (cr_common_options o')) of
        None \<Rightarrow> False | Some dummy \<Rightarrow> asset_id dummy = 1) \<and>
     cr_precision o' \<le> 12"

definition asset_update_validate :: "asset_update_operation \<Rightarrow> bool" where
  "asset_update_validate o' \<longleftrightarrow>
     amount (up_fee o') \<ge> 0 \<and>
     (case up_new_issuer o' of None \<Rightarrow> True | Some i \<Rightarrow> up_issuer o' \<noteq> i) \<and>
     options_validate (up_new_options o') \<and>
     (case asset_mult (mk_asset 1 (up_asset_to_update o')) (core_exchange_rate (up_new_options o')) of
        None \<Rightarrow> False | Some dummy \<Rightarrow> asset_id dummy = 0)"

definition call_order_update_validate :: "call_order_update_operation \<Rightarrow> bool" where
  "call_order_update_validate o' \<longleftrightarrow>
     amount (cu_fee o') \<ge> 0 \<and>
     (amount (cu_collateral_to_add o') > 0 \<or> amount (cu_amount_to_cover o') > 0 \<or>
        cu_maintenance_collateral_ratio o' > 0) \<and>
     (amount (cu_amount_to_cover o') = 0 \<longrightarrow> amount (cu_collateral_to_add o') \<ge> 0) \<and>
     (amount (cu_collateral_to_add o') \<le> 0 \<longrightarrow> amount (cu_amount_to_cover o') > 0) \<and>
     amount (cu_amount_to_cover o') \<ge> 0 \<and>
     asset_id (cu_amount_to_cover o') \<noteq> asset_id (cu_collateral_to_add o') \<and>
     (cu_maintenance_collateral_ratio o' = 0 \<or> cu_maintenance_collateral_ratio o' \<ge> 1000)"

definition proposal_update_validate :: "proposal_update_operation \<Rightarrow> bool" where
  "proposal_update_validate o' \<longleftrightarrow>
     amount (pu_fee o') \<ge> 0 \<and>
     \<not> (pu_active_approvals_to_add o' = [] \<and> pu_active_approvals_to_remove o' = [] \<and>
        pu_owner_approvals_to_add o' = [] \<and> pu_owner_approvals_to_remove o' = [] \<and>
        pu_key_approvals_to_add o' = [] \<and> pu_key_approvals_to_remove o' = []) \<and>
     (\<forall>a \<in> set (pu_active_approvals_to_add o'). a \<notin> set (pu_active_approvals_to_remove o')) \<and>
     (\<forall>a \<in> set (pu_owner_approvals_to_add o'). a \<notin> set (pu_owner_approvals_to_remove o')) \<and>
     (\<forall>a \<in> set (pu_key_approvals_to_add o'). a \<notin> set (pu_key_approvals_to_remove o'))"

definition bond_create_offer_validate :: "bond_create_offer_operation \<Rightarrow> bool" where
  "bond_create_offer_validate o' \<longleftrightarrow>
     amount (bc_fee o') \<ge> 0 \<and>
     amount (bc_amount o') > 0 \<and>
     price_validate (bc_collateral_rate o') \<and>
     (case asset_mult (bc_amount o') (bc_collateral_rate o') of None \<Rightarrow> False | Some a \<Rightarrow> amount a > 0) \<and>
     bc_min_loan_period_sec o' > 0 \<and>
     bc_loan_period_sec o' \<ge> bc_min_loan_period_sec o' \<and>
     bc_interest_apr o' \<le> MAX_INTEREST_APR"

definition bond_accept_offer_validate :: "bond_accept_offer_operation \<Rightarrow> bool" where
  "bond_accept_offer_validate o' \<longleftrightarrow>
     amount (ba_fee o') > 0 \<and>
     (case asset_div (ba_amount_collateral o') (ba_amount_borrowed o') of
        None \<Rightarrow> False | Some p \<Rightarrow> price_validate p) \<and>
     (ba_claimer o' = ba_borrower o' \<or> ba_claimer o' = ba_lender o') \<and>
     ba_borrower o' \<noteq> ba_lender o'"

text \<open>The key of a new account must not be the default value of its type, written 0 here.\<close>

fun key_data_validate :: "key_data \<Rightarrow> bool" where
  "key_data_validate (Address a) \<longleftrightarrow> a \<noteq> 0"
| "key_data_validate (Public_Key k) \<longleftrightarrow> k \<noteq> 0"

definition transfer_validate :: "transfer_operation \<Rightarrow> bool" where
  "transfer_validate o' \<longleftrightarrow>
     amount (tr_fee o') \<ge> 0 \<and> tr_from o' \<noteq> tr_to o' \<and> amount (tr_amount o') > 0"

definition limit_order_create_validate :: "limit_order_create_operation \<Rightarrow> bool" where
  "limit_order_create_validate o' \<longleftrightarrow>
     asset_id (lo_amount_to_sell o') \<noteq> asset_id (lo_min_to_receive o') \<and> amount (lo_fee o') \<ge> 0 \<and>
     amount (lo_amount_to_sell o') > 0 \<and> amount (lo_min_to_receive o') > 0"

definition short_order_create_validate :: "short_order_create_operation \<Rightarrow> bool" where
  "short_order_create_validate o' \<longleftrightarrow>
     amount (so_fee o') \<ge> 0 \<and> so_initial_collateral_ratio o' \<ge> BTS_MIN_COLLATERAL_RATIO \<and>
     so_initial_collateral_ratio o' > so_maintenance_collateral_ratio o' \<and>
     so_initial_collateral_ratio o' \<le> BTS_MAX_COLLATERAL_RATIO"

definition limit_order_cancel_validate :: "limit_order_cancel_operation \<Rightarrow> bool" where
  "limit_order_cancel_validate o' \<longleftrightarrow>
     amount (lc_fee o') \<ge> 0"

definition short_order_cancel_validate :: "short_order_cancel_operation \<Rightarrow> bool" where
  "short_order_cancel_validate o' \<longleftrightarrow>
     amount (sc_fee o') \<ge> 0"

definition key_create_validate :: "key_create_operation \<Rightarrow> bool" where
  "key_create_validate o' \<longleftrightarrow>
     amount (kc_fee o') \<ge> 0 \<and> key_data_validate (kc_key_data o')"

definition account_update_validate :: "account_update_operation \<Rightarrow> bool" where
  "account_update_validate o' \<longleftrightarrow>
     amount (au_fee o') \<ge> 0 \<and> au_account o' \<noteq> 0 \<and>
     (au_owner o' \<noteq> None \<or> au_active o' \<noteq> None \<or> au_voting_account o' \<noteq> None \<or>
      au_memo_key o' \<noteq> None \<or> au_vote o' \<noteq> None \<or> au_upgrade_to_prime o')"

definition account_whitelist_validate :: "account_whitelist_operation \<Rightarrow> bool" where
  "account_whitelist_validate o' \<longleftrightarrow>
     amount (aw_fee o') \<ge> 0 \<and> aw_new_listing o' < 4"

definition account_transfer_validate :: "account_transfer_operation \<Rightarrow> bool" where
  "account_transfer_validate o' \<longleftrightarrow>
     amount (at_fee o') \<ge> 0"

definition asset_update_bitasset_validate :: "asset_update_bitasset_operation \<Rightarrow> bool" where
  "asset_update_bitasset_validate o' \<longleftrightarrow>
     amount (ub_fee o') \<ge> 0 \<and> bitasset_options_validate (ub_new_options o')"

definition asset_update_feed_producers_validate :: "asset_update_feed_producers_operation \<Rightarrow> bool" where
  "asset_update_feed_producers_validate o' \<longleftrightarrow>
     amount (uf_fee o') \<ge> 0"

definition asset_issue_validate :: "asset_issue_operation \<Rightarrow> bool" where
  "asset_issue_validate o' \<longleftrightarrow>
     amount (ai_fee o') \<ge> 0 \<and> amount (ai_asset_to_issue o') \<le> BTS_BLOCKCHAIN_MAX_SHARES \<and>
     amount (ai_asset_to_issue o') > 0 \<and> asset_id (ai_asset_to_issue o') \<noteq> 0"

definition asset_burn_validate :: "asset_burn_operation \<Rightarrow> bool" where
  "asset_burn_validate o' \<longleftrightarrow>
     amount (ab_fee o') \<ge> 0 \<and> amount (ab_amount_to_burn o') \<le> BTS_BLOCKCHAIN_MAX_SHARES \<and>
     amount (ab_amount_to_burn o') > 0"

definition asset_fund_fee_pool_validate :: "asset_fund_fee_pool_operation \<Rightarrow> bool" where
  "asset_fund_fee_pool_validate o' \<longleftrightarrow>
     amount (ff_fee o') \<ge> 0 \<and> asset_id (ff_fee o') = 0 \<and> ff_amount o' > 0"

definition asset_settle_validate :: "asset_settle_operation \<Rightarrow> bool" where
  "asset_settle_validate o' \<longleftrightarrow>
     amount (as_fee o') \<ge> 0 \<and> amount (as_amount o') \<ge> 0"

definition asset_global_settle_validate :: "asset_global_settle_operation \<Rightarrow> bool" where
  "asset_global_settle_validate o' \<longleftrightarrow>
     amount (gs_fee o') \<ge> 0 \<and> gs_asset_to_settle o' = asset_id (base (gs_settle_price o'))"

definition asset_publish_feed_validate :: "asset_publish_feed_operation \<Rightarrow> bool" where
  "asset_publish_feed_validate o' \<longleftrightarrow>
     amount (pf_fee o') \<ge> 0 \<and> feed_validate (pf_feed o')"

definition delegate_create_validate :: "delegate_create_operation \<Rightarrow> bool" where
  "delegate_create_validate o' \<longleftrightarrow>
     amount (dc_fee o') \<ge> 0"

definition witness_create_validate :: "witness_create_operation \<Rightarrow> bool" where
  "witness_create_validate o' \<longleftrightarrow>
     amount (wc_fee o') \<ge> 0"

definition witness_withdraw_pay_validate :: "witness_withdraw_pay_operation \<Rightarrow> bool" where
  "witness_withdraw_pay_validate o' \<longleftrightarrow>
     amount (ww_fee o') \<ge> 0 \<and> ww_amount o' \<ge> 0"

definition proposal_delete_validate :: "proposal_delete_operation \<Rightarrow> bool" where
  "proposal_delete_validate o' \<longleftrightarrow>
     amount (pd_fee o') \<ge> 0"

definition withdraw_permission_create_validate :: "withdraw_permission_create_operation \<Rightarrow> bool" where
  "withdraw_permission_create_validate o' \<longleftrightarrow>
     amount (wpc_fee o') \<ge> 0 \<and> wpc_withdraw_from_account o' \<noteq> wpc_authorized_account o' \<and>
     amount (wpc_withdrawal_limit o') > 0 \<and> wpc_withdrawal_period_sec o' > 0 \<and>
     wpc_periods_until_expiration o' > 0"

definition withdraw_permission_update_validate :: "withdraw_permission_update_operation \<Rightarrow> bool" where
  "withdraw_permission_update_validate o' \<longleftrightarrow>
     amount (wpu_withdrawal_limit o') > 0 \<and> amount (wpu_fee o') \<ge> 0 \<and>
     wpu_withdrawal_period_sec o' > 0 \<and> wpu_withdraw_from_account o' \<noteq> wpu_authorized_account o' \<and>
     wpu_periods_until_expiration o' > 0"

definition withdraw_permission_claim_validate :: "withdraw_permission_claim_operation \<Rightarrow> bool" where
  "withdraw_permission_claim_validate o' \<longleftrightarrow>
     wpk_withdraw_to_account o' \<noteq> wpk_withdraw_from_account o' \<and>
     amount (wpk_amount_to_withdraw o') > 0 \<and> amount (wpk_fee o') \<ge> 0"

definition withdraw_permission_delete_validate :: "withdraw_permission_delete_operation \<Rightarrow> bool" where
  "withdraw_permission_delete_validate o' \<longleftrightarrow>
     amount (wpd_fee o') \<ge> 0 \<and> wpd_withdraw_from_account o' \<noteq> wpd_authorized_account o'"

definition global_parameters_update_validate :: "global_parameters_update_operation \<Rightarrow> bool" where
  "global_parameters_update_validate o' \<longleftrightarrow>
     amount (gp_fee o') \<ge> 0 \<and> parameters_validate (gp_new_parameters o')"

definition file_write_validate :: "file_write_operation \<Rightarrow> bool" where
  "file_write_validate o' \<longleftrightarrow>
     fw_offset o' + int (length (fw_data o')) \<le> fw_file_size o' \<and> fw_flags o' \<le> 0x2f \<and>
     fw_file_size o' > 0 \<and> fw_lease_seconds o' < 60 * 60 * 24 * 365 * 10"

definition vesting_balance_create_validate :: "vesting_balance_create_operation \<Rightarrow> bool" where
  "vesting_balance_create_validate o' \<longleftrightarrow>
     amount (vc_fee o') \<ge> 0 \<and> amount (vc_amount o') > 0 \<and> vc_vesting_seconds o' > 0"

definition vesting_balance_withdraw_validate :: "vesting_balance_withdraw_operation \<Rightarrow> bool" where
  "vesting_balance_withdraw_validate o' \<longleftrightarrow>
     amount (vw_fee o') \<ge> 0 \<and> amount (vw_amount o') > 0"

definition bond_cancel_offer_validate :: "bond_cancel_offer_operation \<Rightarrow> bool" where
  "bond_cancel_offer_validate o' \<longleftrightarrow>
     amount (bx_fee o') > 0 \<and> amount (bx_refund o') > 0"

definition bond_claim_collateral_validate :: "bond_claim_collateral_operation \<Rightarrow> bool" where
  "bond_claim_collateral_validate o' \<longleftrightarrow>
     amount (bl_fee o') > 0 \<and> amount (bl_payoff_amount o') \<ge> 0 \<and>
     amount (bl_collateral_claimed o') \<ge> 0 \<and>
     asset_id (bl_payoff_amount o') \<noteq> asset_id (bl_collateral_claimed o')"

definition worker_create_validate :: "worker_create_operation \<Rightarrow> bool" where
  "worker_create_validate o' \<longleftrightarrow>
     amount (wk_fee o') \<ge> 0 \<and> wk_work_end_date o' > wk_work_begin_date o' \<and> wk_daily_pay o' > 0 \<and>
     wk_daily_pay o' < BTS_BLOCKCHAIN_MAX_SHARES"

definition custom_validate :: "custom_operation \<Rightarrow> bool" where
  "custom_validate o' \<longleftrightarrow>
     amount (cu_op_fee o') > 0"

fun op_validate :: "operation \<Rightarrow> bool" where
  "op_validate (Transfer_Op o') \<longleftrightarrow> transfer_validate o'"
| "op_validate (Limit_Order_Create_Op o') \<longleftrightarrow> limit_order_create_validate o'"
| "op_validate (Short_Order_Create_Op o') \<longleftrightarrow> short_order_create_validate o'"
| "op_validate (Limit_Order_Cancel_Op o') \<longleftrightarrow> limit_order_cancel_validate o'"
| "op_validate (Short_Order_Cancel_Op o') \<longleftrightarrow> short_order_cancel_validate o'"
| "op_validate (Call_Order_Update_Op o') \<longleftrightarrow> call_order_update_validate o'"
| "op_validate (Key_Create_Op o') \<longleftrightarrow> key_create_validate o'"
| "op_validate (Account_Create_Op o') \<longleftrightarrow> account_create_validate o'"
| "op_validate (Account_Update_Op o') \<longleftrightarrow> account_update_validate o'"
| "op_validate (Account_Whitelist_Op o') \<longleftrightarrow> account_whitelist_validate o'"
| "op_validate (Account_Transfer_Op o') \<longleftrightarrow> account_transfer_validate o'"
| "op_validate (Asset_Create_Op o') \<longleftrightarrow> asset_create_validate o'"
| "op_validate (Asset_Update_Op o') \<longleftrightarrow> asset_update_validate o'"
| "op_validate (Asset_Update_Bitasset_Op o') \<longleftrightarrow> asset_update_bitasset_validate o'"
| "op_validate (Asset_Update_Feed_Producers_Op o') \<longleftrightarrow> asset_update_feed_producers_validate o'"
| "op_validate (Asset_Issue_Op o') \<longleftrightarrow> asset_issue_validate o'"
| "op_validate (Asset_Burn_Op o') \<longleftrightarrow> asset_burn_validate o'"
| "op_validate (Asset_Fund_Fee_Pool_Op o') \<longleftrightarrow> asset_fund_fee_pool_validate o'"
| "op_validate (Asset_Settle_Op o') \<longleftrightarrow> asset_settle_validate o'"
| "op_validate (Asset_Global_Settle_Op o') \<longleftrightarrow> asset_global_settle_validate o'"
| "op_validate (Asset_Publish_Feed_Op o') \<longleftrightarrow> asset_publish_feed_validate o'"
| "op_validate (Delegate_Create_Op o') \<longleftrightarrow> delegate_create_validate o'"
| "op_validate (Witness_Create_Op o') \<longleftrightarrow> witness_create_validate o'"
| "op_validate (Witness_Withdraw_Pay_Op o') \<longleftrightarrow> witness_withdraw_pay_validate o'"
| "op_validate (Proposal_Create_Op (Proposal_Create payer fee ops expiration review)) \<longleftrightarrow> ops \<noteq> [] \<and> (\<forall>op \<in> set ops. op_validate op)"
| "op_validate (Proposal_Update_Op o') \<longleftrightarrow> proposal_update_validate o'"
| "op_validate (Proposal_Delete_Op o') \<longleftrightarrow> proposal_delete_validate o'"
| "op_validate (Withdraw_Permission_Create_Op o') \<longleftrightarrow> withdraw_permission_create_validate o'"
| "op_validate (Withdraw_Permission_Update_Op o') \<longleftrightarrow> withdraw_permission_update_validate o'"
| "op_validate (Withdraw_Permission_Claim_Op o') \<longleftrightarrow> withdraw_permission_claim_validate o'"
| "op_validate (Withdraw_Permission_Delete_Op o') \<longleftrightarrow> withdraw_permission_delete_validate o'"
| "op_validate (Fill_Order_Op o') \<longleftrightarrow> False"
| "op_validate (Global_Parameters_Update_Op o') \<longleftrightarrow> global_parameters_update_validate o'"
| "op_validate (File_Write_Op o') \<longleftrightarrow> file_write_validate o'"
| "op_validate (Vesting_Balance_Create_Op o') \<longleftrightarrow> vesting_balance_create_validate o'"
| "op_validate (Vesting_Balance_Withdraw_Op o') \<longleftrightarrow> vesting_balance_withdraw_validate o'"
| "op_validate (Bond_Create_Offer_Op o') \<longleftrightarrow> bond_create_offer_validate o'"
| "op_validate (Bond_Cancel_Offer_Op o') \<longleftrightarrow> bond_cancel_offer_validate o'"
| "op_validate (Bond_Accept_Offer_Op o') \<longleftrightarrow> bond_accept_offer_validate o'"
| "op_validate (Bond_Claim_Collateral_Op o') \<longleftrightarrow> bond_claim_collateral_validate o'"
| "op_validate (Worker_Create_Op o') \<longleftrightarrow> worker_create_validate o'"
| "op_validate (Custom_Op o') \<longleftrightarrow> custom_validate o'"

lemmas validate_defs = transfer_validate_def
  limit_order_create_validate_def
  short_order_create_validate_def
  limit_order_cancel_validate_def
  short_order_cancel_validate_def
  key_create_validate_def
  account_update_validate_def
  account_whitelist_validate_def
  account_transfer_validate_def
  asset_update_bitasset_validate_def
  asset_update_feed_producers_validate_def
  asset_issue_validate_def
  asset_burn_validate_def
  asset_fund_fee_pool_validate_def
  asset_settle_validate_def
  asset_global_settle_validate_def
  asset_publish_feed_validate_def
  delegate_create_validate_def
  witness_create_validate_def
  witness_withdraw_pay_validate_def
  proposal_delete_validate_def
  withdraw_permission_create_validate_def
  withdraw_permission_update_validate_def
  withdraw_permission_claim_validate_def
  withdraw_permission_delete_validate_def
  global_parameters_update_validate_def
  file_write_validate_def
  vesting_balance_create_validate_def
  vesting_balance_withdraw_validate_def
  bond_cancel_offer_validate_def
  bond_claim_collateral_validate_def
  worker_create_validate_def
  custom_validate_def
  call_order_update_validate_def account_create_validate_def
      asset_create_validate_def asset_update_validate_def proposal_update_validate_def
      bond_create_offer_validate_def bond_accept_offer_validate_def

text \<open>What every valid operation but a proposal and a file write guarantees: the fee is not negative.\<close>

lemma op_validate_fee:
  "op_validate op \<Longrightarrow> (\<And>p. op \<noteq> Proposal_Create_Op p) \<Longrightarrow> (\<And>f. op \<noteq> File_Write_Op f) \<Longrightarrow>
     amount (op_fee op) \<ge> 0"
  by (cases op) (auto simp: validate_defs)

lemma data_surcharge_Some:
  assumes "fees_ok k" "n < 2 ^ 30"
  obtains d where "data_surcharge n k = Some d" "0 \<le> d" "d < 2 ^ 52"
proof -
  obtain v where v: "fee_of k data_fee_type = Some v" "0 \<le> v" "v < 2 ^ 32"
    using fee_at_ok [OF assms(1) fee_index_less] by blast
  have "int n < 2 ^ 30" using assms(2) by (metis of_nat_less_numeral_power_cancel_iff)
  then have "int n * v < 2 ^ 30 * 2 ^ 32"
    using v(2,3) by (intro mult_strict_mono) auto
  then have b: "0 \<le> int n * v" "int n * v < 2 ^ 62" using v(2) by simp_all
  then have "0 \<le> int n * v div 1024" "int n * v div 1024 < 2 ^ 52" by simp_all
  moreover from this have "int64_ok (int n * v div 1024)" by (simp add: int64_ok_def)
  ultimately show ?thesis
    using v(1) b that [of "int n * v div 1024"] by (simp add: data_surcharge_def)
qed

end
