(* ===== verification/Authority.thy ===== *)
theory Authority
  imports Ledger Op_Rules "HOL-Library.Sublist"
begin

section \<open>Checking authorities\<close>

text \<open>
  Models \<open>transaction_evaluation_state\<close> (\<^verbatim>\<open>libraries/chain/transaction_evaluation_state.cpp\<close>) and
  the authority part of \<open>generic_evaluator\<close> (\<^verbatim>\<open>evaluator.cpp\<close>): the recursive, depth limited check of
  weighted multi-signature authorities with its cache of approvals, the check of the authorities an
  operation requires, and the resolution of ids relative to the transaction.

  The inductive predicate \<open>authorised\<close> is the contract: signatures of enough weight, directly or
  through accounts that are authorised themselves. The lemmas show that the check never grants more.
\<close>

subsection \<open>Evaluation state\<close>

datatype classification = owner_auth | active_auth | key_auth

record transaction_evaluation_state =
  approved_by :: "(object_id_type \<times> classification) list"
  operation_results :: "operation_result list"
  es_trx :: signed_transaction
  skip_authority_check :: bool
  is_proposed_trx :: bool

definition BTS_MAX_SIG_CHECK_DEPTH :: nat where "BTS_MAX_SIG_CHECK_DEPTH = 2"

definition signed_by :: "transaction_evaluation_state \<Rightarrow> key_id_type \<Rightarrow> bool" where
  "signed_by st k \<longleftrightarrow> k \<in> fst ` set (signatures (es_trx st))"

definition authority_of :: "classification \<Rightarrow> account_object \<Rightarrow> authority option" where
  "authority_of c a = (case c of owner_auth \<Rightarrow> Some (acct_owner a) | active_auth \<Rightarrow> Some (acct_active a)
     | key_auth \<Rightarrow> None)"

definition approve :: "object_id_type \<Rightarrow> classification \<Rightarrow> transaction_evaluation_state \<Rightarrow> transaction_evaluation_state"
where
  "approve i c st = st\<lparr>approved_by := (i, c) # approved_by st\<rparr>"

subsection \<open>The check (transaction\_evaluation\_state.cpp)\<close>

text \<open>
  The loop over the weighted entries of the authority of account \<open>acct\<close>. \<open>sub\<close> is the recursive call,
  missing at the maximal depth. \<open>get_object\<close> throws for an id that names no object; ids outside the
  space of protocol objects never enter an authority and count as such.
\<close>

fun check_auths ::
  "database \<Rightarrow> (account_id_type \<Rightarrow> transaction_evaluation_state \<Rightarrow> (bool \<times> transaction_evaluation_state) option) option \<Rightarrow>
   account_id_type \<Rightarrow> classification \<Rightarrow> int \<Rightarrow> (object_id_type \<times> weight_type) list \<Rightarrow> int \<Rightarrow>
   transaction_evaluation_state \<Rightarrow> (bool \<times> transaction_evaluation_state) option"
where
  "check_auths db sub acct c threshold [] total_weight st = Some (False, st)"
| "check_auths db sub acct c threshold ((i, w) # items) total_weight st = do {
     r \<leftarrow> (if (i, c) \<in> set (approved_by st) then Some (Some (uint32 (total_weight + w), st))
          else if oid_space i \<noteq> protocol_ids then None
          else if oid_type i = account_object_type then do {
            _ \<leftarrow> get_object (accounts db) (oid_instance i);
            case sub of
              None \<Rightarrow> Some None
            | Some check \<Rightarrow> do {
                (ok, st1) \<leftarrow> check (oid_instance i) st;
                Some (Some (if ok then (uint32 (total_weight + w), approve i c st1) else (total_weight, st1))) } }
          else if oid_type i = key_object_type then do {
            _ \<leftarrow> get_object (keys db) (oid_instance i);
            Some (Some (if signed_by st (oid_instance i) then (uint32 (total_weight + w), approve i key_auth st)
                        else (total_weight, st))) }
          else None);
     case r of
       None \<Rightarrow> Some (False, st)
     | Some (tot, st1) \<Rightarrow>
         if tot \<ge> threshold then Some (True, approve (account_oid acct) c st1)
         else check_auths db sub acct c threshold items tot st1 }"

text \<open>One call; \<open>left\<close> is how much deeper it may recurse (\<open>BTS_MAX_SIG_CHECK_DEPTH - depth\<close>).\<close>

fun check_authority_at ::
  "database \<Rightarrow> classification \<Rightarrow> nat \<Rightarrow> account_id_type \<Rightarrow> transaction_evaluation_state \<Rightarrow>
   (bool \<times> transaction_evaluation_state) option"
where
  "check_authority_at db c left acct st =
     (if skip_authority_check st \<or> (account_oid acct, c) \<in> set (approved_by st) then Some (True, st)
      else do {
        fc_assert (acct \<noteq> 0 \<or> is_proposed_trx st);
        a \<leftarrow> get_object (accounts db) acct;
        au \<leftarrow> authority_of c a;
        check_auths db (case left of 0 \<Rightarrow> None | Suc m \<Rightarrow> Some (check_authority_at db c m))
          acct c (weight_threshold au) (auths au) 0 st })"

declare check_authority_at.simps [simp del]

definition check_authority ::
  "database \<Rightarrow> account_id_type \<Rightarrow> classification \<Rightarrow> transaction_evaluation_state \<Rightarrow>
   (bool \<times> transaction_evaluation_state) option" where
  "check_authority db acct c st = check_authority_at db c BTS_MAX_SIG_CHECK_DEPTH acct st"

subsection \<open>Required authorities (evaluator.cpp)\<close>

definition verify_active_or_owner ::
  "database \<Rightarrow> account_id_type \<Rightarrow> transaction_evaluation_state \<Rightarrow> transaction_evaluation_state option" where
  "verify_active_or_owner db i st = do {
     _ \<leftarrow> get_object (accounts db) i;
     (ok, st1) \<leftarrow> check_authority db i active_auth st;
     if ok then Some st1
     else do {
       (ok2, st2) \<leftarrow> check_authority db i owner_auth st1;
       fc_assert ok2;
       Some st2 } }"

definition verify_owner ::
  "database \<Rightarrow> account_id_type \<Rightarrow> transaction_evaluation_state \<Rightarrow> transaction_evaluation_state option" where
  "verify_owner db i st = do {
     _ \<leftarrow> get_object (accounts db) i;
     (ok, st1) \<leftarrow> check_authority db i owner_auth st;
     fc_assert ok;
     Some st1 }"

definition check_required_authorities ::
  "database \<Rightarrow> operation \<Rightarrow> transaction_evaluation_state \<Rightarrow> transaction_evaluation_state option" where
  "check_required_authorities db op st = do {
     let (active_auths, owner_auths) = get_required_auth op ([], []);
     st1 \<leftarrow> fold_opt (verify_active_or_owner db) active_auths st;
     fold_opt (verify_owner db) owner_auths st1 }"

subsection \<open>Relative ids (evaluator.cpp)\<close>

text \<open>\<open>get_object\<close> on an id of any type; results are ids of protocol objects.\<close>

definition object_exists :: "database \<Rightarrow> object_id_type \<Rightarrow> bool" where
  "object_exists db i \<longleftrightarrow>
     (let t = oid_type i; n = oid_instance i in
      oid_space i = protocol_ids \<and>
      (if t = 2 then gi_find (keys db) n \<noteq> None
       else if t = 3 then gi_find (accounts db) n \<noteq> None
       else if t = 4 then gi_find (assets db) n \<noteq> None
       else if t = 5 then gi_find (settlements db) n \<noteq> None
       else if t = 6 then gi_find (delegates db) n \<noteq> None
       else if t = 7 then gi_find (witnesses db) n \<noteq> None
       else if t = 8 then gi_find (limit_orders db) n \<noteq> None
       else if t = 9 then gi_find (short_orders db) n \<noteq> None
       else if t = 10 then gi_find (call_orders db) n \<noteq> None
       else if t = 12 then gi_find (proposals db) n \<noteq> None
       else if t = 14 then gi_find (permissions db) n \<noteq> None
       else if t = 15 then gi_find (bond_offers db) n \<noteq> None
       else if t = 16 then gi_find (bonds db) n \<noteq> None
       else if t = 18 then gi_find (vestings db) n \<noteq> None
       else if t = 19 then gi_find (workers db) n \<noteq> None
       else False))"

definition get_relative_id ::
  "database \<Rightarrow> transaction_evaluation_state \<Rightarrow> object_id_type \<Rightarrow> object_id_type option" where
  "get_relative_id db st rel_id =
     (if is_relative rel_id then do {
        fc_assert (oid_instance rel_id < length (operation_results st));
        case operation_results st ! oid_instance rel_id of
          Id_Result r \<Rightarrow> do { fc_assert (object_exists db r); Some r }
        | _ \<Rightarrow> None }
      else Some rel_id)"

fun resolve_auths ::
  "database \<Rightarrow> transaction_evaluation_state \<Rightarrow> (object_id_type \<times> weight_type) list \<Rightarrow>
   (object_id_type \<times> weight_type) list \<Rightarrow> (object_id_type \<times> weight_type) list option"
where
  "resolve_auths db st [] result = Some result"
| "resolve_auths db st ((i, w) # items) result = do {
     j \<leftarrow> get_relative_id db st i;
     fc_assert (oid_type j = key_object_type \<or> oid_type j = account_object_type);
     resolve_auths db st items (fm_put j w result) }"

definition resolve_relative_ids ::
  "database \<Rightarrow> transaction_evaluation_state \<Rightarrow> authority \<Rightarrow> authority option" where
  "resolve_relative_ids db st a = do {
     r \<leftarrow> resolve_auths db st (auths a) [];
     Some \<lparr>weight_threshold = weight_threshold a, auths = r\<rparr> }"

subsection \<open>What the check guarantees\<close>

text \<open>The contract: the weights of the signing keys and authorised accounts reach the threshold.\<close>

inductive authorised :: "database \<Rightarrow> (key_id_type \<Rightarrow> bool) \<Rightarrow> bool \<Rightarrow> classification \<Rightarrow> account_id_type \<Rightarrow> bool"
  for db :: database and sgs :: "key_id_type \<Rightarrow> bool" and proposed :: bool and c :: classification
where
  authorisedI: "acct \<noteq> 0 \<or> proposed \<Longrightarrow> gi_find (accounts db) acct = Some a \<Longrightarrow>
    authority_of c a = Some au \<Longrightarrow> subseq chosen (auths au) \<Longrightarrow>
    (\<And>i w. (i, w) \<in> set chosen \<Longrightarrow> oid_space i = protocol_ids \<and>
       (oid_type i = key_object_type \<and> sgs (oid_instance i) \<or>
        oid_type i = account_object_type \<and> authorised db sgs proposed c (oid_instance i))) \<Longrightarrow>
    weight_threshold au \<le> sum_list (map snd chosen) \<Longrightarrow>
    authorised db sgs proposed c acct"


definition weights_ok :: "(object_id_type \<times> weight_type) list \<Rightarrow> bool" where
  "weights_ok xs \<longleftrightarrow> (\<forall>w \<in> snd ` set xs. 0 \<le> w) \<and> sum_list (map snd xs) < 2 ^ 32"

definition authorities_ok :: "database \<Rightarrow> bool" where
  "authorities_ok db \<longleftrightarrow> (\<forall>i a. gi_find (accounts db) i = Some a \<longrightarrow>
     weights_ok (auths (acct_owner a)) \<and> weights_ok (auths (acct_active a)))"

text \<open>The cache of approvals holds only what the signatures justify.\<close>

definition justified :: "database \<Rightarrow> (key_id_type \<Rightarrow> bool) \<Rightarrow> bool \<Rightarrow> object_id_type \<times> classification \<Rightarrow> bool" where
  "justified db sgs proposed p = (case p of (i, c) \<Rightarrow> oid_space i = protocol_ids \<and>
     (if c = key_auth then oid_type i = key_object_type \<and> sgs (oid_instance i)
      else oid_type i = account_object_type \<and> authorised db sgs proposed c (oid_instance i)))"

definition cache_ok :: "database \<Rightarrow> transaction_evaluation_state \<Rightarrow> bool" where
  "cache_ok db st \<longleftrightarrow> (\<forall>p \<in> set (approved_by st). justified db (signed_by st) (is_proposed_trx st) p)"

text \<open>The part of the state that a check never changes.\<close>

definition same_trx :: "transaction_evaluation_state \<Rightarrow> transaction_evaluation_state \<Rightarrow> bool" where
  "same_trx st st' \<longleftrightarrow> es_trx st' = es_trx st \<and> is_proposed_trx st' = is_proposed_trx st \<and>
     skip_authority_check st' = skip_authority_check st \<and> operation_results st' = operation_results st"

lemma same_trx_refl [simp]: "same_trx st st"
  by (simp add: same_trx_def)

lemma same_trx_trans [trans]: "same_trx a b \<Longrightarrow> same_trx b c \<Longrightarrow> same_trx a c"
  by (simp add: same_trx_def)

lemma same_trx_approve [simp]: "same_trx st (approve i c st') = same_trx st st'"
  by (simp add: same_trx_def approve_def)

lemma same_trx_signed: "same_trx st st' \<Longrightarrow> signed_by st' = signed_by st"
  by (simp add: same_trx_def signed_by_def fun_eq_iff)

lemma signed_by_approve [simp]: "signed_by (approve i c st) = signed_by st"
  by (simp add: approve_def signed_by_def fun_eq_iff)

lemma cache_ok_approve:
  "cache_ok db (approve i c st) \<longleftrightarrow>
     justified db (signed_by st) (is_proposed_trx st) (i, c) \<and> cache_ok db st"
  by (simp add: cache_ok_def) (simp add: approve_def)

lemma account_oid_simps [simp]:
  "oid_space (account_oid a) = protocol_ids" "oid_type (account_oid a) = account_object_type"
  "oid_instance (account_oid a) = a"
  by (simp_all add: account_oid_def oid_space_def oid_type_def oid_instance_def)

lemma object_types_differ [simp]: "key_object_type \<noteq> account_object_type" "account_object_type \<noteq> key_object_type"
  by (simp_all add: key_object_type_def account_object_type_def)

lemma subseq_sum_le:
  "subseq xs ys \<Longrightarrow> \<forall>y \<in> set ys. 0 \<le> (y :: int) \<Longrightarrow> 0 \<le> sum_list xs \<and> sum_list xs \<le> sum_list ys"
  by (induction xs ys rule: list_emb.induct) (auto intro: sum_list_nonneg)

lemma weights_ok_suffix:
  assumes "weights_ok (xs @ (i, w) # ys)" "subseq chosen xs"
  shows "uint32 (sum_list (map snd chosen) + w) = sum_list (map snd chosen) + w"
proof -
  have nn: "\<forall>x \<in> set (map snd (xs @ (i, w) # ys)). 0 \<le> x" using assms(1) by (auto simp: weights_ok_def)
  have sub: "sum_list (map snd chosen) \<le> sum_list (map snd xs) \<and> 0 \<le> sum_list (map snd chosen)"
    using subseq_sum_le [OF subseq_map [OF assms(2), of snd]] nn by auto
  have "0 \<le> sum_list (map snd ys)" using nn by (intro sum_list_nonneg) auto
  with sub assms(1) nn show ?thesis by (intro uint32_id) (auto simp: weights_ok_def)
qed

definition entry_ok :: "database \<Rightarrow> (key_id_type \<Rightarrow> bool) \<Rightarrow> bool \<Rightarrow> classification \<Rightarrow> object_id_type \<Rightarrow> bool" where
  "entry_ok db sgs proposed c i \<longleftrightarrow> oid_space i = protocol_ids \<and>
     (oid_type i = key_object_type \<and> sgs (oid_instance i) \<or>
      oid_type i = account_object_type \<and> authorised db sgs proposed c (oid_instance i))"

text \<open>What a (recursive) check promises of the state it returns.\<close>

definition check_sound ::
  "database \<Rightarrow> classification \<Rightarrow>
   (account_id_type \<Rightarrow> transaction_evaluation_state \<Rightarrow> (bool \<times> transaction_evaluation_state) option) \<Rightarrow> bool"
where
  "check_sound db c check \<longleftrightarrow> (\<forall>i st ok st'. check i st = Some (ok, st') \<longrightarrow> cache_ok db st \<longrightarrow>
     \<not> skip_authority_check st \<longrightarrow> same_trx st st' \<and> cache_ok db st' \<and>
     (ok \<longrightarrow> authorised db (signed_by st) (is_proposed_trx st) c i))"

lemma check_soundD:
  assumes "check_sound db c check" "check i st = Some (ok, st')" "cache_ok db st" "\<not> skip_authority_check st"
  shows "same_trx st st'" "cache_ok db st'"
    "ok \<Longrightarrow> authorised db (signed_by st) (is_proposed_trx st) c i"
  using assms unfolding check_sound_def by blast+

text \<open>One entry of the loop: it adds its weight only when the entry is justified.\<close>

lemma check_entry_sound:
  assumes step: "(if (i, c) \<in> set (approved_by st) then Some (Some (uint32 (tw + w), st))
          else if oid_space i \<noteq> protocol_ids then None
          else if oid_type i = account_object_type then do {
            _ \<leftarrow> get_object (accounts db) (oid_instance i);
            case sub of
              None \<Rightarrow> Some None
            | Some check \<Rightarrow> do {
                (ok, st1) \<leftarrow> check (oid_instance i) st;
                Some (Some (if ok then (uint32 (tw + w), approve i c st1) else (tw, st1))) } }
          else if oid_type i = key_object_type then do {
            _ \<leftarrow> get_object (keys db) (oid_instance i);
            Some (Some (if signed_by st (oid_instance i) then (uint32 (tw + w), approve i key_auth st)
                        else (tw, st))) }
          else None) = Some (Some (tw', st'))"
    and sub: "\<And>check. sub = Some check \<Longrightarrow> check_sound db c check"
    and inv: "cache_ok db st" "\<not> skip_authority_check st" "c \<noteq> key_auth"
  shows "same_trx st st' \<and> cache_ok db st' \<and>
    (tw' = tw \<or> tw' = uint32 (tw + w) \<and> entry_ok db (signed_by st) (is_proposed_trx st) c i)"
proof (cases "(i, c) \<in> set (approved_by st)")
  case True
  then have "justified db (signed_by st) (is_proposed_trx st) (i, c)" using inv(1) unfolding cache_ok_def by blast
  with step True inv show ?thesis by (auto simp: justified_def entry_ok_def)
next
  case nc: False
  show ?thesis
  proof (cases "oid_type i = account_object_type")
    case True
    with step nc obtain check ok st1 where c: "sub = Some check" "check (oid_instance i) st = Some (ok, st1)"
      "oid_space i = protocol_ids" "(tw', st') = (if ok then (uint32 (tw + w), approve i c st1) else (tw, st1))"
      by (auto split: if_splits option.splits)
    note d = check_soundD [OF sub [OF c(1)] c(2) inv(1,2)]
    have "signed_by st1 = signed_by st" "is_proposed_trx st1 = is_proposed_trx st"
      using d(1) by (simp_all add: same_trx_signed) (simp add: same_trx_def)
    with c d inv True show ?thesis
      by (cases ok) (auto simp: entry_ok_def justified_def cache_ok_approve)
  next
    case False
    with step nc inv show ?thesis
      by (auto simp: entry_ok_def justified_def cache_ok_approve split: if_splits)
  qed
qed

lemma check_auths_sound:
  assumes "check_auths db sub acct c (weight_threshold au) items tw st = Some (ok, st')"
    and "\<And>check. sub = Some check \<Longrightarrow> check_sound db c check"
    and "gi_find (accounts db) acct = Some a" "authority_of c a = Some au" "c \<noteq> key_auth"
    and "acct \<noteq> 0 \<or> is_proposed_trx st" "cache_ok db st" "\<not> skip_authority_check st"
    and "auths au = pre @ items" "weights_ok (auths au)" "subseq chosen pre" "tw = sum_list (map snd chosen)"
    and "\<And>i w. (i, w) \<in> set chosen \<Longrightarrow> entry_ok db (signed_by st) (is_proposed_trx st) c i"
  shows "same_trx st st' \<and> cache_ok db st' \<and>
    (ok \<longrightarrow> authorised db (signed_by st) (is_proposed_trx st) c acct)"
  using assms
proof (induction items arbitrary: tw st chosen pre)
  case Nil
  then show ?case by simp
next
  case (Cons p items)
  obtain i w where p: "p = (i, w)" by (rule prod.exhaust)
  let ?auth = "authorised db (signed_by st) (is_proposed_trx st) c acct"
  from Cons.prems(1) obtain r where
    step: "(if (i, c) \<in> set (approved_by st) then Some (Some (uint32 (tw + w), st))
          else if oid_space i \<noteq> protocol_ids then None
          else if oid_type i = account_object_type then do {
            _ \<leftarrow> get_object (accounts db) (oid_instance i);
            case sub of
              None \<Rightarrow> Some None
            | Some check \<Rightarrow> do {
                (ok, st1) \<leftarrow> check (oid_instance i) st;
                Some (Some (if ok then (uint32 (tw + w), approve i c st1) else (tw, st1))) } }
          else if oid_type i = key_object_type then do {
            _ \<leftarrow> get_object (keys db) (oid_instance i);
            Some (Some (if signed_by st (oid_instance i) then (uint32 (tw + w), approve i key_auth st)
                        else (tw, st))) }
          else None) = Some r"
    and rest: "(case r of None \<Rightarrow> Some (False, st)
     | Some (tot, st1) \<Rightarrow> if tot \<ge> weight_threshold au then Some (True, approve (account_oid acct) c st1)
         else check_auths db sub acct c (weight_threshold au) items tot st1) = Some (ok, st')"
    unfolding p check_auths.simps Option.bind_eq_Some_conv by blast
  show ?case
  proof (cases r)
    case None
    with rest Cons.prems show ?thesis by simp
  next
    case (Some q)
    obtain tw1 st1 where q: "q = (tw1, st1)" by (rule prod.exhaust)
    have e: "same_trx st st1 \<and> cache_ok db st1 \<and>
      (tw1 = tw \<or> tw1 = uint32 (tw + w) \<and> entry_ok db (signed_by st) (is_proposed_trx st) c i)"
      by (rule check_entry_sound [OF step [unfolded Some q]]) (use Cons.prems in \<open>simp_all\<close>)
    have u: "uint32 (tw + w) = tw + w"
      using weights_ok_suffix [of pre i w items chosen] Cons.prems p by simp
    obtain chosen1 where ch: "subseq chosen1 (pre @ [p])" "tw1 = sum_list (map snd chosen1)"
      "\<And>i w. (i, w) \<in> set chosen1 \<Longrightarrow> entry_ok db (signed_by st) (is_proposed_trx st) c i"
    proof (cases "tw1 = tw")
      case True
      then show ?thesis
        using that [of chosen] Cons.prems(11-13) by (auto intro: subseq_append_iff list_emb_append2)
    next
      case False
      then show ?thesis
        using that [of "chosen @ [p]"] Cons.prems(11-13) e u p by (auto simp: list_emb_append_mono)
    qed
    have sg: "signed_by st1 = signed_by st" "is_proposed_trx st1 = is_proposed_trx st"
      "\<not> skip_authority_check st1"
      using e Cons.prems(8) by (simp_all add: same_trx_signed) (simp_all add: same_trx_def)
    show ?thesis
    proof (cases "tw1 \<ge> weight_threshold au")
      case True
      have "subseq chosen1 ((pre @ [p]) @ items)" by (rule list_emb_prefix [OF ch(1)])
      then have sub: "subseq chosen1 (auths au)" using Cons.prems(9) by simp
      have au: ?auth
        using Cons.prems(3,4,6) ch True
        by (intro authorisedI [where chosen = chosen1 and a = a and au = au])
          (auto simp: entry_ok_def sub)
      with True rest Some q e sg Cons.prems(5) show ?thesis
        by (auto simp: cache_ok_approve justified_def)
    next
      case False
      with rest Some q have "check_auths db sub acct c (weight_threshold au) items tw1 st1 = Some (ok, st')"
        by simp
      from Cons.IH [OF this Cons.prems(2-5), of "pre @ [p]" chosen1] Cons.prems ch e sg
      show ?thesis by (auto intro: same_trx_trans)
    qed
  qed
qed

text \<open>One level of the recursion, whatever the recursive call is.\<close>

lemma check_step_sound:
  assumes "authorities_ok db" "c \<noteq> key_auth" "\<And>check. sub = Some check \<Longrightarrow> check_sound db c check"
    and "(if skip_authority_check st \<or> (account_oid acct, c) \<in> set (approved_by st) then Some (True, st)
      else do {
        fc_assert (acct \<noteq> 0 \<or> is_proposed_trx st);
        a \<leftarrow> get_object (accounts db) acct;
        au \<leftarrow> authority_of c a;
        check_auths db sub acct c (weight_threshold au) (auths au) 0 st }) = Some (ok, st')"
    and "cache_ok db st" "\<not> skip_authority_check st"
  shows "same_trx st st' \<and> cache_ok db st' \<and>
    (ok \<longrightarrow> authorised db (signed_by st) (is_proposed_trx st) c acct)"
proof (cases "(account_oid acct, c) \<in> set (approved_by st)")
  case True
  then have "justified db (signed_by st) (is_proposed_trx st) (account_oid acct, c)"
    using assms(5) unfolding cache_ok_def by blast
  with True assms show ?thesis by (auto simp: justified_def)
next
  case False
  with assms(4,6) obtain a au where a: "acct \<noteq> 0 \<or> is_proposed_trx st" "gi_find (accounts db) acct = Some a"
    "authority_of c a = Some au" "check_auths db sub acct c (weight_threshold au) (auths au) 0 st = Some (ok, st')"
    by auto
  have w: "weights_ok (auths au)"
    using assms(1,2) a(2,3) by (cases c) (auto simp: authorities_ok_def authority_of_def)
  show ?thesis
    by (rule check_auths_sound [OF a(4) assms(3) a(2,3) assms(2) a(1) assms(5,6), of "[]" "[]"])
      (use w in simp_all)
qed

lemma check_authority_at_sound:
  assumes "authorities_ok db" "c \<noteq> key_auth"
  shows "check_sound db c (check_authority_at db c left)"
proof (induction left)
  case 0
  have "check_sound db c check" if "(case 0 of 0 \<Rightarrow> None | Suc m \<Rightarrow> Some (check_authority_at db c m)) = Some check"
    for check using that by simp
  from check_step_sound [OF assms this] show ?case
    unfolding check_sound_def check_authority_at.simps [of db c 0] by blast
next
  case (Suc left)
  have "check_sound db c check"
    if "(case Suc left of 0 \<Rightarrow> None | Suc m \<Rightarrow> Some (check_authority_at db c m)) = Some check"
    for check using that Suc by simp
  from check_step_sound [OF assms this] show ?case
    unfolding check_sound_def check_authority_at.simps [of db c "Suc left"] by blast
qed

lemma check_authority_sound:
  assumes "authorities_ok db" "c \<noteq> key_auth" "check_authority db i c st = Some (ok, st')"
    and "cache_ok db st" "\<not> skip_authority_check st"
  shows "same_trx st st'" "cache_ok db st'"
    "ok \<Longrightarrow> authorised db (signed_by st) (is_proposed_trx st) c i"
  using check_soundD [OF check_authority_at_sound [OF assms(1,2)] _ assms(4,5)] assms(3)
  unfolding check_authority_def by blast+

subsection \<open>Required authorities\<close>

definition granted :: "database \<Rightarrow> transaction_evaluation_state \<Rightarrow> classification \<Rightarrow> account_id_type \<Rightarrow> bool" where
  "granted db st c i = authorised db (signed_by st) (is_proposed_trx st) c i"

lemma granted_same: "same_trx st st' \<Longrightarrow> granted db st' c i = granted db st c i"
  by (simp add: granted_def same_trx_signed) (simp add: same_trx_def)

lemma verify_active_or_owner_sound:
  assumes "authorities_ok db" "verify_active_or_owner db i st = Some st'" "cache_ok db st" "\<not> skip_authority_check st"
  shows "same_trx st st' \<and> cache_ok db st' \<and> (granted db st active_auth i \<or> granted db st owner_auth i)"
proof -
  from assms(2) obtain ok st1 where a: "check_authority db i active_auth st = Some (ok, st1)"
    and r: "if ok then st' = st1 else check_authority db i owner_auth st1 = Some (True, st')"
    by (auto simp: verify_active_or_owner_def split: if_splits)
  note s1 = check_authority_sound [OF assms(1) _ a assms(3,4)]
  show ?thesis
  proof (cases ok)
    case True
    with r s1 show ?thesis by (simp add: granted_def)
  next
    case False
    have "\<not> skip_authority_check st1" using s1(1) assms(4) by (simp add: same_trx_def)
    note s2 = check_authority_sound [OF assms(1) _ r [simplified False if_False] s1(2) this]
    have "granted db st1 owner_auth i" using s2(3) by (simp add: granted_def)
    then show ?thesis using s1(1) s2 by (simp add: granted_same) (metis same_trx_trans)
  qed
qed

lemma verify_owner_sound:
  assumes "authorities_ok db" "verify_owner db i st = Some st'" "cache_ok db st" "\<not> skip_authority_check st"
  shows "same_trx st st' \<and> cache_ok db st' \<and> granted db st owner_auth i"
  using assms(2) check_authority_sound [OF assms(1) _ _ assms(3,4), of owner_auth i True st']
  by (auto simp: verify_owner_def granted_def)

text \<open>A run of checks over a list grants every element of it.\<close>

lemma fold_checks_sound:
  assumes step: "\<And>i st st'. f i st = Some st' \<Longrightarrow> cache_ok db st \<Longrightarrow> \<not> skip_authority_check st \<Longrightarrow>
      same_trx st st' \<and> cache_ok db st' \<and> P st i"
    and stable: "\<And>i st st'. same_trx st st' \<Longrightarrow> P st' i = P st i"
    and "fold_opt f xs st = Some st'" "cache_ok db st" "\<not> skip_authority_check st"
  shows "same_trx st st' \<and> cache_ok db st' \<and> (\<forall>i \<in> set xs. P st i)"
  using assms(3-5)
proof (induction xs arbitrary: st)
  case Nil
  then show ?case by simp
next
  case (Cons x xs)
  from Cons.prems(1) obtain st1 where f: "f x st = Some st1" "fold_opt f xs st1 = Some st'" by auto
  note s = step [OF f(1) Cons.prems(2,3)]
  then have "\<not> skip_authority_check st1" using Cons.prems(3) by (simp add: same_trx_def)
  with Cons.IH [OF f(2)] s stable show ?case by (auto intro: same_trx_trans)
qed

lemma check_required_authorities_sound:
  assumes "authorities_ok db" "check_required_authorities db op st = Some st'" "cache_ok db st"
    and "\<not> skip_authority_check st" "get_required_auth op ([], []) = (act, own)"
  shows "cache_ok db st'" "\<forall>i \<in> set act. granted db st active_auth i \<or> granted db st owner_auth i"
    "\<forall>i \<in> set own. granted db st owner_auth i" "same_trx st st'"
proof -
  from assms(2,5) obtain st1 where f: "fold_opt (verify_active_or_owner db) act st = Some st1"
    "fold_opt (verify_owner db) own st1 = Some st'" by (auto simp: check_required_authorities_def)
  have a: "same_trx st st1 \<and> cache_ok db st1 \<and> (\<forall>i \<in> set act. granted db st active_auth i \<or> granted db st owner_auth i)"
    by (rule fold_checks_sound [OF _ _ f(1) assms(3,4)])
      (use verify_active_or_owner_sound [OF assms(1)] in \<open>auto simp: granted_same\<close>)
  then have n: "\<not> skip_authority_check st1" using assms(4) by (simp add: same_trx_def)
  have b: "same_trx st1 st' \<and> cache_ok db st' \<and> (\<forall>i \<in> set own. granted db st1 owner_auth i)"
    by (rule fold_checks_sound [OF _ _ f(2) _ n])
      (use verify_owner_sound [OF assms(1)] a in \<open>auto simp: granted_same\<close>)
  show "cache_ok db st'" "\<forall>i \<in> set act. granted db st active_auth i \<or> granted db st owner_auth i"
    "\<forall>i \<in> set own. granted db st owner_auth i" "same_trx st st'"
    using a b by (auto simp: granted_same intro: same_trx_trans)
qed

subsection \<open>Enough keys suffice\<close>

definition key_entries :: "database \<Rightarrow> (object_id_type \<times> weight_type) list \<Rightarrow> bool" where
  "key_entries db xs \<longleftrightarrow> (\<forall>(i, w) \<in> set xs. oid_space i = protocol_ids \<and> oid_type i = key_object_type \<and>
     gi_find (keys db) (oid_instance i) \<noteq> None)"

definition signed_weight :: "transaction_evaluation_state \<Rightarrow> (object_id_type \<times> weight_type) list \<Rightarrow> int" where
  "signed_weight st xs = sum_list (map snd (filter (\<lambda>(i, w). signed_by st (oid_instance i)) xs))"

lemma signed_weight_simps [simp]:
  "signed_weight st [] = 0"
  "signed_weight st ((i, w) # xs) = (if signed_by st (oid_instance i) then w else 0) + signed_weight st xs"
  "signed_weight (approve j c st) xs = signed_weight st xs"
  by (simp_all add: signed_weight_def)

lemma signed_weight_range:
  "\<forall>w \<in> snd ` set xs. 0 \<le> w \<Longrightarrow> 0 \<le> signed_weight st xs \<and> signed_weight st xs \<le> sum_list (map snd xs)"
  by (induction xs) auto

lemma check_auths_keys:
  assumes "key_entries db xs" "\<forall>w \<in> snd ` set xs. 0 \<le> w" "0 \<le> tw" "tw + sum_list (map snd xs) < 2 ^ 32"
    and "threshold \<le> tw + signed_weight st xs" "xs \<noteq> []"
  shows "\<exists>st'. check_auths db sub acct c threshold xs tw st = Some (True, st')"
  using assms
proof (induction xs arbitrary: tw st)
  case Nil
  then show ?case by simp
next
  case (Cons p xs)
  obtain i w where p: "p = (i, w)" by (rule prod.exhaust)
  have i: "oid_space i = protocol_ids" "oid_type i = key_object_type" "gi_find (keys db) (oid_instance i) \<noteq> None"
    using Cons.prems(1) p by (auto simp: key_entries_def)
  have rest: "0 \<le> sum_list (map snd xs)" using Cons.prems(2) by (intro sum_list_nonneg) auto
  have w: "0 \<le> w" "uint32 (tw + w) = tw + w" using Cons.prems(2-4) p rest by auto
  note sw = signed_weight_range [of xs st]
  show ?case
  proof (cases "(i, c) \<in> set (approved_by st) \<or> signed_by st (oid_instance i)")
    case True
    define st1 where "st1 = (if (i, c) \<in> set (approved_by st) then st else approve i key_auth st)"
    have e: "check_auths db sub acct c threshold (p # xs) tw st =
        (if tw + w \<ge> threshold then Some (True, approve (account_oid acct) c st1)
         else check_auths db sub acct c threshold xs (tw + w) st1)"
      using True i w p by (auto simp: st1_def)
    have s1: "signed_weight st1 xs = signed_weight st xs" by (simp add: st1_def)
    show ?thesis
    proof (cases "tw + w \<ge> threshold")
      case False
      then have "xs \<noteq> []" using Cons.prems(5) w(1) p by (auto split: if_splits)
      moreover have "threshold \<le> tw + w + signed_weight st1 xs"
        using Cons.prems(5) w(1) p s1 by (auto split: if_splits)
      ultimately have "\<exists>st'. check_auths db sub acct c threshold xs (tw + w) st1 = Some (True, st')"
        using Cons.prems(1-4) p w(1) by (intro Cons.IH) (auto simp: key_entries_def)
      with e False show ?thesis by simp
    qed (simp add: e)
  next
    case no: False
    then have e: "check_auths db sub acct c threshold (p # xs) tw st =
        (if tw \<ge> threshold then Some (True, approve (account_oid acct) c st)
         else check_auths db sub acct c threshold xs tw st)"
      using i p by auto
    show ?thesis
    proof (cases "tw \<ge> threshold")
      case False
      then have "xs \<noteq> []" using Cons.prems(5) p no by auto
      then have "\<exists>st'. check_auths db sub acct c threshold xs tw st = Some (True, st')"
        using Cons.prems p w(1) no by (intro Cons.IH) (auto simp: key_entries_def)
      with e False show ?thesis by simp
    qed (simp add: e)
  qed
qed

subsection \<open>Properties\<close>

text \<open>
  C5. The authority check is sound: when \<open>check_authority\<close> answers yes for a transaction with an
  empty approval cache, the account is authorised, that is, the signing keys, and accounts that are
  themselves authorised, carry at least the threshold of its authority. Account 0, the genesis
  account, is only ever authorised in a proposed transaction.
\<close>

theorem authority_check_sound:
  assumes "authorities_ok db" "c \<noteq> key_auth" "approved_by st = []" "\<not> skip_authority_check st"
    and "check_authority db i c st = Some (True, st')"
  shows "authorised db (signed_by st) (is_proposed_trx st) c i"
  using check_authority_sound(3) [OF assms(1,2,5) _ assms(4)] assms(3) by (simp add: cache_ok_def)

text \<open>Carol's active authority needs Alice and Bob: both have signed.\<close>

definition sample_state :: "key_id_type list \<Rightarrow> transaction_evaluation_state" where
  "sample_state ks = \<lparr>approved_by = [], operation_results = [],
     es_trx = \<lparr>ref_block_num = 0, ref_block_prefix = 0, relative_expiration = 0, operations = [],
       signatures = map (\<lambda>k. (k, 0)) ks\<rparr>,
     skip_authority_check = False, is_proposed_trx = False\<rparr>"

lemma sample_authorities_ok: "authorities_ok sample_database"
  by (auto simp: authorities_ok_def sample_defs weights_ok_def less_Suc_eq numeral_nat nth_Cons' split: if_splits)

lemma authority_check_sound_witness:
  "authorised sample_database (signed_by (sample_state [1, 2])) False active_auth 3"
proof -
  have "map_option fst (check_authority sample_database 3 active_auth (sample_state [1, 2])) = Some True"
    by code_simp
  then obtain st' where "check_authority sample_database 3 active_auth (sample_state [1, 2]) = Some (True, st')"
    by auto
  from authority_check_sound [OF sample_authorities_ok _ _ _ this] show ?thesis by (simp add: sample_state_def)
qed

text \<open>
  C13. An operation that passes \<open>check_required_authorities\<close> on a transaction with an empty approval
  cache has every account it requires authorised: those of the active set by their active or owner
  authority, those of the owner set by their owner authority.
\<close>

theorem required_authorities_granted:
  assumes "authorities_ok db" "approved_by st = []" "\<not> skip_authority_check st"
    and "check_required_authorities db op st = Some st'" "get_required_auth op ([], []) = (act, own)"
  shows "list_all (\<lambda>i. granted db st active_auth i \<or> granted db st owner_auth i) act \<and>
    list_all (granted db st owner_auth) own"
  using check_required_authorities_sound(2,3) [OF assms(1,4) _ assms(3,5)] assms(2)
  by (simp add: cache_ok_def list_all_iff)

definition sample_transfer :: operation where
  "sample_transfer = Transfer_Op \<lparr>tr_fee = mk_asset 0 0, tr_from = 3, tr_to = 1, tr_amount = mk_asset 1 0,
     tr_memo = None\<rparr>"

lemma required_authorities_granted_witness:
  "list_all (\<lambda>i. granted sample_database (sample_state [1, 2]) active_auth i \<or>
     granted sample_database (sample_state [1, 2]) owner_auth i) [3]"
proof -
  have "check_required_authorities sample_database sample_transfer (sample_state [1, 2]) \<noteq> None"
    by code_simp
  then obtain st' where "check_required_authorities sample_database sample_transfer (sample_state [1, 2]) = Some st'"
    by auto
  moreover have "get_required_auth sample_transfer ([], []) = ([3], [])"
    by (simp add: sample_transfer_def fs_insert_def)
  moreover have "approved_by (sample_state [1, 2]) = []" "\<not> skip_authority_check (sample_state [1, 2])"
    by (simp_all add: sample_state_def)
  ultimately show ?thesis
    using required_authorities_granted [OF sample_authorities_ok] by blast
qed

text \<open>
  Signatures of enough weight are enough: an account whose authority consists of existing keys
  passes the check as soon as the weights of the keys that signed reach its threshold, in whatever
  order the keys are listed.
\<close>

theorem signatures_of_enough_weight_suffice:
  assumes "gi_find (accounts db) i = Some a" "authority_of c a = Some au" "i \<noteq> 0"
    and "auths au \<noteq> []" "key_entries db (auths au)" "weights_ok (auths au)"
    and "weight_threshold au \<le> signed_weight st (auths au)"
  shows "\<exists>st'. check_authority db i c st = Some (True, st')"
proof (cases "skip_authority_check st \<or> (account_oid i, c) \<in> set (approved_by st)")
  case True
  then show ?thesis by (simp add: check_authority_def check_authority_at.simps)
next
  case False
  let ?sub = "case BTS_MAX_SIG_CHECK_DEPTH of 0 \<Rightarrow> None | Suc m \<Rightarrow> Some (check_authority_at db c m)"
  have "\<exists>st'. check_auths db ?sub i c (weight_threshold au) (auths au) 0 st = Some (True, st')"
    using assms(4-7) by (intro check_auths_keys) (auto simp: weights_ok_def)
  with False assms(1-3) show ?thesis
    by (simp add: check_authority_def check_authority_at.simps [of db c BTS_MAX_SIG_CHECK_DEPTH])
qed

lemma signatures_of_enough_weight_suffice_witness:
  "\<exists>st'. check_authority sample_database 1 owner_auth (sample_state [1]) = Some (True, st')"
  by (rule signatures_of_enough_weight_suffice
      [where a = "sample_account 1 ''alice''" and au = "\<lparr>weight_threshold = 1, auths = [(key_oid 1, 1)]\<rparr>"])
    (simp_all add: sample_defs authority_of_def key_entries_def weights_ok_def sample_state_def signed_by_def
      key_oid_def oid_space_def oid_type_def oid_instance_def)

end
