(* ===== verification/Fees.thy ===== *)
theory Fees
  imports Ledger Op_Rules
begin

section \<open>Fees and cashback\<close>

text \<open>
  Models \<open>generic_evaluator::prepare_fee\<close> and \<open>pay_fee\<close> of \<^verbatim>\<open>libraries/chain/evaluator.cpp\<close> and
  \<open>database::deposit_cashback\<close> of \<^verbatim>\<open>database.cpp\<close>. The core fee is split between the network (the
  witnesses' share and the burned share, both collected on the core asset), the referrer and, for a
  prime account past the discount threshold, a cashback to the payer; referrer and payer are paid
  into vesting balances. The lemmas show the split exhaustive and account for every share.
\<close>

subsection \<open>Cashback (database.cpp)\<close>

definition deposit_cashback :: "account_id_type \<Rightarrow> share_type \<Rightarrow> database \<Rightarrow> database option" where
  "deposit_cashback acct_id amt db =
     (if amt = 0 then Some db
      else do {
        let global_vesting_seconds = cashback_vesting_period_seconds (parameters (gprops db));
        let now = head_block_time db;
        acct \<leftarrow> get_object (accounts db) acct_id;
        reuse \<leftarrow> (case acct_cashback_vb acct of
            None \<Rightarrow> Some None
          | Some v \<Rightarrow> do {
              vb \<leftarrow> get_object (vestings db) v;
              Some (case vb_policy vb of
                  Linear _ \<Rightarrow> None
                | Cdd p \<Rightarrow> if cd_vesting_seconds p \<noteq> global_vesting_seconds then None else Some v) });
        case reuse of
          Some v \<Rightarrow> do {
            t \<leftarrow> modify_object v (vb_deposit now (mk_asset amt 0)) (vestings db);
            Some (db\<lparr>vestings := t\<rparr>) }
        | None \<Rightarrow> do {
            (v, t) \<leftarrow> gi_create \<lparr>vb_owner = acct_id, vb_balance = mk_asset amt 0,
                vb_policy = Cdd \<lparr>cd_vesting_seconds = global_vesting_seconds, cd_coin_seconds_earned = 0,
                  cd_coin_seconds_earned_last_update = now\<rparr>\<rparr> (vestings db);
            a \<leftarrow> modify_object acct_id (\<lambda>x. Some (x\<lparr>acct_cashback_vb := Some v\<rparr>)) (accounts db);
            Some (db\<lparr>vestings := t, accounts := a\<rparr>) } })"

subsection \<open>Preparing and paying a fee (evaluator.cpp)\<close>

text \<open>The core amount of the fee, checked against the fee pool of the asset it is paid in.\<close>

definition prepare_fee :: "account_id_type \<Rightarrow> asset \<Rightarrow> database \<Rightarrow> share_type option" where
  "prepare_fee account fee db = do {
     fc_assert (amount fee \<ge> 0);
     payer \<leftarrow> get_object (accounts db) account;
     _ \<leftarrow> get_object (statistics db) (acct_statistics payer);
     fee_asset \<leftarrow> get_object (assets db) (asset_id fee);
     dyn \<leftarrow> get_object (asset_dyns db) (ao_dynamic_asset_data_id fee_asset);
     if asset_id fee = 0 then Some (amount fee)
     else do {
       fee_from_pool \<leftarrow> asset_mult fee (core_exchange_rate (ao_options fee_asset));
       fc_assert (asset_id fee_from_pool = 0);
       fc_assert (amount fee_from_pool \<le> dyn_fee_pool dyn);
       Some (amount fee_from_pool) } }"

text \<open>\<open>bulk_discount_percent\<close> is a \<open>uint64_t\<close>; the quotient is taken in signed 64 bit arithmetic.\<close>

definition bulk_discount_percent :: "chain_parameters \<Rightarrow> share_type \<Rightarrow> int" where
  "bulk_discount_percent p lifetime_fees =
     (if lifetime_fees > bulk_discount_threshold_max p then max_bulk_discount_percent_of_fee p
      else if bulk_discount_threshold_max p - bulk_discount_threshold_min p \<noteq> 0
      then uint64 (cdiv (int64 (max_bulk_discount_percent_of_fee p *
                          int64 (lifetime_fees - bulk_discount_threshold_min p)))
                        (int64 (bulk_discount_threshold_max p - bulk_discount_threshold_min p)))
      else 0)"

definition bulk_cashback :: "chain_parameters \<Rightarrow> bool \<Rightarrow> share_type \<Rightarrow> share_type \<Rightarrow> share_type" where
  "bulk_cashback p prime lifetime_fees core_fee =
     (if lifetime_fees > bulk_discount_threshold_min p \<and> prime
      then int64 (uint64 (core_fee * bulk_discount_percent p lifetime_fees) div BTS_100_PERCENT)
      else 0)"

record fee_split =
  split_bulk_cashback :: share_type
  split_core_fee_total :: share_type
  split_accumulated :: share_type
  split_burned :: share_type
  split_referral :: share_type

definition split_fee :: "chain_parameters \<Rightarrow> bool \<Rightarrow> share_type \<Rightarrow> share_type \<Rightarrow> fee_split option" where
  "split_fee p prime lifetime_fees core_fee = do {
     let cashback = bulk_cashback p prime lifetime_fees core_fee;
     core_fee_total \<leftarrow> share (core_fee - cashback);
     let accumulated = cdiv (int64 (core_fee_total * witness_percent_of_fee p)) BTS_100_PERCENT;
     let burned = cdiv (int64 (core_fee_total * burn_percent_of_fee p)) BTS_100_PERCENT;
     rest \<leftarrow> share (core_fee_total - accumulated);
     referral \<leftarrow> share (rest - burned);
     Some \<lparr>split_bulk_cashback = cashback, split_core_fee_total = core_fee_total,
       split_accumulated = accumulated, split_burned = burned, split_referral = referral\<rparr> }"

definition dyn_add_fees :: "share_type \<Rightarrow> asset_dynamic_data_object \<Rightarrow> asset_dynamic_data_object option" where
  "dyn_add_fees x d = do {
     s \<leftarrow> share (dyn_accumulated_fees d + x);
     Some (d\<lparr>dyn_accumulated_fees := s\<rparr>) }"

definition dyn_take_pool :: "share_type \<Rightarrow> asset_dynamic_data_object \<Rightarrow> asset_dynamic_data_object option" where
  "dyn_take_pool x d = do {
     s \<leftarrow> share (dyn_fee_pool d - x);
     Some (d\<lparr>dyn_fee_pool := s\<rparr>) }"

definition pay_fee :: "account_id_type \<Rightarrow> asset \<Rightarrow> share_type \<Rightarrow> database \<Rightarrow> database option" where
  "pay_fee account fee core_fee_paid db = do {
     payer \<leftarrow> get_object (accounts db) account;
     stats \<leftarrow> get_object (statistics db) (acct_statistics payer);
     s \<leftarrow> split_fee (parameters (gprops db)) (is_prime account payer) (st_lifetime_fees_paid stats) core_fee_paid;
     fee_asset \<leftarrow> get_object (assets db) (asset_id fee);
     db1 \<leftarrow> (if asset_id fee \<noteq> 0 then do {
               t \<leftarrow> modify_object (ao_dynamic_asset_data_id fee_asset)
                      (\<lambda>d. do { d' \<leftarrow> dyn_add_fees (amount fee) d; dyn_take_pool core_fee_paid d' }) (asset_dyns db);
               Some (db\<lparr>asset_dyns := t\<rparr>) }
             else Some db);
     network \<leftarrow> share (split_accumulated s + split_burned s);
     t2 \<leftarrow> modify_object 0 (dyn_add_fees network) (asset_dyns db1);
     st \<leftarrow> modify_object (acct_statistics payer)
            (\<lambda>x. do { l \<leftarrow> share (st_lifetime_fees_paid x + split_core_fee_total s);
                      Some (x\<lparr>st_lifetime_fees_paid := l\<rparr>) }) (statistics db1);
     let db2 = db1\<lparr>asset_dyns := t2, statistics := st\<rparr>;
     db3 \<leftarrow> deposit_cashback (acct_referrer payer) (split_referral s) db2;
     deposit_cashback account (split_bulk_cashback s) db3 }"

subsection \<open>The split\<close>

lemma split_fee_sum:
  "split_fee p prime l c = Some s \<Longrightarrow>
     split_accumulated s + split_burned s + split_referral s + split_bulk_cashback s = c \<and>
     split_core_fee_total s = c - split_bulk_cashback s"
  by (auto simp: split_fee_def Let_def)

lemma percent_of:
  fixes c :: int
  assumes "0 \<le> c" "c \<le> BTS_BLOCKCHAIN_MAX_SHARES * 9 div 10" "0 \<le> q" "q \<le> BTS_100_PERCENT"
  shows "int64_ok (c * q)" "uint64 (c * q) = c * q" "0 \<le> c * q div BTS_100_PERCENT"
    "c * q div BTS_100_PERCENT \<le> c"
proof -
  have "c * q \<le> 900000000000000 * 10000"
    using assms by (intro mult_mono) (simp_all add: BTS_100_PERCENT_def BTS_BLOCKCHAIN_MAX_SHARES_def)
  moreover have "0 \<le> c * q" using assms by simp
  ultimately show "int64_ok (c * q)" "uint64 (c * q) = c * q" by (simp_all add: int64_ok_def)
  show "0 \<le> c * q div BTS_100_PERCENT"
    using \<open>0 \<le> c * q\<close> by (simp add: BTS_100_PERCENT_def)
  have "c * q \<le> c * BTS_100_PERCENT" using assms by (intro mult_left_mono) auto
  then have "c * q div BTS_100_PERCENT \<le> c * BTS_100_PERCENT div BTS_100_PERCENT"
    by (intro zdiv_mono1) (simp_all add: BTS_100_PERCENT_def)
  then show "c * q div BTS_100_PERCENT \<le> c" by (simp add: BTS_100_PERCENT_def)
qed

lemma bulk_discount_percent_range:
  assumes "parameters_validate p" "0 \<le> max_bulk_discount_percent_of_fee p" "0 \<le> l"
    and "bulk_discount_threshold_min p < l" "int64_ok (bulk_discount_threshold_max p)"
    and "bulk_discount_threshold_max p \<le> BTS_BLOCKCHAIN_MAX_SHARES * 9 div 10"
  shows "0 \<le> bulk_discount_percent p l \<and> bulk_discount_percent p l \<le> max_bulk_discount_percent_of_fee p"
proof -
  let ?m = "max_bulk_discount_percent_of_fee p" and ?a = "bulk_discount_threshold_min p"
  let ?b = "bulk_discount_threshold_max p"
  have v: "?m \<le> BTS_100_PERCENT" "?a \<le> ?b" "0 < ?a"
    using assms(1) by (auto simp: parameters_validate_def)
  show ?thesis
  proof (cases "l > ?b")
    case True
    then show ?thesis using assms(2) by (simp add: bulk_discount_percent_def)
  next
    case False
    then have d: "0 \<le> l - ?a" "l - ?a \<le> ?b - ?a" "0 < ?b - ?a" using assms(4) by auto
    have r: "int64_ok (l - ?a)" "int64_ok (?b - ?a)" using d v assms(5) by (auto simp: int64_ok_def)
    have "int64_ok ((l - ?a) * ?m)"
      using percent_of(1) [of "l - ?a" ?m] d v assms(2,6) by simp
    then have "int64_ok (?m * (l - ?a))" by (simp only: mult.commute)
    then have e: "bulk_discount_percent p l = uint64 (?m * (l - ?a) div (?b - ?a))"
      using False d r assms(2) by (simp add: bulk_discount_percent_def cdiv_nonneg_eq)
    have "?m * (l - ?a) \<le> ?m * (?b - ?a)" using d assms(2) by (intro mult_left_mono) auto
    then have "?m * (l - ?a) div (?b - ?a) \<le> ?m * (?b - ?a) div (?b - ?a)"
      using d(3) by (intro zdiv_mono1) auto
    then have u: "?m * (l - ?a) div (?b - ?a) \<le> ?m" using d(3) by simp
    have n: "0 \<le> ?m * (l - ?a) div (?b - ?a)"
      using assms(2) d by (intro pos_imp_zdiv_nonneg_iff [THEN iffD2]) auto
    have "uint64 (?m * (l - ?a) div (?b - ?a)) = ?m * (l - ?a) div (?b - ?a)"
      using n u v(1) by (intro uint64_id) (simp_all add: BTS_100_PERCENT_def)
    with e n u show ?thesis by simp
  qed
qed

text \<open>Chain parameters in the ranges their C++ types and \<open>validate\<close> leave.\<close>

definition params_ok :: "chain_parameters \<Rightarrow> bool" where
  "params_ok p \<longleftrightarrow> parameters_validate p \<and> fees_ok (current_fees p) \<and>
     0 \<le> witness_percent_of_fee p \<and> 0 \<le> burn_percent_of_fee p \<and>
     0 \<le> max_bulk_discount_percent_of_fee p \<and> 0 < cashback_vesting_period_seconds p \<and>
     cashback_vesting_period_seconds p < 2 ^ 32 \<and>
     bulk_discount_threshold_max p \<le> BTS_BLOCKCHAIN_MAX_SHARES * 9 div 10"

lemma bulk_cashback_range:
  assumes "params_ok p" "0 \<le> c" "c \<le> BTS_BLOCKCHAIN_MAX_SHARES * 9 div 10" "0 \<le> l"
  shows "0 \<le> bulk_cashback p prime l c \<and> bulk_cashback p prime l c \<le> c"
proof (cases "l > bulk_discount_threshold_min p \<and> prime")
  case True
  have v: "max_bulk_discount_percent_of_fee p \<le> BTS_100_PERCENT"
    "bulk_discount_threshold_min p \<le> bulk_discount_threshold_max p" "0 < bulk_discount_threshold_min p"
    using assms(1) by (auto simp: params_ok_def parameters_validate_def)
  have i: "int64_ok (bulk_discount_threshold_max p)"
    using assms(1) v by (simp add: params_ok_def int64_ok_def BTS_BLOCKCHAIN_MAX_SHARES_def)
  have q: "0 \<le> bulk_discount_percent p l" "bulk_discount_percent p l \<le> BTS_100_PERCENT"
    using bulk_discount_percent_range [of p l] assms(1,4) True v i by (auto simp: params_ok_def)
  note pc = percent_of [OF assms(2,3) q]
  have "int64_ok (c * bulk_discount_percent p l div BTS_100_PERCENT)"
    using pc(3,4) assms(3) by (simp add: int64_ok_def BTS_BLOCKCHAIN_MAX_SHARES_def)
  with True pc show ?thesis by (simp add: bulk_cashback_def)
next
  case False
  with assms show ?thesis by (auto simp: bulk_cashback_def)
qed

lemma split_fee_range:
  assumes "params_ok p" "0 \<le> c" "c \<le> BTS_BLOCKCHAIN_MAX_SHARES * 9 div 10" "0 \<le> l"
  shows "\<exists>s. split_fee p prime l c = Some s \<and> 0 \<le> split_bulk_cashback s \<and> 0 \<le> split_accumulated s \<and>
    0 \<le> split_burned s \<and> 0 \<le> split_referral s \<and>
    split_accumulated s + split_burned s + split_referral s + split_bulk_cashback s = c"
proof -
  let ?cb = "bulk_cashback p prime l c"
  define t where "t = c - ?cb"
  have cb: "0 \<le> ?cb" "?cb \<le> c" using bulk_cashback_range [OF assms] by simp_all
  then have t: "0 \<le> t" "t \<le> BTS_BLOCKCHAIN_MAX_SHARES * 9 div 10" using assms(3) by (simp_all add: t_def)
  have v: "0 \<le> witness_percent_of_fee p" "0 \<le> burn_percent_of_fee p"
    "burn_percent_of_fee p + witness_percent_of_fee p \<le> BTS_100_PERCENT"
    using assms(1) by (auto simp: params_ok_def parameters_validate_def)
  let ?w = "witness_percent_of_fee p" and ?b = "burn_percent_of_fee p"
  have w: "?w \<le> BTS_100_PERCENT" and b: "?b \<le> BTS_100_PERCENT" using v by auto
  note pw = percent_of [OF t v(1) w] and pb = percent_of [OF t v(2) b]
  have wb: "t * ?w div BTS_100_PERCENT + t * ?b div BTS_100_PERCENT \<le> t"
  proof -
    have "t * ?w div BTS_100_PERCENT + t * ?b div BTS_100_PERCENT \<le> (t * ?w + t * ?b) div BTS_100_PERCENT"
      by (simp add: BTS_100_PERCENT_def)
    also have "t * ?w + t * ?b = t * (?b + ?w)" by (simp add: distrib_left)
    also have "t * (?b + ?w) div BTS_100_PERCENT \<le> t" using percent_of(4) [OF t, of "?b + ?w"] v by simp
    finally show ?thesis .
  qed
  have i: "int64_ok t" "int64_ok (t - t * ?w div BTS_100_PERCENT)"
    "int64_ok (t - t * ?w div BTS_100_PERCENT - t * ?b div BTS_100_PERCENT)"
    using t wb pw(3,4) pb(3,4) by (auto simp: int64_ok_def BTS_BLOCKCHAIN_MAX_SHARES_def)
  have cd: "cdiv (int64 (t * ?w)) BTS_100_PERCENT = t * ?w div BTS_100_PERCENT"
    "cdiv (int64 (t * ?b)) BTS_100_PERCENT = t * ?b div BTS_100_PERCENT"
    using pw(1) pb(1) t v by (simp_all add: cdiv_nonneg_eq BTS_100_PERCENT_def)
  let ?s = "\<lparr>split_bulk_cashback = ?cb, split_core_fee_total = t,
       split_accumulated = t * ?w div BTS_100_PERCENT, split_burned = t * ?b div BTS_100_PERCENT,
       split_referral = t - t * ?w div BTS_100_PERCENT - t * ?b div BTS_100_PERCENT\<rparr>"
  have "split_fee p prime l c = Some ?s"
    using i cd by (simp add: split_fee_def Let_def t_def)
  then show ?thesis using cb pw(3) pb(3) wb by (intro exI [of _ ?s]) (simp add: t_def)
qed

subsection \<open>What the payments do to the holdings\<close>

lemma deposit_cashback_cases:
  assumes "deposit_cashback i x db = Some db'"
  obtains (nothing) "x = 0" "db' = db"
  | (reuse) v t where "modify_object v (vb_deposit (head_block_time db) (mk_asset x 0)) (vestings db) = Some t"
      "db' = db\<lparr>vestings := t\<rparr>"
  | (new) v t act obj f where "gi_create obj (vestings db) = Some (v, t)" "vb_balance obj = mk_asset x 0"
      "modify_object i f (accounts db) = Some act" "db' = db\<lparr>vestings := t, accounts := act\<rparr>"
proof (cases "x = 0")
  case True
  with assms have "db' = db" by (simp add: deposit_cashback_def)
  with True show ?thesis by (rule nothing)
next
  case False
  with assms obtain acct r where r: "(case r of
          Some v \<Rightarrow> do {
            t \<leftarrow> modify_object v (vb_deposit (head_block_time db) (mk_asset x 0)) (vestings db);
            Some (db\<lparr>vestings := t\<rparr>) }
        | None \<Rightarrow> do {
            (v, t) \<leftarrow> gi_create \<lparr>vb_owner = i, vb_balance = mk_asset x 0,
                vb_policy = Cdd \<lparr>cd_vesting_seconds = cashback_vesting_period_seconds (parameters (gprops db)),
                  cd_coin_seconds_earned = 0,
                  cd_coin_seconds_earned_last_update = head_block_time db\<rparr>\<rparr> (vestings db);
            a \<leftarrow> modify_object i (\<lambda>x. Some (x\<lparr>acct_cashback_vb := Some v\<rparr>)) (accounts db);
            Some (db\<lparr>vestings := t, accounts := a\<rparr>) }) = Some db'"
    unfolding deposit_cashback_def Let_def Option.bind_eq_Some_conv get_object_gi if_not_P [OF False]
    by clarify
  show ?thesis
  proof (cases r)
    case None
    with r show ?thesis by (auto split: prod.splits intro: new)
  next
    case (Some v)
    with r show ?thesis by (auto intro: reuse)
  qed
qed

lemma deposit_cashback_holdings:
  assumes "deposit_cashback i x db = Some db'" "tables_ok db"
  shows "tables_ok db'" "holdings a db' = holdings a db + (if a = 0 then x else 0)"
    "supply_of a db' = supply_of a db"
proof -
  have inv: "gi_invar (vestings db)" "gi_invar (accounts db)" using assms(2) by (simp_all add: tables_ok_def)
  show "tables_ok db'"
    using assms(1) by (cases rule: deposit_cashback_cases)
      (simp_all add: assms(2) inv gi_invar_create [OF inv(1)]
         modify_object_invar)
  show "supply_of a db' = supply_of a db"
    using assms(1) by (cases rule: deposit_cashback_cases) (simp_all add: supply_of_def)
  show "holdings a db' = holdings a db + (if a = 0 then x else 0)"
    using assms(1)
  proof (cases rule: deposit_cashback_cases)
    case (reuse v t)
    from reuse(1) obtain o1 o2 where o: "gi_find (vestings db) v = Some o1"
      "vb_deposit (head_block_time db) (mk_asset x 0) o1 = Some o2"
      "t = gi_modify v (\<lambda>_. o2) (vestings db)" by (auto simp: modify_object_Some)
    then have "amount_of a (vb_balance o2) = amount_of a (vb_balance o1) + (if a = 0 then x else 0)"
      by (auto simp: vb_deposit_def amount_of_def)
    with o reuse(2) show ?thesis by (simp add: holdings_def in_balances_def tsum_modify [OF inv(1) o(1)])
  next
    case (new v t act obj)
    then show ?thesis
      by (simp add: holdings_def in_balances_def tsum_create [OF new(1)] amount_of_def)
  qed simp
qed

lemma dyn_add_fees_Some [simp]:
  "dyn_add_fees x d = Some d' \<longleftrightarrow> int64_ok (dyn_accumulated_fees d + x) \<and>
     d' = d\<lparr>dyn_accumulated_fees := dyn_accumulated_fees d + x\<rparr>"
  by (auto simp: dyn_add_fees_def)

lemma dyn_take_pool_Some [simp]:
  "dyn_take_pool x d = Some d' \<longleftrightarrow> int64_ok (dyn_fee_pool d - x) \<and>
     d' = d\<lparr>dyn_fee_pool := dyn_fee_pool d - x\<rparr>"
  by (auto simp: dyn_take_pool_def)

lemma pay_fee_holdings:
  assumes "pay_fee i fee core db = Some db'" "tables_ok db"
  shows "tables_ok db'" "holdings a db' = holdings a db + amount_of a fee +
      (if a = 0 \<and> asset_id fee = 0 then core - amount fee else 0)"
    "supply_of a db' = supply_of a db"
proof -
  from assms(1) obtain payer and stats :: account_statistics_object and s fee_asset db1 t2 f st db3 where
    p: "gi_find (accounts db) i = Some payer" "gi_find (assets db) (asset_id fee) = Some fee_asset"
    and s: "split_fee (parameters (gprops db)) (is_prime i payer) (st_lifetime_fees_paid stats) core = Some s"
    and db1: "(if asset_id fee \<noteq> 0 then do {
               t \<leftarrow> modify_object (ao_dynamic_asset_data_id fee_asset)
                      (\<lambda>d. do { d' \<leftarrow> dyn_add_fees (amount fee) d; dyn_take_pool core d' }) (asset_dyns db);
               Some (db\<lparr>asset_dyns := t\<rparr>) }
             else Some db) = Some db1"
    and t2: "modify_object 0 (dyn_add_fees (split_accumulated s + split_burned s)) (asset_dyns db1) = Some t2"
    and st: "modify_object (acct_statistics payer) f (statistics db1) = Some st"
    and db3: "deposit_cashback (acct_referrer payer) (split_referral s)
        (db1\<lparr>asset_dyns := t2, statistics := st\<rparr>) = Some db3"
    and db': "deposit_cashback i (split_bulk_cashback s) db3 = Some db'"
    unfolding pay_fee_def Let_def Option.bind_eq_Some_conv share_Some get_object_gi
    apply clarify
    apply (rule that)
    apply assumption+
    done
  note sum = split_fee_sum [OF s]
  have one: "tables_ok db1 \<and> holdings a db1 = holdings a db + (if asset_id fee = 0 then 0
      else amount_of a fee - (if a = 0 then core else 0)) \<and> supply_of a db1 = supply_of a db"
  proof (cases "asset_id fee = 0")
    case True
    with db1 assms(2) show ?thesis by simp
  next
    case False
    with db1 obtain t where t: "modify_object (ao_dynamic_asset_data_id fee_asset)
        (\<lambda>d. do { d' \<leftarrow> dyn_add_fees (amount fee) d; dyn_take_pool core d' }) (asset_dyns db) = Some t"
      "db1 = db\<lparr>asset_dyns := t\<rparr>" by auto
    have id: "ao_dynamic_asset_data_id fee_asset = asset_id fee"
      using tables_okD(12) [OF assms(2) p(2)] .
    have "tables_ok db1" "holdings a db1 = holdings a db + (if a = ao_dynamic_asset_data_id fee_asset then amount fee else 0) +
        (if a = 0 then - core else 0)" "supply_of a db1 = supply_of a db +
        (if a = ao_dynamic_asset_data_id fee_asset then 0 else 0)"
      unfolding t(2) by (rule holdings_dyns [OF assms(2) t(1)]; force)+
    with False show ?thesis by (simp add: amount_of_def id)
  qed
  then have ok1: "tables_ok db1" by simp
  let ?d2 = "db1\<lparr>asset_dyns := t2, statistics := st\<rparr>"
  have "tables_ok (db1\<lparr>asset_dyns := t2\<rparr>)" "holdings a (db1\<lparr>asset_dyns := t2\<rparr>) = holdings a db1 +
      (if a = 0 then split_accumulated s + split_burned s else 0) + (if a = 0 then 0 else 0)"
    "supply_of a (db1\<lparr>asset_dyns := t2\<rparr>) = supply_of a db1 + (if a = 0 then 0 else 0)"
    by (rule holdings_dyns [OF ok1 t2]; force)+
  then have two: "tables_ok ?d2" "supply_of a ?d2 = supply_of a db1" "holdings a ?d2 = holdings a db1 +
      (if a = 0 then split_accumulated s + split_burned s else 0)"
    using modify_object_invar [OF st] tables_okD(14) [OF ok1] by simp_all
  note three = deposit_cashback_holdings [OF db3 two(1)]
  note four = deposit_cashback_holdings [OF db' three(1)]
  show "tables_ok db'" by (rule four(1))
  show "supply_of a db' = supply_of a db" using four(3) three(3) two one by simp
  show "holdings a db' = holdings a db + amount_of a fee + (if a = 0 \<and> asset_id fee = 0 then core - amount fee else 0)"
    using four(2) three(2) two one sum by (auto simp: amount_of_def)
qed

lemma prepare_fee_core:
  "prepare_fee i fee db = Some core \<Longrightarrow> asset_id fee = 0 \<longrightarrow> core = amount fee"
  by (auto simp: prepare_fee_def)

lemma prepare_fee_nonneg:
  "prepare_fee i fee db = Some core \<Longrightarrow> 0 \<le> core \<and> 0 \<le> amount fee"
  by (auto simp: prepare_fee_def dest: asset_mult_range split: if_splits)

subsection \<open>Properties\<close>



text \<open>
  C2. Paying a fee creates and destroys nothing: in the asset the fee is paid in, exactly the fee
  appears on the books (to be matched by the debit of the payer), and in every other asset, in
  particular in the core asset drawn from the fee pool, the holdings are unchanged. The supply of no
  asset changes.
\<close>

theorem pay_fee_conserves:
  assumes "prepare_fee i fee db = Some core" "pay_fee i fee core db = Some db'" "tables_ok db"
  shows "holdings a db' = holdings a db + amount_of a fee \<and> supply_of a db' = supply_of a db \<and> tables_ok db'"
  using pay_fee_holdings [OF assms(2,3)] prepare_fee_core [OF assms(1)] by simp

text \<open>Alice pays 100000 units of asset 1, worth 200000 of core from its fee pool.\<close>

lemma pay_fee_conserves_witness:
  "\<exists>db'. pay_fee 1 (mk_asset 1000 1) 2000 sample_database = Some db' \<and>
     holdings 1 db' = holdings 1 sample_database + 1000 \<and> holdings 0 db' = holdings 0 sample_database"
proof -
  have "prepare_fee 1 (mk_asset 1000 1) sample_database = Some 2000"
    by (simp add: prepare_fee_def sample_defs asset_mult_def BTS_MAX_SHARE_SUPPLY_def u128_def to_uint64_def)
  moreover have "pay_fee 1 (mk_asset 1000 1) 2000 sample_database \<noteq> None"
    by code_simp
  ultimately show ?thesis
    using pay_fee_conserves [OF _ _ sample_tables_ok] by (fastforce simp: amount_of_def)
qed

end
