(* ===== verification/Evaluator.thy ===== *)
theory Evaluator
  imports Authority Fees
begin

section \<open>The evaluator template\<close>

text \<open>
  Models \<open>generic_evaluator::start_evaluate\<close> and the class template \<open>evaluator\<close> of
  \<^verbatim>\<open>libraries/chain/include/bts/chain/evaluator.hpp\<close>: the authorities of an operation are checked, its
  fee prepared and compared with the fee schedule, and the operation evaluated; then the fee is split,
  the operation applied, and the fee taken from the account that pays it. Every operation is a pair of a
  \<open>do_evaluate\<close>, which hands what it looked up to a \<open>do_apply\<close> (the members of the C++ evaluator; a pointer
  to an object is its id). Evaluation observers, whose exceptions the code suppresses, are left out, as is
  the evaluation without application, which nothing in the library asks for.

  The locale states what every operation owes the books; its lemma carries over to the whole template.
\<close>

type_synonym 'c evaluation =
  "share_type \<Rightarrow> transaction_evaluation_state \<Rightarrow> database \<Rightarrow> ('c \<times> share_type \<times> transaction_evaluation_state) option"

type_synonym 'c application =
  "'c \<Rightarrow> transaction_evaluation_state \<Rightarrow> database \<Rightarrow> (operation_result \<times> database) option"

definition start_evaluate ::
  "operation \<Rightarrow> 'c evaluation \<Rightarrow> 'c application \<Rightarrow> transaction_evaluation_state \<Rightarrow> database \<Rightarrow>
   (operation_result \<times> transaction_evaluation_state \<times> database) option" where
  "start_evaluate op do_evaluate do_apply st db = do {
     st1 \<leftarrow> check_required_authorities db op st;
     core_fee_paid \<leftarrow> prepare_fee (fee_payer op) (op_fee op) db;
     required \<leftarrow> calculate_fee op (current_fee_schedule db);
     fc_assert (core_fee_paid \<ge> required);
     (c, core, st2) \<leftarrow> do_evaluate core_fee_paid st1 db;
     db1 \<leftarrow> pay_fee (fee_payer op) (op_fee op) core db;
     (result, db2) \<leftarrow> do_apply c st2 db1;
     neg \<leftarrow> asset_neg (op_fee op);
     db3 \<leftarrow> adjust_balance (fee_payer op) neg db2;
     Some (result, st2, db3) }"

text \<open>Most evaluations read the database only and leave the fee as it is.\<close>

definition reading :: "(database \<Rightarrow> 'c option) \<Rightarrow> 'c evaluation" where
  "reading f core st db = map_option (\<lambda>c. (c, core, st)) (f db)"

definition applying :: "('c \<Rightarrow> database \<Rightarrow> (operation_result \<times> database) option) \<Rightarrow> 'c application" where
  "applying f c st db = f c db"

text \<open>\<open>object_id_type()\<close>, the result of operations that create nothing.\<close>

definition no_object :: operation_result where
  "no_object = Id_Result (0, 0, 0)"

definition protocol_result :: "nat \<Rightarrow> nat \<Rightarrow> operation_result" where
  "protocol_result t i = Id_Result (protocol_ids, t, i)"

subsection \<open>What an operation owes the books\<close>

text \<open>The database an operation is applied to: the one it was evaluated on, with its fee paid out.\<close>

definition fees_paid :: "database \<Rightarrow> database \<Rightarrow> bool" where
  "fees_paid db0 db \<longleftrightarrow> (\<exists>i fee core. pay_fee i fee core db0 = Some db)"

lemma fees_paidI: "pay_fee i fee core d = Some d' \<Longrightarrow> fees_paid d d'"
  by (auto simp: fees_paid_def)

definition same_books :: "database \<Rightarrow> database \<Rightarrow> bool" where
  "same_books db db' \<longleftrightarrow> tables_ok db' \<and> (\<forall>a. imbalance a db' = imbalance a db)"

lemma same_books_moves: "moves db db' h s \<Longrightarrow> (\<And>a. h a = s a) \<Longrightarrow> same_books db db'"
  by (simp add: same_books_def moves_imbalance movesD)

lemma same_books_refl: "tables_ok db \<Longrightarrow> same_books db db"
  by (simp add: same_books_def)

lemma same_books_trans: "same_books a b \<Longrightarrow> same_books b c \<Longrightarrow> same_books a c"
  by (simp add: same_books_def)

lemma deposit_cashback_rest:
  assumes "deposit_cashback i x db = Some db'" "\<And>t. g (db\<lparr>vestings := t\<rparr>) = g db"
    "\<And>t u. g (db\<lparr>vestings := t, accounts := u\<rparr>) = g db"
  shows "g db' = g db"
  using assms(1) by (cases rule: deposit_cashback_cases) (simp_all add: assms(2,3))

lemma pay_fee_rest:
  assumes "pay_fee i fee core db = Some db'"
    and g: "\<And>d t. g (d\<lparr>vestings := t\<rparr>) = g d" "\<And>d t u. g (d\<lparr>vestings := t, accounts := u\<rparr>) = g d"
      "\<And>d t. g (d\<lparr>asset_dyns := t\<rparr>) = g d" "\<And>d t. g (d\<lparr>statistics := t\<rparr>) = g d"
  shows "g db' = g db"
proof -
  from assms(1) obtain ast :: asset_object and db1 x y t2 st u v db3 where
    db1: "(if asset_id fee \<noteq> 0 then do {
               t \<leftarrow> modify_object (ao_dynamic_asset_data_id ast)
                      (\<lambda>d. do { d' \<leftarrow> dyn_add_fees (amount fee) d; dyn_take_pool core d' }) (asset_dyns db);
               Some (db\<lparr>asset_dyns := t\<rparr>) }
             else Some db) = Some db1"
    and db3: "deposit_cashback u x (db1\<lparr>asset_dyns := t2, statistics := st\<rparr>) = Some db3"
    and db': "deposit_cashback v y db3 = Some db'"
    unfolding pay_fee_def Let_def Option.bind_eq_Some_conv by (elim exE conjE) (rule that, assumption+)
  have "g db1 = g db" using db1 g(3) by (auto split: if_splits)
  moreover have "g db3 = g (db1\<lparr>asset_dyns := t2\<rparr>\<lparr>statistics := st\<rparr>)" by (rule deposit_cashback_rest [OF db3]; rule g)
  moreover have "g db' = g db3" by (rule deposit_cashback_rest [OF db']; rule g)
  ultimately show ?thesis by (simp only: g)
qed

lemma fees_paid_frame:
  assumes "fees_paid db0 db"
  shows "assets db = assets db0" "bitassets db = bitassets db0" "balances db = balances db0" "keys db = keys db0"
    "limit_orders db = limit_orders db0" "short_orders db = short_orders db0" "call_orders db = call_orders db0"
    "settlements db = settlements db0" "delegates db = delegates db0" "witnesses db = witnesses db0"
    "permissions db = permissions db0" "bonds db = bonds db0" "bond_offers db = bond_offers db0"
    "workers db = workers db0" "proposals db = proposals db0" "gprops db = gprops db0" "dprops db = dprops db0"
proof -
  obtain i fee core where p: "pay_fee i fee core db0 = Some db" using assms by (auto simp: fees_paid_def)
  show "assets db = assets db0" "bitassets db = bitassets db0" "balances db = balances db0" "keys db = keys db0"
    "limit_orders db = limit_orders db0" "short_orders db = short_orders db0" "call_orders db = call_orders db0"
    "settlements db = settlements db0" "delegates db = delegates db0" "witnesses db = witnesses db0"
    "permissions db = permissions db0" "bonds db = bonds db0" "bond_offers db = bond_offers db0"
    "workers db = workers db0" "proposals db = proposals db0" "gprops db = gprops db0" "dprops db = dprops db0"
    by (rule pay_fee_rest [OF p]; simp)+
qed

locale evaluator =
  fixes mk_op :: "'o \<Rightarrow> operation"
    and do_evaluate :: "'o \<Rightarrow> 'c evaluation"
    and do_apply :: "'o \<Rightarrow> 'c application"
    and pre :: "'o \<Rightarrow> database \<Rightarrow> bool"
  assumes apply_keeps_books: "pre o' db0 \<Longrightarrow> do_evaluate o' core st db0 = Some (c, core', st') \<Longrightarrow> fees_paid db0 db \<Longrightarrow>
      tables_ok db \<Longrightarrow> do_apply o' c st' db = Some (r, db') \<Longrightarrow>
      tables_ok db' \<and> (\<forall>a. imbalance a db' = imbalance a db + (if a = 0 then core - core' else 0))"
begin

text \<open>The whole operation, fee included.\<close>

lemma operation_keeps_books:
  assumes "start_evaluate (mk_op o') (do_evaluate o') (do_apply o') st db = Some (r, st', db')"
    and "tables_ok db" "pre o' db"
    and fee: "asset_id (op_fee (mk_op o')) = 0 \<or>
      (\<forall>core st c core' st'. do_evaluate o' core st db = Some (c, core', st') \<longrightarrow> core' = core)"
  shows "same_books db db'"
proof -
  let ?fee = "op_fee (mk_op o')" and ?i = "fee_payer (mk_op o')"
  obtain st1 core c core' db1 db2 neg where f: "prepare_fee ?i ?fee db = Some core"
    "do_evaluate o' core st1 db = Some (c, core', st')" "pay_fee ?i ?fee core' db = Some db1"
    "do_apply o' c st' db1 = Some (r, db2)" "asset_neg ?fee = Some neg" "adjust_balance ?i neg db2 = Some db'"
    using assms(1) unfolding start_evaluate_def Option.bind_eq_Some_conv
    by (auto simp del: asset_neg_Some)
  note p = pay_fee_holdings [OF f(3) assms(2)]
  have "fees_paid db db1" using f(3) by (auto simp: fees_paid_def)
  from apply_keeps_books [OF assms(3) f(2) this p(1) f(4)]
  have a: "tables_ok db2" "\<And>a. imbalance a db2 = imbalance a db1 + (if a = 0 then core - core' else 0)" by auto
  note m = moves_adjust [OF f(6) a(1)]
  have same: "asset_id ?fee = 0 \<or> core' = core" using fee f(2) by blast
  have one: "imbalance a db1 = imbalance a db + amount_of a ?fee +
      (if a = 0 \<and> asset_id ?fee = 0 then core' - amount ?fee else 0)" for a
    using p(2,3) [of a] by (simp add: imbalance_def)
  have "imbalance a db' = imbalance a db" for a
  proof -
    have "imbalance a db' = imbalance a db2 - amount_of a ?fee"
      using moves_imbalance [OF m, of a] f(5) by (auto simp: amount_of_def)
    also have "\<dots> = imbalance a db + (if a = 0 \<and> asset_id ?fee = 0 then core' - amount ?fee else 0) +
        (if a = 0 then core - core' else 0)"
      by (simp add: a(2) one)
    also have "\<dots> = imbalance a db" using prepare_fee_core [OF f(1)] same by auto
    finally show ?thesis .
  qed
  with movesD(1) [OF m] show ?thesis by (simp add: same_books_def)
qed

end

lemma reading_Some [simp]:
  "reading f core st db = Some (c, core', st') \<longleftrightarrow> f db = Some c \<and> core' = core \<and> st' = st"
  by (auto simp: reading_def)

lemma applying_simp [simp]: "applying f c st db = f c db"
  by (simp add: applying_def)

text \<open>What is left to show for an operation that leaves its fee alone.\<close>

lemma evaluator_reading:
  assumes "\<And>o' c db0 db r db'. pre o' db0 \<Longrightarrow> de o' db0 = Some c \<Longrightarrow> fees_paid db0 db \<Longrightarrow> tables_ok db \<Longrightarrow>
      da o' c db = Some (r, db') \<Longrightarrow> same_books db db'"
  shows "evaluator (\<lambda>o'. reading (de o')) (\<lambda>o'. applying (da o')) pre"
proof
  fix o' db0 core st c core' st' db r db'
  assume "pre o' db0" "reading (de o') core st db0 = Some (c, core', st')" "fees_paid db0 db" "tables_ok db"
    "applying (da o') c st' db = Some (r, db')"
  with assms [of o' db0 c db r db'] show "tables_ok db' \<and> (\<forall>a. imbalance a db' = imbalance a db + (if a = 0 then core - core' else 0))"
    by (simp add: same_books_def)
qed

lemma same_books_other:
  assumes "tables_ok db"
  shows "same_books db (db\<lparr>keys := t1\<rparr>)" "same_books db (db\<lparr>delegates := t2\<rparr>)" "same_books db (db\<lparr>permissions := t3\<rparr>)"
    "same_books db (db\<lparr>workers := t4\<rparr>)" "same_books db (db\<lparr>proposals := t5\<rparr>)" "same_books db (db\<lparr>bitassets := t6\<rparr>)"
    "same_books db (db\<lparr>gprops := g\<rparr>)" "same_books db (db\<lparr>applied_ops := ops\<rparr>)"
  using assms by (simp_all add: same_books_def imbalance_def)

text \<open>A payment between two accounts.\<close>

lemma same_books_payment:
  assumes "asset_neg x = Some n" "adjust_balance i n db = Some db1" "adjust_balance j x db1 = Some db2" "tables_ok db"
  shows "same_books db db2"
proof -
  note m1 = moves_adjust [OF assms(2,4)]
  show ?thesis
    by (rule same_books_moves [OF moves_trans [OF m1 moves_adjust [OF assms(3) movesD(1) [OF m1]]]])
      (use assms(1) in \<open>auto simp: amount_of_def\<close>)
qed

end
