(* ===== verification/Account_Ops.thy ===== *)
theory Account_Ops
  imports Evaluator
begin

unbundle bit_operations_syntax

section \<open>Accounts, keys and elected objects\<close>

text \<open>
  Models \<^verbatim>\<open>account_evaluator.cpp\<close>, \<^verbatim>\<open>key_evaluator.hpp\<close>, \<^verbatim>\<open>delegate_evaluator.cpp\<close>, \<^verbatim>\<open>witness_evaluator.cpp\<close>,
  \<^verbatim>\<open>worker_evaluator.cpp\<close> with the worker types of \<^verbatim>\<open>worker_object.cpp\<close>, \<^verbatim>\<open>global_parameters_evaluator.cpp\<close>
  and \<^verbatim>\<open>custom_evaluator.hpp\<close> under \<^verbatim>\<open>libraries/chain\<close>.
\<close>

definition delegate_object_type :: nat where "delegate_object_type = 6"
definition witness_object_type :: nat where "witness_object_type = 7"
definition worker_object_type :: nat where "worker_object_type = 19"
definition BTS_LEGACY_NAME_IMPORT_PERIOD :: int where "BTS_LEGACY_NAME_IMPORT_PERIOD = 3000000"

subsection \<open>Keys\<close>

definition key_create_do_apply :: "key_create_operation \<Rightarrow> database \<Rightarrow> (operation_result \<times> database) option" where
  "key_create_do_apply op d = do {
     (i, t) \<leftarrow> gi_create (kc_key_data op) (keys d);
     Some (protocol_result key_object_type i, d\<lparr>keys := t\<rparr>) }"

subsection \<open>Creating an account\<close>

definition authority_ids_exist :: "database \<Rightarrow> authority \<Rightarrow> bool" where
  "authority_ids_exist d a \<longleftrightarrow> list_all (\<lambda>(i, _). is_relative i \<or> object_exists d i) (auths a)"

definition find_account :: "string \<Rightarrow> database \<Rightarrow> (nat \<times> account_object) option" where
  "find_account n d = find_first (\<lambda>a. acct_name a = n) (accounts d)"

definition count_votes :: "vote_type \<Rightarrow> vote_id_type list \<Rightarrow> nat" where
  "count_votes t votes = length (filter (\<lambda>v. vote_type_of v = vote_type_code t) votes)"

text \<open>Names that contain a slash belong to the account named by what is before it.\<close>

definition check_child_account ::
  "account_create_operation \<Rightarrow> transaction_evaluation_state \<Rightarrow> database \<Rightarrow> transaction_evaluation_state option" where
  "check_child_account op st d =
     (if CHR ''/'' \<in> set (ac_name op) then do {
        (i, _) \<leftarrow> find_account (takeWhile (\<lambda>c. c \<noteq> CHR ''/'') (ac_name op)) d;
        (ok, st1) \<leftarrow> check_authority d i owner_auth st;
        fc_assert ok;
        fc_assert (account_oid i \<in> fst ` set (auths (ac_owner op)));
        Some st1 }
      else Some st)"

definition account_create_do_evaluate ::
  "account_create_operation \<Rightarrow> transaction_evaluation_state \<Rightarrow> database \<Rightarrow> transaction_evaluation_state option" where
  "account_create_do_evaluate op st d = do {
     fc_assert (gi_find (accounts d) (ac_voting_account op) \<noteq> None);
     fc_assert (is_relative (ac_memo_key op) \<or> object_exists d (ac_memo_key op));
     payer \<leftarrow> get_object (accounts d) (ac_registrar op);
     _ \<leftarrow> (if is_prime (ac_registrar op) payer then do {
            r \<leftarrow> get_object (accounts d) (ac_referrer op);
            fc_assert (is_prime (ac_referrer op) r) }
          else do {
            fc_assert (ac_referrer op = acct_referrer payer);
            fc_assert (ac_referrer_percent op = acct_referrer_percent payer) });
     let max_vote_id = next_available_vote_id (gprops d);
     let p = parameters (gprops d);
     fc_assert (ac_num_witness op \<le> maximum_witness_count p);
     fc_assert (ac_num_committee op \<le> maximum_committee_count p);
     fc_assert (int (length (auths (ac_owner op))) \<le> maximum_authority_membership p);
     fc_assert (int (length (auths (ac_active op))) \<le> maximum_authority_membership p);
     fc_assert (authority_ids_exist d (ac_owner op));
     fc_assert (authority_ids_exist d (ac_active op));
     fc_assert (list_all (\<lambda>v. uint (vote_instance v) < max_vote_id) (ac_vote op));
     fc_assert (int (count_votes witness (ac_vote op)) \<le> ac_num_witness op);
     fc_assert (int (count_votes committee (ac_vote op)) \<le> ac_num_committee op);
     fc_assert (ac_name op \<noteq> [] \<longrightarrow> find_account (ac_name op) d = None);
     fc_assert (head_block_number (dprops d) < BTS_LEGACY_NAME_IMPORT_PERIOD \<longrightarrow>
       (case find_account (''bts-'' @ ac_name op) d of None \<Rightarrow> True | Some (i, _) \<Rightarrow> ac_registrar op = i));
     check_child_account op st d }"

definition account_create_do_apply ::
  "account_create_operation \<Rightarrow> transaction_evaluation_state \<Rightarrow> database \<Rightarrow> (operation_result \<times> database) option" where
  "account_create_do_apply op st d = do {
     owner \<leftarrow> resolve_relative_ids d st (ac_owner op);
     active \<leftarrow> resolve_relative_ids d st (ac_active op);
     (s, t) \<leftarrow> gi_create \<lparr>st_most_recent_op = 0, st_total_core_in_orders = 0, st_lifetime_fees_paid = 0\<rparr> (statistics d);
     let d1 = d\<lparr>statistics := t\<rparr>;
     payer \<leftarrow> get_object (accounts d1) (ac_registrar op);
     let prime = is_prime (ac_registrar op) payer;
     memo_key \<leftarrow> get_relative_id d1 st (ac_memo_key op);
     (i, u) \<leftarrow> gi_create \<lparr>acct_registrar = (if prime then ac_registrar op else acct_registrar payer),
         acct_referrer = (if prime then ac_referrer op else acct_referrer payer),
         acct_referrer_percent = (if prime then ac_referrer_percent op else acct_referrer_percent payer),
         acct_name = ac_name op, acct_owner = owner, acct_active = active, acct_memo_key = oid_instance memo_key,
         acct_voting_account = ac_voting_account op, acct_num_witness = ac_num_witness op,
         acct_num_committee = ac_num_committee op, acct_votes = ac_vote op, acct_statistics = s,
         acct_whitelisting_accounts = [], acct_blacklisting_accounts = [], acct_cashback_vb = None\<rparr> (accounts d1);
     Some (protocol_result account_object_type i, d1\<lparr>accounts := u\<rparr>) }"

subsection \<open>Updating and listing accounts\<close>

definition account_update_do_evaluate :: "account_update_operation \<Rightarrow> database \<Rightarrow> unit option" where
  "account_update_do_evaluate op d = do {
     fc_assert (case au_memo_key op of None \<Rightarrow> True | Some k \<Rightarrow> is_relative k \<or> object_exists d k);
     let p = parameters (gprops d);
     fc_assert (au_num_witness op \<le> maximum_witness_count p);
     fc_assert (au_num_committee op \<le> maximum_committee_count p);
     fc_assert (case au_owner op of None \<Rightarrow> True
       | Some a \<Rightarrow> int (length (auths a)) \<le> maximum_authority_membership p \<and> authority_ids_exist d a);
     fc_assert (case au_active op of None \<Rightarrow> True
       | Some a \<Rightarrow> int (length (auths a)) \<le> maximum_authority_membership p \<and> authority_ids_exist d a);
     acnt \<leftarrow> get_object (accounts d) (au_account op);
     fc_assert (au_upgrade_to_prime op \<longrightarrow> \<not> is_prime (au_account op) acnt);
     fc_assert (case au_vote op of None \<Rightarrow> True
       | Some votes \<Rightarrow> list_all (\<lambda>v. uint (vote_instance v) < next_available_vote_id (gprops d)) votes);
     Some () }"

definition account_update_do_apply :: "account_update_operation \<Rightarrow> database \<Rightarrow> (operation_result \<times> database) option" where
  "account_update_do_apply op d = do {
     t \<leftarrow> modify_object (au_account op) (\<lambda>a. Some (a\<lparr>
        acct_owner := (case au_owner op of None \<Rightarrow> acct_owner a | Some x \<Rightarrow> x),
        acct_active := (case au_active op of None \<Rightarrow> acct_active a | Some x \<Rightarrow> x),
        acct_voting_account := (case au_voting_account op of None \<Rightarrow> acct_voting_account a | Some x \<Rightarrow> x),
        acct_memo_key := (case au_memo_key op of None \<Rightarrow> acct_memo_key a | Some x \<Rightarrow> oid_instance x),
        acct_votes := (case au_vote op of None \<Rightarrow> acct_votes a | Some x \<Rightarrow> x),
        acct_referrer_percent := (if au_upgrade_to_prime op then 100 else acct_referrer_percent a),
        acct_referrer := (if au_upgrade_to_prime op then au_account op else acct_referrer a),
        acct_num_witness := au_num_witness op,
        acct_num_committee := au_num_committee op\<rparr>)) (accounts d);
     Some (no_object, d\<lparr>accounts := t\<rparr>) }"

definition white_listed :: int where "white_listed = 0x1"
definition black_listed :: int where "black_listed = 0x2"

definition account_whitelist_do_evaluate :: "account_whitelist_operation \<Rightarrow> database \<Rightarrow> unit option" where
  "account_whitelist_do_evaluate op d = do {
     listed \<leftarrow> get_object (accounts d) (aw_account_to_list op);
     fc_assert (\<not> allow_non_prime_whitelists (parameters (gprops d)) \<longrightarrow> is_prime (aw_account_to_list op) listed);
     Some () }"

definition account_whitelist_do_apply :: "account_whitelist_operation \<Rightarrow> database \<Rightarrow> (operation_result \<times> database) option" where
  "account_whitelist_do_apply op d = do {
     let change = (\<lambda>m xs. if has_flag (aw_new_listing op) m then fs_insert (aw_authorizing_account op) xs
                          else fs_erase (aw_authorizing_account op) xs);
     t \<leftarrow> modify_object (aw_account_to_list op) (\<lambda>a. Some (a\<lparr>
        acct_whitelisting_accounts := change white_listed (acct_whitelisting_accounts a),
        acct_blacklisting_accounts := change black_listed (acct_blacklisting_accounts a)\<rparr>)) (accounts d);
     Some (no_object, d\<lparr>accounts := t\<rparr>) }"

subsection \<open>Delegates and witnesses\<close>

definition prime_account :: "account_id_type \<Rightarrow> database \<Rightarrow> unit option" where
  "prime_account i d = do {
     a \<leftarrow> get_object (accounts d) i;
     fc_assert (is_prime i a) }"

definition delegate_create_do_apply :: "delegate_create_operation \<Rightarrow> database \<Rightarrow> (operation_result \<times> database) option" where
  "delegate_create_do_apply op d = do {
     let (vote_id, g) = get_next_vote_id committee (gprops d);
     (i, t) \<leftarrow> gi_create \<lparr>del_delegate_account = dc_delegate_account op, del_vote_id = vote_id\<rparr> (delegates d);
     Some (protocol_result delegate_object_type i, d\<lparr>gprops := g, delegates := t\<rparr>) }"

definition witness_create_do_apply :: "witness_create_operation \<Rightarrow> database \<Rightarrow> (operation_result \<times> database) option" where
  "witness_create_do_apply op d = do {
     let (vote_id, g) = get_next_vote_id witness (gprops d);
     (i, t) \<leftarrow> gi_create \<lparr>wit_witness_account = wc_witness_account op, wit_signing_key = wc_block_signing_key op,
        wit_next_secret = wc_initial_secret op, wit_last_secret = 0, wit_accumulated_income = 0,
        wit_vote_id = vote_id\<rparr> (witnesses d);
     Some (protocol_result witness_object_type i, d\<lparr>gprops := g, witnesses := t\<rparr>) }"

definition witness_withdraw_pay_do_evaluate :: "witness_withdraw_pay_operation \<Rightarrow> database \<Rightarrow> unit option" where
  "witness_withdraw_pay_do_evaluate op d = do {
     w \<leftarrow> get_object (witnesses d) (ww_from_witness op);
     fc_assert (ww_to_account op = wit_witness_account w);
     fc_assert (ww_amount op \<le> wit_accumulated_income w);
     _ \<leftarrow> get_object (accounts d) (ww_to_account op);
     Some () }"

definition witness_withdraw_pay_do_apply :: "witness_withdraw_pay_operation \<Rightarrow> database \<Rightarrow> (operation_result \<times> database) option" where
  "witness_withdraw_pay_do_apply op d = do {
     d1 \<leftarrow> adjust_balance (ww_to_account op) (mk_asset (ww_amount op) 0) d;
     t \<leftarrow> modify_object (ww_from_witness op) (\<lambda>w. do {
            x \<leftarrow> share (wit_accumulated_income w - ww_amount op);
            Some (w\<lparr>wit_accumulated_income := x\<rparr>) }) (witnesses d1);
     Some (no_object, d1\<lparr>witnesses := t\<rparr>) }"

subsection \<open>Workers\<close>

definition worker_create_do_evaluate :: "worker_create_operation \<Rightarrow> database \<Rightarrow> unit option" where
  "worker_create_do_evaluate op d = do {
     prime_account (wk_owner op) d;
     fc_assert (wk_work_begin_date op \<ge> head_block_time d);
     Some () }"

definition initialize_worker :: "worker_initializer \<Rightarrow> account_id_type \<Rightarrow> database \<Rightarrow> (worker_type \<times> database) option" where
  "initialize_worker init owner d = (case init of
     Refund_Initializer \<Rightarrow> Some (Refund_Worker 0, d)
   | Vesting_Initializer days \<Rightarrow> do {
       (b, t) \<leftarrow> gi_create \<lparr>vb_owner = owner, vb_balance = mk_asset 0 0,
          vb_policy = Cdd \<lparr>cd_vesting_seconds = days * (60 * 60 * 24), cd_coin_seconds_earned = 0,
            cd_coin_seconds_earned_last_update = head_block_time d\<rparr>\<rparr> (vestings d);
       Some (Vesting_Balance_Worker b, d\<lparr>vestings := t\<rparr>) })"

definition worker_create_do_apply :: "worker_create_operation \<Rightarrow> database \<Rightarrow> (operation_result \<times> database) option" where
  "worker_create_do_apply op d = do {
     let (for_id, g1) = get_next_vote_id worker (gprops d);
     let (against_id, g2) = get_next_vote_id worker g1;
     (w, d1) \<leftarrow> initialize_worker (wk_initializer op) (wk_owner op) (d\<lparr>gprops := g2\<rparr>);
     (i, t) \<leftarrow> gi_create \<lparr>wo_worker_account = wk_owner op, wo_work_begin_date = wk_work_begin_date op,
        wo_work_end_date = wk_work_end_date op, wo_daily_pay = wk_daily_pay op, wo_worker = w,
        wo_vote_for = for_id, wo_vote_against = against_id\<rparr> (workers d1);
     Some (protocol_result worker_object_type i, d1\<lparr>workers := t\<rparr>) }"

subsection \<open>Parameters\<close>

definition global_parameters_update_do_evaluate ::
  "global_parameters_update_operation \<Rightarrow> transaction_evaluation_state \<Rightarrow> unit option" where
  "global_parameters_update_do_evaluate op st = fc_assert (is_proposed_trx st)"

definition global_parameters_update_do_apply ::
  "global_parameters_update_operation \<Rightarrow> database \<Rightarrow> (operation_result \<times> database) option" where
  "global_parameters_update_do_apply op d =
     Some (no_object, d\<lparr>gprops := (gprops d)\<lparr>pending_parameters := Some (gp_new_parameters op)\<rparr>\<rparr>)"

subsection \<open>The books\<close>

lemma same_books_accounts:
  assumes "tables_ok d" "gi_invar t"
  shows "same_books d (d\<lparr>accounts := t\<rparr>)"
  using assms by (simp add: same_books_def imbalance_def)

lemma same_books_statistics:
  assumes "tables_ok d" "gi_invar t"
  shows "same_books d (d\<lparr>statistics := t\<rparr>)"
  using assms by (simp add: same_books_def imbalance_def)

interpretation key_create: evaluator Key_Create_Op "\<lambda>op. reading (\<lambda>_. Some ())"
    "\<lambda>op. applying (\<lambda>_. key_create_do_apply op)" "\<lambda>_ _. True"
  by (rule evaluator_reading) (auto simp: key_create_do_apply_def intro: same_books_other)

interpretation custom: evaluator Custom_Op "\<lambda>op. reading (\<lambda>_. Some ())"
    "\<lambda>op. applying (\<lambda>_ d. Some (no_object, d))" "\<lambda>_ _. True"
  by (rule evaluator_reading) (auto intro: same_books_refl)

lemma account_create_keeps_books:
  assumes "account_create_do_apply op st d = Some (r, d')" "tables_ok d"
  shows "same_books d d'"
proof -
  obtain y s t z i u where f: "gi_create (y :: account_statistics_object) (statistics d) = Some (s, t)"
    "gi_create (z :: account_object) (accounts (d\<lparr>statistics := t\<rparr>)) = Some (i, u)" "d' = d\<lparr>statistics := t\<rparr>\<lparr>accounts := u\<rparr>"
    using assms(1) unfolding account_create_do_apply_def Let_def by auto
  have 1: "same_books d (d\<lparr>statistics := t\<rparr>)"
    by (rule same_books_statistics [OF assms(2) gi_invar_create [OF tables_okD(14) [OF assms(2)] f(1)]])
  then have ok: "tables_ok (d\<lparr>statistics := t\<rparr>)" by (simp add: same_books_def)
  show ?thesis unfolding f(3)
    by (rule same_books_trans [OF 1 same_books_accounts [OF ok gi_invar_create [OF tables_okD(13) [OF ok] f(2)]]])
qed

definition account_create_evaluation :: "account_create_operation \<Rightarrow> unit evaluation" where
  "account_create_evaluation op core st db = map_option (\<lambda>st'. ((), core, st')) (account_create_do_evaluate op st db)"

interpretation account_create: evaluator Account_Create_Op account_create_evaluation
    "\<lambda>op _. account_create_do_apply op" "\<lambda>_ _. True"
  by unfold_locales (auto simp: account_create_evaluation_def same_books_def dest: account_create_keeps_books)

lemma account_update_keeps_books:
  "tables_ok d \<Longrightarrow> account_update_do_apply op d = Some (r, d') \<Longrightarrow> same_books d d'"
  unfolding account_update_do_apply_def
  by (auto intro!: same_books_accounts simp: modify_object_invar tables_okD)

interpretation account_update: evaluator Account_Update_Op "\<lambda>op. reading (account_update_do_evaluate op)"
    "\<lambda>op. applying (\<lambda>_. account_update_do_apply op)" "\<lambda>_ _. True"
  by (rule evaluator_reading) (rule account_update_keeps_books)

lemma account_whitelist_keeps_books:
  "tables_ok d \<Longrightarrow> account_whitelist_do_apply op d = Some (r, d') \<Longrightarrow> same_books d d'"
  unfolding account_whitelist_do_apply_def Let_def
  by (auto intro!: same_books_accounts simp: modify_object_invar tables_okD)

interpretation account_whitelist: evaluator Account_Whitelist_Op "\<lambda>op. reading (account_whitelist_do_evaluate op)"
    "\<lambda>op. applying (\<lambda>_. account_whitelist_do_apply op)" "\<lambda>_ _. True"
  by (rule evaluator_reading) (rule account_whitelist_keeps_books)

lemma same_books_gprops: "tables_ok d \<Longrightarrow> same_books (d\<lparr>gprops := g\<rparr>) d' \<Longrightarrow> same_books d d'"
  by (rule same_books_trans [OF same_books_other(7)])

interpretation delegate_create: evaluator Delegate_Create_Op "\<lambda>op. reading (prime_account (dc_delegate_account op))"
    "\<lambda>op. applying (\<lambda>_. delegate_create_do_apply op)" "\<lambda>_ _. True"
  by (rule evaluator_reading)
    (auto simp: delegate_create_do_apply_def split: prod.splits
      intro!: same_books_gprops [OF _ same_books_other(2)])

lemma witness_create_keeps_books:
  assumes "tables_ok d" "witness_create_do_apply op d = Some (r, d')"
  shows "same_books d d'"
proof -
  obtain g y i t where f: "gi_create y (witnesses d) = Some (i, t)" "wit_accumulated_income y = 0"
    "d' = d\<lparr>gprops := g\<rparr>\<lparr>witnesses := t\<rparr>"
    using assms(2) unfolding witness_create_do_apply_def by (auto split: prod.splits)
  have "same_books (d\<lparr>gprops := g\<rparr>) d'" unfolding f(3)
    by (rule same_books_moves [OF moves_create(8)]) (use f(1,2) assms(1) in auto)
  then show ?thesis by (rule same_books_gprops [OF assms(1)])
qed

interpretation witness_create: evaluator Witness_Create_Op "\<lambda>op. reading (prime_account (wc_witness_account op))"
    "\<lambda>op. applying (\<lambda>_. witness_create_do_apply op)" "\<lambda>_ _. True"
  by (rule evaluator_reading) (rule witness_create_keeps_books)

lemma witness_withdraw_pay_keeps_books:
  assumes "tables_ok d" "witness_withdraw_pay_do_apply op d = Some (r, d')"
  shows "same_books d d'"
proof -
  obtain d1 w w' t where f: "adjust_balance (ww_to_account op) (mk_asset (ww_amount op) 0) d = Some d1"
    "modify_object (ww_from_witness op) (\<lambda>w. do { x \<leftarrow> share (wit_accumulated_income w - ww_amount op);
            Some (w\<lparr>wit_accumulated_income := x\<rparr>) }) (witnesses d1) = Some t"
    "d' = d1\<lparr>witnesses := t\<rparr>" "gi_find (witnesses d1) (ww_from_witness op) = Some w"
    "do { x \<leftarrow> share (wit_accumulated_income w - ww_amount op); Some (w\<lparr>wit_accumulated_income := x\<rparr>) } = Some w'"
    using assms(2) unfolding witness_withdraw_pay_do_apply_def by (auto simp: modify_object_Some)
  note m1 = moves_adjust [OF f(1) assms(1)]
  show ?thesis unfolding f(3)
    by (rule same_books_moves [OF moves_trans [OF m1 moves_modify(8) [OF f(2) movesD(1) [OF m1] f(4,5)]]])
      (use f(5) in \<open>auto simp: amount_of_def\<close>)
qed

interpretation witness_withdraw_pay: evaluator Witness_Withdraw_Pay_Op
    "\<lambda>op. reading (witness_withdraw_pay_do_evaluate op)"
    "\<lambda>op. applying (\<lambda>_. witness_withdraw_pay_do_apply op)" "\<lambda>_ _. True"
  by (rule evaluator_reading) (rule witness_withdraw_pay_keeps_books)

lemma worker_create_keeps_books:
  assumes "tables_ok d" "worker_create_do_apply op d = Some (r, d')"
  shows "same_books d d'"
proof -
  obtain g w d1 i t y where f: "initialize_worker (wk_initializer op) (wk_owner op) (d\<lparr>gprops := g\<rparr>) = Some (w, d1)"
    "d' = d1\<lparr>workers := t\<rparr>"
    using assms(2) unfolding worker_create_do_apply_def Let_def by (auto split: prod.splits)
  have "same_books (d\<lparr>gprops := g\<rparr>) d1"
    using f(1) assms(1) unfolding initialize_worker_def
    by (cases "wk_initializer op") (auto intro!: same_books_refl same_books_moves [OF moves_create(5)])
  then have "same_books d d1" by (rule same_books_gprops [OF assms(1)])
  moreover have "same_books d1 d'" unfolding f(2) using calculation by (intro same_books_other) (simp add: same_books_def)
  ultimately show ?thesis by (rule same_books_trans)
qed

interpretation worker_create: evaluator Worker_Create_Op "\<lambda>op. reading (worker_create_do_evaluate op)"
    "\<lambda>op. applying (\<lambda>_. worker_create_do_apply op)" "\<lambda>_ _. True"
  by (rule evaluator_reading) (rule worker_create_keeps_books)

definition global_parameters_update_evaluation :: "global_parameters_update_operation \<Rightarrow> unit evaluation" where
  "global_parameters_update_evaluation op core st db =
     map_option (\<lambda>_. ((), core, st)) (global_parameters_update_do_evaluate op st)"

interpretation global_parameters_update: evaluator Global_Parameters_Update_Op global_parameters_update_evaluation
    "\<lambda>op. applying (\<lambda>_. global_parameters_update_do_apply op)" "\<lambda>_ _. True"
  by unfold_locales (auto simp: global_parameters_update_evaluation_def global_parameters_update_do_apply_def imbalance_def)

end
