(* ===== verification/Contract_Ops.thy ===== *)
theory Contract_Ops
  imports Evaluator
begin

section \<open>Vesting balances, withdrawal permissions and bonds\<close>

text \<open>
  Models \<^verbatim>\<open>vesting_balance_evaluator.cpp\<close>, \<^verbatim>\<open>withdraw_permission_evaluator.cpp\<close> and \<^verbatim>\<open>bond_evaluator.cpp\<close>
  under \<^verbatim>\<open>libraries/chain\<close>. Times are \<open>uint32\<close> seconds, so the sums the code stores in a \<open>time_point_sec\<close>
  are written with their wrap-around; a division by zero, which stops the node, is a failed operation.
\<close>

definition withdraw_permission_object_type :: nat where "withdraw_permission_object_type = 14"
definition bond_offer_object_type :: nat where "bond_offer_object_type = 15"
definition bond_object_type :: nat where "bond_object_type = 16"
definition vesting_balance_object_type :: nat where "vesting_balance_object_type = 18"

subsection \<open>Vesting balances\<close>

definition vesting_balance_create_do_evaluate :: "vesting_balance_create_operation \<Rightarrow> database \<Rightarrow> unit option" where
  "vesting_balance_create_do_evaluate op d = do {
     _ \<leftarrow> get_object (accounts d) (vc_creator op);
     _ \<leftarrow> get_object (accounts d) (vc_owner op);
     fc_assert (amount (vc_amount op) > 0);
     enough \<leftarrow> asset_ge (get_balance (vc_creator op) (asset_id (vc_amount op)) d) (vc_amount op);
     fc_assert enough;
     a \<leftarrow> get_object (assets d) (asset_id (vc_amount op));
     fc_assert (\<not> is_transfer_restricted a);
     fc_assert (\<not> is_market_issued a);
     Some () }"

definition vesting_balance_create_do_apply ::
  "vesting_balance_create_operation \<Rightarrow> database \<Rightarrow> (operation_result \<times> database) option" where
  "vesting_balance_create_do_apply op d = do {
     let now = head_block_time d;
     neg \<leftarrow> asset_neg (vc_amount op);
     d1 \<leftarrow> adjust_balance (vc_creator op) neg d;
     (i, t) \<leftarrow> gi_create \<lparr>vb_owner = vc_owner op, vb_balance = vc_amount op,
        vb_policy = Cdd \<lparr>cd_vesting_seconds = vc_vesting_seconds op, cd_coin_seconds_earned = 0,
          cd_coin_seconds_earned_last_update = now\<rparr>\<rparr> (vestings d1);
     let d2 = d1\<lparr>vestings := t\<rparr>;
     enough \<leftarrow> asset_ge (get_balance (vc_creator op) (asset_id (vc_amount op)) d2) (vc_amount op);
     fc_assert enough;
     Some (protocol_result vesting_balance_object_type i, d2) }"

definition vesting_balance_withdraw_do_evaluate :: "vesting_balance_withdraw_operation \<Rightarrow> database \<Rightarrow> unit option" where
  "vesting_balance_withdraw_do_evaluate op d = do {
     vbo \<leftarrow> get_object (vestings d) (vw_vesting_balance op);
     fc_assert (vw_owner op = vb_owner vbo);
     allowed \<leftarrow> vb_is_withdraw_allowed vbo (head_block_time d) (vw_amount op);
     fc_assert allowed;
     _ \<leftarrow> get_object (accounts d) (vw_owner op);
     Some () }"

definition vesting_balance_withdraw_do_apply ::
  "vesting_balance_withdraw_operation \<Rightarrow> database \<Rightarrow> (operation_result \<times> database) option" where
  "vesting_balance_withdraw_do_apply op d = do {
     t \<leftarrow> modify_object (vw_vesting_balance op) (vb_withdraw (head_block_time d) (vw_amount op)) (vestings d);
     d1 \<leftarrow> adjust_balance (vw_owner op) (vw_amount op) (d\<lparr>vestings := t\<rparr>);
     Some (no_object, d1) }"

subsection \<open>Withdrawal permissions\<close>

definition permission_end :: "time_point_sec \<Rightarrow> int \<Rightarrow> int \<Rightarrow> time_point_sec" where
  "permission_end start periods period_sec = uint32 (start + uint32 (periods * period_sec))"

definition withdraw_permission_create_do_evaluate :: "withdraw_permission_create_operation \<Rightarrow> database \<Rightarrow> unit option" where
  "withdraw_permission_create_do_evaluate op d = do {
     fc_assert (gi_find (accounts d) (wpc_withdraw_from_account op) \<noteq> None);
     fc_assert (gi_find (accounts d) (wpc_authorized_account op) \<noteq> None);
     fc_assert (gi_find (assets d) (asset_id (wpc_withdrawal_limit op)) \<noteq> None);
     fc_assert (wpc_period_start_time op > head_block_time d);
     fc_assert (permission_end (wpc_period_start_time op) (wpc_periods_until_expiration op) (wpc_withdrawal_period_sec op)
       > head_block_time d);
     fc_assert (wpc_withdrawal_period_sec op \<ge> block_interval (parameters (gprops d)));
     Some () }"

definition withdraw_permission_create_do_apply ::
  "withdraw_permission_create_operation \<Rightarrow> database \<Rightarrow> (operation_result \<times> database) option" where
  "withdraw_permission_create_do_apply op d = do {
     (i, t) \<leftarrow> gi_create \<lparr>wp_withdraw_from_account = wpc_withdraw_from_account op,
        wp_authorized_account = wpc_authorized_account op, wp_withdrawal_limit = wpc_withdrawal_limit op,
        wp_withdrawal_period_sec = wpc_withdrawal_period_sec op, wp_next_period_start_time = wpc_period_start_time op,
        wp_expiration = permission_end (wpc_period_start_time op) (wpc_periods_until_expiration op) (wpc_withdrawal_period_sec op),
        wp_claimed_this_period = 0\<rparr> (permissions d);
     Some (protocol_result withdraw_permission_object_type i, d\<lparr>permissions := t\<rparr>) }"

definition withdraw_permission_claim_do_evaluate :: "withdraw_permission_claim_operation \<Rightarrow> database \<Rightarrow> unit option" where
  "withdraw_permission_claim_do_evaluate op d = do {
     permit \<leftarrow> get_object (permissions d) (wpk_withdraw_permission op);
     fc_assert (wp_expiration permit > head_block_time d);
     fc_assert (wp_authorized_account permit = wpk_withdraw_to_account op);
     fc_assert (wp_withdraw_from_account permit = wpk_withdraw_from_account op);
     avail \<leftarrow> available_this_period (head_block_time d) permit;
     fc_assert (asset_le (wpk_amount_to_withdraw op) avail);
     enough \<leftarrow> asset_ge (get_balance (wpk_withdraw_from_account op) (asset_id (wpk_amount_to_withdraw op)) d)
                 (wpk_amount_to_withdraw op);
     fc_assert enough;
     a \<leftarrow> get_object (assets d) (asset_id (wpk_amount_to_withdraw op));
     fc_assert (is_transfer_restricted a \<longrightarrow>
       ao_issuer a = wp_authorized_account permit \<or> ao_issuer a = wp_withdraw_from_account permit);
     if enforce_white_list a then do {
       from \<leftarrow> get_object (accounts d) (wpk_withdraw_to_account op);
       to \<leftarrow> get_object (accounts d) (wp_authorized_account permit);
       fc_assert (is_authorized_asset to a);
       fc_assert (is_authorized_asset from a) }
     else Some () }"

text \<open>The permission after a claim: whole periods that have passed are skipped and the count starts anew.\<close>

definition note_claim :: "time_point_sec \<Rightarrow> share_type \<Rightarrow> withdraw_permission_object \<Rightarrow> withdraw_permission_object option" where
  "note_claim now x p = do {
     fc_assert (wp_withdrawal_period_sec p \<noteq> 0);
     let periods = cdiv (now - wp_next_period_start_time p) (wp_withdrawal_period_sec p);
     let p' = p\<lparr>wp_next_period_start_time :=
                  uint32 (wp_next_period_start_time p + uint32 (periods * wp_withdrawal_period_sec p))\<rparr>;
     if periods = 0 then do {
       s \<leftarrow> share (wp_claimed_this_period p + x);
       Some (p'\<lparr>wp_claimed_this_period := s\<rparr>) }
     else Some (p'\<lparr>wp_claimed_this_period := x\<rparr>) }"

definition withdraw_permission_claim_do_apply ::
  "withdraw_permission_claim_operation \<Rightarrow> database \<Rightarrow> (operation_result \<times> database) option" where
  "withdraw_permission_claim_do_apply op d = do {
     t \<leftarrow> modify_object (wpk_withdraw_permission op) (note_claim (head_block_time d) (amount (wpk_amount_to_withdraw op)))
            (permissions d);
     let d1 = d\<lparr>permissions := t\<rparr>;
     neg \<leftarrow> asset_neg (wpk_amount_to_withdraw op);
     d2 \<leftarrow> adjust_balance (wpk_withdraw_from_account op) neg d1;
     d3 \<leftarrow> adjust_balance (wpk_withdraw_to_account op) (wpk_amount_to_withdraw op) d2;
     Some (Void_Result, d3) }"

definition withdraw_permission_update_do_evaluate :: "withdraw_permission_update_operation \<Rightarrow> database \<Rightarrow> unit option" where
  "withdraw_permission_update_do_evaluate op d = do {
     permit \<leftarrow> get_object (permissions d) (wpu_permission_to_update op);
     fc_assert (wp_authorized_account permit = wpu_authorized_account op);
     fc_assert (wp_withdraw_from_account permit = wpu_withdraw_from_account op);
     fc_assert (gi_find (assets d) (asset_id (wpu_withdrawal_limit op)) \<noteq> None);
     fc_assert (wpu_period_start_time op \<ge> head_block_time d);
     fc_assert (permission_end (wpu_period_start_time op) (wpu_periods_until_expiration op) (wpu_withdrawal_period_sec op)
       > head_block_time d);
     fc_assert (wpu_withdrawal_period_sec op \<ge> block_interval (parameters (gprops d)));
     Some () }"

definition withdraw_permission_update_do_apply ::
  "withdraw_permission_update_operation \<Rightarrow> database \<Rightarrow> (operation_result \<times> database) option" where
  "withdraw_permission_update_do_apply op d = do {
     t \<leftarrow> modify_object (wpu_permission_to_update op) (\<lambda>p. Some (p\<lparr>
        wp_next_period_start_time := wpu_period_start_time op,
        wp_expiration := permission_end (wpu_period_start_time op) (wpu_periods_until_expiration op) (wpu_withdrawal_period_sec op),
        wp_withdrawal_limit := wpu_withdrawal_limit op,
        wp_withdrawal_period_sec := wpu_withdrawal_period_sec op\<rparr>)) (permissions d);
     Some (Void_Result, d\<lparr>permissions := t\<rparr>) }"

definition withdraw_permission_delete_do_evaluate :: "withdraw_permission_delete_operation \<Rightarrow> database \<Rightarrow> unit option" where
  "withdraw_permission_delete_do_evaluate op d = do {
     permit \<leftarrow> get_object (permissions d) (wpd_withdrawal_permission op);
     fc_assert (wp_authorized_account permit = wpd_authorized_account op);
     fc_assert (wp_withdraw_from_account permit = wpd_withdraw_from_account op);
     Some () }"

definition withdraw_permission_delete_do_apply ::
  "withdraw_permission_delete_operation \<Rightarrow> database \<Rightarrow> (operation_result \<times> database) option" where
  "withdraw_permission_delete_do_apply op d = do {
     t \<leftarrow> remove_object (wpd_withdrawal_permission op) (permissions d);
     Some (Void_Result, d\<lparr>permissions := t\<rparr>) }"

subsection \<open>Bonds\<close>

definition bond_create_offer_do_evaluate :: "bond_create_offer_operation \<Rightarrow> database \<Rightarrow> unit option" where
  "bond_create_offer_do_evaluate op d = do {
     _ \<leftarrow> get_object (accounts d) (bc_creator op);
     let base_id = asset_id (base (bc_collateral_rate op));
     let quote_id = asset_id (quote (bc_collateral_rate op));
     base_asset \<leftarrow> get_object (assets d) base_id;
     quote_asset \<leftarrow> get_object (assets d) quote_id;
     let amount_asset = (if asset_id (bc_amount op) = base_id then base_id else quote_id);
     fc_assert (\<not> is_transfer_restricted base_asset \<and> \<not> is_transfer_restricted quote_asset);
     let opt = ao_options base_asset;
     fc_assert (whitelist_markets opt \<noteq> [] \<longrightarrow> quote_id \<in> set (whitelist_markets opt));
     fc_assert (blacklist_markets opt \<noteq> [] \<longrightarrow> quote_id \<notin> set (blacklist_markets opt));
     enough \<leftarrow> asset_ge (get_balance (bc_creator op) amount_asset d) (bc_amount op);
     fc_assert enough;
     Some () }"

definition bond_create_offer_do_apply :: "bond_create_offer_operation \<Rightarrow> database \<Rightarrow> (operation_result \<times> database) option" where
  "bond_create_offer_do_apply op d = do {
     neg \<leftarrow> asset_neg (bc_amount op);
     d1 \<leftarrow> adjust_balance (bc_creator op) neg d;
     creator \<leftarrow> get_object (accounts d1) (bc_creator op);
     d2 \<leftarrow> adjust_core_in_orders creator (bc_amount op) d1;
     (i, t) \<leftarrow> gi_create \<lparr>off_offered_by_account = bc_creator op, off_offer_to_borrow = bc_offer_to_borrow op,
        off_amount = bc_amount op, off_min_match = bc_min_match op, off_collateral_rate = bc_collateral_rate op,
        off_min_loan_period_sec = bc_min_loan_period_sec op, off_loan_period_sec = bc_loan_period_sec op,
        off_interest_apr = bc_interest_apr op\<rparr> (bond_offers d2);
     Some (protocol_result bond_offer_object_type i, d2\<lparr>bond_offers := t\<rparr>) }"

definition bond_cancel_offer_do_evaluate :: "bond_cancel_offer_operation \<Rightarrow> database \<Rightarrow> nat option" where
  "bond_cancel_offer_do_evaluate op d = do {
     offer \<leftarrow> get_object (bond_offers d) (bx_offer_id op);
     fc_assert (bx_creator op = off_offered_by_account offer);
     fc_assert (off_amount offer = bx_refund op);
     Some (bx_offer_id op) }"

definition bond_cancel_offer_do_apply ::
  "bond_cancel_offer_operation \<Rightarrow> nat \<Rightarrow> database \<Rightarrow> (operation_result \<times> database) option" where
  "bond_cancel_offer_do_apply op offer d = do {
     d1 \<leftarrow> adjust_balance (bx_creator op) (bx_refund op) d;
     creator \<leftarrow> get_object (accounts d1) (bx_creator op);
     neg \<leftarrow> asset_neg (bx_refund op);
     d2 \<leftarrow> adjust_core_in_orders creator neg d1;
     t \<leftarrow> remove_object offer (bond_offers d2);
     Some (no_object, d2\<lparr>bond_offers := t\<rparr>) }"

definition bond_accept_offer_do_evaluate :: "bond_accept_offer_operation \<Rightarrow> database \<Rightarrow> nat option" where
  "bond_accept_offer_do_evaluate op d = do {
     offer \<leftarrow> get_object (bond_offers d) (ba_offer_id op);
     fc_assert (if off_offer_to_borrow offer then amount (ba_amount_borrowed op) \<ge> off_min_match offer
                else amount (ba_amount_collateral op) \<ge> off_min_match offer);
     p \<leftarrow> asset_div (ba_amount_borrowed op) (ba_amount_collateral op);
     q \<leftarrow> asset_div (ba_amount_collateral op) (ba_amount_borrowed op);
     fc_assert (price_eq p (off_collateral_rate offer) \<or> price_eq q (off_collateral_rate offer));
     Some (ba_offer_id op) }"

text \<open>What is left of an offer; \<open>operator <\<close> on assets compares their ids first.\<close>

definition reduce_offer :: "nat \<Rightarrow> bond_offer_object \<Rightarrow> asset \<Rightarrow> asset \<Rightarrow> bond_offer_object table \<Rightarrow> bond_offer_object table option"
where
  "reduce_offer i offer borrowed collateral t =
     (let shrink = (\<lambda>x. modify_object i (\<lambda>o'. do { y \<leftarrow> asset_minus (off_amount o') x; Some (o'\<lparr>off_amount := y\<rparr>) }) t) in
      if off_offer_to_borrow offer \<and> asset_lt borrowed (off_amount offer) then shrink borrowed
      else if \<not> off_offer_to_borrow offer \<and> asset_lt collateral (off_amount offer) then shrink collateral
      else remove_object i t)"

definition bond_accept_offer_do_apply ::
  "bond_accept_offer_operation \<Rightarrow> nat \<Rightarrow> database \<Rightarrow> (operation_result \<times> database) option" where
  "bond_accept_offer_do_apply op i d = do {
     d1 \<leftarrow> (if ba_claimer op = ba_lender op then do {
              neg \<leftarrow> asset_neg (ba_amount_borrowed op);
              adjust_balance (ba_lender op) neg d }
            else do {
              neg \<leftarrow> asset_neg (ba_amount_collateral op);
              d0 \<leftarrow> adjust_balance (ba_borrower op) neg d;
              borrower \<leftarrow> get_object (accounts d0) (ba_borrower op);
              adjust_core_in_orders borrower (ba_amount_collateral op) d0 });
     d2 \<leftarrow> adjust_balance (ba_borrower op) (ba_amount_borrowed op) d1;
     offer \<leftarrow> get_object (bond_offers d2) i;
     let head_time = head_block_time d2;
     (b, t) \<leftarrow> gi_create \<lparr>bond_borrower = ba_borrower op, bond_lender = ba_lender op,
        bond_borrowed = ba_amount_borrowed op, bond_collateral = ba_amount_collateral op,
        bond_interest_apr = off_interest_apr offer, bond_start_date = head_time,
        bond_due_date = uint32 (head_time + off_loan_period_sec offer),
        bond_earliest_payoff_date = uint32 (head_time + off_min_loan_period_sec offer)\<rparr> (bonds d2);
     let d3 = d2\<lparr>bonds := t\<rparr>;
     u \<leftarrow> reduce_offer i offer (ba_amount_borrowed op) (ba_amount_collateral op) (bond_offers d3);
     Some (protocol_result bond_object_type b, d3\<lparr>bond_offers := u\<rparr>) }"

text \<open>Simple interest by the day, the first day counted whole.\<close>

definition interest_due :: "bond_object \<Rightarrow> time_point_sec \<Rightarrow> asset option" where
  "interest_due b head_time = do {
     let elapsed_days = 1 + cdiv (head_time - bond_start_date b) (60 * 60 * 24);
     let tmp = u128 (u128 (u128 (amount (bond_borrowed b)) * u128 elapsed_days) * bond_interest_apr b)
                 div (365 * BTS_100_PERCENT);
     fc_assert (tmp < BTS_MAX_SHARE_SUPPLY);
     Some (mk_asset tmp (asset_id (bond_borrowed b))) }"

definition bond_claim_collateral_do_evaluate :: "bond_claim_collateral_operation \<Rightarrow> database \<Rightarrow> (nat \<times> asset) option" where
  "bond_claim_collateral_do_evaluate op d = do {
     b \<leftarrow> get_object (bonds d) (bl_bond_id op);
     let head_time = head_block_time d;
     fc_assert (head_time > bond_earliest_payoff_date b);
     fc_assert (asset_le (bl_collateral_claimed op) (bond_collateral b));
     if bond_borrower b = bl_claimer op then do {
       interest \<leftarrow> interest_due b head_time;
       total_debt \<leftarrow> asset_plus interest (bond_borrowed b);
       fc_assert (asset_le total_debt (bl_payoff_amount op));
       fc_assert (amount total_debt \<noteq> 0);
       max_claim \<leftarrow> to_uint64 (u128 (u128 (amount (bond_collateral b)) * u128 (amount (bl_payoff_amount op)))
                      div u128 (amount total_debt));
       fc_assert (uint64 (amount (bl_collateral_claimed op)) = max_claim);
       Some (bl_bond_id op, interest) }
     else do {
       fc_assert (bond_lender b = bl_claimer op);
       fc_assert (head_time > bond_due_date b);
       fc_assert (bond_collateral b = bl_collateral_claimed op);
       fc_assert (bl_payoff_amount op = mk_asset 0 (asset_id (bond_borrowed b)));
       Some (bl_bond_id op, mk_asset 0 0) } }"

definition bond_claim_collateral_do_apply ::
  "bond_claim_collateral_operation \<Rightarrow> nat \<times> asset \<Rightarrow> database \<Rightarrow> (operation_result \<times> database) option" where
  "bond_claim_collateral_do_apply op c d = (case c of (i, interest) \<Rightarrow> do {
     b \<leftarrow> get_object (bonds d) i;
     _ \<leftarrow> get_object (accounts d) (bl_claimer op);
     borrower \<leftarrow> get_object (accounts d) (bond_borrower b);
     claimed \<leftarrow> asset_neg (bl_collateral_claimed op);
     d1 \<leftarrow> adjust_core_in_orders borrower claimed d;
     d2 \<leftarrow> (if amount (bl_payoff_amount op) > 0 then do {
              neg \<leftarrow> asset_neg (bl_payoff_amount op);
              d' \<leftarrow> adjust_balance (bl_claimer op) neg d1;
              adjust_balance (bl_lender op) (bl_payoff_amount op) d' }
            else Some d1);
     d3 \<leftarrow> adjust_balance (bl_claimer op) (bl_collateral_claimed op) d2;
     t \<leftarrow> (if bl_collateral_claimed op = bond_collateral b then remove_object i (bonds d3)
           else modify_object i (\<lambda>b. do {
             paid \<leftarrow> asset_plus (bl_payoff_amount op) interest;
             x \<leftarrow> asset_minus (bond_borrowed b) paid;
             y \<leftarrow> asset_minus (bond_collateral b) (bl_collateral_claimed op);
             Some (b\<lparr>bond_borrowed := x, bond_collateral := y, bond_start_date := head_block_time d3\<rparr>) }) (bonds d3));
     Some (no_object, d3\<lparr>bonds := t\<rparr>) })"

subsection \<open>The books\<close>

lemma moves_core_orders:
  "adjust_core_in_orders acct x db = Some db' \<Longrightarrow> tables_ok db \<Longrightarrow> moves db db' (\<lambda>_. 0) (\<lambda>_. 0)"
  by (auto simp: adjust_core_in_orders_def intro: moves_refl moves_neutral(1) split: if_splits)

lemma core_orders_frame:
  assumes "adjust_core_in_orders acct x db = Some db'"
  shows "bonds db' = bonds db" "bond_offers db' = bond_offers db" "balances db' = balances db" "dprops db' = dprops db"
  using assms by (auto simp: adjust_core_in_orders_def split: if_splits)

lemma vesting_balance_create_keeps_books:
  assumes "tables_ok d" "vesting_balance_create_do_apply op d = Some (r, d')"
  shows "same_books d d'"
proof -
  obtain n d1 v i t where f: "asset_neg (vc_amount op) = Some n" "adjust_balance (vc_creator op) n d = Some d1"
    "gi_create v (vestings d1) = Some (i, t)" "vb_balance v = vc_amount op" "d' = d1\<lparr>vestings := t\<rparr>"
    using assms(2) unfolding vesting_balance_create_do_apply_def Let_def by auto
  note m1 = moves_adjust [OF f(2) assms(1)]
  show ?thesis unfolding f(5)
    by (rule same_books_moves [OF moves_trans [OF m1 moves_create(5) [OF f(3) movesD(1) [OF m1]]]])
      (use f(1,4) in \<open>auto simp: amount_of_def\<close>)
qed

interpretation vesting_balance_create: evaluator Vesting_Balance_Create_Op
    "\<lambda>op. reading (vesting_balance_create_do_evaluate op)" "\<lambda>op. applying (\<lambda>_. vesting_balance_create_do_apply op)" "\<lambda>_ _. True"
  by (rule evaluator_reading) (rule vesting_balance_create_keeps_books)

lemma vb_withdraw_amount: "vb_withdraw now x b = Some b' \<Longrightarrow> amount_of a (vb_balance b') = amount_of a (vb_balance b) - amount_of a x"
  by (auto simp: vb_withdraw_def amount_of_def split: vesting_policy.splits)

lemma vesting_balance_withdraw_keeps_books:
  assumes "tables_ok d" "vesting_balance_withdraw_do_apply op d = Some (r, d')"
  shows "same_books d d'"
proof -
  obtain t b b' where f: "modify_object (vw_vesting_balance op) (vb_withdraw (head_block_time d) (vw_amount op)) (vestings d) = Some t"
    "adjust_balance (vw_owner op) (vw_amount op) (d\<lparr>vestings := t\<rparr>) = Some d'"
    "gi_find (vestings d) (vw_vesting_balance op) = Some b" "vb_withdraw (head_block_time d) (vw_amount op) b = Some b'"
    using assms(2) unfolding vesting_balance_withdraw_do_apply_def by (auto simp: modify_object_Some)
  note m1 = moves_modify(5) [OF f(1) assms(1) f(3,4)]
  show ?thesis
    by (rule same_books_moves [OF moves_trans [OF m1 moves_adjust [OF f(2) movesD(1) [OF m1]]]])
      (simp add: vb_withdraw_amount [OF f(4)])
qed

interpretation vesting_balance_withdraw: evaluator Vesting_Balance_Withdraw_Op
    "\<lambda>op. reading (vesting_balance_withdraw_do_evaluate op)" "\<lambda>op. applying (\<lambda>_. vesting_balance_withdraw_do_apply op)" "\<lambda>_ _. True"
  by (rule evaluator_reading) (rule vesting_balance_withdraw_keeps_books)

interpretation withdraw_permission_create: evaluator Withdraw_Permission_Create_Op
    "\<lambda>op. reading (withdraw_permission_create_do_evaluate op)" "\<lambda>op. applying (\<lambda>_. withdraw_permission_create_do_apply op)" "\<lambda>_ _. True"
  by (rule evaluator_reading) (auto simp: withdraw_permission_create_do_apply_def intro: same_books_other)

interpretation withdraw_permission_update: evaluator Withdraw_Permission_Update_Op
    "\<lambda>op. reading (withdraw_permission_update_do_evaluate op)" "\<lambda>op. applying (\<lambda>_. withdraw_permission_update_do_apply op)" "\<lambda>_ _. True"
  by (rule evaluator_reading) (auto simp: withdraw_permission_update_do_apply_def intro: same_books_other)

interpretation withdraw_permission_delete: evaluator Withdraw_Permission_Delete_Op
    "\<lambda>op. reading (withdraw_permission_delete_do_evaluate op)" "\<lambda>op. applying (\<lambda>_. withdraw_permission_delete_do_apply op)" "\<lambda>_ _. True"
  by (rule evaluator_reading) (auto simp: withdraw_permission_delete_do_apply_def intro: same_books_other)

lemma withdraw_permission_claim_keeps_books:
  assumes "tables_ok d" "withdraw_permission_claim_do_apply op d = Some (r, d')"
  shows "same_books d d'"
proof -
  obtain t n d2 where f: "asset_neg (wpk_amount_to_withdraw op) = Some n"
    "adjust_balance (wpk_withdraw_from_account op) n (d\<lparr>permissions := t\<rparr>) = Some d2"
    "adjust_balance (wpk_withdraw_to_account op) (wpk_amount_to_withdraw op) d2 = Some d'"
    using assms(2) unfolding withdraw_permission_claim_do_apply_def Let_def by auto
  have 1: "same_books d (d\<lparr>permissions := t\<rparr>)" by (rule same_books_other(3) [OF assms(1)])
  then have "tables_ok (d\<lparr>permissions := t\<rparr>)" by (simp add: same_books_def)
  from same_books_trans [OF 1 same_books_payment [OF f this]] show ?thesis .
qed

interpretation withdraw_permission_claim: evaluator Withdraw_Permission_Claim_Op
    "\<lambda>op. reading (withdraw_permission_claim_do_evaluate op)" "\<lambda>op. applying (\<lambda>_. withdraw_permission_claim_do_apply op)" "\<lambda>_ _. True"
  by (rule evaluator_reading) (rule withdraw_permission_claim_keeps_books)

lemma asset_neg_amount: "asset_neg x = Some n \<Longrightarrow> amount_of a n = - amount_of a x"
  by (auto simp: amount_of_def)

lemma bond_create_offer_keeps_books:
  assumes "tables_ok d" "bond_create_offer_do_apply op d = Some (r, d')"
  shows "same_books d d'"
proof -
  obtain n d1 cr d2 v i t where f: "asset_neg (bc_amount op) = Some n" "adjust_balance (bc_creator op) n d = Some d1"
    "adjust_core_in_orders cr (bc_amount op) d1 = Some d2"
    "gi_create v (bond_offers d2) = Some (i, t)" "off_amount v = bc_amount op" "d' = d2\<lparr>bond_offers := t\<rparr>"
    using assms(2) unfolding bond_create_offer_do_apply_def by auto
  note m1 = moves_adjust [OF f(2) assms(1)]
  note m2 = moves_trans [OF m1 moves_core_orders [OF f(3) movesD(1) [OF m1]]]
  show ?thesis unfolding f(6)
    by (rule same_books_moves [OF moves_trans [OF m2 moves_create(7) [OF f(4) movesD(1) [OF m2]]]])
      (use f(1,5) in \<open>auto simp: amount_of_def\<close>)
qed

interpretation bond_create_offer: evaluator Bond_Create_Offer_Op
    "\<lambda>op. reading (bond_create_offer_do_evaluate op)" "\<lambda>op. applying (\<lambda>_. bond_create_offer_do_apply op)" "\<lambda>_ _. True"
  by (rule evaluator_reading) (rule bond_create_offer_keeps_books)

lemma bond_cancel_offer_keeps_books:
  assumes "bond_cancel_offer_do_evaluate op d0 = Some i" "fees_paid d0 d" "tables_ok d"
    "bond_cancel_offer_do_apply op i d = Some (r, d')"
  shows "same_books d d'"
proof -
  obtain d1 cr n d2 t where f: "adjust_balance (bx_creator op) (bx_refund op) d = Some d1"
    "adjust_core_in_orders cr n d1 = Some d2" "remove_object i (bond_offers d2) = Some t" "d' = d2\<lparr>bond_offers := t\<rparr>"
    using assms(4) unfolding bond_cancel_offer_do_apply_def by auto
  obtain o' where o': "gi_find (bond_offers d2) i = Some o'" "off_amount o' = bx_refund op"
    using assms(1) fees_paid_frame(13) [OF assms(2)] core_orders_frame(2) [OF f(2)] adjust_balance_frame(12) [OF f(1)]
    unfolding bond_cancel_offer_do_evaluate_def by auto
  note m1 = moves_adjust [OF f(1) assms(3)]
  note m2 = moves_trans [OF m1 moves_core_orders [OF f(2) movesD(1) [OF m1]]]
  show ?thesis unfolding f(4)
    by (rule same_books_moves [OF moves_trans [OF m2 moves_remove(6) [OF f(3) movesD(1) [OF m2] o'(1)]]])
      (simp add: o'(2))
qed

interpretation bond_cancel_offer: evaluator Bond_Cancel_Offer_Op
    "\<lambda>op. reading (bond_cancel_offer_do_evaluate op)" "\<lambda>op. applying (bond_cancel_offer_do_apply op)" "\<lambda>_ _. True"
  by (rule evaluator_reading) (rule bond_cancel_offer_keeps_books)

lemma bond_claim_collateral_keeps_books:
  assumes "tables_ok d" "bond_claim_collateral_do_apply op c d = Some (r, d')"
  shows "same_books d d'"
proof -
  let ?pay = "bl_payoff_amount op" and ?got = "bl_collateral_claimed op"
  obtain b :: bond_object and acct n d1 d2 d3 t where
    b: "gi_find (bonds d) (fst c) = Some b" and core: "adjust_core_in_orders acct n d = Some d1"
    and pay: "(if amount ?pay > 0 then do {
              neg \<leftarrow> asset_neg ?pay; d' \<leftarrow> adjust_balance (bl_claimer op) neg d1; adjust_balance (bl_lender op) ?pay d' }
            else Some d1) = Some d2"
    and got: "adjust_balance (bl_claimer op) ?got d2 = Some d3"
    and t: "(if ?got = bond_collateral b then remove_object (fst c) (bonds d3)
           else modify_object (fst c) (\<lambda>b. do {
             paid \<leftarrow> asset_plus ?pay (snd c); x \<leftarrow> asset_minus (bond_borrowed b) paid;
             y \<leftarrow> asset_minus (bond_collateral b) ?got;
             Some (b\<lparr>bond_borrowed := x, bond_collateral := y, bond_start_date := head_block_time d3\<rparr>) }) (bonds d3)) = Some t"
    and d': "d' = d3\<lparr>bonds := t\<rparr>"
    using assms(2) unfolding bond_claim_collateral_do_apply_def get_object_gi Let_def case_prod_beta
      Option.bind_eq_Some_conv option.inject prod.inject
    by (elim exE conjE) (rule that, assumption+, rule sym)
  note m1 = moves_core_orders [OF core assms(1)]
  have s2: "same_books d1 d2 \<and> bonds d2 = bonds d1"
  proof (cases "amount ?pay > 0")
    case True
    then obtain neg d'' where p: "asset_neg ?pay = Some neg" "adjust_balance (bl_claimer op) neg d1 = Some d''"
      "adjust_balance (bl_lender op) ?pay d'' = Some d2"
      using pay by (auto simp: bind_eq_Some_conv simp del: asset_neg_Some)
    show ?thesis
      using same_books_payment [OF p movesD(1) [OF m1]] adjust_balance_frame(11) [OF p(2)] adjust_balance_frame(11) [OF p(3)] by simp
  next
    case False
    then show ?thesis using pay same_books_refl [OF movesD(1) [OF m1]] by simp
  qed
  then have ok2: "tables_ok d2" by (simp add: same_books_def)
  note m3 = moves_adjust [OF got ok2]
  have b3: "gi_find (bonds d3) (fst c) = Some b"
    using b s2 core_orders_frame(1) [OF core] adjust_balance_frame(11) [OF got] by simp
  have "\<exists>h. moves d3 d' h (\<lambda>_. 0) \<and> (\<forall>a. h a = - amount_of a ?got)"
  proof (cases "?got = bond_collateral b")
    case True
    with t have "remove_object (fst c) (bonds d3) = Some t" by simp
    from moves_remove(5) [OF this movesD(1) [OF m3] b3] show ?thesis unfolding d' using True by force
  next
    case False
    let ?f = "\<lambda>b. do { paid \<leftarrow> asset_plus ?pay (snd c); x \<leftarrow> asset_minus (bond_borrowed b) paid;
             y \<leftarrow> asset_minus (bond_collateral b) ?got;
             Some (b\<lparr>bond_borrowed := x, bond_collateral := y, bond_start_date := head_block_time d3\<rparr>) }"
    from False t have m: "modify_object (fst c) ?f (bonds d3) = Some t" by simp
    then obtain b' where b': "?f b = Some b'" using b3 by (auto simp: modify_object_def)
    have "amount_of a (bond_collateral b') = amount_of a (bond_collateral b) - amount_of a ?got" for a
      using b' by (auto simp: amount_of_def)
    with moves_modify(6) [OF m movesD(1) [OF m3] b3 b'] show ?thesis unfolding d'
      by (intro exI [of _ "\<lambda>a. amount_of a (bond_collateral b') - amount_of a (bond_collateral b)"]) simp
  qed
  then obtain h where h: "moves d3 d' h (\<lambda>_. 0)" "\<And>a. h a = - amount_of a ?got" by auto
  have "same_books d2 d'" by (rule same_books_moves [OF moves_trans [OF m3 h(1)]]) (simp add: h(2))
  with s2 same_books_moves [OF m1] show ?thesis by (blast intro: same_books_trans)
qed

interpretation bond_claim_collateral: evaluator Bond_Claim_Collateral_Op
    "\<lambda>op. reading (bond_claim_collateral_do_evaluate op)" "\<lambda>op. applying (bond_claim_collateral_do_apply op)" "\<lambda>_ _. True"
  by (rule evaluator_reading) (rule bond_claim_collateral_keeps_books)

text \<open>The claimer pays for the other side of the offer, which the offer holds.\<close>

lemma bond_deposit_moves:
  assumes "(if ba_claimer op = ba_lender op then do { neg \<leftarrow> asset_neg lent; adjust_balance (ba_lender op) neg d }
      else do { neg \<leftarrow> asset_neg held; d0 \<leftarrow> adjust_balance (ba_borrower op) neg d;
        borrower \<leftarrow> get_object (accounts d0) (ba_borrower op); adjust_core_in_orders borrower held d0 }) = Some d1"
    and "tables_ok d"
  shows "moves d d1 (\<lambda>a. - amount_of a (if ba_claimer op = ba_lender op then lent else held)) (\<lambda>_. 0)"
    "bond_offers d1 = bond_offers d"
proof -
  have "moves d d1 (\<lambda>a. - amount_of a (if ba_claimer op = ba_lender op then lent else held)) (\<lambda>_. 0) \<and>
      bond_offers d1 = bond_offers d"
  proof (cases "ba_claimer op = ba_lender op")
    case True
    then obtain n where n: "asset_neg lent = Some n" "adjust_balance (ba_lender op) n d = Some d1"
      using assms(1) by (auto simp: bind_eq_Some_conv simp del: asset_neg_Some)
    show ?thesis using moves_adjust [OF n(2) assms(2)] adjust_balance_frame(12) [OF n(2)] True
      by (simp add: asset_neg_amount [OF n(1)])
  next
    case False
    then obtain n e acct where n: "asset_neg held = Some n" "adjust_balance (ba_borrower op) n d = Some e"
      "adjust_core_in_orders acct held e = Some d1"
      using assms(1) by (auto simp: bind_eq_Some_conv simp del: asset_neg_Some)
    note m = moves_adjust [OF n(2) assms(2)]
    show ?thesis using moves_trans [OF m moves_core_orders [OF n(3) movesD(1) [OF m]]]
        adjust_balance_frame(12) [OF n(2)] core_orders_frame(2) [OF n(3)] False
      by (simp add: asset_neg_amount [OF n(1)])
  qed
  then show "moves d d1 (\<lambda>a. - amount_of a (if ba_claimer op = ba_lender op then lent else held)) (\<lambda>_. 0)"
    "bond_offers d1 = bond_offers d" by auto
qed

definition offer_used_up :: "bond_accept_offer_operation \<Rightarrow> bond_offer_object \<Rightarrow> bool" where
  "offer_used_up op o' \<longleftrightarrow> \<not> asset_lt (if off_offer_to_borrow o' then ba_amount_borrowed op else ba_amount_collateral op) (off_amount o')"

lemma bond_accept_moves:
  assumes "bond_accept_offer_do_apply op i d = Some (r, d')" "tables_ok d" "gi_find (bond_offers d) i = Some o'"
    "offer_used_up op o'"
  shows "moves d d' (\<lambda>a. amount_of a (if ba_claimer op = ba_lender op then ba_amount_collateral op else ba_amount_borrowed op)
    - amount_of a (off_amount o')) (\<lambda>_. 0)"
proof -
  let ?lent = "ba_amount_borrowed op" and ?held = "ba_amount_collateral op"
  obtain d1 d2 o2 b j t u where
    d1: "(if ba_claimer op = ba_lender op then do { neg \<leftarrow> asset_neg ?lent; adjust_balance (ba_lender op) neg d }
            else do { neg \<leftarrow> asset_neg ?held; d0 \<leftarrow> adjust_balance (ba_borrower op) neg d;
              borrower \<leftarrow> get_object (accounts d0) (ba_borrower op); adjust_core_in_orders borrower ?held d0 }) = Some d1"
    and d2: "adjust_balance (ba_borrower op) ?lent d1 = Some d2" "gi_find (bond_offers d2) i = Some o2"
    and b: "gi_create b (bonds d2) = Some (j, t)" "bond_collateral b = ?held"
    and u: "reduce_offer i o2 ?lent ?held (bond_offers (d2\<lparr>bonds := t\<rparr>)) = Some u" "d' = d2\<lparr>bonds := t\<rparr>\<lparr>bond_offers := u\<rparr>"
    using assms(1) unfolding bond_accept_offer_do_apply_def get_object_gi [of "bond_offers _"] Let_def
      Option.bind_eq_Some_conv split_paired_Ex case_prod_conv option.inject prod.inject
    by (elim exE conjE) (rule that, assumption+, simp, assumption, rule sym)
  note m1 = bond_deposit_moves [OF d1 assms(2)]
  note m2 = moves_trans [OF m1(1) moves_adjust [OF d2(1) movesD(1) [OF m1(1)]]]
  note m3 = moves_trans [OF m2 moves_create(6) [OF b(1) movesD(1) [OF m2]]]
  have o2: "o2 = o'" "gi_find (bond_offers (d2\<lparr>bonds := t\<rparr>)) i = Some o'"
    using d2(2) assms(3) m1(2) adjust_balance_frame(12) [OF d2(1)] by simp_all
  with u(1) assms(4) have "remove_object i (bond_offers (d2\<lparr>bonds := t\<rparr>)) = Some u"
    by (auto simp: reduce_offer_def offer_used_up_def split: if_splits)
  from moves_trans [OF m3 moves_remove(6) [OF this movesD(1) [OF m3] o2(2)]] show ?thesis
    unfolding u(2) by (rule moves_cong) (simp_all add: b(2))
qed

text \<open>
  Accepting an offer keeps the books when the offer is taken whole: one to borrow by a lender, for all
  of the collateral it holds, or one to lend by a borrower, for all of the funds it holds. The code asks
  for neither.
\<close>

definition takes_whole_offer :: "bond_accept_offer_operation \<Rightarrow> database \<Rightarrow> bool" where
  "takes_whole_offer op d = (case gi_find (bond_offers d) (ba_offer_id op) of
     None \<Rightarrow> False
   | Some o' \<Rightarrow> offer_used_up op o' \<and>
       off_amount o' = (if ba_claimer op = ba_lender op then ba_amount_collateral op else ba_amount_borrowed op))"

lemma bond_accept_offer_keeps_books:
  assumes "takes_whole_offer op d0" "bond_accept_offer_do_evaluate op d0 = Some i" "fees_paid d0 d" "tables_ok d"
    "bond_accept_offer_do_apply op i d = Some (r, d')"
  shows "same_books d d'"
proof -
  obtain o' where "gi_find (bond_offers d) i = Some o'" "offer_used_up op o'"
    "off_amount o' = (if ba_claimer op = ba_lender op then ba_amount_collateral op else ba_amount_borrowed op)"
    using assms(1,2) fees_paid_frame(13) [OF assms(3)]
    by (auto simp: bond_accept_offer_do_evaluate_def takes_whole_offer_def)
  from same_books_moves [OF bond_accept_moves [OF assms(5,4) this(1,2)]] this(3) show ?thesis by simp
qed

interpretation bond_accept_offer: evaluator Bond_Accept_Offer_Op
    "\<lambda>op. reading (bond_accept_offer_do_evaluate op)" "\<lambda>op. applying (bond_accept_offer_do_apply op)" takes_whole_offer
  by (rule evaluator_reading) (rule bond_accept_offer_keeps_books)

subsection \<open>What a permission allows\<close>

lemma claim_period:
  fixes now start period k :: int
  assumes "start \<le> now" "0 < period"
    and k: "k = cdiv (now - start) period"
  shows "0 \<le> k" "start + k * period \<le> now" "now < start + k * period + period" "k = 0 \<longleftrightarrow> now < start + period"
proof -
  have k: "k = (now - start) div period" using assms(1,2) by (simp add: k cdiv_nonneg_eq)
  show "0 \<le> k" using assms(1,2) by (simp add: k pos_imp_zdiv_nonneg_iff)
  have m: "k * period = now - start - (now - start) mod period" by (simp add: k minus_mod_eq_div_mult)
  then show "start + k * period \<le> now" "now < start + k * period + period"
    using assms(2) pos_mod_sign [of period "now - start"] pos_mod_bound [of period "now - start"] by linarith+
  show "k = 0 \<longleftrightarrow> now < start + period"
    using assms(1,2) by (auto simp: k zdiv_eq_0_iff)
qed


text \<open>
  Alice lets Bob withdraw 100 of the core asset a day. Having taken 30, he takes 50 more.
\<close>

definition sample_permit :: withdraw_permission_object where
  "sample_permit = \<lparr>wp_withdraw_from_account = 1, wp_authorized_account = 2, wp_withdrawal_limit = mk_asset 100 0,
     wp_withdrawal_period_sec = 86400, wp_next_period_start_time = 1000, wp_expiration = 10000000,
     wp_claimed_this_period = 30\<rparr>"

definition sample_contracts :: database where
  "sample_contracts = sample_database\<lparr>dprops := empty_dynamic\<lparr>dg_time := 50000\<rparr>,
     permissions := table_of [sample_permit, sample_permit\<lparr>wp_withdrawal_limit := mk_asset 100 1\<rparr>],
     bond_offers := table_of [\<lparr>off_offered_by_account = 2, off_offer_to_borrow = False, off_amount = mk_asset 10 0,
       off_min_match = 0, off_collateral_rate = mk_price (mk_asset 1 0) (mk_asset 1 1), off_min_loan_period_sec = 1,
       off_loan_period_sec = 1, off_interest_apr = 0\<rparr>]\<rparr>"

definition sample_claim :: withdraw_permission_claim_operation where
  "sample_claim = \<lparr>wpk_fee = mk_asset 200000 0, wpk_withdraw_permission = 0, wpk_withdraw_from_account = 1,
     wpk_withdraw_to_account = 2, wpk_amount_to_withdraw = mk_asset 50 0, wpk_memo = None\<rparr>"


subsection \<open>What an accepted bond does to the books\<close>

text \<open>
  Accepting a bond offer that the operation uses up moves the imbalance of each asset by the
  difference between what the offer held and what is taken from it: the books balance exactly when the
  two agree, which the evaluation does not check. Taking a loan of 1000 from an offer of 10 makes 990.
\<close>

theorem bond_accept_imbalance:
  assumes "bond_accept_offer_do_apply op i d = Some (r, d')" "tables_ok d" "gi_find (bond_offers d) i = Some o'"
    and "offer_used_up op o'"
  shows "imbalance a d' = imbalance a d - amount_of a (off_amount o') +
    amount_of a (if ba_claimer op = ba_lender op then ba_amount_collateral op else ba_amount_borrowed op)"
  using moves_imbalance [OF bond_accept_moves [OF assms], of a] by simp

definition sample_accept :: bond_accept_offer_operation where
  "sample_accept = \<lparr>ba_fee = mk_asset 200000 0, ba_claimer = 1, ba_lender = 2, ba_borrower = 1, ba_offer_id = 0,
     ba_amount_borrowed = mk_asset 1000 0, ba_amount_collateral = mk_asset 1000 1\<rparr>"

lemma sample_contracts_ok: "tables_ok sample_contracts"
proof -
  have "sample_contracts = sample_database\<lparr>bond_offers := bond_offers sample_contracts\<rparr>
      \<lparr>dprops := dprops sample_contracts\<rparr>\<lparr>permissions := permissions sample_contracts\<rparr>"
    by (simp add: sample_contracts_def)
  moreover have "tables_ok \<dots>"
    by (simp add: sample_tables_ok) (simp add: sample_contracts_def)
  ultimately show ?thesis by simp
qed

lemma bond_accept_imbalance_witness:
  "bond_accept_offer_do_evaluate sample_accept sample_contracts = Some 0 \<and>
   (\<exists>r d'. bond_accept_offer_do_apply sample_accept 0 sample_contracts = Some (r, d') \<and>
      imbalance 0 d' = imbalance 0 sample_contracts + 990)"
proof -
  have e: "bond_accept_offer_do_evaluate sample_accept sample_contracts = Some 0" by code_simp
  have "bond_accept_offer_do_apply sample_accept 0 sample_contracts \<noteq> None" by code_simp
  then obtain r d' where f: "bond_accept_offer_do_apply sample_accept 0 sample_contracts = Some (r, d')" by auto
  obtain o' where o': "gi_find (bond_offers sample_contracts) 0 = Some o'" "off_amount o' = mk_asset 10 0" "\<not> off_offer_to_borrow o'"
    by (simp add: sample_contracts_def)
  have "offer_used_up sample_accept o'" using o'(2,3) by (simp add: offer_used_up_def asset_lt_def sample_accept_def)
  from bond_accept_imbalance [OF f sample_contracts_ok o'(1) this, of 0]
  have "imbalance 0 d' = imbalance 0 sample_contracts + 990" by (simp add: o'(2) sample_accept_def amount_of_def)
  with e f show ?thesis by blast
qed

text \<open>The evaluator of a claim lets a permission for asset 1 be used on the core asset, beyond any limit.\<close>

lemma permission_covers_other_assets:
  "withdraw_permission_claim_do_evaluate (sample_claim\<lparr>wpk_withdraw_permission := 1, wpk_amount_to_withdraw := mk_asset 700000 0\<rparr>)
     sample_contracts = Some ()"
  by code_simp

end
