(* ===== verification/Market.thy ===== *)
theory Market
  imports Feeds Fees
begin

section \<open>The market engine\<close>

text \<open>
  Models the matching part of \<^verbatim>\<open>libraries/chain/database.cpp\<close>: filling the four kinds of orders, market
  fees, matching, cancelling, margin calls (\<open>check_call_orders\<close>) and global settlement. Orders are named
  by their ids; a C++ reference to an order that was removed has no value here, so a read through one
  ends the run.

  The locale \<open>fillable\<close> is what every kind of order promises: filling one with "pays" and "receives"
  moves the imbalance of an asset by what it receives minus what it pays. Matching two orders fills
  one with the other's amounts, so nothing is created or destroyed.
\<close>

definition limit_oid :: "nat \<Rightarrow> object_id_type" where "limit_oid i = (protocol_ids, 8, i)"
definition short_oid :: "nat \<Rightarrow> object_id_type" where "short_oid i = (protocol_ids, 9, i)"
definition call_oid :: "nat \<Rightarrow> object_id_type" where "call_oid i = (protocol_ids, 10, i)"
definition settlement_oid :: "nat \<Rightarrow> object_id_type" where "settlement_oid i = (protocol_ids, 5, i)"

subsection \<open>Market fees and payments\<close>

definition calculate_market_fee :: "asset_id_type \<Rightarrow> asset_object \<Rightarrow> asset \<Rightarrow> asset option" where
  "calculate_market_fee trade_asset_id trade_asset trade_amount =
     (let opt = ao_options trade_asset in
      if \<not> charges_market_fees trade_asset then Some (mk_asset 0 trade_asset_id)
      else if market_fee_percent opt = 0 then Some (mk_asset (min_market_fee opt) trade_asset_id)
      else do {
        a \<leftarrow> to_uint64 (u128 (u128 (amount trade_amount) * market_fee_percent opt) div BTS_100_PERCENT);
        let percent_fee = int64 a;
        Some (mk_asset (if percent_fee > max_market_fee opt then max_market_fee opt
                        else if percent_fee < min_market_fee opt then min_market_fee opt
                        else percent_fee) trade_asset_id) })"

definition pay_market_fees :: "asset_id_type \<Rightarrow> asset \<Rightarrow> database \<Rightarrow> (asset \<times> database) option" where
  "pay_market_fees recv_asset_id receives db = do {
     recv_asset \<leftarrow> get_object (assets db) recv_asset_id;
     issuer_fees \<leftarrow> calculate_market_fee recv_asset_id recv_asset receives;
     db1 \<leftarrow> (if amount issuer_fees > 0 then do {
               t \<leftarrow> modify_object (ao_dynamic_asset_data_id recv_asset) (dyn_add_fees (amount issuer_fees)) (asset_dyns db);
               Some (db\<lparr>asset_dyns := t\<rparr>) }
             else Some db);
     Some (issuer_fees, db1) }"

text \<open>
  Several evaluators add to or subtract from the core that an account has in orders, when the asset
  at hand is core.
\<close>

definition core_in_orders :: "account_object \<Rightarrow> asset_id_type \<Rightarrow> share_type \<Rightarrow> database \<Rightarrow> database option" where
  "core_in_orders acct a x db = do {
     t \<leftarrow> modify_object (acct_statistics acct)
            (\<lambda>s. if a = 0 then do { y \<leftarrow> share (st_total_core_in_orders s + x);
                                    Some (s\<lparr>st_total_core_in_orders := y\<rparr>) }
                 else Some s) (statistics db);
     Some (db\<lparr>statistics := t\<rparr>) }"

definition pay_order :: "account_id_type \<Rightarrow> asset \<Rightarrow> asset \<Rightarrow> database \<Rightarrow> database option" where
  "pay_order receiver receives pays db = do {
     acct \<leftarrow> get_object (accounts db) receiver;
     db1 \<leftarrow> core_in_orders acct (asset_id pays) (- amount pays) db;
     adjust_balance receiver receives db1 }"

definition cancel_order :: "nat \<Rightarrow> database \<Rightarrow> database option" where
  "cancel_order i db = do {
     order \<leftarrow> get_object (limit_orders db) i;
     let refunded = lim_amount_for_sale order;
     acct \<leftarrow> get_object (accounts db) (lim_seller order);
     db1 \<leftarrow> core_in_orders acct (asset_id refunded) (- amount refunded) db;
     db2 \<leftarrow> adjust_balance (lim_seller order) refunded db1;
     t \<leftarrow> remove_object i (limit_orders db2);
     Some (db2\<lparr>limit_orders := t\<rparr>) }"

subsection \<open>Filling orders\<close>

definition push_fill :: "object_id_type \<Rightarrow> account_id_type \<Rightarrow> asset \<Rightarrow> asset \<Rightarrow> asset \<Rightarrow> database \<Rightarrow> database" where
  "push_fill oid acct pays receives fees db = push_applied_operation
     (Fill_Order_Op \<lparr>fo_order_id = oid, fo_account_id = acct, fo_pays = pays, fo_receives = receives, fo_fee = fees\<rparr>) db"

definition fill_limit_order :: "nat \<Rightarrow> asset \<Rightarrow> asset \<Rightarrow> database \<Rightarrow> (bool \<times> database) option" where
  "fill_limit_order i pays receives db = do {
     order \<leftarrow> get_object (limit_orders db) i;
     _ \<leftarrow> get_object (accounts db) (lim_seller order);
     (issuer_fees, db1) \<leftarrow> pay_market_fees (asset_id receives) receives db;
     net \<leftarrow> asset_minus receives issuer_fees;
     db2 \<leftarrow> pay_order (lim_seller order) net pays db1;
     let db3 = push_fill (limit_oid i) (lim_seller order) pays receives issuer_fees db2;
     if pays = lim_amount_for_sale order then do {
       t \<leftarrow> remove_object i (limit_orders db3);
       Some (True, db3\<lparr>limit_orders := t\<rparr>) }
     else do {
       t \<leftarrow> modify_object i (\<lambda>b. do { s \<leftarrow> share (lim_for_sale b - amount pays); Some (b\<lparr>lim_for_sale := s\<rparr>) })
              (limit_orders db3);
       let db4 = db3\<lparr>limit_orders := t\<rparr>;
       order' \<leftarrow> get_object (limit_orders db4) i;
       r \<leftarrow> lim_amount_to_receive order';
       if amount r = 0 then do { db5 \<leftarrow> cancel_order i db4; Some (True, db5) }
       else Some (False, db4) } }"

text \<open>The collateral that closing a call order frees goes back to the borrower.\<close>

definition release_collateral :: "asset option \<Rightarrow> asset \<Rightarrow> account_object \<Rightarrow> account_id_type \<Rightarrow> database \<Rightarrow> database option" where
  "release_collateral freed pays borrower who db =
     (if freed \<noteq> None \<or> asset_id pays = 0 then do {
        _ \<leftarrow> get_object (statistics db) (acct_statistics borrower);
        db1 \<leftarrow> (case freed of None \<Rightarrow> Some db | Some f \<Rightarrow> adjust_balance who f db);
        s \<leftarrow> modify_object (acct_statistics borrower)
               (\<lambda>b. do {
                  x \<leftarrow> (case freed of
                         Some f \<Rightarrow> if amount f > 0 then share (st_total_core_in_orders b - amount f)
                                   else Some (st_total_core_in_orders b)
                       | None \<Rightarrow> Some (st_total_core_in_orders b));
                  y \<leftarrow> (if asset_id pays = 0 then share (x - amount pays) else Some x);
                  Some (b\<lparr>st_total_core_in_orders := y\<rparr>) }) (statistics db1);
        Some (db1\<lparr>statistics := s\<rparr>) }
      else Some db)"

text \<open>
  The virtual operation of a call order that was filled reads its id and borrower after the object
  was removed; the model takes the values it had.
\<close>

definition fill_call_order :: "nat \<Rightarrow> asset \<Rightarrow> asset \<Rightarrow> database \<Rightarrow> (bool \<times> database) option" where
  "fill_call_order i pays receives db = do {
     order \<leftarrow> get_object (call_orders db) i;
     debt \<leftarrow> share (call_debt order - amount receives);
     collateral \<leftarrow> share (call_collateral order - amount pays);
     let order' = order\<lparr>call_debt := debt, call_collateral := collateral\<rparr>;
     let freed = (if debt = 0 then Some (call_get_collateral order') else None);
     let order'' = (if debt = 0 then order'\<lparr>call_collateral := 0\<rparr> else order');
     t \<leftarrow> modify_object i (\<lambda>_. Some order'') (call_orders db);
     let db1 = db\<lparr>call_orders := t\<rparr>;
     mia \<leftarrow> get_object (assets db1) (asset_id receives);
     d \<leftarrow> modify_object (ao_dynamic_asset_data_id mia)
            (\<lambda>o'. do { s \<leftarrow> share (dyn_current_supply o' - amount receives); Some (o'\<lparr>dyn_current_supply := s\<rparr>) })
            (asset_dyns db1);
     let db2 = db1\<lparr>asset_dyns := d\<rparr>;
     borrower \<leftarrow> get_object (accounts db2) (call_borrower order);
     db4 \<leftarrow> release_collateral freed pays borrower (call_borrower order) db2;
     db5 \<leftarrow> (case freed of
          None \<Rightarrow> Some db4
        | Some _ \<Rightarrow> do { t' \<leftarrow> remove_object i (call_orders db4); Some (db4\<lparr>call_orders := t'\<rparr>) });
     Some (freed \<noteq> None, push_fill (call_oid i) (call_borrower order) pays receives (mk_asset 0 (asset_id pays)) db5) }"

definition find_call :: "account_id_type \<Rightarrow> asset_id_type \<Rightarrow> database \<Rightarrow> (nat \<times> call_order_object) option" where
  "find_call acct debt db = find_first (\<lambda>c. call_borrower c = acct \<and> debt_type c = debt) (call_orders db)"

text \<open>The debt and the collateral that a filled short adds to the margin position of its seller.\<close>

definition short_to_call ::
  "short_order_object \<Rightarrow> asset \<Rightarrow> asset \<Rightarrow> asset \<Rightarrow> database \<Rightarrow> call_order_object table option" where
  "short_to_call order pays seller_to_collateral buyer_to_collateral db =
     (case find_call (sho_seller order) (asset_id pays) db of
       None \<Rightarrow> do {
         c \<leftarrow> share (amount seller_to_collateral + amount buyer_to_collateral);
         p \<leftarrow> price_max (asset_id seller_to_collateral) (asset_id pays);
         call \<leftarrow> update_call_price \<lparr>call_borrower = sho_seller order, call_collateral = c, call_debt = amount pays,
                   call_call_price = p, call_maintenance_collateral_ratio = sho_maintenance_collateral_ratio order\<rparr>;
         (_, t) \<leftarrow> gi_create call (call_orders db);
         Some t }
     | Some (j, _) \<Rightarrow>
         modify_object j (\<lambda>c. do {
           d \<leftarrow> share (call_debt c + amount pays);
           x \<leftarrow> share (amount seller_to_collateral + amount buyer_to_collateral);
           k \<leftarrow> share (call_collateral c + x);
           update_call_price (c\<lparr>call_debt := d, call_collateral := k,
             call_maintenance_collateral_ratio := sho_maintenance_collateral_ratio order\<rparr>) }) (call_orders db))"

definition seller_collateral :: "short_order_object \<Rightarrow> bitasset_options \<Rightarrow> asset \<Rightarrow> asset \<Rightarrow> asset option" where
  "seller_collateral order opt pays receives =
     (if prediction_market opt then do {
        x \<leftarrow> share (amount pays - amount receives);
        Some (mk_asset x 0) }
      else if pays = sho_amount_for_sale order then Some (sho_get_collateral order)
      else asset_mult pays (sho_sell_price order))"

text \<open>
  The short order itself after a fill: removed when it was taken whole, otherwise reduced, and removed
  with a refund when what is left would buy nothing.
\<close>

definition reduce_short :: "nat \<Rightarrow> bool \<Rightarrow> account_object \<Rightarrow> asset \<Rightarrow> asset \<Rightarrow> database \<Rightarrow> (bool \<times> database) option" where
  "reduce_short i filled seller pays seller_to_collateral db =
     (if filled then do {
        t \<leftarrow> remove_object i (short_orders db);
        Some (True, db\<lparr>short_orders := t\<rparr>) }
      else do {
        t \<leftarrow> modify_object i (\<lambda>o'. do {
               s \<leftarrow> share (sho_for_sale o' - amount pays);
               k \<leftarrow> share (sho_available_collateral o' - amount seller_to_collateral);
               Some (o'\<lparr>sho_for_sale := s, sho_available_collateral := k\<rparr>) }) (short_orders db);
        let db1 = db\<lparr>short_orders := t\<rparr>;
        order' \<leftarrow> get_object (short_orders db1) i;
        r \<leftarrow> sho_amount_to_receive order';
        if amount r = 0 then do {
          db2 \<leftarrow> adjust_balance (sho_seller order') (sho_get_collateral order') db1;
          db3 \<leftarrow> (if asset_id (sho_get_collateral order') = 0
                  then core_in_orders seller 0 (- sho_available_collateral order') db2 else Some db2);
          t' \<leftarrow> remove_object i (short_orders db3);
          Some (True, db3\<lparr>short_orders := t'\<rparr>) }
        else Some (False, db1) })"

definition fill_short_order :: "nat \<Rightarrow> asset \<Rightarrow> asset \<Rightarrow> database \<Rightarrow> (bool \<times> database) option" where
  "fill_short_order i pays receives db = do {
     order \<leftarrow> get_object (short_orders db) i;
     seller \<leftarrow> get_object (accounts db) (sho_seller order);
     pays_asset \<leftarrow> get_object (assets db) (asset_id pays);
     (issuer_fees, db1) \<leftarrow> pay_market_fees (asset_id receives) receives db;
     let filled = (pays = sho_amount_for_sale order);
     b \<leftarrow> ao_bitasset_data_id pays_asset;
     bitasset \<leftarrow> get_object (bitassets db1) b;
     seller_to_collateral \<leftarrow> seller_collateral order (bd_options bitasset) pays receives;
     buyer_to_collateral \<leftarrow> asset_minus receives issuer_fees;
     db2 \<leftarrow> (if asset_id receives = 0 then core_in_orders seller 0 (amount buyer_to_collateral) db1 else Some db1);
     d \<leftarrow> modify_object (ao_dynamic_asset_data_id pays_asset)
            (\<lambda>o'. do { s \<leftarrow> share (dyn_current_supply o' + amount pays); Some (o'\<lparr>dyn_current_supply := s\<rparr>) })
            (asset_dyns db2);
     let db3 = db2\<lparr>asset_dyns := d\<rparr>;
     c \<leftarrow> short_to_call order pays seller_to_collateral buyer_to_collateral db3;
     let db4 = db3\<lparr>call_orders := c\<rparr>;
     (filled', db5) \<leftarrow>
       reduce_short i filled seller pays seller_to_collateral db4;
     Some (filled', push_fill (short_oid i) (sho_seller order) pays receives issuer_fees db5) }"

definition fill_settle_order :: "nat \<Rightarrow> asset \<Rightarrow> asset \<Rightarrow> database \<Rightarrow> (bool \<times> database) option" where
  "fill_settle_order i pays receives db = do {
     settle \<leftarrow> get_object (settlements db) i;
     (issuer_fees, db1) \<leftarrow> pay_market_fees (asset_id receives) receives db;
     (filled, db2) \<leftarrow>
       (if asset_lt pays (fs_balance settle) then do {
          t \<leftarrow> modify_object i (\<lambda>s. do { b \<leftarrow> asset_minus (fs_balance s) pays; Some (s\<lparr>fs_balance := b\<rparr>) })
                 (settlements db1);
          Some (False, db1\<lparr>settlements := t\<rparr>) }
        else do {
          t \<leftarrow> remove_object i (settlements db1);
          Some (True, db1\<lparr>settlements := t\<rparr>) });
     net \<leftarrow> asset_minus receives issuer_fees;
     db3 \<leftarrow> adjust_balance (fs_owner settle) net db2;
     Some (filled, push_fill (settlement_oid i) (fs_owner settle) pays receives issuer_fees db3) }"

subsection \<open>Matching\<close>

text \<open>What each side pays at a price: the smaller offer is taken whole.\<close>

definition match_amounts :: "asset \<Rightarrow> asset \<Rightarrow> price \<Rightarrow> (asset \<times> asset) option" where
  "match_amounts usd_for_sale core_for_sale match_price = do {
     c \<leftarrow> asset_mult core_for_sale match_price;
     if asset_le usd_for_sale c then do {
       u \<leftarrow> asset_mult usd_for_sale match_price;
       Some (usd_for_sale, u) }
     else do {
       u \<leftarrow> asset_mult core_for_sale match_price;
       Some (u, core_for_sale) } }"

definition filled_bits :: "bool \<Rightarrow> bool \<Rightarrow> int" where
  "filled_bits first second = (if first then 1 else 0) OR push_bit 1 (if second then 1 else 0)"

definition match_limit_limit :: "nat \<Rightarrow> nat \<Rightarrow> price \<Rightarrow> database \<Rightarrow> (int \<times> database) option" where
  "match_limit_limit i j match_price db = do {
     usd \<leftarrow> get_object (limit_orders db) i;
     core \<leftarrow> get_object (limit_orders db) j;
     (usd_pays, core_pays) \<leftarrow> match_amounts (lim_amount_for_sale usd) (lim_amount_for_sale core) match_price;
     (f1, db1) \<leftarrow> fill_limit_order i usd_pays core_pays db;
     (f2, db2) \<leftarrow> fill_limit_order j core_pays usd_pays db1;
     Some (filled_bits f1 f2, db2) }"

definition match_limit_short :: "nat \<Rightarrow> nat \<Rightarrow> price \<Rightarrow> database \<Rightarrow> (int \<times> database) option" where
  "match_limit_short i j match_price db = do {
     usd \<leftarrow> get_object (limit_orders db) i;
     core \<leftarrow> get_object (short_orders db) j;
     (usd_pays, core_pays) \<leftarrow> match_amounts (lim_amount_for_sale usd) (sho_amount_for_sale core) match_price;
     (f1, db1) \<leftarrow> fill_limit_order i usd_pays core_pays db;
     (f2, db2) \<leftarrow> fill_short_order j core_pays usd_pays db1;
     Some (filled_bits f1 f2, db2) }"

definition match_call_settle :: "nat \<Rightarrow> nat \<Rightarrow> price \<Rightarrow> asset \<Rightarrow> database \<Rightarrow> (asset \<times> database) option" where
  "match_call_settle i j match_price max_settlement db = do {
     call \<leftarrow> get_object (call_orders db) i;
     settle \<leftarrow> get_object (settlements db) j;
     let settle_for_sale = asset_min (fs_balance settle) max_settlement;
     let call_receives = asset_min settle_for_sale (call_get_debt call);
     call_pays \<leftarrow> asset_mult call_receives match_price;
     (_, db1) \<leftarrow> fill_call_order i call_pays call_receives db;
     (_, db2) \<leftarrow> fill_settle_order j call_receives call_pays db1;
     Some (call_receives, db2) }"

subsection \<open>The price indexes\<close>

text \<open>
  Limit and short orders are kept by falling price, call orders by rising price, ties by id. An
  iterator is the id it points at, or \<open>None\<close> for the end of the container.
\<close>

definition falling :: "('a \<Rightarrow> price) \<Rightarrow> nat \<times> 'a \<Rightarrow> nat \<times> 'a \<Rightarrow> bool" where
  "falling p x y \<longleftrightarrow> price_gt (p (snd x)) (p (snd y)) \<or> \<not> price_gt (p (snd y)) (p (snd x)) \<and> fst x < fst y"

definition rising :: "('a \<Rightarrow> price) \<Rightarrow> nat \<times> 'a \<Rightarrow> nat \<times> 'a \<Rightarrow> bool" where
  "rising p x y \<longleftrightarrow> price_lt (p (snd x)) (p (snd y)) \<or> \<not> price_lt (p (snd y)) (p (snd x)) \<and> fst x < fst y"

definition limit_by_price :: "database \<Rightarrow> (nat \<times> limit_order_object) list" where
  "limit_by_price db = sort_by (falling lim_sell_price) (entries (limit_orders db))"

definition short_by_price :: "database \<Rightarrow> (nat \<times> short_order_object) list" where
  "short_by_price db = sort_by (falling sho_sell_price) (entries (short_orders db))"

definition call_by_price :: "database \<Rightarrow> (nat \<times> call_order_object) list" where
  "call_by_price db = sort_by (rising call_call_price) (entries (call_orders db))"

definition first_id :: "(nat \<times> 'a \<Rightarrow> bool) \<Rightarrow> (nat \<times> 'a) list \<Rightarrow> nat option" where
  "first_id P xs = map_option fst (List.find P xs)"

text \<open>\<open>lower_bound\<close> and \<open>upper_bound\<close> of a price in a falling and in a rising index.\<close>

definition falling_lower :: "('a \<Rightarrow> price) \<Rightarrow> price \<Rightarrow> (nat \<times> 'a) list \<Rightarrow> nat option" where
  "falling_lower p q xs = first_id (\<lambda>x. \<not> price_gt (p (snd x)) q) xs"

definition falling_upper :: "('a \<Rightarrow> price) \<Rightarrow> price \<Rightarrow> (nat \<times> 'a) list \<Rightarrow> nat option" where
  "falling_upper p q xs = first_id (\<lambda>x. price_gt q (p (snd x))) xs"

definition rising_lower :: "('a \<Rightarrow> price) \<Rightarrow> price \<Rightarrow> (nat \<times> 'a) list \<Rightarrow> nat option" where
  "rising_lower p q xs = first_id (\<lambda>x. \<not> price_lt (p (snd x)) q) xs"

definition rising_upper :: "('a \<Rightarrow> price) \<Rightarrow> price \<Rightarrow> (nat \<times> 'a) list \<Rightarrow> nat option" where
  "rising_upper p q xs = first_id (\<lambda>x. price_lt q (p (snd x))) xs"

text \<open>\<open>++itr\<close>: the entry after \<open>i\<close>; advancing an iterator to nothing is undefined.\<close>

definition next_entry :: "nat \<Rightarrow> (nat \<times> 'a) list \<Rightarrow> nat option option" where
  "next_entry i xs = (case dropWhile (\<lambda>x. fst x \<noteq> i) xs of
     [] \<Rightarrow> None
   | _ # ys \<Rightarrow> Some (case ys of [] \<Rightarrow> None | y # _ \<Rightarrow> Some (fst y)))"

subsection \<open>What every order promises\<close>

text \<open>Options of assets in the ranges \<open>options_validate\<close> leaves: a market fee is never negative.\<close>

definition market_fees_ok :: "database \<Rightarrow> bool" where
  "market_fees_ok db \<longleftrightarrow> (\<forall>i x. gi_find (assets db) i = Some x \<longrightarrow>
     0 \<le> min_market_fee (ao_options x) \<and> 0 \<le> max_market_fee (ao_options x))"

definition book_ok :: "database \<Rightarrow> bool" where
  "book_ok db \<longleftrightarrow> tables_ok db \<and> market_fees_ok db"

locale fillable =
  fixes fill :: "nat \<Rightarrow> asset \<Rightarrow> asset \<Rightarrow> database \<Rightarrow> (bool \<times> database) option"
    and fits :: "database \<Rightarrow> nat \<Rightarrow> asset \<Rightarrow> asset \<Rightarrow> bool"
  assumes fill_moves: "book_ok db \<Longrightarrow> fits db i pays receives \<Longrightarrow> fill i pays receives db = Some (r, db') \<Longrightarrow>
      book_ok db' \<and> (\<forall>a. imbalance a db' = imbalance a db + amount_of a receives - amount_of a pays)"

text \<open>Two orders that fill each other; filling the first leaves the second as it was.\<close>

locale matching = first: fillable fill1 fits1 + second: fillable fill2 fits2 for fill1 fits1 fill2 fits2 +
  fixes apart :: "nat \<Rightarrow> nat \<Rightarrow> bool"
  assumes frame: "book_ok db \<Longrightarrow> apart i j \<Longrightarrow> fits1 db i p q \<Longrightarrow> fill1 i p q db = Some (r, db') \<Longrightarrow> fits2 db j p' q' \<Longrightarrow> fits2 db' j p' q'"
begin

lemma match_keeps_imbalance:
  assumes "book_ok db" "apart i j" "fits1 db i x y" "fits2 db j y x"
    and "fill1 i x y db = Some (r1, db1)" "fill2 j y x db1 = Some (r2, db2)"
  shows "book_ok db2 \<and> imbalance a db2 = imbalance a db"
proof -
  have 1: "book_ok db1" "imbalance a db1 = imbalance a db + amount_of a y - amount_of a x"
    using first.fill_moves [OF assms(1,3,5)] by simp_all
  have "fits2 db1 j y x" by (rule frame [OF assms(1,2,3,5,4)])
  from second.fill_moves [OF 1(1) this assms(6)] 1(2) show ?thesis by simp
qed

end

subsection \<open>Parts of a fill\<close>

lemma core_in_orders_Some:
  assumes "core_in_orders acct a x db = Some db'"
  obtains t f where "modify_object (acct_statistics acct) f (statistics db) = Some t" "db' = db\<lparr>statistics := t\<rparr>"
  using assms that unfolding core_in_orders_def Option.bind_eq_Some_conv by blast

lemma moves_core_in_orders:
  "core_in_orders acct b x db = Some db' \<Longrightarrow> tables_ok db \<Longrightarrow> moves db db' (\<lambda>_. 0) (\<lambda>_. 0)"
  by (erule core_in_orders_Some) (simp add: moves_neutral)

lemma core_in_orders_frame:
  assumes "core_in_orders acct b x db = Some db'"
  shows "assets db' = assets db" "limit_orders db' = limit_orders db" "short_orders db' = short_orders db"
    "call_orders db' = call_orders db" "settlements db' = settlements db" "asset_dyns db' = asset_dyns db"
    "bitassets db' = bitassets db" "accounts db' = accounts db" "balances db' = balances db"
  by (rule core_in_orders_Some [OF assms]; simp)+

lemma market_fee_nonneg:
  assumes "calculate_market_fee i x r = Some f" "0 \<le> min_market_fee (ao_options x)" "0 \<le> max_market_fee (ao_options x)"
  shows "0 \<le> amount f" "asset_id f = i"
  using assms by (auto simp: calculate_market_fee_def Let_def split: if_splits)

lemma pay_market_fees_moves:
  assumes "pay_market_fees i r db = Some (f, db')" "book_ok db"
  shows "moves db db' (\<lambda>a. amount_of a f) (\<lambda>_. 0)" "asset_id f = i" "0 \<le> amount f"
proof -
  obtain x where x: "gi_find (assets db) i = Some x" "calculate_market_fee i x r = Some f"
    and r: "(if amount f > 0 then do {
               t \<leftarrow> modify_object (ao_dynamic_asset_data_id x) (dyn_add_fees (amount f)) (asset_dyns db);
               Some (db\<lparr>asset_dyns := t\<rparr>) }
             else Some db) = Some db'"
    using assms(1) by (auto simp: pay_market_fees_def)
  have ok: "tables_ok db" "market_fees_ok db" using assms(2) by (simp_all add: book_ok_def)
  have f: "0 \<le> amount f" "asset_id f = i"
    using market_fee_nonneg [OF x(2)] ok(2) x(1) by (auto simp: market_fees_ok_def)
  then show "asset_id f = i" "0 \<le> amount f" by simp_all
  show "moves db db' (\<lambda>a. amount_of a f) (\<lambda>_. 0)"
  proof (cases "amount f > 0")
    case True
    then obtain t where t: "modify_object i (dyn_add_fees (amount f)) (asset_dyns db) = Some t"
      "db' = db\<lparr>asset_dyns := t\<rparr>" using r tables_okD(12) [OF ok(1) x(1)] by auto
    show ?thesis unfolding t(2)
      by (rule moves_cong [OF moves_dyn [OF t(1) ok(1), of "amount f" 0 0]]) (auto simp: amount_of_def f)
  next
    case False
    then have "amount f = 0" using f by simp
    moreover have "db' = db" using False r by simp
    moreover have "(\<lambda>a. amount_of a f) = (\<lambda>_. 0)" using \<open>amount f = 0\<close> by (auto simp: amount_of_def)
    ultimately show ?thesis using moves_refl [OF ok(1)] by simp
  qed
qed

lemma pay_market_fees_frame:
  assumes "pay_market_fees i r db = Some (f, db')"
  shows "assets db' = assets db" "limit_orders db' = limit_orders db" "short_orders db' = short_orders db"
    "call_orders db' = call_orders db" "settlements db' = settlements db" "bitassets db' = bitassets db"
    "accounts db' = accounts db"
  using assms by (auto simp: pay_market_fees_def split: if_splits)

lemma pay_order_moves:
  assumes "pay_order i r p db = Some db'" "tables_ok db"
  shows "moves db db' (\<lambda>a. amount_of a r) (\<lambda>_. 0)"
proof -
  obtain acct db1 where c: "core_in_orders acct (asset_id p) (- amount p) db = Some db1" "adjust_balance i r db1 = Some db'"
    using assms(1) by (auto simp: pay_order_def)
  note m1 = moves_core_in_orders [OF c(1) assms(2)]
  show ?thesis
    by (rule moves_cong [OF moves_trans [OF m1 moves_adjust [OF c(2) movesD(1) [OF m1]]]]) simp_all
qed

lemma pay_order_frame:
  assumes "pay_order i r p db = Some db'"
  shows "assets db' = assets db" "limit_orders db' = limit_orders db" "short_orders db' = short_orders db"
    "call_orders db' = call_orders db" "settlements db' = settlements db" "bitassets db' = bitassets db"
    "accounts db' = accounts db"
  using assms by (auto simp: pay_order_def core_in_orders_frame adjust_balance_frame)

lemma push_fill_frame [simp]:
  "assets (push_fill o' i p r f db) = assets db" "limit_orders (push_fill o' i p r f db) = limit_orders db"
  "short_orders (push_fill o' i p r f db) = short_orders db" "call_orders (push_fill o' i p r f db) = call_orders db"
  "settlements (push_fill o' i p r f db) = settlements db" "accounts (push_fill o' i p r f db) = accounts db"
  by (simp_all add: push_fill_def push_applied_operation_def)

lemma moves_push_fill: "tables_ok db \<Longrightarrow> moves db (push_fill o' i p r f db) (\<lambda>_. 0) (\<lambda>_. 0)"
  by (simp add: push_fill_def moves_neutral)

lemma cancel_order_moves:
  assumes "cancel_order i db = Some db'" "tables_ok db"
  shows "moves db db' (\<lambda>_. 0) (\<lambda>_. 0)"
    "assets db' = assets db" "short_orders db' = short_orders db"
    "\<And>j. j \<noteq> i \<Longrightarrow> gi_find (limit_orders db') j = gi_find (limit_orders db) j"
proof -
  obtain x acct db1 db2 t where c: "gi_find (limit_orders db) i = Some x"
    "core_in_orders acct (asset_id (lim_amount_for_sale x)) (- amount (lim_amount_for_sale x)) db = Some db1"
    "adjust_balance (lim_seller x) (lim_amount_for_sale x) db1 = Some db2"
    "remove_object i (limit_orders db2) = Some t" "db' = db2\<lparr>limit_orders := t\<rparr>"
    using assms(1) by (auto simp: cancel_order_def Let_def)
  note f = core_in_orders_frame [OF c(2)] adjust_balance_frame [OF c(3)]
  note m1 = moves_core_in_orders [OF c(2) assms(2)]
  note m2 = moves_trans [OF m1 moves_adjust [OF c(3) movesD(1) [OF m1]]]
  have x: "gi_find (limit_orders db2) i = Some x" using c(1) f by simp
  show "moves db db' (\<lambda>_. 0) (\<lambda>_. 0)" unfolding c(5)
    by (rule moves_cong [OF moves_trans [OF m2 moves_remove(1) [OF c(4) movesD(1) [OF m2] x]]]) simp_all
  show "assets db' = assets db" "short_orders db' = short_orders db" using f c(5) by simp_all
  show "gi_find (limit_orders db') j = gi_find (limit_orders db) j" if "j \<noteq> i" for j
    using that f c(4,5) by (auto simp: remove_object_Some gi_find_remove)
qed

subsection \<open>Limit orders\<close>

definition fits_limit :: "database \<Rightarrow> nat \<Rightarrow> asset \<Rightarrow> asset \<Rightarrow> bool" where
  "fits_limit db i pays receives \<longleftrightarrow> (\<exists>x. gi_find (limit_orders db) i = Some x \<and>
     asset_id pays = asset_id (base (lim_sell_price x)))"

text \<open>The fill up to the point where the order is removed or reduced.\<close>

lemma fill_limit_order_cases:
  assumes "fill_limit_order i pays receives db = Some (r, db')" "book_ok db"
  obtains x db3 where "gi_find (limit_orders db) i = Some x" "limit_orders db3 = limit_orders db"
    "assets db3 = assets db" "short_orders db3 = short_orders db"
    "moves db db3 (\<lambda>a. amount_of a receives) (\<lambda>_. 0)"
    "if pays = lim_amount_for_sale x
     then \<exists>t. remove_object i (limit_orders db3) = Some t \<and> r \<and> db' = db3\<lparr>limit_orders := t\<rparr>
     else \<exists>t. modify_object i (\<lambda>b. do { s \<leftarrow> share (lim_for_sale b - amount pays); Some (b\<lparr>lim_for_sale := s\<rparr>) })
                (limit_orders db3) = Some t \<and>
              (r \<and> cancel_order i (db3\<lparr>limit_orders := t\<rparr>) = Some db' \<or> \<not> r \<and> db' = db3\<lparr>limit_orders := t\<rparr>)"
proof -
  obtain x fees db1 net db2 where f: "gi_find (limit_orders db) i = Some x"
    "pay_market_fees (asset_id receives) receives db = Some (fees, db1)" "asset_minus receives fees = Some net"
    "pay_order (lim_seller x) net pays db1 = Some db2"
    and r: "(let db3 = push_fill (limit_oid i) (lim_seller x) pays receives fees db2 in
     if pays = lim_amount_for_sale x then do {
       t \<leftarrow> remove_object i (limit_orders db3);
       Some (True, db3\<lparr>limit_orders := t\<rparr>) }
     else do {
       t \<leftarrow> modify_object i (\<lambda>b. do { s \<leftarrow> share (lim_for_sale b - amount pays); Some (b\<lparr>lim_for_sale := s\<rparr>) })
              (limit_orders db3);
       let db4 = db3\<lparr>limit_orders := t\<rparr>;
       order' \<leftarrow> get_object (limit_orders db4) i;
       r \<leftarrow> lim_amount_to_receive order';
       if amount r = 0 then do { db5 \<leftarrow> cancel_order i db4; Some (True, db5) }
       else Some (False, db4) }) = Some (r, db')"
    using assms(1) unfolding fill_limit_order_def Option.bind_eq_Some_conv get_object_gi by fastforce
  let ?db3 = "push_fill (limit_oid i) (lim_seller x) pays receives fees db2"
  note m1 = pay_market_fees_moves [OF f(2) assms(2)]
  note m2 = moves_trans [OF m1(1) pay_order_moves [OF f(4) movesD(1) [OF m1(1)]]]
  have m3: "moves db ?db3 (\<lambda>a. amount_of a receives) (\<lambda>_. 0)"
    by (rule moves_cong [OF moves_trans [OF m2 moves_push_fill [OF movesD(1) [OF m2]]]])
      (use f(3) in \<open>auto simp: amount_of_def\<close>)
  show ?thesis
    by (rule that [OF f(1) _ _ _ m3])
      (use r in \<open>auto simp: Let_def pay_market_fees_frame [OF f(2)] pay_order_frame [OF f(4)] split: if_splits\<close>)
qed

lemma fill_limit_order_moves:
  assumes "fill_limit_order i pays receives db = Some (r, db')" "book_ok db" "fits_limit db i pays receives"
  shows "moves db db' (\<lambda>a. amount_of a receives - amount_of a pays) (\<lambda>_. 0)" "assets db' = assets db"
    "short_orders db' = short_orders db"
    "\<And>j. j \<noteq> i \<Longrightarrow> gi_find (limit_orders db') j = gi_find (limit_orders db) j"
proof -
  obtain x db3 where
    x: "gi_find (limit_orders db) i = Some x" and same: "limit_orders db3 = limit_orders db"
      "assets db3 = assets db" "short_orders db3 = short_orders db"
    and m3: "moves db db3 (\<lambda>a. amount_of a receives) (\<lambda>_. 0)"
    and r: "if pays = lim_amount_for_sale x
     then \<exists>t. remove_object i (limit_orders db3) = Some t \<and> r \<and> db' = db3\<lparr>limit_orders := t\<rparr>
     else \<exists>t. modify_object i (\<lambda>b. do { s \<leftarrow> share (lim_for_sale b - amount pays); Some (b\<lparr>lim_for_sale := s\<rparr>) })
                (limit_orders db3) = Some t \<and>
              (r \<and> cancel_order i (db3\<lparr>limit_orders := t\<rparr>) = Some db' \<or> \<not> r \<and> db' = db3\<lparr>limit_orders := t\<rparr>)"
    by (rule fill_limit_order_cases [OF assms(1,2)])
  note ok3 = movesD(1) [OF m3]
  have x3: "gi_find (limit_orders db3) i = Some x" using x same by simp
  have "moves db db' (\<lambda>a. amount_of a receives - amount_of a pays) (\<lambda>_. 0) \<and> assets db' = assets db \<and>
    short_orders db' = short_orders db \<and>
    (\<forall>j. j \<noteq> i \<longrightarrow> gi_find (limit_orders db') j = gi_find (limit_orders db) j)"
  proof (cases "pays = lim_amount_for_sale x")
    case True
    with r obtain t where t: "remove_object i (limit_orders db3) = Some t" "db' = db3\<lparr>limit_orders := t\<rparr>" by auto
    have "moves db db' (\<lambda>a. amount_of a receives - amount_of a pays) (\<lambda>_. 0)" unfolding t(2)
      by (rule moves_cong [OF moves_trans [OF m3 moves_remove(1) [OF t(1) ok3 x3]]]) (simp_all add: True)
    with t same show ?thesis by (auto simp: remove_object_Some gi_find_remove)
  next
    case False
    with r obtain t where t: "modify_object i (\<lambda>b. do { s \<leftarrow> share (lim_for_sale b - amount pays); Some (b\<lparr>lim_for_sale := s\<rparr>) })
                (limit_orders db3) = Some t"
      and d: "cancel_order i (db3\<lparr>limit_orders := t\<rparr>) = Some db' \<or> db' = db3\<lparr>limit_orders := t\<rparr>" by auto
    let ?y = "x\<lparr>lim_for_sale := lim_for_sale x - amount pays\<rparr>"
    have y: "(do { s \<leftarrow> share (lim_for_sale x - amount pays); Some (x\<lparr>lim_for_sale := s\<rparr>) }) = Some ?y"
      using t x3 by (auto simp: modify_object_Some)
    have id: "asset_id pays = asset_id (base (lim_sell_price x))"
      using assms(3) x by (auto simp: fits_limit_def)
    have m4: "moves db (db3\<lparr>limit_orders := t\<rparr>) (\<lambda>a. amount_of a receives - amount_of a pays) (\<lambda>_. 0)"
      by (rule moves_cong [OF moves_trans [OF m3 moves_modify(1) [OF t ok3 x3 y]]])
        (auto simp: amount_of_def lim_amount_for_sale_def id)
    from d show ?thesis
    proof
      assume c: "cancel_order i (db3\<lparr>limit_orders := t\<rparr>) = Some db'"
      note cm = cancel_order_moves [OF c movesD(1) [OF m4]]
      have "moves db db' (\<lambda>a. amount_of a receives - amount_of a pays) (\<lambda>_. 0)"
        by (rule moves_cong [OF moves_trans [OF m4 cm(1)]]) simp_all
      with cm(2-4) same t show ?thesis by (auto simp: modify_object_find)
    next
      assume "db' = db3\<lparr>limit_orders := t\<rparr>"
      with m4 same t show ?thesis by (auto simp: modify_object_find)
    qed
  qed
  then show "moves db db' (\<lambda>a. amount_of a receives - amount_of a pays) (\<lambda>_. 0)" "assets db' = assets db"
    "short_orders db' = short_orders db"
    "\<And>j. j \<noteq> i \<Longrightarrow> gi_find (limit_orders db') j = gi_find (limit_orders db) j"
    by blast+
qed

lemma fillable_by_moves:
  assumes "moves db db' h s" "assets db' = assets db" "book_ok db" "\<And>a. h a - s a = amount_of a receives - amount_of a pays"
  shows "book_ok db' \<and> (\<forall>a. imbalance a db' = imbalance a db + amount_of a receives - amount_of a pays)"
proof -
  have "book_ok db'" using assms(2,3) movesD(1) [OF assms(1)] by (simp add: book_ok_def market_fees_ok_def)
  moreover have "imbalance a db' = imbalance a db + amount_of a receives - amount_of a pays" for a
    using moves_imbalance [OF assms(1), of a] assms(4) [of a] by simp
  ultimately show ?thesis by blast
qed

interpretation limit: fillable fill_limit_order fits_limit
  by unfold_locales (rule fillable_by_moves [OF fill_limit_order_moves(1,2)]; simp)

interpretation limit_limit: matching fill_limit_order fits_limit fill_limit_order fits_limit "\<lambda>i j. i \<noteq> j"
proof
  fix i j p q db r db' p' q'
  assume "book_ok db" "i \<noteq> j" "fits_limit db i p q" "fill_limit_order i p q db = Some (r, db')" "fits_limit db j p' q'"
  then show "fits_limit db' j p' q'" using fill_limit_order_moves(4) [of i p q db r db' j] by (simp add: fits_limit_def)
qed

subsection \<open>Settlement orders\<close>

definition fits_settle :: "database \<Rightarrow> nat \<Rightarrow> asset \<Rightarrow> asset \<Rightarrow> bool" where
  "fits_settle db i pays receives \<longleftrightarrow> (\<exists>x. gi_find (settlements db) i = Some x \<and>
     asset_id pays = asset_id (fs_balance x) \<and> amount pays \<le> amount (fs_balance x))"

lemma fill_settle_order_moves:
  assumes "fill_settle_order i pays receives db = Some (r, db')" "book_ok db" "fits_settle db i pays receives"
  shows "moves db db' (\<lambda>a. amount_of a receives - amount_of a pays) (\<lambda>_. 0)" "assets db' = assets db"
proof -
  obtain x fees db1 db2 net db3 where f: "gi_find (settlements db) i = Some x"
    "pay_market_fees (asset_id receives) receives db = Some (fees, db1)"
    "asset_minus receives fees = Some net" "adjust_balance (fs_owner x) net db2 = Some db3"
    "db' = push_fill (settlement_oid i) (fs_owner x) pays receives fees db3"
    and two: "(if asset_lt pays (fs_balance x) then do {
          t \<leftarrow> modify_object i (\<lambda>s. do { b \<leftarrow> asset_minus (fs_balance s) pays; Some (s\<lparr>fs_balance := b\<rparr>) })
                 (settlements db1);
          Some (False, db1\<lparr>settlements := t\<rparr>) }
        else do {
          t \<leftarrow> remove_object i (settlements db1);
          Some (True, db1\<lparr>settlements := t\<rparr>) }) = Some (r, db2)"
    using assms(1) by (auto simp: fill_settle_order_def)
  note m1 = pay_market_fees_moves [OF f(2) assms(2)]
  note ok1 = movesD(1) [OF m1(1)]
  have x1: "gi_find (settlements db1) i = Some x" using f(1) pay_market_fees_frame [OF f(2)] by simp
  have fit: "asset_id pays = asset_id (fs_balance x)" "amount pays \<le> amount (fs_balance x)"
    using assms(3) f(1) by (auto simp: fits_settle_def)
  have m2: "moves db1 db2 (\<lambda>a. - amount_of a pays) (\<lambda>_. 0) \<and> assets db2 = assets db1"
  proof (cases "asset_lt pays (fs_balance x)")
    case True
    with two obtain t where t: "modify_object i (\<lambda>s. do { b \<leftarrow> asset_minus (fs_balance s) pays; Some (s\<lparr>fs_balance := b\<rparr>) })
                 (settlements db1) = Some t" "db2 = db1\<lparr>settlements := t\<rparr>" by auto
    let ?y = "x\<lparr>fs_balance := mk_asset (amount (fs_balance x) - amount pays) (asset_id (fs_balance x))\<rparr>"
    have y: "(do { b \<leftarrow> asset_minus (fs_balance x) pays; Some (x\<lparr>fs_balance := b\<rparr>) }) = Some ?y"
      using t(1) x1 by (auto simp: modify_object_Some)
    have "moves db1 db2 (\<lambda>a. - amount_of a pays) (\<lambda>_. 0)" unfolding t(2)
      by (rule moves_cong [OF moves_modify(4) [OF t(1) ok1 x1 y]]) (auto simp: amount_of_def fit)
    with t(2) show ?thesis by simp
  next
    case False
    with two obtain t where t: "remove_object i (settlements db1) = Some t" "db2 = db1\<lparr>settlements := t\<rparr>" by auto
    have "amount pays = amount (fs_balance x)" using False fit by (auto simp: asset_lt_def)
    then have "moves db1 db2 (\<lambda>a. - amount_of a pays) (\<lambda>_. 0)" unfolding t(2)
      by (intro moves_cong [OF moves_remove(4) [OF t(1) ok1 x1]]) (auto simp: amount_of_def fit)
    with t(2) show ?thesis by simp
  qed
  note m12 = moves_trans [OF m1(1) conjunct1 [OF m2]]
  note m3 = moves_trans [OF m12 moves_adjust [OF f(4) movesD(1) [OF m12]]]
  show "moves db db' (\<lambda>a. amount_of a receives - amount_of a pays) (\<lambda>_. 0)" unfolding f(5)
    by (rule moves_cong [OF moves_trans [OF m3 moves_push_fill [OF movesD(1) [OF m3]]]])
      (use f(3) in \<open>auto simp: amount_of_def\<close>)
  show "assets db' = assets db"
    using f(5) adjust_balance_frame(1) [OF f(4)] m2 pay_market_fees_frame(1) [OF f(2)] by simp
qed

interpretation settle: fillable fill_settle_order fits_settle
  by unfold_locales (rule fillable_by_moves [OF fill_settle_order_moves]; simp)

subsection \<open>Call orders\<close>

definition fits_call :: "database \<Rightarrow> nat \<Rightarrow> asset \<Rightarrow> asset \<Rightarrow> bool" where
  "fits_call db i pays receives \<longleftrightarrow> (\<exists>x. gi_find (call_orders db) i = Some x \<and>
     asset_id pays = asset_id (base (call_call_price x)))"

lemma release_collateral_moves:
  assumes "release_collateral freed pays b i db = Some db'" "tables_ok db"
  shows "moves db db' (\<lambda>a. case freed of None \<Rightarrow> 0 | Some f \<Rightarrow> amount_of a f) (\<lambda>_. 0)"
    "assets db' = assets db" "call_orders db' = call_orders db" "settlements db' = settlements db"
proof -
  have "moves db db' (\<lambda>a. case freed of None \<Rightarrow> 0 | Some f \<Rightarrow> amount_of a f) (\<lambda>_. 0) \<and>
    assets db' = assets db \<and> call_orders db' = call_orders db \<and> settlements db' = settlements db"
  proof (cases "freed \<noteq> None \<or> asset_id pays = 0")
    case True
    with assms(1) obtain db1 s g where d: "(case freed of None \<Rightarrow> Some db | Some f \<Rightarrow> adjust_balance i f db) = Some db1"
      "modify_object (acct_statistics b) g (statistics db1) = Some s" "db' = db1\<lparr>statistics := s\<rparr>"
      unfolding release_collateral_def Option.bind_eq_Some_conv by fastforce
    have m1: "moves db db1 (\<lambda>a. case freed of None \<Rightarrow> 0 | Some f \<Rightarrow> amount_of a f) (\<lambda>_. 0) \<and>
      assets db1 = assets db \<and> call_orders db1 = call_orders db \<and> settlements db1 = settlements db"
      using d(1) assms(2) by (cases freed) (auto simp: moves_refl moves_adjust adjust_balance_frame)
    have "moves db db' (\<lambda>a. case freed of None \<Rightarrow> 0 | Some f \<Rightarrow> amount_of a f) (\<lambda>_. 0)" unfolding d(3)
      by (rule moves_cong [OF moves_trans [OF conjunct1 [OF m1] moves_neutral(1) [OF movesD(1) [OF conjunct1 [OF m1]] d(2)]]]) simp_all
    with m1 d(3) show ?thesis by simp
  qed (use assms in \<open>simp add: release_collateral_def moves_refl\<close>)
  then show "moves db db' (\<lambda>a. case freed of None \<Rightarrow> 0 | Some f \<Rightarrow> amount_of a f) (\<lambda>_. 0)"
    "assets db' = assets db" "call_orders db' = call_orders db" "settlements db' = settlements db" by blast+
qed

lemma fill_call_order_parts:
  assumes "fill_call_order i pays receives db = Some (r, db')" "gi_find (call_orders db) i = Some x"
  defines "freed \<equiv> if call_debt x = amount receives
      then Some (mk_asset (call_collateral x - amount pays) (asset_id (base (call_call_price x)))) else None"
  defines "y \<equiv> x\<lparr>call_debt := call_debt x - amount receives,
      call_collateral := (if freed = None then call_collateral x - amount pays else 0)\<rparr>"
  obtains t mia d borrower db4 db5 where "modify_object i (\<lambda>_. Some y) (call_orders db) = Some t"
    "gi_find (assets db) (asset_id receives) = Some mia"
    "modify_object (ao_dynamic_asset_data_id mia)
       (\<lambda>o'. do { s \<leftarrow> share (dyn_current_supply o' - amount receives); Some (o'\<lparr>dyn_current_supply := s\<rparr>) })
       (asset_dyns db) = Some d"
    "release_collateral freed pays borrower (call_borrower x) (db\<lparr>call_orders := t, asset_dyns := d\<rparr>) = Some db4"
    "(case freed of None \<Rightarrow> Some db4
      | Some _ \<Rightarrow> do { t' \<leftarrow> remove_object i (call_orders db4); Some (db4\<lparr>call_orders := t'\<rparr>) }) = Some db5"
    "r = (freed \<noteq> None)"
    "db' = push_fill (call_oid i) (call_borrower x) pays receives (mk_asset 0 (asset_id pays)) db5"
proof -
  have y: "freed = (if call_debt x - amount receives = 0
      then Some (call_get_collateral (x\<lparr>call_debt := call_debt x - amount receives,
        call_collateral := call_collateral x - amount pays\<rparr>)) else None)"
    "y = (if call_debt x - amount receives = 0
      then x\<lparr>call_debt := call_debt x - amount receives, call_collateral := call_collateral x - amount pays\<rparr>\<lparr>call_collateral := 0\<rparr>
      else x\<lparr>call_debt := call_debt x - amount receives, call_collateral := call_collateral x - amount pays\<rparr>)"
    by (auto simp: y_def freed_def call_get_collateral_def)
  show ?thesis
    using assms(1,2) unfolding fill_call_order_def Let_def Option.bind_eq_Some_conv share_Some get_object_gi
    by clarsimp (rule that; simp add: y)
qed

lemma fill_call_order_moves:
  assumes "fill_call_order i pays receives db = Some (r, db')" "tables_ok db" "fits_call db i pays receives"
  shows "moves db db' (\<lambda>a. - amount_of a pays) (\<lambda>a. - amount_of a receives)"
    "assets db' = assets db" "settlements db' = settlements db"
proof -
  obtain x where x: "gi_find (call_orders db) i = Some x" and id: "asset_id pays = asset_id (base (call_call_price x))"
    using assms(3) by (auto simp: fits_call_def)
  define freed where "freed = (if call_debt x = amount receives
      then Some (mk_asset (call_collateral x - amount pays) (asset_id (base (call_call_price x)))) else None)"
  define y where "y = x\<lparr>call_debt := call_debt x - amount receives,
      call_collateral := (if freed = None then call_collateral x - amount pays else 0)\<rparr>"
  obtain t mia d borrower db4 db5 where f: "modify_object i (\<lambda>_. Some y) (call_orders db) = Some t"
    "gi_find (assets db) (asset_id receives) = Some mia"
    "modify_object (ao_dynamic_asset_data_id mia)
       (\<lambda>o'. do { s \<leftarrow> share (dyn_current_supply o' - amount receives); Some (o'\<lparr>dyn_current_supply := s\<rparr>) })
       (asset_dyns db) = Some d"
    "release_collateral freed pays borrower (call_borrower x) (db\<lparr>call_orders := t, asset_dyns := d\<rparr>) = Some db4"
    "(case freed of None \<Rightarrow> Some db4
      | Some _ \<Rightarrow> do { t' \<leftarrow> remove_object i (call_orders db4); Some (db4\<lparr>call_orders := t'\<rparr>) }) = Some db5"
    "db' = push_fill (call_oid i) (call_borrower x) pays receives (mk_asset 0 (asset_id pays)) db5"
    by (rule fill_call_order_parts [OF assms(1) x, folded freed_def, folded y_def])
  have mia: "ao_dynamic_asset_data_id mia = asset_id receives" using tables_okD(12) [OF assms(2) f(2)] .
  note m1 = moves_modify(3) [OF f(1) assms(2) x refl]
  have d: "modify_object (asset_id receives)
      (\<lambda>o'. do { s \<leftarrow> share (dyn_current_supply o' - amount receives); Some (o'\<lparr>dyn_current_supply := s\<rparr>) })
      (asset_dyns (db\<lparr>call_orders := t\<rparr>)) = Some d" using f(3) mia by simp
  note m2 = moves_trans [OF m1 moves_dyn [OF d movesD(1) [OF m1], of 0 0 "- amount receives"]]
  have m2': "moves db (db\<lparr>call_orders := t, asset_dyns := d\<rparr>)
      (\<lambda>a. amount_of a (call_get_collateral y) - amount_of a (call_get_collateral x)) (\<lambda>a. - amount_of a receives)"
    by (rule moves_cong [OF m2]) (auto simp: amount_of_def)
  note g = release_collateral_moves [OF f(4) movesD(1) [OF m2']]
  note m4 = moves_trans [OF m2' g(1)]
  have m5: "moves db db5 (\<lambda>a. - amount_of a pays) (\<lambda>a. - amount_of a receives) \<and> assets db5 = assets db \<and>
    settlements db5 = settlements db"
  proof (cases "freed = None")
    case True
    then have db5: "db5 = db4" using f(5) by simp
    have "moves db db4 (\<lambda>a. - amount_of a pays) (\<lambda>a. - amount_of a receives)"
      by (rule moves_cong [OF m4]) (auto simp: True y_def call_get_collateral_def amount_of_def id)
    with db5 g show ?thesis by simp
  next
    case False
    then obtain t' where t': "remove_object i (call_orders db4) = Some t'" "db5 = db4\<lparr>call_orders := t'\<rparr>"
      using f(5) by auto
    have fr: "freed = Some (mk_asset (call_collateral x - amount pays) (asset_id (base (call_call_price x))))"
      using False by (simp add: freed_def split: if_splits)
    have y4: "gi_find (call_orders db4) i = Some y" using g(3) modify_object_find [OF f(1), of i] x by simp
    have "moves db db5 (\<lambda>a. - amount_of a pays) (\<lambda>a. - amount_of a receives)" unfolding t'(2)
      by (rule moves_cong [OF moves_trans [OF m4 moves_remove(3) [OF t'(1) movesD(1) [OF m4] y4]]])
        (auto simp: fr y_def call_get_collateral_def amount_of_def id)
    with t'(2) g show ?thesis by simp
  qed
  show "moves db db' (\<lambda>a. - amount_of a pays) (\<lambda>a. - amount_of a receives)" unfolding f(6)
    by (rule moves_cong [OF moves_trans [OF conjunct1 [OF m5] moves_push_fill [OF movesD(1) [OF conjunct1 [OF m5]]]]]) simp_all
  show "assets db' = assets db" "settlements db' = settlements db" using f(6) m5 by simp_all
qed

interpretation call: fillable fill_call_order fits_call
proof
  fix db i pays receives r db'
  assume b: "book_ok db" "fits_call db i pays receives" "fill_call_order i pays receives db = Some (r, db')"
  then have ok: "tables_ok db" by (simp add: book_ok_def)
  note m = fill_call_order_moves [OF b(3) ok b(2)]
  show "book_ok db' \<and> (\<forall>a. imbalance a db' = imbalance a db + amount_of a receives - amount_of a pays)"
    by (rule fillable_by_moves [OF m(1,2) b(1)]) simp
qed

interpretation call_settle: matching fill_call_order fits_call fill_settle_order fits_settle "\<lambda>i j. True"
proof
  fix i j p q db r db' p' q'
  assume b: "book_ok db" "fits_call db i p q" "fill_call_order i p q db = Some (r, db')" "fits_settle db j p' q'"
  then have "tables_ok db" by (simp add: book_ok_def)
  from fill_call_order_moves(3) [OF b(3) this b(2)] b(4) show "fits_settle db' j p' q'" by (simp add: fits_settle_def)
qed

subsection \<open>Short orders\<close>

text \<open>
  The margin position a short fills, when there is one, is in the same pair of assets, and the asset
  sold short is not a prediction market.
\<close>

definition fits_short :: "database \<Rightarrow> nat \<Rightarrow> asset \<Rightarrow> asset \<Rightarrow> bool" where
  "fits_short db i pays receives \<longleftrightarrow> (\<exists>x a b bit. gi_find (short_orders db) i = Some x \<and>
     asset_id pays = asset_id (base (sho_sell_price x)) \<and> asset_id receives = asset_id (quote (sho_sell_price x)) \<and>
     asset_id pays \<noteq> asset_id receives \<and>
     gi_find (assets db) (asset_id pays) = Some a \<and> ao_bitasset_data_id a = Some b \<and>
     gi_find (bitassets db) b = Some bit \<and> \<not> prediction_market (bd_options bit) \<and>
     (\<forall>j c. find_call (sho_seller x) (asset_id pays) db = Some (j, c) \<longrightarrow>
        asset_id (base (call_call_price c)) = asset_id receives))"

lemma reduce_short_moves:
  assumes "reduce_short i filled seller pays k db = Some (r, db')" "tables_ok db"
    and x: "gi_find (short_orders db) i = Some x"
    and k: "asset_id k = asset_id (quote (sho_sell_price x))" "filled \<Longrightarrow> k = sho_get_collateral x"
  shows "moves db db' (\<lambda>a. - amount_of a k) (\<lambda>_. 0)" "assets db' = assets db"
proof -
  have "moves db db' (\<lambda>a. - amount_of a k) (\<lambda>_. 0) \<and> assets db' = assets db"
  proof (cases filled)
    case True
    with assms(1) obtain t where t: "remove_object i (short_orders db) = Some t" "db' = db\<lparr>short_orders := t\<rparr>"
      by (auto simp: reduce_short_def)
    show ?thesis unfolding t(2)
      using moves_remove(2) [OF t(1) assms(2) x] k(2) [OF True] by simp
  next
    case False
    then obtain t y where t: "modify_object i (\<lambda>o'. do {
               s \<leftarrow> share (sho_for_sale o' - amount pays);
               k \<leftarrow> share (sho_available_collateral o' - amount k);
               Some (o'\<lparr>sho_for_sale := s, sho_available_collateral := k\<rparr>) }) (short_orders db) = Some t"
      and y: "gi_find t i = Some y"
      and r: "db' = db\<lparr>short_orders := t\<rparr> \<or> (\<exists>db2 db3 t'. adjust_balance (sho_seller y) (sho_get_collateral y)
          (db\<lparr>short_orders := t\<rparr>) = Some db2 \<and>
         (if asset_id (sho_get_collateral y) = 0 then core_in_orders seller 0 (- sho_available_collateral y) db2
          else Some db2) = Some db3 \<and>
         remove_object i (short_orders db3) = Some t' \<and> db' = db3\<lparr>short_orders := t'\<rparr>)"
      using assms(1) unfolding reduce_short_def Let_def Option.bind_eq_Some_conv get_object_gi
      by (fastforce split: if_splits)
    have yx: "y = x\<lparr>sho_for_sale := sho_for_sale x - amount pays,
        sho_available_collateral := sho_available_collateral x - amount k\<rparr>"
      and fy: "(do { s \<leftarrow> share (sho_for_sale x - amount pays);
               k \<leftarrow> share (sho_available_collateral x - amount k);
               Some (x\<lparr>sho_for_sale := s, sho_available_collateral := k\<rparr>) }) = Some y"
      using t x y by (auto simp: modify_object_Some gi_find_modify)
    have m1: "moves db (db\<lparr>short_orders := t\<rparr>) (\<lambda>a. - amount_of a k) (\<lambda>_. 0)"
      by (rule moves_cong [OF moves_modify(2) [OF t assms(2) x fy]])
        (auto simp: yx sho_get_collateral_def amount_of_def k)
    from r show ?thesis
    proof
      assume "db' = db\<lparr>short_orders := t\<rparr>"
      with m1 show ?thesis by simp
    next
      assume "\<exists>db2 db3 t'. adjust_balance (sho_seller y) (sho_get_collateral y) (db\<lparr>short_orders := t\<rparr>) = Some db2 \<and>
         (if asset_id (sho_get_collateral y) = 0 then core_in_orders seller 0 (- sho_available_collateral y) db2
          else Some db2) = Some db3 \<and>
         remove_object i (short_orders db3) = Some t' \<and> db' = db3\<lparr>short_orders := t'\<rparr>"
      then obtain db2 db3 t' where d: "adjust_balance (sho_seller y) (sho_get_collateral y) (db\<lparr>short_orders := t\<rparr>) = Some db2"
         "(if asset_id (sho_get_collateral y) = 0 then core_in_orders seller 0 (- sho_available_collateral y) db2
          else Some db2) = Some db3"
         "remove_object i (short_orders db3) = Some t'" "db' = db3\<lparr>short_orders := t'\<rparr>" by blast
      note m2 = moves_trans [OF m1 moves_adjust [OF d(1) movesD(1) [OF m1]]]
      have m3: "moves db2 db3 (\<lambda>_. 0) (\<lambda>_. 0) \<and> short_orders db3 = short_orders db2 \<and> assets db3 = assets db2"
        using d(2) movesD(1) [OF m2]
        by (auto simp: moves_refl moves_core_in_orders core_in_orders_frame split: if_splits)
      note m23 = moves_trans [OF m2 conjunct1 [OF m3]]
      have y3: "gi_find (short_orders db3) i = Some y" using y m3 adjust_balance_frame(3) [OF d(1)] by simp
      have "moves db db' (\<lambda>a. - amount_of a k) (\<lambda>_. 0)" unfolding d(4)
        by (rule moves_cong [OF moves_trans [OF m23 moves_remove(2) [OF d(3) movesD(1) [OF m23] y3]]]) simp_all
      moreover have "assets db' = assets db" using d(4) m3 adjust_balance_frame(1) [OF d(1)] by simp
      ultimately show ?thesis by simp
    qed
  qed
  then show "moves db db' (\<lambda>a. - amount_of a k) (\<lambda>_. 0)" "assets db' = assets db" by blast+
qed

lemma update_call_price_Some:
  assumes "update_call_price c = Some d"
  shows "call_get_collateral d = call_get_collateral c" "call_collateral d = call_collateral c" "asset_id (base (call_call_price d)) = asset_id (base (call_call_price c))"
  using assms by (auto simp: update_call_price_def call_price_def call_get_collateral_def asset_div_def Let_def)

lemma short_to_call_moves:
  assumes "short_to_call order pays k b db = Some c" "tables_ok db"
    and id: "asset_id b = asset_id k"
      "\<And>j c. find_call (sho_seller order) (asset_id pays) db = Some (j, c) \<Longrightarrow> asset_id (base (call_call_price c)) = asset_id k"
  shows "moves db (db\<lparr>call_orders := c\<rparr>) (\<lambda>a. amount_of a k + amount_of a b) (\<lambda>_. 0)"
proof (cases "find_call (sho_seller order) (asset_id pays) db")
  case None
  with assms(1) obtain p call n where c: "price_max (asset_id k) (asset_id pays) = Some p"
    "update_call_price \<lparr>call_borrower = sho_seller order, call_collateral = amount k + amount b, call_debt = amount pays,
       call_call_price = p, call_maintenance_collateral_ratio = sho_maintenance_collateral_ratio order\<rparr> = Some call"
    "gi_create call (call_orders db) = Some (n, c)"
    by (auto simp: short_to_call_def)
  have "asset_id (base p) = asset_id k" using c(1) by (auto simp: price_max_def asset_div_def)
  then show ?thesis
    by (intro moves_cong [OF moves_create(3) [OF c(3) assms(2)]])
      (auto simp: update_call_price_Some [OF c(2)] call_get_collateral_def amount_of_def id)
next
  case (Some jc)
  then obtain j x where j: "find_call (sho_seller order) (asset_id pays) db = Some (j, x)" by (cases jc) auto
  have x: "gi_find (call_orders db) j = Some x"
    using j find_first_Some tables_okD(4) [OF assms(2)] by (auto simp: find_call_def)
  let ?f = "\<lambda>c. do {
           d \<leftarrow> share (call_debt c + amount pays);
           x \<leftarrow> share (amount k + amount b);
           m \<leftarrow> share (call_collateral c + x);
           update_call_price (c\<lparr>call_debt := d, call_collateral := m,
             call_maintenance_collateral_ratio := sho_maintenance_collateral_ratio order\<rparr>) }"
  have m: "modify_object j ?f (call_orders db) = Some c" using assms(1) j by (simp add: short_to_call_def)
  then obtain y where y: "?f x = Some y" using x by (auto simp: modify_object_Some)
  have u: "update_call_price (x\<lparr>call_debt := call_debt x + amount pays, call_collateral := call_collateral x + (amount k + amount b),
      call_maintenance_collateral_ratio := sho_maintenance_collateral_ratio order\<rparr>) = Some y"
    using y by (auto simp: Option.bind_eq_Some_conv)
  show ?thesis
    by (rule moves_cong [OF moves_modify(3) [OF m assms(2) x y]])
      (use id(2) [OF j] in \<open>auto simp: update_call_price_Some [OF u] call_get_collateral_def amount_of_def id(1)\<close>)
qed

lemma seller_collateral_Some:
  assumes "seller_collateral x opt pays receives = Some k" "\<not> prediction_market opt"
    "asset_id pays = asset_id (base (sho_sell_price x))" "asset_id pays \<noteq> asset_id (quote (sho_sell_price x))"
  shows "asset_id k = asset_id (quote (sho_sell_price x))" "pays = sho_amount_for_sale x \<Longrightarrow> k = sho_get_collateral x"
  using assms by (auto simp: seller_collateral_def sho_get_collateral_def asset_mult_def Let_def split: if_splits)

lemma fill_short_order_moves:
  assumes "fill_short_order i pays receives db = Some (r, db')" "book_ok db" "fits_short db i pays receives"
  shows "moves db db' (\<lambda>a. amount_of a receives) (\<lambda>a. amount_of a pays)" "assets db' = assets db"
proof -
  obtain x ast bi bit where x: "gi_find (short_orders db) i = Some x"
    and id: "asset_id pays = asset_id (base (sho_sell_price x))" "asset_id receives = asset_id (quote (sho_sell_price x))"
      "asset_id pays \<noteq> asset_id receives"
    and a: "gi_find (assets db) (asset_id pays) = Some ast" "ao_bitasset_data_id ast = Some bi"
      "gi_find (bitassets db) bi = Some bit" "\<not> prediction_market (bd_options bit)"
    and c: "\<And>j c. find_call (sho_seller x) (asset_id pays) db = Some (j, c) \<Longrightarrow>
      asset_id (base (call_call_price c)) = asset_id receives"
    using assms(3) by (auto simp: fits_short_def)
  obtain x' ast' bi' bit' seller fees db1 k net db2 d c4 db5 where
    p: "pay_market_fees (asset_id receives) receives db = Some (fees, db1)"
    and e: "gi_find (short_orders db) i = Some x'" "gi_find (assets db) (asset_id pays) = Some ast'"
      "ao_bitasset_data_id ast' = Some bi'" "gi_find (bitassets db1) bi' = Some bit'"
    and f: "seller_collateral x' (bd_options bit') pays receives = Some k"
    "asset_minus receives fees = Some net"
    "(if asset_id receives = 0 then core_in_orders seller 0 (amount net) db1 else Some db1) = Some db2"
    "modify_object (ao_dynamic_asset_data_id ast')
            (\<lambda>o'. do { s \<leftarrow> share (dyn_current_supply o' + amount pays); Some (o'\<lparr>dyn_current_supply := s\<rparr>) })
            (asset_dyns db2) = Some d"
    "short_to_call x' pays k net (db2\<lparr>asset_dyns := d\<rparr>) = Some c4"
    "reduce_short i (pays = sho_amount_for_sale x') seller pays k (db2\<lparr>asset_dyns := d, call_orders := c4\<rparr>) = Some (r, db5)"
    "db' = push_fill (short_oid i) (sho_seller x') pays receives fees db5"
    using assms(1) unfolding fill_short_order_def Let_def Option.bind_eq_Some_conv get_object_gi split_paired_Ex case_prod_conv
      option.inject prod.inject
    by (elim exE conjE) (rule that, assumption+, simp, rule sym, assumption)
  have [simp]: "x' = x" "ast' = ast" "bi' = bi" using e x a by simp_all
  have [simp]: "bit' = bit" using e(4) pay_market_fees_frame(6) [OF p] a(3) by simp
  note pm = pay_market_fees_moves [OF p assms(2)]
  have k: "asset_id k = asset_id receives" "pays = sho_amount_for_sale x \<Longrightarrow> k = sho_get_collateral x"
    using seller_collateral_Some [of x "bd_options bit" pays receives k] f(1) a(4) id by simp_all
  have net: "asset_id net = asset_id receives" "amount net = amount receives - amount fees" using f(2) by simp_all
  have m2: "moves db1 db2 (\<lambda>_. 0) (\<lambda>_. 0) \<and> short_orders db2 = short_orders db1 \<and> assets db2 = assets db1 \<and>
      call_orders db2 = call_orders db1"
    using f(3) movesD(1) [OF pm(1)] by (auto simp: moves_refl moves_core_in_orders core_in_orders_frame split: if_splits)
  note m12 = moves_trans [OF pm(1) conjunct1 [OF m2]]
  have d: "modify_object (asset_id pays)
            (\<lambda>o'. do { s \<leftarrow> share (dyn_current_supply o' + amount pays); Some (o'\<lparr>dyn_current_supply := s\<rparr>) })
            (asset_dyns db2) = Some d"
    using f(4) tables_okD(12) [OF _ a(1)] assms(2) by (simp add: book_ok_def)
  have md: "moves db2 (db2\<lparr>asset_dyns := d\<rparr>) (\<lambda>_. 0) (\<lambda>a. amount_of a pays)"
    by (rule moves_cong [OF moves_dyn [OF d movesD(1) [OF m12], of 0 0 "amount pays"]]) (auto simp: amount_of_def)
  note m3 = moves_trans [OF m12 md]
  have frame: "short_orders (db2\<lparr>asset_dyns := d\<rparr>) = short_orders db" "call_orders (db2\<lparr>asset_dyns := d\<rparr>) = call_orders db"
    using m2 pay_market_fees_frame [OF p] by simp_all
  have mc: "moves (db2\<lparr>asset_dyns := d\<rparr>) (db2\<lparr>asset_dyns := d\<rparr>\<lparr>call_orders := c4\<rparr>) (\<lambda>a. amount_of a k + amount_of a net) (\<lambda>_. 0)"
    by (rule short_to_call_moves [OF f(5) movesD(1) [OF m3]])
      (use c frame k net in \<open>auto simp: find_call_def\<close>)
  note m4 = moves_trans [OF m3 mc]
  have f6: "reduce_short i (pays = sho_amount_for_sale x) seller pays k (db2\<lparr>asset_dyns := d\<rparr>\<lparr>call_orders := c4\<rparr>) = Some (r, db5)"
    using f(6) by simp
  have x4: "gi_find (short_orders (db2\<lparr>asset_dyns := d\<rparr>\<lparr>call_orders := c4\<rparr>)) i = Some x" using frame x by simp
  have kq: "asset_id k = asset_id (quote (sho_sell_price x))" using k id by simp
  note rs = reduce_short_moves [OF f6 movesD(1) [OF m4] x4 kq k(2)]
  note m5 = moves_trans [OF m4 rs(1)]
  show "moves db db' (\<lambda>a. amount_of a receives) (\<lambda>a. amount_of a pays)" unfolding f(7)
    by (rule moves_cong [OF moves_trans [OF m5 moves_push_fill [OF movesD(1) [OF m5]]]])
      (use pm net k in \<open>auto simp: amount_of_def\<close>)
  show "assets db' = assets db" using f(7) rs m2 pay_market_fees_frame [OF p] by simp
qed

lemma cancel_order_frame:
  assumes "cancel_order i db = Some db'"
  shows "call_orders db' = call_orders db" "bitassets db' = bitassets db"
  using assms unfolding cancel_order_def Let_def
  by (auto simp: core_in_orders_frame(4,7) adjust_balance_frame(4,9))

lemma push_fill_bitassets [simp]: "bitassets (push_fill o' i p r f db) = bitassets db"
  by (simp add: push_fill_def push_applied_operation_def)

lemma fill_limit_order_frame:
  assumes "fill_limit_order i pays receives db = Some (r, db')"
  shows "call_orders db' = call_orders db" "bitassets db' = bitassets db"
  using assms unfolding fill_limit_order_def Let_def
  by (auto simp: cancel_order_frame pay_market_fees_frame(4,6) pay_order_frame(4,6) split: if_splits)

interpretation short: fillable fill_short_order fits_short
proof
  fix db i pays receives r db'
  assume b: "book_ok db" "fits_short db i pays receives" "fill_short_order i pays receives db = Some (r, db')"
  note m = fill_short_order_moves [OF b(3,1,2)]
  show "book_ok db' \<and> (\<forall>a. imbalance a db' = imbalance a db + amount_of a receives - amount_of a pays)"
    by (rule fillable_by_moves [OF m b(1)]) simp
qed

interpretation limit_short: matching fill_limit_order fits_limit fill_short_order fits_short "\<lambda>i j. True"
proof
  fix i j p q db r db' p' q'
  assume b: "book_ok db" "fits_limit db i p q" "fill_limit_order i p q db = Some (r, db')" "fits_short db j p' q'"
  from b(4) show "fits_short db' j p' q'"
    using fill_limit_order_moves(2,3) [OF b(3,1,2)] fill_limit_order_frame [OF b(3)]
    by (simp add: fits_short_def find_call_def)
qed

subsection \<open>Matching\<close>

text \<open>The price of a match is between the two assets that are traded.\<close>

definition price_between :: "price \<Rightarrow> asset_id_type \<Rightarrow> asset_id_type \<Rightarrow> bool" where
  "price_between p a b \<longleftrightarrow> a \<noteq> b \<and>
     (asset_id (base p) = a \<and> asset_id (quote p) = b \<or> asset_id (base p) = b \<and> asset_id (quote p) = a)"

lemma match_amounts_ids:
  assumes "match_amounts x y p = Some (u, c)" "price_between p (asset_id x) (asset_id y)"
  shows "asset_id u = asset_id x" "asset_id c = asset_id y"
  using assms by (auto simp: match_amounts_def price_between_def asset_mult_id split: if_splits)

lemma floor_mult_back:
  fixes u c p q :: int
  assumes "u \<le> c * p div q" "0 < p" "0 < q" "0 \<le> u"
  shows "u * q div p \<le> c"
proof -
  have "u * q \<le> (c * p div q) * q" using assms by (intro mult_right_mono) auto
  also have "\<dots> \<le> c * p" using assms(3) by (metis minus_mod_eq_div_mult [symmetric] pos_mod_sign diff_le_eq le_add_same_cancel1)
  finally have "u * q div p \<le> c * p div p" using assms(2) by (rule zdiv_mono1)
  then show ?thesis using assms(2) by simp
qed

text \<open>
  At the price of a match neither side pays more than it offered, and no payment is negative.\<close>

theorem match_amounts_within_offers:
  assumes "match_amounts x y p = Some (u, c)" "price_between p (asset_id x) (asset_id y)"
    and "amount_ok x" "amount_ok y" "price_ok p"
  shows "0 \<le> amount u \<and> amount u \<le> amount x \<and> 0 \<le> amount c \<and> amount c \<le> amount y"
proof -
  have ids: "asset_id x \<noteq> asset_id y" using assms(2) by (auto simp: price_between_def)
  obtain n d where nd: "\<And>r. asset_mult y p = Some r \<longleftrightarrow> amount y * n div d \<le> BTS_MAX_SHARE_SUPPLY \<and>
        r = mk_asset (amount y * n div d) (asset_id x)"
      "\<And>r. asset_mult x p = Some r \<longleftrightarrow> amount x * d div n \<le> BTS_MAX_SHARE_SUPPLY \<and>
        r = mk_asset (amount x * d div n) (asset_id y)" "0 < n" "0 < d"
  proof (cases "asset_id (base p) = asset_id y")
    case True
    then have i: "asset_id x = asset_id (quote p)" "asset_id y = asset_id (base p)" "asset_id (base p) \<noteq> asset_id (quote p)"
      using assms(2) unfolding price_between_def by metis+
    show ?thesis
    proof (rule that)
      show "0 < amount (quote p)" "0 < amount (base p)" using assms(5) by (simp_all add: price_ok_def)
    qed (simp_all only: i(1,2) asset_mult_base [OF i(2) assms(4,5)] asset_mult_quote [OF i(1,3) assms(3,5)])
  next
    case False
    then have i: "asset_id y = asset_id (quote p)" "asset_id x = asset_id (base p)" "asset_id (base p) \<noteq> asset_id (quote p)"
      using assms(2) unfolding price_between_def by metis+
    show ?thesis
    proof (rule that)
      show "0 < amount (base p)" "0 < amount (quote p)" using assms(5) by (simp_all add: price_ok_def)
    qed (simp_all only: i(1,2) asset_mult_base [OF i(2) assms(3,5)] asset_mult_quote [OF i(1,3) assms(4,5)])
  qed
  have nn: "0 \<le> amount x" "0 \<le> amount y" using assms(3,4) by (simp_all add: amount_ok_def)
  have "0 \<le> amount y * n div d" using nn nd(3,4) by (simp add: pos_imp_zdiv_nonneg_iff)
  moreover have "0 \<le> amount x * d div n" using nn nd(3,4) by (simp add: pos_imp_zdiv_nonneg_iff)
  moreover have "amount x * d div n \<le> amount y" if "amount x \<le> amount y * n div d"
    by (rule floor_mult_back [OF that nd(3,4) nn(1)])
  moreover have "u = mk_asset (amount y * n div d) (asset_id x) \<and> c = y \<and> \<not> amount x \<le> amount y * n div d \<or>
      u = x \<and> c = mk_asset (amount x * d div n) (asset_id y) \<and> amount x \<le> amount y * n div d"
  proof -
    obtain c' where c': "asset_mult y p = Some c'"
      "asset_le x c' \<and> u = x \<and> asset_mult x p = Some c \<or> \<not> asset_le x c' \<and> u = c' \<and> c = y"
      using assms(1) by (auto simp: match_amounts_def split: if_splits)
    have "c' = mk_asset (amount y * n div d) (asset_id x)" using c'(1) nd(1) by blast
    moreover have "asset_mult x p = Some c \<Longrightarrow> c = mk_asset (amount x * d div n) (asset_id y)" using nd(2) by blast
    ultimately show ?thesis using c'(2) by (auto simp: asset_le_def)
  qed
  ultimately show ?thesis using nn by auto
qed

text \<open>
  Matching two limit orders keeps the books of every asset balanced, market fees included.
\<close>

theorem match_limit_limit_conserves:
  assumes "book_ok db" "i \<noteq> j" "gi_find (limit_orders db) i = Some x" "gi_find (limit_orders db) j = Some y"
    and "price_between p (asset_id (base (lim_sell_price x))) (asset_id (base (lim_sell_price y)))"
    and "match_limit_limit i j p db = Some (bits, db')"
  shows "book_ok db' \<and> (\<forall>a. imbalance a db' = imbalance a db)"
proof -
  obtain u c f1 db1 f2 where f: "match_amounts (lim_amount_for_sale x) (lim_amount_for_sale y) p = Some (u, c)"
    "fill_limit_order i u c db = Some (f1, db1)" "fill_limit_order j c u db1 = Some (f2, db')"
    using assms(3,4,6) by (auto simp: match_limit_limit_def)
  have "asset_id u = asset_id (base (lim_sell_price x))" "asset_id c = asset_id (base (lim_sell_price y))"
    using match_amounts_ids [OF f(1)] assms(5) by (simp_all add: lim_amount_for_sale_def)
  then show ?thesis
    using limit_limit.match_keeps_imbalance [OF assms(1,2) _ _ f(2,3)] assms(3,4) by (simp add: fits_limit_def)
qed

text \<open>
  A short that is matched creates as much of the asset as it sells and locks what it receives as
  collateral: the books of every asset stay balanced.
\<close>

theorem match_limit_short_conserves:
  assumes "book_ok db" "gi_find (limit_orders db) i = Some x" "gi_find (short_orders db) j = Some y"
    and "price_between p (asset_id (base (lim_sell_price x))) (asset_id (base (sho_sell_price y)))"
    and "fits_short db j (sho_amount_for_sale y) (lim_amount_for_sale x)"
    and "match_limit_short i j p db = Some (bits, db')"
  shows "book_ok db' \<and> (\<forall>a. imbalance a db' = imbalance a db)"
proof -
  obtain u c f1 db1 f2 where f: "match_amounts (lim_amount_for_sale x) (sho_amount_for_sale y) p = Some (u, c)"
    "fill_limit_order i u c db = Some (f1, db1)" "fill_short_order j c u db1 = Some (f2, db')"
    using assms(2,3,6) by (auto simp: match_limit_short_def)
  have "asset_id u = asset_id (lim_amount_for_sale x)" "asset_id c = asset_id (sho_amount_for_sale y)"
    using match_amounts_ids [OF f(1)] assms(4) by (simp_all add: lim_amount_for_sale_def sho_amount_for_sale_def)
  then have "fits_limit db i u c" "fits_short db j c u"
    using assms(2,5) by (auto simp: fits_limit_def fits_short_def lim_amount_for_sale_def)
  then show ?thesis using limit_short.match_keeps_imbalance [OF assms(1) TrueI _ _ f(2,3)] by simp
qed

text \<open>
  A margin position that is settled burns as much of the asset as its owner's debt falls, against
  the collateral that goes to the settler: the books of every asset stay balanced.
\<close>

theorem match_call_settle_conserves:
  assumes "book_ok db" "gi_find (call_orders db) i = Some x" "gi_find (settlements db) j = Some y"
    and "asset_id (fs_balance y) = debt_type x" "asset_id m = debt_type x"
    and "price_between p (debt_type x) (asset_id (base (call_call_price x)))"
    and "match_call_settle i j p m db = Some (r, db')"
  shows "book_ok db' \<and> (\<forall>a. imbalance a db' = imbalance a db) \<and> amount r \<le> amount m \<and>
    amount r \<le> call_debt x \<and> amount r \<le> amount (fs_balance y)"
proof -
  define recv where "recv = asset_min (asset_min (fs_balance y) m) (call_get_debt x)"
  obtain pays f1 db1 f2 where f: "asset_mult recv p = Some pays"
    "fill_call_order i pays recv db = Some (f1, db1)" "fill_settle_order j recv pays db1 = Some (f2, db')" "r = recv"
    using assms(2,3,7) by (auto simp: match_call_settle_def Let_def recv_def)
  have r: "asset_id recv = debt_type x" "amount recv \<le> amount m" "amount recv \<le> call_debt x"
    "amount recv \<le> amount (fs_balance y)"
    using assms(4,5) by (auto simp: recv_def asset_min_def asset_lt_def call_get_debt_def)
  have "asset_id pays = asset_id (base (call_call_price x))"
    using asset_mult_id [OF f(1)] r(1) assms(6) by (auto simp: price_between_def split: if_splits)
  then have "fits_call db i pays recv" "fits_settle db j recv pays"
    using assms(2-4) r by (simp_all add: fits_call_def fits_settle_def)
  then show ?thesis using call_settle.match_keeps_imbalance [OF assms(1) TrueI _ _ f(2,3)] r f(4) by simp
qed

subsection \<open>A concrete market\<close>

text \<open>
  Two limit orders between core and asset 1, a short of asset 2 against core with a limit order that
  buys it, a margin position of 100 of asset 2 and a settlement of 60 of it.
\<close>

definition sample_market :: database where
  "sample_market = sample_database\<lparr>
     assets := gi_modify 1 (\<lambda>o'. o'\<lparr>ao_options := sample_options\<lparr>market_fee_percent := 100, max_market_fee := 1000,
       flags := charge_market_fee\<rparr>\<rparr>) (assets sample_database),
     limit_orders := table_of
       [\<lparr>lim_expiration = 100, lim_seller = 2, lim_for_sale = 1000, lim_sell_price = mk_price (mk_asset 1000 0) (mk_asset 100 1)\<rparr>,
        \<lparr>lim_expiration = 100, lim_seller = 1, lim_for_sale = 50, lim_sell_price = mk_price (mk_asset 1 1) (mk_asset 10 0)\<rparr>,
        \<lparr>lim_expiration = 100, lim_seller = 1, lim_for_sale = 500, lim_sell_price = mk_price (mk_asset 500 0) (mk_asset 50 2)\<rparr>],
     short_orders := table_of
       [\<lparr>sho_expiration = 100, sho_seller = 2, sho_for_sale = 80, sho_available_collateral = 800,
         sho_sell_price = mk_price (mk_asset 80 2) (mk_asset 800 0), sho_call_price = mk_price (mk_asset 1 0) (mk_asset 1 2),
         sho_initial_collateral_ratio = 2000, sho_maintenance_collateral_ratio = 1750\<rparr>],
     call_orders := table_of
       [\<lparr>call_borrower = 1, call_collateral = 2000, call_debt = 100,
         call_call_price = mk_price (mk_asset 1500 0) (mk_asset 100 2), call_maintenance_collateral_ratio = 1750\<rparr>],
     settlements := table_of [\<lparr>fs_owner = 2, fs_balance = mk_asset 60 2, fs_settlement_date = 0\<rparr>]\<rparr>"

lemmas sample_market_defs = sample_market_def sample_defs

lemma sample_market_ok: "book_ok sample_market"
proof -
  have a: "tables_ok sample_market"
    using sample_tables_ok
    by (auto simp: sample_market_def tables_ok_def gi_find_modify split: if_splits)
  have "market_fees_ok sample_market"
    by (auto simp: market_fees_ok_def sample_market_defs gi_find_modify nth_Cons' split: if_splits)
  with a show ?thesis by (simp add: book_ok_def)
qed

lemma match_amounts_within_offers_witness:
  "match_amounts (mk_asset 1000 0) (mk_asset 50 1) (mk_price (mk_asset 1000 0) (mk_asset 100 1)) =
     Some (mk_asset 500 0, mk_asset 50 1) \<and> (500::int) \<le> 1000"
proof -
  have m: "match_amounts (mk_asset 1000 0) (mk_asset 50 1) (mk_price (mk_asset 1000 0) (mk_asset 100 1)) =
     Some (mk_asset 500 0, mk_asset 50 1)" by code_simp
  show ?thesis
    using match_amounts_within_offers [OF m] m by (simp add: price_between_def amount_ok_def price_ok_def)
qed

lemma match_limit_limit_conserves_witness:
  "map_option (\<lambda>(bits, db'). (bits, imbalance 1 db' - imbalance 1 sample_market))
     (match_limit_limit 0 1 (mk_price (mk_asset 1000 0) (mk_asset 100 1)) sample_market) = Some (2, 0)"
proof -
  have "map_option fst (match_limit_limit 0 1 (mk_price (mk_asset 1000 0) (mk_asset 100 1)) sample_market) = Some 2"
    by code_simp
  then obtain db' where m: "match_limit_limit 0 1 (mk_price (mk_asset 1000 0) (mk_asset 100 1)) sample_market = Some (2, db')"
    by auto
  show ?thesis
    using match_limit_limit_conserves [OF sample_market_ok _ _ _ _ m] m
    by (simp add: sample_market_def price_between_def)
qed

lemma match_limit_short_conserves_witness:
  "map_option (\<lambda>(bits, db'). (bits, imbalance 2 db' - imbalance 2 sample_market))
     (match_limit_short 2 0 (mk_price (mk_asset 80 2) (mk_asset 800 0)) sample_market) = Some (1, 0)"
proof -
  have "map_option fst (match_limit_short 2 0 (mk_price (mk_asset 80 2) (mk_asset 800 0)) sample_market) = Some 1"
    by code_simp
  then obtain db' where m: "match_limit_short 2 0 (mk_price (mk_asset 80 2) (mk_asset 800 0)) sample_market = Some (1, db')"
    by auto
  have "find_call 2 2 sample_market = None" by code_simp
  then have "fits_short sample_market 0 (mk_asset 80 2) (mk_asset 500 0)"
    by (simp add: fits_short_def sample_market_defs gi_find_modify)
  then show ?thesis
    using match_limit_short_conserves [OF sample_market_ok _ _ _ _ m] m
    by (simp add: sample_market_def price_between_def sho_amount_for_sale_def lim_amount_for_sale_def)
qed

lemma match_call_settle_conserves_witness:
  "map_option (\<lambda>(paid, db'). (paid, imbalance 0 db' - imbalance 0 sample_market))
     (match_call_settle 0 0 (mk_price (mk_asset 10 0) (mk_asset 1 2)) (mk_asset 40 2) sample_market) = Some (mk_asset 40 2, 0)"
proof -
  have "map_option fst (match_call_settle 0 0 (mk_price (mk_asset 10 0) (mk_asset 1 2)) (mk_asset 40 2) sample_market) = Some (mk_asset 40 2)"
    by code_simp
  then obtain db' where m: "match_call_settle 0 0 (mk_price (mk_asset 10 0) (mk_asset 1 2)) (mk_asset 40 2) sample_market =
      Some (mk_asset 40 2, db')" by auto
  show ?thesis
    using match_call_settle_conserves [OF sample_market_ok _ _ _ _ _ m] m
    by (simp add: sample_market_def price_between_def debt_type_def)
qed

end
