(* ===== verification/Margin.thy ===== *)
theory Margin
  imports Market
begin

section \<open>Margin calls and global settlement\<close>

text \<open>
  Models \<open>database::check_call_orders\<close> and \<open>database::globally_settle_asset\<close>
  (\<^verbatim>\<open>libraries/chain/database.cpp\<close>). Iterators are ids of orders, \<open>None\<close> at the end of a container; an
  iterator whose order was removed has no value, and reading through it ends the run, as does a loop
  that never returns.
\<close>

subsection \<open>Global settlement\<close>

text \<open>The ids an iterator passes on its way from \<open>from_itr\<close> to \<open>to_itr\<close>.\<close>

definition id_range :: "nat option \<Rightarrow> nat option \<Rightarrow> (nat \<times> 'a) list \<Rightarrow> nat list" where
  "id_range from_itr to_itr xs = takeWhile (\<lambda>i. Some i \<noteq> to_itr) (dropWhile (\<lambda>i. Some i \<noteq> from_itr) (map fst xs))"

text \<open>Every margin position in the range is closed at the settlement price.\<close>

fun settle_calls :: "nat list \<Rightarrow> price \<Rightarrow> asset \<Rightarrow> database \<Rightarrow> (asset \<times> database) option" where
  "settle_calls [] settle_price collateral_gathered db = Some (collateral_gathered, db)"
| "settle_calls (i # is) settle_price collateral_gathered db = do {
     order \<leftarrow> get_object (call_orders db) i;
     pays \<leftarrow> asset_mult (call_get_debt order) settle_price;
     gathered \<leftarrow> asset_plus collateral_gathered pays;
     (filled, db1) \<leftarrow> fill_call_order i pays (call_get_debt order) db;
     fc_assert filled;
     settle_calls is settle_price gathered db1 }"

fun cancel_orders :: "nat list \<Rightarrow> database \<Rightarrow> database option" where
  "cancel_orders [] db = Some db"
| "cancel_orders (i # is) db = do { db1 \<leftarrow> cancel_order i db; cancel_orders is db1 }"

text \<open>
  The second and third loop over limit orders only advance past orders that sell the asset; at any
  other order they spin for ever.
\<close>

fun cancel_sellers :: "asset_id_type \<Rightarrow> nat list \<Rightarrow> database \<Rightarrow> database option" where
  "cancel_sellers mia [] db = Some db"
| "cancel_sellers mia (i # is) db = do {
     order \<leftarrow> get_object (limit_orders db) i;
     if asset_id (lim_amount_for_sale order) = mia
     then do { db1 \<leftarrow> cancel_order i db; cancel_sellers mia is db1 }
     else None }"

text \<open>Every balance of the asset is converted; \<open>total_mia_settled\<close> and the collateral left follow.\<close>

fun settle_balances :: "nat list \<Rightarrow> price \<Rightarrow> asset \<times> asset \<times> database \<Rightarrow> (asset \<times> asset \<times> database) option" where
  "settle_balances [] settle_price st = Some st"
| "settle_balances (i # is) settle_price (settled, gathered, db) = do {
     b \<leftarrow> get_object (balances db) i;
     let mia_balance = mk_asset (bal_balance b) (bal_asset_type b);
     if amount mia_balance > 0 then do {
       neg \<leftarrow> asset_neg mia_balance;
       db1 \<leftarrow> adjust_balance (bal_owner b) neg db;
       settled_amount \<leftarrow> asset_mult mia_balance settle_price;
       db2 \<leftarrow> adjust_balance (bal_owner b) settled_amount db1;
       s \<leftarrow> asset_plus settled mia_balance;
       g \<leftarrow> asset_minus gathered settled_amount;
       settle_balances is settle_price (s, g, db2) }
     else settle_balances is settle_price (settled, gathered, db) }"

definition balances_of_asset :: "asset_id_type \<Rightarrow> database \<Rightarrow> nat list" where
  "balances_of_asset a db = map fst (filter (\<lambda>(_, b). bal_asset_type b = a) (entries (balances db)))"

text \<open>
  The fees of the asset and what is left of the collateral. The bonds and bond offers that the code
  looks up by the id of the bitasset data, which is never the id of an asset, are left alone.
\<close>

definition settle_fees :: "asset_object \<Rightarrow> asset_object \<Rightarrow> asset \<Rightarrow> asset \<Rightarrow> database \<Rightarrow> (asset \<times> database) option" where
  "settle_fees mia backing settled gathered db = do {
     dyn \<leftarrow> get_object (asset_dyns db) (ao_dynamic_asset_data_id mia);
     x \<leftarrow> share (amount settled + dyn_accumulated_fees dyn);
     t \<leftarrow> modify_object (ao_dynamic_asset_data_id mia) (\<lambda>o'. Some (o'\<lparr>dyn_accumulated_fees := 0\<rparr>)) (asset_dyns db);
     let db1 = db\<lparr>asset_dyns := t\<rparr>;
     u \<leftarrow> modify_object (ao_dynamic_asset_data_id backing) (dyn_add_fees (amount gathered)) (asset_dyns db1);
     Some (mk_asset x (asset_id settled), db1\<lparr>asset_dyns := u\<rparr>) }"

definition globally_settle_asset :: "asset_id_type \<Rightarrow> price \<Rightarrow> database \<Rightarrow> database option" where
  "globally_settle_asset mia_id settle_price db = do {
     mia \<leftarrow> get_object (assets db) mia_id;
     bit_id \<leftarrow> ao_bitasset_data_id mia;
     bitasset \<leftarrow> get_object (bitassets db) bit_id;
     let backing_id = bd_short_backing_asset bitasset;
     backing \<leftarrow> get_object (assets db) backing_id;
     mia_dyn \<leftarrow> get_object (asset_dyns db) (ao_dynamic_asset_data_id mia);
     let original_mia_supply = dyn_current_supply mia_dyn;
     lo \<leftarrow> price_min backing_id mia_id;
     hi \<leftarrow> price_max backing_id mia_id;
     let calls = call_by_price db;
     (gathered, db1) \<leftarrow> settle_calls (id_range (rising_lower call_call_price lo calls) (rising_upper call_call_price hi calls) calls)
                          settle_price (mk_asset 0 backing_id) db;
     top \<leftarrow> price_max mia_id backing_id;
     let limits = limit_by_price db1;
     let limit_end = falling_upper lim_sell_price (price_inv (call_limit (bd_current_feed bitasset))) limits;
     db2 \<leftarrow> cancel_orders (id_range (falling_lower lim_sell_price top limits) limit_end limits) db1;
     db3 \<leftarrow> cancel_sellers mia_id (takeWhile (\<lambda>i. Some i \<noteq> limit_end) (map fst (limit_by_price db2))) db2;
     db4 \<leftarrow> cancel_sellers mia_id (takeWhile (\<lambda>i. Some i \<noteq> limit_end) (map fst (limit_by_price db3))) db3;
     (settled, left_over, db5) \<leftarrow> settle_balances (balances_of_asset mia_id db4) settle_price (mk_asset 0 mia_id, gathered, db4);
     (total_mia_settled, db6) \<leftarrow> settle_fees mia backing settled left_over db5;
     fc_assert (amount total_mia_settled = original_mia_supply);
     Some db6 }"

subsection \<open>Margin calls\<close>

record call_run =
  run_call :: "nat option"
  run_call_end :: "nat option"
  run_limit :: "nat option"
  run_limit_end :: "nat option"
  run_short :: "nat option"
  run_short_end :: "nat option"
  run_filled :: bool

text \<open>The better of the next limit and the next short order, or none when both are at their ends.\<close>

definition next_short :: "call_run \<Rightarrow> database \<Rightarrow> (bool \<times> price \<times> asset) option" where
  "next_short r db = do {
     j \<leftarrow> run_short r;
     s \<leftarrow> get_object (short_orders db) j;
     Some (False, sho_sell_price s, sho_amount_for_sale s) }"

definition next_order :: "call_run \<Rightarrow> database \<Rightarrow> (bool \<times> price \<times> asset) option option" where
  "next_order r db =
     (if run_limit r \<noteq> run_limit_end r then do {
        i \<leftarrow> run_limit r;
        l \<leftarrow> get_object (limit_orders db) i;
        let limit = (True, lim_sell_price l, lim_amount_for_sale l);
        if run_short r \<noteq> run_short_end r then do {
          (k, p, a) \<leftarrow> next_short r db;
          Some (Some (if price_lt (lim_sell_price l) p then (k, p, a) else limit)) }
        else Some (Some limit) }
      else if run_short r \<noteq> run_short_end r then map_option Some (next_short r db)
      else Some None)"

text \<open>Both sides of one fill, and the iterators moved on before their orders are removed.\<close>

definition fill_call_step ::
  "nat \<Rightarrow> bool \<Rightarrow> bool \<Rightarrow> bool \<Rightarrow> asset \<Rightarrow> asset \<Rightarrow> call_run \<Rightarrow> database \<Rightarrow> (call_run \<times> database) option" where
  "fill_call_step i is_limit filled_call filled_order usd core r db = do {
     call' \<leftarrow> (if filled_call then next_entry i (call_by_price db) else Some (Some i));
     (_, db1) \<leftarrow> fill_call_order i core usd db;
     let r1 = r\<lparr>run_call := call', run_filled := run_filled r \<or> filled_order\<rparr>;
     if is_limit then do {
       j \<leftarrow> run_limit r;
       l \<leftarrow> (if \<not> filled_call then next_entry j (limit_by_price db1) else Some (Some j));
       (_, db2) \<leftarrow> fill_limit_order j usd core db1;
       Some (r1\<lparr>run_limit := l\<rparr>, db2) }
     else do {
       j \<leftarrow> run_short r;
       s \<leftarrow> (if \<not> filled_call then next_entry j (short_by_price db1) else Some (Some j));
       (_, db2) \<leftarrow> fill_short_order j usd core db1;
       Some (r1\<lparr>run_short := s\<rparr>, db2) } }"

text \<open>One round of the loop: \<open>Inl\<close> is a return from the function.\<close>

definition call_step :: "asset_id_type \<Rightarrow> call_run \<Rightarrow> database \<Rightarrow> (bool \<times> database + call_run \<times> database) option" where
  "call_step mia r db =
     (if run_call r = run_call_end r then Some (Inl (run_filled r, db))
      else do {
        o' \<leftarrow> next_order r db;
        case o' of None \<Rightarrow> Some (Inl (run_filled r, db))
        | Some (is_limit, match_price, usd_for_sale) \<Rightarrow> do {
            fc_assert (price_validate match_price);
            i \<leftarrow> run_call r;
            call \<leftarrow> get_object (call_orders db) i;
            if price_gt match_price (price_inv (call_call_price call)) then Some (Inl (run_filled r, db))
            else do {
              let usd_to_buy = call_get_debt call;
              cost \<leftarrow> asset_mult usd_to_buy match_price;
              swan \<leftarrow> asset_gt cost (call_get_collateral call);
              if swan then do {
                p \<leftarrow> asset_div (call_get_debt call) (call_get_collateral call);
                db1 \<leftarrow> globally_settle_asset mia p db;
                Some (Inl (True, db1)) }
              else do {
                whole \<leftarrow> asset_ge usd_to_buy usd_for_sale;
                if whole then do {
                  core \<leftarrow> asset_mult usd_for_sale match_price;
                  x \<leftarrow> fill_call_step i is_limit (usd_to_buy = usd_for_sale) True usd_for_sale core r db;
                  Some (Inr x) }
                else do {
                  x \<leftarrow> fill_call_step i is_limit True False usd_to_buy cost r db;
                  Some (Inr x) } } } } })"

partial_function (option) call_loop :: "asset_id_type \<Rightarrow> call_run \<Rightarrow> database \<Rightarrow> (bool \<times> database) option" where
  [code]: "call_loop mia r db = do {
     x \<leftarrow> call_step mia r db;
     case x of Inl y \<Rightarrow> Some y | Inr (r', db') \<Rightarrow> call_loop mia r' db' }"

definition start_calls :: "asset_id_type \<Rightarrow> asset_bitasset_data_object \<Rightarrow> database \<Rightarrow> call_run option" where
  "start_calls mia_id bitasset db = do {
     let backing_id = bd_short_backing_asset bitasset;
     let limit = price_inv (call_limit (bd_current_feed bitasset));
     top \<leftarrow> price_max mia_id backing_id;
     lo \<leftarrow> price_min backing_id mia_id;
     hi \<leftarrow> price_max backing_id mia_id;
     Some \<lparr>run_call = rising_lower call_call_price lo (call_by_price db),
       run_call_end = rising_upper call_call_price hi (call_by_price db),
       run_limit = falling_lower lim_sell_price top (limit_by_price db),
       run_limit_end = falling_upper lim_sell_price limit (limit_by_price db),
       run_short = falling_lower sho_sell_price top (short_by_price db),
       run_short_end = falling_upper sho_sell_price limit (short_by_price db), run_filled = False\<rparr> }"

definition check_call_orders :: "asset_id_type \<Rightarrow> database \<Rightarrow> (bool \<times> database) option" where
  "check_call_orders mia_id db = do {
     mia \<leftarrow> get_object (assets db) mia_id;
     if \<not> is_market_issued mia then Some (False, db)
     else do {
       bit_id \<leftarrow> ao_bitasset_data_id mia;
       bitasset \<leftarrow> get_object (bitassets db) bit_id;
       if is_null (call_limit (bd_current_feed bitasset)) then Some (False, db)
       else if prediction_market (bd_options bitasset) then Some (False, db)
       else do {
         r \<leftarrow> start_calls mia_id bitasset db;
         call_loop mia_id r db } } }"

subsection \<open>Global settlement: what moves\<close>

lemma release_collateral_calls:
  "release_collateral freed pays b i db = Some db' \<Longrightarrow> call_orders db' = call_orders db"
  unfolding release_collateral_def
  by (auto simp: adjust_balance_frame split: if_splits option.splits)

lemma fill_call_order_prices:
  assumes "fill_call_order i pays receives db = Some (r, db')" "gi_find (call_orders db') j = Some c'"
  obtains c where "gi_find (call_orders db) j = Some c" "call_call_price c' = call_call_price c"
proof -
  obtain x where x: "gi_find (call_orders db) i = Some x" using assms(1) by (auto simp: fill_call_order_def)
  define freed where "freed = (if call_debt x = amount receives
      then Some (mk_asset (call_collateral x - amount pays) (asset_id (base (call_call_price x)))) else None)"
  define y where "y = x\<lparr>call_debt := call_debt x - amount receives,
      call_collateral := (if freed = None then call_collateral x - amount pays else 0)\<rparr>"
  obtain t d borrower db4 db5 where f: "modify_object i (\<lambda>_. Some y) (call_orders db) = Some t"
    "release_collateral freed pays borrower (call_borrower x) (db\<lparr>call_orders := t, asset_dyns := d\<rparr>) = Some db4"
    "(case freed of None \<Rightarrow> Some db4
      | Some _ \<Rightarrow> do { t' \<leftarrow> remove_object i (call_orders db4); Some (db4\<lparr>call_orders := t'\<rparr>) }) = Some db5"
    "db' = push_fill (call_oid i) (call_borrower x) pays receives (mk_asset 0 (asset_id pays)) db5"
    by (rule fill_call_order_parts [OF assms(1) x, folded freed_def, folded y_def])
  have "gi_find t j = Some c'"
    using assms(2) f(3,4) release_collateral_calls [OF f(2)]
    by (auto simp: remove_object_Some gi_find_remove split: option.splits if_splits)
  then show ?thesis
    using that x modify_object_find [OF f(1), of j] by (auto simp: y_def split: if_splits)
qed

text \<open>Every margin position of the asset is backed by the asset that backs it.\<close>

definition backed_by :: "asset_id_type \<Rightarrow> asset_id_type \<Rightarrow> database \<Rightarrow> bool" where
  "backed_by mia k db \<longleftrightarrow> (\<forall>i c. gi_find (call_orders db) i = Some c \<longrightarrow> debt_type c = mia \<longrightarrow>
     asset_id (base (call_call_price c)) = k)"

lemma backed_by_fill:
  "fill_call_order i pays receives db = Some (r, db') \<Longrightarrow> backed_by mia k db \<Longrightarrow> backed_by mia k db'"
  unfolding backed_by_def debt_type_def by (metis fill_call_order_prices)

lemma asset_mult_market: "asset_mult a p = Some r \<Longrightarrow> asset_id a = asset_id (base p) \<or> asset_id a = asset_id (quote p)"
  by (auto simp: asset_mult_def split: if_splits)

lemma settle_calls_moves:
  assumes "settle_calls is p g db = Some (g', db')" "tables_ok db" "price_between p mia k" "asset_id g = k" "backed_by mia k db"
  shows "asset_id g' = k \<and> assets db' = assets db \<and>
    (\<exists>D. moves db db' (\<lambda>a. amount_of a g - amount_of a g') (\<lambda>a. if a = mia then - D else 0))"
  using assms
proof (induction "is" arbitrary: g db)
  case Nil
  then show ?case by (auto intro!: exI [of _ 0] moves_cong [OF moves_refl])
next
  case (Cons i "is")
  from Cons.prems(1) obtain c pays gath db1 where f: "gi_find (call_orders db) i = Some c"
    "asset_mult (call_get_debt c) p = Some pays" "asset_plus g pays = Some gath"
    "fill_call_order i pays (call_get_debt c) db = Some (True, db1)" "settle_calls is p gath db1 = Some (g', db')"
    by auto
  have pk: "asset_id pays = k" using f(3) Cons.prems(4) by auto
  then have dt: "debt_type c = mia"
    using asset_mult_id [OF f(2)] asset_mult_market [OF f(2)] Cons.prems(3)
    by (auto simp: price_between_def call_get_debt_def split: if_splits)
  then have "fits_call db i pays (call_get_debt c)" using f(1) Cons.prems(5) pk by (auto simp: fits_call_def backed_by_def)
  note m = fill_call_order_moves [OF f(4) Cons.prems(2) this]
  have gi: "asset_id gath = k" using f(3) Cons.prems(4) by auto
  obtain D where D: "asset_id g' = k" "assets db' = assets db1"
    "moves db1 db' (\<lambda>a. amount_of a gath - amount_of a g') (\<lambda>a. if a = mia then - D else 0)"
    using Cons.IH [OF f(5) movesD(1) [OF m(1)] Cons.prems(3) gi backed_by_fill [OF f(4) Cons.prems(5)]] by auto
  have "moves db db' (\<lambda>a. amount_of a g - amount_of a g') (\<lambda>a. if a = mia then - (D + call_debt c) else 0)"
    by (rule moves_cong [OF moves_trans [OF m(1) D(3)]])
      (use f(3) dt in \<open>auto simp: amount_of_def call_get_debt_def\<close>)
  with D(1,2) m(2) show ?case by auto
qed

lemma cancel_orders_moves:
  "cancel_orders is db = Some db' \<Longrightarrow> tables_ok db \<Longrightarrow> moves db db' (\<lambda>_. 0) (\<lambda>_. 0) \<and> assets db' = assets db"
proof (induction "is" arbitrary: db)
  case (Cons i "is")
  then obtain db1 where c: "cancel_order i db = Some db1" "cancel_orders is db1 = Some db'" by auto
  note m = cancel_order_moves [OF c(1) Cons.prems(2)]
  from Cons.IH [OF c(2) movesD(1) [OF m(1)]] m show ?case by (auto intro: moves_cong [OF moves_trans])
qed (simp add: moves_refl)

lemma cancel_sellers_orders: "cancel_sellers mia is db = Some db' \<Longrightarrow> cancel_orders is db = Some db'"
  by (induction "is" arbitrary: db) (auto split: if_splits)

lemma settle_balances_moves:
  assumes "settle_balances is p (x, g, db) = Some (x', g', db')" "tables_ok db"
  shows "asset_id x' = asset_id x \<and> asset_id g' = asset_id g \<and> assets db' = assets db \<and> asset_dyns db' = asset_dyns db \<and>
    moves db db' (\<lambda>a. amount_of a x - amount_of a x' + amount_of a g - amount_of a g') (\<lambda>_. 0)"
  using assms
proof (induction "is" arbitrary: x g db)
  case (Cons i "is")
  from Cons.prems(1) obtain b where b: "gi_find (balances db) i = Some b" by auto
  define y where "y = mk_asset (bal_balance b) (bal_asset_type b)"
  show ?case
  proof (cases "bal_balance b > 0")
    case True
    with Cons.prems(1) b obtain n db1 w db2 s h where f: "asset_neg y = Some n" "adjust_balance (bal_owner b) n db = Some db1"
      "asset_mult y p = Some w" "adjust_balance (bal_owner b) w db1 = Some db2" "asset_plus x y = Some s"
      "asset_minus g w = Some h" "settle_balances is p (s, h, db2) = Some (x', g', db')"
      by (auto simp: y_def Let_def)
    note m1 = moves_adjust [OF f(2) Cons.prems(2)]
    note m2 = moves_trans [OF m1 moves_adjust [OF f(4) movesD(1) [OF m1]]]
    note ih = Cons.IH [OF f(7) movesD(1) [OF m2]]
    have "moves db db' (\<lambda>a. amount_of a x - amount_of a x' + amount_of a g - amount_of a g') (\<lambda>_. 0)"
      by (rule moves_cong [OF moves_trans [OF m2]], use ih in blast)
        (use f(1,5,6) in \<open>auto simp: amount_of_def\<close>)
    with ih f(1,5,6) adjust_balance_frame [OF f(2)] adjust_balance_frame [OF f(4)] show ?thesis by auto
  next
    case False
    with Cons.prems b have "settle_balances is p (x, g, db) = Some (x', g', db')" by (simp add: Let_def)
    from Cons.IH [OF this Cons.prems(2)] show ?thesis .
  qed
qed (auto intro: moves_cong [OF moves_refl])

lemma settle_fees_moves:
  assumes "settle_fees mia backing x g db = Some (x', db')" "tables_ok db"
    and "ao_dynamic_asset_data_id mia = asset_id x" "ao_dynamic_asset_data_id backing = asset_id g"
  shows "asset_id x' = asset_id x" "assets db' = assets db"
    "moves db db' (\<lambda>a. amount_of a x - amount_of a x' + amount_of a g) (\<lambda>_. 0)"
proof -
  obtain d t u where f: "gi_find (asset_dyns db) (asset_id x) = Some d"
    "x' = mk_asset (amount x + dyn_accumulated_fees d) (asset_id x)"
    "modify_object (asset_id x) (\<lambda>o'. Some (o'\<lparr>dyn_accumulated_fees := 0\<rparr>)) (asset_dyns db) = Some t"
    "modify_object (asset_id g) (dyn_add_fees (amount g)) (asset_dyns (db\<lparr>asset_dyns := t\<rparr>)) = Some u"
    "db' = db\<lparr>asset_dyns := t\<rparr>\<lparr>asset_dyns := u\<rparr>"
    using assms(1,3,4) by (auto simp: settle_fees_def Let_def)
  have m1: "moves db (db\<lparr>asset_dyns := t\<rparr>) (\<lambda>a. if a = asset_id x then - dyn_accumulated_fees d else 0) (\<lambda>_. 0)"
    by (rule moves_cong [OF moves_dyn [OF f(3) assms(2), of "- dyn_accumulated_fees d" 0 0]]) (use f(1) in auto)
  have m2: "moves (db\<lparr>asset_dyns := t\<rparr>) db' (\<lambda>a. amount_of a g) (\<lambda>_. 0)" unfolding f(5)
    by (rule moves_cong [OF moves_dyn [OF f(4) movesD(1) [OF m1], of "amount g" 0 0]]) (auto simp: amount_of_def)
  show "moves db db' (\<lambda>a. amount_of a x - amount_of a x' + amount_of a g) (\<lambda>_. 0)"
    by (rule moves_cong [OF moves_trans [OF m1 m2]]) (auto simp: f(2) amount_of_def)
qed (use assms in \<open>auto simp: settle_fees_def Let_def\<close>)

text \<open>
  C31. When a global settlement returns, nobody holds the asset any more, so far as its books balanced
  before; every holder was paid in the asset that backs it, and the books of every other asset are as
  they were: the collateral went to the holders, the borrowers and the fees of the backing asset.
\<close>

theorem global_settlement_pays_out:
  assumes "tables_ok db" "gi_find (assets db) mia = Some ast" "ao_bitasset_data_id ast = Some b"
    and "gi_find (bitassets db) b = Some bita" "price_between p mia (bd_short_backing_asset bita)"
    and "backed_by mia (bd_short_backing_asset bita) db" "globally_settle_asset mia p db = Some db'"
  shows "tables_ok db' \<and> holdings mia db' = imbalance mia db \<and> (\<forall>a. a \<noteq> mia \<longrightarrow> imbalance a db' = imbalance a db)"
proof -
  let ?k = "bd_short_backing_asset bita"
  note dyn_id = tables_okD(12) [OF assms(1)]
  obtain backing dyn calls g db1 lims db2 l3 db3 l4 db4 bs settled left_over db5 total_settled
    where f: "gi_find (assets db) ?k = Some backing" "gi_find (asset_dyns db) (ao_dynamic_asset_data_id ast) = Some dyn"
      "settle_calls calls p (mk_asset 0 ?k) db = Some (g, db1)" "cancel_orders lims db1 = Some db2"
      "cancel_sellers mia l3 db2 = Some db3" "cancel_sellers mia l4 db3 = Some db4"
      "settle_balances bs p (mk_asset 0 mia, g, db4) = Some (settled, left_over, db5)"
      "settle_fees ast backing settled left_over db5 = Some (total_settled, db')"
      "amount total_settled = dyn_current_supply dyn"
    using assms(2-4,7) unfolding globally_settle_asset_def Let_def Option.bind_eq_Some_conv get_object_gi fc_assert_Some
      split_paired_Ex case_prod_conv
    by clarsimp
  have "supply_of mia db = dyn_current_supply dyn" using f(2) dyn_id [OF assms(2)] by (simp add: supply_of_def)
  moreover obtain D where c: "asset_id g = ?k" "assets db1 = assets db"
    "moves db db1 (\<lambda>a. amount_of a (mk_asset 0 ?k) - amount_of a g) (\<lambda>a. if a = mia then - D else 0)"
    using settle_calls_moves [OF f(3) assms(1,5) _ assms(6)] by auto
  note m2 = cancel_orders_moves [OF f(4) movesD(1) [OF c(3)]]
  note t2 = moves_trans [OF c(3) conjunct1 [OF m2]]
  note m3 = cancel_orders_moves [OF cancel_sellers_orders [OF f(5)] movesD(1) [OF t2]]
  note t3 = moves_trans [OF t2 conjunct1 [OF m3]]
  note m4 = cancel_orders_moves [OF cancel_sellers_orders [OF f(6)] movesD(1) [OF t3]]
  note t4 = moves_trans [OF t3 conjunct1 [OF m4]]
  have m5: "asset_id settled = mia" "asset_id left_over = ?k"
    "moves db4 db5 (\<lambda>a. - amount_of a settled + amount_of a g - amount_of a left_over) (\<lambda>_. 0)"
    using settle_balances_moves [OF f(7) movesD(1) [OF t4]] c(1) by simp_all
  note t5 = moves_trans [OF t4 m5(3)]
  have ids: "ao_dynamic_asset_data_id ast = asset_id settled" "ao_dynamic_asset_data_id backing = asset_id left_over"
    using dyn_id [OF assms(2)] dyn_id [OF f(1)] m5 by simp_all
  note m6 = settle_fees_moves [OF f(8) movesD(1) [OF t5] ids]
  have t6: "moves db db' (\<lambda>a. - amount_of a total_settled) (\<lambda>a. if a = mia then - D else 0)"
    by (rule moves_cong [OF moves_trans [OF t5 m6(3)]]) simp_all
  have "holdings a db' = holdings a db - amount_of a total_settled" for a using t6 by (simp add: moves_def)
  moreover have "imbalance a db' = imbalance a db - amount_of a total_settled - (if a = mia then - D else 0)" for a
    using moves_imbalance [OF t6, of a] by simp
  moreover have "amount_of a total_settled = (if a = mia then dyn_current_supply dyn else 0)" for a
    using m6(1) m5(1) f(9) by (auto simp: amount_of_def)
  ultimately show ?thesis using movesD(1) [OF t6] by (simp add: imbalance_def)
qed

text \<open>A market of asset 2 in which account 1 owes the 100 units that account 2 holds.\<close>

definition sample_margin :: database where
  "sample_margin = sample_database\<lparr>
     asset_dyns := gi_modify 2 (\<lambda>d. d\<lparr>dyn_current_supply := 100\<rparr>) (asset_dyns sample_database),
     balances := table_of
       [\<lparr>bal_owner = 1, bal_asset_type = 0, bal_balance = 1000000\<rparr>,
        \<lparr>bal_owner = 2, bal_asset_type = 2, bal_balance = 100\<rparr>],
     limit_orders := table_of
       [\<lparr>lim_expiration = 100, lim_seller = 1, lim_for_sale = 500, lim_sell_price = mk_price (mk_asset 500 0) (mk_asset 50 2)\<rparr>],
     call_orders := table_of
       [\<lparr>call_borrower = 1, call_collateral = 2000, call_debt = 100,
         call_call_price = mk_price (mk_asset 1500 0) (mk_asset 100 2), call_maintenance_collateral_ratio = 1750\<rparr>]\<rparr>"

lemmas sample_margin_defs = sample_margin_def sample_defs

lemma sample_margin_ok: "book_ok sample_margin"
proof -
  have "balances_ok (balances sample_margin)"
    by (auto simp: balances_ok_def sample_margin_def bal_key_def less_Suc_eq numeral_nat nth_Cons' split: if_splits)
  then have "tables_ok sample_margin"
    using sample_tables_ok by (simp add: sample_margin_def tables_ok_def)
  moreover have "market_fees_ok sample_margin"
    by (auto simp: market_fees_ok_def sample_margin_defs nth_Cons' split: if_splits)
  ultimately show ?thesis by (simp add: book_ok_def)
qed

lemma global_settlement_pays_out_witness:
  "map_option (\<lambda>db'. (holdings 2 db', amount (get_balance 2 0 db')))
     (globally_settle_asset 2 (mk_price (mk_asset 1 2) (mk_asset 10 0)) sample_margin) = Some (0, 1000)"
proof -
  have "map_option (\<lambda>db'. amount (get_balance 2 0 db'))
     (globally_settle_asset 2 (mk_price (mk_asset 1 2) (mk_asset 10 0)) sample_margin) = Some 1000"
    by code_simp
  then obtain db' where db': "globally_settle_asset 2 (mk_price (mk_asset 1 2) (mk_asset 10 0)) sample_margin = Some db'"
    "amount (get_balance 2 0 db') = 1000" by auto
  have i: "imbalance 2 sample_margin = 0" by code_simp
  have ok: "tables_ok sample_margin" using sample_margin_ok by (simp add: book_ok_def)
  have a: "gi_find (assets sample_margin) 2 = Some (sample_assets ! 2)" "ao_bitasset_data_id (sample_assets ! 2) = Some 0"
    "gi_find (bitassets sample_margin) 0 = Some sample_bitasset"
    by (simp_all add: sample_margin_def sample_database_def sample_assets_def)
  have b: "price_between (mk_price (mk_asset 1 2) (mk_asset 10 0)) 2 (bd_short_backing_asset sample_bitasset)"
    "backed_by 2 (bd_short_backing_asset sample_bitasset) sample_margin"
    by (simp_all add: price_between_def backed_by_def sample_bitasset_def sample_margin_def)
  show ?thesis using global_settlement_pays_out [OF ok a b db'(1)] i db' by simp
qed

subsection \<open>One margin call\<close>

lemma release_collateral_frame:
  "release_collateral freed pays b i db = Some db' \<Longrightarrow> limit_orders db' = limit_orders db \<and>
     short_orders db' = short_orders db \<and> bitassets db' = bitassets db"
  unfolding release_collateral_def
  by (auto simp: adjust_balance_frame split: if_splits option.splits)

lemma fill_call_order_frame:
  assumes "fill_call_order i pays receives db = Some (r, db')"
  shows "limit_orders db' = limit_orders db" "short_orders db' = short_orders db" "bitassets db' = bitassets db"
proof -
  obtain x where x: "gi_find (call_orders db) i = Some x" using assms(1) by (auto simp: fill_call_order_def)
  define freed where "freed = (if call_debt x = amount receives
      then Some (mk_asset (call_collateral x - amount pays) (asset_id (base (call_call_price x)))) else None)"
  define y where "y = x\<lparr>call_debt := call_debt x - amount receives,
      call_collateral := (if freed = None then call_collateral x - amount pays else 0)\<rparr>"
  obtain t d borrower db4 db5 where f:
    "release_collateral freed pays borrower (call_borrower x) (db\<lparr>call_orders := t, asset_dyns := d\<rparr>) = Some db4"
    "(case freed of None \<Rightarrow> Some db4
      | Some _ \<Rightarrow> do { t' \<leftarrow> remove_object i (call_orders db4); Some (db4\<lparr>call_orders := t'\<rparr>) }) = Some db5"
    "db' = push_fill (call_oid i) (call_borrower x) pays receives (mk_asset 0 (asset_id pays)) db5"
    by (rule fill_call_order_parts [OF assms(1) x, folded freed_def, folded y_def])
  then show "limit_orders db' = limit_orders db" "short_orders db' = short_orders db" "bitassets db' = bitassets db"
    using release_collateral_frame [OF f(1)] by (auto split: option.splits)
qed

text \<open>
  The orders of the book are in the markets of their assets: a short sells a market-issued asset that
  is no prediction market against the asset that backs it, and so does every margin position.
\<close>

definition backs :: "database \<Rightarrow> asset_id_type \<Rightarrow> asset_id_type \<Rightarrow> bool" where
  "backs db mia k \<longleftrightarrow> mia \<noteq> k \<and> (\<exists>x b bita. gi_find (assets db) mia = Some x \<and> ao_bitasset_data_id x = Some b \<and>
     gi_find (bitassets db) b = Some bita \<and> \<not> prediction_market (bd_options bita) \<and> bd_short_backing_asset bita = k)"

definition orders_ok :: "database \<Rightarrow> bool" where
  "orders_ok db \<longleftrightarrow>
     (\<forall>i x. gi_find (short_orders db) i = Some x \<longrightarrow> backs db (asset_id (base (sho_sell_price x))) (asset_id (quote (sho_sell_price x)))) \<and>
     (\<forall>i c. gi_find (call_orders db) i = Some c \<longrightarrow> backs db (debt_type c) (asset_id (base (call_call_price c))))"

lemma backs_unique: "backs db mia k \<Longrightarrow> backs db mia k' \<Longrightarrow> k = k'"
  by (auto simp: backs_def)

lemma orders_ok_fits_short:
  assumes "orders_ok db" "tables_ok db" "gi_find (short_orders db) i = Some x"
    and "asset_id pays = asset_id (base (sho_sell_price x))" "asset_id receives = asset_id (quote (sho_sell_price x))"
  shows "fits_short db i pays receives"
proof -
  have b: "backs db (asset_id pays) (asset_id receives)" using assms(1,3,4,5) by (auto simp: orders_ok_def)
  then obtain a bi bita where "gi_find (assets db) (asset_id pays) = Some a" "ao_bitasset_data_id a = Some bi"
     "gi_find (bitassets db) bi = Some bita" "\<not> prediction_market (bd_options bita)" "asset_id pays \<noteq> asset_id receives"
    by (auto simp: backs_def)
  moreover have "asset_id (base (call_call_price c)) = asset_id receives"
    if c: "find_call (sho_seller x) (asset_id pays) db = Some (j, c)" for j c
  proof -
    have "gi_find (call_orders db) j = Some c" "debt_type c = asset_id pays"
      using find_first_Some [OF tables_okD(4) [OF assms(2)] c [unfolded find_call_def]] by auto
    with assms(1) have "backs db (asset_id pays) (asset_id (base (call_call_price c)))" unfolding orders_ok_def by metis
    with b show ?thesis using backs_unique by blast
  qed
  ultimately show ?thesis using assms(3-5) by (auto simp: fits_short_def)
qed

lemma orders_ok_fill_call:
  assumes "fill_call_order i pays receives db = Some (r, db')" "assets db' = assets db" "orders_ok db"
  shows "orders_ok db'"
proof -
  have b: "backs db' = backs db"
    using assms(2) fill_call_order_frame(3) [OF assms(1)] by (intro ext) (simp add: backs_def)
  have "backs db (debt_type c') (asset_id (base (call_call_price c')))" if c': "gi_find (call_orders db') j = Some c'" for j c'
  proof -
    obtain c where "gi_find (call_orders db) j = Some c" "call_call_price c' = call_call_price c"
      by (rule fill_call_order_prices [OF assms(1) c'])
    with assms(3) show ?thesis by (auto simp: orders_ok_def debt_type_def)
  qed
  with assms(3) b show ?thesis using fill_call_order_frame(2) [OF assms(1)] by (auto simp: orders_ok_def)
qed

lemma fill_call_step_conserves:
  assumes "fill_call_step i is_limit filled_call whole usd core r db = Some (r', db')" "book_ok db" "orders_ok db"
    and "gi_find (call_orders db) i = Some c" "asset_id core = asset_id (base (call_call_price c))"
    and "if is_limit then \<exists>j x. run_limit r = Some j \<and> gi_find (limit_orders db) j = Some x \<and>
            asset_id (base (lim_sell_price x)) = asset_id usd
         else \<exists>j x. run_short r = Some j \<and> gi_find (short_orders db) j = Some x \<and>
            asset_id (base (sho_sell_price x)) = asset_id usd \<and> asset_id (quote (sho_sell_price x)) = asset_id core"
  shows "book_ok db' \<and> (\<forall>a. imbalance a db' = imbalance a db)"
proof -
  obtain f1 db1 where f: "fill_call_order i core usd db = Some (f1, db1)"
    using assms(1) by (auto simp: fill_call_step_def)
  have fits: "fits_call db i core usd" using assms(4,5) by (simp add: fits_call_def)
  have ok: "tables_ok db" using assms(2) by (simp add: book_ok_def)
  have b1: "book_ok db1" "\<And>a. imbalance a db1 = imbalance a db + amount_of a usd - amount_of a core"
    using call.fill_moves [OF assms(2) fits f] by auto
  note fr = fill_call_order_frame [OF f]
  show ?thesis
  proof (cases is_limit)
    case True
    with assms(1,6) f obtain j x f2 where g: "gi_find (limit_orders db) j = Some x" "asset_id (base (lim_sell_price x)) = asset_id usd"
      "fill_limit_order j usd core db1 = Some (f2, db')"
      by (auto simp: fill_call_step_def Let_def)
    have "fits_limit db1 j usd core" using g fr by (simp add: fits_limit_def)
    from limit.fill_moves [OF b1(1) this g(3)] b1(2) show ?thesis by simp
  next
    case False
    with assms(1,6) f obtain j x f2 where g: "gi_find (short_orders db) j = Some x" "asset_id (base (sho_sell_price x)) = asset_id usd"
      "asset_id (quote (sho_sell_price x)) = asset_id core" "fill_short_order j usd core db1 = Some (f2, db')"
      by (auto simp: fill_call_step_def Let_def)
    have o1: "orders_ok db1" by (rule orders_ok_fill_call [OF f fill_call_order_moves(2) [OF f ok fits] assms(3)])
    have "fits_short db1 j usd core"
      by (rule orders_ok_fits_short [OF o1, of j x]) (use g fr b1(1) in \<open>simp_all add: book_ok_def\<close>)
    from short.fill_moves [OF b1(1) this g(4)] b1(2) show ?thesis by simp
  qed
qed

text \<open>
  C30. A round of the margin call loop that goes on fills a margin position against the best order and
  keeps the books of every asset balanced.
\<close>

theorem margin_call_round_conserves:
  assumes "call_step mia r db = Some (Inr (r', db'))" "book_ok db" "orders_ok db"
  shows "book_ok db' \<and> (\<forall>a. imbalance a db' = imbalance a db)"
proof -
  obtain is_limit p usd i c cost where o': "next_order r db = Some (Some (is_limit, p, usd))" "run_call r = Some i"
    "gi_find (call_orders db) i = Some c" "asset_mult (call_get_debt c) p = Some cost"
    "asset_gt cost (call_get_collateral c) = Some False"
    and st: "do { whole \<leftarrow> asset_ge (call_get_debt c) usd;
                if whole then do {
                  core \<leftarrow> asset_mult usd p;
                  x \<leftarrow> fill_call_step i is_limit (call_get_debt c = usd) True usd core r db;
                  Some (Inr x) }
                else do {
                  x \<leftarrow> fill_call_step i is_limit True False (call_get_debt c) cost r db;
                  Some (Inr x) } } = Some (Inr (r', db') :: bool \<times> database + call_run \<times> database)"
    using assms(1) unfolding call_step_def Let_def by (auto split: if_splits option.splits)
  have ids: "asset_id (call_get_debt c) = asset_id usd" "asset_id cost = asset_id (base (call_call_price c))"
    using st o'(5) by (auto simp: call_get_collateral_def)
  have usd: "if is_limit then \<exists>j x. run_limit r = Some j \<and> gi_find (limit_orders db) j = Some x \<and>
            asset_id usd = asset_id (base p) \<and> p = lim_sell_price x
         else \<exists>j x. run_short r = Some j \<and> gi_find (short_orders db) j = Some x \<and>
            asset_id usd = asset_id (base p) \<and> p = sho_sell_price x"
    using o'(1) unfolding next_order_def next_short_def Let_def
    by (auto simp: lim_amount_for_sale_def sho_amount_for_sale_def split: if_splits)
  then have base: "asset_id usd = asset_id (base p)" by (auto split: if_splits)
  then have quote: "asset_id (quote p) = asset_id (base (call_call_price c))"
    using asset_mult_id [OF o'(4)] ids by simp
  have side: "if is_limit then \<exists>j x. run_limit r = Some j \<and> gi_find (limit_orders db) j = Some x \<and>
            asset_id (base (lim_sell_price x)) = asset_id u
         else \<exists>j x. run_short r = Some j \<and> gi_find (short_orders db) j = Some x \<and>
            asset_id (base (sho_sell_price x)) = asset_id u \<and> asset_id (quote (sho_sell_price x)) = asset_id core"
    if "asset_id u = asset_id usd" "asset_id core = asset_id (base (call_call_price c))" for u core
    using usd base quote that by (auto split: if_splits)
  note fin = fill_call_step_conserves [OF _ assms(2,3) o'(3)]
  show ?thesis
  proof (cases "amount usd \<le> amount (call_get_debt c)")
    case True
    then obtain core where f: "asset_mult usd p = Some core"
      "fill_call_step i is_limit (call_get_debt c = usd) True usd core r db = Some (r', db')"
      using st by auto
    have "asset_id core = asset_id (base (call_call_price c))" using asset_mult_id [OF f(1)] base quote by simp
    then show ?thesis using fin [OF f(2) _ side] by simp
  next
    case False
    then have f: "fill_call_step i is_limit True False (call_get_debt c) cost r db = Some (r', db')" using st by auto
    show ?thesis by (rule fin [OF f ids(2) side]) (simp_all add: ids)
  qed
qed

text \<open>A limit order that offers 50 of asset 2 at a price that calls the margin position.\<close>

definition sample_called :: database where
  "sample_called = sample_margin\<lparr>limit_orders := table_of
     [\<lparr>lim_expiration = 100, lim_seller = 2, lim_for_sale = 50, lim_sell_price = mk_price (mk_asset 50 2) (mk_asset 800 0)\<rparr>]\<rparr>"

definition sample_run :: call_run where
  "sample_run = \<lparr>run_call = Some 0, run_call_end = None, run_limit = Some 0, run_limit_end = None,
     run_short = None, run_short_end = None, run_filled = False\<rparr>"

lemma sample_called_ok: "book_ok sample_called" "orders_ok sample_called"
proof -
  show "book_ok sample_called"
    using sample_margin_ok by (auto simp: sample_called_def book_ok_def tables_ok_def market_fees_ok_def)
  show "orders_ok sample_called"
    by (auto simp: orders_ok_def backs_def sample_called_def sample_margin_defs debt_type_def split: if_splits)
qed

lemma margin_call_round_conserves_witness:
  "\<exists>r' db'. call_step 2 sample_run sample_called = Some (Inr (r', db')) \<and> run_filled r' \<and> run_limit r' = None \<and>
     imbalance 0 db' = imbalance 0 sample_called \<and> imbalance 2 db' = imbalance 2 sample_called"
proof -
  have "map_option (case_sum (\<lambda>_. (False, None)) (\<lambda>(r', _). (run_filled r', run_limit r'))) (call_step 2 sample_run sample_called) =
      Some (True, None)" by code_simp
  then obtain z where z: "call_step 2 sample_run sample_called = Some z"
    "case_sum (\<lambda>_. (False, None)) (\<lambda>(r', _). (run_filled r', run_limit r')) z = (True, None)" by auto
  then obtain r' db' where s: "call_step 2 sample_run sample_called = Some (Inr (r', db'))" "run_filled r'" "run_limit r' = None"
    by (cases z) auto
  then show ?thesis using margin_call_round_conserves [OF s(1) sample_called_ok] by blast
qed

end
