(* ===== verification/Asset_Ops.thy ===== *)
theory Asset_Ops
  imports Evaluator Margin
begin

unbundle bit_operations_syntax

section \<open>Transfers and assets\<close>

text \<open>
  Models \<^verbatim>\<open>libraries/chain/transfer_evaluator.cpp\<close> and \<^verbatim>\<open>asset_evaluator.cpp\<close>: \<open>do_evaluate\<close> and \<open>do_apply\<close> of
  every asset operation. The interpretations of \<open>evaluator\<close> show that none of them creates or destroys
  an asset off the books.
\<close>

definition asset_object_type :: nat where "asset_object_type = 4"
definition force_settlement_object_type :: nat where "force_settlement_object_type = 5"

definition exists_in :: "'a table \<Rightarrow> nat \<Rightarrow> bool" where
  "exists_in t i \<longleftrightarrow> gi_find t i \<noteq> None"

definition add_supply :: "share_type \<Rightarrow> asset_dynamic_data_object \<Rightarrow> asset_dynamic_data_object option" where
  "add_supply x d = do { s \<leftarrow> share (dyn_current_supply d + x); Some (d\<lparr>dyn_current_supply := s\<rparr>) }"

subsection \<open>Transfer\<close>

definition transfer_do_evaluate :: "transfer_operation \<Rightarrow> database \<Rightarrow> unit option" where
  "transfer_do_evaluate op d = do {
     from_account \<leftarrow> get_object (accounts d) (tr_from op);
     to_account \<leftarrow> get_object (accounts d) (tr_to op);
     asset_type \<leftarrow> get_object (assets d) (asset_id (tr_amount op));
     fee_asset_type \<leftarrow> get_object (assets d) (asset_id (tr_fee op));
     fc_assert (has_flag (flags (ao_options asset_type)) white_list \<longrightarrow>
       is_authorized_asset to_account asset_type \<and> is_authorized_asset from_account asset_type);
     fc_assert (has_flag (flags (ao_options fee_asset_type)) white_list \<longrightarrow>
       is_authorized_asset from_account asset_type);
     fc_assert (is_transfer_restricted asset_type \<longrightarrow>
       tr_from op = ao_issuer asset_type \<or> tr_to op = ao_issuer asset_type);
     fc_assert (amount (get_balance (tr_from op) (asset_id (tr_amount op)) d) \<ge> amount (tr_amount op));
     Some () }"

definition transfer_do_apply :: "transfer_operation \<Rightarrow> database \<Rightarrow> (operation_result \<times> database) option" where
  "transfer_do_apply op d = do {
     neg \<leftarrow> asset_neg (tr_amount op);
     d1 \<leftarrow> adjust_balance (tr_from op) neg d;
     d2 \<leftarrow> adjust_balance (tr_to op) (tr_amount op) d1;
     Some (no_object, d2) }"

subsection \<open>Creating an asset\<close>

definition asset_create_do_evaluate :: "asset_create_operation \<Rightarrow> share_type \<Rightarrow> database \<Rightarrow> share_type option" where
  "asset_create_do_evaluate op core_fee_paid d = do {
     let p = parameters (gprops d);
     let opt = cr_common_options op;
     fc_assert (int (length (whitelist_authorities opt)) \<le> maximum_asset_whitelist_authorities p);
     fc_assert (int (length (blacklist_authorities opt)) \<le> maximum_asset_whitelist_authorities p);
     fc_assert (list_all (exists_in (accounts d)) (whitelist_authorities opt));
     fc_assert (list_all (exists_in (accounts d)) (blacklist_authorities opt));
     fc_assert (find_first (\<lambda>a. ao_symbol a = cr_symbol op) (assets d) = None);
     fee \<leftarrow> asset_create_calculate_fee op (current_fee_schedule d);
     core \<leftarrow> share (core_fee_paid - cdiv fee 2);
     case cr_bitasset_options op of None \<Rightarrow> Some core
     | Some o' \<Rightarrow> do {
         backing \<leftarrow> get_object (assets d) (short_backing_asset o');
         _ \<leftarrow> (case ao_bitasset_data_id backing of None \<Rightarrow> Some ()
             | Some b \<Rightarrow> do {
                 data \<leftarrow> get_object (bitassets d) b;
                 backing_backing \<leftarrow> get_object (assets d) (bd_short_backing_asset data);
                 fc_assert (ao_bitasset_data_id backing_backing = None) });
         fc_assert (feed_lifetime_sec o' > block_interval p \<and> force_settlement_delay_sec o' > block_interval p);
         Some core } }"

definition new_bitasset :: "bitasset_options \<Rightarrow> asset_bitasset_data_object" where
  "new_bitasset o' = \<lparr>bd_short_backing_asset = 0, bd_options = o', bd_feeds = [], bd_current_feed = default_feed,
     bd_current_feed_publication_time = 0, bd_force_settled_volume = 0\<rparr>"

text \<open>The exchange rate is given with asset 0 on one side; the other side becomes the new asset.\<close>

definition rate_of_new_asset :: "asset_id_type \<Rightarrow> price \<Rightarrow> price" where
  "rate_of_new_asset i p =
     (if asset_id (base p) = 0 then p\<lparr>quote := (quote p)\<lparr>asset_id := i\<rparr>\<rparr>
      else p\<lparr>base := (base p)\<lparr>asset_id := i\<rparr>\<rparr>)"

definition asset_create_do_apply :: "asset_create_operation \<Rightarrow> database \<Rightarrow> (operation_result \<times> database) option" where
  "asset_create_do_apply op d = do {
     fee \<leftarrow> asset_create_calculate_fee op (current_fee_schedule d);
     (dyn_id, t) \<leftarrow> gi_create \<lparr>dyn_current_supply = 0, dyn_accumulated_fees = 0, dyn_fee_pool = cdiv fee 2\<rparr> (asset_dyns d);
     let d1 = d\<lparr>asset_dyns := t\<rparr>;
     (bit_id, d2) \<leftarrow> (if has_flag (flags (cr_common_options op)) market_issued then do {
          o' \<leftarrow> cr_bitasset_options op;
          (b, u) \<leftarrow> gi_create (new_bitasset o') (bitassets d1);
          Some (Some b, d1\<lparr>bitassets := u\<rparr>) }
        else Some (None, d1));
     let next_asset_id = next_id (assets d2);
     let opt = (cr_common_options op)\<lparr>core_exchange_rate := rate_of_new_asset next_asset_id (core_exchange_rate (cr_common_options op))\<rparr>;
     (i, v) \<leftarrow> gi_create \<lparr>ao_symbol = cr_symbol op, ao_precision = cr_precision op, ao_issuer = cr_issuer op,
        ao_options = opt, ao_dynamic_asset_data_id = dyn_id, ao_bitasset_data_id = bit_id\<rparr> (assets d2);
     Some (protocol_result asset_object_type next_asset_id, d2\<lparr>assets := v\<rparr>) }"

subsection \<open>Issuing, burning and funding\<close>

definition asset_issue_do_evaluate :: "asset_issue_operation \<Rightarrow> database \<Rightarrow> nat option" where
  "asset_issue_do_evaluate op d = do {
     a \<leftarrow> get_object (assets d) (asset_id (ai_asset_to_issue op));
     fc_assert (ai_issuer op = ao_issuer a);
     fc_assert (\<not> has_flag (issuer_permissions (ao_options a)) market_issued);
     to_account \<leftarrow> get_object (accounts d) (ai_issue_to_account op);
     fc_assert (has_flag (flags (ao_options a)) white_list \<longrightarrow> is_authorized_asset to_account a);
     dyn \<leftarrow> get_object (asset_dyns d) (ao_dynamic_asset_data_id a);
     supply \<leftarrow> share (dyn_current_supply dyn + amount (ai_asset_to_issue op));
     fc_assert (supply \<le> max_supply (ao_options a));
     Some (ao_dynamic_asset_data_id a) }"

definition asset_issue_do_apply :: "asset_issue_operation \<Rightarrow> nat \<Rightarrow> database \<Rightarrow> (operation_result \<times> database) option" where
  "asset_issue_do_apply op asset_dyn_data d = do {
     d1 \<leftarrow> adjust_balance (ai_issue_to_account op) (ai_asset_to_issue op) d;
     t \<leftarrow> modify_object asset_dyn_data (add_supply (amount (ai_asset_to_issue op))) (asset_dyns d1);
     Some (no_object, d1\<lparr>asset_dyns := t\<rparr>) }"

definition asset_burn_do_evaluate :: "asset_burn_operation \<Rightarrow> database \<Rightarrow> nat option" where
  "asset_burn_do_evaluate op d = do {
     a \<leftarrow> get_object (assets d) (asset_id (ab_amount_to_burn op));
     fc_assert (\<not> is_market_issued a);
     from_account \<leftarrow> get_object (accounts d) (ab_payer op);
     fc_assert (has_flag (flags (ao_options a)) white_list \<longrightarrow> is_authorized_asset from_account a);
     dyn \<leftarrow> get_object (asset_dyns d) (ao_dynamic_asset_data_id a);
     left \<leftarrow> share (dyn_current_supply dyn - amount (ab_amount_to_burn op));
     fc_assert (left \<ge> 0);
     Some (ao_dynamic_asset_data_id a) }"

definition asset_burn_do_apply :: "asset_burn_operation \<Rightarrow> nat \<Rightarrow> database \<Rightarrow> (operation_result \<times> database) option" where
  "asset_burn_do_apply op asset_dyn_data d = do {
     neg \<leftarrow> asset_neg (ab_amount_to_burn op);
     d1 \<leftarrow> adjust_balance (ab_payer op) neg d;
     t \<leftarrow> modify_object asset_dyn_data (add_supply (- amount (ab_amount_to_burn op))) (asset_dyns d1);
     Some (no_object, d1\<lparr>asset_dyns := t\<rparr>) }"

definition asset_fund_fee_pool_do_evaluate :: "asset_fund_fee_pool_operation \<Rightarrow> database \<Rightarrow> nat option" where
  "asset_fund_fee_pool_do_evaluate op d = do {
     a \<leftarrow> get_object (assets d) (ff_asset_id op);
     _ \<leftarrow> get_object (asset_dyns d) (ao_dynamic_asset_data_id a);
     Some (ao_dynamic_asset_data_id a) }"

definition asset_fund_fee_pool_do_apply ::
  "asset_fund_fee_pool_operation \<Rightarrow> nat \<Rightarrow> database \<Rightarrow> (operation_result \<times> database) option" where
  "asset_fund_fee_pool_do_apply op asset_dyn_data d = do {
     neg \<leftarrow> share (- ff_amount op);
     d1 \<leftarrow> adjust_balance (ff_from_account op) (mk_asset neg 0) d;
     t \<leftarrow> modify_object asset_dyn_data (\<lambda>x. do { s \<leftarrow> share (dyn_fee_pool x + ff_amount op);
            Some (x\<lparr>dyn_fee_pool := s\<rparr>) }) (asset_dyns d1);
     Some (no_object, d1\<lparr>asset_dyns := t\<rparr>) }"

subsection \<open>Updating an asset\<close>

definition asset_update_do_evaluate :: "asset_update_operation \<Rightarrow> database \<Rightarrow> unit option" where
  "asset_update_do_evaluate op d = do {
     fc_assert (case up_new_issuer op of None \<Rightarrow> True | Some i \<Rightarrow> exists_in (accounts d) i);
     a \<leftarrow> get_object (assets d) (up_asset_to_update op);
     let opt = up_new_options op;
     fc_assert (flags (ao_options a) AND market_issued = flags opt AND market_issued);
     fc_assert (\<not> has_flag (issuer_permissions opt) (NOT (issuer_permissions (ao_options a))));
     fc_assert (up_issuer op = ao_issuer a);
     let p = parameters (gprops d);
     fc_assert (int (length (whitelist_authorities opt)) \<le> maximum_asset_whitelist_authorities p);
     fc_assert (list_all (exists_in (accounts d)) (whitelist_authorities opt));
     fc_assert (int (length (blacklist_authorities opt)) \<le> maximum_asset_whitelist_authorities p);
     fc_assert (list_all (exists_in (accounts d)) (blacklist_authorities opt));
     Some () }"

definition asset_update_do_apply :: "asset_update_operation \<Rightarrow> database \<Rightarrow> (operation_result \<times> database) option" where
  "asset_update_do_apply op d = do {
     t \<leftarrow> modify_object (up_asset_to_update op) (\<lambda>a. Some (a\<lparr>
            ao_issuer := (case up_new_issuer op of None \<Rightarrow> ao_issuer a | Some i \<Rightarrow> i),
            ao_options := up_new_options op\<rparr>)) (assets d);
     Some (no_object, d\<lparr>assets := t\<rparr>) }"

text \<open>\<open>asset_object::bitasset_data\<close> asserts that the asset has such data.\<close>

definition bitasset_data :: "asset_object \<Rightarrow> database \<Rightarrow> (nat \<times> asset_bitasset_data_object) option" where
  "bitasset_data a d = do {
     b \<leftarrow> ao_bitasset_data_id a;
     x \<leftarrow> get_object (bitassets d) b;
     Some (b, x) }"

definition asset_update_bitasset_do_evaluate :: "asset_update_bitasset_operation \<Rightarrow> database \<Rightarrow> nat option" where
  "asset_update_bitasset_do_evaluate op d = do {
     a \<leftarrow> get_object (assets d) (ub_asset_to_update op);
     fc_assert (is_market_issued a);
     (i, b) \<leftarrow> bitasset_data a d;
     _ \<leftarrow> (if short_backing_asset (ub_new_options op) \<noteq> bd_short_backing_asset b then do {
            dyn \<leftarrow> get_object (asset_dyns d) (ao_dynamic_asset_data_id a);
            fc_assert (dyn_current_supply dyn = 0);
            fc_assert (exists_in (assets d) (short_backing_asset (ub_new_options op))) }
          else Some ());
     fc_assert (ub_issuer op = ao_issuer a);
     Some i }"

definition asset_update_bitasset_do_apply ::
  "asset_update_bitasset_operation \<Rightarrow> nat \<Rightarrow> database \<Rightarrow> (operation_result \<times> database) option" where
  "asset_update_bitasset_do_apply op i d = do {
     t \<leftarrow> modify_object i (\<lambda>b. Some (b\<lparr>bd_options := ub_new_options op\<rparr>)) (bitassets d);
     Some (no_object, d\<lparr>bitassets := t\<rparr>) }"

definition asset_update_feed_producers_do_evaluate ::
  "asset_update_feed_producers_operation \<Rightarrow> database \<Rightarrow> nat option" where
  "asset_update_feed_producers_do_evaluate op d = do {
     fc_assert (int (length (uf_new_feed_producers op)) \<le> maximum_asset_feed_publishers (parameters (gprops d)));
     fc_assert (list_all (exists_in (accounts d)) (uf_new_feed_producers op));
     a \<leftarrow> get_object (assets d) (uf_asset_to_update op);
     fc_assert (is_market_issued a);
     fc_assert (ao_issuer a \<noteq> 0);
     (i, _) \<leftarrow> bitasset_data a d;
     fc_assert (ao_issuer a = uf_issuer op);
     Some i }"

text \<open>Producers that are no longer listed lose their feed, new ones start with a default one.\<close>

definition set_feed_producers ::
  "account_id_type list \<Rightarrow> (account_id_type \<times> time_point_sec \<times> price_feed) list \<Rightarrow>
   (account_id_type \<times> time_point_sec \<times> price_feed) list" where
  "set_feed_producers producers feeds =
     fold (\<lambda>i fs. if i \<in> fst ` set fs then fs else fm_put i (0, default_feed) fs) producers
       (filter (\<lambda>f. fst f \<in> set producers) feeds)"

definition asset_update_feed_producers_do_apply ::
  "asset_update_feed_producers_operation \<Rightarrow> nat \<Rightarrow> database \<Rightarrow> (operation_result \<times> database) option" where
  "asset_update_feed_producers_do_apply op i d = do {
     t \<leftarrow> modify_object i (\<lambda>b. Some (update_median_feeds (head_block_time d)
            (b\<lparr>bd_feeds := set_feed_producers (uf_new_feed_producers op) (bd_feeds b)\<rparr>))) (bitassets d);
     Some (no_object, d\<lparr>bitassets := t\<rparr>) }"

definition asset_publish_feeds_do_evaluate :: "asset_publish_feed_operation \<Rightarrow> database \<Rightarrow> nat option" where
  "asset_publish_feeds_do_evaluate op d = do {
     quote_asset \<leftarrow> get_object (assets d) (pf_asset_id op);
     fc_assert (is_market_issued quote_asset);
     (i, b) \<leftarrow> bitasset_data quote_asset d;
     fc_assert (bd_short_backing_asset b = asset_id (base (call_limit (pf_feed op))));
     _ \<leftarrow> (if ao_issuer quote_asset = 0 then do {
            genesis \<leftarrow> get_object (accounts d) 0;
            fc_assert (account_oid (pf_publisher op) \<in> fst ` set (auths (acct_active genesis)) \<or>
              pf_publisher op \<in> set (witness_accounts (gprops d))) }
          else fc_assert (pf_publisher op \<in> fst ` set (bd_feeds b)));
     Some i }"

definition asset_publish_feeds_do_apply ::
  "asset_publish_feed_operation \<Rightarrow> nat \<Rightarrow> database \<Rightarrow> (operation_result \<times> database) option" where
  "asset_publish_feeds_do_apply op i d = do {
     t \<leftarrow> modify_object i (\<lambda>b. Some (update_median_feeds (head_block_time d)
            (b\<lparr>bd_feeds := fm_put (pf_publisher op) (head_block_time d, pf_feed op) (bd_feeds b)\<rparr>))) (bitassets d);
     Some (no_object, d\<lparr>bitassets := t\<rparr>) }"

subsection \<open>Settlement\<close>

text \<open>The margin position with the least collateral for its debt, at or above a price.\<close>

definition by_collateral :: "database \<Rightarrow> (nat \<times> call_order_object) list" where
  "by_collateral d = sort_by (rising (\<lambda>c. mk_price (call_get_collateral c) (call_get_debt c))) (entries (call_orders d))"

definition asset_global_settle_do_evaluate :: "asset_global_settle_operation \<Rightarrow> database \<Rightarrow> unit option" where
  "asset_global_settle_do_evaluate op d = do {
     a \<leftarrow> get_object (assets d) (gs_asset_to_settle op);
     fc_assert (is_market_issued a);
     fc_assert (can_global_settle a);
     fc_assert (ao_issuer a = gs_issuer op);
     dyn \<leftarrow> get_object (asset_dyns d) (ao_dynamic_asset_data_id a);
     fc_assert (dyn_current_supply dyn > 0);
     (_, b) \<leftarrow> bitasset_data a d;
     lo \<leftarrow> price_min (bd_short_backing_asset b) (gs_asset_to_settle op);
     i \<leftarrow> rising_lower (\<lambda>c. mk_price (call_get_collateral c) (call_get_debt c)) lo (by_collateral d);
     least \<leftarrow> get_object (call_orders d) i;
     owed \<leftarrow> asset_mult (call_get_debt least) (gs_settle_price op);
     fc_assert (asset_le owed (call_get_collateral least));
     Some () }"

definition asset_global_settle_do_apply :: "asset_global_settle_operation \<Rightarrow> database \<Rightarrow> (operation_result \<times> database) option" where
  "asset_global_settle_do_apply op d = do {
     d1 \<leftarrow> globally_settle_asset (gs_asset_to_settle op) (gs_settle_price op) d;
     Some (no_object, d1) }"

definition asset_settle_do_evaluate :: "asset_settle_operation \<Rightarrow> database \<Rightarrow> nat option" where
  "asset_settle_do_evaluate op d = do {
     a \<leftarrow> get_object (assets d) (asset_id (as_amount op));
     fc_assert (is_market_issued a);
     fc_assert (can_force_settle a);
     _ \<leftarrow> get_object (accounts d) (as_account op);
     enough \<leftarrow> asset_ge (get_balance (as_account op) (asset_id (as_amount op)) d) (as_amount op);
     fc_assert enough;
     Some (asset_id (as_amount op)) }"

definition asset_settle_do_apply :: "asset_settle_operation \<Rightarrow> nat \<Rightarrow> database \<Rightarrow> (operation_result \<times> database) option" where
  "asset_settle_do_apply op asset_to_settle d = do {
     neg \<leftarrow> asset_neg (as_amount op);
     d1 \<leftarrow> adjust_balance (as_account op) neg d;
     a \<leftarrow> get_object (assets d1) asset_to_settle;
     (_, b) \<leftarrow> bitasset_data a d1;
     (i, t) \<leftarrow> gi_create \<lparr>fs_owner = as_account op, fs_balance = as_amount op,
        fs_settlement_date = uint32 (head_block_time d1 + force_settlement_delay_sec (bd_options b))\<rparr> (settlements d1);
     Some (protocol_result force_settlement_object_type i, d1\<lparr>settlements := t\<rparr>) }"

subsection \<open>The books\<close>

lemma dyn_id_asset:
  "tables_ok d \<Longrightarrow> fees_paid d0 d \<Longrightarrow> gi_find (assets d0) i = Some a \<Longrightarrow> ao_dynamic_asset_data_id a = i"
  using tables_okD(12) [of d i a] fees_paid_frame(1) [of d0 d] by simp

lemma transfer_keeps_books:
  "transfer_do_apply op d = Some (r, d') \<Longrightarrow> tables_ok d \<Longrightarrow> same_books d d'"
  unfolding transfer_do_apply_def Option.bind_eq_Some_conv by (auto intro: same_books_payment)

interpretation transfer: evaluator Transfer_Op "\<lambda>op. reading (transfer_do_evaluate op)"
    "\<lambda>op. applying (\<lambda>_. transfer_do_apply op)" "\<lambda>_ _. True"
  by (rule evaluator_reading) (rule transfer_keeps_books)

lemma asset_issue_keeps_books:
  assumes "asset_issue_do_evaluate op d0 = Some i" "fees_paid d0 d" "tables_ok d" "asset_issue_do_apply op i d = Some (r, d')"
  shows "same_books d d'"
proof -
  have i: "i = asset_id (ai_asset_to_issue op)"
    using assms(1) dyn_id_asset [OF assms(3,2)] unfolding asset_issue_do_evaluate_def by auto
  obtain d1 t where f: "adjust_balance (ai_issue_to_account op) (ai_asset_to_issue op) d = Some d1"
    "modify_object i (add_supply (amount (ai_asset_to_issue op))) (asset_dyns d1) = Some t" "d' = d1\<lparr>asset_dyns := t\<rparr>"
    using assms(4) by (auto simp: asset_issue_do_apply_def)
  note m1 = moves_adjust [OF f(1) assms(3)]
  show ?thesis unfolding f(3)
    by (rule same_books_moves [OF moves_trans [OF m1 moves_dyn [OF f(2) movesD(1) [OF m1], of 0 0 "amount (ai_asset_to_issue op)"]]])
      (auto simp: add_supply_def amount_of_def i)
qed

interpretation asset_issue: evaluator Asset_Issue_Op "\<lambda>op. reading (asset_issue_do_evaluate op)"
    "\<lambda>op. applying (asset_issue_do_apply op)" "\<lambda>_ _. True"
  by (rule evaluator_reading) (rule asset_issue_keeps_books)

lemma asset_burn_keeps_books:
  assumes "asset_burn_do_evaluate op d0 = Some i" "fees_paid d0 d" "tables_ok d" "asset_burn_do_apply op i d = Some (r, d')"
  shows "same_books d d'"
proof -
  have i: "i = asset_id (ab_amount_to_burn op)"
    using assms(1) dyn_id_asset [OF assms(3,2)] unfolding asset_burn_do_evaluate_def by auto
  obtain n d1 t where f: "asset_neg (ab_amount_to_burn op) = Some n" "adjust_balance (ab_payer op) n d = Some d1"
    "modify_object i (add_supply (- amount (ab_amount_to_burn op))) (asset_dyns d1) = Some t" "d' = d1\<lparr>asset_dyns := t\<rparr>"
    using assms(4) by (auto simp: asset_burn_do_apply_def)
  note m1 = moves_adjust [OF f(2) assms(3)]
  show ?thesis unfolding f(4)
    by (rule same_books_moves [OF moves_trans [OF m1 moves_dyn [OF f(3) movesD(1) [OF m1], of 0 0 "- amount (ab_amount_to_burn op)"]]])
      (use f(1) in \<open>auto simp: add_supply_def amount_of_def i\<close>)
qed

interpretation asset_burn: evaluator Asset_Burn_Op "\<lambda>op. reading (asset_burn_do_evaluate op)"
    "\<lambda>op. applying (asset_burn_do_apply op)" "\<lambda>_ _. True"
  by (rule evaluator_reading) (rule asset_burn_keeps_books)

lemma asset_fund_fee_pool_keeps_books:
  assumes "tables_ok d" "asset_fund_fee_pool_do_apply op i d = Some (r, d')"
  shows "same_books d d'"
proof -
  obtain d1 t where f: "adjust_balance (ff_from_account op) (mk_asset (- ff_amount op) 0) d = Some d1"
    "modify_object i (\<lambda>x. do { s \<leftarrow> share (dyn_fee_pool x + ff_amount op); Some (x\<lparr>dyn_fee_pool := s\<rparr>) }) (asset_dyns d1) = Some t"
    "d' = d1\<lparr>asset_dyns := t\<rparr>"
    using assms(2) by (auto simp: asset_fund_fee_pool_do_apply_def)
  note m1 = moves_adjust [OF f(1) assms(1)]
  show ?thesis unfolding f(3)
    by (rule same_books_moves [OF moves_trans [OF m1 moves_dyn [OF f(2) movesD(1) [OF m1], of 0 "ff_amount op" 0]]])
      (auto simp: amount_of_def)
qed

interpretation asset_fund_fee_pool: evaluator Asset_Fund_Fee_Pool_Op "\<lambda>op. reading (asset_fund_fee_pool_do_evaluate op)"
    "\<lambda>op. applying (asset_fund_fee_pool_do_apply op)" "\<lambda>_ _. True"
  by (rule evaluator_reading) (rule asset_fund_fee_pool_keeps_books)

lemma asset_update_keeps_books:
  assumes "tables_ok d" "asset_update_do_apply op d = Some (r, d')"
  shows "same_books d d'"
  using assms tables_okD(11,12) [OF assms(1)]
  by (auto simp: asset_update_do_apply_def same_books_def imbalance_def modify_object_Some tables_ok_def gi_find_modify
      split: if_splits)

interpretation asset_update: evaluator Asset_Update_Op "\<lambda>op. reading (asset_update_do_evaluate op)"
    "\<lambda>op. applying (\<lambda>_. asset_update_do_apply op)" "\<lambda>_ _. True"
  by (rule evaluator_reading) (rule asset_update_keeps_books)

interpretation asset_update_bitasset: evaluator Asset_Update_Bitasset_Op "\<lambda>op. reading (asset_update_bitasset_do_evaluate op)"
    "\<lambda>op. applying (asset_update_bitasset_do_apply op)" "\<lambda>_ _. True"
  by (rule evaluator_reading) (auto simp: asset_update_bitasset_do_apply_def intro: same_books_other)

interpretation asset_update_feed_producers: evaluator Asset_Update_Feed_Producers_Op
    "\<lambda>op. reading (asset_update_feed_producers_do_evaluate op)"
    "\<lambda>op. applying (asset_update_feed_producers_do_apply op)" "\<lambda>_ _. True"
  by (rule evaluator_reading) (auto simp: asset_update_feed_producers_do_apply_def intro: same_books_other)

interpretation asset_publish_feeds: evaluator Asset_Publish_Feed_Op "\<lambda>op. reading (asset_publish_feeds_do_evaluate op)"
    "\<lambda>op. applying (asset_publish_feeds_do_apply op)" "\<lambda>_ _. True"
  by (rule evaluator_reading) (auto simp: asset_publish_feeds_do_apply_def intro: same_books_other)

lemma asset_settle_keeps_books:
  assumes "tables_ok d" "asset_settle_do_apply op i d = Some (r, d')"
  shows "same_books d d'"
proof -
  obtain n d1 s j t where f: "asset_neg (as_amount op) = Some n" "adjust_balance (as_account op) n d = Some d1"
    "gi_create s (settlements d1) = Some (j, t)" "fs_balance s = as_amount op" "d' = d1\<lparr>settlements := t\<rparr>"
    using assms(2) by (auto simp: asset_settle_do_apply_def)
  note m1 = moves_adjust [OF f(2) assms(1)]
  show ?thesis unfolding f(5)
    by (rule same_books_moves [OF moves_trans [OF m1 moves_create(4) [OF f(3) movesD(1) [OF m1]]]])
      (use f(1,4) in \<open>auto simp: amount_of_def\<close>)
qed

interpretation asset_settle: evaluator Asset_Settle_Op "\<lambda>op. reading (asset_settle_do_evaluate op)"
    "\<lambda>op. applying (asset_settle_do_apply op)" "\<lambda>_ _. True"
  by (rule evaluator_reading) (rule asset_settle_keeps_books)

text \<open>
  Creating an asset moves half of its fee to the pool of the new asset; the rest is split like any
  other fee. The asset and its dynamic data get the same number.
\<close>

definition asset_create_evaluation :: "asset_create_operation \<Rightarrow> unit evaluation" where
  "asset_create_evaluation op core st db = map_option (\<lambda>core'. ((), core', st)) (asset_create_do_evaluate op core db)"

lemma asset_create_keeps_books:
  assumes "asset_create_do_evaluate op core d0 = Some core'" "fees_paid d0 d" "tables_ok d"
    "asset_create_do_apply op d = Some (r, d')"
  shows "tables_ok d' \<and> (\<forall>a. imbalance a d' = imbalance a d + (if a = 0 then core - core' else 0))"
proof -
  obtain fee where fee: "asset_create_calculate_fee op (current_fee_schedule d) = Some fee" "core' = core - cdiv fee 2"
    using assms(1) fees_paid_frame(16) [OF assms(2)] unfolding asset_create_do_evaluate_def Let_def
    by (auto simp: current_fee_schedule_def split: option.splits)
  define y where "y = \<lparr>dyn_current_supply = 0, dyn_accumulated_fees = 0, dyn_fee_pool = cdiv fee 2\<rparr>"
  obtain i t b u obj j v where c: "gi_create y (asset_dyns d) = Some (i, t)"
    "gi_create obj (assets d) = Some (j, v)" "ao_dynamic_asset_data_id obj = i"
    "d' = d\<lparr>asset_dyns := t, assets := v\<rparr> \<or> d' = d\<lparr>asset_dyns := t, bitassets := u, assets := v\<rparr>"
    using assms(4) fee(1) unfolding asset_create_do_apply_def Let_def y_def
    by (fastforce split: if_splits)
  have i: "i = next_id (asset_dyns d)" "j = next_id (assets d)" "next_id t = Suc i" "next_id v = Suc j"
    using c(1,2) by (auto simp: gi_create_Some)
  have new: "gi_find (asset_dyns d) i = None"
    using tables_okD(9) [OF assms(3)] gi_find_entries [of "asset_dyns d" i] i(1)
    by (cases "gi_find (asset_dyns d) i") (auto simp: gi_invar_def)
  have ok: "tables_ok (d\<lparr>asset_dyns := t, assets := v\<rparr>)"
    using assms(3) c(3) i gi_invar_create [OF tables_okD(9) [OF assms(3)] c(1)]
      gi_invar_create [OF tables_okD(11) [OF assms(3)] c(2)]
    by (auto simp: tables_ok_def gi_find_create [OF c(2)])
  have "holdings a (d\<lparr>asset_dyns := t, assets := v\<rparr>) = holdings a d + (if a = 0 then cdiv fee 2 else 0)"
    "supply_of a (d\<lparr>asset_dyns := t, assets := v\<rparr>) = supply_of a d" for a
    using new by (auto simp: holdings_def in_balances_def held_fees_def supply_of_def gi_find_create [OF c(1)]
        tsum_create [OF c(1)] y_def)
  then have im: "imbalance a (d\<lparr>asset_dyns := t, assets := v\<rparr>) = imbalance a d + (if a = 0 then core - core' else 0)" for a
    by (simp add: imbalance_def fee(2))
  have e: "d\<lparr>asset_dyns := t, bitassets := u, assets := v\<rparr> = d\<lparr>asset_dyns := t, assets := v\<rparr>\<lparr>bitassets := u\<rparr>" by simp
  have "same_books (d\<lparr>asset_dyns := t, assets := v\<rparr>) d'"
    using c(4) same_books_refl [OF ok] same_books_other(6) [OF ok, of u] unfolding e by blast
  then show ?thesis using im by (simp add: same_books_def)
qed

interpretation asset_create: evaluator Asset_Create_Op asset_create_evaluation
    "\<lambda>op. applying (\<lambda>_. asset_create_do_apply op)" "\<lambda>_ _. True"
  by unfold_locales (auto simp: asset_create_evaluation_def dest: asset_create_keeps_books)

end
