(* ===== verification/Market_Ops.thy ===== *)
theory Market_Ops
  imports Asset_Ops
begin

unbundle bit_operations_syntax

section \<open>Orders\<close>

text \<open>
  Models \<^verbatim>\<open>limit_order_evaluator.cpp\<close> and \<^verbatim>\<open>short_order_evaluator.cpp\<close> under \<^verbatim>\<open>libraries/chain\<close>: placing and
  cancelling limit and short orders, and changing a margin position. \<open>convert_fees\<close> returns false and
  changes nothing, so its call is left out. The loops that match a new order walk the price index between
  two iterators that are moved on before an order is touched, and no fill changes the price of an order,
  so they are recursions over the ids in between.
\<close>

definition limit_order_object_type :: nat where "limit_order_object_type = 8"
definition short_order_object_type :: nat where "short_order_object_type = 9"

subsection \<open>The orders of the other side\<close>

definition lo_get_price :: "limit_order_create_operation \<Rightarrow> price option" where
  "lo_get_price op = asset_div (lo_amount_to_sell op) (lo_min_to_receive op)"

definition so_sell_price :: "short_order_create_operation \<Rightarrow> price option" where
  "so_sell_price op = map_option price_inv
     (call_price (so_amount_to_sell op) (so_collateral op) (so_initial_collateral_ratio op))"

definition so_call_price :: "short_order_create_operation \<Rightarrow> price option" where
  "so_call_price op = call_price (so_amount_to_sell op) (so_collateral op) (so_maintenance_collateral_ratio op)"

text \<open>The orders from the best price of a market down to a given one.\<close>

definition limits_down_to :: "price \<Rightarrow> database \<Rightarrow> nat list option" where
  "limits_down_to p d = do {
     top \<leftarrow> price_max (asset_id (base p)) (asset_id (quote p));
     Some (id_range (falling_lower lim_sell_price top (limit_by_price d)) (falling_upper lim_sell_price p (limit_by_price d))
       (limit_by_price d)) }"

definition shorts_down_to :: "price \<Rightarrow> database \<Rightarrow> nat list option" where
  "shorts_down_to p d = do {
     top \<leftarrow> price_max (asset_id (base p)) (asset_id (quote p));
     fc_assert (price_ge top p);
     Some (id_range (falling_lower sho_sell_price top (short_by_price d)) (falling_upper sho_sell_price p (short_by_price d))
       (short_by_price d)) }"

text \<open>
  The new limit order meets the better of the next limit and the next short order until it is filled or
  the rest of the match says that the other side was not.
\<close>

function match_book :: "nat \<Rightarrow> nat list \<Rightarrow> nat list \<Rightarrow> database \<Rightarrow> database option" where
  "match_book new [] [] d = Some d"
| "match_book new [] (s # ss) d = do {
     o' \<leftarrow> get_object (short_orders d) s;
     (r, d1) \<leftarrow> match_limit_short new s (sho_sell_price o') d;
     if r \<noteq> 2 then Some d1 else match_book new [] ss d1 }"
| "match_book new (l # ls) [] d = do {
     o' \<leftarrow> get_object (limit_orders d) l;
     (r, d1) \<leftarrow> match_limit_limit new l (lim_sell_price o') d;
     if r \<noteq> 2 then Some d1 else match_book new ls [] d1 }"
| "match_book new (l # ls) (s # ss) d = do {
     lim \<leftarrow> get_object (limit_orders d) l;
     sho \<leftarrow> get_object (short_orders d) s;
     if price_lt (lim_sell_price lim) (sho_sell_price sho) then do {
       (r, d1) \<leftarrow> match_limit_short new s (sho_sell_price sho) d;
       if r \<noteq> 2 then Some d1 else match_book new (l # ls) ss d1 }
     else do {
       (r, d1) \<leftarrow> match_limit_limit new l (lim_sell_price lim) d;
       if r \<noteq> 2 then Some d1 else match_book new ls (s # ss) d1 } }"
  by pat_completeness auto
termination by (relation "measure (\<lambda>(_, ls, ss, _). length ls + length ss)") auto

text \<open>A new short order meets limit orders as long as each is filled and it is not.\<close>

fun match_short_book :: "nat \<Rightarrow> nat list \<Rightarrow> database \<Rightarrow> database option" where
  "match_short_book new [] d = Some d"
| "match_short_book new (l # ls) d = do {
     o' \<leftarrow> get_object (limit_orders d) l;
     (r, d1) \<leftarrow> match_limit_short l new (lim_sell_price o') d;
     if r \<noteq> 1 then Some d1 else match_short_book new ls d1 }"

subsection \<open>Limit orders\<close>

definition limit_order_create_do_evaluate :: "limit_order_create_operation \<Rightarrow> database \<Rightarrow> unit option" where
  "limit_order_create_do_evaluate op d = do {
     fc_assert (lo_expiration op \<ge> head_block_time d);
     let sell_id = asset_id (lo_amount_to_sell op);
     let receive_id = asset_id (lo_min_to_receive op);
     seller \<leftarrow> get_object (accounts d) (lo_seller op);
     sell_asset \<leftarrow> get_object (assets d) sell_id;
     receive_asset \<leftarrow> get_object (assets d) receive_id;
     let opt = ao_options sell_asset;
     fc_assert (whitelist_markets opt \<noteq> [] \<longrightarrow> receive_id \<in> set (whitelist_markets opt));
     fc_assert (blacklist_markets opt \<noteq> [] \<longrightarrow> receive_id \<notin> set (blacklist_markets opt));
     fc_assert (enforce_white_list sell_asset \<longrightarrow> is_authorized_asset seller sell_asset);
     fc_assert (enforce_white_list receive_asset \<longrightarrow> is_authorized_asset seller receive_asset);
     enough \<leftarrow> asset_ge (get_balance (lo_seller op) sell_id d) (lo_amount_to_sell op);
     fc_assert enough;
     Some () }"

text \<open>The order is put on the book: its funds are taken from the seller.\<close>

definition place_limit_order :: "limit_order_create_operation \<Rightarrow> database \<Rightarrow> (nat \<times> database) option" where
  "place_limit_order op d = do {
     seller \<leftarrow> get_object (accounts d) (lo_seller op);
     d1 \<leftarrow> core_in_orders seller (asset_id (lo_amount_to_sell op)) (amount (lo_amount_to_sell op)) d;
     neg \<leftarrow> asset_neg (lo_amount_to_sell op);
     d2 \<leftarrow> adjust_balance (lo_seller op) neg d1;
     p \<leftarrow> lo_get_price op;
     (i, t) \<leftarrow> gi_create \<lparr>lim_expiration = lo_expiration op, lim_seller = lo_seller op,
        lim_for_sale = amount (lo_amount_to_sell op), lim_sell_price = p\<rparr> (limit_orders d2);
     Some (i, d2\<lparr>limit_orders := t\<rparr>) }"

definition limit_order_create_do_apply :: "limit_order_create_operation \<Rightarrow> database \<Rightarrow> (operation_result \<times> database) option" where
  "limit_order_create_do_apply op d = do {
     let sell_id = asset_id (lo_amount_to_sell op);
     let receive_id = asset_id (lo_min_to_receive op);
     (i, d1) \<leftarrow> place_limit_order op d;
     let result = protocol_result limit_order_object_type i;
     (called1, d2) \<leftarrow> check_call_orders sell_id d1;
     (called2, d3) \<leftarrow> check_call_orders receive_id d2;
     if (called1 \<or> called2) \<and> gi_find (limit_orders d3) i = None then Some (result, d3)
     else do {
       p \<leftarrow> lo_get_price op;
       let max_price = price_inv p;
       limits \<leftarrow> limits_down_to max_price d3;
       receive_asset \<leftarrow> get_object (assets d3) receive_id;
       shorts \<leftarrow> (if is_market_issued receive_asset then do {
                  _ \<leftarrow> bitasset_data receive_asset d3;
                  shorts_down_to max_price d3 }
                else Some []);
       d4 \<leftarrow> match_book i limits shorts d3;
       (_, d5) \<leftarrow> check_call_orders sell_id d4;
       (_, d6) \<leftarrow> check_call_orders receive_id d5;
       fc_assert (\<not> lo_fill_or_kill op \<or> gi_find (limit_orders d6) i = None);
       Some (result, d6) } }"

definition limit_order_cancel_do_evaluate :: "limit_order_cancel_operation \<Rightarrow> database \<Rightarrow> nat option" where
  "limit_order_cancel_do_evaluate op d = do {
     order \<leftarrow> get_object (limit_orders d) (lc_order op);
     fc_assert (lim_seller order = lc_fee_paying_account op);
     Some (lc_order op) }"

definition limit_order_cancel_do_apply ::
  "limit_order_cancel_operation \<Rightarrow> nat \<Rightarrow> database \<Rightarrow> (operation_result \<times> database) option" where
  "limit_order_cancel_do_apply op i d = do {
     order \<leftarrow> get_object (limit_orders d) i;
     d1 \<leftarrow> cancel_order i d;
     (_, d2) \<leftarrow> check_call_orders (asset_id (base (lim_sell_price order))) d1;
     (_, d3) \<leftarrow> check_call_orders (asset_id (quote (lim_sell_price order))) d2;
     Some (Asset_Result (lim_amount_for_sale order), d3) }"

subsection \<open>Short orders\<close>

definition short_order_create_do_evaluate :: "short_order_create_operation \<Rightarrow> database \<Rightarrow> unit option" where
  "short_order_create_do_evaluate op d = do {
     fc_assert (so_expiration op \<ge> head_block_time d);
     base_asset \<leftarrow> get_object (assets d) (asset_id (so_amount_to_sell op));
     quote_asset \<leftarrow> get_object (assets d) (asset_id (so_collateral op));
     fc_assert (is_market_issued base_asset);
     (_, b) \<leftarrow> bitasset_data base_asset d;
     fc_assert (asset_id (so_collateral op) = bd_short_backing_asset b);
     seller \<leftarrow> get_object (accounts d) (so_seller op);
     fc_assert (\<not> enforce_white_list base_asset \<or> is_authorized_asset seller base_asset);
     fc_assert (\<not> enforce_white_list quote_asset \<or> is_authorized_asset seller quote_asset);
     if prediction_market (bd_options b) then do {
       fc_assert (so_initial_collateral_ratio op = 0);
       fc_assert (so_maintenance_collateral_ratio op = 0);
       p \<leftarrow> so_sell_price op;
       fc_assert (amount (base p) < amount (quote p)) }
     else do {
       fc_assert (so_initial_collateral_ratio op \<ge> required_initial_collateral (bd_current_feed b));
       fc_assert (so_maintenance_collateral_ratio op \<ge> required_maintenance_collateral (bd_current_feed b));
       p \<leftarrow> so_sell_price op;
       fc_assert (price_ge p (short_limit (bd_current_feed b))) } }"

definition place_short_order :: "short_order_create_operation \<Rightarrow> database \<Rightarrow> (nat \<times> database) option" where
  "place_short_order op d = do {
     neg \<leftarrow> asset_neg (so_collateral op);
     d1 \<leftarrow> adjust_balance (so_seller op) neg d;
     p \<leftarrow> so_sell_price op;
     c \<leftarrow> so_call_price op;
     (i, t) \<leftarrow> gi_create \<lparr>sho_expiration = so_expiration op, sho_seller = so_seller op,
        sho_for_sale = amount (so_amount_to_sell op), sho_available_collateral = amount (so_collateral op),
        sho_sell_price = p, sho_call_price = c, sho_initial_collateral_ratio = so_initial_collateral_ratio op,
        sho_maintenance_collateral_ratio = so_maintenance_collateral_ratio op\<rparr> (short_orders d1);
     let d2 = d1\<lparr>short_orders := t\<rparr>;
     seller \<leftarrow> get_object (accounts d2) (so_seller op);
     d3 \<leftarrow> (if asset_id (so_collateral op) = 0 then core_in_orders seller 0 (amount (so_collateral op)) d2 else Some d2);
     Some (i, d3) }"

definition short_order_create_do_apply :: "short_order_create_operation \<Rightarrow> database \<Rightarrow> (operation_result \<times> database) option" where
  "short_order_create_do_apply op d = do {
     let sell_id = asset_id (so_amount_to_sell op);
     (i, d1) \<leftarrow> place_short_order op d;
     let result = protocol_result short_order_object_type i;
     (_, d2) \<leftarrow> check_call_orders sell_id d1;
     if gi_find (short_orders d2) i = None then Some (result, d2)
     else do {
       p \<leftarrow> so_sell_price op;
       limits \<leftarrow> limits_down_to (price_inv p) d2;
       d3 \<leftarrow> match_short_book i limits d2;
       (_, d4) \<leftarrow> check_call_orders sell_id d3;
       (_, d5) \<leftarrow> check_call_orders (asset_id (so_collateral op)) d4;
       Some (result, d5) } }"

definition short_order_cancel_do_evaluate :: "short_order_cancel_operation \<Rightarrow> database \<Rightarrow> nat option" where
  "short_order_cancel_do_evaluate op d = do {
     order \<leftarrow> get_object (short_orders d) (sc_order op);
     fc_assert (sho_seller order = sc_fee_paying_account op);
     Some (sc_order op) }"

definition cancel_short :: "short_order_cancel_operation \<Rightarrow> nat \<Rightarrow> database \<Rightarrow> (short_order_object \<times> database) option" where
  "cancel_short op i d = do {
     order \<leftarrow> get_object (short_orders d) i;
     let refunded = sho_get_collateral order;
     d1 \<leftarrow> adjust_balance (sc_fee_paying_account op) refunded d;
     t \<leftarrow> remove_object i (short_orders d1);
     let d2 = d1\<lparr>short_orders := t\<rparr>;
     payer \<leftarrow> get_object (accounts d2) (sc_fee_paying_account op);
     d3 \<leftarrow> (if asset_id refunded = 0 then core_in_orders payer 0 (- amount refunded) d2 else Some d2);
     Some (order, d3) }"

definition short_order_cancel_do_apply ::
  "short_order_cancel_operation \<Rightarrow> nat \<Rightarrow> database \<Rightarrow> (operation_result \<times> database) option" where
  "short_order_cancel_do_apply op i d = do {
     (order, d1) \<leftarrow> cancel_short op i d;
     (_, d2) \<leftarrow> check_call_orders (asset_id (base (sho_sell_price order))) d1;
     (_, d3) \<leftarrow> check_call_orders (asset_id (quote (sho_sell_price order))) d2;
     Some (Asset_Result (sho_get_collateral order), d3) }"

subsection \<open>Margin positions\<close>

text \<open>
  The evaluator finds the position and decides whether the operation closes it; if it does not, the
  position must not be called at once.
\<close>

definition closes_position :: "call_order_update_operation \<Rightarrow> call_order_object \<Rightarrow> bool option" where
  "closes_position op order = do {
     let cover = cu_amount_to_cover op;
     let add = cu_collateral_to_add op;
     let ratio = cu_maintenance_collateral_ratio op;
     fc_assert (amount cover \<le> amount (call_get_debt order));
     if amount cover < amount (call_get_debt order) then do {
       rest \<leftarrow> asset_minus (call_get_debt order) cover;
       coll \<leftarrow> asset_plus (call_get_collateral order) add;
       p \<leftarrow> call_price rest coll (if ratio \<noteq> 0 then ratio else call_maintenance_collateral_ratio order);
       x \<leftarrow> asset_mult rest p;
       fc_assert (asset_lt x (call_get_collateral order));
       fc_assert (asset_lt cover (call_get_debt order));
       Some False }
     else do {
       n \<leftarrow> share (- amount (call_get_collateral order));
       fc_assert (amount add = n);
       Some True } }"

definition call_order_update_do_evaluate :: "call_order_update_operation \<Rightarrow> database \<Rightarrow> (nat \<times> bool) option" where
  "call_order_update_do_evaluate op d = do {
     let cover = cu_amount_to_cover op;
     let add = cu_collateral_to_add op;
     let ratio = cu_maintenance_collateral_ratio op;
     _ \<leftarrow> get_object (accounts d) (cu_funding_account op);
     debt_asset \<leftarrow> get_object (assets d) (asset_id cover);
     (_, b) \<leftarrow> bitasset_data debt_asset d;
     fc_assert (is_market_issued debt_asset);
     fc_assert (asset_id add = bd_short_backing_asset b);
     _ \<leftarrow> (if prediction_market (bd_options b) then do {
            fc_assert (amount add \<le> 0);
            n \<leftarrow> share (- amount add);
            fc_assert (n = amount cover);
            fc_assert (ratio = 0) }
          else fc_assert (ratio = 0 \<or> ratio > required_maintenance_collateral (bd_current_feed b)));
     enough \<leftarrow> asset_ge (get_balance (cu_funding_account op) (asset_id cover) d) cover;
     fc_assert enough;
     _ \<leftarrow> get_object (assets d) (bd_short_backing_asset b);
     enough' \<leftarrow> asset_ge (get_balance (cu_funding_account op) (bd_short_backing_asset b) d) add;
     fc_assert enough';
     (i, order) \<leftarrow> find_call (cu_funding_account op) (asset_id cover) d;
     fc_assert (asset_id cover = debt_type order);
     closing \<leftarrow> closes_position op order;
     Some (i, closing) }"

definition close_call :: "call_order_update_operation \<Rightarrow> nat \<Rightarrow> database \<Rightarrow> (asset \<times> database) option" where
  "close_call op i d = do {
     order \<leftarrow> get_object (call_orders d) i;
     let returned = call_get_collateral order;
     d1 \<leftarrow> adjust_balance (cu_funding_account op) returned d;
     payer \<leftarrow> get_object (accounts d1) (cu_funding_account op);
     d2 \<leftarrow> core_in_orders payer (asset_id returned) (- amount returned) d1;
     t \<leftarrow> remove_object i (call_orders d2);
     Some (returned, d2\<lparr>call_orders := t\<rparr>) }"

definition update_call :: "call_order_update_operation \<Rightarrow> nat \<Rightarrow> database \<Rightarrow> database option" where
  "update_call op i d = do {
     let add = cu_collateral_to_add op;
     t \<leftarrow> modify_object i (\<lambda>c. do {
        x \<leftarrow> share (call_debt c - amount (cu_amount_to_cover op));
        y \<leftarrow> share (call_collateral c + amount add);
        update_call_price (c\<lparr>call_debt := x, call_collateral := y, call_maintenance_collateral_ratio :=
          (if cu_maintenance_collateral_ratio op \<noteq> 0 then cu_maintenance_collateral_ratio op
           else call_maintenance_collateral_ratio c)\<rparr>) }) (call_orders d);
     let d1 = d\<lparr>call_orders := t\<rparr>;
     d2 \<leftarrow> (if amount add > 0 then do { neg \<leftarrow> asset_neg add; adjust_balance (cu_funding_account op) neg d1 } else Some d1);
     payer \<leftarrow> get_object (accounts d2) (cu_funding_account op);
     core_in_orders payer (asset_id add) (amount add) d2 }"

definition call_order_update_do_apply ::
  "call_order_update_operation \<Rightarrow> nat \<times> bool \<Rightarrow> database \<Rightarrow> (operation_result \<times> database) option" where
  "call_order_update_do_apply op c d = (case c of (i, closing) \<Rightarrow> do {
     neg \<leftarrow> asset_neg (cu_amount_to_cover op);
     d1 \<leftarrow> adjust_balance (cu_funding_account op) neg d;
     debt_asset \<leftarrow> get_object (assets d1) (asset_id (cu_amount_to_cover op));
     t \<leftarrow> modify_object (ao_dynamic_asset_data_id debt_asset) (add_supply (- amount (cu_amount_to_cover op))) (asset_dyns d1);
     let d2 = d1\<lparr>asset_dyns := t\<rparr>;
     if closing then do { (returned, d3) \<leftarrow> close_call op i d2; Some (Asset_Result returned, d3) }
     else do { d3 \<leftarrow> update_call op i d2; Some (Asset_Result (mk_asset 0 0), d3) } })"

subsection \<open>The books\<close>

lemma place_limit_order_moves:
  assumes "place_limit_order op d = Some (i, d')" "tables_ok d"
  shows "moves d d' (\<lambda>_. 0) (\<lambda>_. 0)"
proof -
  obtain acct d1 n d2 p y t where f: "core_in_orders acct (asset_id (lo_amount_to_sell op)) (amount (lo_amount_to_sell op)) d = Some d1"
    "asset_neg (lo_amount_to_sell op) = Some n" "adjust_balance (lo_seller op) n d1 = Some d2" "lo_get_price op = Some p"
    "gi_create y (limit_orders d2) = Some (i, t)" "lim_for_sale y = amount (lo_amount_to_sell op)" "lim_sell_price y = p"
    "d' = d2\<lparr>limit_orders := t\<rparr>"
    using assms(1) unfolding place_limit_order_def by auto
  note m1 = moves_core_in_orders [OF f(1) assms(2)]
  note m2 = moves_trans [OF m1 moves_adjust [OF f(3) movesD(1) [OF m1]]]
  have "lim_amount_for_sale y = lo_amount_to_sell op" using f(4,6,7) by (auto simp: lo_get_price_def lim_amount_for_sale_def)
  then show ?thesis unfolding f(8) using f(2)
    by (intro moves_cong [OF moves_trans [OF m2 moves_create(1) [OF f(5) movesD(1) [OF m2]]]]) (auto simp: amount_of_def)
qed

lemma call_price_ids: "call_price debt coll r = Some p \<Longrightarrow> asset_id (base p) = asset_id coll \<and> quote p = debt"
  by (auto simp: call_price_def Let_def)

lemma place_short_order_moves:
  assumes "place_short_order op d = Some (i, d')" "tables_ok d"
  shows "moves d d' (\<lambda>_. 0) (\<lambda>_. 0)"
proof -
  obtain n d1 p c y t d2 acct where f: "asset_neg (so_collateral op) = Some n" "adjust_balance (so_seller op) n d = Some d1"
    "so_sell_price op = Some p" "so_call_price op = Some c" "gi_create y (short_orders d1) = Some (i, t)"
    "sho_available_collateral y = amount (so_collateral op)" "sho_sell_price y = p"
    "d2 = d1\<lparr>short_orders := t\<rparr>"
    "(if asset_id (so_collateral op) = 0 then core_in_orders acct 0 (amount (so_collateral op)) d2 else Some d2) = Some d'"
    using assms(1) unfolding place_short_order_def by (auto simp: Let_def)
  note m1 = moves_adjust [OF f(2) assms(2)]
  note m2 = moves_trans [OF m1 moves_create(2) [OF f(5) movesD(1) [OF m1]], folded f(8)]
  have m3: "moves d2 d' (\<lambda>_. 0) (\<lambda>_. 0)"
    using f(9) moves_core_in_orders moves_refl [OF movesD(1) [OF m2]] movesD(1) [OF m2] by (auto split: if_splits)
  have "asset_id (quote p) = asset_id (so_collateral op)"
    using f(3) by (auto simp: so_sell_price_def price_inv_def dest!: call_price_ids)
  then have "sho_get_collateral y = so_collateral op" using f(6,7) by (simp add: sho_get_collateral_def)
  then show ?thesis using f(1) by (intro moves_cong [OF moves_trans [OF m2 m3]]) (auto simp: amount_of_def)
qed

lemma cancel_short_moves:
  assumes "cancel_short op i d = Some (order, d')" "tables_ok d"
  shows "moves d d' (\<lambda>_. 0) (\<lambda>_. 0)"
proof -
  obtain d1 t d2 acct where f: "gi_find (short_orders d) i = Some order"
    "adjust_balance (sc_fee_paying_account op) (sho_get_collateral order) d = Some d1"
    "remove_object i (short_orders d1) = Some t" "d2 = d1\<lparr>short_orders := t\<rparr>"
    "(if asset_id (sho_get_collateral order) = 0 then core_in_orders acct 0 (- amount (sho_get_collateral order)) d2 else Some d2) = Some d'"
    using assms(1) unfolding cancel_short_def by (auto simp: Let_def)
  note m1 = moves_adjust [OF f(2) assms(2)]
  have "gi_find (short_orders d1) i = Some order" using f(1) adjust_balance_frame(3) [OF f(2)] by simp
  note m2 = moves_trans [OF m1 moves_remove(2) [OF f(3) movesD(1) [OF m1] this], folded f(4)]
  have "moves d2 d' (\<lambda>_. 0) (\<lambda>_. 0)"
    using f(5) moves_core_in_orders moves_refl [OF movesD(1) [OF m2]] movesD(1) [OF m2] by (auto split: if_splits)
  from moves_trans [OF m2 this] show ?thesis by (rule moves_cong) simp_all
qed

lemma close_call_moves:
  assumes "close_call op i d = Some (x, d')" "tables_ok d"
  shows "moves d d' (\<lambda>_. 0) (\<lambda>_. 0)"
proof -
  obtain order d1 acct d2 t where f: "gi_find (call_orders d) i = Some order"
    "adjust_balance (cu_funding_account op) (call_get_collateral order) d = Some d1"
    "core_in_orders acct (asset_id (call_get_collateral order)) (- amount (call_get_collateral order)) d1 = Some d2"
    "remove_object i (call_orders d2) = Some t" "d' = d2\<lparr>call_orders := t\<rparr>"
    using assms(1) unfolding close_call_def by (auto simp: Let_def)
  note m1 = moves_adjust [OF f(2) assms(2)]
  note m2 = moves_trans [OF m1 moves_core_in_orders [OF f(3) movesD(1) [OF m1]]]
  have "gi_find (call_orders d2) i = Some order"
    using f(1) adjust_balance_frame(4) [OF f(2)] core_in_orders_frame(4) [OF f(3)] by simp
  from moves_trans [OF m2 moves_remove(3) [OF f(4) movesD(1) [OF m2] this]] show ?thesis
    unfolding f(5) by (rule moves_cong) simp_all
qed

text \<open>Collateral that is taken out of a position is not paid to anybody.\<close>

lemma update_call_moves:
  assumes "update_call op i d = Some d'" "tables_ok d" "gi_find (call_orders d) i = Some c"
    "asset_id (base (call_call_price c)) = asset_id (cu_collateral_to_add op)"
  shows "moves d d' (\<lambda>a. if a = asset_id (cu_collateral_to_add op) then min 0 (amount (cu_collateral_to_add op)) else 0) (\<lambda>_. 0)"
proof -
  let ?add = "cu_collateral_to_add op"
  let ?f = "\<lambda>c. do { x \<leftarrow> share (call_debt c - amount (cu_amount_to_cover op)); y \<leftarrow> share (call_collateral c + amount ?add);
        update_call_price (c\<lparr>call_debt := x, call_collateral := y, call_maintenance_collateral_ratio :=
          (if cu_maintenance_collateral_ratio op \<noteq> 0 then cu_maintenance_collateral_ratio op
           else call_maintenance_collateral_ratio c)\<rparr>) }"
  obtain t d2 payer where f: "modify_object i ?f (call_orders d) = Some t"
    "(if amount ?add > 0 then do { neg \<leftarrow> asset_neg ?add; adjust_balance (cu_funding_account op) neg (d\<lparr>call_orders := t\<rparr>) }
      else Some (d\<lparr>call_orders := t\<rparr>)) = Some d2"
    "core_in_orders payer (asset_id ?add) (amount ?add) d2 = Some d'"
    using assms(1) unfolding update_call_def Let_def Option.bind_eq_Some_conv by (elim exE conjE) (rule that, assumption+)
  obtain c' where c': "?f c = Some c'" using f(1) assms(3) by (auto simp: modify_object_def)
  have coll: "amount_of a (call_get_collateral c') = amount_of a (call_get_collateral c) + amount_of a ?add" for a
    using c' assms(4) by (auto simp: update_call_price_def call_get_collateral_def amount_of_mk amount_of_def dest!: call_price_ids)
  note m1 = moves_modify(3) [OF f(1) assms(2,3) c']
  have m2: "moves (d\<lparr>call_orders := t\<rparr>) d2 (\<lambda>a. if amount ?add > 0 then - amount_of a ?add else 0) (\<lambda>_. 0)"
  proof (cases "amount ?add > 0")
    case True
    then obtain n where n: "asset_neg ?add = Some n" "adjust_balance (cu_funding_account op) n (d\<lparr>call_orders := t\<rparr>) = Some d2"
      using f(2) by (auto simp: bind_eq_Some_conv simp del: asset_neg_Some)
    show ?thesis by (rule moves_cong [OF moves_adjust [OF n(2) movesD(1) [OF m1]]]) (use n(1) True in \<open>auto simp: amount_of_def\<close>)
  next
    case False
    then show ?thesis using f(2) moves_refl [OF movesD(1) [OF m1]] by simp
  qed
  note m3 = moves_trans [OF m1 m2]
  show ?thesis
    by (rule moves_cong [OF moves_trans [OF m3 moves_core_in_orders [OF f(3) movesD(1) [OF m3]]]], simp_all add: coll)
      (auto simp: amount_of_def)
qed

lemma closes_position_market:
  "closes_position op order = Some closing \<Longrightarrow> \<not> closing \<Longrightarrow> asset_id (base (call_call_price order)) = asset_id (cu_collateral_to_add op)"
  by (auto simp: closes_position_def Let_def call_get_collateral_def split: if_splits)

text \<open>
  Changing a margin position keeps the books of every asset balanced, except that collateral taken
  out of it (a negative amount to add, which the evaluation admits when the position stays covered)
  leaves the position without reaching the account.
\<close>

theorem call_order_update_imbalance:
  assumes "call_order_update_do_evaluate op d = Some (i, closing)" "call_order_update_do_apply op (i, closing) d = Some (r, d')"
    and "tables_ok d"
  shows "tables_ok d' \<and> imbalance a d' = imbalance a d +
    (if \<not> closing \<and> a = asset_id (cu_collateral_to_add op) then min 0 (amount (cu_collateral_to_add op)) else 0)"
proof -
  let ?cover = "cu_amount_to_cover op" and ?add = "cu_collateral_to_add op"
  obtain order where o': "find_call (cu_funding_account op) (asset_id ?cover) d = Some (i, order)"
    "\<not> closing \<longrightarrow> asset_id (base (call_call_price order)) = asset_id ?add"
    using assms(1) unfolding call_order_update_do_evaluate_def Let_def Option.bind_eq_Some_conv split_paired_Ex case_prod_conv
      option.inject prod.inject
    by (elim exE conjE, hypsubst) (rule that, assumption, rule impI, rule closes_position_market)
  have order: "gi_find (call_orders d) i = Some order"
    using find_first_Some(1) [OF tables_okD(4) [OF assms(3)] o'(1) [unfolded find_call_def]] .
  obtain n d1 ast t d2 where f: "asset_neg ?cover = Some n" "adjust_balance (cu_funding_account op) n d = Some d1"
    "gi_find (assets d1) (asset_id ?cover) = Some (ast :: asset_object)"
    "modify_object (ao_dynamic_asset_data_id ast) (add_supply (- amount ?cover)) (asset_dyns d1) = Some t" "d2 = d1\<lparr>asset_dyns := t\<rparr>"
    "(if closing then do { (returned, d3) \<leftarrow> close_call op i d2; Some (Asset_Result returned, d3) }
     else do { d3 \<leftarrow> update_call op i d2; Some (Asset_Result (mk_asset 0 0), d3) }) = Some (r, d')"
    using assms(2) unfolding call_order_update_do_apply_def case_prod_conv Let_def get_object_gi Option.bind_eq_Some_conv
    by (elim exE conjE) (rule that, assumption+, simp, assumption)
  note m1 = moves_adjust [OF f(2) assms(3)]
  have id: "ao_dynamic_asset_data_id ast = asset_id ?cover" using tables_okD(12) [OF movesD(1) [OF m1] f(3)] .
  note m2 = moves_trans [OF m1 moves_dyn [OF f(4) movesD(1) [OF m1], of 0 0 "- amount ?cover"], folded f(5)]
  have m2: "moves d d2 (\<lambda>a. - amount_of a ?cover) (\<lambda>a. - amount_of a ?cover)"
    by (rule moves_cong [OF m2]) (use f(1) id in \<open>auto simp: add_supply_def amount_of_def\<close>)
  have c2: "gi_find (call_orders d2) i = Some order" using order adjust_balance_frame(4) [OF f(2)] f(5) by simp
  have "moves d2 d' (\<lambda>a. if \<not> closing \<and> a = asset_id ?add then min 0 (amount ?add) else 0) (\<lambda>_. 0)"
  proof (cases closing)
    case True
    then show ?thesis using f(6) close_call_moves movesD(1) [OF m2] by auto
  next
    case False
    then show ?thesis using f(6) o'(2) update_call_moves [OF _ movesD(1) [OF m2] c2] by auto
  qed
  from moves_trans [OF m2 this] show ?thesis using moves_imbalance movesD(1) by fastforce
qed


definition sample_cover_database :: database where
  "sample_cover_database = sample_margin\<lparr>balances := table_of
       [\<lparr>bal_owner = 1, bal_asset_type = 0, bal_balance = 1000000\<rparr>,
        \<lparr>bal_owner = 2, bal_asset_type = 2, bal_balance = 90\<rparr>,
        \<lparr>bal_owner = 1, bal_asset_type = 2, bal_balance = 10\<rparr>]\<rparr>"

definition sample_cover :: call_order_update_operation where
  "sample_cover = \<lparr>cu_funding_account = 1, cu_fee = mk_asset 0 0, cu_collateral_to_add = mk_asset (-100) 0,
     cu_amount_to_cover = mk_asset 10 2, cu_maintenance_collateral_ratio = 1800\<rparr>"

lemma sample_cover_tables: "tables_ok sample_cover_database"
proof -
  have "balances_ok (balances sample_cover_database)"
    by (auto simp: balances_ok_def sample_cover_database_def bal_key_def less_Suc_eq numeral_nat nth_Cons' split: if_splits)
  then show ?thesis using sample_margin_ok by (simp add: book_ok_def sample_cover_database_def tables_ok_def)
qed

lemma call_order_update_imbalance_witness:
  "map_option (\<lambda>(r, d'). imbalance 0 d' - imbalance 0 sample_cover_database)
     (call_order_update_do_apply sample_cover (0, False) sample_cover_database) = Some (- 100)"
proof -
  have e: "call_order_update_do_evaluate sample_cover sample_cover_database = Some (0, False)" by code_simp
  have "map_option (\<lambda>(r, d'). True) (call_order_update_do_apply sample_cover (0, False) sample_cover_database) = Some True"
    by code_simp
  then obtain r d' where a: "call_order_update_do_apply sample_cover (0, False) sample_cover_database = Some (r, d')" by auto
  show ?thesis using call_order_update_imbalance [OF e a sample_cover_tables, of 0] a by (simp add: sample_cover_def)
qed

end
