(* ===== verification/Transactions.thy ===== *)
theory Transactions
  imports Account_Ops Contract_Ops Market_Ops
begin

unbundle bit_operations_syntax

section \<open>Proposals and transactions\<close>

text \<open>
  Models \<^verbatim>\<open>proposal_evaluator.cpp\<close>, \<^verbatim>\<open>proposal_object.cpp\<close>, \<open>transaction::validate\<close> (\<^verbatim>\<open>transaction.cpp\<close>) and, of
  \<^verbatim>\<open>database.cpp\<close>, the table of evaluators, \<open>apply_operation\<close>, \<open>push_proposal\<close> and \<open>apply_transaction\<close>.

  An approved proposal is executed from within the evaluator of the last approval, and its operations may
  approve other proposals. The C++ recursion has no bound: a proposal that approves itself runs until the
  stack is exhausted. The model takes the depth to which executions may nest as an argument; beyond it an
  execution fails like one that throws. The history of operations of an execution that fails is dropped
  with it.

  Digests and signatures are opaque, so the id of a transaction and the test that a key made a signature
  are parameters.
\<close>

record crypto =
  trx_id_of :: "signed_transaction \<Rightarrow> nat"
  key_signed :: "key_data \<Rightarrow> nat \<Rightarrow> signed_transaction \<Rightarrow> block_id_type option \<Rightarrow> bool"

definition proposal_object_type :: nat where "proposal_object_type = 12"

definition skip_delegate_signature :: int where "skip_delegate_signature = 0x01"
definition skip_transaction_signatures :: int where "skip_transaction_signatures = 0x02"
definition skip_undo_block :: int where "skip_undo_block = 0x04"
definition skip_transaction_dupe_check :: int where "skip_transaction_dupe_check = 0x10"
definition skip_fork_db :: int where "skip_fork_db = 0x20"
definition skip_tapos_check :: int where "skip_tapos_check = 0x80"
definition skip_authority :: int where "skip_authority = 0x100"
definition skip_merkle_check :: int where "skip_merkle_check = 0x200"

subsection \<open>Proposals\<close>

definition transaction_validate :: "'a transaction_scheme \<Rightarrow> bool" where
  "transaction_validate t \<longleftrightarrow>
     (relative_expiration t = 0 \<longrightarrow> ref_block_num t = 0 \<and> ref_block_prefix t > 0) \<and> list_all op_validate (operations t)"

definition proposed_transaction :: "operation list \<Rightarrow> transaction" where
  "proposed_transaction ops = \<lparr>ref_block_num = 0, ref_block_prefix = 0, relative_expiration = 1, operations = ops\<rparr>"

definition proposal_create_do_evaluate :: "operation proposal_create_operation \<Rightarrow> database \<Rightarrow> transaction option" where
  "proposal_create_do_evaluate op d = do {
     let p = parameters (gprops d);
     let now = head_block_time d;
     fc_assert (pc_expiration_time op > now);
     fc_assert (pc_expiration_time op \<le> uint32 (now + maximum_proposal_lifetime p));
     fc_assert (case pc_review_period_seconds op of None \<Rightarrow> True | Some s \<Rightarrow> s < pc_expiration_time op - now);
     fc_assert (list_ex (\<lambda>o'. let (act, own) = get_required_auth o' ([], []) in 0 \<in> set act \<union> set own) (pc_proposed_ops op) \<longrightarrow>
       (case pc_review_period_seconds op of None \<Rightarrow> False | Some s \<Rightarrow> s \<ge> genesis_proposal_review_period p));
     let t = proposed_transaction (pc_proposed_ops op);
     fc_assert (transaction_validate t);
     Some t }"

definition required_approvals :: "operation list \<Rightarrow> account_id_type list \<times> account_id_type list" where
  "required_approvals ops = (let (act, own) = fold get_required_auth ops ([], []) in (filter (\<lambda>i. i \<notin> set own) act, own))"

definition proposal_create_do_apply ::
  "operation proposal_create_operation \<Rightarrow> transaction \<Rightarrow> database \<Rightarrow> (operation_result \<times> database) option" where
  "proposal_create_do_apply op trx d = do {
     let (act, own) = required_approvals (operations trx);
     (i, t) \<leftarrow> gi_create \<lparr>prop_expiration_time = pc_expiration_time op,
        prop_review_period_time = map_option (\<lambda>s. uint32 (pc_expiration_time op - s)) (pc_review_period_seconds op),
        prop_proposed_transaction = trx, prop_required_active_approvals = act, prop_available_active_approvals = [],
        prop_required_owner_approvals = own, prop_available_owner_approvals = [], prop_available_key_approvals = []\<rparr> (proposals d);
     Some (protocol_result proposal_object_type i, d\<lparr>proposals := t\<rparr>) }"

definition proposal_update_do_evaluate ::
  "proposal_update_operation \<Rightarrow> transaction_evaluation_state \<Rightarrow> database \<Rightarrow> nat option" where
  "proposal_update_do_evaluate op st d = do {
     p \<leftarrow> get_object (proposals d) (pu_proposal op);
     fc_assert (case prop_review_period_time p of None \<Rightarrow> True
       | Some t \<Rightarrow> head_block_time d \<ge> t \<longrightarrow> pu_active_approvals_to_add op = [] \<and> pu_owner_approvals_to_add op = []);
     fc_assert (list_all (\<lambda>i. i \<in> set (prop_available_active_approvals p)) (pu_active_approvals_to_remove op));
     fc_assert (list_all (\<lambda>i. i \<in> set (prop_available_owner_approvals p)) (pu_owner_approvals_to_remove op));
     fc_assert (list_all (\<lambda>k. signed_by st k \<or> skip_authority_check st) (pu_key_approvals_to_add op));
     fc_assert (list_all (\<lambda>k. signed_by st k \<or> skip_authority_check st) (pu_key_approvals_to_remove op));
     Some (pu_proposal op) }"

definition note_approvals :: "proposal_update_operation \<Rightarrow> proposal_object \<Rightarrow> proposal_object" where
  "note_approvals op p = p\<lparr>
     prop_available_active_approvals := fold fs_erase (pu_active_approvals_to_remove op)
       (fold fs_insert (pu_active_approvals_to_add op) (prop_available_active_approvals p)),
     prop_available_owner_approvals := fold fs_erase (pu_owner_approvals_to_remove op)
       (fold fs_insert (pu_owner_approvals_to_add op) (prop_available_owner_approvals p)),
     prop_available_key_approvals := fold fs_erase (pu_key_approvals_to_remove op)
       (fold fs_insert (pu_key_approvals_to_add op) (prop_available_key_approvals p))\<rparr>"

fun all_grant :: "database \<Rightarrow> classification \<Rightarrow> account_id_type list \<Rightarrow> transaction_evaluation_state \<Rightarrow>
    (bool \<times> transaction_evaluation_state) option" where
  "all_grant d c [] st = Some (True, st)"
| "all_grant d c (i # is) st = do {
     _ \<leftarrow> get_object (accounts d) i;
     (ok, st1) \<leftarrow> check_authority d i c st;
     if ok then all_grant d c is st1 else Some (False, st1) }"

definition approvals_of :: "account_id_type list \<Rightarrow> account_id_type list \<Rightarrow> (object_id_type \<times> classification) list" where
  "approvals_of act own = map (\<lambda>i. (account_oid i, active_auth)) act @ map (\<lambda>i. (account_oid i, owner_auth)) own"

definition dry_run_state :: "proposal_object \<Rightarrow> transaction_evaluation_state" where
  "dry_run_state p = \<lparr>approved_by = approvals_of (prop_available_active_approvals p) (prop_available_owner_approvals p),
     operation_results = [],
     es_trx = \<lparr>ref_block_num = 0, ref_block_prefix = 0, relative_expiration = 1, operations = [],
       signatures = map (\<lambda>k. (k, 0)) (prop_available_key_approvals p)\<rparr>,
     skip_authority_check = False, is_proposed_trx = True\<rparr>"

definition is_authorized_to_execute :: "database \<Rightarrow> proposal_object \<Rightarrow> bool option" where
  "is_authorized_to_execute d p = do {
     (ok, st) \<leftarrow> all_grant d active_auth (prop_required_active_approvals p) (dry_run_state p);
     if \<not> ok then Some False
     else do { (ok2, _) \<leftarrow> all_grant d owner_auth (prop_required_owner_approvals p) st; Some ok2 } }"

text \<open>\<open>push\<close> executes a proposal; an exception in it leaves the database as it was.\<close>

definition proposal_update_do_apply ::
  "(nat \<Rightarrow> database \<Rightarrow> database option) \<Rightarrow> proposal_update_operation \<Rightarrow> nat \<Rightarrow> database \<Rightarrow> (operation_result \<times> database) option"
where
  "proposal_update_do_apply push op i d = do {
     t \<leftarrow> modify_object i (\<lambda>p. Some (note_approvals op p)) (proposals d);
     let d1 = d\<lparr>proposals := t\<rparr>;
     p \<leftarrow> get_object (proposals d1) i;
     if prop_review_period_time p \<noteq> None then Some (no_object, d1)
     else do {
       ok \<leftarrow> is_authorized_to_execute d1 p;
       if ok then Some (no_object, case push i d1 of None \<Rightarrow> d1 | Some d2 \<Rightarrow> d2)
       else Some (no_object, d1) } }"

definition proposal_delete_do_evaluate :: "proposal_delete_operation \<Rightarrow> database \<Rightarrow> nat option" where
  "proposal_delete_do_evaluate op d = do {
     p \<leftarrow> get_object (proposals d) (pd_proposal op);
     fc_assert (pd_fee_paying_account op \<in> set (if pd_using_owner_authority op then prop_required_owner_approvals p
       else prop_required_active_approvals p));
     Some (pd_proposal op) }"

definition proposal_delete_do_apply :: "nat \<Rightarrow> database \<Rightarrow> (operation_result \<times> database) option" where
  "proposal_delete_do_apply i d = do {
     t \<leftarrow> remove_object i (proposals d);
     Some (no_object, d\<lparr>proposals := t\<rparr>) }"

subsection \<open>The registered evaluators\<close>

type_synonym outcome = "(operation_result \<times> transaction_evaluation_state \<times> database) option"

text \<open>Applying an operation without an evaluator dereferences a null pointer, which has no outcome.\<close>

fun plain_operation :: "operation \<Rightarrow> transaction_evaluation_state \<Rightarrow> database \<Rightarrow> outcome" where
  "plain_operation (Transfer_Op o') st d = start_evaluate (Transfer_Op o') (reading (transfer_do_evaluate o')) (applying (\<lambda>_. transfer_do_apply o')) st d"
| "plain_operation (Limit_Order_Create_Op o') st d = start_evaluate (Limit_Order_Create_Op o') (reading (limit_order_create_do_evaluate o')) (applying (\<lambda>_. limit_order_create_do_apply o')) st d"
| "plain_operation (Short_Order_Create_Op o') st d = start_evaluate (Short_Order_Create_Op o') (reading (short_order_create_do_evaluate o')) (applying (\<lambda>_. short_order_create_do_apply o')) st d"
| "plain_operation (Limit_Order_Cancel_Op o') st d = start_evaluate (Limit_Order_Cancel_Op o') (reading (limit_order_cancel_do_evaluate o')) (applying (limit_order_cancel_do_apply o')) st d"
| "plain_operation (Short_Order_Cancel_Op o') st d = start_evaluate (Short_Order_Cancel_Op o') (reading (short_order_cancel_do_evaluate o')) (applying (short_order_cancel_do_apply o')) st d"
| "plain_operation (Call_Order_Update_Op o') st d = start_evaluate (Call_Order_Update_Op o') (reading (call_order_update_do_evaluate o')) (applying (call_order_update_do_apply o')) st d"
| "plain_operation (Key_Create_Op o') st d = start_evaluate (Key_Create_Op o') (reading (\<lambda>_. Some ())) (applying (\<lambda>_. key_create_do_apply o')) st d"
| "plain_operation (Account_Create_Op o') st d = start_evaluate (Account_Create_Op o') (account_create_evaluation o') (\<lambda>_. account_create_do_apply o') st d"
| "plain_operation (Account_Update_Op o') st d = start_evaluate (Account_Update_Op o') (reading (account_update_do_evaluate o')) (applying (\<lambda>_. account_update_do_apply o')) st d"
| "plain_operation (Account_Whitelist_Op o') st d = start_evaluate (Account_Whitelist_Op o') (reading (account_whitelist_do_evaluate o')) (applying (\<lambda>_. account_whitelist_do_apply o')) st d"
| "plain_operation (Asset_Create_Op o') st d = start_evaluate (Asset_Create_Op o') (asset_create_evaluation o') (applying (\<lambda>_. asset_create_do_apply o')) st d"
| "plain_operation (Asset_Update_Op o') st d = start_evaluate (Asset_Update_Op o') (reading (asset_update_do_evaluate o')) (applying (\<lambda>_. asset_update_do_apply o')) st d"
| "plain_operation (Asset_Update_Bitasset_Op o') st d = start_evaluate (Asset_Update_Bitasset_Op o') (reading (asset_update_bitasset_do_evaluate o')) (applying (asset_update_bitasset_do_apply o')) st d"
| "plain_operation (Asset_Update_Feed_Producers_Op o') st d = start_evaluate (Asset_Update_Feed_Producers_Op o') (reading (asset_update_feed_producers_do_evaluate o')) (applying (asset_update_feed_producers_do_apply o')) st d"
| "plain_operation (Asset_Issue_Op o') st d = start_evaluate (Asset_Issue_Op o') (reading (asset_issue_do_evaluate o')) (applying (asset_issue_do_apply o')) st d"
| "plain_operation (Asset_Burn_Op o') st d = start_evaluate (Asset_Burn_Op o') (reading (asset_burn_do_evaluate o')) (applying (asset_burn_do_apply o')) st d"
| "plain_operation (Asset_Fund_Fee_Pool_Op o') st d = start_evaluate (Asset_Fund_Fee_Pool_Op o') (reading (asset_fund_fee_pool_do_evaluate o')) (applying (asset_fund_fee_pool_do_apply o')) st d"
| "plain_operation (Asset_Settle_Op o') st d = start_evaluate (Asset_Settle_Op o') (reading (asset_settle_do_evaluate o')) (applying (asset_settle_do_apply o')) st d"
| "plain_operation (Asset_Global_Settle_Op o') st d = start_evaluate (Asset_Global_Settle_Op o') (reading (asset_global_settle_do_evaluate o')) (applying (\<lambda>_. asset_global_settle_do_apply o')) st d"
| "plain_operation (Asset_Publish_Feed_Op o') st d = start_evaluate (Asset_Publish_Feed_Op o') (reading (asset_publish_feeds_do_evaluate o')) (applying (asset_publish_feeds_do_apply o')) st d"
| "plain_operation (Delegate_Create_Op o') st d = start_evaluate (Delegate_Create_Op o') (reading (prime_account (dc_delegate_account o'))) (applying (\<lambda>_. delegate_create_do_apply o')) st d"
| "plain_operation (Witness_Create_Op o') st d = start_evaluate (Witness_Create_Op o') (reading (prime_account (wc_witness_account o'))) (applying (\<lambda>_. witness_create_do_apply o')) st d"
| "plain_operation (Witness_Withdraw_Pay_Op o') st d = start_evaluate (Witness_Withdraw_Pay_Op o') (reading (witness_withdraw_pay_do_evaluate o')) (applying (\<lambda>_. witness_withdraw_pay_do_apply o')) st d"
| "plain_operation (Proposal_Create_Op o') st d = start_evaluate (Proposal_Create_Op o') (reading (proposal_create_do_evaluate o')) (applying (proposal_create_do_apply o')) st d"
| "plain_operation (Proposal_Delete_Op o') st d = start_evaluate (Proposal_Delete_Op o') (reading (proposal_delete_do_evaluate o')) (applying (\<lambda>i. proposal_delete_do_apply i)) st d"
| "plain_operation (Withdraw_Permission_Create_Op o') st d = start_evaluate (Withdraw_Permission_Create_Op o') (reading (withdraw_permission_create_do_evaluate o')) (applying (\<lambda>_. withdraw_permission_create_do_apply o')) st d"
| "plain_operation (Withdraw_Permission_Update_Op o') st d = start_evaluate (Withdraw_Permission_Update_Op o') (reading (withdraw_permission_update_do_evaluate o')) (applying (\<lambda>_. withdraw_permission_update_do_apply o')) st d"
| "plain_operation (Withdraw_Permission_Claim_Op o') st d = start_evaluate (Withdraw_Permission_Claim_Op o') (reading (withdraw_permission_claim_do_evaluate o')) (applying (\<lambda>_. withdraw_permission_claim_do_apply o')) st d"
| "plain_operation (Withdraw_Permission_Delete_Op o') st d = start_evaluate (Withdraw_Permission_Delete_Op o') (reading (withdraw_permission_delete_do_evaluate o')) (applying (\<lambda>_. withdraw_permission_delete_do_apply o')) st d"
| "plain_operation (Global_Parameters_Update_Op o') st d = start_evaluate (Global_Parameters_Update_Op o') (global_parameters_update_evaluation o') (applying (\<lambda>_. global_parameters_update_do_apply o')) st d"
| "plain_operation (Vesting_Balance_Create_Op o') st d = start_evaluate (Vesting_Balance_Create_Op o') (reading (vesting_balance_create_do_evaluate o')) (applying (\<lambda>_. vesting_balance_create_do_apply o')) st d"
| "plain_operation (Vesting_Balance_Withdraw_Op o') st d = start_evaluate (Vesting_Balance_Withdraw_Op o') (reading (vesting_balance_withdraw_do_evaluate o')) (applying (\<lambda>_. vesting_balance_withdraw_do_apply o')) st d"
| "plain_operation (Bond_Create_Offer_Op o') st d = start_evaluate (Bond_Create_Offer_Op o') (reading (bond_create_offer_do_evaluate o')) (applying (\<lambda>_. bond_create_offer_do_apply o')) st d"
| "plain_operation (Bond_Cancel_Offer_Op o') st d = start_evaluate (Bond_Cancel_Offer_Op o') (reading (bond_cancel_offer_do_evaluate o')) (applying (bond_cancel_offer_do_apply o')) st d"
| "plain_operation (Bond_Accept_Offer_Op o') st d = start_evaluate (Bond_Accept_Offer_Op o') (reading (bond_accept_offer_do_evaluate o')) (applying (bond_accept_offer_do_apply o')) st d"
| "plain_operation (Bond_Claim_Collateral_Op o') st d = start_evaluate (Bond_Claim_Collateral_Op o') (reading (bond_claim_collateral_do_evaluate o')) (applying (bond_claim_collateral_do_apply o')) st d"
| "plain_operation (Worker_Create_Op o') st d = start_evaluate (Worker_Create_Op o') (reading (worker_create_do_evaluate o')) (applying (\<lambda>_. worker_create_do_apply o')) st d"
| "plain_operation (Custom_Op o') st d = start_evaluate (Custom_Op o') (reading (\<lambda>_. Some ())) (applying (\<lambda>_ d. Some (no_object, d))) st d"
| "plain_operation op st d = None"

subsection \<open>Executing operations\<close>

fun run_operations ::
  "(transaction_evaluation_state \<Rightarrow> operation \<Rightarrow> database \<Rightarrow> outcome) \<Rightarrow> operation list \<Rightarrow> transaction_evaluation_state \<Rightarrow>
   database \<Rightarrow> (transaction_evaluation_state \<times> database) option" where
  "run_operations app [] st d = Some (st, d)"
| "run_operations app (op # ops) st d = do {
     (r, st1, d1) \<leftarrow> app st op d;
     run_operations app ops (st1\<lparr>operation_results := operation_results st1 @ [r]\<rparr>) d1 }"

definition proposal_state :: "proposal_object \<Rightarrow> transaction_evaluation_state" where
  "proposal_state p = \<lparr>approved_by = approvals_of (prop_required_active_approvals p) (prop_required_owner_approvals p),
     operation_results = [],
     es_trx = transaction.extend (prop_proposed_transaction p) \<lparr>signatures = []\<rparr>,
     skip_authority_check = False, is_proposed_trx = True\<rparr>"

definition push_proposal_with ::
  "(transaction_evaluation_state \<Rightarrow> operation \<Rightarrow> database \<Rightarrow> outcome) \<Rightarrow> nat \<Rightarrow> database \<Rightarrow> database option" where
  "push_proposal_with app i d = do {
     p \<leftarrow> get_object (proposals d) i;
     (_, d1) \<leftarrow> run_operations app (operations (prop_proposed_transaction p)) (proposal_state p) d;
     t \<leftarrow> remove_object i (proposals d1);
     Some (d1\<lparr>proposals := t\<rparr>) }"

definition proposal_update_evaluation :: "proposal_update_operation \<Rightarrow> nat evaluation" where
  "proposal_update_evaluation op core st d = map_option (\<lambda>i. (i, core, st)) (proposal_update_do_evaluate op st d)"

fun apply_operation :: "nat \<Rightarrow> transaction_evaluation_state \<Rightarrow> operation \<Rightarrow> database \<Rightarrow> outcome" where
  "apply_operation depth st op d =
     (let op_id = length (applied_ops d); d1 = push_applied_operation op d in do {
        (r, st1, d2) \<leftarrow> (case op of
            Proposal_Update_Op o' \<Rightarrow>
              start_evaluate op (proposal_update_evaluation o')
                (applying (proposal_update_do_apply
                   (case depth of 0 \<Rightarrow> (\<lambda>_ _. None) | Suc n \<Rightarrow> push_proposal_with (apply_operation n)) o')) st d1
          | _ \<Rightarrow> plain_operation op st d1);
        Some (r, st1, set_applied_operation_result op_id r d2) })"

declare apply_operation.simps [simp del]

definition push_proposal :: "nat \<Rightarrow> nat \<Rightarrow> database \<Rightarrow> database option" where
  "push_proposal depth = push_proposal_with (apply_operation depth)"

subsection \<open>Applying a transaction\<close>

text \<open>The words of a block id; the first holds the number of the block.\<close>

definition id_word :: "nat \<Rightarrow> block_id_type \<Rightarrow> int" where
  "id_word k i = int (i div 2 ^ (32 * k) mod 2 ^ 32)"

definition signatures_ok :: "crypto \<Rightarrow> signed_transaction \<Rightarrow> block_id_type option \<Rightarrow> database \<Rightarrow> bool" where
  "signatures_ok cr trx b d = list_all (\<lambda>(k, s).
     case gi_find (keys d) k of None \<Rightarrow> False | Some key \<Rightarrow> key_signed cr key s trx b) (signatures trx)"

definition tapos_summary :: "signed_transaction \<Rightarrow> database \<Rightarrow> block_summary_object option" where
  "tapos_summary trx d = get_object (block_summaries d)
     (nat (head_block_number (dprops d) div 0x10000 * 0x10000 + ref_block_num trx))"

text \<open>When a transaction expires, and the checks of its reference block on the way.\<close>

definition transaction_expiration :: "crypto \<Rightarrow> int \<Rightarrow> signed_transaction \<Rightarrow> database \<Rightarrow> time_point_sec option" where
  "transaction_expiration cr skip trx d = do {
     let p = parameters (gprops d);
     let latest = uint32 (pending_timestamp d + maximum_time_until_expiration p);
     if head_block_number (dprops d) > 0 then do {
       e \<leftarrow> (if \<not> has_flag skip skip_tapos_check \<and> relative_expiration trx \<noteq> 0 then do {
               b \<leftarrow> tapos_summary trx d;
               fc_assert (\<not> has_flag skip skip_transaction_signatures \<longrightarrow> signatures_ok cr trx (Some (bs_block_id b)) d);
               fc_assert (ref_block_prefix trx = id_word 1 (bs_block_id b));
               Some (uint32 (bs_timestamp b + block_interval p * relative_expiration trx)) }
             else if relative_expiration trx = 0 then do {
               fc_assert (ref_block_prefix trx \<le> latest);
               Some (ref_block_prefix trx) }
             else Some latest);
       fc_assert (pending_timestamp d \<le> e);
       Some e }
     else do {
       fc_assert (\<not> has_flag skip skip_transaction_signatures \<longrightarrow> relative_expiration trx = 0);
       Some latest } }"

definition apply_transaction :: "crypto \<Rightarrow> nat \<Rightarrow> int \<Rightarrow> signed_transaction \<Rightarrow> database \<Rightarrow> (operation_result list \<times> database) option" where
  "apply_transaction cr depth skip trx d = do {
     fc_assert (transaction_validate trx);
     let i = trx_id_of cr trx;
     fc_assert (has_flag skip skip_transaction_dupe_check \<or> find_first (\<lambda>t. to_trx_id t = i) (transactions d) = None);
     fc_assert (\<not> has_flag skip skip_transaction_signatures \<and> relative_expiration trx = 0 \<longrightarrow> signatures_ok cr trx None d);
     e \<leftarrow> transaction_expiration cr skip trx d;
     d1 \<leftarrow> (if \<not> has_flag skip skip_transaction_dupe_check then do {
              (_, t) \<leftarrow> gi_create \<lparr>to_trx = trx, to_expiration = e, to_trx_id = i\<rparr> (transactions d);
              Some (d\<lparr>transactions := t\<rparr>) }
            else Some d);
     let st = \<lparr>approved_by = [], operation_results = [], es_trx = trx,
               skip_authority_check = has_flag skip skip_authority, is_proposed_trx = False\<rparr>;
     (st1, d2) \<leftarrow> run_operations (apply_operation depth) (operations trx) st d1;
     Some (operation_results st1, d2) }"

subsection \<open>The books\<close>

interpretation proposal_create: evaluator Proposal_Create_Op "\<lambda>op. reading (proposal_create_do_evaluate op)"
    "\<lambda>op. applying (proposal_create_do_apply op)" "\<lambda>_ _. True"
  by (rule evaluator_reading) (auto simp: proposal_create_do_apply_def split: prod.splits intro: same_books_other)

interpretation proposal_delete: evaluator Proposal_Delete_Op "\<lambda>op. reading (proposal_delete_do_evaluate op)"
    "\<lambda>op. applying (\<lambda>i. proposal_delete_do_apply i)" "\<lambda>_ _. True"
  by (rule evaluator_reading) (auto simp: proposal_delete_do_apply_def intro: same_books_other)

text \<open>
  The operations whose accounts hold whatever the state: all but those that run the market engine, which
  have theorems of their own, the acceptance of a bond and the execution of a proposal. An asset must be
  created with a fee in the core asset.
\<close>

fun books_neutral :: "operation \<Rightarrow> bool" where
  "books_neutral (Limit_Order_Create_Op o') = False"
| "books_neutral (Short_Order_Create_Op o') = False"
| "books_neutral (Limit_Order_Cancel_Op o') = False"
| "books_neutral (Short_Order_Cancel_Op o') = False"
| "books_neutral (Call_Order_Update_Op o') = False"
| "books_neutral (Asset_Global_Settle_Op o') = False"
| "books_neutral (Bond_Accept_Offer_Op o') = False"
| "books_neutral (Proposal_Update_Op o') = False"
| "books_neutral (Asset_Create_Op o') = (asset_id (cr_fee o') = 0)"
| "books_neutral op = True"

lemmas operation_books =
  transfer.operation_keeps_books key_create.operation_keeps_books account_create.operation_keeps_books
  account_update.operation_keeps_books account_whitelist.operation_keeps_books asset_create.operation_keeps_books
  asset_update.operation_keeps_books asset_update_bitasset.operation_keeps_books
  asset_update_feed_producers.operation_keeps_books asset_issue.operation_keeps_books asset_burn.operation_keeps_books
  asset_fund_fee_pool.operation_keeps_books asset_settle.operation_keeps_books asset_publish_feeds.operation_keeps_books
  delegate_create.operation_keeps_books witness_create.operation_keeps_books witness_withdraw_pay.operation_keeps_books
  proposal_create.operation_keeps_books proposal_delete.operation_keeps_books
  withdraw_permission_create.operation_keeps_books withdraw_permission_update.operation_keeps_books
  withdraw_permission_claim.operation_keeps_books withdraw_permission_delete.operation_keeps_books
  global_parameters_update.operation_keeps_books vesting_balance_create.operation_keeps_books
  vesting_balance_withdraw.operation_keeps_books bond_create_offer.operation_keeps_books
  bond_cancel_offer.operation_keeps_books bond_claim_collateral.operation_keeps_books
  worker_create.operation_keeps_books custom.operation_keeps_books

lemma plain_operation_keeps_books:
  assumes "plain_operation op st d = Some (r, st', d')" "tables_ok d" "books_neutral op"
  shows "same_books d d'"
  using assms
  by (cases op)
    (simp_all only: plain_operation.simps books_neutral.simps option.distinct,
      (rule operation_books, assumption, assumption, rule TrueI,
        auto simp: account_create_evaluation_def global_parameters_update_evaluation_def)+)

lemma same_books_apply_operation:
  assumes "apply_operation n st op d = Some (r, st', d')" "tables_ok d" "books_neutral op"
  shows "same_books d d'"
proof -
  obtain d2 where d2: "plain_operation op st (push_applied_operation op d) = Some (r, st', d2)"
    "d' = set_applied_operation_result (length (applied_ops d)) r d2"
    using assms(1,3) by (subst (asm) apply_operation.simps) (auto simp: Let_def split: operation.splits)
  have s: "same_books d (push_applied_operation op d)"
    using same_books_other(8) [OF assms(2)] by (simp add: push_applied_operation_def)
  then have t: "same_books (push_applied_operation op d) d2"
    by (intro plain_operation_keeps_books [OF d2(1) _ assms(3)]) (simp add: same_books_def)
  then have "same_books d2 d'"
    unfolding d2(2) set_applied_operation_result_def by (intro same_books_other(8)) (simp add: same_books_def)
  with s t show ?thesis by (blast intro: same_books_trans)
qed

lemma run_operations_keeps_books:
  assumes "run_operations app ops st d = Some (st', d')" "tables_ok d"
    and "\<And>st op d r st' d'. app st op d = Some (r, st', d') \<Longrightarrow> tables_ok d \<Longrightarrow> op \<in> set ops \<Longrightarrow> same_books d d'"
  shows "same_books d d'"
  using assms
proof (induction ops arbitrary: st d)
  case Nil
  then show ?case by (simp add: same_books_refl)
next
  case (Cons op ops)
  from Cons.prems(1) obtain r st1 d1 where f: "app st op d = Some (r, st1, d1)"
    "run_operations app ops (st1\<lparr>operation_results := operation_results st1 @ [r]\<rparr>) d1 = Some (st', d')" by auto
  have s: "same_books d d1" using Cons.prems(3) [OF f(1) Cons.prems(2)] by simp
  then have "same_books d1 d'" using Cons.IH [OF f(2)] Cons.prems(3) by (auto simp: same_books_def)
  with s show ?case by (rule same_books_trans)
qed

lemma same_books_apply_transaction:
  assumes "apply_transaction cr depth skip trx d = Some (rs, d')" "tables_ok d" "list_all books_neutral (operations trx)"
  shows "same_books d d'"
proof -
  obtain d1 st st1 where f: "same_books d d1"
    "run_operations (apply_operation depth) (operations trx) st d1 = Some (st1, d')"
  proof -
    obtain e d1 st st1 where f: "(if \<not> has_flag skip skip_transaction_dupe_check then do {
              (_, t) \<leftarrow> gi_create \<lparr>to_trx = trx, to_expiration = e, to_trx_id = trx_id_of cr trx\<rparr> (transactions d);
              Some (d\<lparr>transactions := t\<rparr>) }
            else Some d) = Some d1"
      "run_operations (apply_operation depth) (operations trx) st d1 = Some (st1, d')"
      using assms(1) unfolding apply_transaction_def Let_def Option.bind_eq_Some_conv split_paired_Ex case_prod_conv
        option.inject prod.inject
      by (elim exE conjE) (hypsubst, rule that, assumption+)
    have "same_books d d1"
      using f(1) assms(2) by (auto simp: same_books_def imbalance_def holdings_def in_balances_def supply_of_def tables_ok_def split: if_splits)
    with f(2) that show thesis by blast
  qed
  have "tables_ok d1" using f(1) by (simp add: same_books_def)
  have "same_books d1 d'"
    by (rule run_operations_keeps_books [OF f(2) \<open>tables_ok d1\<close>])
      (use assms(3) in \<open>auto simp: list_all_iff dest: same_books_apply_operation\<close>)
  with f(1) show ?thesis by (rule same_books_trans)
qed

text \<open>
  C3. Applying a transaction keeps the books of every asset balanced: with its fees paid and its
  operations applied, what is held of an asset beyond its supply is what it was.
\<close>

theorem apply_transaction_keeps_books:
  assumes "apply_transaction cr depth skip trx d = Some (rs, d')" "tables_ok d" "list_all books_neutral (operations trx)"
  shows "tables_ok d' \<and> imbalance a d' = imbalance a d"
  using same_books_apply_transaction [OF assms] by (simp add: same_books_def)

definition sample_crypto :: crypto where
  "sample_crypto = \<lparr>trx_id_of = (\<lambda>_. 7), key_signed = (\<lambda>_ _ _ _. True)\<rparr>"

definition sample_trx :: "operation list \<Rightarrow> key_id_type list \<Rightarrow> signed_transaction" where
  "sample_trx ops ks = \<lparr>ref_block_num = 0, ref_block_prefix = 5, relative_expiration = 0, operations = ops,
     signatures = map (\<lambda>k. (k, 0)) ks\<rparr>"

text \<open>Alice pays Bob 1000 and burns 20 of asset 1, which she issued.\<close>

definition sample_payments :: "operation list" where
  "sample_payments =
     [Transfer_Op \<lparr>tr_fee = mk_asset 200000 0, tr_from = 1, tr_to = 2, tr_amount = mk_asset 1000 0, tr_memo = None\<rparr>,
      Asset_Burn_Op \<lparr>ab_fee = mk_asset 200000 0, ab_payer = 1, ab_amount_to_burn = mk_asset 20 1\<rparr>]"

lemma apply_transaction_keeps_books_witness:
  "\<exists>rs d'. apply_transaction sample_crypto 0 0 (sample_trx sample_payments [1]) sample_database = Some (rs, d') \<and>
     supply_of 1 d' = 4980 \<and> imbalance 1 d' = imbalance 1 sample_database \<and> imbalance 0 d' = imbalance 0 sample_database"
proof -
  have "map_option (\<lambda>(rs, d'). supply_of 1 d')
      (apply_transaction sample_crypto 0 0 (sample_trx sample_payments [1]) sample_database) = Some 4980" by code_simp
  then obtain rs d' where f: "apply_transaction sample_crypto 0 0 (sample_trx sample_payments [1]) sample_database = Some (rs, d')"
    "supply_of 1 d' = 4980" by auto
  have "list_all books_neutral (operations (sample_trx sample_payments [1]))" by (simp add: sample_trx_def sample_payments_def)
  from apply_transaction_keeps_books [OF f(1) sample_tables_ok this] f show ?thesis by blast
qed

subsection \<open>Approvals\<close>

lemma authorised_accounts:
  assumes "authorised db sgs pr c i" "accounts db' = accounts db"
  shows "authorised db' sgs pr c i"
  using assms
proof induction
  case (authorisedI acct a au chosen)
  show ?case by (rule authorised.authorisedI [of acct pr db' a c au chosen]) (use authorisedI in auto)
qed

lemma granted_accounts: "accounts db' = accounts db \<Longrightarrow> granted db' = granted db"
  by (intro ext) (auto simp: granted_def intro: authorised_accounts)

lemma push_applied_operation_accounts [simp]: "accounts (push_applied_operation op db) = accounts db"
  by (simp add: push_applied_operation_def)

lemma cache_ok_accounts: "accounts db' = accounts db \<Longrightarrow> cache_ok db st \<Longrightarrow> cache_ok db' st"
  using authorised_accounts [of db _ _ _ _ db'] by (auto simp: cache_ok_def justified_def split: if_splits)


text \<open>Alice approves a proposal that pays from her account, which is executed at once.\<close>

definition sample_proposal :: proposal_object where
  "sample_proposal = \<lparr>prop_expiration_time = 100, prop_review_period_time = None,
     prop_proposed_transaction = proposed_transaction sample_payments, prop_required_active_approvals = [1],
     prop_available_active_approvals = [], prop_required_owner_approvals = [], prop_available_owner_approvals = [],
     prop_available_key_approvals = []\<rparr>"

definition sample_approval :: proposal_update_operation where
  "sample_approval = \<lparr>pu_fee_paying_account = 2, pu_fee = mk_asset 0 0, pu_proposal = 0, pu_active_approvals_to_add = [1],
     pu_active_approvals_to_remove = [], pu_owner_approvals_to_add = [], pu_owner_approvals_to_remove = [],
     pu_key_approvals_to_add = [], pu_key_approvals_to_remove = []\<rparr>"


end
