(* ===== verification/Book.thy ===== *)
theory Book
  imports Market_Ops
begin

section \<open>The order book as a whole\<close>

text \<open>
  Orders keep their prices while they are filled, so a market keeps its orders (\<open>shrinks\<close>), and the whole
  book stays in order (\<open>orders_ok\<close>). With it the loops that match a new order are accounted for, and the
  evaluators of short and limit orders up to their margin calls.
\<close>

definition shrinks :: "('a \<Rightarrow> 'b) \<Rightarrow> 'a table \<Rightarrow> 'a table \<Rightarrow> bool" where
  "shrinks p t t' \<longleftrightarrow> (\<forall>j x'. gi_find t' j = Some x' \<longrightarrow> (\<exists>x. gi_find t j = Some x \<and> p x' = p x))"

lemma shrinks_refl [simp]: "shrinks p t t"
  by (simp add: shrinks_def)

lemma shrinks_trans: "shrinks p t u \<Longrightarrow> shrinks p u v \<Longrightarrow> shrinks p t v"
  unfolding shrinks_def by metis

lemma shrinksD: "shrinks p t t' \<Longrightarrow> gi_find t' j = Some x' \<Longrightarrow> \<exists>x. gi_find t j = Some x \<and> p x' = p x"
  by (simp add: shrinks_def)

lemma shrinks_remove: "remove_object i t = Some t' \<Longrightarrow> shrinks p t t'"
  by (auto simp: shrinks_def remove_object_Some gi_find_remove split: if_splits)

lemma shrinks_modify:
  assumes "modify_object i f t = Some t'" "\<And>x y. f x = Some y \<Longrightarrow> p y = p x"
  shows "shrinks p t t'"
  using assms by (auto simp: shrinks_def modify_object_Some gi_find_modify split: if_splits)

lemma cancel_order_shrinks: "cancel_order i db = Some db' \<Longrightarrow> shrinks lim_sell_price (limit_orders db) (limit_orders db')"
  unfolding cancel_order_def Let_def
  by (auto simp: core_in_orders_frame(2) adjust_balance_frame(2) dest!: shrinks_remove [of i _ _ lim_sell_price])

lemma fill_limit_order_shrinks:
  assumes "fill_limit_order i pays receives db = Some (r, db')" "book_ok db"
  shows "shrinks lim_sell_price (limit_orders db) (limit_orders db')"
proof -
  obtain x db3 where same: "limit_orders db3 = limit_orders db"
    and r: "if pays = lim_amount_for_sale x
     then \<exists>t. remove_object i (limit_orders db3) = Some t \<and> r \<and> db' = db3\<lparr>limit_orders := t\<rparr>
     else \<exists>t. modify_object i (\<lambda>b. do { s \<leftarrow> share (lim_for_sale b - amount pays); Some (b\<lparr>lim_for_sale := s\<rparr>) })
                (limit_orders db3) = Some t \<and>
              (r \<and> cancel_order i (db3\<lparr>limit_orders := t\<rparr>) = Some db' \<or> \<not> r \<and> db' = db3\<lparr>limit_orders := t\<rparr>)"
    by (rule fill_limit_order_cases [OF assms])
  show ?thesis
  proof (cases "pays = lim_amount_for_sale x")
    case True
    with r same show ?thesis by (auto intro: shrinks_remove)
  next
    case False
    with r obtain t where t: "modify_object i (\<lambda>b. do { s \<leftarrow> share (lim_for_sale b - amount pays); Some (b\<lparr>lim_for_sale := s\<rparr>) })
                (limit_orders db) = Some t"
      and d: "cancel_order i (db3\<lparr>limit_orders := t\<rparr>) = Some db' \<or> db' = db3\<lparr>limit_orders := t\<rparr>" by (auto simp: same)
    have "shrinks lim_sell_price (limit_orders db) t" by (rule shrinks_modify [OF t]) auto
    with d show ?thesis using cancel_order_shrinks [of i "db3\<lparr>limit_orders := t\<rparr>" db'] by (auto intro: shrinks_trans)
  qed
qed

lemma reduce_short_shrinks:
  assumes "reduce_short i filled seller pays k db = Some (r, db')"
  shows "shrinks sho_sell_price (short_orders db) (short_orders db') \<and> call_orders db' = call_orders db \<and>
    limit_orders db' = limit_orders db \<and> assets db' = assets db \<and> bitassets db' = bitassets db"
proof (cases filled)
  case True
  with assms show ?thesis by (auto simp: reduce_short_def intro: shrinks_remove)
next
  case False
  then obtain t y where t: "modify_object i (\<lambda>o'. do {
               s \<leftarrow> share (sho_for_sale o' - amount pays);
               k \<leftarrow> share (sho_available_collateral o' - amount k);
               Some (o'\<lparr>sho_for_sale := s, sho_available_collateral := k\<rparr>) }) (short_orders db) = Some t"
      and r: "db' = db\<lparr>short_orders := t\<rparr> \<or> (\<exists>db2 db3 t'. adjust_balance (sho_seller y) (sho_get_collateral y)
          (db\<lparr>short_orders := t\<rparr>) = Some db2 \<and>
         (if asset_id (sho_get_collateral y) = 0 then core_in_orders seller 0 (- sho_available_collateral y) db2
          else Some db2) = Some db3 \<and>
         remove_object i (short_orders db3) = Some t' \<and> db' = db3\<lparr>short_orders := t'\<rparr>)"
      using assms(1) unfolding reduce_short_def Let_def Option.bind_eq_Some_conv get_object_gi
      by (fastforce split: if_splits)
  have s: "shrinks sho_sell_price (short_orders db) t" by (rule shrinks_modify [OF t]) auto
  from r show ?thesis
  proof
    assume "db' = db\<lparr>short_orders := t\<rparr>"
    with s show ?thesis by simp
  next
    assume "\<exists>db2 db3 t'. adjust_balance (sho_seller y) (sho_get_collateral y) (db\<lparr>short_orders := t\<rparr>) = Some db2 \<and>
         (if asset_id (sho_get_collateral y) = 0 then core_in_orders seller 0 (- sho_available_collateral y) db2
          else Some db2) = Some db3 \<and>
         remove_object i (short_orders db3) = Some t' \<and> db' = db3\<lparr>short_orders := t'\<rparr>"
    then obtain db2 db3 t' where d: "adjust_balance (sho_seller y) (sho_get_collateral y) (db\<lparr>short_orders := t\<rparr>) = Some db2"
         "(if asset_id (sho_get_collateral y) = 0 then core_in_orders seller 0 (- sho_available_collateral y) db2
          else Some db2) = Some db3"
         "remove_object i (short_orders db3) = Some t'" "db' = db3\<lparr>short_orders := t'\<rparr>" by blast
    have "short_orders db3 = t \<and> call_orders db3 = call_orders db \<and> limit_orders db3 = limit_orders db \<and>
        assets db3 = assets db \<and> bitassets db3 = bitassets db"
      using d(2) adjust_balance_frame [OF d(1)] by (auto simp: core_in_orders_frame split: if_splits)
    with s shrinks_remove [OF d(3)] d(4) show ?thesis by (auto intro: shrinks_trans)
  qed
qed

subsection \<open>Shorts and margin positions\<close>

lemma update_call_price_market:
  assumes "update_call_price c = Some d"
  shows "asset_id (base (call_call_price d)) = asset_id (base (call_call_price c)) \<and> debt_type d = debt_type c"
  using assms by (auto simp: update_call_price_def call_get_debt_def debt_type_def call_get_collateral_def dest!: call_price_ids)

text \<open>A position that a filled short changes or opens is in the market of the short.\<close>

lemma short_to_call_market:
  assumes "short_to_call order pays k b db = Some t" "tables_ok db" "gi_find t j = Some c'"
  obtains c where "gi_find (call_orders db) j = Some c" "debt_type c' = debt_type c"
      "asset_id (base (call_call_price c')) = asset_id (base (call_call_price c))"
    | "debt_type c' = asset_id pays" "asset_id (base (call_call_price c')) = asset_id k"
proof (cases "find_call (sho_seller order) (asset_id pays) db")
  case None
  with assms(1) obtain p call n where c: "price_max (asset_id k) (asset_id pays) = Some p"
    "update_call_price \<lparr>call_borrower = sho_seller order, call_collateral = amount k + amount b, call_debt = amount pays,
       call_call_price = p, call_maintenance_collateral_ratio = sho_maintenance_collateral_ratio order\<rparr> = Some call"
    "gi_create call (call_orders db) = Some (n, t)"
    by (auto simp: short_to_call_def)
  have "asset_id (base p) = asset_id k" "asset_id (quote p) = asset_id pays" using c(1) by (auto simp: price_max_def)
  then show ?thesis
    using that assms(3) update_call_price_market [OF c(2)]
    by (auto simp: gi_find_create [OF c(3)] debt_type_def split: if_splits)
next
  case (Some jc)
  then obtain i x where j: "find_call (sho_seller order) (asset_id pays) db = Some (i, x)" by (cases jc) auto
  let ?f = "\<lambda>c. do { d \<leftarrow> share (call_debt c + amount pays); x \<leftarrow> share (amount k + amount b);
           m \<leftarrow> share (call_collateral c + x);
           update_call_price (c\<lparr>call_debt := d, call_collateral := m,
             call_maintenance_collateral_ratio := sho_maintenance_collateral_ratio order\<rparr>) }"
  have "modify_object i ?f (call_orders db) = Some t" using assms(1) j by (simp add: short_to_call_def)
  moreover have "asset_id (base (call_call_price y)) = asset_id (base (call_call_price x)) \<and> debt_type y = debt_type x"
    if "?f x = Some y" for x y
    using that by (auto dest!: update_call_price_market simp: debt_type_def)
  ultimately show ?thesis using that(1) assms(3) by (auto simp: modify_object_Some gi_find_modify split: if_splits)
qed

lemma fill_short_order_book:
  assumes "fill_short_order i pays receives db = Some (r, db')" "book_ok db" "fits_short db i pays receives"
  shows "shrinks sho_sell_price (short_orders db) (short_orders db')" "limit_orders db' = limit_orders db"
    "bitassets db' = bitassets db"
    "gi_find (call_orders db') j = Some c' \<Longrightarrow>
       (\<exists>c. gi_find (call_orders db) j = Some c \<and> debt_type c' = debt_type c \<and>
          asset_id (base (call_call_price c')) = asset_id (base (call_call_price c))) \<or>
       debt_type c' = asset_id pays \<and> asset_id (base (call_call_price c')) = asset_id receives"
proof -
  obtain x bi bit ast where x: "gi_find (short_orders db) i = Some x"
    and id: "asset_id pays = asset_id (base (sho_sell_price x))" "asset_id receives = asset_id (quote (sho_sell_price x))"
      "asset_id pays \<noteq> asset_id receives"
    and a: "gi_find (assets db) (asset_id pays) = Some ast" "ao_bitasset_data_id ast = Some bi"
      "gi_find (bitassets db) bi = Some bit" "\<not> prediction_market (bd_options bit)"
    using assms(3) by (auto simp: fits_short_def)
  obtain x' ast' bi' bit' seller fees db1 k net db2 d c4 db5 where
    p: "pay_market_fees (asset_id receives) receives db = Some (fees, db1)"
    and e: "gi_find (short_orders db) i = Some x'" "gi_find (assets db) (asset_id pays) = Some ast'"
      "ao_bitasset_data_id ast' = Some bi'" "gi_find (bitassets db1) bi' = Some bit'"
    and f: "seller_collateral x' (bd_options bit') pays receives = Some k"
    "(if asset_id receives = 0 then core_in_orders seller 0 (amount net) db1 else Some db1) = Some db2"
    "modify_object (ao_dynamic_asset_data_id ast')
            (\<lambda>o'. do { s \<leftarrow> share (dyn_current_supply o' + amount pays); Some (o'\<lparr>dyn_current_supply := s\<rparr>) })
            (asset_dyns db2) = Some d"
    "short_to_call x' pays k net (db2\<lparr>asset_dyns := d\<rparr>) = Some c4"
    "reduce_short i (pays = sho_amount_for_sale x') seller pays k (db2\<lparr>asset_dyns := d, call_orders := c4\<rparr>) = Some (r, db5)"
    "db' = push_fill (short_oid i) (sho_seller x') pays receives fees db5"
    using assms(1) unfolding fill_short_order_def Let_def Option.bind_eq_Some_conv get_object_gi split_paired_Ex case_prod_conv
      option.inject prod.inject
    by (elim exE conjE) (rule that, assumption+, simp, rule sym, assumption)
  have [simp]: "x' = x" "ast' = ast" "bi' = bi" using e x a by simp_all
  have [simp]: "bit' = bit" using e(4) pay_market_fees_frame(6) [OF p] a(3) by simp
  have k: "asset_id k = asset_id receives"
    using seller_collateral_Some(1) [of x "bd_options bit" pays receives k] f(1) a(4) id by simp
  have fr: "short_orders db2 = short_orders db \<and> limit_orders db2 = limit_orders db \<and> call_orders db2 = call_orders db \<and>
      assets db2 = assets db \<and> bitassets db2 = bitassets db"
    using f(2) pay_market_fees_frame [OF p] by (auto simp: core_in_orders_frame split: if_splits)
  note rs = reduce_short_shrinks [OF f(5)]
  show "shrinks sho_sell_price (short_orders db) (short_orders db')" "limit_orders db' = limit_orders db"
    "bitassets db' = bitassets db"
    using rs fr f(6) by simp_all
  have ok: "tables_ok (db2\<lparr>asset_dyns := d\<rparr>)"
  proof -
    note pm = pay_market_fees_moves(1) [OF p assms(2)]
    have "tables_ok db2" using f(2) movesD(1) [OF pm] by (auto split: if_splits dest: moves_core_in_orders [THEN movesD(1)])
    then show ?thesis using f(3) modify_object_invar [OF f(3)] modify_object_next [OF f(3)] by (simp add: tables_ok_def)
  qed
  assume "gi_find (call_orders db') j = Some c'"
  then have "gi_find c4 j = Some c'" using rs f(6) by simp
  then show "(\<exists>c. gi_find (call_orders db) j = Some c \<and> debt_type c' = debt_type c \<and>
          asset_id (base (call_call_price c')) = asset_id (base (call_call_price c))) \<or>
       debt_type c' = asset_id pays \<and> asset_id (base (call_call_price c')) = asset_id receives"
    by (rule short_to_call_market [OF f(4) ok]) (use fr k in auto)
qed

subsection \<open>The book stays in order\<close>

lemma backs_same: "assets db' = assets db \<Longrightarrow> bitassets db' = bitassets db \<Longrightarrow> backs db' = backs db"
  by (intro ext) (simp add: backs_def)

lemma orders_ok_fill_limit:
  assumes "fill_limit_order i pays receives db = Some (r, db')" "book_ok db" "fits_limit db i pays receives" "orders_ok db"
  shows "orders_ok db'"
  using assms(4) fill_limit_order_moves(2,3) [OF assms(1-3)] fill_limit_order_frame [OF assms(1)]
  by (simp add: orders_ok_def backs_same [of db' db])

lemma orders_ok_fill_short:
  assumes "fill_short_order i pays receives db = Some (r, db')" "book_ok db" "fits_short db i pays receives" "orders_ok db"
  shows "orders_ok db'"
proof -
  note b = fill_short_order_book [OF assms(1-3)]
  have bs: "backs db' = backs db" by (rule backs_same [OF fill_short_order_moves(2) [OF assms(1-3)] b(3)])
  obtain x where x: "gi_find (short_orders db) i = Some x" "asset_id pays = asset_id (base (sho_sell_price x))"
    "asset_id receives = asset_id (quote (sho_sell_price x))"
    using assms(3) by (auto simp: fits_short_def)
  have p: "backs db (asset_id pays) (asset_id receives)" using assms(4) x by (auto simp: orders_ok_def)
  have "backs db (debt_type c') (asset_id (base (call_call_price c')))" if "gi_find (call_orders db') j = Some c'" for j c'
    using b(4) [OF that] p assms(4) by (auto simp: orders_ok_def)
  moreover have "backs db (asset_id (base (sho_sell_price y))) (asset_id (quote (sho_sell_price y)))"
    if "gi_find (short_orders db') j = Some y" for j y
    using shrinksD [OF b(1) that] assms(4) by (auto simp: orders_ok_def)
  ultimately show ?thesis by (simp add: orders_ok_def bs)
qed

text \<open>An order, if it is still there, sells one asset for another.\<close>

definition limit_sells :: "database \<Rightarrow> nat \<Rightarrow> asset_id_type \<Rightarrow> asset_id_type \<Rightarrow> bool" where
  "limit_sells db i a b \<longleftrightarrow> (\<forall>x. gi_find (limit_orders db) i = Some x \<longrightarrow>
     asset_id (base (lim_sell_price x)) = a \<and> asset_id (quote (lim_sell_price x)) = b)"

definition short_sells :: "database \<Rightarrow> nat \<Rightarrow> asset_id_type \<Rightarrow> asset_id_type \<Rightarrow> bool" where
  "short_sells db i a b \<longleftrightarrow> (\<forall>x. gi_find (short_orders db) i = Some x \<longrightarrow>
     asset_id (base (sho_sell_price x)) = a \<and> asset_id (quote (sho_sell_price x)) = b)"

definition book_kept :: "database \<Rightarrow> database \<Rightarrow> bool" where
  "book_kept db db' \<longleftrightarrow> book_ok db' \<and> orders_ok db' \<and> (\<forall>a. imbalance a db' = imbalance a db) \<and>
     shrinks lim_sell_price (limit_orders db) (limit_orders db') \<and>
     shrinks sho_sell_price (short_orders db) (short_orders db')"

lemma book_kept_refl: "book_ok db \<Longrightarrow> orders_ok db \<Longrightarrow> book_kept db db"
  by (simp add: book_kept_def)

lemma book_kept_trans: "book_kept a b \<Longrightarrow> book_kept b c \<Longrightarrow> book_kept a c"
  by (auto simp: book_kept_def intro: shrinks_trans)

lemma book_kept_sells:
  assumes "book_kept db db'"
  shows "limit_sells db i a b \<Longrightarrow> limit_sells db' i a b" "short_sells db i a b \<Longrightarrow> short_sells db' i a b"
  using assms by (auto simp: book_kept_def limit_sells_def short_sells_def dest!: shrinksD)

lemma match_limit_limit_kept:
  assumes "match_limit_limit i j p db = Some (bits, db')" "book_ok db" "orders_ok db" "i \<noteq> j"
    and "limit_sells db i a b" "limit_sells db j b a" "price_between p a b"
  shows "book_kept db db'"
proof -
  obtain x y u c f1 db1 f2 where f: "gi_find (limit_orders db) i = Some x" "gi_find (limit_orders db) j = Some y"
    "match_amounts (lim_amount_for_sale x) (lim_amount_for_sale y) p = Some (u, c)"
    "fill_limit_order i u c db = Some (f1, db1)" "fill_limit_order j c u db1 = Some (f2, db')"
    using assms(1) by (auto simp: match_limit_limit_def)
  have p: "price_between p (asset_id (base (lim_sell_price x))) (asset_id (base (lim_sell_price y)))"
    using f(1,2) assms(5-7) by (simp add: limit_sells_def)
  have id: "asset_id u = asset_id (base (lim_sell_price x))" "asset_id c = asset_id (base (lim_sell_price y))"
    using match_amounts_ids [OF f(3)] p by (simp_all add: lim_amount_for_sale_def)
  have fits1: "fits_limit db i u c" using f(1) id by (simp add: fits_limit_def)
  note m1 = fill_limit_order_moves [OF f(4) assms(2) fits1]
  have b1: "book_ok db1" using limit.fill_moves [OF assms(2) fits1 f(4)] by simp
  have fits2: "fits_limit db1 j c u" using f(2) id m1(4) [of j] assms(4) by (simp add: fits_limit_def)
  have o1: "orders_ok db1" by (rule orders_ok_fill_limit [OF f(4) assms(2) fits1 assms(3)])
  have "shrinks lim_sell_price (limit_orders db) (limit_orders db')"
    using fill_limit_order_shrinks [OF f(4) assms(2)] fill_limit_order_shrinks [OF f(5) b1] by (rule shrinks_trans)
  moreover have "short_orders db' = short_orders db" using m1(3) fill_limit_order_moves(3) [OF f(5) b1 fits2] by simp
  moreover have "book_ok db' \<and> (\<forall>a. imbalance a db' = imbalance a db)"
    using limit_limit.match_keeps_imbalance [OF assms(2,4) fits1 _ f(4,5)] f(2) id by (simp add: fits_limit_def)
  ultimately show ?thesis using orders_ok_fill_limit [OF f(5) b1 fits2 o1] by (simp add: book_kept_def)
qed

lemma match_limit_short_kept:
  assumes "match_limit_short i j p db = Some (bits, db')" "book_ok db" "orders_ok db"
    and "limit_sells db i a b" "short_sells db j b a" "price_between p a b"
  shows "book_kept db db'"
proof -
  obtain x y u c f1 db1 f2 where f: "gi_find (limit_orders db) i = Some x" "gi_find (short_orders db) j = Some y"
    "match_amounts (lim_amount_for_sale x) (sho_amount_for_sale y) p = Some (u, c)"
    "fill_limit_order i u c db = Some (f1, db1)" "fill_short_order j c u db1 = Some (f2, db')"
    using assms(1) by (auto simp: match_limit_short_def)
  have m: "asset_id (base (lim_sell_price x)) = a" "asset_id (base (sho_sell_price y)) = b" "asset_id (quote (sho_sell_price y)) = a"
    using f(1,2) assms(4,5) by (auto simp: limit_sells_def short_sells_def)
  have id: "asset_id u = a" "asset_id c = b"
    using match_amounts_ids [OF f(3)] assms(6) m by (simp_all add: lim_amount_for_sale_def sho_amount_for_sale_def)
  have fits1: "fits_limit db i u c" using f(1) id m by (simp add: fits_limit_def)
  note m1 = fill_limit_order_moves [OF f(4) assms(2) fits1]
  have b1: "book_ok db1" using limit.fill_moves [OF assms(2) fits1 f(4)] by simp
  have o1: "orders_ok db1" by (rule orders_ok_fill_limit [OF f(4) assms(2) fits1 assms(3)])
  have fits: "fits_short db' j c u" if "orders_ok db'" "book_ok db'" "short_orders db' = short_orders db" for db'
    by (rule orders_ok_fits_short [OF that(1), of j y]) (use that f(2) m id in \<open>simp_all add: book_ok_def\<close>)
  note fits2 = fits [OF o1 b1 m1(3)]
  note b2 = fill_short_order_book [OF f(5) b1 fits2]
  have "book_ok db' \<and> (\<forall>a. imbalance a db' = imbalance a db)"
    using limit_short.match_keeps_imbalance [OF assms(2) TrueI fits1 fits [OF assms(3,2) refl] f(4,5)] by simp
  then show ?thesis
    using orders_ok_fill_short [OF f(5) b1 fits2 o1] fill_limit_order_shrinks [OF f(4) assms(2)] b2(1,2) m1(3)
    by (simp add: book_kept_def)
qed

subsection \<open>Matching a new order against the book\<close>

lemma price_between_order:
  "limit_sells db i a b \<Longrightarrow> a \<noteq> b \<Longrightarrow> gi_find (limit_orders db) i = Some x \<Longrightarrow> price_between (lim_sell_price x) a b"
  "short_sells db j a b \<Longrightarrow> a \<noteq> b \<Longrightarrow> gi_find (short_orders db) j = Some y \<Longrightarrow> price_between (sho_sell_price y) a b"
  by (auto simp: limit_sells_def short_sells_def price_between_def)

lemma price_between_swap: "price_between p a b = price_between p b a"
  by (auto simp: price_between_def)

lemma match_book_kept:
  assumes "match_book new ls ss db = Some db'" "book_ok db" "orders_ok db" "new \<notin> set ls" "a \<noteq> b"
    and "limit_sells db new a b" "\<forall>l \<in> set ls. limit_sells db l b a" "\<forall>s \<in> set ss. short_sells db s b a"
  shows "book_kept db db'"
  using assms
proof (induction new ls ss db arbitrary: db' rule: match_book.induct)
  case (1 new db)
  then show ?case by (simp add: book_kept_refl)
next
  case (2 new s ss db)
  from "2.prems"(1) obtain o' r d1 where f: "gi_find (short_orders db) s = Some o'"
    "match_limit_short new s (sho_sell_price o') db = Some (r, d1)"
    "(if r \<noteq> 2 then Some d1 else match_book new [] ss d1) = Some db'" by auto
  have k: "book_kept db d1"
    using match_limit_short_kept [OF f(2) "2.prems"(2,3,6)] price_between_order(2) [of db s b a o'] f(1) "2.prems"(5,8)
    by (simp add: price_between_swap)
  show ?case
  proof (cases "r = 2")
    case True
    with f(3) have "match_book new [] ss d1 = Some db'" by simp
    from book_kept_trans [OF k "2.IH" [OF f(1)[folded get_object_gi] f(2) refl _ this]] show ?thesis
      using True k "2.prems"(4-) book_kept_sells [OF k] by (auto simp: book_kept_def)
  qed (use f(3) k in simp)
next
  case (3 new l ls db)
  from "3.prems"(1) obtain o' r d1 where f: "gi_find (limit_orders db) l = Some o'"
    "match_limit_limit new l (lim_sell_price o') db = Some (r, d1)"
    "(if r \<noteq> 2 then Some d1 else match_book new ls [] d1) = Some db'" by auto
  have k: "book_kept db d1"
    using match_limit_limit_kept [OF f(2) "3.prems"(2,3) _ "3.prems"(6)] price_between_order(1) [of db l b a o'] f(1) "3.prems"(4,5,7)
    by (auto simp: price_between_swap)
  show ?case
  proof (cases "r = 2")
    case True
    with f(3) have "match_book new ls [] d1 = Some db'" by simp
    from book_kept_trans [OF k "3.IH" [OF f(1)[folded get_object_gi] f(2) refl _ this]] show ?thesis
      using True k "3.prems"(4-) book_kept_sells [OF k] by (auto simp: book_kept_def)
  qed (use f(3) k in simp)
next
  case (4 new l ls s ss db)
  from "4.prems"(1) obtain lim sho where o': "gi_find (limit_orders db) l = Some lim" "gi_find (short_orders db) s = Some sho"
    by auto
  show ?case
  proof (cases "price_lt (lim_sell_price lim) (sho_sell_price sho)")
    case True
    with "4.prems"(1) o' obtain r d1 where f: "match_limit_short new s (sho_sell_price sho) db = Some (r, d1)"
      "(if r \<noteq> 2 then Some d1 else match_book new (l # ls) ss d1) = Some db'" by auto
    have k: "book_kept db d1"
      using match_limit_short_kept [OF f(1) "4.prems"(2,3,6)] price_between_order(2) [of db s b a sho] o'(2) "4.prems"(5,8)
      by (simp add: price_between_swap)
    show ?thesis
    proof (cases "r = 2")
      case two: True
      with f(2) have "match_book new (l # ls) ss d1 = Some db'" by simp
      from book_kept_trans [OF k "4.IH"(1) [OF o'[folded get_object_gi] True f(1) refl _ this]] show ?thesis
        using two k "4.prems"(4-) book_kept_sells [OF k] by (auto simp: book_kept_def)
    qed (use f(2) k in simp)
  next
    case False
    with "4.prems"(1) o' obtain r d1 where f: "match_limit_limit new l (lim_sell_price lim) db = Some (r, d1)"
      "(if r \<noteq> 2 then Some d1 else match_book new ls (s # ss) d1) = Some db'" by auto
    have k: "book_kept db d1"
      using match_limit_limit_kept [OF f(1) "4.prems"(2,3) _ "4.prems"(6)] price_between_order(1) [of db l b a lim] o'(1) "4.prems"(4,5,7)
      by (auto simp: price_between_swap)
    show ?thesis
    proof (cases "r = 2")
      case two: True
      with f(2) have "match_book new ls (s # ss) d1 = Some db'" by simp
      from book_kept_trans [OF k "4.IH"(2) [OF o'[folded get_object_gi] False f(1) refl _ this]] show ?thesis
        using two k "4.prems"(4-) book_kept_sells [OF k] by (auto simp: book_kept_def)
    qed (use f(2) k in simp)
  qed
qed

lemma match_short_book_kept:
  assumes "match_short_book new ls db = Some db'" "book_ok db" "orders_ok db" "a \<noteq> b"
    and "short_sells db new a b" "\<forall>l \<in> set ls. limit_sells db l b a"
  shows "book_kept db db'"
  using assms
proof (induction ls arbitrary: db)
  case Nil
  then show ?case by (simp add: book_kept_refl)
next
  case (Cons l ls)
  from Cons.prems(1) obtain o' r d1 where f: "gi_find (limit_orders db) l = Some o'"
    "match_limit_short l new (lim_sell_price o') db = Some (r, d1)"
    "(if r \<noteq> 1 then Some d1 else match_short_book new ls d1) = Some db'" by auto
  have k: "book_kept db d1"
    using match_limit_short_kept [OF f(2) Cons.prems(2,3) _ Cons.prems(5)] price_between_order(1) [of db l b a o'] f(1) Cons.prems(4,6)
    by (auto simp: price_between_swap)
  show ?case
  proof (cases "r = 1")
    case True
    with f(3) have "match_short_book new ls d1 = Some db'" by simp
    from book_kept_trans [OF k Cons.IH [OF this]] show ?thesis
      using k Cons.prems(4-) book_kept_sells [OF k] by (auto simp: book_kept_def)
  qed (use f(3) k in simp)
qed

lemma place_limit_order_book:
  assumes "place_limit_order op d = Some (i, d')" "book_ok d" "orders_ok d"
  shows "book_ok d'" "orders_ok d'" "limit_sells d' i (asset_id (lo_amount_to_sell op)) (asset_id (lo_min_to_receive op))"
    "asset_id (lo_amount_to_sell op) \<noteq> asset_id (lo_min_to_receive op)"
    "gi_find (limit_orders d') i \<noteq> None"
proof -
  obtain acct d1 n d2 y p t where f: "core_in_orders acct (asset_id (lo_amount_to_sell op)) (amount (lo_amount_to_sell op)) d = Some d1"
    "adjust_balance (lo_seller op) n d1 = Some d2" "lo_get_price op = Some p"
    "gi_create y (limit_orders d2) = Some (i, t)" "lim_sell_price y = p" "d' = d2\<lparr>limit_orders := t\<rparr>"
    using assms(1) unfolding place_limit_order_def by auto
  have ok: "tables_ok d" using assms(2) by (simp add: book_ok_def)
  have p: "p = mk_price (lo_amount_to_sell op) (lo_min_to_receive op)"
    "asset_id (lo_amount_to_sell op) \<noteq> asset_id (lo_min_to_receive op)"
    using f(3) by (auto simp: lo_get_price_def)
  then show "asset_id (lo_amount_to_sell op) \<noteq> asset_id (lo_min_to_receive op)" by simp
  have fr: "assets d2 = assets d" "bitassets d2 = bitassets d" "short_orders d2 = short_orders d" "call_orders d2 = call_orders d"
    "limit_orders d2 = limit_orders d"
    using core_in_orders_frame [OF f(1)] adjust_balance_frame [OF f(2)] by simp_all
  show "book_ok d'" using movesD(1) [OF place_limit_order_moves [OF assms(1) ok]] assms(2) fr f(6)
    by (simp add: book_ok_def market_fees_ok_def)
  show "orders_ok d'" using assms(3) fr f(6) by (simp add: orders_ok_def backs_same [of d2 d] backs_same [of "d2\<lparr>limit_orders := t\<rparr>" d])
  show "limit_sells d' i (asset_id (lo_amount_to_sell op)) (asset_id (lo_min_to_receive op))" "gi_find (limit_orders d') i \<noteq> None"
    using f(4-6) p by (simp_all add: limit_sells_def gi_find_create)
qed


text \<open>Bob buys 120 of asset 2: a margin position is not called, the short of the market is filled.\<close>

definition sample_buy :: limit_order_create_operation where
  "sample_buy = \<lparr>lo_fee = mk_asset 0 0, lo_seller = 2, lo_amount_to_sell = mk_asset 1200 0,
     lo_min_to_receive = mk_asset 120 2, lo_expiration = 1000, lo_fill_or_kill = False\<rparr>"

lemma sample_market_orders_ok: "orders_ok sample_market"
  by (auto simp: orders_ok_def backs_def sample_market_defs gi_find_modify debt_type_def split: if_splits)


end
