(* ===== verification/Budget.thy ===== *)
theory Budget
  imports Evaluator Feeds
begin

section \<open>The budget of witnesses and workers\<close>

text \<open>
  Models \<open>get_max_budget\<close>, \<open>process_budget\<close> and \<open>pay_workers\<close> of \<^verbatim>\<open>libraries/chain/database.cpp\<close> and the
  two \<open>pay_worker\<close> methods of \<^verbatim>\<open>worker_object.cpp\<close>. At every maintenance the core asset that was never
  issued or was burned pays for the next interval: a share of it that decays over the years is the
  budget, out of which the blocks to come and the elected workers are paid. The vote tallies are an
  argument; the workers are sorted by them with a stable sort, one of the results \<open>std::sort\<close> may give.

  The theorems say how much may be spent, that spending it never takes the supply above its maximum, and
  what becomes of the part of the last budget that was not spent.
\<close>

definition BTS_CORE_ASSET_CYCLE_RATE :: int where "BTS_CORE_ASSET_CYCLE_RATE = 17"
definition BTS_CORE_ASSET_CYCLE_RATE_BITS :: nat where "BTS_CORE_ASSET_CYCLE_RATE_BITS = 32"

definition burned :: "asset_object \<Rightarrow> database \<Rightarrow> share_type option" where
  "burned a db = do {
     d \<leftarrow> get_object (asset_dyns db) (ao_dynamic_asset_data_id a);
     share (max_supply (ao_options a) - dyn_current_supply d) }"

definition get_max_budget :: "time_point_sec \<Rightarrow> database \<Rightarrow> share_type option" where
  "get_max_budget now db = do {
     core \<leftarrow> get_object (assets db) 0;
     core_dd \<leftarrow> get_object (asset_dyns db) (ao_dynamic_asset_data_id core);
     let start = last_budget_time (dprops db);
     if start = 0 \<or> now \<le> start then Some 0
     else do {
       b \<leftarrow> burned core db;
       reserve \<leftarrow> share (b + dyn_accumulated_fees core_dd);
       let budget = u128 (u128 (u128 (u128 reserve * uint64 (now - start)) * BTS_CORE_ASSET_CYCLE_RATE) +
         (2 ^ BTS_CORE_ASSET_CYCLE_RATE_BITS - 1)) div 2 ^ BTS_CORE_ASSET_CYCLE_RATE_BITS;
       if budget < u128 reserve then map_option int64 (to_uint64 budget) else Some reserve } }"

subsection \<open>Workers\<close>

definition pay_worker :: "share_type \<Rightarrow> worker_type \<Rightarrow> database \<Rightarrow> (worker_type \<times> database) option" where
  "pay_worker pay w db = (case w of
     Refund_Worker b \<Rightarrow> do {
       n \<leftarrow> share (b + pay);
       core \<leftarrow> get_object (assets db) 0;
       t \<leftarrow> modify_object (ao_dynamic_asset_data_id core) (\<lambda>d. do {
              s \<leftarrow> share (dyn_current_supply d - pay);
              Some (d\<lparr>dyn_current_supply := s\<rparr>) }) (asset_dyns db);
       Some (Refund_Worker n, db\<lparr>asset_dyns := t\<rparr>) }
   | Vesting_Balance_Worker b \<Rightarrow> do {
       t \<leftarrow> modify_object b (vb_deposit (head_block_time db) (mk_asset pay 0)) (vestings db);
       Some (Vesting_Balance_Worker b, db\<lparr>vestings := t\<rparr>) })"

text \<open>The daily pay in proportion to the time since the last budget, if that is not one day.\<close>

definition requested_pay :: "worker_object \<Rightarrow> database \<Rightarrow> share_type option" where
  "requested_pay w db = (let time = (pending_timestamp db - last_budget_time (dprops db)) * 1000000 in
     if time \<noteq> 60 * 60 * 24 * 1000000
     then map_option int64 (to_uint64 (u128 (u128 (wo_daily_pay w) * u128 time) div (60 * 60 * 24 * 1000000)))
     else Some (wo_daily_pay w))"

fun pay_each :: "(nat \<times> worker_object) list \<Rightarrow> share_type \<Rightarrow> database \<Rightarrow> (share_type \<times> database) option" where
  "pay_each [] budget db = Some (budget, db)"
| "pay_each ((i, w) # ws) budget db =
     (if budget > 0 then do {
        requested \<leftarrow> requested_pay w db;
        let actual = min budget requested;
        (w', db1) \<leftarrow> pay_worker actual (wo_worker w) db;
        t \<leftarrow> modify_object i (\<lambda>x. Some (x\<lparr>wo_worker := w'\<rparr>)) (workers db1);
        rest \<leftarrow> share (budget - actual);
        pay_each ws rest (db1\<lparr>workers := t\<rparr>) }
      else Some (budget, db))"

definition active_workers :: "int list \<Rightarrow> database \<Rightarrow> (nat \<times> worker_object) list" where
  "active_workers tally db =
     sort_by (\<lambda>a b. approving_stake tally (snd a) > approving_stake tally (snd b))
       (filter (\<lambda>(i, w). worker_is_active (pending_timestamp db) w \<and> approving_stake tally w > 0) (entries (workers db)))"

definition pay_workers :: "int list \<Rightarrow> share_type \<Rightarrow> database \<Rightarrow> (share_type \<times> database) option" where
  "pay_workers tally budget db = pay_each (active_workers tally db) budget db"

subsection \<open>Spending the budget\<close>

text \<open>A block interval of 0 would divide by zero, which has no result.\<close>

definition budget_for_witnesses :: "share_type \<Rightarrow> database \<Rightarrow> share_type option" where
  "budget_for_witnesses available db = do {
     let p = parameters (gprops db);
     fc_assert (block_interval p \<noteq> 0);
     let time_to_maint = uint64 (next_maintenance_time (dprops db) - pending_timestamp db);
     let blocks_to_maint = uint64 (time_to_maint + block_interval p - 1) div block_interval p;
     Some (min (int64 (uint64 (witness_pay_per_block p * blocks_to_maint))) available) }"

definition budget_for_workers :: "share_type \<Rightarrow> database \<Rightarrow> share_type option" where
  "budget_for_workers available db = (let
     time_to_maint = uint64 (next_maintenance_time (dprops db) - pending_timestamp db);
     budget = u128 (u128 (worker_budget_per_day (parameters (gprops db))) * time_to_maint) div (60 * 60 * 24) in
     if budget \<ge> u128 available then Some available else map_option int64 (to_uint64 budget))"

definition issue_budget :: "share_type \<Rightarrow> share_type \<Rightarrow> share_type \<Rightarrow> asset_dynamic_data_object \<Rightarrow> asset_dynamic_data_object option" where
  "issue_budget for_witnesses for_workers leftover d = do {
     a \<leftarrow> share (dyn_current_supply d + for_witnesses);
     b \<leftarrow> share (a + for_workers);
     c \<leftarrow> share (b - leftover);
     s \<leftarrow> share (c - dyn_accumulated_fees d);
     Some (d\<lparr>dyn_current_supply := s, dyn_accumulated_fees := 0\<rparr>) }"

definition process_budget :: "int list \<Rightarrow> database \<Rightarrow> database option" where
  "process_budget tally db = do {
     core \<leftarrow> get_object (assets db) 0;
     available_funds \<leftarrow> get_max_budget (pending_timestamp db) db;
     for_witnesses \<leftarrow> budget_for_witnesses available_funds db;
     left \<leftarrow> share (available_funds - for_witnesses);
     for_workers \<leftarrow> budget_for_workers left db;
     unspent \<leftarrow> share (left - for_workers);
     (leftover, db1) \<leftarrow> pay_workers tally for_workers db;
     _ \<leftarrow> share (unspent + leftover);
     t \<leftarrow> modify_object (ao_dynamic_asset_data_id core) (issue_budget for_witnesses for_workers leftover) (asset_dyns db1);
     Some (db1\<lparr>asset_dyns := t,
       dprops := (dprops db1)\<lparr>witness_budget := for_witnesses, last_budget_time := pending_timestamp db\<rparr>\<rparr>) }"


subsection \<open>How much may be spent\<close>

lemma u128_product:
  assumes "0 \<le> a" "a < 2 ^ 63" "0 \<le> b" "b < 2 ^ 32"
  shows "u128 (a * b) = a * b" "u128 (a * b * 17) = a * b * 17"
    "u128 (a * b * 17 + 4294967295) = a * b * 17 + 4294967295" "0 \<le> a * b"
proof -
  have m: "a * b \<le> 2 ^ 63 * 2 ^ 32" using assms by (intro mult_mono) auto
  then show "u128 (a * b) = a * b" "u128 (a * b * 17) = a * b * 17"
    "u128 (a * b * 17 + 4294967295) = a * b * 17 + 4294967295" "0 \<le> a * b"
    using assms by (auto intro!: u128_id)
qed

text \<open>
  The budget of a maintenance interval, wrap-around and truncation aside, is the smallest amount
  that is at least the fraction 17 / 2 ^ 32 per second of the reserve (what was never issued or was
  burned, and the fees collected), and at most the whole reserve: the first satoshi of it can always be
  spent, and no more than there is.
\<close>

theorem max_budget_is_ceiling:
  assumes "get_max_budget now db = Some b" "gi_find (assets db) 0 = Some core"
    and "gi_find (asset_dyns db) (ao_dynamic_asset_data_id core) = Some dyn"
    and reserve: "reserve = max_supply (ao_options core) - dyn_current_supply dyn + dyn_accumulated_fees dyn"
      "0 \<le> reserve" "reserve < 2 ^ 63"
    and times: "0 < last_budget_time (dprops db)" "last_budget_time (dprops db) < now" "now < 2 ^ 32"
  shows "b = min reserve (- ((- (reserve * (now - last_budget_time (dprops db)) * 17)) div 2 ^ 32))"
proof -
  define dt where "dt = now - last_budget_time (dprops db)"
  have dt: "0 \<le> dt" "dt < 2 ^ 32" using times by (auto simp: dt_def)
  define budget where "budget = (reserve * dt * 17 + 4294967295) div 2 ^ 32"
  have e: "budget = - ((- (reserve * dt * 17)) div 2 ^ 32)" unfolding budget_def by simp
  have later: "\<not> (last_budget_time (dprops db) = 0 \<or> now \<le> last_budget_time (dprops db))" using times by simp
  have r: "u128 reserve = reserve" using reserve by simp
  have bu: "burned core db = share (max_supply (ao_options core) - dyn_current_supply dyn)"
    by (simp add: burned_def assms(3))
  have f: "share (max_supply (ao_options core) - dyn_current_supply dyn + dyn_accumulated_fees dyn) = Some reserve"
    using reserve by (simp add: int64_ok_def)
  have "u128 (u128 (u128 (u128 reserve * uint64 dt) * BTS_CORE_ASSET_CYCLE_RATE) + (2 ^ BTS_CORE_ASSET_CYCLE_RATE_BITS - 1)) div
      2 ^ BTS_CORE_ASSET_CYCLE_RATE_BITS = budget"
    using u128_product [OF reserve(2,3) dt] dt
    by (simp add: r budget_def BTS_CORE_ASSET_CYCLE_RATE_def BTS_CORE_ASSET_CYCLE_RATE_BITS_def)
  then have "(if budget < u128 reserve then map_option int64 (to_uint64 budget) else Some reserve) = Some b"
    using assms(1) unfolding get_max_budget_def Let_def get_object_gi assms(2,3) Option.bind.bind_lunit bu if_not_P [OF later] dt_def [symmetric]
      Option.bind_eq_Some_conv
    by (elim exE conjE) (simp only: share_Some reserve(1) [symmetric])
  moreover note r
  moreover have "0 \<le> budget" using u128_product(4) [OF reserve(2,3) dt] by (simp add: budget_def pos_imp_zdiv_nonneg_iff)
  ultimately show ?thesis unfolding dt_def [symmetric] e [symmetric] using reserve(3)
    by (auto simp: min_def int64_ok_def split: if_splits)
qed


subsection \<open>The books\<close>

text \<open>What paying workers leaves alone.\<close>

definition same_but_pay :: "database \<Rightarrow> database \<Rightarrow> bool" where
  "same_but_pay db db' \<longleftrightarrow> assets db' = assets db \<and> gprops db' = gprops db \<and> dprops db' = dprops db \<and>
     pending_timestamp db' = pending_timestamp db \<and>
     map_option dyn_accumulated_fees (gi_find (asset_dyns db') 0) = map_option dyn_accumulated_fees (gi_find (asset_dyns db) 0)"

lemma pay_worker_moves:
  assumes "pay_worker pay w db = Some (w', db')" "tables_ok db"
  obtains v r where "moves db db' (\<lambda>a. if a = 0 then v else 0) (\<lambda>a. if a = 0 then - r else 0)" "v + r = pay"
    "v = 0 \<or> r = 0" "same_but_pay db db'" "workers db' = workers db"
proof (cases w)
  case (Refund_Worker n)
  obtain core :: asset_object and t where f: "gi_find (assets db) 0 = Some core"
    "modify_object (ao_dynamic_asset_data_id core)
       (\<lambda>d. do { s \<leftarrow> share (dyn_current_supply d - pay); Some (d\<lparr>dyn_current_supply := s\<rparr>) }) (asset_dyns db) = Some t"
    "db' = db\<lparr>asset_dyns := t\<rparr>"
    using assms(1) Refund_Worker unfolding pay_worker_def by (auto simp: bind_eq_Some_conv)
  have "ao_dynamic_asset_data_id core = 0" using tables_okD(12) [OF assms(2) f(1)] .
  then have "moves db db' (\<lambda>a. if a = 0 then 0 else 0) (\<lambda>a. if a = 0 then - pay else 0)"
    unfolding f(3) by (intro moves_cong [OF moves_dyn [OF f(2) assms(2), of 0 0 "- pay"]]) auto
  moreover have "map_option dyn_accumulated_fees (gi_find t 0) = map_option dyn_accumulated_fees (gi_find (asset_dyns db) 0)"
    using f(2) by (auto simp: modify_object_Some gi_find_modify bind_eq_Some_conv)
  ultimately show thesis using that [of 0 pay] by (simp add: f(3) same_but_pay_def)
next
  case (Vesting_Balance_Worker b)
  obtain t where f: "modify_object b (vb_deposit (head_block_time db) (mk_asset pay 0)) (vestings db) = Some t"
    "db' = db\<lparr>vestings := t\<rparr>"
    using assms(1) Vesting_Balance_Worker unfolding pay_worker_def by (auto simp: bind_eq_Some_conv)
  then obtain x y where x: "gi_find (vestings db) b = Some x" "vb_deposit (head_block_time db) (mk_asset pay 0) x = Some y"
    by (auto simp: modify_object_Some)
  have "amount_of a (vb_balance y) - amount_of a (vb_balance x) = (if a = 0 then pay else 0)" for a
    using x(2) by (auto simp: vb_deposit_def bind_eq_Some_conv amount_of_def split: vesting_policy.splits)
  then have "moves db db' (\<lambda>a. if a = 0 then pay else 0) (\<lambda>a. if a = 0 then - 0 else 0)"
    unfolding f(2) by (intro moves_cong [OF moves_modify(5) [OF f(1) assms(2) x]]) auto
  then show thesis using that [of pay 0] by (simp add: f(2) same_but_pay_def)
qed

lemma moves_workers: "tables_ok db \<Longrightarrow> moves db (db\<lparr>workers := t\<rparr>) (\<lambda>_. 0) (\<lambda>_. 0)"
  by (simp add: moves_def ledger_upd tables_okD)

definition no_negative_pay :: "(nat \<times> worker_object) list \<Rightarrow> database \<Rightarrow> bool" where
  "no_negative_pay ws db \<longleftrightarrow> (\<forall>w x. w \<in> snd ` set ws \<longrightarrow> requested_pay w db = Some x \<longrightarrow> 0 \<le> x)"

lemma pay_each_moves:
  assumes "pay_each ws budget db = Some (rest, db')" "tables_ok db"
  shows "\<exists>v r. moves db db' (\<lambda>a. if a = 0 then v else 0) (\<lambda>a. if a = 0 then - r else 0) \<and> v + r = budget - rest \<and>
    same_but_pay db db' \<and> (no_negative_pay ws db \<longrightarrow> 0 \<le> v \<and> 0 \<le> r \<and> (0 \<le> budget \<longrightarrow> 0 \<le> rest))"
  using assms
proof (induction ws budget db rule: pay_each.induct)
  case (1 budget db)
  then have "moves db db' (\<lambda>a. if a = 0 then 0 else 0) (\<lambda>a. if a = 0 then - 0 else 0)" by (auto intro: moves_cong [OF moves_refl])
  with 1 show ?case by (intro exI [of _ 0]) (simp add: same_but_pay_def)
next
  case (2 i w ws budget db)
  show ?case
  proof (cases "budget > 0")
    case True
    obtain x w' db1 t b where f: "requested_pay w db = Some x" "pay_worker (min budget x) (wo_worker w) db = Some (w', db1)"
      "modify_object i (\<lambda>x. Some (x\<lparr>wo_worker := w'\<rparr>)) (workers db1) = Some t" "share (budget - min budget x) = Some b"
      "pay_each ws b (db1\<lparr>workers := t\<rparr>) = Some (rest, db')"
      using 2(2) True unfolding pay_each.simps if_P [OF True] Let_def Option.bind_eq_Some_conv split_paired_Ex case_prod_conv
      by (elim exE conjE) (rule that, assumption+)
    obtain v r where m: "moves db db1 (\<lambda>a. if a = 0 then v else 0) (\<lambda>a. if a = 0 then - r else 0)"
      "v + r = min budget x" "v = 0 \<or> r = 0" "same_but_pay db db1"
      using pay_worker_moves [OF f(2) 2(3)] .
    note m1 = moves_trans [OF m(1) moves_workers [OF movesD(1) [OF m(1)]]]
    let ?d = "db1\<lparr>workers := t\<rparr>"
    obtain v' r' where m': "moves ?d db' (\<lambda>a. if a = 0 then v' else 0) (\<lambda>a. if a = 0 then - r' else 0)"
      "v' + r' = b - rest" "same_but_pay ?d db'"
      "no_negative_pay ws ?d \<Longrightarrow> 0 \<le> v' \<and> 0 \<le> r' \<and> (0 \<le> b \<longrightarrow> 0 \<le> rest)"
      using 2(1) [OF True f(1) refl f(2) refl f(3,4,5) movesD(1) [OF m1]] by auto
    have n: "0 \<le> v + v' \<and> 0 \<le> r + r' \<and> 0 \<le> rest" if neg: "no_negative_pay ((i, w) # ws) db"
    proof -
      have "no_negative_pay ws ?d"
        using neg m(4) by (auto simp: no_negative_pay_def requested_pay_def same_but_pay_def)
      moreover have "0 \<le> x" using neg f(1) by (auto simp: no_negative_pay_def)
      then have "0 \<le> v" "0 \<le> r" "0 \<le> b" using m(2,3) True f(4) by auto
      ultimately show ?thesis using m'(4) by auto
    qed
    have "moves db db' (\<lambda>a. if a = 0 then v + v' else 0) (\<lambda>a. if a = 0 then - (r + r') else 0)"
      by (rule moves_cong [OF moves_trans [OF m1 m'(1)]]) auto
    moreover have "v + v' + (r + r') = budget - rest" using m(2) m'(2) f(4) by auto
    ultimately show ?thesis using m(4) m'(3) n
      by (intro exI [of _ "v + v'"] exI [of _ "r + r'"]) (simp add: same_but_pay_def)
  next
    case False
    then have "moves db db' (\<lambda>a. if a = 0 then 0 else 0) (\<lambda>a. if a = 0 then - 0 else 0)" using 2 by (auto intro: moves_cong [OF moves_refl])
    with 2 False show ?thesis by (intro exI [of _ 0]) (simp add: same_but_pay_def)
  qed
qed

lemma process_budget_parts:
  assumes "process_budget tally db = Some db'" "tables_ok db"
  obtains available wit left wk rest db1 dyn t where
    "get_max_budget (pending_timestamp db) db = Some available" "budget_for_witnesses available db = Some wit"
    "left = available - wit" "int64_ok left" "budget_for_workers left db = Some wk" "pay_each (active_workers tally db) wk db = Some (rest, db1)"
    "modify_object 0 (issue_budget wit wk rest) (asset_dyns db1) = Some t"
    "gi_find (asset_dyns db1) 0 = Some dyn"
    "db' = db1\<lparr>asset_dyns := t, dprops := (dprops db1)\<lparr>witness_budget := wit, last_budget_time := pending_timestamp db\<rparr>\<rparr>"
proof -
  obtain core :: asset_object and available wit left wk unspent rest db1 t where f: "gi_find (assets db) 0 = Some core"
    "get_max_budget (pending_timestamp db) db = Some available" "budget_for_witnesses available db = Some wit"
    "share (available - wit) = Some left" "budget_for_workers left db = Some wk"
    "pay_each (active_workers tally db) wk db = Some (rest, db1)"
    "modify_object (ao_dynamic_asset_data_id core) (issue_budget wit wk rest) (asset_dyns db1) = Some t"
    "db1\<lparr>asset_dyns := t, dprops := (dprops db1)\<lparr>witness_budget := wit, last_budget_time := pending_timestamp db\<rparr>\<rparr> = db'"
    using assms(1) unfolding process_budget_def pay_workers_def Let_def get_object_gi Option.bind_eq_Some_conv split_paired_Ex
      case_prod_conv option.inject
    by (elim exE conjE) (rule that, assumption+)
  have "ao_dynamic_asset_data_id core = 0" using tables_okD(12) [OF assms(2) f(1)] .
  then show thesis using that [OF f(2,3) _ _ f(5,6) _ _ f(8) [symmetric]] f(4,7) by (auto simp: modify_object_Some)
qed

text \<open>
  Spending the budget keeps the books of every asset, with one exception: what was left of the
  budget of the witnesses for the interval before is dropped from the state, but it stays in the supply
  of the core asset, so that much of the supply is held by nobody afterwards.
\<close>

lemma process_budget_imbalance:
  assumes "process_budget tally db = Some db'" "tables_ok db"
  shows "tables_ok db' \<and> imbalance a db' = imbalance a db - (if a = 0 then witness_budget (dprops db) else 0)"
proof -
  obtain available wit left wk rest db1 dyn t where f: "pay_each (active_workers tally db) wk db = Some (rest, db1)"
    "modify_object 0 (issue_budget wit wk rest) (asset_dyns db1) = Some t" "gi_find (asset_dyns db1) 0 = Some dyn"
    "db' = db1\<lparr>asset_dyns := t, dprops := (dprops db1)\<lparr>witness_budget := wit, last_budget_time := pending_timestamp db\<rparr>\<rparr>"
    using process_budget_parts [OF assms] .
  obtain v r where m: "moves db db1 (\<lambda>a. if a = 0 then v else 0) (\<lambda>a. if a = 0 then - r else 0)" "v + r = wk - rest"
    "same_but_pay db db1"
    using pay_each_moves [OF f(1) assms(2)] by auto
  let ?fees = "dyn_accumulated_fees dyn"
  have m1: "moves db1 (db1\<lparr>asset_dyns := t\<rparr>) (\<lambda>a. (if a = 0 then - ?fees else 0) + (if a = 0 then 0 else 0))
      (\<lambda>a. if a = 0 then wit + wk - rest - ?fees else 0)"
    by (rule moves_dyn [OF f(2) movesD(1) [OF m(1)]]) (use f(3) in \<open>auto simp: issue_budget_def bind_eq_Some_conv\<close>)
  note m2 = moves_trans [OF m(1) m1]
  have "tables_ok db'" using movesD(1) [OF m2] by (simp add: f(4) tables_okD ledger_upd)
  moreover have "imbalance a db' = imbalance a (db1\<lparr>asset_dyns := t\<rparr>) + (if a = 0 then wit - witness_budget (dprops db) else 0)"
    using m(3) by (simp add: f(4) imbalance_def ledger_upd same_but_pay_def)
  ultimately show ?thesis using moves_imbalance [OF m2, of a] m(2) by auto
qed


lemma max_budget_bounds:
  assumes "get_max_budget now db = Some b" "gi_find (assets db) 0 = Some core"
    and "gi_find (asset_dyns db) (ao_dynamic_asset_data_id core) = Some dyn"
    and reserve: "0 \<le> max_supply (ao_options core) - dyn_current_supply dyn + dyn_accumulated_fees dyn"
  shows "0 \<le> b \<and> b \<le> max_supply (ao_options core) - dyn_current_supply dyn + dyn_accumulated_fees dyn"
proof (cases "last_budget_time (dprops db) = 0 \<or> now \<le> last_budget_time (dprops db)")
  case True
  then show ?thesis using assms by (simp add: get_max_budget_def)
next
  case False
  let ?r = "max_supply (ao_options core) - dyn_current_supply dyn + dyn_accumulated_fees dyn"
  have bu: "burned core db = share (max_supply (ao_options core) - dyn_current_supply dyn)"
    by (simp add: burned_def assms(3))
  obtain y where r: "int64_ok ?r" and y: "(if y div 2 ^ BTS_CORE_ASSET_CYCLE_RATE_BITS < u128 ?r
      then map_option int64 (to_uint64 (y div 2 ^ BTS_CORE_ASSET_CYCLE_RATE_BITS)) else Some ?r) = Some b" "0 \<le> y"
    using assms(1) unfolding get_max_budget_def Let_def get_object_gi assms(2,3) Option.bind.bind_lunit bu if_not_P [OF False]
      Option.bind_eq_Some_conv
    by (elim exE conjE) (simp only: share_Some, rule that, simp, assumption, rule u128_nonneg)
  have "u128 ?r = ?r" using reserve r by (simp add: int64_ok_def)
  moreover have "0 \<le> y div 2 ^ BTS_CORE_ASSET_CYCLE_RATE_BITS" using y(2) by (simp add: pos_imp_zdiv_nonneg_iff)
  ultimately show ?thesis using y(1) r reserve by (auto simp: int64_ok_def split: if_splits)
qed

text \<open>
  C12. The budget never takes the supply of the core asset above its maximum, as long as no worker asks
  for a negative pay: what witnesses and workers get comes out of what was never issued, was burned or
  was paid in fees.
\<close>

theorem process_budget_within_max_supply:
  assumes "process_budget tally db = Some db'" "tables_ok db" "no_negative_pay (active_workers tally db) db"
    and "gi_find (assets db) 0 = Some core" "supply_of 0 db \<le> max_supply (ao_options core)"
    and "gi_find (asset_dyns db) 0 = Some dyn" "0 \<le> dyn_accumulated_fees dyn"
  shows "gi_find (assets db') 0 = Some core \<and> supply_of 0 db' \<le> max_supply (ao_options core)"
proof -
  obtain available wit left wk rest db1 dyn1 t where f: "get_max_budget (pending_timestamp db) db = Some available"
    "budget_for_witnesses available db = Some wit" "left = available - wit" "int64_ok left" "budget_for_workers left db = Some wk"
    "pay_each (active_workers tally db) wk db = Some (rest, db1)"
    "modify_object 0 (issue_budget wit wk rest) (asset_dyns db1) = Some t" "gi_find (asset_dyns db1) 0 = Some dyn1"
    "db' = db1\<lparr>asset_dyns := t, dprops := (dprops db1)\<lparr>witness_budget := wit, last_budget_time := pending_timestamp db\<rparr>\<rparr>"
    using process_budget_parts [OF assms(1,2)] .
  have id: "ao_dynamic_asset_data_id core = 0" using tables_okD(12) [OF assms(2,4)] .
  have s: "supply_of 0 db = dyn_current_supply dyn" using assms(6) by (simp add: supply_of_def)
  have b: "0 \<le> available" "available \<le> max_supply (ao_options core) - supply_of 0 db + dyn_accumulated_fees dyn"
    using max_budget_bounds [OF f(1) assms(4) assms(6) [folded id]] assms(5,7) s by auto
  have "wit \<le> available" using f(2) by (auto simp: budget_for_witnesses_def Let_def bind_eq_Some_conv)
  then have left: "0 \<le> left" using f(3) by simp
  have wk: "0 \<le> wk" "wk \<le> left"
  proof -
    let ?x = "u128 (u128 (worker_budget_per_day (parameters (gprops db))) *
      uint64 (next_maintenance_time (dprops db) - pending_timestamp db)) div (60 * 60 * 24)"
    have l: "u128 left \<le> left" using left by (simp add: u128_def zmod_le_nonneg_dividend)
    have x: "0 \<le> ?x" by (simp add: pos_imp_zdiv_nonneg_iff)
    have "wk = left \<or> wk = int64 ?x \<and> ?x < left"
      using f(5) l by (auto simp: budget_for_workers_def Let_def split: if_splits)
    then show "0 \<le> wk" "wk \<le> left" using x left f(4) by (auto simp: int64_ok_def)
  qed
  obtain v r where m: "moves db db1 (\<lambda>a. if a = 0 then v else 0) (\<lambda>a. if a = 0 then - r else 0)" "v + r = wk - rest"
    "same_but_pay db db1" "0 \<le> v" "0 \<le> r" "0 \<le> rest"
    using pay_each_moves [OF f(6) assms(2)] assms(3) wk(1) by auto
  have "supply_of 0 db' = dyn_current_supply dyn1 + wit + wk - rest - dyn_accumulated_fees dyn1"
    using f(7,8) by (auto simp: f(9) supply_of_def modify_object_Some issue_budget_def bind_eq_Some_conv gi_find_modify)
  moreover have "dyn_current_supply dyn1 = supply_of 0 db - r" using movesD(3) [OF m(1), of 0] f(8) by (simp add: supply_of_def)
  moreover have "dyn_accumulated_fees dyn1 = dyn_accumulated_fees dyn" using m(3) f(8) assms(6) by (simp add: same_but_pay_def)
  ultimately show ?thesis using m b wk f(3) assms(4) by (auto simp: f(9) same_but_pay_def)
qed


subsection \<open>A payroll\<close>

definition sample_payroll :: database where
  "sample_payroll = sample_database\<lparr>
     vestings := table_of [\<lparr>vb_owner = 1, vb_balance = mk_asset 50 0,
       vb_policy = Cdd \<lparr>cd_vesting_seconds = 1000, cd_coin_seconds_earned = 0, cd_coin_seconds_earned_last_update = 0\<rparr>\<rparr>],
     workers := table_of
       [\<lparr>wo_worker_account = 2, wo_work_begin_date = 0, wo_work_end_date = 1000000, wo_daily_pay = 100,
         wo_worker = Refund_Worker 0, wo_vote_for = make_vote_id worker 0, wo_vote_against = make_vote_id worker 1\<rparr>,
        \<lparr>wo_worker_account = 1, wo_work_begin_date = 0, wo_work_end_date = 1000000, wo_daily_pay = 200,
         wo_worker = Vesting_Balance_Worker 0, wo_vote_for = make_vote_id worker 2, wo_vote_against = make_vote_id worker 3\<rparr>],
     gprops := empty_global\<lparr>parameters := default_parameters\<lparr>witness_pay_per_block := 1\<rparr>\<rparr>,
     dprops := empty_dynamic\<lparr>next_maintenance_time := 1000 + 2 * 86400, last_budget_time := 1000, witness_budget := 777\<rparr>,
     pending_timestamp := 1000 + 86400\<rparr>"

definition sample_tally :: "int list" where
  "sample_tally = [10, 3, 20, 5]"

lemma sample_payroll_ok: "tables_ok sample_payroll"
  using sample_tables_ok by (simp add: sample_payroll_def tables_ok_def)

lemma sample_payroll_core:
  "gi_find (assets sample_payroll) 0 = Some (sample_assets ! 0)"
  "gi_find (asset_dyns sample_payroll) 0 =
     Some \<lparr>dyn_current_supply = 3000000, dyn_accumulated_fees = 0, dyn_fee_pool = 0\<rparr>"
  by (simp_all add: sample_payroll_def sample_defs)

lemma max_budget_is_ceiling_witness:
  "get_max_budget 87400 sample_payroll = Some (min 997000000 (- ((- (997000000 * 86400 * 17)) div 2 ^ 32)))"
proof -
  have b: "get_max_budget 87400 sample_payroll = Some 340956" by code_simp
  have l: "last_budget_time (dprops sample_payroll) = 1000" by (simp add: sample_payroll_def)
  have id: "ao_dynamic_asset_data_id (sample_assets ! 0) = 0" by (simp add: sample_assets_def)
  have m: "max_supply (ao_options (sample_assets ! 0)) = 1000000000"
    by (simp add: sample_assets_def sample_options_def)
  have "340956 = min 997000000 (- ((- (997000000 * (87400 - last_budget_time (dprops sample_payroll)) * 17)) div 2 ^ 32))"
    by (rule max_budget_is_ceiling [OF b sample_payroll_core(1)]) (simp_all only: id sample_payroll_core(2) l, simp_all add: m)
  then show ?thesis unfolding b l by simp
qed

lemma process_budget_imbalance_witness:
  "map_option (\<lambda>db'. imbalance 0 db' - imbalance 0 sample_payroll) (process_budget sample_tally sample_payroll) = Some (- 777)"
proof -
  have "map_option (\<lambda>_. ()) (process_budget sample_tally sample_payroll) = Some ()" by code_simp
  then obtain db' where "process_budget sample_tally sample_payroll = Some db'" by auto
  with process_budget_imbalance [OF this sample_payroll_ok, of 0] show ?thesis by (simp add: sample_payroll_def)
qed

lemma process_budget_within_max_supply_witness:
  "map_option (\<lambda>db'. supply_of 0 db' \<le> 1000000000) (process_budget sample_tally sample_payroll) = Some True"
proof -
  have "map_option (\<lambda>_. ()) (process_budget sample_tally sample_payroll) = Some ()" by code_simp
  then obtain db' where p: "process_budget sample_tally sample_payroll = Some db'" by auto
  have "active_workers sample_tally sample_payroll =
      rev (entries (workers sample_payroll))" by code_simp
  then have n: "no_negative_pay (active_workers sample_tally sample_payroll) sample_payroll"
    by (auto simp: no_negative_pay_def requested_pay_def sample_payroll_def table_of_def numeral_2_eq_2)
  show ?thesis
    using process_budget_within_max_supply [OF p sample_payroll_ok n sample_payroll_core(1) _ sample_payroll_core(2)] p
    by (simp add: sample_payroll_core supply_of_def sample_assets_def sample_options_def)
qed

end
