(* ===== verification/Schedule.thy ===== *)
theory Schedule
  imports Chain_State "HOL-Library.Word" "HOL-Library.Multiset"
begin

section \<open>Randomness and the schedule of witnesses\<close>

text \<open>
  Models \<^verbatim>\<open>libraries/chain/include/bts/chain/witness_scheduler_rng.hpp\<close> (random bits from a hash in counter
  mode, and numbers below a bound drawn from them), \<open>shuffle_vector\<close> of \<^verbatim>\<open>database.hpp\<close> and
  \<open>get_scheduled_witness\<close> of \<^verbatim>\<open>database.cpp\<close>. Hash functions are arguments: \<open>hash seed counter\<close> is the block
  of 256 bits the generator reads, \<open>rehash\<close> the hash of a secret. A drawing loop that never meets a small
  enough number does not return, which is the value \<open>None\<close> of a partial function.

  The theorems show that the generator reads one endless stream of bits, which numbers a draw returns, that
  a shuffle is a permutation, and that the schedule gives every active witness one slot per round.
\<close>

subsection \<open>The generator\<close>

type_synonym block_hash = "nat \<Rightarrow> 64 word \<Rightarrow> 256 word"

record hash_ctr_rng =
  rng_counter :: "64 word"
  rng_seed :: nat
  rng_current_value :: "256 word"
  rng_current_offset :: nat

definition reset_current_value :: "block_hash \<Rightarrow> hash_ctr_rng \<Rightarrow> hash_ctr_rng" where
  "reset_current_value hash r = r\<lparr>rng_current_value := hash (rng_seed r) (rng_counter r)\<rparr>"

definition new_rng :: "block_hash \<Rightarrow> nat \<Rightarrow> 64 word \<Rightarrow> hash_ctr_rng" where
  "new_rng hash seed counter = reset_current_value hash
     \<lparr>rng_counter = counter, rng_seed = seed, rng_current_value = 0, rng_current_offset = 0\<rparr>"

fun get_bits_loop :: "block_hash \<Rightarrow> nat \<Rightarrow> 64 word \<Rightarrow> 64 word \<Rightarrow> hash_ctr_rng \<Rightarrow> 64 word \<times> hash_ctr_rng" where
  "get_bits_loop hash 0 m result r = (result, r)"
| "get_bits_loop hash (Suc c) m result r =
     (let result' = or result (if bit (rng_current_value r) (rng_current_offset r mod 256) then m else 0);
          r1 = r\<lparr>rng_current_offset := rng_current_offset r + 1\<rparr>;
          r2 = (if rng_current_offset r1 = 256
            then reset_current_value hash (r1\<lparr>rng_counter := rng_counter r1 + 1, rng_current_offset := 0\<rparr>)
            else r1)
      in get_bits_loop hash c (m + m) result' r2)"

definition get_bits :: "block_hash \<Rightarrow> nat \<Rightarrow> hash_ctr_rng \<Rightarrow> 64 word \<times> hash_ctr_rng" where
  "get_bits hash c r = get_bits_loop hash c 1 0 r"

text \<open>\<open>64 - __builtin_clzll(x)\<close>, the length of the binary representation.\<close>

fun bit_length :: "nat \<Rightarrow> nat" where
  "bit_length n = (if n = 0 then 0 else Suc (bit_length (n div 2)))"

declare bit_length.simps [simp del]

partial_function (option) draw_below ::
  "block_hash \<Rightarrow> nat \<Rightarrow> 64 word \<Rightarrow> hash_ctr_rng \<Rightarrow> (64 word \<times> hash_ctr_rng) option" where
  "draw_below hash bitcount bound r =
     (let (result, r') = get_bits hash bitcount r in
      if result < bound then Some (result, r') else draw_below hash bitcount bound r')"

definition rng_number :: "block_hash \<Rightarrow> 64 word \<Rightarrow> hash_ctr_rng \<Rightarrow> (64 word \<times> hash_ctr_rng) option" where
  "rng_number hash bound r =
     (if bound \<le> 1 then Some (0, r) else draw_below hash (bit_length (unat bound)) bound r)"

subsection \<open>Shuffling\<close>

text \<open>The 32-bit words a hash is made of.\<close>

definition hash_word :: "nat \<Rightarrow> nat \<Rightarrow> nat" where
  "hash_word h k = h div 2 ^ (32 * k) mod 2 ^ 32"

definition rands_per_hash :: nat where "rands_per_hash = 7"

definition swap_at :: "nat \<Rightarrow> nat \<Rightarrow> 'a list \<Rightarrow> 'a list" where
  "swap_at i j xs = xs[i := xs ! j, j := xs ! i]"

function shuffle_from :: "(nat \<Rightarrow> nat) \<Rightarrow> nat \<Rightarrow> nat \<Rightarrow> 'a list \<Rightarrow> 'a list" where
  "shuffle_from rehash i randvalue ids =
     (if i < length ids then
        shuffle_from rehash (i + 1) (if i mod rands_per_hash = rands_per_hash - 1 then rehash randvalue else randvalue)
          (swap_at i (i + hash_word randvalue (i mod rands_per_hash) mod (length ids - i)) ids)
      else ids)"
  by pat_completeness auto
termination by (relation "measure (\<lambda>(_, i, _, ids). length ids - i)") (auto simp: swap_at_def)

declare shuffle_from.simps [simp del]

definition shuffle_vector :: "(nat \<Rightarrow> nat) \<Rightarrow> nat \<Rightarrow> 'a list \<Rightarrow> 'a list" where
  "shuffle_vector rehash randvalue ids = shuffle_from rehash 0 randvalue ids"

subsection \<open>The schedule\<close>

text \<open>
  The outer option is the division by zero of a chain without block interval or active witness; the
  inner one the optional result.
\<close>

definition get_scheduled_witness :: "time_point_sec \<Rightarrow> database \<Rightarrow> (time_point_sec \<times> witness_id_type) option option" where
  "get_scheduled_witness when db = do {
     let interval = block_interval (parameters (gprops db));
     let active = active_witnesses (gprops db);
     fc_assert (interval \<noteq> 0);
     let w_abs_slot = when div interval;
     let h_abs_slot = head_block_time db div interval;
     if w_abs_slot \<le> h_abs_slot then Some None
     else do {
       fc_assert (active \<noteq> []);
       Some (Some (uint32 (w_abs_slot * interval), active ! (nat w_abs_slot mod length active))) } }"


subsection \<open>What the generator reads\<close>

text \<open>
  The abstract view: an endless stream of bits, the blocks of the hash one after the other (the counter
  wraps after 2 ^ 64 blocks), and a position in it.
\<close>

definition bit_stream :: "block_hash \<Rightarrow> nat \<Rightarrow> nat \<Rightarrow> bool" where
  "bit_stream hash seed p \<longleftrightarrow> bit (hash seed (word_of_nat (p div 256))) (p mod 256)"

definition rng_at :: "block_hash \<Rightarrow> nat \<Rightarrow> hash_ctr_rng \<Rightarrow> bool" where
  "rng_at hash p r \<longleftrightarrow> rng_counter r = word_of_nat (p div 256) \<and> rng_current_offset r = p mod 256 \<and>
     rng_current_value r = hash (rng_seed r) (rng_counter r)"

lemma rng_at_new: "rng_at hash (256 * n) (new_rng hash seed (word_of_nat n))"
  by (simp add: rng_at_def new_rng_def reset_current_value_def)

lemma next_position: "Suc (p mod 256) = 256 \<Longrightarrow> Suc p div 256 = Suc (p div 256) \<and> Suc p mod 256 = 0"
  "Suc (p mod 256) \<noteq> 256 \<Longrightarrow> Suc p div 256 = p div 256 \<and> Suc p mod 256 = Suc (p mod 256)"
  by (auto simp: div_Suc mod_Suc)

lemma get_bits_loop_stream:
  assumes "rng_at hash p r"
  shows "(\<forall>j. bit (fst (get_bits_loop hash c (2 ^ k) x r)) j \<longleftrightarrow>
      bit x j \<or> k \<le> j \<and> j < k + c \<and> j < 64 \<and> bit_stream hash (rng_seed r) (p + (j - k))) \<and>
    rng_at hash (p + c) (snd (get_bits_loop hash c (2 ^ k) x r)) \<and>
    rng_seed (snd (get_bits_loop hash c (2 ^ k) x r)) = rng_seed r"
  using assms
proof (induction c arbitrary: k x r p)
  case 0
  then show ?case by auto
next
  case (Suc c)
  define y where "y = or x (if bit (rng_current_value r) (rng_current_offset r mod 256) then 2 ^ k else 0)"
  define r1 where "r1 = r\<lparr>rng_current_offset := rng_current_offset r + 1\<rparr>"
  define r2 where "r2 = (if rng_current_offset r1 = 256
            then reset_current_value hash (r1\<lparr>rng_counter := rng_counter r1 + 1, rng_current_offset := 0\<rparr>) else r1)"
  have e: "get_bits_loop hash (Suc c) (2 ^ k) x r = get_bits_loop hash c (2 ^ Suc k) y r2"
    by (simp add: y_def r1_def r2_def Let_def)
  have at: "rng_at hash (Suc p) r2"
    using Suc.prems next_position [of p] by (auto simp: rng_at_def r2_def r1_def reset_current_value_def)
  have seed: "rng_seed r2 = rng_seed r" by (simp add: r2_def r1_def reset_current_value_def)
  have y: "bit y j \<longleftrightarrow> bit x j \<or> j = k \<and> j < 64 \<and> bit_stream hash (rng_seed r) p" for j
    using Suc.prems by (auto simp: y_def bit_simps rng_at_def bit_stream_def)
  note ih = Suc.IH [OF at, of "Suc k" y]
  have "bit (fst (get_bits_loop hash c (2 ^ Suc k) y r2)) j \<longleftrightarrow>
      bit x j \<or> k \<le> j \<and> j < k + Suc c \<and> j < 64 \<and> bit_stream hash (rng_seed r) (p + (j - k))" for j
  proof (cases "k < j")
    case True
    then have "Suc p + (j - Suc k) = p + (j - k)" by simp
    with ih seed y True show ?thesis by auto
  next
    case False
    with ih seed y show ?thesis by (cases "j = k") auto
  qed
  with ih seed show ?case unfolding e by simp
qed

lemma get_bits_stream:
  assumes "rng_at hash p r" "get_bits hash c r = (x, r')"
  shows "(\<forall>j. bit x j \<longleftrightarrow> j < c \<and> j < 64 \<and> bit_stream hash (rng_seed r) (p + j)) \<and>
    rng_at hash (p + c) r' \<and> rng_seed r' = rng_seed r"
  using get_bits_loop_stream [OF assms(1), of c 0 0] assms(2) by (simp add: get_bits_def)

text \<open>
  Drawing bits reads the stream: the number has the next bits of it, the first one lowest, and
  nothing above the count asked for, and the generator moves on by that many bits, from block to block.
\<close>

theorem get_bits_reads_stream:
  assumes "rng_at hash p r" "get_bits hash c r = (x, r')"
  shows "(\<forall>j. bit x j \<longleftrightarrow> j < c \<and> j < 64 \<and> bit_stream hash (rng_seed r) (p + j)) \<and>
    rng_at hash (p + c) r' \<and> rng_seed r' = rng_seed r"
  using get_bits_loop_stream [OF assms(1), of c 0 0] assms(2) by (simp add: get_bits_def)


definition rng_from :: "block_hash \<Rightarrow> nat \<Rightarrow> nat \<Rightarrow> hash_ctr_rng" where
  "rng_from hash seed p = \<lparr>rng_counter = word_of_nat (p div 256), rng_seed = seed,
     rng_current_value = hash seed (word_of_nat (p div 256)), rng_current_offset = p mod 256\<rparr>"

lemma rng_at_from: "rng_at hash p r \<longleftrightarrow> r = rng_from hash (rng_seed r) p"
  by (cases r) (auto simp: rng_at_def rng_from_def)

lemma rng_seed_from [simp]: "rng_seed (rng_from hash seed p) = seed"
  by (simp add: rng_from_def)

text \<open>The number of \<open>c\<close> bits at a position of the stream.\<close>

definition number_at :: "block_hash \<Rightarrow> nat \<Rightarrow> nat \<Rightarrow> nat \<Rightarrow> 64 word" where
  "number_at hash seed c p = fst (get_bits hash c (rng_from hash seed p))"

lemma get_bits_from: "get_bits hash c (rng_from hash seed p) = (number_at hash seed c p, rng_from hash seed (p + c))"
proof -
  obtain x r' where g: "get_bits hash c (rng_from hash seed p) = (x, r')" by fastforce
  have "rng_at hash p (rng_from hash seed p)" by (simp add: rng_at_from)
  from get_bits_stream [OF this g] have "r' = rng_from hash seed (p + c)" by (metis rng_at_from rng_seed_from)
  then show ?thesis by (simp add: number_at_def g)
qed

lemma draw_below_from: "draw_below hash c b (rng_from hash seed p) =
    (if number_at hash seed c p < b then Some (number_at hash seed c p, rng_from hash seed (p + c))
     else draw_below hash c b (rng_from hash seed (p + c)))"
  by (subst draw_below.simps) (simp add: get_bits_from Let_def)

definition first_below :: "block_hash \<Rightarrow> nat \<Rightarrow> nat \<Rightarrow> 64 word \<Rightarrow> nat \<Rightarrow> nat \<Rightarrow> bool" where
  "first_below hash seed c b p n \<longleftrightarrow> number_at hash seed c (p + n * c) < b \<and> (\<forall>m < n. b \<le> number_at hash seed c (p + m * c))"

lemma draw_below_returns:
  "first_below hash seed c b p n \<Longrightarrow>
     draw_below hash c b (rng_from hash seed p) = Some (number_at hash seed c (p + n * c), rng_from hash seed (p + Suc n * c))"
proof (induction n arbitrary: p)
  case 0
  then show ?case by (simp add: draw_below_from first_below_def)
next
  case (Suc n)
  from Suc.prems have "\<not> number_at hash seed c p < b" by (auto simp: first_below_def not_less dest: spec [of _ 0])
  moreover have "first_below hash seed c b (p + c) n"
    unfolding first_below_def
  proof (intro conjI allI impI)
    show "number_at hash seed c (p + c + n * c) < b" using Suc.prems by (simp add: first_below_def algebra_simps)
    fix m assume "m < n"
    then show "b \<le> number_at hash seed c (p + c + m * c)"
      using Suc.prems by (auto simp: first_below_def algebra_simps dest: spec [of _ "Suc m"])
  qed
  ultimately show ?case using Suc.IH [of "p + c"] by (simp add: draw_below_from [of _ _ _ _ p] algebra_simps)
qed

lemma draw_below_first:
  assumes "draw_below hash c b (rng_from hash seed p) = Some (x, r')"
  shows "\<exists>n. first_below hash seed c b p n"
proof -
  have "\<forall>p. rng_from hash seed p = s \<longrightarrow> (\<exists>n. first_below hash seed c b p n)" if d: "draw_below hash c b s = Some y" for s y
  proof (rule draw_below.raw_induct [where P = "\<lambda>hash c b s y. \<forall>p. rng_from hash seed p = s \<longrightarrow> (\<exists>n. first_below hash seed c b p n)",
        OF _ d], intro allI impI)
    fix f hash c b s y p
    assume ih: "\<And>hash c b s y. f hash c b s = Some y \<Longrightarrow> \<forall>p. rng_from hash seed p = s \<longrightarrow> (\<exists>n. first_below hash seed c b p n)"
      and step: "(let (result, r') = get_bits hash c s in if result < b then Some (result, r') else f hash c b r') = Some (y :: 64 word \<times> hash_ctr_rng)"
      and s: "rng_from hash seed p = s"
    show "\<exists>n. first_below hash seed c b p n"
    proof (cases "number_at hash seed c p < b")
      case True
      then show ?thesis by (intro exI [of _ 0]) (simp add: first_below_def)
    next
      case False
      with step have "f hash c b (rng_from hash seed (p + c)) = Some y" by (simp add: get_bits_from Let_def s [symmetric])
      from ih [OF this] obtain n where n: "first_below hash seed c b (p + c) n" by auto
      have "first_below hash seed c b p (Suc n)"
        unfolding first_below_def
      proof (intro conjI allI impI)
        show "number_at hash seed c (p + Suc n * c) < b" using n by (simp add: first_below_def algebra_simps)
        fix m assume "m < Suc n"
        then show "b \<le> number_at hash seed c (p + m * c)"
          using n False by (cases m) (auto simp: first_below_def algebra_simps)
      qed
      then show ?thesis by blast
    qed
  qed
  with assms show ?thesis by blast
qed

text \<open>
  A number below a bound is the first one in the stream, read in steps of as many bits as the bound
  has, that is below it; the draw returns exactly when there is such a number.
\<close>

theorem rng_number_first_below:
  assumes "1 < bound" "c = bit_length (unat bound)"
  shows "rng_number hash bound (rng_from hash seed p) = Some (x, r') \<longleftrightarrow>
    (\<exists>n. first_below hash seed c bound p n \<and> x = number_at hash seed c (p + n * c) \<and> x < bound \<and>
      r' = rng_from hash seed (p + Suc n * c))"
proof -
  have e: "rng_number hash bound (rng_from hash seed p) = draw_below hash c bound (rng_from hash seed p)"
    using assms(1) unfolding rng_number_def assms(2) by (metis leD)
  show ?thesis unfolding e
    using draw_below_returns draw_below_first by (fastforce simp: first_below_def)
qed

text \<open>Every number below the bound has no more bits than the bound, so each of them can be drawn.\<close>

lemma bit_length_bound: "n < 2 ^ bit_length n"
proof (induction n rule: bit_length.induct)
  case (1 n)
  then show ?case by (subst bit_length.simps) (auto simp: not_less)
qed


lemma rng_number_first_below_witness:
  "rng_number (\<lambda>_ _. 0xB7) 10 (rng_from (\<lambda>_ _. 0xB7) 5 0) = Some (7, rng_from (\<lambda>_ _. 0xB7) 5 4)"
proof -
  have b: "bit_length (unat (10 :: 64 word)) = 4" by (simp add: bit_length.simps)
  have n: "number_at (\<lambda>_ _. 0xB7) 5 4 0 = 7" by code_simp
  have "\<exists>k. first_below (\<lambda>_ _. 0xB7) 5 4 10 0 k \<and> 7 = number_at (\<lambda>_ _. 0xB7) 5 4 (0 + k * 4) \<and> (7 :: 64 word) < 10 \<and>
      rng_from (\<lambda>_ _. 0xB7) 5 4 = rng_from (\<lambda>_ _. 0xB7) 5 (0 + Suc k * 4)"
    by (rule exI [of _ 0]) (simp add: first_below_def n)
  then show ?thesis
    by (rule rng_number_first_below [THEN iffD2, rotated 2]) (simp_all only: b, simp)
qed

lemma get_bits_reads_stream_witness:
  "bit (fst (get_bits (\<lambda>_ _. 0xB7) 4 (rng_from (\<lambda>_ _. 0xB7) 5 254))) 3 \<longleftrightarrow> bit_stream (\<lambda>_ _. 0xB7) 5 257"
proof -
  obtain x r' where g: "get_bits (\<lambda>_ _. 0xB7) 4 (rng_from (\<lambda>_ _. 0xB7) 5 254) = (x, r')" by fastforce
  have "rng_at (\<lambda>_ _. 0xB7) 254 (rng_from (\<lambda>_ _. 0xB7) 5 254)" by (simp add: rng_at_from)
  from get_bits_reads_stream [OF this g] show ?thesis using g by simp
qed

subsection \<open>Shuffling permutes\<close>

lemma mset_swap_at: "i < length xs \<Longrightarrow> j < length xs \<Longrightarrow> mset (swap_at i j xs) = mset xs"
  unfolding swap_at_def by (rule mset_swap)

lemma mset_shuffle_from: "mset (shuffle_from rehash i randvalue ids) = mset ids"
proof (induction rehash i randvalue ids rule: shuffle_from.induct)
  case (1 rehash i randvalue ids)
  show ?case
  proof (cases "i < length ids")
    case True
    then have "i + hash_word randvalue (i mod rands_per_hash) mod (length ids - i) < length ids"
      by (metis add.commute less_diff_conv mod_less_divisor zero_less_diff)
    with True 1 show ?thesis by (subst shuffle_from.simps) (simp add: mset_swap_at)
  next
    case False
    then show ?thesis by (subst shuffle_from.simps) simp
  qed
qed

text \<open>
  Shuffling the witnesses of a round permutes them: none is lost, none scheduled twice, whatever
  the random number and the hash.
\<close>

theorem shuffle_vector_permutes: "mset (shuffle_vector rehash randvalue ids) = mset ids"
  by (simp add: shuffle_vector_def mset_shuffle_from)

subsection \<open>The schedule is fair\<close>

lemma scheduled_slot:
  assumes "0 < block_interval (parameters (gprops db))" "active_witnesses (gprops db) \<noteq> []"
    and "head_block_time db div block_interval (parameters (gprops db)) < s"
    and "s * block_interval (parameters (gprops db)) < 2 ^ 32" "0 \<le> s"
  shows "get_scheduled_witness (s * block_interval (parameters (gprops db))) db =
    Some (Some (s * block_interval (parameters (gprops db)),
      active_witnesses (gprops db) ! (nat s mod length (active_witnesses (gprops db)))))"
  using assms by (simp add: get_scheduled_witness_def Let_def fc_assert_def)

lemma unique_residue:
  assumes "i < n"
  shows "\<exists>!k. k < n \<and> (s + k) mod n = (i :: nat)"
proof -
  have close: "y = x" if "x \<le> y" "y < n" "(s + x) mod n = (s + y) mod n" for x y
  proof -
    have "n dvd y - x" using that(1,3) mod_eq_dvd_iff_nat [of "s + x" "s + y" n] by (simp add: eq_commute)
    moreover have "y - x < n" using that(2) by simp
    ultimately have "y - x = 0" using nat_dvd_not_less by blast
    with that(1) show ?thesis by simp
  qed
  have inj: "inj_on (\<lambda>k. (s + k) mod n) {..<n}"
  proof (rule inj_onI)
    fix x y assume xy: "x \<in> {..<n}" "y \<in> {..<n}" "(s + x) mod n = (s + y) mod n"
    show "x = y"
    proof (rule le_cases [of x y])
      assume "x \<le> y"
      from close [OF this _ xy(3)] xy(2) show "x = y" unfolding lessThan_iff by blast
    next
      assume "y \<le> x"
      from close [OF this _ xy(3) [symmetric]] xy(1) show "x = y" unfolding lessThan_iff by blast
    qed
  qed
  have "(\<lambda>k. (s + k) mod n) ` {..<n} = {..<n}"
  proof (rule card_subset_eq)
    show "(\<lambda>k. (s + k) mod n) ` {..<n} \<subseteq> {..<n}" using assms by auto
    show "card ((\<lambda>k. (s + k) mod n) ` {..<n}) = card {..<n}" by (rule card_image [OF inj])
  qed simp
  then have "i \<in> (\<lambda>k. (s + k) mod n) ` {..<n}" using assms by (simp only: lessThan_iff)
  then obtain k where k: "i = (s + k) mod n" "k \<in> {..<n}" by (rule imageE)
  show ?thesis
  proof (rule ex1I [of _ k])
    show "k < n \<and> (s + k) mod n = i" using k by (simp only: lessThan_iff simp_thms)
    fix j assume j: "j < n \<and> (s + j) mod n = i"
    show "j = k" by (rule inj_onD [OF inj _ _ k(2)]) (use j k(1) in \<open>simp_all only: lessThan_iff\<close>)
  qed
qed

text \<open>
  C9. The schedule is fair: of as many slots in a row as there are active witnesses, all after the head
  block, each active witness is scheduled for exactly one.
\<close>

theorem schedule_is_fair:
  assumes "interval = block_interval (parameters (gprops db))" "active = active_witnesses (gprops db)"
    and "0 < interval" "distinct active" "w \<in> set active"
    and "head_block_time db div interval < int s" "int (s + length active) * interval < 2 ^ 32"
  shows "\<exists>!k. k < length active \<and>
    get_scheduled_witness (int (s + k) * interval) db = Some (Some (int (s + k) * interval, w))"
proof -
  have e: "get_scheduled_witness (int (s + k) * interval) db =
      Some (Some (int (s + k) * interval, active ! ((s + k) mod length active)))" if "k < length active" for k
  proof -
    have "int (s + k) * interval \<le> int (s + length active) * interval" using that assms(3) by (intro mult_right_mono) auto
    then have "int (s + k) * interval < 2 ^ 32" using assms(7) by linarith
    moreover have "nat (int (s + k)) = s + k" by (rule nat_int)
    moreover have "active \<noteq> []" "head_block_time db div interval < int (s + k)" using assms(5,6) by auto
    ultimately show ?thesis using scheduled_slot [of db "int (s + k)"] assms(3) unfolding assms(1,2) by (simp only: of_nat_0_le_iff simp_thms)
  qed
  obtain i where i: "i < length active" "active ! i = w" using assms(5) by (metis in_set_conv_nth)
  have "(k < length active \<and> get_scheduled_witness (int (s + k) * interval) db = Some (Some (int (s + k) * interval, w))) \<longleftrightarrow>
      (k < length active \<and> (s + k) mod length active = i)" for k
  proof (cases "k < length active")
    case True
    then have "(s + k) mod length active < length active" by (intro mod_less_divisor) linarith
    with True e [OF True] show ?thesis using nth_eq_iff_index_eq [OF assms(4) _ i(1)] i(2) by auto
  qed simp
  then show ?thesis using unique_residue [OF i(1), of s] by presburger
qed


definition sample_round :: database where
  "sample_round = empty_database\<lparr>gprops := empty_global\<lparr>active_witnesses := [4, 7, 9]\<rparr>\<rparr>"

lemma schedule_is_fair_witness:
  "\<exists>!k. k < 3 \<and> get_scheduled_witness (int (10 + k) * 5) sample_round = Some (Some (int (10 + k) * 5, 7))"
proof -
  have l: "length [4, 7, 9 :: nat] = 3" by simp
  have "\<exists>!k. k < length [4, 7, 9 :: nat] \<and>
      get_scheduled_witness (int (10 + k) * 5) sample_round = Some (Some (int (10 + k) * 5, 7))"
    by (rule schedule_is_fair)
      (simp_all add: sample_round_def empty_global_def empty_database_def empty_dynamic_def head_block_time_def default_parameters_def)
  then show ?thesis unfolding l .
qed

end
