(* ===== verification/Voting.thy ===== *)
theory Voting
  imports Schedule Ledger Feeds
begin

section \<open>Elections\<close>

text \<open>
  Models \<open>update_vote_totals\<close>, \<open>update_active_witnesses\<close> and \<open>update_active_delegates\<close> of
  \<^verbatim>\<open>libraries/chain/database.cpp\<close> with \<open>sort_votable_objects\<close> of \<^verbatim>\<open>database.hpp\<close>. At a maintenance every
  account's core asset votes for what its account, or the account it delegates to, has chosen: for
  witnesses, delegates and workers, and for how many witnesses and delegates there should be. The
  tallies are 64-bit unsigned numbers. The buffers are cleared after each maintenance, so they are
  values here; \<open>std::partial_sort\<close> is a stable sort, one of the results it may give.
\<close>

definition BTS_MIN_WITNESS_COUNT :: nat where "BTS_MIN_WITNESS_COUNT = 10"
definition BTS_MIN_DELEGATE_COUNT :: nat where "BTS_MIN_DELEGATE_COUNT = 10"

record vote_totals =
  vote_tally :: "int list"
  witness_histogram :: "int list"
  committee_histogram :: "int list"
  total_voting_stake :: int

subsection \<open>Counting votes\<close>

definition no_votes :: "database \<Rightarrow> vote_totals" where
  "no_votes d = (let p = gprops d in
     \<lparr>vote_tally = replicate (nat (next_available_vote_id p)) 0,
      witness_histogram = replicate (nat (maximum_witness_count (parameters p) div 2 + 1)) 0,
      committee_histogram = replicate (nat (maximum_committee_count (parameters p) div 2 + 1)) 0,
      total_voting_stake = 0\<rparr>)"

definition add_at :: "nat \<Rightarrow> int \<Rightarrow> int list \<Rightarrow> int list" where
  "add_at i x xs = xs[i := uint64 (xs ! i + x)]"

definition opinion_account :: "account_object \<Rightarrow> database \<Rightarrow> account_object option" where
  "opinion_account a d = (if acct_voting_account a = 0 then Some a else get_object (accounts d) (acct_voting_account a))"

definition voting_stake :: "nat \<Rightarrow> account_object \<Rightarrow> database \<Rightarrow> int option" where
  "voting_stake i a d = do {
     stats \<leftarrow> get_object (statistics d) (acct_statistics a);
     cashback \<leftarrow> (case acct_cashback_vb a of None \<Rightarrow> Some 0
       | Some b \<Rightarrow> do { v \<leftarrow> get_object (vestings d) b; Some (amount (vb_balance v)) });
     Some (uint64 (st_total_core_in_orders stats + cashback + amount (get_balance i 0 d))) }"

definition count_vote :: "int \<Rightarrow> vote_id_type \<Rightarrow> int list \<Rightarrow> int list" where
  "count_vote stake v tally = (let offset = unat (vote_instance v) in
     if offset < length tally then add_at offset stake tally else tally)"

definition count_wish :: "int \<Rightarrow> int \<Rightarrow> int \<Rightarrow> int list \<Rightarrow> int list" where
  "count_wish stake n maximum histogram =
     (if n \<le> maximum then add_at (min (nat (n div 2)) (length histogram - 1)) stake histogram else histogram)"

definition count_account :: "database \<Rightarrow> nat \<times> account_object \<Rightarrow> vote_totals \<Rightarrow> vote_totals option" where
  "count_account d e t = (case e of (i, a) \<Rightarrow>
     if count_non_prime_votes (parameters (gprops d)) \<or> is_prime i a then do {
       opinion \<leftarrow> opinion_account a d;
       stake \<leftarrow> voting_stake i a d;
       Some \<lparr>vote_tally = fold (count_vote stake) (acct_votes opinion) (vote_tally t),
         witness_histogram = count_wish stake (acct_num_witness opinion) (maximum_witness_count (parameters (gprops d)))
           (witness_histogram t),
         committee_histogram = count_wish stake (acct_num_committee opinion) (maximum_committee_count (parameters (gprops d)))
           (committee_histogram t),
         total_voting_stake = uint64 (total_voting_stake t + stake)\<rparr> }
     else Some t)"

definition update_vote_totals :: "database \<Rightarrow> vote_totals option" where
  "update_vote_totals d = fold_opt (count_account d) (entries (accounts d)) (no_votes d)"

definition sort_votable_objects :: "('a \<Rightarrow> vote_id_type) \<Rightarrow> int list \<Rightarrow> nat \<Rightarrow> 'a table \<Rightarrow> (nat \<times> 'a) list" where
  "sort_votable_objects v tally n t =
     take (min n (length (entries t)))
       (sort_by (\<lambda>x y. tally_at tally (v (snd x)) > tally_at tally (v (snd y))) (entries t))"

subsection \<open>How many\<close>

text \<open>
  The loop that adds up the histogram until more than half of the stake is reached reads past its end when
  the wishes counted make up no more than half, which has no result.
\<close>

function median_from :: "(int \<Rightarrow> int option) \<Rightarrow> int \<Rightarrow> int list \<Rightarrow> int \<Rightarrow> nat \<Rightarrow> nat option" where
  "median_from add target hist tally k =
     (if k < length hist \<and> tally \<le> target then
        (if k + 1 < length hist then do { t \<leftarrow> add (tally + hist ! (k + 1)); median_from add target hist t (k + 1) } else None)
      else Some k)"
  by pat_completeness auto
termination by (relation "measure (\<lambda>(_, _, hist, _, k). length hist - k)") auto

declare median_from.simps [simp del]

definition witness_count_wanted :: "vote_totals \<Rightarrow> nat option" where
  "witness_count_wanted t = median_from share (total_voting_stake t div 2) (witness_histogram t) (int64 (witness_histogram t ! 0)) 0"

definition delegate_count_wanted :: "vote_totals \<Rightarrow> nat option" where
  "delegate_count_wanted t =
     median_from (\<lambda>x. Some (uint64 x)) (total_voting_stake t div 2) (committee_histogram t) (committee_histogram t ! 0) 0"

subsection \<open>Who\<close>

definition update_active_witnesses :: "(nat \<Rightarrow> nat) \<Rightarrow> vote_totals \<Rightarrow> database \<Rightarrow> database option" where
  "update_active_witnesses rehash t d = do {
     k \<leftarrow> witness_count_wanted t;
     let wits = shuffle_vector rehash (random (dprops d))
       (sort_votable_objects wit_vote_id (vote_tally t) (max (k * 2 + 1) BTS_MIN_WITNESS_COUNT) (witnesses d));
     Some (d\<lparr>gprops := (gprops d)\<lparr>active_witnesses := map fst wits,
       witness_accounts := fold (\<lambda>w. fs_insert (wit_witness_account (snd w))) wits []\<rparr>\<rparr>) }"

text \<open>
  The weight of a delegate keeps the upper 16 bits of the votes, counted from the highest bit of their
  sum; \<open>__builtin_clzll\<close> is undefined for 0, where any result drops no more bits than there are.
\<close>

definition delegate_weights :: "int list \<Rightarrow> (nat \<times> delegate_object) list \<Rightarrow> (account_id_type \<times> int) list" where
  "delegate_weights tally dels = fold (\<lambda>(_, del) ws.
     if del_delegate_account del \<in> fst ` set ws then ws
     else fm_put (del_delegate_account del) (tally_at tally (del_vote_id del)) ws) dels []"

definition delegate_total :: "int list \<Rightarrow> (nat \<times> delegate_object) list \<Rightarrow> int" where
  "delegate_total tally dels = fold (\<lambda>(_, del) t. uint64 (t + tally_at tally (del_vote_id del))) dels 0"

definition add_weight :: "nat \<Rightarrow> account_id_type \<times> int \<Rightarrow> authority \<Rightarrow> authority" where
  "add_weight bits_to_drop w a = (let
     votes = uint16 (max (snd w div 2 ^ bits_to_drop) 1);
     old = (case map_of (auths a) (account_oid (fst w)) of None \<Rightarrow> 0 | Some x \<Rightarrow> x) in
     \<lparr>weight_threshold = uint32 (weight_threshold a + votes),
      auths = fm_put (account_oid (fst w)) (uint16 (old + votes)) (auths a)\<rparr>)"

definition genesis_authority :: "int list \<Rightarrow> (nat \<times> delegate_object) list \<Rightarrow> authority" where
  "genesis_authority tally dels = (let
     bits_to_drop = bit_length (nat (delegate_total tally dels)) - 16;
     a = fold (add_weight bits_to_drop) (delegate_weights tally dels) null_authority in
     a\<lparr>weight_threshold := uint32 (weight_threshold a div 2 + 1)\<rparr>)"

definition update_active_delegates :: "vote_totals \<Rightarrow> database \<Rightarrow> database option" where
  "update_active_delegates t d = do {
     k \<leftarrow> delegate_count_wanted t;
     let dels = sort_votable_objects del_vote_id (vote_tally t) (max (k * 2 + 1) BTS_MIN_DELEGATE_COUNT) (delegates d);
     accts \<leftarrow> (if dels \<noteq> [] then modify_object 0 (\<lambda>a. let auth = genesis_authority (vote_tally t) dels in
                 Some (a\<lparr>acct_owner := auth, acct_active := auth\<rparr>)) (accounts d)
               else Some (accounts d));
     Some (d\<lparr>accounts := accts, gprops := (gprops d)\<lparr>active_delegates := map fst dels\<rparr>\<rparr>) }"


subsection \<open>Every stake counts once\<close>

text \<open>The reference: the accounts that vote, whose opinion counts and with what stake.\<close>

definition stake_of :: "database \<Rightarrow> nat \<times> account_object \<Rightarrow> int" where
  "stake_of d e = the (voting_stake (fst e) (snd e) d)"

definition votes_for :: "database \<Rightarrow> nat \<Rightarrow> nat \<times> account_object \<Rightarrow> int" where
  "votes_for d v e = int (length (filter (\<lambda>x. unat (vote_instance x) = v) (acct_votes (the (opinion_account (snd e) d)))))"

lemma uint64_add: "uint64 (uint64 x + y) = uint64 (x + y)"
  by (simp add: uint64_def mod_add_left_eq)

lemma uint64_uint64: "uint64 (uint64 x) = uint64 x"
  by (simp add: uint64_def)

lemma length_count_vote [simp]: "length (count_vote s v tally) = length tally"
  by (simp add: count_vote_def add_at_def Let_def)

lemma length_count_votes [simp]: "length (fold (count_vote s) vs tally) = length tally"
  by (induction vs arbitrary: tally) simp_all

lemma nth_count_vote:
  "i < length tally \<Longrightarrow> count_vote s v tally ! i = (if unat (vote_instance v) = i then uint64 (tally ! i + s) else tally ! i)"
  by (auto simp: count_vote_def add_at_def Let_def nth_list_update)

lemma nth_count_votes:
  assumes "i < length tally" "uint64 (tally ! i) = tally ! i"
  shows "fold (count_vote s) vs tally ! i =
    uint64 (tally ! i + int (length (filter (\<lambda>v. unat (vote_instance v) = i) vs)) * s)"
  using assms
proof (induction vs arbitrary: tally)
  case (Cons v vs)
  then show ?case using Cons.IH [of "count_vote s v tally"]
    by (auto simp: nth_count_vote uint64_add uint64_uint64 algebra_simps)
qed simp

definition votes_in :: "database \<Rightarrow> nat \<times> account_object \<Rightarrow> bool" where
  "votes_in d e \<longleftrightarrow> count_non_prime_votes (parameters (gprops d)) \<or> is_prime (fst e) (snd e)"

lemma count_account_Some:
  assumes "count_account d e t = Some t'"
  shows "votes_in d e \<Longrightarrow> total_voting_stake t' = uint64 (total_voting_stake t + stake_of d e)"
    "votes_in d e \<Longrightarrow> vote_tally t' = fold (count_vote (stake_of d e)) (acct_votes (the (opinion_account (snd e) d))) (vote_tally t)"
    "\<not> votes_in d e \<Longrightarrow> t' = t"
  using assms by (auto simp: count_account_def votes_in_def stake_of_def bind_eq_Some_conv split: prod.splits if_splits)

lemma count_accounts_Some:
  assumes "fold_opt (count_account d) es t = Some t'" "uint64 (total_voting_stake t) = total_voting_stake t"
    and "v < length (vote_tally t)" "uint64 (vote_tally t ! v) = vote_tally t ! v"
  shows "total_voting_stake t' = uint64 (total_voting_stake t + (\<Sum>e \<leftarrow> filter (votes_in d) es. stake_of d e)) \<and>
    length (vote_tally t') = length (vote_tally t) \<and>
    vote_tally t' ! v = uint64 (vote_tally t ! v + (\<Sum>e \<leftarrow> filter (votes_in d) es. votes_for d v e * stake_of d e))"
  using assms
proof (induction es arbitrary: t)
  case (Cons e es)
  obtain t1 where t1: "count_account d e t = Some t1" "fold_opt (count_account d) es t1 = Some t'"
    using Cons.prems(1) by (auto simp: bind_eq_Some_conv)
  show ?case
  proof (cases "votes_in d e")
    case True
    note c = count_account_Some(1,2) [OF t1(1) True]
    have "uint64 (total_voting_stake t1) = total_voting_stake t1" "v < length (vote_tally t1)"
      "uint64 (vote_tally t1 ! v) = vote_tally t1 ! v"
      using Cons.prems by (simp_all add: c uint64_uint64 nth_count_votes)
    from Cons.IH [OF t1(2) this] True show ?thesis
      using Cons.prems by (simp add: c nth_count_votes uint64_add votes_for_def algebra_simps)
  next
    case False
    with Cons.IH [OF t1(2)] Cons.prems count_account_Some(3) [OF t1(1) False] show ?thesis by simp
  qed
qed simp

text \<open>
  Every account that may vote is counted exactly once: the total stake is the sum of the stakes, and
  the tally of a vote id is the sum of the stakes of those whose opinion names it, as 64-bit numbers.
\<close>

theorem vote_totals_count:
  assumes "update_vote_totals d = Some t" "v < nat (next_available_vote_id (gprops d))"
  shows "total_voting_stake t = uint64 (\<Sum>e \<leftarrow> filter (votes_in d) (entries (accounts d)). stake_of d e) \<and>
    vote_tally t ! v = uint64 (\<Sum>e \<leftarrow> filter (votes_in d) (entries (accounts d)). votes_for d v e * stake_of d e)"
  using count_accounts_Some [OF assms(1) [unfolded update_vote_totals_def], of v] assms(2)
  by (simp add: no_votes_def Let_def)

subsection \<open>The number of witnesses is a median\<close>

lemma median_from_bound:
  assumes "\<forall>x \<in> set hist. 0 \<le> x" "sum_list hist < 2 ^ 63" "target < sum_list hist" "k < length hist"
    and "\<forall>j \<le> k. sum_list (take j hist) \<le> target" "0 \<le> target"
  shows "\<exists>m. median_from share target hist (sum_list (take (k + 1) hist)) k = Some m \<and> m < length hist \<and>
    target < sum_list (take (m + 1) hist) \<and> (\<forall>j \<le> m. sum_list (take j hist) \<le> target)"
  using assms(4,5)
proof (induction "length hist - k" arbitrary: k)
  case 0
  then show ?case by simp
next
  case (Suc x)
  let ?t = "sum_list (take (k + 1) hist)"
  show ?case
  proof (cases "?t \<le> target")
    case False
    then show ?thesis using Suc.prems by (subst median_from.simps) auto
  next
    case True
    have more: "k + 1 < length hist"
    proof (rule ccontr)
      assume "\<not> k + 1 < length hist"
      then have "?t = sum_list hist" by simp
      with True assms(3) show False by simp
    qed
    have nt: "?t + hist ! (k + 1) = sum_list (take (k + 1 + 1) hist)"
      using take_Suc_conv_app_nth [OF more] by simp
    have pre: "0 \<le> sum_list (take j hist) \<and> sum_list (take j hist) \<le> sum_list hist" for j
    proof -
      have "sum_list hist = sum_list (take j hist) + sum_list (drop j hist)"
        by (metis append_take_drop_id sum_list_append)
      moreover have "0 \<le> sum_list (take j hist)" "0 \<le> sum_list (drop j hist)"
        using assms(1) by (auto intro!: sum_list_nonneg dest: in_set_takeD in_set_dropD)
      ultimately show ?thesis by simp
    qed
    have ok: "int64_ok (?t + hist ! (k + 1))" unfolding nt using pre [of "k + 1 + 1"] assms(2) by (simp add: int64_ok_def)
    have "median_from share target hist ?t k = median_from share target hist (?t + hist ! (k + 1)) (k + 1)"
      using Suc.prems(1) True more ok by (subst median_from.simps) (simp add: share_def)
    moreover have "\<forall>j \<le> k + 1. sum_list (take j hist) \<le> target" using Suc.prems(2) True by (auto simp: le_Suc_eq)
    ultimately show ?thesis using Suc.hyps(1) [of "k + 1"] Suc.hyps(2) more unfolding nt by auto
  qed
qed

text \<open>
  If the wishes that are counted make up more than half of the stake, the loop that adds them up ends
  within the histogram, at the median: the least entry by which more than half of the stake wishes for no
  more than this.
\<close>

theorem witness_count_is_median:
  assumes "hist = witness_histogram t" "half = total_voting_stake t div 2" "\<forall>x \<in> set hist. 0 \<le> x" "hist \<noteq> []"
    and "0 \<le> half" "half < sum_list hist" "sum_list hist < 2 ^ 63"
  shows "\<exists>k < length hist. witness_count_wanted t = Some k \<and> half < sum_list (take (k + 1) hist) \<and>
    (\<forall>j \<le> k. sum_list (take j hist) \<le> half)"
proof -
  obtain x xs where h: "hist = x # xs" using assms(4) by (cases hist) auto
  have "0 \<le> sum_list xs" using assms(3) h by (auto intro: sum_list_nonneg)
  then have "int64 (hist ! 0) = sum_list (take (0 + 1) hist)" using assms(3,7) h by (simp add: int64_ok_def)
  then show ?thesis
    using median_from_bound [of hist half 0] assms(3-7) unfolding witness_count_wanted_def assms(1,2) by auto
qed


subsection \<open>The genesis authority is a strict majority\<close>

lemma mset_fm_put: "k \<notin> fst ` set xs \<Longrightarrow> mset (fm_put k v xs) = add_mset (k, v) (mset xs)"
  by (induction xs) auto

lemma fm_put_new:
  assumes "k \<notin> fst ` set xs"
  shows "sum_list (map snd (fm_put k v xs)) = sum_list (map snd xs) + (v :: int)" "length (fm_put k v xs) = Suc (length xs)"
    "set (fm_put k v xs) = insert (k, v) (set xs)" "distinct (map fst (fm_put k v xs)) = distinct (map fst xs)"
proof -
  note m = mset_fm_put [OF assms, of v]
  from m have "mset (fm_put k v xs) = mset ((k, v) # xs)" by simp
  from mset_eq_setD [OF this] mset_eq_length [OF this] arg_cong [OF this, of "image_mset fst"] arg_cong [OF this, of "image_mset snd"]
  have e: "set (fm_put k v xs) = set ((k, v) # xs)" "length (fm_put k v xs) = length ((k, v) # xs)"
    "mset (map fst (fm_put k v xs)) = mset (map fst ((k, v) # xs))" "mset (map snd (fm_put k v xs)) = mset (map snd ((k, v) # xs))"
    by (simp_all only: mset_map)
  show "sum_list (map snd (fm_put k v xs)) = sum_list (map snd xs) + (v :: int)"
    using arg_cong [OF e(4), of sum_mset] unfolding sum_mset_sum_list by simp
  show "length (fm_put k v xs) = Suc (length xs)" "set (fm_put k v xs) = insert (k, v) (set xs)" using e(1,2) by simp_all
  show "distinct (map fst (fm_put k v xs)) = distinct (map fst xs)" using mset_eq_imp_distinct_iff [OF e(3)] assms by auto
qed

lemma sum_list_upper: "\<forall>x \<in> set xs. x \<le> c \<Longrightarrow> sum_list xs \<le> int (length xs) * c"
  by (induction xs) (auto simp: algebra_simps)

definition weights_from :: "int list \<Rightarrow> (nat \<times> delegate_object) list \<Rightarrow> (account_id_type \<times> int) list \<Rightarrow> bool" where
  "weights_from tally dels ws \<longleftrightarrow> distinct (map fst ws) \<and> fst ` set ws = (del_delegate_account \<circ> snd) ` set dels \<and>
     length ws \<le> length dels \<and> snd ` set ws \<subseteq> (\<lambda>del. tally_at tally (del_vote_id (snd del))) ` set dels"

lemma delegate_weights_from: "weights_from tally dels (delegate_weights tally dels)"
proof (induction dels rule: rev_induct)
  case Nil
  then show ?case by (simp add: weights_from_def delegate_weights_def)
next
  case (snoc x xs)
  obtain i del where x: "x = (i, del)" by fastforce
  let ?ws = "delegate_weights tally xs"
  have e: "delegate_weights tally (xs @ [x]) = (if del_delegate_account del \<in> fst ` set ?ws then ?ws
      else fm_put (del_delegate_account del) (tally_at tally (del_vote_id del)) ?ws)"
    by (simp add: delegate_weights_def x)
  show ?case
  proof (cases "del_delegate_account del \<in> fst ` set ?ws")
    case True
    then show ?thesis using snoc unfolding e by (auto simp: weights_from_def x)
  next
    case False
    then show ?thesis using snoc unfolding e by (auto simp: weights_from_def x fm_put_new)
  qed
qed

lemma delegate_total_sum:
  assumes "\<forall>x \<in> set tally. 0 \<le> x" "(\<Sum>del \<leftarrow> dels. tally_at tally (del_vote_id (snd del))) < 2 ^ 64"
  shows "delegate_total tally dels = (\<Sum>del \<leftarrow> dels. tally_at tally (del_vote_id (snd del)))"
  using assms(2)
proof (induction dels rule: rev_induct)
  case Nil
  then show ?case by (simp add: delegate_total_def)
next
  case (snoc x xs)
  have n: "0 \<le> tally_at tally v" for v using assms(1) by (simp add: tally_at_def Let_def)
  then have "0 \<le> (\<Sum>del \<leftarrow> xs. tally_at tally (del_vote_id (snd del)))" by (intro sum_list_nonneg) auto
  with snoc n [of "del_vote_id (snd x)"] show ?case by (simp add: delegate_total_def split_beta)
qed

text \<open>Every weight is positive and fits in 16 bits, and the threshold adds up the weights.\<close>

lemma add_weights:
  assumes "distinct (map fst ws)" "\<forall>w \<in> set ws. 0 \<le> snd w \<and> snd w div 2 ^ k < 2 ^ 16" "length ws \<le> 2 ^ 16"
  shows "auths (fold (add_weight k) ws null_authority) = a \<Longrightarrow>
    weight_threshold (fold (add_weight k) ws null_authority) = sum_list (map snd a) \<and>
    fst ` set a = account_oid ` fst ` set ws \<and> (\<forall>w \<in> snd ` set a. 1 \<le> w \<and> w < 2 ^ 16) \<and> length a = length ws \<and>
    distinct (map fst a)"
  using assms
proof (induction ws arbitrary: a rule: rev_induct)
  case Nil
  then show ?case by (simp add: null_authority_def)
next
  case (snoc w ws)
  define b where "b = fold (add_weight k) ws null_authority"
  define v where "v = max (snd w div 2 ^ k) 1"
  have ih: "weight_threshold b = sum_list (map snd (auths b))" "fst ` set (auths b) = account_oid ` fst ` set ws"
    "\<forall>w \<in> snd ` set (auths b). 1 \<le> w \<and> w < 2 ^ 16" "length (auths b) = length ws" "distinct (map fst (auths b))"
    using snoc.IH [OF b_def [THEN arg_cong, of auths, symmetric]] snoc.prems(2-4) by (auto simp: b_def)
  have v: "1 \<le> v" "v < 2 ^ 16" using snoc.prems(3) by (auto simp: v_def)
  then have v16: "uint16 v = v" by simp
  have new: "account_oid (fst w) \<notin> fst ` set (auths b)" using snoc.prems(2) ih(2) by (auto simp: account_oid_def)
  then have none: "map_of (auths b) (account_oid (fst w)) = None" by (simp add: map_of_eq_None_iff)
  have small: "sum_list (map snd (auths b)) \<le> int (length ws) * (2 ^ 16 - 1)"
    using sum_list_upper [of "map snd (auths b)" "2 ^ 16 - 1"] ih(3,4) by force
  have nonneg: "0 \<le> sum_list (map snd (auths b))" using ih(3) by (intro sum_list_nonneg) force
  have "int (length ws) * (2 ^ 16 - 1) + v < 2 ^ 32"
  proof -
    have "int (length ws) * (2 ^ 16 - 1) \<le> (2 ^ 16 - 1) * (2 ^ 16 - 1)" using snoc.prems(4) by (intro mult_right_mono) auto
    with v show ?thesis by simp
  qed
  with small nonneg v have thr: "uint32 (sum_list (map snd (auths b)) + v) = sum_list (map snd (auths b)) + v" by simp
  have "fold (add_weight k) (ws @ [w]) null_authority =
      \<lparr>weight_threshold = sum_list (map snd (auths b)) + v, auths = fm_put (account_oid (fst w)) v (auths b)\<rparr>"
    by (simp add: b_def [symmetric] add_weight_def Let_def none v_def [symmetric] v16 ih(1) thr)
  then show ?case using snoc.prems(1) fm_put_new [OF new, of v] ih v by auto
qed


lemma bit_shift_bound:
  assumes "0 \<le> w" "w \<le> votes"
  shows "w div 2 ^ (bit_length (nat votes) - 16) < 2 ^ 16"
proof -
  let ?b = "bit_length (nat votes)"
  have "nat votes < 2 ^ ?b" by (rule bit_length_bound)
  then have t: "w < 2 ^ ?b" using assms by (metis nat_less_numeral_power_cancel_iff order.trans leD not_le)
  show ?thesis
  proof (cases "16 \<le> ?b")
    case True
    then have "(2 :: int) ^ ?b = 2 ^ 16 * 2 ^ (?b - 16)" using power_add [of "2 :: int" 16 "?b - 16"] by simp
    with t have less: "w < 2 ^ 16 * 2 ^ (?b - 16)" by simp
    show ?thesis
    proof (rule ccontr)
      assume "\<not> w div 2 ^ (?b - 16) < 2 ^ 16"
      then have "2 ^ 16 * 2 ^ (?b - 16) \<le> w div 2 ^ (?b - 16) * 2 ^ (?b - 16)" by (intro mult_right_mono) auto
      also have "\<dots> \<le> w" by (simp add: minus_mod_eq_div_mult [symmetric])
      finally show False using less by simp
    qed
  next
    case False
    then have "(2 :: int) ^ ?b \<le> 2 ^ 16" by (intro power_increasing) auto
    with t False show ?thesis by simp
  qed
qed

text \<open>
  C11. After an election the genesis account belongs to the delegates elected: its owner and active
  authority have exactly their accounts, each with a weight of at least one, and more than half of the
  weight, though never more than all of it, must sign.
\<close>

theorem genesis_authority_majority:
  assumes "update_active_delegates t d = Some d'" "delegate_count_wanted t = Some k"
    and "dels = sort_votable_objects del_vote_id (vote_tally t) (max (k * 2 + 1) BTS_MIN_DELEGATE_COUNT) (delegates d)"
    and "dels \<noteq> []" "\<forall>x \<in> set (vote_tally t). 0 \<le> x" "length dels \<le> 2 ^ 16"
    and "(\<Sum>del \<leftarrow> dels. tally_at (vote_tally t) (del_vote_id (snd del))) < 2 ^ 64"
  shows "\<exists>a. gi_find (accounts d') 0 = Some a \<and> acct_active a = acct_owner a \<and>
    fst ` set (auths (acct_owner a)) = account_oid ` (del_delegate_account \<circ> snd) ` set dels \<and>
    (\<forall>w \<in> snd ` set (auths (acct_owner a)). 1 \<le> w) \<and>
    sum_list (map snd (auths (acct_owner a))) < 2 * weight_threshold (acct_owner a) \<and>
    weight_threshold (acct_owner a) \<le> sum_list (map snd (auths (acct_owner a)))"
proof -
  let ?tally = "vote_tally t"
  let ?w = "delegate_weights ?tally dels" and ?total = "delegate_total ?tally dels"
  let ?b = "bit_length (nat ?total) - 16"
  define s where "s = fold (add_weight ?b) ?w null_authority"
  have wf: "weights_from ?tally dels ?w" by (rule delegate_weights_from)
  have n: "0 \<le> tally_at ?tally v" for v using assms(5) by (simp add: tally_at_def Let_def)
  have small: "0 \<le> snd w \<and> snd w div 2 ^ ?b < 2 ^ 16" if "w \<in> set ?w" for w
  proof -
    have "snd w \<in> (\<lambda>del. tally_at ?tally (del_vote_id (snd del))) ` set dels"
      using wf that unfolding weights_from_def by blast
    then obtain del where del: "del \<in> set dels" "snd w = tally_at ?tally (del_vote_id (snd del))" by blast
    have "snd w \<le> (\<Sum>del \<leftarrow> dels. tally_at ?tally (del_vote_id (snd del)))"
      unfolding del(2) by (rule member_le_sum_list) (use del(1) n in auto)
    then show ?thesis using bit_shift_bound [of "snd w" ?total] n del(2)
      unfolding delegate_total_sum [OF assms(5,7)] by simp
  qed
  have w: "weight_threshold s = sum_list (map snd (auths s))" "fst ` set (auths s) = account_oid ` fst ` set ?w"
    "\<forall>w \<in> snd ` set (auths s). 1 \<le> w \<and> w < 2 ^ 16" "length (auths s) = length ?w"
    using add_weights [of ?w ?b "auths s"] wf small assms(6) by (auto simp: weights_from_def s_def)
  have "?w \<noteq> []" using wf assms(4) by (auto simp: weights_from_def)
  then obtain x xs where x: "auths s = x # xs" using w(4) by (cases "auths s") auto
  have "0 \<le> sum_list (map snd xs)" using w(3) unfolding x by (intro sum_list_nonneg) force
  then have one: "1 \<le> sum_list (map snd (auths s))" using w(3) unfolding x by auto
  have "sum_list (map snd (auths s)) \<le> int (length (auths s)) * (2 ^ 16 - 1)"
    using sum_list_upper [of "map snd (auths s)" "2 ^ 16 - 1"] w(3) by force
  also have "\<dots> \<le> 2 ^ 16 * (2 ^ 16 - 1)"
    using w(4) wf assms(6) by (intro mult_right_mono) (auto simp: weights_from_def)
  finally have big: "sum_list (map snd (auths s)) < 2 ^ 32" by simp
  have g: "genesis_authority ?tally dels = s\<lparr>weight_threshold := sum_list (map snd (auths s)) div 2 + 1\<rparr>"
    using one big by (simp add: genesis_authority_def Let_def s_def [symmetric] w(1))
  obtain a where a: "gi_find (accounts d) 0 = Some a"
    "gi_find (accounts d') 0 = Some (a\<lparr>acct_owner := genesis_authority ?tally dels, acct_active := genesis_authority ?tally dels\<rparr>)"
    using assms(1,4) unfolding update_active_delegates_def assms(2) Let_def Option.bind.bind_lunit assms(3) [symmetric]
    by (auto simp: modify_object_Some bind_eq_Some_conv gi_find_modify)
  have "fst ` set ?w = (del_delegate_account \<circ> snd) ` set dels" using wf by (simp add: weights_from_def)
  then show ?thesis using a(2) w(2,3) one unfolding g by (auto simp: image_image)
qed


subsection \<open>An election\<close>

definition sample_election :: database where
  "sample_election = sample_database\<lparr>
     accounts := table_of [sample_account 0 ''committee'',
       (sample_account 1 ''alice'')\<lparr>acct_referrer := 1, acct_num_committee := 2, acct_num_witness := 2,
          acct_votes := [make_vote_id committee 0, make_vote_id witness 1]\<rparr>,
       (sample_account 2 ''bob'')\<lparr>acct_voting_account := 1\<rparr>],
     delegates := table_of [\<lparr>del_delegate_account = 1, del_vote_id = make_vote_id committee 0\<rparr>,
       \<lparr>del_delegate_account = 2, del_vote_id = make_vote_id committee 2\<rparr>],
     gprops := empty_global\<lparr>next_available_vote_id := 3\<rparr>\<rparr>"

definition sample_totals :: vote_totals where
  "sample_totals = \<lparr>vote_tally = [20, 20, 0], witness_histogram = [500, 0, 2000, 100],
     committee_histogram = [0, 20], total_voting_stake = 20\<rparr>"

lemma vote_totals_count_witness:
  "map_option (\<lambda>t. vote_tally t ! 0) (update_vote_totals sample_election) =
     Some (uint64 (\<Sum>e \<leftarrow> filter (votes_in sample_election) (entries (accounts sample_election)).
       votes_for sample_election 0 e * stake_of sample_election e))"
proof -
  have "map_option (\<lambda>_. ()) (update_vote_totals sample_election) = Some ()" by code_simp
  then obtain t where t: "update_vote_totals sample_election = Some t" by auto
  have v: "0 < nat (next_available_vote_id (gprops sample_election))" by (simp add: sample_election_def)
  show ?thesis using vote_totals_count [OF t v] t by simp
qed

lemma witness_count_is_median_witness:
  "\<exists>k < 4. witness_count_wanted (sample_totals\<lparr>total_voting_stake := 2600\<rparr>) = Some k \<and>
     1300 < sum_list (take (k + 1) [500, 0, 2000, 100 :: int])"
  using witness_count_is_median [of "[500, 0, 2000, 100]" "sample_totals\<lparr>total_voting_stake := 2600\<rparr>" 1300]
  by (auto simp: sample_totals_def)

lemma genesis_authority_majority_witness:
  "map_option (\<lambda>d'. map_option (\<lambda>a. sum_list (map snd (auths (acct_owner a))) < 2 * weight_threshold (acct_owner a))
       (gi_find (accounts d') 0)) (update_active_delegates sample_totals sample_election) = Some (Some True)"
proof -
  have "map_option (\<lambda>_. ()) (update_active_delegates sample_totals sample_election) = Some ()" by code_simp
  then obtain d' where d': "update_active_delegates sample_totals sample_election = Some d'" by auto
  have k: "delegate_count_wanted sample_totals = Some 1" by code_simp
  have dels: "[(0, \<lparr>del_delegate_account = 1, del_vote_id = make_vote_id committee 0\<rparr>),
       (1, \<lparr>del_delegate_account = 2, del_vote_id = make_vote_id committee 2\<rparr>)] =
     sort_votable_objects del_vote_id (vote_tally sample_totals) (max (1 * 2 + 1) BTS_MIN_DELEGATE_COUNT) (delegates sample_election)"
    by code_simp
  have t: "tally_at (vote_tally sample_totals) (make_vote_id committee 0) = 20"
    "tally_at (vote_tally sample_totals) (make_vote_id committee 2) = 0" by code_simp+
  have n: "\<forall>x \<in> set (vote_tally sample_totals). 0 \<le> x" by (simp add: sample_totals_def)
  have ne: "[(0 :: nat, \<lparr>del_delegate_account = 1, del_vote_id = make_vote_id committee 0\<rparr>),
       (1, \<lparr>del_delegate_account = 2, del_vote_id = make_vote_id committee 2\<rparr>)] \<noteq> []" by (rule list.distinct)
  have len: "length [(0 :: nat, \<lparr>del_delegate_account = 1, del_vote_id = make_vote_id committee 0\<rparr>),
       (1, \<lparr>del_delegate_account = 2, del_vote_id = make_vote_id committee 2\<rparr>)] \<le> 2 ^ 16"
    unfolding list.size by (rule order.trans [of _ 2]) simp_all
  have sum: "(\<Sum>del \<leftarrow> [(0 :: nat, \<lparr>del_delegate_account = 1, del_vote_id = make_vote_id committee 0\<rparr>),
       (1, \<lparr>del_delegate_account = 2, del_vote_id = make_vote_id committee 2\<rparr>)].
       tally_at (vote_tally sample_totals) (del_vote_id (snd del))) < 2 ^ 64"
    by (simp only: list.map sum_list.Cons sum_list.Nil snd_conv delegate_object.simps t) simp
  from genesis_authority_majority [OF d' k dels ne n len sum] d' show ?thesis by auto
qed

end
