(* ===== verification/Block.thy ===== *)
theory Block
  imports Transactions Schedule
begin

section \<open>Blocks\<close>

text \<open>
  Models \<^verbatim>\<open>block.hpp\<close> and \<^verbatim>\<open>block.cpp\<close> under \<^verbatim>\<open>libraries/chain\<close>: the header, the number a block has by the id
  of its predecessor, its own id, and the merkle root of its transactions. Ids and hashes are numbers whose
  32-bit words are the \<open>_hash\<close> array. What is hashed, and how, is a record of functions.

  A block's id carries its number, and the merkle root is compared with the root of a hash tree: it is one,
  but over the first transactions only, up to a power of two.
\<close>

record processed_transaction = signed_transaction +
  trx_results :: "operation_result list"

record signed_block =
  blk_previous :: block_id_type
  blk_timestamp :: time_point_sec
  blk_witness :: witness_id_type
  blk_next_secret_hash :: secret_hash_type
  blk_previous_secret :: secret_hash_type
  blk_transaction_merkle_root :: nat
  blk_delegate_signature :: nat
  blk_transactions :: "processed_transaction list"

text \<open>
  The hashes of a block: of its header, of a transaction, of two digests, of a digest for the checksum, of a
  secret; the hash of the random number with a secret; and whether the header is signed by a key.
\<close>

record block_crypto = crypto +
  header_hash :: "signed_block \<Rightarrow> nat"
  merkle_digest :: "processed_transaction \<Rightarrow> nat"
  pair_hash :: "nat \<times> nat \<Rightarrow> nat"
  checksum_hash :: "nat \<Rightarrow> nat"
  secret_hash :: "secret_hash_type \<Rightarrow> secret_hash_type"
  mix_secret :: "secret_hash_type \<Rightarrow> secret_hash_type \<Rightarrow> secret_hash_type"
  header_signed :: "key_data \<Rightarrow> signed_block \<Rightarrow> bool"

subsection \<open>Numbers and ids\<close>

definition htonl :: "nat \<Rightarrow> nat" where
  "htonl x = (x mod 2 ^ 8) * 2 ^ 24 + (x div 2 ^ 8 mod 2 ^ 8) * 2 ^ 16 + (x div 2 ^ 16 mod 2 ^ 8) * 2 ^ 8 + x div 2 ^ 24 mod 2 ^ 8"

definition num_from_id :: "block_id_type \<Rightarrow> nat" where
  "num_from_id i = htonl (hash_word i 0)"

definition block_num :: "signed_block \<Rightarrow> nat" where
  "block_num b = (num_from_id (blk_previous b) + 1) mod 2 ^ 32"

text \<open>The header's hash with its first word replaced, cut to 160 bits.\<close>

definition block_id :: "'a block_crypto_scheme \<Rightarrow> signed_block \<Rightarrow> block_id_type" where
  "block_id c b = (header_hash c b div 2 ^ 32 * 2 ^ 32 + htonl (block_num b)) mod 2 ^ 160"

subsection \<open>The merkle root\<close>

text \<open>
  One round over the array of digests hashes neighbours in place. The loop runs to the number of
  transactions in every round, although the vector is halved after each: the memory beyond its end is still
  there, so the model keeps the array and lets the size \<open>s\<close> shrink. A missing digest is the default one, 0.
\<close>

definition merkle_round :: "(nat \<times> nat \<Rightarrow> nat) \<Rightarrow> nat \<Rightarrow> nat list \<Rightarrow> nat list" where
  "merkle_round h n ids = fold (\<lambda>j ids. ids[j := h (ids ! (2 * j), ids ! (2 * j + 1))]) [0..<(n + 1) div 2] ids"

fun merkle_rounds :: "(nat \<times> nat \<Rightarrow> nat) \<Rightarrow> nat \<Rightarrow> nat \<Rightarrow> nat list \<Rightarrow> nat list" where
  "merkle_rounds h n s ids =
     (if s > 1 then merkle_rounds h n (s div 2) (merkle_round h n ids) else ids)"

declare merkle_rounds.simps [simp del]

definition merkle_ids :: "nat list \<Rightarrow> nat list" where
  "merkle_ids ds = ds @ replicate ((length ds + 1) div 2 * 2 - length ds) 0"

definition calculate_merkle_root :: "'a block_crypto_scheme \<Rightarrow> processed_transaction list \<Rightarrow> nat" where
  "calculate_merkle_root c trxs =
     (if trxs = [] then 0
      else let ids = merkle_ids (map (merkle_digest c) trxs) in
        checksum_hash c (merkle_rounds (pair_hash c) (length trxs) (length ids) ids ! 0))"

subsection \<open>The number is in the id\<close>

lemma htonl_bound: "htonl x < 2 ^ 32"
proof -
  have b: "y mod 2 ^ 8 \<le> 255" for y :: nat using mod_less_divisor [of "2 ^ 8" y] by simp
  show ?thesis unfolding htonl_def using b [of x] b [of "x div 2 ^ 8"] b [of "x div 2 ^ 16"] b [of "x div 2 ^ 24"] by simp
qed

lemma htonl_htonl:
  assumes "x < 2 ^ 32"
  shows "htonl (htonl x) = x"
proof -
  define a b c d where "a = x mod 2 ^ 8" and "b = x div 2 ^ 8 mod 2 ^ 8" and "c = x div 2 ^ 16 mod 2 ^ 8" and "d = x div 2 ^ 24"
  have x: "x = a + 256 * (b + 256 * (c + 256 * d))" 
  proof -
    have s: "n = n mod 256 + 256 * (n div 256)" for n :: nat by simp
    have "x div 2 ^ 8 = x div 256" "x div 2 ^ 16 = x div 256 div 256" "x div 2 ^ 24 = x div 256 div 256 div 256"
      by (simp_all add: div_mult2_eq [symmetric])
    then show ?thesis unfolding a_def b_def c_def d_def using s [of x] s [of "x div 256"] s [of "x div 256 div 256"] by simp
  qed
  have r: "a < 256" "b < 256" "c < 256" "d < 256" using assms unfolding a_def b_def c_def d_def by auto
  have e: "htonl (p + 256 * (q + 256 * (s + 256 * t))) = t + 256 * (s + 256 * (q + 256 * p))"
    if "p < 256" "q < 256" "s < 256" "t < 256" for p q s t
  proof -
    have dm: "(y + 256 * z) mod 256 = y" "(y + 256 * z) div 256 = z" if "y < 256" for y z :: nat using that by simp_all
    have "(p + 256 * (q + 256 * (s + 256 * t))) mod 256 = p" "(p + 256 * (q + 256 * (s + 256 * t))) div 256 = q + 256 * (s + 256 * t)"
      "(q + 256 * (s + 256 * t)) mod 256 = q" "(q + 256 * (s + 256 * t)) div 256 = s + 256 * t"
      "(s + 256 * t) mod 256 = s" "(s + 256 * t) div 256 = t" "t mod 256 = t"
      by (rule dm [OF that(1)] dm [OF that(2)] dm [OF that(3)] mod_less [OF that(4)])+
    moreover have "n div 65536 = n div 256 div 256" "n div 16777216 = n div 256 div 256 div 256" for n :: nat
      by (simp_all add: div_mult2_eq)
    ultimately show ?thesis by (simp add: htonl_def)
  qed
  show ?thesis unfolding x e [OF r] e [OF r(4,3,2,1)] ..
qed

text \<open>
  The id of a block carries its number: read back from the id it is the number of the block, so the
  block that names this id as its predecessor has the next number.
\<close>

theorem num_of_block_id: "num_from_id (block_id c b) = block_num b"
proof -
  have "hash_word (block_id c b) 0 = (header_hash c b div 2 ^ 32 * 2 ^ 32 + htonl (block_num b)) mod 2 ^ 32"
    unfolding hash_word_def block_id_def mult_0_right power_0 div_by_1 by (rule mod_mod_cancel) (simp add: le_imp_power_dvd)
  also have "\<dots> = htonl (block_num b)" using htonl_bound [of "block_num b"] by simp
  finally show ?thesis unfolding num_from_id_def by (simp add: htonl_htonl block_num_def)
qed


subsection \<open>What the merkle root commits to\<close>

text \<open>The reference: the \<open>i\<close>-th node at height \<open>m\<close> of the hash tree over the digests.\<close>

fun merkle_node :: "(nat \<times> nat \<Rightarrow> nat) \<Rightarrow> nat list \<Rightarrow> nat \<Rightarrow> nat \<Rightarrow> nat" where
  "merkle_node h ds 0 i = ds ! i"
| "merkle_node h ds (Suc m) i = h (merkle_node h ds m (2 * i), merkle_node h ds m (2 * i + 1))"

lemma merkle_round_step:
  assumes "length ids = 2 * ((n + 1) div 2)" "k \<le> (n + 1) div 2"
  shows "length (fold (\<lambda>j ids. ids[j := h (ids ! (2 * j), ids ! (2 * j + 1))]) [0..<k] ids) = length ids \<and>
    (\<forall>j. fold (\<lambda>j ids. ids[j := h (ids ! (2 * j), ids ! (2 * j + 1))]) [0..<k] ids ! j =
      (if j < k then h (ids ! (2 * j), ids ! (2 * j + 1)) else ids ! j))"
  using assms(2)
proof (induction k)
  case (Suc k)
  then have k: "k < length ids" using assms(1) by simp
  with Suc show ?case by (auto simp: nth_list_update)
qed simp

lemma merkle_round:
  assumes "length ids = 2 * ((n + 1) div 2)"
  shows "length (merkle_round h n ids) = length ids"
    "j < (n + 1) div 2 \<Longrightarrow> merkle_round h n ids ! j = h (ids ! (2 * j), ids ! (2 * j + 1))"
  using merkle_round_step [OF assms order.refl] by (simp_all add: merkle_round_def)

lemma merkle_rounds_node:
  assumes "length ids = 2 * ((n + 1) div 2)" "s \<le> length ids" "2 ^ k \<le> s" "s < 2 ^ Suc k"
    and "\<forall>j < s. ids ! j = merkle_node h ds m j"
  shows "merkle_rounds h n s ids ! 0 = merkle_node h ds (m + k) 0"
  using assms
proof (induction k arbitrary: s ids m)
  case 0
  then have "s = 1" by simp
  with 0 show ?case by (simp add: merkle_rounds.simps)
next
  case (Suc k)
  have big: "1 < s" 
  proof -
    have "1 \<le> (2 :: nat) ^ k" by simp
    then show ?thesis using Suc.prems(3) unfolding power_Suc by linarith
  qed
  let ?ids = "merkle_round h n ids"
  have len: "length ?ids = 2 * ((n + 1) div 2)" using merkle_round(1) [OF Suc.prems(1)] Suc.prems(1) by simp
  have node: "\<forall>j < s div 2. ?ids ! j = merkle_node h ds (Suc m) j"
  proof (intro allI impI)
    fix j assume j: "j < s div 2"
    then have "2 * j < s" "2 * j + 1 < s" "j < (n + 1) div 2" using Suc.prems(1,2) by auto
    then show "?ids ! j = merkle_node h ds (Suc m) j" using merkle_round(2) [OF Suc.prems(1)] Suc.prems(5) by simp
  qed
  have "merkle_rounds h n (s div 2) ?ids ! 0 = merkle_node h ds (Suc m + k) 0"
    by (rule Suc.IH [OF len _ _ _ node]) (use Suc.prems(2-4) merkle_round(1) [OF Suc.prems(1)] in auto)
  with big show ?case by (subst merkle_rounds.simps) simp
qed

lemma length_merkle_ids: "length (merkle_ids ds) = 2 * ((length ds + 1) div 2)"
  by (simp add: merkle_ids_def)

text \<open>
  C19. The merkle root is the root of a perfect hash tree over the first digests of the block, as many as
  the largest power of two that is at most the number of transactions, rounded up to an even number.
\<close>

theorem merkle_root_is_tree:
  assumes "trxs \<noteq> []" "2 ^ m \<le> 2 * ((length trxs + 1) div 2)" "2 * ((length trxs + 1) div 2) < 2 ^ Suc m"
  shows "calculate_merkle_root c trxs =
    checksum_hash c (merkle_node (pair_hash c) (merkle_ids (map (merkle_digest c) trxs)) m 0)"
proof -
  let ?ids = "merkle_ids (map (merkle_digest c) trxs)"
  have l: "length ?ids = 2 * ((length trxs + 1) div 2)" by (simp add: length_merkle_ids)
  have "merkle_rounds (pair_hash c) (length trxs) (length ?ids) ?ids ! 0 = merkle_node (pair_hash c) ?ids (0 + m) 0"
    by (rule merkle_rounds_node [OF l order.refl]) (use assms(2,3) l in auto)
  then show ?thesis using assms(1) by (simp add: calculate_merkle_root_def Let_def)
qed

lemma merkle_node_cong:
  "(\<And>j. j < (i + 1) * 2 ^ m \<Longrightarrow> ds ! j = es ! j) \<Longrightarrow> merkle_node h ds m i = merkle_node h es m i"
proof (induction m arbitrary: i)
  case (Suc m)
  have "merkle_node h ds m (2 * i) = merkle_node h es m (2 * i)" by (rule Suc.IH, rule Suc.prems) simp
  moreover have "merkle_node h ds m (2 * i + 1) = merkle_node h es m (2 * i + 1)" by (rule Suc.IH, rule Suc.prems) simp
  ultimately show ?case by simp
qed simp

text \<open>
  The merkle root does not commit to the rest of the block: blocks with equally many transactions
  that agree on those first ones have the same root, whatever the others are. Of six transactions the
  last two do not matter.
\<close>

theorem merkle_root_ignores_rest:
  assumes "length trxs = length trxs'" "trxs \<noteq> []" "2 * ((length trxs + 1) div 2) < 2 ^ Suc m"
    and "2 ^ m \<le> length trxs" "take (2 ^ m) trxs = take (2 ^ m) trxs'"
  shows "calculate_merkle_root c trxs = calculate_merkle_root c trxs'"
proof -
  have m: "2 ^ m \<le> 2 * ((length trxs + 1) div 2)" using assms(4) by linarith
  have "merkle_node (pair_hash c) (merkle_ids (map (merkle_digest c) trxs)) m 0 =
      merkle_node (pair_hash c) (merkle_ids (map (merkle_digest c) trxs')) m 0"
  proof (rule merkle_node_cong)
    fix j :: nat assume "j < (0 + 1) * 2 ^ m"
    then have j: "j < 2 ^ m" "j < length trxs" using assms(4) by auto
    then have "trxs ! j = trxs' ! j" using assms(5) by (metis nth_take)
    then show "merkle_ids (map (merkle_digest c) trxs) ! j = merkle_ids (map (merkle_digest c) trxs') ! j"
      using j assms(1) by (simp add: merkle_ids_def nth_append)
  qed
  moreover have "trxs' \<noteq> []" using assms(1,2) by auto
  ultimately show ?thesis
    using merkle_root_is_tree [OF assms(2) m assms(3), of c] merkle_root_is_tree [of trxs' m c] assms(3) m
    unfolding assms(1) by simp
qed

definition sample_digests :: block_crypto where
  "sample_digests = \<lparr>trx_id_of = \<lambda>_. 0, key_signed = \<lambda>_ _ _ _. True, header_hash = \<lambda>b. nat (blk_timestamp b), merkle_digest = \<lambda>t. nat (ref_block_num t),
     pair_hash = \<lambda>(x, y). 10 * x + y, checksum_hash = \<lambda>x. x, secret_hash = \<lambda>s. s + 1, mix_secret = \<lambda>r s. r + s,
     header_signed = \<lambda>_ _. True\<rparr>"

definition sample_block_trx :: "int \<Rightarrow> processed_transaction" where
  "sample_block_trx n = \<lparr>ref_block_num = n, ref_block_prefix = 0, relative_expiration = 1, operations = [], signatures = [], trx_results = []\<rparr>"

lemma merkle_root_is_tree_witness: "calculate_merkle_root sample_digests (map sample_block_trx [1, 2, 3]) = 150"
proof -
  have "calculate_merkle_root sample_digests (map sample_block_trx [1, 2, 3]) = checksum_hash sample_digests
      (merkle_node (pair_hash sample_digests) (merkle_ids (map (merkle_digest sample_digests) (map sample_block_trx [1, 2, 3]))) 2 0)"
    by (rule merkle_root_is_tree) simp_all
  moreover have "checksum_hash sample_digests
      (merkle_node (pair_hash sample_digests) (merkle_ids (map (merkle_digest sample_digests) (map sample_block_trx [1, 2, 3]))) 2 0) = 150"
    by code_simp
  ultimately show ?thesis by simp
qed

lemma merkle_root_ignores_rest_witness:
  "calculate_merkle_root sample_digests (map sample_block_trx [1, 2, 3, 4, 5, 6]) =
     calculate_merkle_root sample_digests (map sample_block_trx [1, 2, 3, 4, 0, 0])"
  by (rule merkle_root_ignores_rest [where m = 2]) simp_all

end
