(* ===== verification/Fork_Db.thy ===== *)
theory Fork_Db
  imports Block
begin

section \<open>The fork database\<close>

text \<open>
  Models \<^verbatim>\<open>fork_database.hpp\<close> and \<^verbatim>\<open>fork_database.cpp\<close> under \<^verbatim>\<open>libraries/chain\<close>. The code links its items
  by \<open>weak_ptr\<close>, and two items may hold the same block, so the model keeps the store of items: an address is
  a position in \<open>fk_items\<close>, where \<open>make_shared\<close> appends. The index lists the addresses of its items in the
  order of insertion; no two have the same id. \<open>lock\<close> answers while the item is owned, by the index or as
  the head.

  The database is a forest whose edges are the ids by which blocks name their predecessors; pushing keeps the
  head highest; and \<open>fetch_branch_from\<close>, three loops over locked pointers, returns, with two chains that end
  in blocks of the same predecessor, at the first such height.
\<close>

record fork_item =
  fi_prev :: "nat option"
  fi_num :: nat
  fi_invalid :: bool
  fi_id :: block_id_type
  fi_data :: signed_block

record fork_database =
  fk_items :: "fork_item list"
  fk_index :: "nat list"
  fk_head :: "nat option"

definition empty_fork_db :: fork_database where
  "empty_fork_db = \<lparr>fk_items = [], fk_index = [], fk_head = None\<rparr>"

definition new_fork_item :: "'a block_crypto_scheme \<Rightarrow> signed_block \<Rightarrow> fork_item" where
  "new_fork_item c b = \<lparr>fi_prev = None, fi_num = block_num b, fi_invalid = False, fi_id = block_id c b, fi_data = b\<rparr>"

abbreviation item_at :: "fork_database \<Rightarrow> nat \<Rightarrow> fork_item" where
  "item_at f a \<equiv> fk_items f ! a"

subsection \<open>The index and the pointers\<close>

definition find_item :: "block_id_type \<Rightarrow> fork_database \<Rightarrow> nat option" where
  "find_item i f = find (\<lambda>a. fi_id (item_at f a) = i) (fk_index f)"

definition insert_item :: "nat \<Rightarrow> fork_database \<Rightarrow> fork_database" where
  "insert_item a f = (if find_item (fi_id (item_at f a)) f = None then f\<lparr>fk_index := fk_index f @ [a]\<rparr> else f)"

definition allocate_item :: "fork_item \<Rightarrow> fork_database \<Rightarrow> nat \<times> fork_database" where
  "allocate_item x f = (length (fk_items f), f\<lparr>fk_items := fk_items f @ [x]\<rparr>)"

definition lock_prev :: "fork_database \<Rightarrow> nat \<Rightarrow> nat option" where
  "lock_prev f a = (case fi_prev (item_at f a) of None \<Rightarrow> None
     | Some p \<Rightarrow> if p \<in> set (fk_index f) \<or> fk_head f = Some p then Some p else None)"

subsection \<open>Operations\<close>

definition fork_reset :: "fork_database \<Rightarrow> fork_database" where
  "fork_reset f = f\<lparr>fk_head := None, fk_index := []\<rparr>"

definition fork_pop_block :: "fork_database \<Rightarrow> fork_database" where
  "fork_pop_block f = (case fk_head f of None \<Rightarrow> f | Some h \<Rightarrow> f\<lparr>fk_head := lock_prev f h\<rparr>)"

definition start_block :: "'a block_crypto_scheme \<Rightarrow> signed_block \<Rightarrow> fork_database \<Rightarrow> fork_database" where
  "start_block c b f =
     (let (a, f1) = allocate_item (new_fork_item c b) f
      in (insert_item a f1)\<lparr>fk_head := Some a\<rparr>)"

definition raise_head :: "nat \<Rightarrow> fork_database \<Rightarrow> fork_database" where
  "raise_head a f =
     (case fk_head f of
        None \<Rightarrow> f\<lparr>fk_head := Some a\<rparr>
      | Some h \<Rightarrow>
          if fi_num (item_at f a) > fi_num (item_at f h)
          then f\<lparr>fk_head := Some a,
                 fk_index := filter (\<lambda>x. int (fi_num (item_at f x)) \<noteq> uint32 (int (fi_num (item_at f a)) - 1024)) (fk_index f)\<rparr>
          else f)"

text \<open>The result is the new head; a block whose predecessor is unknown, or invalid, throws.\<close>

definition fork_push_block :: "'a block_crypto_scheme \<Rightarrow> signed_block \<Rightarrow> fork_database \<Rightarrow> fork_database option" where
  "fork_push_block c b f = do {
     prev \<leftarrow> (if fk_head f \<noteq> None \<and> blk_previous b \<noteq> 0 then do {
               p \<leftarrow> find_item (blk_previous b) f;
               fc_assert (\<not> fi_invalid (item_at f p));
               Some (Some p) }
             else Some None);
     let (a, f1) = allocate_item ((new_fork_item c b)\<lparr>fi_prev := prev\<rparr>) f;
     Some (raise_head a (insert_item a f1)) }"

definition fork_is_known_block :: "block_id_type \<Rightarrow> fork_database \<Rightarrow> bool" where
  "fork_is_known_block i f = (find_item i f \<noteq> None)"

definition fetch_block :: "block_id_type \<Rightarrow> fork_database \<Rightarrow> nat option" where
  "fetch_block i f = find_item i f"

definition fetch_block_by_number :: "nat \<Rightarrow> fork_database \<Rightarrow> nat list" where
  "fetch_block_by_number n f = filter (\<lambda>a. fi_num (item_at f a) = n) (fk_index f)"

definition fork_set_head :: "nat \<Rightarrow> fork_database \<Rightarrow> fork_database" where
  "fork_set_head h f = f\<lparr>fk_head := Some h\<rparr>"

definition fork_remove :: "block_id_type \<Rightarrow> fork_database \<Rightarrow> fork_database" where
  "fork_remove i f = f\<lparr>fk_index := filter (\<lambda>a. fi_id (item_at f a) \<noteq> i) (fk_index f)\<rparr>"

subsection \<open>Branches\<close>

text \<open>
  The loops of \<open>fetch_branch_from\<close>. The outer option is None where a loop does not return, the inner one
  where it throws, because a pointer cannot be locked.
\<close>

definition item_block :: "fork_database \<Rightarrow> nat \<Rightarrow> signed_block" where
  "item_block f a = fi_data (item_at f a)"

partial_function (option) walk_down ::
  "fork_database \<Rightarrow> nat \<Rightarrow> nat list \<Rightarrow> nat \<Rightarrow> (nat list \<times> nat) option option" where
  [code]: "walk_down f n branch a =
     (if block_num (item_block f a) > n then
        (case lock_prev f a of None \<Rightarrow> Some None | Some p \<Rightarrow> walk_down f n (branch @ [a]) p)
      else Some (Some (branch, a)))"

partial_function (option) walk_both ::
  "fork_database \<Rightarrow> nat list \<Rightarrow> nat list \<Rightarrow> nat \<Rightarrow> nat \<Rightarrow> (nat list \<times> nat list) option option" where
  [code]: "walk_both f bs cs a b =
     (if blk_previous (item_block f a) \<noteq> blk_previous (item_block f b) then
        (case lock_prev f a of None \<Rightarrow> Some None | Some p \<Rightarrow>
         case lock_prev f b of None \<Rightarrow> Some None | Some q \<Rightarrow> walk_both f (bs @ [a]) (cs @ [b]) p q)
      else Some (Some (bs @ [a], cs @ [b])))"

definition fetch_branch_from ::
  "block_id_type \<Rightarrow> block_id_type \<Rightarrow> fork_database \<Rightarrow> (nat list \<times> nat list) option option" where
  "fetch_branch_from i j f =
     (case (find_item i f, find_item j f) of
        (Some a, Some b) \<Rightarrow>
          (case walk_down f (block_num (item_block f b)) [] a of None \<Rightarrow> None | Some None \<Rightarrow> Some None
           | Some (Some (bs, a')) \<Rightarrow>
          (case walk_down f (block_num (item_block f a')) [] b of None \<Rightarrow> None | Some None \<Rightarrow> Some None
           | Some (Some (cs, b')) \<Rightarrow> walk_both f bs cs a' b'))
      | _ \<Rightarrow> Some None)"

subsection \<open>The forest\<close>

text \<open>
  Items say the truth about their blocks, pointers lead to the predecessor, one block lower, which was there
  first, and ids are unique in the index.
\<close>

definition item_ok :: "'a block_crypto_scheme \<Rightarrow> fork_database \<Rightarrow> nat \<Rightarrow> bool" where
  "item_ok c f a \<longleftrightarrow>
     fi_num (item_at f a) = block_num (item_block f a) \<and> fi_id (item_at f a) = block_id c (item_block f a) \<and>
     (case fi_prev (item_at f a) of None \<Rightarrow> True
      | Some p \<Rightarrow> p < a \<and> fi_id (item_at f p) = blk_previous (item_block f a) \<and>
          block_num (item_block f a) = block_num (item_block f p) + 1)"

definition fork_ok :: "'a block_crypto_scheme \<Rightarrow> fork_database \<Rightarrow> bool" where
  "fork_ok c f \<longleftrightarrow> (\<forall>a < length (fk_items f). item_ok c f a) \<and> (\<forall>a \<in> set (fk_index f). a < length (fk_items f)) \<and>
     (case fk_head f of None \<Rightarrow> True | Some h \<Rightarrow> h < length (fk_items f)) \<and> distinct (map (\<lambda>a. fi_id (item_at f a)) (fk_index f))"

definition head_highest :: "fork_database \<Rightarrow> bool" where
  "head_highest f \<longleftrightarrow> (case fk_head f of None \<Rightarrow> fk_index f = []
     | Some h \<Rightarrow> \<forall>a \<in> set (fk_index f). fi_num (item_at f a) \<le> fi_num (item_at f h))"

lemma find_item_Some:
  assumes "find_item i f = Some a"
  shows "a \<in> set (fk_index f)" "fi_id (item_at f a) = i"
  using assms by (auto simp: find_item_def find_Some_iff)

lemma find_item_None: "find_item i f = None \<longleftrightarrow> (\<forall>a \<in> set (fk_index f). fi_id (item_at f a) \<noteq> i)"
  by (auto simp: find_item_def find_None_iff)

lemma fork_ok_item: "fork_ok c f \<Longrightarrow> a < length (fk_items f) \<Longrightarrow> item_ok c f a"
  by (simp add: fork_ok_def)

lemma fork_ok_index: "fork_ok c f \<Longrightarrow> a \<in> set (fk_index f) \<Longrightarrow> a < length (fk_items f)"
  by (simp add: fork_ok_def)

lemma lock_prev_item:
  assumes "fork_ok c f" "a < length (fk_items f)" "lock_prev f a = Some p"
  shows "p < a" "fi_id (item_at f p) = blk_previous (item_block f a)"
    "block_num (item_block f a) = block_num (item_block f p) + 1"
  using fork_ok_item [OF assms(1,2)] assms(3) by (auto simp: item_ok_def lock_prev_def split: option.splits if_splits)

lemma item_ok_cong:
  assumes "fk_items g = fk_items f @ xs" "a < length (fk_items f)" "item_ok c f a"
  shows "item_ok c g a"
  using assms by (auto simp: item_ok_def item_block_def nth_append split: option.splits)

lemma fork_ok_shrink:
  assumes "fork_ok c f" "fk_items g = fk_items f" "set (fk_index g) \<subseteq> set (fk_index f)"
    and "distinct (map (\<lambda>a. fi_id (item_at f a)) (fk_index g))"
    and "\<And>h. fk_head g = Some h \<Longrightarrow> h < length (fk_items f)"
  shows "fork_ok c g"
  unfolding fork_ok_def
proof (intro conjI allI impI ballI)
  fix a assume "a < length (fk_items g)"
  then have a: "a < length (fk_items f)" using assms(2) by simp
  show "item_ok c g a" by (rule item_ok_cong [OF _ a fork_ok_item [OF assms(1) a], where xs = "[]"]) (simp add: assms(2))
qed (use assms in \<open>auto simp: fork_ok_def split: option.split\<close>)

lemma distinct_map_filter_index: "distinct (map h xs) \<Longrightarrow> distinct (map h (filter P xs))"
  by (induction xs) auto

lemma fork_ok_remove: "fork_ok c f \<Longrightarrow> fork_ok c (fork_remove i f)"
  by (rule fork_ok_shrink, assumption) (auto simp: fork_remove_def fork_ok_def distinct_map_filter_index)

lemma fork_ok_reset: "fork_ok c f \<Longrightarrow> fork_ok c (fork_reset f)"
  by (rule fork_ok_shrink, assumption) (auto simp: fork_reset_def)

lemma fork_ok_set_head: "fork_ok c f \<Longrightarrow> h < length (fk_items f) \<Longrightarrow> fork_ok c (fork_set_head h f)"
  by (rule fork_ok_shrink, assumption) (auto simp: fork_set_head_def fork_ok_def)

lemma fork_ok_pop:
  assumes "fork_ok c f"
  shows "fork_ok c (fork_pop_block f)"
proof (cases "fk_head f")
  case (Some h)
  then have "h < length (fk_items f)" using assms by (simp add: fork_ok_def)
  then show ?thesis using lock_prev_item(1) [OF assms, of h] Some
    by (intro fork_ok_shrink [OF assms]) (use assms in \<open>auto simp: fork_pop_block_def fork_ok_def intro: less_trans\<close>)
qed (simp add: fork_pop_block_def assms)

lemma fork_ok_allocate:
  assumes "fork_ok c f" "allocate_item x f = (a, g)" "item_ok c g a"
  shows "fork_ok c g" "a < length (fk_items g)" "a = length (fk_items f)"
proof -
  have g: "fk_items g = fk_items f @ [x]" "a = length (fk_items f)" "fk_index g = fk_index f" "fk_head g = fk_head f"
    using assms(2) by (auto simp: allocate_item_def)
  then show "a < length (fk_items g)" "a = length (fk_items f)" by simp_all
  have same: "item_at g b = item_at f b" if "b \<in> set (fk_index f)" for b
    using fork_ok_index [OF assms(1) that] g(1) by (simp add: nth_append)
  have "map (\<lambda>a. fi_id (item_at g a)) (fk_index g) = map (\<lambda>a. fi_id (item_at f a)) (fk_index f)"
    using same g(3) by simp
  then have "distinct (map (\<lambda>a. fi_id (item_at g a)) (fk_index g))" using assms(1) by (simp only: fork_ok_def)
  moreover have "item_ok c g b" if "b < length (fk_items g)" for b
    using item_ok_cong [OF g(1) _ fork_ok_item [OF assms(1)]] assms(3) g that by (cases "b = a") auto
  ultimately show "fork_ok c g" 
    using assms(1) g(2-4) g(1) [THEN arg_cong, where f = length] unfolding fork_ok_def by (auto simp del: length_map split: option.splits)
qed

lemma fork_ok_insert:
  assumes "fork_ok c f" "a < length (fk_items f)"
  shows "fork_ok c (insert_item a f)"
proof (cases "find_item (fi_id (item_at f a)) f")
  case None
  then have "\<forall>b \<in> set (fk_index f). fi_id (item_at f b) \<noteq> fi_id (item_at f a)" by (simp add: find_item_None)
  moreover have "item_ok c (f\<lparr>fk_index := fk_index f @ [a]\<rparr>) b = item_ok c f b" for b
    by (simp add: item_ok_def item_block_def cong: option.case_cong)
  ultimately show ?thesis using None assms by (auto simp: insert_item_def fork_ok_def split: option.splits)
qed (simp add: insert_item_def assms)

lemma insert_item_keep [simp]: "fk_items (insert_item a f) = fk_items f" "fk_head (insert_item a f) = fk_head f"
  by (simp_all add: insert_item_def)

lemma fork_ok_raise:
  assumes "fork_ok c f" "a < length (fk_items f)"
  shows "fork_ok c (raise_head a f)"
  using assms(2) by (intro fork_ok_shrink [OF assms(1)])
    (use assms(1) in \<open>auto simp: raise_head_def fork_ok_def distinct_map_filter_index split: option.splits if_splits\<close>)

lemma fork_ok_start:
  assumes "fork_ok c f"
  shows "fork_ok c (start_block c b f)"
proof -
  obtain a g where g: "allocate_item (new_fork_item c b) f = (a, g)" by force
  then have "item_ok c g a" by (auto simp: allocate_item_def item_ok_def item_block_def new_fork_item_def)
  from fork_ok_allocate [OF assms g this] have g': "fork_ok c g" "a < length (fk_items g)" by simp_all
  from fork_ok_insert [OF this] have i: "fork_ok c (insert_item a g)" .
  then have "distinct (map (\<lambda>a. fi_id (item_at g a)) (fk_index (insert_item a g)))" by (simp add: fork_ok_def)
  then have "fork_ok c ((insert_item a g)\<lparr>fk_head := Some a\<rparr>)"
    by (intro fork_ok_shrink [OF i]) (use g'(2) in auto)
  then show ?thesis by (simp add: start_block_def g)
qed

lemma fork_push_block_cases:
  assumes "fork_push_block c b f = Some f'"
  obtains prev a g where "allocate_item ((new_fork_item c b)\<lparr>fi_prev := prev\<rparr>) f = (a, g)"
    "f' = raise_head a (insert_item a g)"
    "if fk_head f \<noteq> None \<and> blk_previous b \<noteq> 0 then prev = find_item (blk_previous b) f \<and> prev \<noteq> None else prev = None"
proof -
  from assms obtain prev where prev: "(if fk_head f \<noteq> None \<and> blk_previous b \<noteq> 0 then do {
               p \<leftarrow> find_item (blk_previous b) f;
               fc_assert (\<not> fi_invalid (item_at f p));
               Some (Some p) }
             else Some None) = Some prev"
      "(case allocate_item ((new_fork_item c b)\<lparr>fi_prev := prev\<rparr>) f of (a, g) \<Rightarrow> raise_head a (insert_item a g)) = f'"
    unfolding fork_push_block_def allocate_item_def Let_def case_prod_conv Option.bind_eq_Some_conv [of "if _ then _ else _"]
    by blast
  obtain a g where g: "allocate_item ((new_fork_item c b)\<lparr>fi_prev := prev\<rparr>) f = (a, g)" by force
  show thesis
  proof (rule that [OF g])
    show "f' = raise_head a (insert_item a g)" using prev(2) g by simp
    show "if fk_head f \<noteq> None \<and> blk_previous b \<noteq> 0 then prev = find_item (blk_previous b) f \<and> prev \<noteq> None else prev = None"
      using prev(1) by (auto simp: Option.bind_eq_Some_conv split: if_splits)
  qed
qed

lemma fork_ok_push_item:
  assumes "fork_ok c f" "block_num b \<noteq> 0" "prev = find_item (blk_previous b) f \<or> prev = None"
    and "allocate_item ((new_fork_item c b)\<lparr>fi_prev := prev\<rparr>) f = (a, g)"
  shows "item_ok c g a"
proof (cases prev)
  case None
  then show ?thesis using assms(4) by (auto simp: allocate_item_def item_ok_def item_block_def new_fork_item_def)
next
  case (Some p)
  with assms(3) have p: "p \<in> set (fk_index f)" "fi_id (item_at f p) = blk_previous b" using find_item_Some by auto
  then have l: "p < length (fk_items f)" using fork_ok_index [OF assms(1)] by simp
  then have "block_id c (item_block f p) = blk_previous b" using fork_ok_item [OF assms(1) l] p(2) by (simp add: item_ok_def)
  then have n: "block_num b = (block_num (item_block f p) + 1) mod 2 ^ 32"
    using num_of_block_id [of c "item_block f p"] by (simp add: block_num_def)
  have "block_num (item_block f p) < 2 ^ 32" by (simp add: block_num_def)
  with n assms(2) have "block_num b = block_num (item_block f p) + 1"
    by (cases "block_num (item_block f p) + 1 = 2 ^ 32") auto
  then show ?thesis using assms(4) l p(2) Some
    by (auto simp: allocate_item_def item_ok_def item_block_def new_fork_item_def nth_append)
qed

lemma fork_ok_push:
  assumes "fork_ok c f" "block_num b \<noteq> 0" "fork_push_block c b f = Some f'"
  shows "fork_ok c f'"
proof -
  from assms(3) obtain prev a g where g: "allocate_item ((new_fork_item c b)\<lparr>fi_prev := prev\<rparr>) f = (a, g)"
    "f' = raise_head a (insert_item a g)" "prev = find_item (blk_previous b) f \<or> prev = None"
    by (rule fork_push_block_cases) (metis (full_types))
  note a = fork_ok_allocate [OF assms(1) g(1) fork_ok_push_item [OF assms(1,2) g(3,1)]]
  show ?thesis unfolding g(2) by (rule fork_ok_raise [OF fork_ok_insert [OF a(1,2)]]) (use a(2) in \<open>simp add: insert_item_def\<close>)
qed

lemma head_highest_push:
  assumes "head_highest f" "fork_ok c f" "fork_push_block c b f = Some f'"
  shows "head_highest f'"
    "fk_head f' = fk_head f \<or> (\<exists>a. fk_head f' = Some a \<and> item_block f' a = b \<and>
       (\<forall>h. fk_head f = Some h \<longrightarrow> block_num b > fi_num (item_at f h)))"
proof -
  from assms(3) obtain prev a g where g: "allocate_item ((new_fork_item c b)\<lparr>fi_prev := prev\<rparr>) f = (a, g)"
    "f' = raise_head a (insert_item a g)" by (rule fork_push_block_cases)
  then have e: "fk_items g = fk_items f @ [(new_fork_item c b)\<lparr>fi_prev := prev\<rparr>]" "a = length (fk_items f)"
    "fk_index g = fk_index f" "fk_head g = fk_head f" by (auto simp: allocate_item_def)
  have i: "fk_items (insert_item a g) = fk_items g" "fk_head (insert_item a g) = fk_head f"
    "set (fk_index (insert_item a g)) \<subseteq> insert a (set (fk_index f))"
    using e by (auto simp: insert_item_def)
  have n: "fi_num (item_at g a) = block_num b" "fi_data (item_at g a) = b" using e by (simp_all add: new_fork_item_def)
  have same: "item_at g x = item_at f x" if "x < length (fk_items f)" for x using that e(1) by (simp add: nth_append)
  have "head_highest f' \<and> (fk_head f' = fk_head f \<or> (\<exists>a. fk_head f' = Some a \<and> item_block f' a = b \<and>
       (\<forall>h. fk_head f = Some h \<longrightarrow> block_num b > fi_num (item_at f h))))"
  proof (cases "fk_head f")
    case None
    then have "fk_index f = []" using assms(1) by (simp add: head_highest_def)
    with None i n show ?thesis unfolding g(2) by (auto simp: raise_head_def head_highest_def item_block_def)
  next
    case (Some h)
    then have h: "h < length (fk_items f)" and idx: "\<And>x. x \<in> set (fk_index f) \<Longrightarrow> x < length (fk_items f)"
      "\<And>x. x \<in> set (fk_index f) \<Longrightarrow> fi_num (item_at f x) \<le> fi_num (item_at f h)"
      using assms(1,2) by (auto simp: fork_ok_def head_highest_def)
    have all: "\<forall>x \<in> set (fk_index (insert_item a g)). fi_num (item_at g x) \<le> fi_num (item_at f h) \<or> x = a"
      using i(3) idx same by force
    show ?thesis
    proof (cases "block_num b > fi_num (item_at f h)")
      case True
      then show ?thesis unfolding g(2) using Some i(1,2) n all same [OF h]
        by (fastforce simp: raise_head_def head_highest_def item_block_def)
    next
      case False
      then show ?thesis unfolding g(2) using Some i(1,2) n all same [OF h]
        by (fastforce simp: raise_head_def head_highest_def item_block_def)
    qed
  qed
  then show "head_highest f'" "fk_head f' = fk_head f \<or> (\<exists>a. fk_head f' = Some a \<and> item_block f' a = b \<and>
       (\<forall>h. fk_head f = Some h \<longrightarrow> block_num b > fi_num (item_at f h)))" by blast+
qed

subsection \<open>Chains of blocks\<close>

text \<open>\<open>chain f a xs b\<close>: locking the pointers from \<open>a\<close> on passes the items \<open>xs\<close> and comes to \<open>b\<close>.\<close>

fun chain :: "fork_database \<Rightarrow> nat \<Rightarrow> nat list \<Rightarrow> nat \<Rightarrow> bool" where
  "chain f a [] b \<longleftrightarrow> a = b"
| "chain f a (x # xs) b \<longleftrightarrow> x = a \<and> (case lock_prev f a of None \<Rightarrow> False | Some p \<Rightarrow> chain f p xs b)"

lemma chain_append: "chain f a (xs @ ys) b \<longleftrightarrow> (\<exists>m. chain f a xs m \<and> chain f m ys b)"
  by (induction xs arbitrary: a) (auto split: option.splits)

lemma chain_less: "fork_ok c f \<Longrightarrow> a < length (fk_items f) \<Longrightarrow> chain f a xs b \<Longrightarrow> b < length (fk_items f)"
  by (induction xs arbitrary: a) (auto split: option.splits dest: lock_prev_item(1) intro: less_trans)

lemma chain_num:
  assumes "fork_ok c f" "a < length (fk_items f)" "chain f a xs b"
  shows "block_num (item_block f a) = block_num (item_block f b) + length xs"
  using assms(2,3)
proof (induction xs arbitrary: a)
  case (Cons x xs)
  then obtain p where p: "lock_prev f a = Some p" "chain f p xs b" by (auto split: option.splits)
  note i = lock_prev_item [OF assms(1) Cons.prems(1) p(1)]
  show ?case using Cons.IH [OF _ p(2)] i Cons.prems(1) by simp
qed simp

lemma chain_nth:
  assumes "fork_ok c f" "a < length (fk_items f)" "chain f a xs b" "Suc k < length (xs @ [b])"
  shows "fi_id (item_at f ((xs @ [b]) ! Suc k)) = blk_previous (item_block f ((xs @ [b]) ! k))"
  using assms(2-4)
proof (induction xs arbitrary: a k)
  case (Cons x xs)
  then obtain p where p: "lock_prev f a = Some p" "chain f p xs b" "x = a" by (auto split: option.splits)
  note i = lock_prev_item [OF assms(1) Cons.prems(1) p(1)]
  show ?case
  proof (cases k)
    case 0
    have "(xs @ [b]) ! 0 = p" using p(2) by (cases xs) (auto split: option.splits)
    with 0 show ?thesis using i(2) p(3) by simp
  next
    case (Suc m)
    then show ?thesis using Cons.IH [OF _ p(2), of m] i(1) Cons.prems by simp
  qed
qed simp

lemma walk_down_chain:
  assumes "fork_ok c f" "a < length (fk_items f)"
  obtains "walk_down f n bs a = Some None" | xs a' where "walk_down f n bs a = Some (Some (bs @ xs, a'))" "chain f a xs a'"
    "block_num (item_block f a') = min n (block_num (item_block f a))"
proof -
  have "walk_down f n bs a = Some None \<or> (\<exists>xs a'. walk_down f n bs a = Some (Some (bs @ xs, a')) \<and> chain f a xs a' \<and>
    block_num (item_block f a') = min n (block_num (item_block f a)))"
    using assms(2)
  proof (induction a arbitrary: bs rule: less_induct)
    case (less a)
    show ?case
    proof (cases "block_num (item_block f a) > n \<and> lock_prev f a \<noteq> None")
      case True
      then obtain p where p: "lock_prev f a = Some p" by auto
      note i = lock_prev_item [OF assms(1) less.prems p]
      have step: "walk_down f n bs a = walk_down f n (bs @ [a]) p" using True p by (subst walk_down.simps) simp
      from less.IH [OF i(1), of "bs @ [a]"] i(1) less.prems
      consider "walk_down f n (bs @ [a]) p = Some None" | xs a' where "walk_down f n (bs @ [a]) p = Some (Some ((bs @ [a]) @ xs, a'))"
        "chain f p xs a'" "block_num (item_block f a') = min n (block_num (item_block f p))" by fastforce
      then show ?thesis
      proof cases
        case 2
        then have "walk_down f n bs a = Some (Some (bs @ (a # xs), a'))" "chain f a (a # xs) a'"
          "block_num (item_block f a') = min n (block_num (item_block f a))" using step p i(3) True by auto
        then show ?thesis by blast
      qed (simp add: step)
    next
      case False
      show ?thesis
      proof (cases "block_num (item_block f a) > n")
        case True
        with False have "walk_down f n bs a = Some None" by (subst walk_down.simps) simp
        then show ?thesis ..
      next
        case False
        then have "walk_down f n bs a = Some (Some (bs @ [], a))" by (subst walk_down.simps) simp
        moreover have "chain f a [] a" "block_num (item_block f a) = min n (block_num (item_block f a))" using False by auto
        ultimately show ?thesis by blast
      qed
    qed
  qed
  then show thesis using that by blast
qed

lemma walk_down_complete:
  assumes "fork_ok c f" "a < length (fk_items f)" "chain f a xs x" "block_num (item_block f x) \<le> n"
  shows "walk_down f n bs a \<noteq> Some None"
  using assms(2-3)
proof (induction xs arbitrary: a bs)
  case Nil
  then show ?case using assms(4) by (subst walk_down.simps) simp
next
  case (Cons y xs)
  then obtain p where p: "lock_prev f a = Some p" "chain f p xs x" by (auto split: option.splits)
  have "p < length (fk_items f)" using lock_prev_item(1) [OF assms(1) Cons.prems(1) p(1)] Cons.prems(1) by simp
  then show ?case using Cons.IH [OF _ p(2)] p(1) by (subst walk_down.simps) simp
qed

lemma walk_both_chain:
  assumes "fork_ok c f" "a < length (fk_items f)" "b < length (fk_items f)"
  obtains "walk_both f bs cs a b = Some None" | xs ys x y where "walk_both f bs cs a b = Some (Some (bs @ xs @ [x], cs @ ys @ [y]))"
    "chain f a xs x" "chain f b ys y" "blk_previous (item_block f x) = blk_previous (item_block f y)"
    "list_all2 (\<lambda>u v. blk_previous (item_block f u) \<noteq> blk_previous (item_block f v)) xs ys"
proof -
  let ?d = "\<lambda>u v. blk_previous (item_block f u) \<noteq> blk_previous (item_block f v)"
  have "walk_both f bs cs a b = Some None \<or> (\<exists>xs ys x y. walk_both f bs cs a b = Some (Some (bs @ xs @ [x], cs @ ys @ [y])) \<and>
    chain f a xs x \<and> chain f b ys y \<and> \<not> ?d x y \<and> list_all2 ?d xs ys)"
    using assms(2,3)
  proof (induction a arbitrary: b bs cs rule: less_induct)
    case (less a)
    show ?case
    proof (cases "?d a b")
      case False
      then have "walk_both f bs cs a b = Some (Some (bs @ [] @ [a], cs @ [] @ [b]))" by (subst walk_both.simps) simp
      moreover have "chain f a [] a" "chain f b [] b" "list_all2 ?d [] []" by simp_all
      ultimately show ?thesis using False by blast
    next
      case True
      show ?thesis
      proof (cases "lock_prev f a = None \<or> lock_prev f b = None")
        case True
        with \<open>?d a b\<close> have "walk_both f bs cs a b = Some None" by (subst walk_both.simps) (auto split: option.split)
        then show ?thesis ..
      next
        case False
        then obtain p q where p: "lock_prev f a = Some p" "lock_prev f b = Some q" by auto
        note i = lock_prev_item(1) [OF assms(1) less.prems(1) p(1)] lock_prev_item(1) [OF assms(1) less.prems(2) p(2)]
        have l: "p < length (fk_items f)" "q < length (fk_items f)" using i less.prems by auto
        have step: "walk_both f bs cs a b = walk_both f (bs @ [a]) (cs @ [b]) p q" using True p by (subst walk_both.simps) simp
        from less.IH [OF i(1) l] consider "walk_both f (bs @ [a]) (cs @ [b]) p q = Some None"
          | xs ys x y where "walk_both f (bs @ [a]) (cs @ [b]) p q = Some (Some ((bs @ [a]) @ xs @ [x], (cs @ [b]) @ ys @ [y]))"
            "chain f p xs x" "chain f q ys y" "\<not> ?d x y" "list_all2 ?d xs ys" by meson
        then show ?thesis
        proof cases
          case 2
          then have "walk_both f bs cs a b = Some (Some (bs @ (a # xs) @ [x], cs @ (b # ys) @ [y]))" "chain f a (a # xs) x"
            "chain f b (b # ys) y" "list_all2 ?d (a # xs) (b # ys)" using step p True by auto
          then show ?thesis using 2(4) by blast
        qed (simp add: step)
      qed
    qed
  qed
  then show thesis using that by blast
qed

lemma chain_split:
  "chain f a xs x \<Longrightarrow> chain f a zs m \<Longrightarrow> length zs \<le> length xs \<Longrightarrow> chain f m (drop (length zs) xs) x"
  by (induction zs arbitrary: a xs) (auto simp: neq_Nil_conv Suc_le_length_iff split: option.splits)

lemma walk_both_complete:
  assumes "length xs = length ys" "chain f a xs x" "chain f b ys y" "blk_previous (item_block f x) = blk_previous (item_block f y)"
  shows "walk_both f bs cs a b \<noteq> Some None"
  using assms
proof (induction xs ys arbitrary: a b bs cs rule: list_induct2)
  case Nil
  then show ?case by (subst walk_both.simps) simp
next
  case (Cons u xs v ys)
  then obtain p q where "lock_prev f a = Some p" "chain f p xs x" "lock_prev f b = Some q" "chain f q ys y"
    by (auto split: option.splits)
  then show ?case using Cons.IH Cons.prems(3) by (subst walk_both.simps) simp
qed

lemma same_previous_num:
  "blk_previous (item_block f x) = blk_previous (item_block f y) \<Longrightarrow> block_num (item_block f x) = block_num (item_block f y)"
  by (simp add: block_num_def)

lemma fetch_branch_from_cases:
  assumes "fork_ok c f" "find_item i f = Some a" "find_item j f = Some b"
  obtains "fetch_branch_from i j f = Some None" | xs zs ys ws x y where
    "fetch_branch_from i j f = Some (Some (xs @ zs @ [x], ys @ ws @ [y]))" "chain f a (xs @ zs) x" "chain f b (ys @ ws) y"
    "blk_previous (item_block f x) = blk_previous (item_block f y)" "xs = [] \<or> ys = []"
    "list_all2 (\<lambda>u v. blk_previous (item_block f u) \<noteq> blk_previous (item_block f v)) zs ws"
proof -
  let ?n = "\<lambda>x. block_num (item_block f x)"
  have l: "a < length (fk_items f)" "b < length (fk_items f)"
    using find_item_Some(1) assms(2,3) fork_ok_index [OF assms(1)] by blast+
  have fetch: "fetch_branch_from i j f =
     (case walk_down f (?n b) [] a of None \<Rightarrow> None | Some None \<Rightarrow> Some None
           | Some (Some (bs, a')) \<Rightarrow>
          (case walk_down f (?n a') [] b of None \<Rightarrow> None | Some None \<Rightarrow> Some None
           | Some (Some (cs, b')) \<Rightarrow> walk_both f bs cs a' b'))"
    using assms(2,3) by (simp add: fetch_branch_from_def)
  show thesis
  proof (rule walk_down_chain [OF assms(1) l(1), of "?n b" "[]"])
    assume "walk_down f (?n b) [] a = Some None"
    then show thesis using that(1) fetch by simp
  next
    fix xs a' assume a: "walk_down f (?n b) [] a = Some (Some ([] @ xs, a'))" "chain f a xs a'" "?n a' = min (?n b) (?n a)"
    show thesis
    proof (rule walk_down_chain [OF assms(1) l(2), of "?n a'" "[]"])
      assume "walk_down f (?n a') [] b = Some None"
      then show thesis using that(1) fetch a(1) by simp
    next
      fix ys b' assume b: "walk_down f (?n a') [] b = Some (Some ([] @ ys, b'))" "chain f b ys b'" "?n b' = min (?n a') (?n b)"
      have e: "fetch_branch_from i j f = walk_both f xs ys a' b'" using fetch a(1) b(1) by simp
      have short: "xs = [] \<or> ys = []"
      proof -
        have "length xs = 0 \<or> length ys = 0"
          using chain_num [OF assms(1) l(1) a(2)] chain_num [OF assms(1) l(2) b(2)] a(3) b(3) by linarith
        then show ?thesis by (simp only: length_0_conv)
      qed
      show thesis
      proof (rule walk_both_chain [OF assms(1) chain_less [OF assms(1) l(1) a(2)] chain_less [OF assms(1) l(2) b(2)], of xs ys])
        assume "walk_both f xs ys a' b' = Some None"
        then show thesis using that(1) e by simp
      next
        fix zs ws x y assume w: "walk_both f xs ys a' b' = Some (Some (xs @ zs @ [x], ys @ ws @ [y]))"
          "chain f a' zs x" "chain f b' ws y" "blk_previous (item_block f x) = blk_previous (item_block f y)"
          "list_all2 (\<lambda>u v. blk_previous (item_block f u) \<noteq> blk_previous (item_block f v)) zs ws"
        have "chain f a (xs @ zs) x" "chain f b (ys @ ws) y" unfolding chain_append using a(2) b(2) w(2,3) by blast+
        then show thesis by (rule that(2) [OF e [unfolded w(1)] _ _ w(4) short w(5)])
      qed
    qed
  qed
qed

text \<open>A branch below the block \<open>i\<close>: each block is the predecessor of the one before it in the list.\<close>

definition is_branch :: "fork_database \<Rightarrow> block_id_type \<Rightarrow> nat list \<Rightarrow> bool" where
  "is_branch f i bs \<longleftrightarrow> bs \<noteq> [] \<and> fi_id (item_at f (hd bs)) = i \<and>
     (\<forall>k. Suc k < length bs \<longrightarrow> fi_id (item_at f (bs ! Suc k)) = blk_previous (item_block f (bs ! k)))"

lemma is_branch_chain:
  assumes "fork_ok c f" "find_item i f = Some a" "chain f a xs x"
  shows "is_branch f i (xs @ [x])"
proof -
  have a: "a < length (fk_items f)" "fi_id (item_at f a) = i"
    using find_item_Some [OF assms(2)] fork_ok_index [OF assms(1)] by auto
  have c: "hd (xs @ [x]) = a" using assms(3) by (cases xs) auto
  show ?thesis unfolding is_branch_def using c a chain_nth [OF assms(1) a(1) assms(3)] by simp
qed

text \<open>
  C10. What \<open>fetch_branch_from\<close> returns are two branches down from the blocks asked for, that end in blocks
  with the same predecessor, and that is the first time they do: higher up, blocks at the same distance from
  the fork have different predecessors.
\<close>

theorem fetched_branches_meet:
  assumes "fork_ok c f" "fetch_branch_from i j f = Some (Some (bs, cs))"
  shows "is_branch f i bs \<and> is_branch f j cs \<and>
    blk_previous (item_block f (last bs)) = blk_previous (item_block f (last cs)) \<and>
    (\<forall>m. 0 < m \<longrightarrow> m < length bs \<longrightarrow> m < length cs \<longrightarrow>
      blk_previous (item_block f (rev bs ! m)) \<noteq> blk_previous (item_block f (rev cs ! m)))"
proof -
  from assms(2) obtain a b where ab: "find_item i f = Some a" "find_item j f = Some b"
    by (auto simp: fetch_branch_from_def split: option.splits)
  obtain xs zs ys ws x y where r:
    "bs = (xs @ zs) @ [x]" "cs = (ys @ ws) @ [y]" "chain f a (xs @ zs) x" "chain f b (ys @ ws) y"
    "blk_previous (item_block f x) = blk_previous (item_block f y)" "xs = [] \<or> ys = []"
    "list_all2 (\<lambda>u v. blk_previous (item_block f u) \<noteq> blk_previous (item_block f v)) zs ws"
    by (rule fetch_branch_from_cases [OF assms(1) ab]) (use assms(2) in \<open>simp_all add: that\<close>)
  have len: "length zs = length ws" by (rule list_all2_lengthD [OF r(7)])
  have "blk_previous (item_block f (rev bs ! m)) \<noteq> blk_previous (item_block f (rev cs ! m))"
    if m: "0 < m" "m < length bs" "m < length cs" for m
  proof -
    obtain k where k: "m = Suc k" using m(1) by (cases m) auto
    have "k < length zs" using m(2,3) len r(1,2,6) k by auto
    moreover from this have "rev zs ! k = zs ! (length zs - Suc k)" "rev ws ! k = ws ! (length zs - Suc k)"
      using len by (simp_all add: rev_nth)
    ultimately show ?thesis using list_all2_nthD [OF r(7), of "length zs - Suc k"] len
      unfolding r(1,2) k by (simp add: nth_append)
  qed
  then show ?thesis using is_branch_chain [OF assms(1) ab(1) r(3)] is_branch_chain [OF assms(1) ab(2) r(4)] r(1,2,5) by simp
qed

text \<open>
  \<open>fetch_branch_from\<close> always returns, and it does not throw when both blocks are in the index and chains
  of live pointers lead down from them to blocks with the same predecessor.
\<close>

theorem fetch_branch_from_returns:
  assumes "fork_ok c f"
  shows "fetch_branch_from i j f \<noteq> None \<and>
    ((\<exists>a b xs ys x y. find_item i f = Some a \<and> find_item j f = Some b \<and> chain f a xs x \<and> chain f b ys y \<and>
        blk_previous (item_block f x) = blk_previous (item_block f y)) \<longrightarrow>
     (\<exists>bs cs. fetch_branch_from i j f = Some (Some (bs, cs))))"
proof (intro conjI impI)
  show "fetch_branch_from i j f \<noteq> None"
  proof (cases "find_item i f = None \<or> find_item j f = None")
    case True
    then show ?thesis by (auto simp: fetch_branch_from_def split: option.splits)
  next
    case False
    then obtain a b where "find_item i f = Some a" "find_item j f = Some b" by auto
    from fetch_branch_from_cases [OF assms this] show ?thesis by fastforce
  qed
next
  assume "\<exists>a b xs ys x y. find_item i f = Some a \<and> find_item j f = Some b \<and> chain f a xs x \<and> chain f b ys y \<and>
        blk_previous (item_block f x) = blk_previous (item_block f y)"
  then obtain a b xs ys x y where h: "find_item i f = Some a" "find_item j f = Some b" "chain f a xs x" "chain f b ys y"
        "blk_previous (item_block f x) = blk_previous (item_block f y)" by blast
  let ?n = "\<lambda>x. block_num (item_block f x)"
  have l: "a < length (fk_items f)" "b < length (fk_items f)"
    using find_item_Some(1) h(1,2) fork_ok_index [OF assms] by blast+
  note nums = chain_num [OF assms l(1) h(3)] chain_num [OF assms l(2) h(4)] same_previous_num [OF h(5)]
  have da: "walk_down f (?n b) [] a \<noteq> Some None" by (rule walk_down_complete [OF assms l(1) h(3)]) (use nums in simp)
  obtain xs' a' where a: "walk_down f (?n b) [] a = Some (Some ([] @ xs', a'))" "chain f a xs' a'" "?n a' = min (?n b) (?n a)"
    by (rule walk_down_chain [OF assms l(1), of "?n b" "[]"]) (use da in blast)+
  have db: "walk_down f (?n a') [] b \<noteq> Some None" by (rule walk_down_complete [OF assms l(2) h(4)]) (use nums a(3) in simp)
  obtain ys' b' where b: "walk_down f (?n a') [] b = Some (Some ([] @ ys', b'))" "chain f b ys' b'" "?n b' = min (?n a') (?n b)"
    by (rule walk_down_chain [OF assms l(2), of "?n a'" "[]"]) (use db in blast)+
  note n' = chain_num [OF assms l(1) a(2)] chain_num [OF assms l(2) b(2)] a(3) b(3)
  have le: "length xs' \<le> length xs" "length ys' \<le> length ys" using nums n' by linarith+
  have len: "length xs - length xs' = length ys - length ys'" using nums n' by linarith
  have "walk_both f xs' ys' a' b' \<noteq> Some None"
    by (rule walk_both_complete [OF _ chain_split [OF h(3) a(2) le(1)] chain_split [OF h(4) b(2) le(2)] h(5)])
      (simp add: len)
  then have "fetch_branch_from i j f \<noteq> Some None" using h(1,2) a(1) b(1) by (simp add: fetch_branch_from_def)
  with fetch_branch_from_cases [OF assms h(1,2)] show "\<exists>bs cs. fetch_branch_from i j f = Some (Some (bs, cs))" by blast
qed

text \<open>
  C32. Pushing a block keeps the database a forest, with unique ids, in which the head is highest. The head
  stays, or it becomes the block pushed, which is then higher than the old one.
\<close>

theorem push_keeps_forest:
  assumes "fork_ok c f" "head_highest f" "block_num b \<noteq> 0" "fork_push_block c b f = Some f'"
  shows "fork_ok c f' \<and> head_highest f' \<and>
    (fk_head f' = fk_head f \<or> (\<exists>a. fk_head f' = Some a \<and> item_block f' a = b \<and>
       (\<forall>h. fk_head f = Some h \<longrightarrow> block_num b > fi_num (item_at f h))))"
  using fork_ok_push [OF assms(1,3,4)] head_highest_push [OF assms(2,1,4)] by blast

subsection \<open>A fork\<close>

text \<open>Block 1 and two blocks 2 that build on it.\<close>

definition fork_digests :: block_crypto where
  "fork_digests = sample_digests\<lparr>header_hash := \<lambda>b. nat (blk_timestamp b) * 2 ^ 32\<rparr>"

definition fork_block :: "block_id_type \<Rightarrow> int \<Rightarrow> signed_block" where
  "fork_block p t = \<lparr>blk_previous = p, blk_timestamp = t, blk_witness = 0, blk_next_secret_hash = 0, blk_previous_secret = 0,
     blk_transaction_merkle_root = 0, blk_delegate_signature = 0, blk_transactions = []\<rparr>"

definition id_of_1 :: block_id_type where "id_of_1 = 21491613696"
definition id_of_2a :: block_id_type where "id_of_2a = 30098325504"
definition id_of_2b :: block_id_type where "id_of_2b = 38688260096"

definition sample_forks :: fork_database where
  "sample_forks = \<lparr>fk_items =
     [\<lparr>fi_prev = None, fi_num = 1, fi_invalid = False, fi_id = id_of_1, fi_data = fork_block 0 5\<rparr>,
      \<lparr>fi_prev = Some 0, fi_num = 2, fi_invalid = False, fi_id = id_of_2a, fi_data = fork_block id_of_1 7\<rparr>,
      \<lparr>fi_prev = Some 0, fi_num = 2, fi_invalid = False, fi_id = id_of_2b, fi_data = fork_block id_of_1 9\<rparr>],
     fk_index = [0, 1, 2], fk_head = Some 1\<rparr>"

lemma fork_block_num: "block_num (fork_block 0 t) = 1" "block_num (fork_block id_of_1 t) = 2" "block_num (fork_block id_of_2b t) = 3"
  by (simp_all add: block_num_def num_from_id_def htonl_def hash_word_def fork_block_def id_of_1_def id_of_2b_def)

lemma fork_block_id:
  "block_id fork_digests (fork_block 0 5) = id_of_1" "block_id fork_digests (fork_block id_of_1 7) = id_of_2a"
  "block_id fork_digests (fork_block id_of_1 9) = id_of_2b"
  by (simp_all add: block_id_def fork_block_num fork_digests_def sample_digests_def htonl_def)
    (simp_all add: fork_block_def id_of_1_def id_of_2a_def id_of_2b_def)

lemma less_3_cases: "a < Suc (Suc (Suc 0)) \<Longrightarrow> a = 0 \<or> a = 1 \<or> a = (2 :: nat)"
  by auto

lemma sample_forks_ok: "fork_ok fork_digests sample_forks" "head_highest sample_forks"
proof -
  have "item_ok fork_digests sample_forks a" if a: "a < 3" for a
  proof -
    have "a = 0 \<or> a = 1 \<or> a = 2" using a by auto
    then show ?thesis
      by (elim disjE) (simp_all add: sample_forks_def item_ok_def item_block_def fork_block_num fork_block_id, simp_all add: fork_block_def)
  qed
  then show "fork_ok fork_digests sample_forks"
    by (simp add: fork_ok_def) (simp add: sample_forks_def id_of_1_def id_of_2a_def id_of_2b_def)
  show "head_highest sample_forks" by (simp add: head_highest_def sample_forks_def)
qed

lemma sample_items: "find_item id_of_2a sample_forks = Some 1" "find_item id_of_2b sample_forks = Some 2"
  "item_block sample_forks 1 = fork_block id_of_1 7" "item_block sample_forks 2 = fork_block id_of_1 9"
  by (simp_all add: find_item_def item_block_def sample_forks_def id_of_1_def id_of_2a_def id_of_2b_def)

lemma sample_branches: "fetch_branch_from id_of_2a id_of_2b sample_forks = Some (Some ([1], [2]))"
proof -
  note b = sample_items
  have "walk_down sample_forks 2 [] 1 = Some (Some ([], 1))" "walk_down sample_forks 2 [] 2 = Some (Some ([], 2))"
    by (subst walk_down.simps, simp add: b fork_block_num del: One_nat_def)+
  moreover have "walk_both sample_forks [] [] 1 2 = Some (Some ([1], [2]))"
    by (subst walk_both.simps, simp add: b del: One_nat_def, simp add: fork_block_def)
  ultimately show ?thesis using b by (simp add: fetch_branch_from_def fork_block_num)
qed

lemma fetched_branches_meet_witness:
  "is_branch sample_forks id_of_2a [1] \<and> is_branch sample_forks id_of_2b [2] \<and>
     blk_previous (item_block sample_forks 1) = blk_previous (item_block sample_forks 2)"
  using fetched_branches_meet [OF sample_forks_ok(1) sample_branches] by simp

lemma fetch_branch_from_returns_witness: "\<exists>bs cs. fetch_branch_from id_of_2a id_of_2b sample_forks = Some (Some (bs, cs))"
proof -
  have "chain sample_forks 1 [] 1" "chain sample_forks 2 [] 2"
    "blk_previous (item_block sample_forks 1) = blk_previous (item_block sample_forks 2)"
    by (simp_all add: sample_items del: One_nat_def) (simp add: fork_block_def)
  then show ?thesis using fetch_branch_from_returns [OF sample_forks_ok(1), of id_of_2a id_of_2b] sample_items(1,2) by blast
qed

lemma push_keeps_forest_witness:
  "\<exists>f'. fork_push_block fork_digests (fork_block id_of_2b 11) sample_forks = Some f' \<and> fork_ok fork_digests f' \<and>
     head_highest f' \<and> fk_head f' = Some 3"
proof -
  have "\<exists>f'. fork_push_block fork_digests (fork_block id_of_2b 11) sample_forks = Some f' \<and> fk_head f' = Some 3"
  proof -
    have "blk_previous (fork_block id_of_2b 11) = id_of_2b" "id_of_2b \<noteq> 0" by (simp_all add: fork_block_def id_of_2b_def)
    moreover have "fk_head sample_forks = Some 1" "fi_num (item_at sample_forks 1) = 2" "length (fk_items sample_forks) = 3"
      "\<not> fi_invalid (item_at sample_forks 2)" by (simp_all add: sample_forks_def)
    ultimately show ?thesis
      by (auto simp: fork_push_block_def sample_items allocate_item_def raise_head_def new_fork_item_def fork_block_num nth_append insert_item_def)
  qed
  then show ?thesis using push_keeps_forest [OF sample_forks_ok _, of "fork_block id_of_2b 11"] fork_block_num(3) by fastforce
qed

end
