(* ===== verification/Expiry.thy ===== *)
theory Expiry
  imports Block Voting
begin

section \<open>What expires at the end of a block\<close>

text \<open>
  Models the five clearing functions at the end of \<^verbatim>\<open>libraries/chain/database.cpp\<close>:
  \<open>clear_expired_transactions\<close>, \<open>clear_expired_proposals\<close>, \<open>clear_expired_orders\<close>, \<open>update_expired_feeds\<close> and
  \<open>update_withdraw_permissions\<close>. The first element of an index by expiration is the one that expires first,
  among equals the one created first. A loop that need not end is a partial function; \<open>None\<close> stands for an
  exception, the end of an iterator read through, or no return. Plain \<open>assert\<close>s are left out.

  Expired transactions go all at once or not at all, expired permissions go, an expired order stops the chain
  when cancelling is not free, and settlements do not wait for their date.
\<close>

subsection \<open>Indexes by expiration\<close>

definition by_expiration :: "('a \<Rightarrow> time_point_sec) \<Rightarrow> 'a table \<Rightarrow> (nat \<times> 'a) list" where
  "by_expiration e t = sort_by (\<lambda>x y. e (snd x) < e (snd y)) (entries t)"

definition begin_entry :: "('a \<Rightarrow> time_point_sec) \<Rightarrow> 'a table \<Rightarrow> (nat \<times> 'a) option" where
  "begin_entry e t = (case by_expiration e t of [] \<Rightarrow> None | x # _ \<Rightarrow> Some x)"

definition rbegin_entry :: "('a \<Rightarrow> time_point_sec) \<Rightarrow> 'a table \<Rightarrow> (nat \<times> 'a) option" where
  "rbegin_entry e t = (case rev (by_expiration e t) of [] \<Rightarrow> None | x # _ \<Rightarrow> Some x)"

subsection \<open>Transactions\<close>

definition forking_window_time :: "database \<Rightarrow> int" where
  "forking_window_time d = uint32 (maximum_undo_history (parameters (gprops d)) * block_interval (parameters (gprops d)))"

partial_function (option) clear_expired_transactions :: "database \<Rightarrow> database option" where
  [code]: "clear_expired_transactions d =
     (case rbegin_entry to_expiration (transactions d) of None \<Rightarrow> Some d
      | Some (i, x) \<Rightarrow>
          if head_block_time d - to_expiration x \<ge> forking_window_time d then do {
            t \<leftarrow> remove_object i (transactions d);
            clear_expired_transactions (d\<lparr>transactions := t\<rparr>) }
          else Some d)"

subsection \<open>Proposals\<close>

text \<open>A proposal that cannot be checked, that is not approved or that fails is removed.\<close>

definition expire_proposal :: "nat \<Rightarrow> nat \<Rightarrow> proposal_object \<Rightarrow> database \<Rightarrow> database option" where
  "expire_proposal depth i p d =
     (case (if is_authorized_to_execute d p = Some True then push_proposal depth i d else None) of
        Some d' \<Rightarrow> Some d'
      | None \<Rightarrow> do { t \<leftarrow> remove_object i (proposals d); Some (d\<lparr>proposals := t\<rparr>) })"

partial_function (option) clear_expired_proposals :: "nat \<Rightarrow> database \<Rightarrow> database option" where
  [code]: "clear_expired_proposals depth d =
     (case begin_entry prop_expiration_time (proposals d) of None \<Rightarrow> Some d
      | Some (i, p) \<Rightarrow>
          if prop_expiration_time p \<le> head_block_time d
          then do { d1 \<leftarrow> expire_proposal depth i p d; clear_expired_proposals depth d1 }
          else Some d)"

subsection \<open>Limit and short orders\<close>

definition cancel_context :: transaction_evaluation_state where
  "cancel_context = \<lparr>approved_by = [], operation_results = [],
     es_trx = \<lparr>ref_block_num = 0, ref_block_prefix = 0, relative_expiration = 0, operations = [], signatures = []\<rparr>,
     skip_authority_check = True, is_proposed_trx = False\<rparr>"

definition limit_canceler :: "nat \<Rightarrow> limit_order_object \<Rightarrow> operation" where
  "limit_canceler i o' = Limit_Order_Cancel_Op \<lparr>lc_order = i, lc_fee_paying_account = lim_seller o', lc_fee = mk_asset 0 0\<rparr>"

definition short_canceler :: "nat \<Rightarrow> short_order_object \<Rightarrow> operation" where
  "short_canceler i o' = Short_Order_Cancel_Op \<lparr>sc_order = i, sc_fee_paying_account = sho_seller o', sc_fee = mk_asset 0 0\<rparr>"

partial_function (option) cancel_expired_limits ::
  "transaction_evaluation_state \<Rightarrow> database \<Rightarrow> (transaction_evaluation_state \<times> database) option" where
  [code]: "cancel_expired_limits st d =
     (case begin_entry lim_expiration (limit_orders d) of None \<Rightarrow> Some (st, d)
      | Some (i, o') \<Rightarrow>
          if lim_expiration o' \<le> head_block_time d
          then do { (_, st1, d1) \<leftarrow> apply_operation 0 st (limit_canceler i o') d; cancel_expired_limits st1 d1 }
          else Some (st, d))"

partial_function (option) cancel_expired_shorts ::
  "transaction_evaluation_state \<Rightarrow> database \<Rightarrow> (transaction_evaluation_state \<times> database) option" where
  [code]: "cancel_expired_shorts st d =
     (case begin_entry sho_expiration (short_orders d) of None \<Rightarrow> Some (st, d)
      | Some (i, o') \<Rightarrow>
          if sho_expiration o' \<le> head_block_time d
          then do { (_, st1, d1) \<leftarrow> apply_operation 0 st (short_canceler i o') d; cancel_expired_shorts st1 d1 }
          else Some (st, d))"

subsection \<open>Force settlements\<close>

text \<open>Settlements by their asset and date, margin positions by their collateralization.\<close>

definition settlements_by_expiration :: "database \<Rightarrow> (nat \<times> force_settlement_object) list" where
  "settlements_by_expiration d = sort_by (\<lambda>x y. settlement_asset_id (snd x) < settlement_asset_id (snd y) \<or>
     settlement_asset_id (snd x) = settlement_asset_id (snd y) \<and> fs_settlement_date (snd x) < fs_settlement_date (snd y))
     (entries (settlements d))"

definition collateral_price :: "call_order_object \<Rightarrow> price" where
  "collateral_price c = mk_price (call_get_collateral c) (call_get_debt c)"

definition call_by_collateral :: "database \<Rightarrow> (nat \<times> call_order_object) list" where
  "call_by_collateral d = sort_by (rising collateral_price) (entries (call_orders d))"

partial_function (option) settle_order :: "nat \<Rightarrow> asset_id_type \<Rightarrow> price \<Rightarrow> asset \<Rightarrow> asset \<Rightarrow> database \<Rightarrow> (asset \<times> database) option" where
  [code]: "settle_order i mia_id match_price max_volume settled d =
     (if asset_lt settled max_volume \<and> gi_find (settlements d) i \<noteq> None then do {
        mia \<leftarrow> get_object (assets d) mia_id;
        (_, b) \<leftarrow> bitasset_data mia d;
        lo \<leftarrow> price_min (bd_short_backing_asset b) mia_id;
        call \<leftarrow> rising_lower collateral_price lo (call_by_collateral d);
        max_settlement \<leftarrow> asset_minus max_volume settled;
        (s, d1) \<leftarrow> match_call_settle call i match_price max_settlement d;
        settled' \<leftarrow> asset_plus settled s;
        settle_order i mia_id match_price max_volume settled' d1 }
      else Some (settled, d))"

definition settlement_volume :: "asset_id_type \<Rightarrow> asset_object \<Rightarrow> asset_bitasset_data_object \<Rightarrow> asset \<Rightarrow> database \<Rightarrow> asset option" where
  "settlement_volume current_asset mia b max_volume d =
     (if asset_id max_volume \<noteq> current_asset then do {
        dyn \<leftarrow> get_object (asset_dyns d) (ao_dynamic_asset_data_id mia);
        v \<leftarrow> max_force_settlement_volume (dyn_current_supply dyn) b;
        Some (mk_asset v current_asset) }
      else Some max_volume)"

definition force_settlement_price :: "force_settlement_object \<Rightarrow> asset_bitasset_data_object \<Rightarrow> price option" where
  "force_settlement_price order b = do {
     receives \<leftarrow> asset_mult (fs_balance order) (settlement_price (bd_current_feed b));
     v \<leftarrow> to_uint64 (u128 (u128 (amount receives) * u128 (BTS_100_PERCENT - force_settlement_offset_percent (bd_options b)))
            div BTS_100_PERCENT);
     asset_div (fs_balance order) (mk_asset (int64 v) (asset_id receives)) }"

text \<open>Each round takes the first settlement of an asset or goes on to the next asset.\<close>

partial_function (option) settle_assets :: "asset_id_type \<Rightarrow> asset \<Rightarrow> database \<Rightarrow> database option" where
  [code]: "settle_assets current_asset max_volume d =
     (case List.find (\<lambda>x. settlement_asset_id (snd x) \<ge> current_asset) (settlements_by_expiration d) of None \<Rightarrow> Some d
      | Some (i, order) \<Rightarrow> do {
          let current = settlement_asset_id order;
          mia \<leftarrow> get_object (assets d) current;
          (bit_id, b) \<leftarrow> bitasset_data mia d;
          volume \<leftarrow> settlement_volume current mia b max_volume d;
          if is_null (settlement_price (bd_current_feed b)) \<or> bd_force_settled_volume b \<ge> amount volume then
            (case List.find (\<lambda>x. settlement_asset_id (snd x) > current) (settlements_by_expiration d) of None \<Rightarrow> Some d
             | Some (_, x) \<Rightarrow> settle_assets (settlement_asset_id x) volume d)
          else do {
            p \<leftarrow> force_settlement_price order b;
            (settled, d1) \<leftarrow> settle_order i current p volume (mk_asset (bd_force_settled_volume b) current) d;
            t \<leftarrow> modify_object bit_id (\<lambda>b. Some (b\<lparr>bd_force_settled_volume := amount settled\<rparr>)) (bitassets d1);
            settle_assets current volume (d1\<lparr>bitassets := t\<rparr>) } })"

definition execute_settlements :: "database \<Rightarrow> database option" where
  "execute_settlements d = (case settlements_by_expiration d of [] \<Rightarrow> Some d
     | (_, x) # _ \<Rightarrow> settle_assets (settlement_asset_id x) (mk_asset 0 0) d)"

definition clear_expired_orders :: "database \<Rightarrow> database option" where
  "clear_expired_orders d = do {
     (st, d1) \<leftarrow> cancel_expired_limits cancel_context d;
     (_, d2) \<leftarrow> cancel_expired_shorts st d1;
     execute_settlements d2 }"

subsection \<open>Feeds and permissions\<close>

definition update_expired_feeds :: "database \<Rightarrow> database" where
  "update_expired_feeds d = d\<lparr>bitassets := fold (\<lambda>(i, b) t.
     if feed_is_expired (head_block_time d) b then gi_modify i (update_median_feeds (head_block_time d)) t else t)
     (entries (bitassets d)) (bitassets d)\<rparr>"

partial_function (option) update_withdraw_permissions :: "database \<Rightarrow> database option" where
  [code]: "update_withdraw_permissions d =
     (case begin_entry wp_expiration (permissions d) of None \<Rightarrow> Some d
      | Some (i, p) \<Rightarrow>
          if wp_expiration p < head_block_time d then do {
            t \<leftarrow> remove_object i (permissions d);
            update_withdraw_permissions (d\<lparr>permissions := t\<rparr>) }
          else Some d)"

subsection \<open>The ends of an index\<close>

lemma set_by_expiration [simp]: "set (by_expiration e t) = set (entries t)"
  by (simp add: by_expiration_def)

lemma sorted_by_expiration: "sorted_wrt (\<lambda>x y. e (snd x) \<le> e (snd y)) (by_expiration e t)"
proof -
  have "weak_order_on (set (entries t)) (\<lambda>x y. e (snd x) < e (snd y))" by (auto simp: weak_order_on_def)
  from sorted_sort_by [OF this] show ?thesis by (simp add: by_expiration_def sorted_by_def not_less)
qed

lemma begin_entry_None: "begin_entry e t = None \<longleftrightarrow> entries t = []"
  using set_by_expiration [of e t] by (auto simp: begin_entry_def split: list.splits simp del: set_by_expiration)

lemma begin_entry_Some:
  assumes "begin_entry e t = Some (i, x)"
  shows "(i, x) \<in> set (entries t)" "(j, y) \<in> set (entries t) \<Longrightarrow> e x \<le> e y"
proof -
  from assms obtain xs where b: "by_expiration e t = (i, x) # xs" by (auto simp: begin_entry_def split: list.splits)
  then show "(i, x) \<in> set (entries t)" using set_by_expiration [of e t] by auto
  assume "(j, y) \<in> set (entries t)"
  then have "(j, y) \<in> set ((i, x) # xs)" using set_by_expiration [of e t] b by simp
  then show "e x \<le> e y" using sorted_by_expiration [of e t] b by auto
qed

lemma rbegin_entry_None: "rbegin_entry e t = None \<longleftrightarrow> entries t = []"
proof -
  have "rbegin_entry e t = None \<longleftrightarrow> by_expiration e t = []" by (auto simp: rbegin_entry_def split: list.splits)
  also have "\<dots> \<longleftrightarrow> entries t = []" using set_by_expiration [of e t] by (metis set_empty)
  finally show ?thesis .
qed

lemma rbegin_entry_Some:
  assumes "rbegin_entry e t = Some (i, x)"
  shows "(i, x) \<in> set (entries t)" "(j, y) \<in> set (entries t) \<Longrightarrow> e y \<le> e x"
proof -
  from assms obtain xs where "rev (by_expiration e t) = (i, x) # xs" by (auto simp: rbegin_entry_def split: list.splits)
  then have b: "by_expiration e t = rev xs @ [(i, x)]" by (metis rev.simps(2) rev_rev_ident)
  then show "(i, x) \<in> set (entries t)" using set_by_expiration [of e t] by auto
  assume "(j, y) \<in> set (entries t)"
  then have "(j, y) \<in> set (rev xs @ [(i, x)])" using set_by_expiration [of e t] b by simp
  then show "e y \<le> e x" using sorted_by_expiration [of e t] b by (auto simp: sorted_wrt_append)
qed

lemma remove_entry:
  assumes "gi_invar t" "(i, x) \<in> set (entries t)"
  shows "remove_object i t = Some (gi_remove i t)" "gi_invar (gi_remove i t)"
    "length (entries (gi_remove i t)) < length (entries t)" "set (entries (gi_remove i t)) = {(j, y) \<in> set (entries t). j \<noteq> i}"
proof -
  have f: "gi_find t i = Some x" using assms by (simp add: gi_find_entries)
  then show r: "remove_object i t = Some (gi_remove i t)" by (simp add: remove_object_def)
  show "gi_invar (gi_remove i t)" by (rule remove_object_invar [OF r assms(1)])
  show "length (entries (gi_remove i t)) < length (entries t)"
    using assms(2) by (auto simp: gi_remove_def intro!: length_filter_less)
  show "set (entries (gi_remove i t)) = {(j, y) \<in> set (entries t). j \<noteq> i}" by (auto simp: gi_remove_def)
qed

subsection \<open>Expired transactions\<close>

text \<open>
  The loop looks at the transaction that expires last: as long as one transaction is within the window
  no transaction is removed, however long it has expired, and otherwise all of them are.
\<close>

theorem expired_transactions_all_or_nothing:
  assumes "gi_invar (transactions d)"
  shows "clear_expired_transactions d = Some
    (if \<exists>(i, x) \<in> set (entries (transactions d)). head_block_time d - to_expiration x < forking_window_time d then d
     else d\<lparr>transactions := (transactions d)\<lparr>entries := []\<rparr>\<rparr>)"
  using assms
proof (induction "length (entries (transactions d))" arbitrary: d rule: less_induct)
  case less
  show ?case
  proof (cases "rbegin_entry to_expiration (transactions d)")
    case None
    then have "entries (transactions d) = []" by (simp add: rbegin_entry_None)
    then have "d\<lparr>transactions := (transactions d)\<lparr>entries := []\<rparr>\<rparr> = d" by simp
    then show ?thesis using None by (subst clear_expired_transactions.simps) (simp del: rbegin_entry_None)
  next
    case (Some ix)
    obtain i x where ix: "ix = (i, x)" by force
    with Some have r: "rbegin_entry to_expiration (transactions d) = Some (i, x)" by simp
    note x = rbegin_entry_Some [OF r]
    show ?thesis
    proof (cases "head_block_time d - to_expiration x \<ge> forking_window_time d")
      case False
      then have "\<exists>(i, x) \<in> set (entries (transactions d)). head_block_time d - to_expiration x < forking_window_time d"
        using x(1) by (intro bexI [of _ "(i, x)"]) auto
      with False r show ?thesis by (subst clear_expired_transactions.simps) simp
    next
      case True
      note re = remove_entry [OF less.prems x(1)]
      let ?d = "d\<lparr>transactions := gi_remove i (transactions d)\<rparr>"
      have old: "\<not> head_block_time d - to_expiration y < forking_window_time d" if "(j, y) \<in> set (entries (transactions d))" for j y
        using x(2) [OF that] True by linarith
      have w: "head_block_time ?d = head_block_time d" "forking_window_time ?d = forking_window_time d"
        by (simp_all add: head_block_time_def forking_window_time_def)
      have "clear_expired_transactions d = clear_expired_transactions ?d"
        using True r re(1) by (subst clear_expired_transactions.simps) simp
      also have "\<dots> = Some (?d\<lparr>transactions := (transactions ?d)\<lparr>entries := []\<rparr>\<rparr>)"
        using less.hyps [of ?d] re w old by fastforce
      also have "\<dots> = Some (d\<lparr>transactions := (transactions d)\<lparr>entries := []\<rparr>\<rparr>)" by (simp add: gi_remove_def)
      finally show ?thesis using old by fastforce
    qed
  qed
qed

subsection \<open>Expired orders\<close>

lemma free_operation_refused:
  assumes "op_fee op = mk_asset 0 0" "calculate_fee op (current_fee_schedule d) = Some f" "f > 0"
  shows "start_evaluate op ev app st d = None"
proof -
  have "\<not> c \<ge> f" if "prepare_fee i (mk_asset 0 0) d = Some c" for i c
    using that assms(3) by (auto simp: prepare_fee_def)
  moreover have "\<exists>c. prepare_fee (fee_payer op) (mk_asset 0 0) d = Some c \<and> c \<ge> f" if "start_evaluate op ev app st d = Some r" for r
    using that assms(1,2) unfolding start_evaluate_def Option.bind_eq_Some_conv fc_assert_Some by auto
  ultimately show ?thesis by (cases "start_evaluate op ev app st d") blast+
qed

lemma cancel_refused:
  assumes "fee_of (current_fee_schedule d) limit_order_fee_type = Some f" "f > 0"
  shows "apply_operation 0 st (limit_canceler i o') d = None"
proof -
  have "current_fee_schedule (push_applied_operation op d) = current_fee_schedule d" for op
    by (simp add: current_fee_schedule_def push_applied_operation_def)
  then show ?thesis
    using assms by (subst apply_operation.simps) (simp add: limit_canceler_def Let_def free_operation_refused)
qed

text \<open>
  When placing a limit order costs a fee, an expired limit order cannot be cleared: the operation that
  cancels it comes with a fee of nothing, is refused, and the exception leaves \<open>clear_expired_orders\<close>.
\<close>

theorem expired_order_cannot_be_cleared:
  assumes "gi_invar (limit_orders d)" "gi_find (limit_orders d) i = Some x" "lim_expiration x \<le> head_block_time d"
    and "fee_of (current_fee_schedule d) limit_order_fee_type = Some f" "f > 0"
  shows "clear_expired_orders d = None"
proof -
  have x: "(i, x) \<in> set (entries (limit_orders d))" using assms(1,2) by (simp add: gi_find_entries)
  then obtain j y where b: "begin_entry lim_expiration (limit_orders d) = Some (j, y)"
    using begin_entry_None [of lim_expiration "limit_orders d"] by (cases "begin_entry lim_expiration (limit_orders d)") auto
  then have "lim_expiration y \<le> head_block_time d" using begin_entry_Some(2) [OF b x] assms(3) by simp
  with b have "cancel_expired_limits cancel_context d = None"
    using cancel_refused [OF assms(4,5)] by (subst cancel_expired_limits.simps) simp
  then show ?thesis by (simp add: clear_expired_orders_def)
qed

subsection \<open>Concrete runs\<close>

text \<open>A transaction that expired an eternity ago and one that has just expired; the limit orders of the market expire at 100.\<close>

definition old_and_new :: database where
  "old_and_new = sample_market\<lparr>
     transactions := table_of [\<lparr>to_trx = es_trx cancel_context, to_expiration = 100, to_trx_id = 1\<rparr>,
       \<lparr>to_trx = es_trx cancel_context, to_expiration = 99990, to_trx_id = 2\<rparr>],
     gprops := (gprops sample_market)\<lparr>parameters := (parameters (gprops sample_market))\<lparr>
       current_fees := (replicate FEE_TYPE_COUNT 0)[fee_index limit_order_fee_type := 3]\<rparr>\<rparr>,
     dprops := (dprops sample_market)\<lparr>dg_time := 100000\<rparr>\<rparr>"

lemma expired_transactions_all_or_nothing_witness:
  "clear_expired_transactions old_and_new = Some old_and_new \<and>
     head_block_time old_and_new - 100 \<ge> forking_window_time old_and_new"
proof -
  have t: "transactions old_and_new = table_of [\<lparr>to_trx = es_trx cancel_context, to_expiration = 100, to_trx_id = 1\<rparr>,
       \<lparr>to_trx = es_trx cancel_context, to_expiration = 99990, to_trx_id = 2\<rparr>]" "head_block_time old_and_new = 100000"
    by (simp_all add: old_and_new_def head_block_time_def)
  have w: "forking_window_time old_and_new = 5120" by code_simp
  have "\<exists>(i, x) \<in> set (entries (transactions old_and_new)). head_block_time old_and_new - to_expiration x < forking_window_time old_and_new"
    unfolding t w by (simp add: table_of_def)
  then show ?thesis using expired_transactions_all_or_nothing [of old_and_new] t w by simp
qed

lemma expired_order_cannot_be_cleared_witness: "clear_expired_orders old_and_new = None"
proof (rule expired_order_cannot_be_cleared)
  show "gi_invar (limit_orders old_and_new)" by (simp add: old_and_new_def sample_market_def)
  show "gi_find (limit_orders old_and_new) 0 = Some \<lparr>lim_expiration = 100, lim_seller = 2, lim_for_sale = 1000,
      lim_sell_price = mk_price (mk_asset 1000 0) (mk_asset 100 1)\<rparr>"
    by (simp add: old_and_new_def sample_market_def)
  show "fee_of (current_fee_schedule old_and_new) limit_order_fee_type = Some 3" by code_simp
qed (simp_all add: old_and_new_def head_block_time_def)

text \<open>
  Nothing in \<open>execute_settlements\<close> reads the date of a settlement but the order of its index: one that is due at
  1000000 is executed at time 0, up to the volume an interval allows.
\<close>

definition sample_early :: database where
  "sample_early = sample_market\<lparr>
     asset_dyns := gi_modify 2 (\<lambda>x. x\<lparr>dyn_current_supply := 100\<rparr>) (asset_dyns sample_market),
     bitassets := gi_modify 0 (\<lambda>b. b\<lparr>bd_current_feed := default_feed\<lparr>settlement_price := mk_price (mk_asset 10 0) (mk_asset 1 2)\<rparr>\<rparr>)
       (bitassets sample_market),
     settlements := gi_modify 0 (\<lambda>s. s\<lparr>fs_settlement_date := 1000000\<rparr>) (settlements sample_market)\<rparr>"

lemma settlement_executed_early:
  "map_option (\<lambda>d'. (map_option (\<lambda>s. (fs_settlement_date s, fs_balance s)) (gi_find (settlements d') 0), head_block_time d'))
     (clear_expired_orders sample_early) = Some (Some (1000000, mk_asset 40 2), 0)"
  by code_simp

end
