(* ===== verification/Chain.thy ===== *)
theory Chain
  imports Fork_Db Expiry Budget "HOL-Library.Code_Target_Nat"
begin

unbundle bit_operations_syntax

section \<open>Applying blocks\<close>

text \<open>
  Models the life of a block in \<^verbatim>\<open>libraries/chain/database.cpp\<close>: \<open>validate_block_header\<close>, \<open>apply_block\<close> with
  its steps, \<open>push_block\<close> with the switch of forks, \<open>pop_block\<close>, \<open>push_transaction\<close>, \<open>clear_pending\<close> and
  \<open>generate_block\<close>. The state is the members of \<open>database\<close> that matter: the objects, the undo stack, the
  pending block and its session, the fork database and the stored blocks.

  The undo stack holds for each session the objects as they were when it started, which by theory \<open>Undo\<close> is
  what a session restores, also after a merge unless the merged session removed an object the outer one had
  modified; the pending block is no object and is not restored. A function that throws gives
  the state it leaves behind, as \<open>Inl\<close>; the objects in it are those the enclosing session will restore, so
  the model leaves them as they were. The outer option is None where undoing itself throws or a loop does not
  return. Signals to observers are left out.
\<close>

record block_env = block_crypto +
  pack_size :: "signed_block \<Rightarrow> int"
  sign_header :: "nat \<Rightarrow> signed_block \<Rightarrow> nat"
  public_key_of :: "nat \<Rightarrow> key_data"
  next_secret :: "nat \<Rightarrow> secret_hash_type \<Rightarrow> secret_hash_type"
  rehash_random :: "nat \<Rightarrow> nat"

record chain =
  ch_db :: database
  ch_undo :: "database list"
  ch_active :: nat
  ch_pending_session :: bool
  ch_pending :: signed_block
  ch_fork :: fork_database
  ch_blocks :: "block_id_type \<Rightarrow> signed_block option"

text \<open>The time and the predecessor of the pending block are kept with the objects.\<close>

definition pending_block :: "chain \<Rightarrow> signed_block" where
  "pending_block ch = (ch_pending ch)\<lparr>blk_timestamp := pending_timestamp (ch_db ch), blk_previous := pending_previous (ch_db ch)\<rparr>"

definition skip_block_size_check :: int where "skip_block_size_check = 0x40"

subsection \<open>Sessions\<close>

definition undo_max_size :: nat where "undo_max_size = 256"

definition restore :: "database \<Rightarrow> database \<Rightarrow> database" where
  "restore saved d = saved\<lparr>pending_timestamp := pending_timestamp d, pending_previous := pending_previous d, applied_ops := applied_ops d\<rparr>"

definition start_session :: "chain \<Rightarrow> chain" where
  "start_session ch = ch\<lparr>ch_undo := ch_db ch # (if length (ch_undo ch) = undo_max_size then butlast (ch_undo ch) else ch_undo ch),
     ch_active := ch_active ch + 1\<rparr>"

definition undo_session :: "chain \<Rightarrow> chain option" where
  "undo_session ch = do {
     fc_assert (ch_active ch > 0);
     case ch_undo ch of [] \<Rightarrow> None
     | s # rest \<Rightarrow> let d = restore s (ch_db ch) in
         Some (ch\<lparr>ch_db := d, ch_undo := (if rest = [] then [d] else rest), ch_active := ch_active ch - 1\<rparr>) }"

definition merge_session :: "chain \<Rightarrow> chain option" where
  "merge_session ch = do {
     fc_assert (ch_active ch > 0);
     fc_assert (length (ch_undo ch) \<ge> 2);
     Some (ch\<lparr>ch_undo := tl (ch_undo ch), ch_active := ch_active ch - 1\<rparr>) }"

definition commit_session :: "chain \<Rightarrow> chain option" where
  "commit_session ch = do { fc_assert (ch_active ch > 0); Some (ch\<lparr>ch_active := ch_active ch - 1\<rparr>) }"

definition pop_undo :: "chain \<Rightarrow> chain option" where
  "pop_undo ch = do {
     fc_assert (ch_active ch = 0);
     case ch_undo ch of [] \<Rightarrow> None
     | s # rest \<Rightarrow> Some (ch\<lparr>ch_db := restore s (ch_db ch), ch_undo := rest\<rparr>) }"

definition reset_pending_session :: "chain \<Rightarrow> chain option" where
  "reset_pending_session ch =
     (if ch_pending_session ch then undo_session (ch\<lparr>ch_pending_session := False\<rparr>) else Some ch)"

subsection \<open>The steps of a block\<close>

definition validate_block_header :: "block_env \<Rightarrow> int \<Rightarrow> signed_block \<Rightarrow> database \<Rightarrow> witness_id_type option" where
  "validate_block_header c skip b d = do {
     fc_assert (pending_previous d = blk_previous b);
     fc_assert (pending_timestamp d \<le> blk_timestamp b);
     fc_assert (pending_timestamp d mod block_interval (parameters (gprops d)) = 0);
     w \<leftarrow> get_object (witnesses d) (blk_witness b);
     fc_assert (secret_hash c (blk_previous_secret b) = wit_next_secret w);
     _ \<leftarrow> (if has_flag skip skip_delegate_signature then Some ()
           else do { k \<leftarrow> get_object (keys d) (wit_signing_key w); fc_assert (header_signed c k b) });
     scheduled \<leftarrow> get_scheduled_witness (blk_timestamp b) d;
     (t, i) \<leftarrow> scheduled;
     fc_assert (t = blk_timestamp b);
     fc_assert (blk_witness b = i);
     Some (blk_witness b) }"

definition update_global_dynamic_data :: "block_env \<Rightarrow> signed_block \<Rightarrow> database \<Rightarrow> database" where
  "update_global_dynamic_data c b d = d\<lparr>dprops := (dprops d)\<lparr>random := mix_secret c (random (dprops d)) (blk_previous_secret b),
     head_block_number := int (block_num b), head_block_id := block_id c b, dg_time := blk_timestamp b,
     current_witness := blk_witness b\<rparr>\<rparr>"

definition update_signing_witness :: "witness_id_type \<Rightarrow> signed_block \<Rightarrow> database \<Rightarrow> database option" where
  "update_signing_witness i b d = do {
     let witness_pay = min (witness_pay_per_block (parameters (gprops d))) (witness_budget (dprops d));
     budget \<leftarrow> share (witness_budget (dprops d) - witness_pay);
     let d1 = d\<lparr>dprops := (dprops d)\<lparr>witness_budget := budget\<rparr>\<rparr>;
     t \<leftarrow> modify_object i (\<lambda>w. do {
            income \<leftarrow> share (wit_accumulated_income w + witness_pay);
            Some (w\<lparr>wit_last_secret := blk_previous_secret b, wit_next_secret := blk_next_secret_hash b,
              wit_accumulated_income := income\<rparr>) }) (witnesses d1);
     Some (d1\<lparr>witnesses := t\<rparr>) }"

subsection \<open>Maintenance\<close>

definition hold_elections :: "block_env \<Rightarrow> database \<Rightarrow> (vote_totals \<times> database) option" where
  "hold_elections c d = do {
     t \<leftarrow> update_vote_totals d;
     d1 \<leftarrow> update_active_witnesses (rehash_random c) t d;
     d2 \<leftarrow> update_active_delegates t d1;
     Some (t, d2) }"

definition adopt_parameters :: "database \<Rightarrow> database" where
  "adopt_parameters d = (case pending_parameters (gprops d) of None \<Rightarrow> d
     | Some p \<Rightarrow> d\<lparr>gprops := (gprops d)\<lparr>parameters := p, pending_parameters := None\<rparr>\<rparr>)"

definition maintenance_timestamp :: "signed_block \<Rightarrow> database \<Rightarrow> time_point_sec" where
  "maintenance_timestamp b d =
     (let new_block_interval = block_interval (parameters (gprops d));
          t = uint32 (blk_timestamp b + new_block_interval);
          r = t mod new_block_interval
      in if r = 0 then t - r else t)"

definition following_maintenance :: "signed_block \<Rightarrow> database \<Rightarrow> time_point_sec option" where
  "following_maintenance b d = do {
     let interval = maintenance_interval (parameters (gprops d));
     let due = next_maintenance_time (dprops d);
     if due \<le> blk_timestamp b then
       if block_num b = 1 then do {
         fc_assert (interval \<noteq> 0);
         Some (uint32 ((blk_timestamp b div interval + 1) * interval)) }
       else Some (uint32 (due + interval))
     else Some due }"

definition finish_maintenance :: "signed_block \<Rightarrow> vote_totals \<Rightarrow> database \<Rightarrow> database option" where
  "finish_maintenance b t d = do {
     n \<leftarrow> following_maintenance b d;
     process_budget (vote_tally t) (d\<lparr>dprops := (dprops d)\<lparr>next_maintenance_time := n\<rparr>,
       bitassets := fold (\<lambda>(i, _). gi_modify i (\<lambda>x. x\<lparr>bd_force_settled_volume := 0\<rparr>)) (entries (bitassets d)) (bitassets d)\<rparr>) }"

text \<open>An exception before the elections are over leaves the pending block alone, one after it does not.\<close>

definition perform_chain_maintenance :: "block_env \<Rightarrow> signed_block \<Rightarrow> database \<Rightarrow> database + database" where
  "perform_chain_maintenance c b d =
     (case hold_elections c d of None \<Rightarrow> Inl d
      | Some (t, d1) \<Rightarrow>
          let d2 = adopt_parameters d1 in
          if block_interval (parameters (gprops d2)) = 0 then Inl d
          else let ts = maintenance_timestamp b d2 in
            (case finish_maintenance b t (d2\<lparr>pending_timestamp := ts\<rparr>) of
               None \<Rightarrow> Inl (d\<lparr>pending_timestamp := ts\<rparr>)
             | Some d3 \<Rightarrow> Inr d3))"

definition end_of_round :: "block_env \<Rightarrow> signed_block \<Rightarrow> database \<Rightarrow> database + database" where
  "end_of_round c b d =
     (if next_maintenance_time (dprops d) \<le> blk_timestamp b then perform_chain_maintenance c b d
      else if active_delegates (gprops d) = [] then Inl d
      else if block_num b mod length (active_delegates (gprops d)) = 0
      then Inr (d\<lparr>gprops := (gprops d)\<lparr>active_witnesses :=
              shuffle_vector (rehash_random c) (random (dprops d)) (active_witnesses (gprops d))\<rparr>\<rparr>)
      else Inr d)"

subsection \<open>The end of a block\<close>

definition create_block_summary :: "block_env \<Rightarrow> signed_block \<Rightarrow> database \<Rightarrow> database option" where
  "create_block_summary c b d = do {
     (i, t) \<leftarrow> gi_create \<lparr>bs_block_id = block_id c b, bs_timestamp = blk_timestamp b\<rparr> (block_summaries d);
     fc_assert (i = block_num b);
     Some (d\<lparr>block_summaries := t\<rparr>) }"

definition clear_expired :: "nat \<Rightarrow> database \<Rightarrow> database option" where
  "clear_expired depth d = do {
     d1 \<leftarrow> clear_expired_transactions d;
     d2 \<leftarrow> clear_expired_proposals depth d1;
     d3 \<leftarrow> clear_expired_orders d2;
     update_withdraw_permissions (update_expired_feeds d3) }"

fun apply_transactions :: "crypto \<Rightarrow> nat \<Rightarrow> int \<Rightarrow> processed_transaction list \<Rightarrow> database \<Rightarrow> database option" where
  "apply_transactions cr depth skip [] d = Some d"
| "apply_transactions cr depth skip (trx # trxs) d = do {
     (_, d1) \<leftarrow> apply_transaction cr depth skip (signed_transaction.truncate trx) d;
     apply_transactions cr depth skip trxs d1 }"

text \<open>The first half of \<open>apply_block\<close>, up to the witness's pay.\<close>

definition open_block :: "block_env \<Rightarrow> nat \<Rightarrow> int \<Rightarrow> signed_block \<Rightarrow> database \<Rightarrow> database option" where
  "open_block c depth skip b d = do {
     fc_assert (has_flag skip skip_merkle_check \<or> blk_transaction_merkle_root b = calculate_merkle_root c (blk_transactions b));
     w \<leftarrow> validate_block_header c skip b d;
     d1 \<leftarrow> apply_transactions (crypto.truncate c) depth (skip OR skip_transaction_signatures) (blk_transactions b) d;
     update_signing_witness w b (update_global_dynamic_data c b d1) }"

definition close_block :: "block_env \<Rightarrow> nat \<Rightarrow> signed_block \<Rightarrow> database \<Rightarrow> database option" where
  "close_block c depth b d = do {
     d1 \<leftarrow> create_block_summary c b d;
     d2 \<leftarrow> clear_expired depth d1;
     Some (d2\<lparr>applied_ops := []\<rparr>) }"

subsection \<open>Transactions\<close>

definition push_transaction ::
  "block_env \<Rightarrow> nat \<Rightarrow> int \<Rightarrow> signed_transaction \<Rightarrow> chain \<Rightarrow> (chain + processed_transaction \<times> chain) option" where
  "push_transaction c depth skip trx ch = do {
     let ch1 = (if ch_pending_session ch then ch else (start_session ch)\<lparr>ch_pending_session := True\<rparr>);
     let ch2 = start_session ch1;
     case apply_transaction (crypto.truncate c) depth skip trx (ch_db ch2) of
       None \<Rightarrow> do { ch3 \<leftarrow> undo_session ch2; Some (Inl ch3) }
     | Some (results, d) \<Rightarrow> do {
         let ptrx = signed_transaction.extend trx \<lparr>trx_results = results\<rparr>;
         let ch3 = ch2\<lparr>ch_db := d, ch_pending := (ch_pending ch2)\<lparr>blk_transactions := blk_transactions (ch_pending ch2) @ [ptrx]\<rparr>\<rparr>;
         if has_flag skip skip_block_size_check \<or> pack_size c (pending_block ch3) \<le> maximum_block_size (parameters (gprops d))
         then do { ch4 \<leftarrow> merge_session ch3; Some (Inr (ptrx, ch4)) }
         else do { ch4 \<leftarrow> undo_session ch3; Some (Inl ch4) } } }"

definition clear_pending :: "chain \<Rightarrow> chain option" where
  "clear_pending ch = reset_pending_session (ch\<lparr>ch_pending := (ch_pending ch)\<lparr>blk_transactions := []\<rparr>\<rparr>)"

subsection \<open>Applying a block\<close>

fun push_old_transactions :: "block_env \<Rightarrow> nat \<Rightarrow> processed_transaction list \<Rightarrow> chain \<Rightarrow> (chain + chain) option" where
  "push_old_transactions c depth [] ch = Some (Inr ch)"
| "push_old_transactions c depth (trx # trxs) ch = do {
     r \<leftarrow> push_transaction c depth 0 (signed_transaction.truncate trx) ch;
     case r of Inl ch1 \<Rightarrow> Some (Inl ch1) | Inr (_, ch1) \<Rightarrow> push_old_transactions c depth trxs ch1 }"

definition update_pending_block :: "block_env \<Rightarrow> nat \<Rightarrow> signed_block \<Rightarrow> int \<Rightarrow> chain \<Rightarrow> (chain + chain) option" where
  "update_pending_block c depth b current_block_interval ch =
     push_old_transactions c depth (blk_transactions (ch_pending ch))
       (ch\<lparr>ch_db := (ch_db ch)\<lparr>pending_timestamp := uint32 (blk_timestamp b + current_block_interval), pending_previous := block_id c b\<rparr>,
           ch_pending := (ch_pending ch)\<lparr>blk_transactions := []\<rparr>\<rparr>)"

definition thrown :: "database \<Rightarrow> chain \<Rightarrow> (chain + chain) option" where
  "thrown d ch = Some (Inl (ch\<lparr>ch_db := (ch_db ch)\<lparr>pending_timestamp := pending_timestamp d, applied_ops := []\<rparr>\<rparr>))"

definition apply_block :: "block_env \<Rightarrow> nat \<Rightarrow> int \<Rightarrow> signed_block \<Rightarrow> chain \<Rightarrow> (chain + chain) option" where
  "apply_block c depth skip b ch = (let d0 = (ch_db ch)\<lparr>applied_ops := []\<rparr> in
     case open_block c depth skip b d0 of None \<Rightarrow> thrown d0 ch
     | Some d1 \<Rightarrow>
       (case end_of_round c b d1 of Inl d \<Rightarrow> thrown d ch
        | Inr d2 \<Rightarrow>
          (case close_block c depth b d2 of None \<Rightarrow> thrown d2 ch
           | Some d3 \<Rightarrow> update_pending_block c depth b (block_interval (parameters (gprops d1))) (ch\<lparr>ch_db := d3\<rparr>))))"

text \<open>A block in a session of its own; \<open>key\<close> is the id under which it is stored.\<close>

definition apply_in_session :: "block_env \<Rightarrow> nat \<Rightarrow> int \<Rightarrow> block_id_type \<Rightarrow> signed_block \<Rightarrow> chain \<Rightarrow> (chain + chain) option" where
  "apply_in_session c depth skip key b ch = do {
     r \<leftarrow> apply_block c depth skip b (start_session ch);
     case r of Inl ch1 \<Rightarrow> do { ch2 \<leftarrow> undo_session ch1; Some (Inl ch2) }
     | Inr ch1 \<Rightarrow> do { ch2 \<leftarrow> commit_session (ch1\<lparr>ch_blocks := (ch_blocks ch1)(key \<mapsto> b)\<rparr>); Some (Inr ch2) } }"

subsection \<open>Popping and pushing blocks\<close>

definition pop_block :: "chain \<Rightarrow> chain option" where
  "pop_block ch = do {
     ch1 \<leftarrow> reset_pending_session ch;
     ch2 \<leftarrow> pop_undo (ch1\<lparr>ch_blocks := (ch_blocks ch1)(pending_previous (ch_db ch1) := None)\<rparr>);
     Some (ch2\<lparr>ch_db := (ch_db ch2)\<lparr>pending_previous := head_block_id (dprops (ch_db ch2)), pending_timestamp := head_block_time (ch_db ch2)\<rparr>,
               ch_fork := fork_pop_block (ch_fork ch2)\<rparr>) }"

partial_function (option) pop_blocks_to :: "block_id_type \<Rightarrow> chain \<Rightarrow> chain option" where
  [code]: "pop_blocks_to i ch =
     (if head_block_id (dprops (ch_db ch)) \<noteq> i then do { ch1 \<leftarrow> pop_block ch; pop_blocks_to i ch1 } else Some ch)"

text \<open>Blocks of a branch in turn; the list left over starts with the block that failed.\<close>

fun push_branch :: "block_env \<Rightarrow> nat \<Rightarrow> int \<Rightarrow> block_id_type \<Rightarrow> nat list \<Rightarrow> chain \<Rightarrow> (nat list \<times> chain) option" where
  "push_branch c depth skip key [] ch = Some ([], ch)"
| "push_branch c depth skip key (a # as) ch = do {
     r \<leftarrow> apply_in_session c depth skip key (item_block (ch_fork ch) a) ch;
     case r of Inl ch1 \<Rightarrow> Some (a # as, ch1) | Inr ch1 \<Rightarrow> push_branch c depth skip key as ch1 }"

definition remove_items :: "nat list \<Rightarrow> fork_database \<Rightarrow> fork_database" where
  "remove_items as f = fold (\<lambda>a f. fork_remove (fi_id (item_at f a)) f) as f"

definition switch_forks ::
  "block_env \<Rightarrow> nat \<Rightarrow> int \<Rightarrow> block_id_type \<Rightarrow> block_id_type \<Rightarrow> chain \<Rightarrow> (chain + bool \<times> chain) option" where
  "switch_forks c depth skip key new_head ch =
     (case fetch_branch_from new_head (pending_previous (ch_db ch)) (ch_fork ch) of
        None \<Rightarrow> None
      | Some None \<Rightarrow> Some (Inl ch)
      | Some (Some (new, old)) \<Rightarrow> do {
          let forked = blk_previous (item_block (ch_fork ch) (last old));
          ch1 \<leftarrow> pop_blocks_to forked ch;
          (rest, ch2) \<leftarrow> push_branch c depth skip key (rev new) ch1;
          if rest = [] then Some (Inr (True, ch2))
          else do {
            let f = fork_set_head (hd old) (remove_items rest (ch_fork ch2));
            ch3 \<leftarrow> pop_blocks_to forked (ch2\<lparr>ch_fork := f\<rparr>);
            (_, ch4) \<leftarrow> push_branch c depth skip key (rev old) ch3;
            Some (Inl ch4) } })"

definition push_next_block :: "block_env \<Rightarrow> nat \<Rightarrow> int \<Rightarrow> signed_block \<Rightarrow> chain \<Rightarrow> (chain + bool \<times> chain) option" where
  "push_next_block c depth skip b ch = do {
     ch1 \<leftarrow> clear_pending ch;
     r \<leftarrow> apply_in_session c depth skip (block_id c b) b ch1;
     case r of Inl ch2 \<Rightarrow> Some (Inl (ch2\<lparr>ch_fork := fork_remove (block_id c b) (ch_fork ch2)\<rparr>))
     | Inr ch2 \<Rightarrow> Some (Inr (False, ch2)) }"

definition push_block :: "block_env \<Rightarrow> nat \<Rightarrow> int \<Rightarrow> signed_block \<Rightarrow> chain \<Rightarrow> (chain + bool \<times> chain) option" where
  "push_block c depth skip b ch =
     (if has_flag skip skip_fork_db then push_next_block c depth skip b ch
      else case fork_push_block c b (ch_fork ch) of None \<Rightarrow> Some (Inl ch)
      | Some f \<Rightarrow> let ch1 = ch\<lparr>ch_fork := f\<rparr> in
        (case fk_head f of None \<Rightarrow> None
         | Some h \<Rightarrow>
             if blk_previous (item_block f h) \<noteq> head_block_id (dprops (ch_db ch1)) then
               if int (block_num (item_block f h)) > head_block_number (dprops (ch_db ch1))
               then switch_forks c depth skip (block_id c b) (block_id c (item_block f h)) ch1
               else Some (Inr (False, ch1))
             else push_next_block c depth skip b ch1))"

subsection \<open>Generating a block\<close>

definition sealed_block :: "block_env \<Rightarrow> int \<Rightarrow> time_point_sec \<Rightarrow> witness_id_type \<Rightarrow> witness_object \<Rightarrow> nat \<Rightarrow> signed_block \<Rightarrow> signed_block" where
  "sealed_block c skip t i w key b =
     (let b1 = b\<lparr>blk_timestamp := t, blk_previous_secret := next_secret c key (wit_last_secret w),
                 blk_next_secret_hash := secret_hash c (next_secret c key (next_secret c key (wit_last_secret w))),
                 blk_transaction_merkle_root := calculate_merkle_root c (blk_transactions b), blk_witness := i\<rparr>
      in if has_flag skip skip_delegate_signature then b1 else b1\<lparr>blk_delegate_signature := sign_header c key b1\<rparr>)"

definition generate_block ::
  "block_env \<Rightarrow> nat \<Rightarrow> time_point_sec \<Rightarrow> witness_id_type \<Rightarrow> nat \<Rightarrow> int \<Rightarrow> chain \<Rightarrow> (chain + signed_block \<times> chain) option" where
  "generate_block c depth when i key skip ch =
     (case do {
        scheduled \<leftarrow> get_scheduled_witness when (ch_db ch);
        (t, j) \<leftarrow> scheduled;
        fc_assert (j = i);
        w \<leftarrow> get_object (witnesses (ch_db ch)) i;
        _ \<leftarrow> (if has_flag skip skip_delegate_signature then Some ()
              else do { k \<leftarrow> get_object (keys (ch_db ch)) (wit_signing_key w); fc_assert (k = public_key_of c key) });
        Some (t, w) } of
      None \<Rightarrow> Some (Inl ch)
    | Some (t, w) \<Rightarrow>
        let b = sealed_block c skip t i w key (pending_block ch);
            ch1 = ch\<lparr>ch_pending := b, ch_db := (ch_db ch)\<lparr>pending_timestamp := t\<rparr>\<rparr>
        in if pack_size c b \<le> maximum_block_size (parameters (gprops (ch_db ch1)))
           then do {
             r \<leftarrow> push_block c depth skip b (ch1\<lparr>ch_pending := b\<lparr>blk_transactions := []\<rparr>\<rparr>);
             Some (case r of Inl ch2 \<Rightarrow> Inl ch2 | Inr (_, ch2) \<Rightarrow> Inr (b, ch2)) }
           else Some (Inl ch1))"

subsection \<open>Pushing is atomic, popping undoes it\<close>

text \<open>The same objects; only what an undo does not restore may differ.\<close>

definition same_objects :: "database \<Rightarrow> database \<Rightarrow> bool" where
  "same_objects saved d \<longleftrightarrow> restore saved d = d"

lemma same_objects_restore [simp]: "same_objects saved (restore saved d)"
  by (simp add: same_objects_def restore_def)

lemma same_objects_pending [simp]:
  "same_objects saved (d\<lparr>pending_timestamp := t\<rparr>) = same_objects saved d"
  "same_objects saved (d\<lparr>pending_previous := p\<rparr>) = same_objects saved d"
  "same_objects saved (d\<lparr>applied_ops := ops\<rparr>) = same_objects saved d"
  by (cases saved, cases d, simp add: same_objects_def restore_def)+

lemma same_objects_head:
  assumes "same_objects saved d"
  shows "gprops d = gprops saved" "dprops d = dprops saved" "witnesses d = witnesses saved" "keys d = keys saved"
proof -
  have d: "restore saved d = d" using assms by (simp add: same_objects_def)
  show "gprops d = gprops saved" by (subst d [symmetric]) (simp add: restore_def)
  show "dprops d = dprops saved" by (subst d [symmetric]) (simp add: restore_def)
  show "witnesses d = witnesses saved" by (subst d [symmetric]) (simp add: restore_def)
  show "keys d = keys saved" by (subst d [symmetric]) (simp add: restore_def)
qed

text \<open>What \<open>apply_block\<close> does when no transaction is pending.\<close>

lemma update_pending_nothing:
  assumes "blk_transactions (ch_pending ch) = []"
  shows "update_pending_block c depth b i (ch\<lparr>ch_db := d\<rparr>) =
    Some (Inr (ch\<lparr>ch_db := d\<lparr>pending_timestamp := uint32 (blk_timestamp b + i), pending_previous := block_id c b\<rparr>\<rparr>))"
proof -
  have "ch_pending ch\<lparr>blk_transactions := []\<rparr> = ch_pending ch" using assms by (cases "ch_pending ch") simp
  then have "ch\<lparr>ch_db := e, ch_pending := ch_pending ch\<lparr>blk_transactions := []\<rparr>\<rparr> = ch\<lparr>ch_db := e\<rparr>" for e
    by (cases ch) simp
  then show ?thesis using assms by (simp add: update_pending_block_def)
qed

lemma apply_block_cases:
  assumes "blk_transactions (ch_pending ch) = []" "apply_block c depth skip b ch = Some r"
  obtains t where "r = Inl (ch\<lparr>ch_db := (ch_db ch)\<lparr>pending_timestamp := t, applied_ops := []\<rparr>\<rparr>)"
  | d1 d2 d3 where "open_block c depth skip b ((ch_db ch)\<lparr>applied_ops := []\<rparr>) = Some d1" "end_of_round c b d1 = Inr d2"
    "close_block c depth b d2 = Some d3"
    "r = Inr (ch\<lparr>ch_db := d3\<lparr>pending_timestamp := uint32 (blk_timestamp b + block_interval (parameters (gprops d1))),
      pending_previous := block_id c b\<rparr>\<rparr>)"
proof -
  let ?d0 = "(ch_db ch)\<lparr>applied_ops := []\<rparr>"
  have th: "thrown d ch = Some r \<Longrightarrow> thesis" for d
    using that(1) [of "pending_timestamp d"] by (simp add: thrown_def)
  note a = assms(2) [unfolded apply_block_def Let_def]
  show thesis
  proof (cases "open_block c depth skip b ?d0")
    case None
    with a th show thesis by simp
  next
    case (Some d1)
    note o1 = this
    show thesis
    proof (cases "end_of_round c b d1")
      case (Inl d)
      with a o1 th show thesis by simp
    next
      case (Inr d2)
      show thesis
      proof (cases "close_block c depth b d2")
        case None
        with a o1 Inr th show thesis by simp
      next
        case (Some d3)
        with a o1 Inr show thesis by (intro that(2) [OF o1 Inr Some]) (simp add: update_pending_nothing [OF assms(1)])
      qed
    qed
  qed
qed

lemma undo_started:
  assumes "ch_undo ch = x # xs"
  shows "undo_session (ch\<lparr>ch_undo := s # x # xs, ch_active := Suc (ch_active ch), ch_db := e\<rparr>) = Some (ch\<lparr>ch_db := restore s e\<rparr>)"
proof -
  have "ch\<lparr>ch_active := ch_active ch, ch_db := d, ch_undo := x # xs\<rparr> = ch\<lparr>ch_db := d\<rparr>" for d
    by (cases ch) (use assms in simp)
  then show ?thesis by (simp add: undo_session_def)
qed

lemma apply_in_session_cases:
  assumes "blk_transactions (ch_pending ch) = []" "length (ch_undo ch) < undo_max_size"
    and "apply_in_session c depth skip key b ch = Some r"
  obtains d where "r = Inl (ch\<lparr>ch_db := d\<rparr>)" "same_objects (ch_db ch) d" "pending_previous d = pending_previous (ch_db ch)" "ch_undo ch \<noteq> []"
  | d where "r = Inl (ch\<lparr>ch_db := d, ch_undo := [d]\<rparr>)" "same_objects (ch_db ch) d" "pending_previous d = pending_previous (ch_db ch)" "ch_undo ch = []"
  | d where "r = Inr (ch\<lparr>ch_db := d, ch_undo := ch_db ch # ch_undo ch, ch_blocks := (ch_blocks ch)(key \<mapsto> b)\<rparr>)" "pending_previous d = block_id c b"
proof -
  from assms(3) obtain s where s: "apply_block c depth skip b (start_session ch) = Some s"
    "(case s of Inl ch1 \<Rightarrow> do { ch2 \<leftarrow> undo_session ch1; Some (Inl ch2) }
     | Inr ch1 \<Rightarrow> do { ch2 \<leftarrow> commit_session (ch1\<lparr>ch_blocks := (ch_blocks ch1)(key \<mapsto> b)\<rparr>); Some (Inr ch2) }) = Some r"
    unfolding apply_in_session_def Option.bind_eq_Some_conv by blast
  have st: "start_session ch = ch\<lparr>ch_undo := ch_db ch # ch_undo ch, ch_active := ch_active ch + 1\<rparr>"
    using assms(2) by (simp add: start_session_def)
  have p: "blk_transactions (ch_pending (start_session ch)) = []" using assms(1) by (simp add: st)
  from apply_block_cases [OF p s(1)] show thesis
  proof cases
    case (1 t)
    let ?d = "restore (ch_db ch) ((ch_db ch)\<lparr>pending_timestamp := t, applied_ops := []\<rparr>)"
    have d: "same_objects (ch_db ch) ?d" "pending_previous ?d = pending_previous (ch_db ch)" by simp (simp add: restore_def)
    show thesis
    proof (cases "ch_undo ch")
      case Nil
      with 1 s(2) have "r = Inl (ch\<lparr>ch_db := ?d, ch_undo := [?d]\<rparr>)" by (simp add: st undo_session_def Let_def)
      then show thesis by (rule that(2) [OF _ d Nil])
    next
      case (Cons x xs)
      obtain ch2 where "undo_session (start_session ch\<lparr>ch_db := (ch_db (start_session ch))\<lparr>pending_timestamp := t, applied_ops := []\<rparr>\<rparr>) = Some ch2"
        "r = Inl ch2" using s(2) unfolding 1 by (auto simp only: sum.case Option.bind_eq_Some_conv option.inject)
      moreover have "ch_db (start_session ch) = ch_db ch" by (simp add: st)
      ultimately have "r = Inl (ch\<lparr>ch_db := ?d\<rparr>)"
        using undo_started [OF Cons, of "(ch_db ch)\<lparr>pending_timestamp := t, applied_ops := []\<rparr>" "ch_db ch"]
        unfolding st Cons by (simp only: Suc_eq_plus1 option.inject)
      then show thesis by (rule that(1) [OF _ d]) (simp add: Cons)
    qed
  next
    case (2 d1 d2 d3)
    with s(2) have "r = Inr (ch\<lparr>ch_db := d3\<lparr>pending_timestamp := uint32 (blk_timestamp b + block_interval (parameters (gprops d1))),
      pending_previous := block_id c b\<rparr>, ch_undo := ch_db ch # ch_undo ch, ch_blocks := (ch_blocks ch)(key \<mapsto> b)\<rparr>)"
      by (auto simp: st commit_session_def)
    then show thesis by (rule that(3)) simp
  qed
qed

lemma undo_session_Some:
  assumes "undo_session ch = Some ch'"
  obtains s rest where "ch_undo ch = s # rest" "ch_active ch > 0"
    "ch' = ch\<lparr>ch_db := restore s (ch_db ch), ch_undo := (if rest = [] then [restore s (ch_db ch)] else rest), ch_active := ch_active ch - 1\<rparr>"
  using assms unfolding undo_session_def Let_def by (auto split: list.splits)

lemma clear_pending_Some:
  assumes "clear_pending ch = Some ch0"
  shows "blk_transactions (ch_pending ch0) = []" "ch_pending_session ch0 = False" "ch_fork ch0 = ch_fork ch" "ch_blocks ch0 = ch_blocks ch"
proof -
  let ?c = "ch\<lparr>ch_pending := (ch_pending ch)\<lparr>blk_transactions := []\<rparr>\<rparr>"
  have "blk_transactions (ch_pending ch0) = [] \<and> ch_pending_session ch0 = False \<and> ch_fork ch0 = ch_fork ch \<and> ch_blocks ch0 = ch_blocks ch"
  proof (cases "ch_pending_session ch")
    case True
    then have "undo_session (?c\<lparr>ch_pending_session := False\<rparr>) = Some ch0"
      using assms by (simp add: clear_pending_def reset_pending_session_def)
    then obtain s rest where "ch0 = (?c\<lparr>ch_pending_session := False\<rparr>)\<lparr>ch_db := restore s (ch_db (?c\<lparr>ch_pending_session := False\<rparr>)),
      ch_undo := (if rest = [] then [restore s (ch_db (?c\<lparr>ch_pending_session := False\<rparr>))] else rest),
      ch_active := ch_active (?c\<lparr>ch_pending_session := False\<rparr>) - 1\<rparr>"
      by (rule undo_session_Some)
    then show ?thesis by simp
  next
    case False
    then have "ch0 = ?c" using assms by (simp add: clear_pending_def reset_pending_session_def)
    with False show ?thesis by simp
  qed
  then show "blk_transactions (ch_pending ch0) = []" "ch_pending_session ch0 = False" "ch_fork ch0 = ch_fork ch" "ch_blocks ch0 = ch_blocks ch"
    by blast+
qed

lemma push_next_block_cases:
  assumes "clear_pending ch = Some ch0" "push_next_block c depth skip b ch = Some r"
  obtains ch2 where "apply_in_session c depth skip (block_id c b) b ch0 = Some (Inl ch2)"
    "r = Inl (ch2\<lparr>ch_fork := fork_remove (block_id c b) (ch_fork ch2)\<rparr>)"
  | ch2 where "apply_in_session c depth skip (block_id c b) b ch0 = Some (Inr ch2)" "r = Inr (False, ch2)"
proof -
  from assms obtain s where s: "apply_in_session c depth skip (block_id c b) b ch0 = Some s"
    "(case s of Inl ch2 \<Rightarrow> Some (Inl (ch2\<lparr>ch_fork := fork_remove (block_id c b) (ch_fork ch2)\<rparr>))
     | Inr ch2 \<Rightarrow> Some (Inr (False, ch2))) = Some r"
    unfolding push_next_block_def by (auto simp only: Option.bind_eq_Some_conv option.inject)
  then show thesis using that by (cases s) auto
qed



subsection \<open>A change of the block interval\<close>

text \<open>A node that is offered blocks one after the other; the result says which of them it took.\<close>

fun offer_blocks :: "block_env \<Rightarrow> nat \<Rightarrow> int \<Rightarrow> signed_block list \<Rightarrow> chain \<Rightarrow> (bool list \<times> chain) option" where
  "offer_blocks c depth skip [] ch = Some ([], ch)"
| "offer_blocks c depth skip (b # bs) ch = do {
     r \<leftarrow> push_next_block c depth skip b ch;
     (taken, ch') \<leftarrow> offer_blocks c depth skip bs (case r of Inl ch1 \<Rightarrow> ch1 | Inr (_, ch1) \<Rightarrow> ch1);
     Some ((case r of Inl _ \<Rightarrow> False | Inr _ \<Rightarrow> True) # taken, ch') }"

definition stuck :: "chain \<Rightarrow> bool" where
  "stuck ch \<longleftrightarrow> pending_timestamp (ch_db ch) mod block_interval (parameters (gprops (ch_db ch))) \<noteq> 0 \<and>
     blk_transactions (ch_pending ch) = [] \<and> \<not> ch_pending_session ch"

lemma clear_pending_nothing:
  assumes "blk_transactions (ch_pending ch) = []" "\<not> ch_pending_session ch"
  shows "clear_pending ch = Some ch"
proof -
  have "ch\<lparr>ch_pending := (ch_pending ch)\<lparr>blk_transactions := []\<rparr>\<rparr> = ch"
    using assms(1) by (cases ch, cases "ch_pending ch") simp
  then show ?thesis using assms(2) by (simp add: clear_pending_def reset_pending_session_def)
qed

lemma stuck_refuses:
  assumes "stuck ch"
  shows "\<exists>ch1. push_next_block c depth skip b ch = Some (Inl ch1) \<and> stuck ch1"
proof -
  let ?d0 = "(ch_db ch)\<lparr>applied_ops := []\<rparr>"
  let ?e = "(ch_db ch)\<lparr>pending_timestamp := pending_timestamp ?d0, applied_ops := []\<rparr>"
  have u: "pending_timestamp (ch_db ch) mod block_interval (parameters (gprops (ch_db ch))) \<noteq> 0"
    "blk_transactions (ch_pending ch) = []" "\<not> ch_pending_session ch" using assms by (simp_all add: stuck_def)
  have "validate_block_header c skip b ?d0 = None" using u(1) by (simp add: validate_block_header_def fc_assert_def)
  then have "open_block c depth skip b ?d0 = None" by (simp add: open_block_def fc_assert_def)
  moreover obtain r where r: "ch_undo (start_session ch) = ch_db ch # r" "ch_active (start_session ch) = Suc (ch_active ch)"
    "ch_db (start_session ch) = ch_db ch" "ch_pending (start_session ch) = ch_pending ch" "ch_pending_session (start_session ch) = ch_pending_session ch"
    by (simp add: start_session_def)
  ultimately have a: "apply_block c depth skip b (start_session ch) = Some (Inl ((start_session ch)\<lparr>ch_db := ?e\<rparr>))"
    by (simp add: apply_block_def Let_def thrown_def)
  obtain ch2 where ch2: "undo_session ((start_session ch)\<lparr>ch_db := ?e\<rparr>) = Some ch2" "ch_db ch2 = restore (ch_db ch) ?e"
    "ch_pending ch2 = ch_pending ch" "ch_pending_session ch2 = ch_pending_session ch"
    using r by (simp add: undo_session_def Let_def)
  have "push_next_block c depth skip b ch = Some (Inl (ch2\<lparr>ch_fork := fork_remove (block_id c b) (ch_fork ch2)\<rparr>))"
    using clear_pending_nothing [OF u(2,3)] a ch2(1) by (simp add: push_next_block_def apply_in_session_def)
  moreover have "stuck (ch2\<lparr>ch_fork := fork_remove (block_id c b) (ch_fork ch2)\<rparr>)"
    using u ch2 by (simp add: stuck_def restore_def)
  ultimately show ?thesis by blast
qed

lemma stuck_offer: "stuck ch \<Longrightarrow> \<exists>ch'. offer_blocks c depth skip bs ch = Some (replicate (length bs) False, ch') \<and> stuck ch'"
proof (induction bs arbitrary: ch)
  case (Cons b bs)
  obtain ch1 where c1: "push_next_block c depth skip b ch = Some (Inl ch1)" "stuck ch1" using stuck_refuses [OF Cons.prems] by blast
  from Cons.IH [OF c1(2)] c1(1) show ?case by auto
qed simp

text \<open>
  C18. The pending block's time is set from the block interval that was in force when the block was opened,
  which overwrites what maintenance computed from the new one. When the new interval does not divide that
  time, the chain takes no further block on its head: whatever blocks are offered, all are refused.
\<close>

theorem interval_change_halts:
  assumes "apply_block c depth skip b ch = Some (Inr ch')" "blk_transactions (ch_pending ch) = []" "\<not> ch_pending_session ch"
    and "open_block c depth skip b ((ch_db ch)\<lparr>applied_ops := []\<rparr>) = Some d"
    and "uint32 (blk_timestamp b + block_interval (parameters (gprops d))) mod block_interval (parameters (gprops (ch_db ch'))) \<noteq> 0"
  shows "\<exists>ch''. offer_blocks c' depth' skip' bs ch' = Some (replicate (length bs) False, ch'')"
proof -
  from apply_block_cases [OF assms(2,1)] assms(4) obtain d3 where
    "ch' = ch\<lparr>ch_db := d3\<lparr>pending_timestamp := uint32 (blk_timestamp b + block_interval (parameters (gprops d))), pending_previous := block_id c b\<rparr>\<rparr>"
    by cases auto
  then have "stuck ch'" using assms(2,3,5) by (simp add: stuck_def)
  from stuck_offer [OF this] show ?thesis by blast
qed

subsection \<open>A node whose first block is a maintenance block\<close>

text \<open>One account holds all of the supply and votes; the block interval is to change from 5 to 7 seconds.\<close>

definition sample_env :: block_env where
  "sample_env = \<lparr>trx_id_of = \<lambda>_. 0, key_signed = \<lambda>_ _ _ _. True, header_hash = \<lambda>b. nat (blk_timestamp b) * 2 ^ 32,
     merkle_digest = \<lambda>t. nat (ref_block_num t), pair_hash = \<lambda>(x, y). 10 * x + y, checksum_hash = \<lambda>x. x, secret_hash = \<lambda>s. s,
     mix_secret = \<lambda>r s. r + s, header_signed = \<lambda>_ _. True, pack_size = \<lambda>b. 100 + int (length (blk_transactions b)) * 60,
     sign_header = \<lambda>_ _. 0, public_key_of = \<lambda>k. Public_Key k, next_secret = \<lambda>k s. s, rehash_random = \<lambda>x. x + 1\<rparr>"

definition sample_node_db :: database where
  "sample_node_db = empty_database\<lparr>
     assets := table_of [hd sample_assets],
     asset_dyns := table_of [\<lparr>dyn_current_supply = 1000, dyn_accumulated_fees = 0, dyn_fee_pool = 0\<rparr>],
     accounts := table_of [sample_account 0 [], (sample_account 1 [])\<lparr>acct_referrer := 1, acct_num_committee := 2, acct_num_witness := 2,
          acct_votes := [make_vote_id committee 0, make_vote_id witness 1]\<rparr>],
     statistics := table_of (replicate 2 \<lparr>st_most_recent_op = 0, st_total_core_in_orders = 0, st_lifetime_fees_paid = 0\<rparr>),
     balances := table_of [\<lparr>bal_owner = 1, bal_asset_type = 0, bal_balance = 1000\<rparr>],
     keys := table_of [Public_Key 10],
     delegates := table_of [\<lparr>del_delegate_account = 1, del_vote_id = make_vote_id committee 0\<rparr>],
     witnesses := table_of [\<lparr>wit_witness_account = 1, wit_signing_key = 0, wit_next_secret = 0, wit_last_secret = 0,
       wit_accumulated_income = 0, wit_vote_id = make_vote_id witness 1\<rparr>],
     block_summaries := table_of [\<lparr>bs_block_id = 0, bs_timestamp = 0\<rparr>],
     gprops := empty_global\<lparr>parameters := default_parameters\<lparr>current_fees := [], maximum_witness_count := 4, maximum_committee_count := 4\<rparr>,
       pending_parameters := Some (default_parameters\<lparr>current_fees := [], block_interval := 7\<rparr>),
       next_available_vote_id := 3, active_delegates := [0], active_witnesses := [0]\<rparr>,
     dprops := empty_dynamic\<lparr>next_maintenance_time := 5\<rparr>, pending_timestamp := 5\<rparr>"

definition sample_chain :: chain where
  "sample_chain = \<lparr>ch_db = sample_node_db, ch_undo = [], ch_active = 0, ch_pending_session = False, ch_pending = fork_block 0 0,
     ch_fork = empty_fork_db, ch_blocks = \<lambda>_. None\<rparr>"

definition sample_opened :: database where
  "sample_opened = sample_node_db\<lparr>
     witnesses := table_of [\<lparr>wit_witness_account = 1, wit_signing_key = 0, wit_next_secret = 0, wit_last_secret = 0,
       wit_accumulated_income = 0, wit_vote_id = make_vote_id witness 1\<rparr>],
     dprops := \<lparr>random = 0, head_block_number = 1, head_block_id = id_of_1, dg_time = 5, current_witness = 0,
       next_maintenance_time = 5, last_budget_time = 0, witness_budget = 0\<rparr>\<rparr>"

lemma gi_modify_table_of: "i < length xs \<Longrightarrow> gi_modify i f (table_of xs) = table_of (xs[i := f (xs ! i)])"
  by (auto simp: gi_modify_def table_of_def intro!: nth_equalityI)

lemma sample_opens: "open_block sample_env 3 skip (fork_block 0 5) sample_node_db = Some sample_opened"
proof -
  have id: "block_id sample_env (fork_block 0 5) = id_of_1"
    by (simp add: block_id_def fork_block_num sample_env_def htonl_def) (simp add: fork_block_def id_of_1_def)
  have v: "validate_block_header sample_env skip (fork_block 0 5) sample_node_db = Some 0"
    by (simp add: validate_block_header_def sample_node_db_def fork_block_def empty_database_def empty_global_def empty_dynamic_def
      default_parameters_def sample_env_def get_scheduled_witness_def head_block_time_def Let_def uint32_def)
  have n: "block_num (fork_block 0 5) = 1" by (rule fork_block_num)
  have u: "update_signing_witness 0 (fork_block 0 5) (update_global_dynamic_data sample_env (fork_block 0 5) sample_node_db) = Some sample_opened"
    apply (simp add: update_signing_witness_def update_global_dynamic_data_def id n modify_object_def Let_def)
    apply (simp add: sample_node_db_def sample_opened_def gi_modify_table_of empty_database_def empty_global_def empty_dynamic_def
      default_parameters_def fork_block_def sample_env_def int64_ok_def)
    done
  show ?thesis using v u by (simp add: open_block_def calculate_merkle_root_def) (simp add: fork_block_def calculate_merkle_root_def)
qed

lemma sample_closes:
  "(case end_of_round sample_env (fork_block 0 5) sample_opened of Inl _ \<Rightarrow> None
    | Inr d \<Rightarrow> map_option (\<lambda>d. block_interval (parameters (gprops d))) (close_block sample_env 3 (fork_block 0 5) d)) = Some 7"
  by code_simp

lemma sample_node_same: "sample_node_db\<lparr>applied_ops := []\<rparr> = sample_node_db"
  by (simp add: sample_node_db_def empty_database_def)

lemma sample_applied:
  assumes "ch_db ch = sample_node_db" "blk_transactions (ch_pending ch) = []"
  shows "\<exists>d. apply_block sample_env 3 skip (fork_block 0 5) ch = Some (Inr (ch\<lparr>ch_db := d\<rparr>)) \<and> block_interval (parameters (gprops d)) = 7"
proof -
  obtain d2 where d2: "end_of_round sample_env (fork_block 0 5) sample_opened = Inr d2"
    "map_option (\<lambda>d. block_interval (parameters (gprops d))) (close_block sample_env 3 (fork_block 0 5) d2) = Some 7"
    using sample_closes by (cases "end_of_round sample_env (fork_block 0 5) sample_opened") simp_all
  then obtain d3 where d3: "close_block sample_env 3 (fork_block 0 5) d2 = Some d3" "block_interval (parameters (gprops d3)) = 7" by auto
  let ?i = "block_interval (parameters (gprops sample_opened))"
  let ?d = "d3\<lparr>pending_timestamp := uint32 (blk_timestamp (fork_block 0 5) + ?i), pending_previous := block_id sample_env (fork_block 0 5)\<rparr>"
  have "apply_block sample_env 3 skip (fork_block 0 5) ch = update_pending_block sample_env 3 (fork_block 0 5) ?i (ch\<lparr>ch_db := d3\<rparr>)"
    by (simp add: apply_block_def assms(1) sample_node_same sample_opens d2(1) d3(1))
  moreover have "block_interval (parameters (gprops ?d)) = 7" by (simp add: d3(2))
  ultimately show ?thesis by (simp only: update_pending_nothing [OF assms(2)]) (rule exI [of _ ?d], simp)
qed

lemma sample_clear: "clear_pending sample_chain = Some sample_chain"
  by (rule clear_pending_nothing) (simp_all add: sample_chain_def fork_block_def)

lemma sample_start: "ch_db (start_session sample_chain) = sample_node_db" "blk_transactions (ch_pending (start_session sample_chain)) = []"
  "ch_pending_session (start_session sample_chain) = False" "ch_active (start_session sample_chain) = 1"
  "ch_undo (start_session sample_chain) = [sample_node_db]"
  by (simp_all add: start_session_def sample_chain_def fork_block_def undo_max_size_def)

lemma sample_pushes: "\<exists>r. push_next_block sample_env 3 0 (fork_block 0 5) sample_chain = Some (Inr r)"
proof -
  obtain d where "apply_block sample_env 3 0 (fork_block 0 5) (start_session sample_chain) = Some (Inr ((start_session sample_chain)\<lparr>ch_db := d\<rparr>))"
    using sample_applied [OF sample_start(1,2)] by blast
  then show ?thesis using sample_start(4)
    by (auto simp: push_next_block_def sample_clear apply_in_session_def commit_session_def)
qed

lemma sample_refuses: "\<exists>ch'. push_next_block sample_env 3 0 (fork_block id_of_1 7) sample_chain = Some (Inl ch')"
proof -
  have "pending_previous sample_node_db \<noteq> blk_previous (fork_block id_of_1 7)"
    by (simp add: sample_node_db_def empty_database_def fork_block_def id_of_1_def)
  then have "open_block sample_env 3 0 (fork_block id_of_1 7) sample_node_db = None"
    by (simp add: open_block_def validate_block_header_def fc_assert_def)
  then show ?thesis using sample_start
    by (simp add: push_next_block_def sample_clear apply_in_session_def apply_block_def sample_node_same thrown_def undo_session_def Let_def)
qed



theorem interval_change_halts_witness:
  "\<exists>ch'. apply_block sample_env 3 0 (fork_block 0 5) sample_chain = Some (Inr ch') \<and>
    (\<forall>b1 b2. \<exists>ch''. offer_blocks sample_env 3 0 [b1, b2] ch' = Some ([False, False], ch''))"
proof -
  have c: "ch_db sample_chain = sample_node_db" "blk_transactions (ch_pending sample_chain) = []" "\<not> ch_pending_session sample_chain"
    by (simp_all add: sample_chain_def fork_block_def)
  obtain d where d: "apply_block sample_env 3 0 (fork_block 0 5) sample_chain = Some (Inr (sample_chain\<lparr>ch_db := d\<rparr>))"
    "block_interval (parameters (gprops d)) = 7" using sample_applied [OF c(1,2)] by blast
  have i: "block_interval (parameters (gprops sample_opened)) = 5"
    by (simp add: sample_opened_def sample_node_db_def empty_database_def empty_global_def default_parameters_def)
  have "uint32 (blk_timestamp (fork_block 0 5) + block_interval (parameters (gprops sample_opened))) mod
      block_interval (parameters (gprops (ch_db (sample_chain\<lparr>ch_db := d\<rparr>)))) \<noteq> 0"
    unfolding i by (simp add: d(2) fork_block_def uint32_def)
  note h = interval_change_halts [OF d(1) c(2,3) _ this]
  have "open_block sample_env 3 0 (fork_block 0 5) ((ch_db sample_chain)\<lparr>applied_ops := []\<rparr>) = Some sample_opened"
    by (simp only: c(1) sample_node_same sample_opens)
  note h = h [OF this]
  have "\<exists>ch''. offer_blocks sample_env 3 0 [b1, b2] (sample_chain\<lparr>ch_db := d\<rparr>) = Some ([False, False], ch'')" for b1 b2
    using h [of sample_env 3 0 "[b1, b2]"] by simp
  with d(1) show ?thesis by blast
qed

end
