(* ===== verification/Genesis.thy ===== *)
theory Genesis
  imports Chain
begin

unbundle bit_operations_syntax

section \<open>The genesis state\<close>

text \<open>
  Models \<open>database::init_genesis\<close> of \<^verbatim>\<open>libraries/chain/database.cpp\<close>: the genesis account with the initial supply,
  ten witnesses and delegates, the properties, the core asset, and the initial allocation, which is handed out by
  transactions. The chain id, a digest of the allocation, is not part of the model's properties. The text of a
  key or address is a parameter, since \<open>fc\<close> encodes it; the private key of the genesis account is a number.

  The books of every asset balance at genesis, so what the other theories say of changes to them starts from 0;
  and an allocation to a key whose text is long never gets through.
\<close>

definition BTS_INITIAL_SUPPLY :: int where "BTS_INITIAL_SUPPLY = 10 ^ 15"
definition BTS_GENESIS_TIMESTAMP :: time_point_sec where "BTS_GENESIS_TIMESTAMP = 1431700000"
definition skip_everything :: int where "skip_everything = 0xFFFFFFFF"

subsection \<open>Accounts\<close>

definition create_statistics :: "database \<Rightarrow> (nat \<times> database) option" where
  "create_statistics d = do {
     (i, t) \<leftarrow> gi_create \<lparr>st_most_recent_op = 0, st_total_core_in_orders = 0, st_lifetime_fees_paid = 0\<rparr> (statistics d);
     Some (i, d\<lparr>statistics := t\<rparr>) }"

definition genesis_authority_of :: "key_id_type \<Rightarrow> authority" where
  "genesis_authority_of k = (add_authority (key_oid k) 1 null_authority)\<lparr>weight_threshold := 1\<rparr>"

definition initial_account :: "string \<Rightarrow> authority \<Rightarrow> nat \<Rightarrow> account_object" where
  "initial_account n a s = \<lparr>acct_registrar = 0, acct_referrer = 0, acct_referrer_percent = 0, acct_name = n,
     acct_owner = a, acct_active = a, acct_memo_key = 0, acct_voting_account = 0, acct_num_witness = 0,
     acct_num_committee = 0, acct_votes = [], acct_statistics = s, acct_whitelisting_accounts = [],
     acct_blacklisting_accounts = [], acct_cashback_vb = None\<rparr>"

definition create_genesis_account :: "block_env \<Rightarrow> nat \<Rightarrow> database \<Rightarrow> (authority \<times> database) option" where
  "create_genesis_account c genesis_private_key d = do {
     (k, t1) \<leftarrow> gi_create (public_key_of c genesis_private_key) (keys d);
     (s, d1) \<leftarrow> create_statistics (d\<lparr>keys := t1\<rparr>);
     (_, t2) \<leftarrow> gi_create \<lparr>bal_owner = 0, bal_asset_type = 0, bal_balance = BTS_INITIAL_SUPPLY\<rparr> (balances d1);
     let a = genesis_authority_of k;
     (_, t3) \<leftarrow> gi_create ((initial_account ''genesis'' a s)\<lparr>acct_memo_key := k\<rparr>) (accounts d1);
     Some (a, d1\<lparr>balances := t2, accounts := t3\<rparr>) }"

text \<open>The number is below 10, so its decimal text is one digit.\<close>

definition create_member :: "block_env \<Rightarrow> nat \<Rightarrow> authority \<Rightarrow> nat \<Rightarrow> database \<Rightarrow> (nat \<times> nat \<times> database) option" where
  "create_member c genesis_private_key a i d = do {
     (s, d1) \<leftarrow> create_statistics d;
     (acct, t1) \<leftarrow> gi_create (initial_account (''init'' @ [char_of (48 + i)]) a s) (accounts d1);
     (del, t2) \<leftarrow> gi_create \<lparr>del_delegate_account = acct, del_vote_id = vote_set_instance (of_nat (i * 2)) 0\<rparr> (delegates d1);
     (wit, t3) \<leftarrow> gi_create \<lparr>wit_witness_account = acct, wit_signing_key = 0,
         wit_next_secret = secret_hash c (next_secret c genesis_private_key 0), wit_last_secret = 0,
         wit_accumulated_income = 0, wit_vote_id = vote_set_instance (of_nat (i * 2 + 1)) (make_vote_id witness 0)\<rparr> (witnesses d1);
     Some (del, wit, d1\<lparr>accounts := t1, delegates := t2, witnesses := t3\<rparr>) }"

fun create_members :: "block_env \<Rightarrow> nat \<Rightarrow> authority \<Rightarrow> nat list \<Rightarrow> database \<Rightarrow> (nat list \<times> nat list \<times> database) option" where
  "create_members c k a [] d = Some ([], [], d)"
| "create_members c k a (i # is) d = do {
     (del, wit, d1) \<leftarrow> create_member c k a i d;
     (dels, wits, d2) \<leftarrow> create_members c k a is d1;
     Some (del # dels, wit # wits, d2) }"

subsection \<open>Properties and the core asset\<close>

definition core_options :: asset_options where
  "core_options = \<lparr>max_supply = BTS_INITIAL_SUPPLY, market_fee_percent = 0, max_market_fee = BTS_MAX_SHARE_SUPPLY,
     min_market_fee = 0, issuer_permissions = 0, flags = 0,
     core_exchange_rate = mk_price (mk_asset 1 0) (mk_asset 1 0), whitelist_authorities = [],
     blacklist_authorities = [], whitelist_markets = [], blacklist_markets = []\<rparr>"

definition create_core_asset :: "database \<Rightarrow> database option" where
  "create_core_asset d = do {
     (dyn, t1) \<leftarrow> gi_create \<lparr>dyn_current_supply = BTS_INITIAL_SUPPLY, dyn_accumulated_fees = 0, dyn_fee_pool = 0\<rparr> (asset_dyns d);
     (_, t2) \<leftarrow> gi_create \<lparr>ao_symbol = ''BTS'', ao_precision = 5, ao_issuer = 0, ao_options = core_options,
         ao_dynamic_asset_data_id = dyn, ao_bitasset_data_id = None\<rparr> (assets d);
     Some (d\<lparr>asset_dyns := t1, assets := t2\<rparr>) }"

definition genesis_objects :: "block_env \<Rightarrow> nat \<Rightarrow> database option" where
  "genesis_objects c genesis_private_key = do {
     (a, d1) \<leftarrow> create_genesis_account c genesis_private_key empty_database;
     let members = max BTS_MIN_WITNESS_COUNT BTS_MIN_DELEGATE_COUNT;
     (dels, wits, d2) \<leftarrow> create_members c genesis_private_key a [0..<members] d1;
     (_, t) \<leftarrow> gi_create \<lparr>bs_block_id = 0, bs_timestamp = 0\<rparr> (block_summaries d2);
     create_core_asset (d2\<lparr>block_summaries := t,
       gprops := empty_global\<lparr>active_delegates := dels, active_witnesses := wits, next_available_vote_id := int (members * 2)\<rparr>,
       dprops := empty_dynamic\<lparr>dg_time := BTS_GENESIS_TIMESTAMP\<rparr>\<rparr>) }"

subsection \<open>The initial allocation\<close>

definition is_upper_char :: "char \<Rightarrow> bool" where
  "is_upper_char c \<longleftrightarrow> CHR ''A'' \<le> c \<and> c \<le> CHR ''Z''"

definition to_lower_char :: "char \<Rightarrow> char" where
  "to_lower_char c = (if is_upper_char c then char_of (of_char c + 32 :: nat) else c)"

definition mangle_to_name :: "(key_data \<Rightarrow> string) \<Rightarrow> key_data \<Rightarrow> string" where
  "mangle_to_name key_text k =
     ''bts'' @ concat (map (\<lambda>c. if is_upper_char c then [CHR ''-'', to_lower_char c] else [c]) (drop 3 (key_text k)))"

definition handout_trx :: "operation list \<Rightarrow> signed_transaction" where
  "handout_trx ops = \<lparr>ref_block_num = 0, ref_block_prefix = 0, relative_expiration = 1, operations = ops, signatures = []\<rparr>"

definition handout_accounts :: "(key_data \<Rightarrow> string) \<Rightarrow> key_data \<Rightarrow> operation list" where
  "handout_accounts key_text k = (let key_id = (0, key_object_type, 0);
     account_authority = add_authority key_id 1 (null_authority\<lparr>weight_threshold := 1\<rparr>) in
     [Key_Create_Op \<lparr>kc_fee = mk_asset 0 0, kc_fee_paying_account = 0, kc_key_data = k\<rparr>,
      Account_Create_Op \<lparr>ac_fee = mk_asset 0 0, ac_registrar = 1, ac_referrer = 0, ac_referrer_percent = 0,
        ac_name = mangle_to_name key_text k, ac_owner = account_authority, ac_active = account_authority,
        ac_voting_account = 0, ac_memo_key = key_id, ac_num_witness = 0, ac_num_committee = 0, ac_vote = []\<rparr>])"

definition handout_amount :: "share_type \<Rightarrow> share_type \<Rightarrow> share_type option" where
  "handout_amount x total_allocation = do {
     fc_assert (total_allocation \<noteq> 0);
     v \<leftarrow> to_uint64 (u128 (u128 x * BTS_INITIAL_SUPPLY) div u128 total_allocation);
     Some (int64 v) }"

definition hand_out :: "block_env \<Rightarrow> (key_data \<Rightarrow> string) \<Rightarrow> share_type \<Rightarrow> key_data \<times> share_type \<Rightarrow> database \<Rightarrow> database option" where
  "hand_out c key_text total_allocation handout d = (case handout of (k, x) \<Rightarrow> do {
     v \<leftarrow> handout_amount x total_allocation;
     if v = 0 then Some d
     else do {
       (results, d1) \<leftarrow> apply_transaction (crypto.truncate c) 0 skip_everything (handout_trx (handout_accounts key_text k)) d;
       account \<leftarrow> (case last results of Id_Result (s, t, i) \<Rightarrow> Some i | _ \<Rightarrow> None);
       (_, d2) \<leftarrow> apply_transaction (crypto.truncate c) 0 skip_everything (handout_trx
          [Transfer_Op \<lparr>tr_fee = mk_asset 0 0, tr_from = 0, tr_to = account, tr_amount = mk_asset v 0,
             tr_memo = Some \<lparr>memo_from = 0, memo_to = 0, memo_nonce = 0, memo_message = []\<rparr>\<rparr>]) d1;
       Some d2 } })"

definition sweep_leftovers :: "database \<Rightarrow> database option" where
  "sweep_leftovers d = do {
     let leftovers = amount (get_balance 0 0 d);
     if leftovers > 0 then do {
       (i, b) \<leftarrow> find_balance 0 0 d;
       n \<leftarrow> asset_neg (get_balance 0 0 d);
       t \<leftarrow> modify_object i (balance_object_adjust n) (balances d);
       core \<leftarrow> get_object (assets d) 0;
       u \<leftarrow> modify_object (ao_dynamic_asset_data_id core) (dyn_add_fees leftovers) (asset_dyns d);
       Some (d\<lparr>balances := t, asset_dyns := u\<rparr>) }
     else Some d }"

definition init_genesis :: "block_env \<Rightarrow> (key_data \<Rightarrow> string) \<Rightarrow> nat \<Rightarrow> (key_data \<times> share_type) list \<Rightarrow> database option" where
  "init_genesis c key_text genesis_private_key initial_allocation = do {
     d \<leftarrow> genesis_objects c genesis_private_key;
     if initial_allocation = [] then Some d
     else do {
       total_allocation \<leftarrow> fold_opt (\<lambda>(_, x) t. share (t + x)) initial_allocation 0;
       d1 \<leftarrow> fold_opt (hand_out c key_text total_allocation) initial_allocation d;
       sweep_leftovers d1 } }"

subsection \<open>The books at genesis\<close>

lemma gi_create_empty: "gi_create y empty_table = Some (j, t) \<longleftrightarrow> j = 0 \<and> t = table_of [y]"
  by (auto simp: gi_create_def gi_insert_def gi_find_def empty_table_def table_of_def Let_def)

lemma create_statistics_Some:
  assumes "create_statistics d = Some (i, d')"
  obtains t where "gi_create \<lparr>st_most_recent_op = 0, st_total_core_in_orders = 0, st_lifetime_fees_paid = 0\<rparr> (statistics d) = Some (i, t)"
    "d' = d\<lparr>statistics := t\<rparr>"
  using assms by (auto simp: create_statistics_def)

lemma create_member_books:
  assumes "create_member c k a i d = Some (del, wit, d')" "tables_ok d"
  shows "same_books d d'" "assets d' = assets d" "asset_dyns d' = asset_dyns d" "dprops d' = dprops d"
proof -
  obtain s d1 x1 t1 x2 t2 x3 t3 acct w where f: "create_statistics d = Some (s, d1)" "gi_create x1 (accounts d1) = Some (acct, t1)"
    "gi_create x2 (delegates d1) = Some (del, t2)" "gi_create x3 (witnesses d1) = Some (w, t3)" "wit_accumulated_income x3 = 0"
    "d' = d1\<lparr>accounts := t1, delegates := t2, witnesses := t3\<rparr>"
    using assms(1) unfolding create_member_def by (auto simp: Option.bind_eq_Some_conv)
  obtain t where t: "gi_create \<lparr>st_most_recent_op = 0, st_total_core_in_orders = 0, st_lifetime_fees_paid = 0\<rparr> (statistics d) = Some (s, t)"
    "d1 = d\<lparr>statistics := t\<rparr>" using create_statistics_Some [OF f(1)] .
  have ok: "gi_invar t" "gi_invar t1" "gi_invar t3"
    using gi_invar_create [OF _ t(1)] gi_invar_create [OF _ f(2)] gi_invar_create [OF _ f(4)] assms(2) t(2) by (simp_all add: tables_ok_def)
  have tab: "tables_ok d'" using assms(2) ok by (simp add: f(6) t(2))
  moreover have "imbalance a d' = imbalance a d" for a
    using tsum_create [OF f(4), of wit_accumulated_income] f(5) by (simp add: imbalance_def f(6) t(2) ledger_upd)
  ultimately show "same_books d d'" by (simp add: same_books_def)
  show "assets d' = assets d" "asset_dyns d' = asset_dyns d" "dprops d' = dprops d" by (simp_all add: f(6) t(2))
qed

lemma create_members_books:
  assumes "create_members c k a is d = Some (dels, wits, d')" "tables_ok d"
  shows "same_books d d' \<and> assets d' = assets d \<and> asset_dyns d' = asset_dyns d \<and> dprops d' = dprops d"
  using assms
proof (induction "is" arbitrary: d dels wits)
  case Nil
  then show ?case by (simp add: same_books_refl)
next
  case (Cons i "is")
  from Cons.prems(1) obtain del wit d1 dels' wits' where f: "create_member c k a i d = Some (del, wit, d1)"
    "create_members c k a is d1 = Some (dels', wits', d')" by (auto simp: Option.bind_eq_Some_conv)
  note m = create_member_books [OF f(1) Cons.prems(2)]
  with Cons.IH [OF f(2)] show ?case by (auto simp: same_books_def)
qed

lemma create_core_asset_books:
  assumes "create_core_asset d = Some d'" "tables_ok d" "assets d = empty_table" "asset_dyns d = empty_table"
  shows "tables_ok d'" "imbalance a d' = imbalance a d - (if a = 0 then BTS_INITIAL_SUPPLY else 0)"
proof -
  let ?x = "\<lparr>dyn_current_supply = BTS_INITIAL_SUPPLY, dyn_accumulated_fees = 0, dyn_fee_pool = 0\<rparr>"
  obtain y where d': "d' = d\<lparr>asset_dyns := table_of [?x], assets := table_of [y]\<rparr>" "ao_dynamic_asset_data_id y = 0"
    using assms(1,3,4) unfolding create_core_asset_def by (auto simp: gi_create_empty)
  show "tables_ok d'" using assms(2) d' by (auto simp: tables_ok_def nth_Cons')
  have e: "held_fees a empty_table = 0" "tsum dyn_fee_pool empty_table = 0" "tsum dyn_fee_pool (table_of [?x]) = 0"
    by (simp_all add: held_fees_def tsum_def empty_table_def table_of_def gi_find_def)
  show "imbalance a d' = imbalance a d - (if a = 0 then BTS_INITIAL_SUPPLY else 0)"
    using e assms(4) by (simp add: d' imbalance_def holdings_def in_balances_def supply_of_def held_fees_def nth_Cons')
qed

lemma create_genesis_account_books:
  assumes "create_genesis_account c k empty_database = Some (au, d')"
  shows "tables_ok d'" "imbalance a d' = (if a = 0 then BTS_INITIAL_SUPPLY else 0)" "assets d' = empty_table" "asset_dyns d' = empty_table" "dprops d' = empty_dynamic"
proof -
  obtain x y z where d': "d' = empty_database\<lparr>statistics := table_of [x], keys := table_of [y],
      balances := table_of [\<lparr>bal_owner = 0, bal_asset_type = 0, bal_balance = BTS_INITIAL_SUPPLY\<rparr>], accounts := table_of [z]\<rparr>"
    using assms unfolding create_genesis_account_def create_statistics_def Let_def
    by (auto simp: gi_create_empty empty_database_def)
  show "tables_ok d'"
    by (auto simp: d' tables_ok_def balances_ok_def empty_database_def BTS_INITIAL_SUPPLY_def) (simp add: empty_table_def)
  show "imbalance a d' = (if a = 0 then BTS_INITIAL_SUPPLY else 0)"
    by (simp add: d' imbalance_def holdings_def in_balances_def supply_of_def held_fees_def tsum_def empty_table_def table_of_def
      gi_find_def empty_database_def empty_dynamic_def amount_of_mk)
  show "assets d' = empty_table" "asset_dyns d' = empty_table" "dprops d' = empty_dynamic" by (simp_all add: d' empty_database_def)
qed

lemma genesis_objects_books:
  assumes "genesis_objects c k = Some d"
  shows "tables_ok d" "imbalance a d = 0"
proof -
  obtain au d1 dels wits d2 t where f: "create_genesis_account c k empty_database = Some (au, d1)"
    "create_members c k au [0..<max BTS_MIN_WITNESS_COUNT BTS_MIN_DELEGATE_COUNT] d1 = Some (dels, wits, d2)"
    "create_core_asset (d2\<lparr>block_summaries := t,
       gprops := empty_global\<lparr>active_delegates := dels, active_witnesses := wits,
         next_available_vote_id := int (max BTS_MIN_WITNESS_COUNT BTS_MIN_DELEGATE_COUNT * 2)\<rparr>,
       dprops := empty_dynamic\<lparr>dg_time := BTS_GENESIS_TIMESTAMP\<rparr>\<rparr>) = Some d"
    using assms unfolding genesis_objects_def Let_def Option.bind_eq_Some_conv split_paired_Ex case_prod_conv by blast
  note g = create_genesis_account_books [OF f(1)]
  note m = create_members_books [OF f(2) g(1)]
  have w: "dprops d2 = empty_dynamic" using m g by simp
  let ?d3 = "d2\<lparr>block_summaries := t,
       gprops := empty_global\<lparr>active_delegates := dels, active_witnesses := wits,
         next_available_vote_id := int (max BTS_MIN_WITNESS_COUNT BTS_MIN_DELEGATE_COUNT * 2)\<rparr>,
       dprops := empty_dynamic\<lparr>dg_time := BTS_GENESIS_TIMESTAMP\<rparr>\<rparr>"
  have d3: "tables_ok ?d3" "imbalance a ?d3 = imbalance a d2" "assets ?d3 = empty_table" "asset_dyns ?d3 = empty_table"
    using m g w by (simp_all add: same_books_def tables_ok_def imbalance_def holdings_def in_balances_def supply_of_def empty_dynamic_def)
  show "tables_ok d" by (rule create_core_asset_books(1) [OF f(3) d3(1,3,4)])
  show "imbalance a d = 0" using create_core_asset_books(2) [OF f(3) d3(1,3,4), of a] d3(2) m g(2) by (simp add: same_books_def)
qed

subsection \<open>The books after the allocation\<close>

lemma hand_out_books:
  assumes "hand_out c key_text s h d = Some d'" "tables_ok d"
  shows "same_books d d'"
proof -
  obtain k x where h: "h = (k, x)" by force
  obtain v where v: "handout_amount x s = Some v" using assms(1) by (auto simp: hand_out_def h Option.bind_eq_Some_conv)
  show ?thesis
  proof (cases "v = 0")
    case True
    then show ?thesis using assms v by (simp add: hand_out_def h same_books_refl)
  next
    case False
    with assms(1) v obtain rs d1 rs' ops where f: "apply_transaction (crypto.truncate c) 0 skip_everything (handout_trx (handout_accounts key_text k)) d = Some (rs, d1)"
      "apply_transaction (crypto.truncate c) 0 skip_everything (handout_trx [Transfer_Op ops]) d1 = Some (rs', d')"
      unfolding hand_out_def h by (auto simp: Option.bind_eq_Some_conv)
    have "same_books d d1"
      by (rule same_books_apply_transaction [OF f(1) assms(2)]) (simp add: handout_trx_def handout_accounts_def Let_def)
    moreover from this have "same_books d1 d'"
      by (intro same_books_apply_transaction [OF f(2)]) (simp_all add: handout_trx_def same_books_def)
    ultimately show ?thesis by (rule same_books_trans)
  qed
qed

lemma sweep_leftovers_books:
  assumes "sweep_leftovers d = Some d'" "tables_ok d"
  shows "same_books d d'"
proof (cases "amount (get_balance 0 0 d) > 0")
  case False
  then show ?thesis using assms by (simp add: sweep_leftovers_def same_books_refl)
next
  case True
  let ?x = "amount (get_balance 0 0 d)"
  from assms(1) True obtain i b n t core u where f: "find_balance 0 0 d = Some (i, b)" "asset_neg (get_balance 0 0 d) = Some n"
    "modify_object i (balance_object_adjust n) (balances d) = Some t" "gi_find (assets d) 0 = Some core"
    "modify_object (ao_dynamic_asset_data_id core) (dyn_add_fees ?x) (asset_dyns d) = Some u" "d' = d\<lparr>balances := t, asset_dyns := u\<rparr>"
    unfolding sweep_leftovers_def Let_def by (auto simp: Option.bind_eq_Some_conv simp del: asset_neg_Some)
  have b: "get_balance 0 0 d = mk_asset (bal_balance b) (bal_asset_type b)" "bal_asset_type b = 0"
    using f(1) find_balance_Some [of d 0 0 i b] tables_okD(1) [OF assms(2)] by (auto simp: get_balance_def bal_key_def)
  have n: "n = mk_asset (- ?x) 0" using f(2) b by auto
  have fb: "gi_find (balances d) i = Some b" "bal_key b = (0, 0)"
    using f(1) find_balance_Some [OF tables_okD(1) [OF assms(2)]] by simp_all
  have t: "t = gi_modify i (\<lambda>_. b\<lparr>bal_balance := 0\<rparr>) (balances d)"
    using f(3) fb b by (auto simp: modify_object_Some balance_object_adjust_def n)
  have k: "bal_key (b\<lparr>bal_balance := 0\<rparr>) = bal_key b" by (simp add: bal_key_def)
  have "balances_ok t"
    using tables_okD(1) [OF assms(2)] fb k unfolding t balances_ok_def by (auto simp: gi_find_modify split: if_splits)
  moreover have "in_balances a (d\<lparr>balances := t\<rparr>) = in_balances a d + amount_of a n" for a
    using tsum_modify [OF _ fb(1), of "\<lambda>b. amount_of a (mk_asset (bal_balance b) (bal_asset_type b))" "\<lambda>_. b\<lparr>bal_balance := 0\<rparr>"]
      tables_okD(1) [OF assms(2)] b by (simp add: in_balances_def t n balances_ok_def amount_of_mk)
  ultimately have m1: "moves d (d\<lparr>balances := t\<rparr>) (\<lambda>a. amount_of a n) (\<lambda>_. 0)"
    using assms(2) by (simp add: moves_def tables_ok_def holdings_def)
  have core: "ao_dynamic_asset_data_id core = 0" using tables_okD(12) [OF assms(2) f(4)] .
  have "moves (d\<lparr>balances := t\<rparr>) d' (\<lambda>a. (if a = 0 then ?x else 0) + (if a = 0 then 0 else 0)) (\<lambda>a. if a = 0 then 0 else 0)"
    unfolding f(6)
    by (rule moves_dyn [where f = "dyn_add_fees ?x"]) (use f(5) core movesD(1) [OF m1] in \<open>auto simp: dyn_add_fees_def\<close>)
  from moves_trans [OF m1 this] show ?thesis by (rule same_books_moves) (simp add: n amount_of_mk)
qed

text \<open>
  C14. At genesis, whatever the allocation, the books of every asset balance: all that exists of the core asset is
  held by an account or is among the collected fees.
\<close>

theorem genesis_books_balance:
  assumes "init_genesis c key_text k allocation = Some d"
  shows "tables_ok d \<and> imbalance a d = 0"
proof -
  obtain d0 where d0: "genesis_objects c k = Some d0" using assms by (auto simp: init_genesis_def Option.bind_eq_Some_conv)
  note g = genesis_objects_books [OF d0]
  show ?thesis
  proof (cases "allocation = []")
    case True
    then show ?thesis using assms d0 g by (simp add: init_genesis_def)
  next
    case False
    with assms d0 obtain s d1 where f: "fold_opt (hand_out c key_text s) allocation d0 = Some d1" "sweep_leftovers d1 = Some d"
      unfolding init_genesis_def by (auto simp: Option.bind_eq_Some_conv)
    have "same_books d0 d1"
      by (rule fold_opt_invariant [where P = "same_books d0", OF f(1) same_books_refl [OF g(1)]])
        (metis same_books_trans hand_out_books same_books_def)
    moreover from this have "same_books d1 d" by (intro sweep_leftovers_books [OF f(2)]) (simp add: same_books_def)
    ultimately have "same_books d0 d" by (rule same_books_trans)
    with g show ?thesis by (simp add: same_books_def)
  qed
qed

subsection \<open>Long keys\<close>

lemma mangled_length:
  assumes "length (key_text k) \<ge> 3"
  shows "length (mangle_to_name key_text k) = length (key_text k) + length (filter is_upper_char (drop 3 (key_text k)))"
proof -
  have "length (concat (map (\<lambda>c. if is_upper_char c then [CHR ''-'', to_lower_char c] else [c]) cs)) =
      length cs + length (filter is_upper_char cs)" for cs
    by (induction cs) auto
  then show ?thesis using assms by (simp add: mangle_to_name_def)
qed

lemma fold_opt_None: "x \<in> set xs \<Longrightarrow> (\<And>s. f x s = None) \<Longrightarrow> fold_opt f xs s = None"
  by (induction xs arbitrary: s) (auto simp: Option.bind_eq_None_conv)

lemma allocation_total:
  "fold_opt (\<lambda>(_, x) t. share (t + x)) xs t = Some s \<Longrightarrow> s = t + sum_list (map snd xs)"
proof (induction xs arbitrary: t)
  case (Cons h xs)
  then have "fold_opt (\<lambda>(_, x) t. share (t + x)) xs (t + snd h) = Some s" by (cases h) auto
  from Cons.IH [OF this] show ?case by simp
qed simp

text \<open>
  The name made of a key has a character for each of its text and one more for each capital letter. Names
  have at most 63 characters, so when an allocation names a key with a longer text there is no genesis state.
\<close>

lemma long_key_prevents_genesis:
  assumes "(k, x) \<in> set allocation" "length (key_text k) \<ge> 3"
    and "length (key_text k) + length (filter is_upper_char (drop 3 (key_text k))) \<ge> 64"
    and "handout_amount x (sum_list (map snd allocation)) \<noteq> Some 0"
  shows "init_genesis c key_text genesis_private_key allocation = None"
proof -
  have "\<not> is_valid_name (mangle_to_name key_text k)"
    using assms(3) mangled_length [of key_text k, OF assms(2)] by (simp add: is_valid_name_def)
  then have "apply_transaction cr 0 skip_everything (handout_trx (handout_accounts key_text k)) d = None" for cr d
    by (simp add: apply_transaction_def transaction_validate_def handout_trx_def handout_accounts_def Let_def
      account_create_validate_def fc_assert_def)
  then have "hand_out c key_text (sum_list (map snd allocation)) (k, x) d = None" for d
    using assms(4) by (cases "handout_amount x (sum_list (map snd allocation))") (simp_all add: hand_out_def)
  then have "fold_opt (hand_out c key_text (sum_list (map snd allocation))) allocation d = None" for d
    by (rule fold_opt_None [OF assms(1)])
  then have n: "fold_opt (hand_out c key_text s) allocation d = None"
    if "fold_opt (\<lambda>(_, x) t. share (t + x)) allocation 0 = Some s" for s d
    using allocation_total [OF that] by simp
  have "allocation \<noteq> []" using assms(1) by auto
  then show ?thesis
    using n by (cases "genesis_objects c genesis_private_key";
        cases "fold_opt (\<lambda>(_, x) t. share (t + x)) allocation 0") (simp_all add: init_genesis_def)
qed

subsection \<open>The state itself\<close>

text \<open>Without an allocation there is always a genesis state, and this is it.\<close>

definition member :: "authority \<Rightarrow> nat \<Rightarrow> account_object" where
  "member a i = initial_account (''init'' @ [char_of (48 + i)]) a (Suc i)"

definition genesis_delegates :: "nat \<Rightarrow> delegate_object list" where
  "genesis_delegates n = map (\<lambda>i. \<lparr>del_delegate_account = Suc i, del_vote_id = vote_set_instance (of_nat (i * 2)) 0\<rparr>) [0..<n]"

definition genesis_witnesses :: "secret_hash_type \<Rightarrow> nat \<Rightarrow> witness_object list" where
  "genesis_witnesses h n = map (\<lambda>i. \<lparr>wit_witness_account = Suc i, wit_signing_key = 0, wit_next_secret = h, wit_last_secret = 0,
     wit_accumulated_income = 0, wit_vote_id = vote_set_instance (of_nat (i * 2 + 1)) (make_vote_id witness 0)\<rparr>) [0..<n]"

definition with_members :: "block_env \<Rightarrow> nat \<Rightarrow> nat \<Rightarrow> database" where
  "with_members c k n = empty_database\<lparr>
     keys := table_of [public_key_of c k],
     statistics := table_of (replicate (Suc n) \<lparr>st_most_recent_op = 0, st_total_core_in_orders = 0, st_lifetime_fees_paid = 0\<rparr>),
     balances := table_of [\<lparr>bal_owner = 0, bal_asset_type = 0, bal_balance = BTS_INITIAL_SUPPLY\<rparr>],
     accounts := table_of (initial_account ''genesis'' (genesis_authority_of 0) 0 # map (member (genesis_authority_of 0)) [0..<n]),
     delegates := table_of (genesis_delegates n),
     witnesses := table_of (genesis_witnesses (secret_hash c (next_secret c k 0)) n)\<rparr>"

lemma gi_create_table_of: "gi_create x (table_of xs) = Some (length xs, table_of (xs @ [x]))"
  by (auto simp: gi_create_Some table_of_def gi_find_def map_of_eq_None_iff dest: set_zip_leftD)

lemma create_genesis_account_is: "create_genesis_account c k empty_database = Some (genesis_authority_of 0, with_members c k 0)"
  by (simp add: create_genesis_account_def create_statistics_def with_members_def empty_database_def gi_create_empty [THEN iffD2]
    genesis_delegates_def genesis_witnesses_def initial_account_def Let_def)
    (simp add: table_of_def empty_table_def)

lemma create_member_is: "create_member c k (genesis_authority_of 0) n (with_members c k n) = Some (n, n, with_members c k (Suc n))"
  by (simp add: create_member_def create_statistics_def with_members_def gi_create_table_of genesis_delegates_def genesis_witnesses_def
    member_def replicate_append_same)

lemma create_members_is:
  "create_members c k (genesis_authority_of 0) [m..<n] (with_members c k m) = Some ([m..<n], [m..<n], with_members c k (max m n))"
proof (induction "n - m" arbitrary: m)
  case 0
  then show ?case by (simp add: max_def)
next
  case (Suc i)
  then have "m < n" "i = n - Suc m" by simp_all
  with Suc.hyps(1) [of "Suc m"] show ?case by (simp add: upt_conv_Cons create_member_is max_def)
qed

definition genesis_state :: "block_env \<Rightarrow> nat \<Rightarrow> database" where
  "genesis_state c k = (with_members c k 10)\<lparr>
     block_summaries := table_of [\<lparr>bs_block_id = 0, bs_timestamp = 0\<rparr>],
     gprops := empty_global\<lparr>active_delegates := [0..<10], active_witnesses := [0..<10], next_available_vote_id := 20\<rparr>,
     dprops := empty_dynamic\<lparr>dg_time := BTS_GENESIS_TIMESTAMP\<rparr>,
     asset_dyns := table_of [\<lparr>dyn_current_supply = BTS_INITIAL_SUPPLY, dyn_accumulated_fees = 0, dyn_fee_pool = 0\<rparr>],
     assets := table_of [\<lparr>ao_symbol = ''BTS'', ao_precision = 5, ao_issuer = 0, ao_options = core_options,
       ao_dynamic_asset_data_id = 0, ao_bitasset_data_id = None\<rparr>]\<rparr>"

lemma genesis_objects_is: "genesis_objects c k = Some (genesis_state c k)"
proof -
  have m: "create_members c k (genesis_authority_of 0) [0..<10] (with_members c k 0) = Some ([0..<10], [0..<10], with_members c k 10)"
    using create_members_is [of c k 0 10] by simp
  have e: "block_summaries (with_members c k 10) = table_of []" "asset_dyns (with_members c k 10) = table_of []"
    "assets (with_members c k 10) = table_of []"
    by (simp_all add: with_members_def empty_database_def empty_table_def table_of_def)
  show ?thesis
    unfolding genesis_objects_def BTS_MIN_WITNESS_COUNT_def BTS_MIN_DELEGATE_COUNT_def
    by (simp add: create_genesis_account_is m e gi_create_table_of create_core_asset_def genesis_state_def Let_def)
qed

subsection \<open>Two allocations\<close>

definition sample_key_text :: "key_data \<Rightarrow> string" where
  "sample_key_text k = (case k of Address n \<Rightarrow> ''BTSe7''
     | Public_Key n \<Rightarrow> ''BTS6MRyAjQq8ud7hVNYcfnVPJqcVpscN5So8BhtHuGYqET5GDW5CV'')"

lemma genesis_books_balance_witness:
  "\<exists>d. init_genesis sample_env sample_key_text 3 [(Address 3, 7)] = Some d \<and> imbalance 0 d = 0 \<and>
    amount (get_balance 11 0 d) = BTS_INITIAL_SUPPLY"
proof -
  have "map_option (\<lambda>d. amount (get_balance 11 0 d))
      (Option.bind (hand_out sample_env sample_key_text 7 (Address 3, 7) (genesis_state sample_env 3)) sweep_leftovers) = Some BTS_INITIAL_SUPPLY"
    by code_simp
  moreover have "init_genesis sample_env sample_key_text 3 [(Address 3, 7)] =
      Option.bind (hand_out sample_env sample_key_text 7 (Address 3, 7) (genesis_state sample_env 3)) sweep_leftovers"
    by (simp add: init_genesis_def genesis_objects_is share_def int64_ok_def)
  ultimately obtain d where d: "init_genesis sample_env sample_key_text 3 [(Address 3, 7)] = Some d" "amount (get_balance 11 0 d) = BTS_INITIAL_SUPPLY"
    by auto
  from genesis_books_balance [OF d(1), of 0] d show ?thesis by blast
qed

lemma long_key_prevents_genesis_witness:
  "init_genesis sample_env sample_key_text 3 [(Address 3, 7), (Public_Key 4, 2)] = None"
proof (rule long_key_prevents_genesis)
  show "(Public_Key 4, 2) \<in> set [(Address 3, 7), (Public_Key 4, 2 :: share_type)]" by simp
  show "length (sample_key_text (Public_Key 4)) \<ge> 3" by (simp add: sample_key_text_def)
  show "length (sample_key_text (Public_Key 4)) + length (filter is_upper_char (drop 3 (sample_key_text (Public_Key 4)))) \<ge> 64"
    by code_simp
  show "handout_amount 2 (sum_list (map snd [(Address 3, 7), (Public_Key 4, 2)])) \<noteq> Some 0" by code_simp
qed

end
