(* ===== verification/Account_History.thy ===== *)
theory Account_History
  imports Transactions
begin

section \<open>The account history plugin\<close>

text \<open>
  Models \<^verbatim>\<open>libraries/plugins/account_history\<close> and the call of the API that reads what it keeps
  (\<open>get_account_history\<close> in \<^verbatim>\<open>libraries/app/api.cpp\<close>): which accounts an operation concerns; an index from the
  address of a key to the accounts it has a say in, kept up to date by observers of the operations that
  create and update accounts; and a linked list of operations for every account, whose newest node the statistics of the
  account point to.

  The history shown is the list of the operations that concern the account, except that id 0 ends a list and
  is also the id of the first node. The index stays exact when an account is updated, also when several
  keys have the same address. The address of a public key is a hash, so it is a parameter.
\<close>

subsection \<open>Objects\<close>

record account_transaction_history_object =
  th_operation_id :: nat
  th_next :: nat

record key_account_object =
  ka_key :: nat
  ka_account_ids :: "account_id_type list"

record account_history =
  history_ops :: "operation_history_object table"
  history_nodes :: "account_transaction_history_object table"
  history_keys :: "key_account_object table"

text \<open>The accounts to track; none means all.\<close>

type_synonym tracked_accounts = "account_id_type list"

definition key_address :: "(nat \<Rightarrow> nat) \<Rightarrow> key_data \<Rightarrow> nat" where
  "key_address addr_of k = (case k of Address a \<Rightarrow> a | Public_Key p \<Rightarrow> addr_of p)"

subsection \<open>The accounts an operation concerns\<close>

text \<open>\<open>operation_get_required_auths\<close> with the same set for both kinds of authority.\<close>

definition required_accounts :: "operation \<Rightarrow> account_id_type list \<Rightarrow> account_id_type list" where
  "required_accounts op impacted = (let (act, own) = get_required_auth op (impacted, []) in fold fs_insert own act)"

definition add_impacted_authority :: "authority \<Rightarrow> account_id_type list \<Rightarrow> account_id_type list" where
  "add_impacted_authority a impacted =
     fold fs_insert (map (oid_instance \<circ> fst) (filter (\<lambda>item. oid_type (fst item) = account_object_type) (auths a))) impacted"

fun get_impacted_accounts ::
  "operation \<Rightarrow> operation_result \<Rightarrow> account_id_type list \<Rightarrow> account_id_type list option" where
  "get_impacted_accounts (Transfer_Op o') r s = Some (fs_insert (tr_to o') s)"
| "get_impacted_accounts (Account_Create_Op o') r s =
     (case r of Id_Result i \<Rightarrow> Some (fs_insert (oid_instance i) s) | _ \<Rightarrow> None)"
| "get_impacted_accounts (Account_Update_Op o') r s =
     Some (case_option id add_impacted_authority (au_active o') (case_option id add_impacted_authority (au_owner o') s))"
| "get_impacted_accounts (Account_Transfer_Op o') r s = Some (fs_insert (at_new_owner o') s)"
| "get_impacted_accounts (Account_Whitelist_Op o') r s = Some (fs_insert (aw_account_to_list o') s)"
| "get_impacted_accounts (File_Write_Op o') r s = Some (fs_insert (fw_owner o') s)"
| "get_impacted_accounts (Asset_Update_Op o') r s = Some (case_option id fs_insert (up_new_issuer o') s)"
| "get_impacted_accounts (Asset_Update_Feed_Producers_Op o') r s = Some (fold fs_insert (uf_new_feed_producers o') s)"
| "get_impacted_accounts (Asset_Issue_Op o') r s = Some (fs_insert (ai_issue_to_account o') s)"
| "get_impacted_accounts (Withdraw_Permission_Create_Op o') r s = Some (fs_insert (wpc_authorized_account o') s)"
| "get_impacted_accounts (Withdraw_Permission_Claim_Op o') r s = Some (fs_insert (wpk_withdraw_from_account o') s)"
| "get_impacted_accounts (Withdraw_Permission_Update_Op o') r s = Some (fs_insert (wpu_authorized_account o') s)"
| "get_impacted_accounts (Withdraw_Permission_Delete_Op o') r s = Some (fs_insert (wpd_authorized_account o') s)"
| "get_impacted_accounts (Witness_Create_Op o') r s = Some (fs_insert (wc_witness_account o') s)"
| "get_impacted_accounts (Proposal_Create_Op o') r s = Some (fold required_accounts (pc_proposed_ops o') s)"
| "get_impacted_accounts (Fill_Order_Op o') r s = Some (fs_insert (fo_account_id o') s)"
| "get_impacted_accounts (Global_Parameters_Update_Op o') r s = Some (fs_insert 0 s)"
| "get_impacted_accounts (Bond_Accept_Offer_Op o') r s = Some (fs_insert (ba_lender o') (fs_insert (ba_borrower o') s))"
| "get_impacted_accounts (Bond_Claim_Collateral_Op o') r s = Some (fs_insert (bl_claimer o') (fs_insert (bl_lender o') s))"
| "get_impacted_accounts (Vesting_Balance_Create_Op o') r s = Some (fs_insert (vc_owner o') (fs_insert (vc_creator o') s))"
| "get_impacted_accounts (Vesting_Balance_Withdraw_Op o') r s = Some (fs_insert (vw_owner o') s)"
| "get_impacted_accounts op r s = Some s"

definition impacted_by :: "operation_history_object \<Rightarrow> account_id_type list option" where
  "impacted_by h = get_impacted_accounts (oh_op h) (oh_result h) (required_accounts (oh_op h) [])"

subsection \<open>The index of keys\<close>

definition key_instances :: "authority \<Rightarrow> key_id_type list" where
  "key_instances a = map (oid_instance \<circ> fst) (filter (\<lambda>item. oid_type (fst item) = key_object_type) (auths a))"

definition get_keys_for_account :: "account_id_type \<Rightarrow> database \<Rightarrow> key_id_type list option" where
  "get_keys_for_account i d = do {
     acct \<leftarrow> get_object (accounts d) i;
     Some (fold fs_insert (key_instances (acct_owner acct))
             (fold fs_insert (key_instances (acct_active acct)) (fs_insert (acct_memo_key acct) []))) }"

definition insert_address :: "(nat \<Rightarrow> nat) \<Rightarrow> database \<Rightarrow> key_id_type \<Rightarrow> nat list \<Rightarrow> nat list option" where
  "insert_address addr_of d k s = do { x \<leftarrow> get_object (keys d) k; Some (fs_insert (key_address addr_of x) s) }"

definition index_address :: "account_id_type \<Rightarrow> nat \<Rightarrow> key_account_object table \<Rightarrow> key_account_object table option" where
  "index_address i a t = (case find_first (\<lambda>ka. ka_key ka = a) t of
     None \<Rightarrow> map_option snd (gi_create \<lparr>ka_key = a, ka_account_ids = [i]\<rparr> t)
   | Some (j, _) \<Rightarrow> Some (gi_modify j (\<lambda>ka. ka\<lparr>ka_account_ids := fs_insert i (ka_account_ids ka)\<rparr>) t))"

definition index_account_keys ::
  "(nat \<Rightarrow> nat) \<Rightarrow> account_id_type \<Rightarrow> database \<Rightarrow> key_account_object table \<Rightarrow> key_account_object table option" where
  "index_account_keys addr_of i d t = do {
     ks \<leftarrow> get_keys_for_account i d;
     addresses \<leftarrow> fold_opt (insert_address addr_of d) ks [];
     fold_opt (index_address i) addresses t }"

definition rebuild_key_account_index ::
  "(nat \<Rightarrow> nat) \<Rightarrow> database \<Rightarrow> key_account_object table \<Rightarrow> key_account_object table option" where
  "rebuild_key_account_index addr_of d = fold_opt (\<lambda>i. index_account_keys addr_of i d) (map fst (entries (accounts d)))"

subsection \<open>The observers\<close>

text \<open>
  An exception in an observer is suppressed. Indexing throws before it changes anything; the loop over the
  keys taken away may throw on its way, so it says how far it came.
\<close>

definition index_or_leave ::
  "(nat \<Rightarrow> nat) \<Rightarrow> account_id_type \<Rightarrow> database \<Rightarrow> key_account_object table \<Rightarrow> key_account_object table" where
  "index_or_leave addr_of i d t = (case index_account_keys addr_of i d t of None \<Rightarrow> t | Some t' \<Rightarrow> t')"

definition account_create_post_evaluate ::
  "(nat \<Rightarrow> nat) \<Rightarrow> tracked_accounts \<Rightarrow> operation_result \<Rightarrow> database \<Rightarrow> key_account_object table \<Rightarrow> key_account_object table" where
  "account_create_post_evaluate addr_of tracked r d t =
     (if tracked \<noteq> [] then t
      else case r of Id_Result i \<Rightarrow> index_or_leave addr_of (oid_instance i) d t | _ \<Rightarrow> t)"

definition account_update_pre_evaluate ::
  "tracked_accounts \<Rightarrow> account_update_operation \<Rightarrow> database \<Rightarrow> key_id_type list \<Rightarrow> key_id_type list" where
  "account_update_pre_evaluate tracked op d pre_account_keys =
     (if tracked \<noteq> [] then pre_account_keys
      else case get_keys_for_account (au_account op) d of None \<Rightarrow> pre_account_keys | Some ks \<Rightarrow> ks)"

fun forget_keys ::
  "(nat \<Rightarrow> nat) \<Rightarrow> account_id_type \<Rightarrow> database \<Rightarrow> key_id_type list \<Rightarrow> key_account_object table \<Rightarrow> bool \<times> key_account_object table"
where
  "forget_keys addr_of i d [] t = (True, t)"
| "forget_keys addr_of i d (k # ks) t =
     (case get_object (keys d) k of None \<Rightarrow> (False, t)
      | Some x \<Rightarrow> (case find_first (\<lambda>ka. ka_key ka = key_address addr_of x) t of None \<Rightarrow> (False, t)
         | Some (j, _) \<Rightarrow>
             forget_keys addr_of i d ks (gi_modify j (\<lambda>ka. ka\<lparr>ka_account_ids := fs_erase i (ka_account_ids ka)\<rparr>) t)))"

definition account_update_post_evaluate ::
  "(nat \<Rightarrow> nat) \<Rightarrow> tracked_accounts \<Rightarrow> account_update_operation \<Rightarrow> key_id_type list \<Rightarrow> database \<Rightarrow>
   key_account_object table \<Rightarrow> key_account_object table" where
  "account_update_post_evaluate addr_of tracked op pre_account_keys d t =
     (if tracked \<noteq> [] then t
      else case get_keys_for_account (au_account op) d of None \<Rightarrow> t
        | Some post_account_keys \<Rightarrow>
            let removed_account_keys = filter (\<lambda>k. k \<notin> set post_account_keys) pre_account_keys;
                (ok, t1) = forget_keys addr_of (au_account op) d removed_account_keys t
            in if ok then index_or_leave addr_of (au_account op) d t1 else t1)"

subsection \<open>The history of a block\<close>

definition record_history ::
  "nat \<Rightarrow> account_id_type \<Rightarrow> database \<times> account_history \<Rightarrow> (database \<times> account_history) option" where
  "record_history op_id i = (\<lambda>(d, h). do {
     acct \<leftarrow> get_object (accounts d) i;
     stats \<leftarrow> get_object (statistics d) (acct_statistics acct);
     (n, t) \<leftarrow> gi_create \<lparr>th_operation_id = op_id, th_next = st_most_recent_op stats\<rparr> (history_nodes h);
     u \<leftarrow> modify_object (acct_statistics acct) (\<lambda>s. Some (s\<lparr>st_most_recent_op := n\<rparr>)) (statistics d);
     Some (d\<lparr>statistics := u\<rparr>, h\<lparr>history_nodes := t\<rparr>) })"

definition record_tracked ::
  "(nat \<Rightarrow> nat) \<Rightarrow> nat \<Rightarrow> account_id_type \<Rightarrow> database \<times> account_history \<Rightarrow> (database \<times> account_history) option" where
  "record_tracked addr_of op_id i = (\<lambda>(d, h). do {
     t \<leftarrow> index_account_keys addr_of i d (history_keys h);
     record_history op_id i (d, h\<lparr>history_keys := t\<rparr>) })"

definition record_operation ::
  "(nat \<Rightarrow> nat) \<Rightarrow> tracked_accounts \<Rightarrow> operation_history_object \<Rightarrow> database \<times> account_history \<Rightarrow>
   (database \<times> account_history) option" where
  "record_operation addr_of tracked op = (\<lambda>(d, h). do {
     (op_id, t) \<leftarrow> gi_create op (history_ops h);
     impacted \<leftarrow> impacted_by op;
     let h1 = h\<lparr>history_ops := t\<rparr>;
     if tracked = [] then fold_opt (record_history op_id) impacted (d, h1)
     else fold_opt (record_tracked addr_of op_id) (filter (\<lambda>i. i \<in> set impacted) tracked) (d, h1) })"

definition update_account_histories ::
  "(nat \<Rightarrow> nat) \<Rightarrow> tracked_accounts \<Rightarrow> database \<times> account_history \<Rightarrow> (database \<times> account_history) option" where
  "update_account_histories addr_of tracked = (\<lambda>(d, h). fold_opt (record_operation addr_of tracked) (applied_ops d) (d, h))"

subsection \<open>Reading a history\<close>

text \<open>The length of the result is compared unsigned with the signed limit.\<close>

partial_function (option) history_loop ::
  "account_history \<Rightarrow> nat \<Rightarrow> int \<Rightarrow> nat \<Rightarrow> (nat \<times> account_transaction_history_object) option \<Rightarrow> operation_history_object list \<Rightarrow>
   operation_history_object list option" where
  [code]: "history_loop h stop limit start node result = (case node of None \<Rightarrow> Some result
     | Some (i, x) \<Rightarrow>
         if th_operation_id x > stop \<and> int (length result) < uint64 limit then do {
           r \<leftarrow> (if i \<le> start then do { op \<leftarrow> get_object (history_ops h) (th_operation_id x); Some (result @ [op]) } else Some result);
           history_loop h stop limit start
             (if th_next x = 0 then None else map_option (Pair (th_next x)) (gi_find (history_nodes h) (th_next x))) r }
         else Some result)"

definition get_account_history ::
  "account_id_type \<Rightarrow> nat \<Rightarrow> int \<Rightarrow> nat \<Rightarrow> database \<times> account_history \<Rightarrow> operation_history_object list option" where
  "get_account_history a stop limit start = (\<lambda>(d, h). do {
     fc_assert (limit \<le> 100);
     acct \<leftarrow> get_object (accounts d) a;
     stats \<leftarrow> get_object (statistics d) (acct_statistics acct);
     if st_most_recent_op stats = 0 then Some []
     else do {
       node \<leftarrow> get_object (history_nodes h) (st_most_recent_op stats);
       history_loop h stop limit (if start = 0 then st_most_recent_op stats else start)
         (Some (st_most_recent_op stats, node)) [] } })"

subsection \<open>The index stays exact\<close>

definition keys_unique :: "key_account_object table \<Rightarrow> bool" where
  "keys_unique t \<longleftrightarrow> gi_invar t \<and>
     (\<forall>j j' x x'. gi_find t j = Some x \<longrightarrow> gi_find t j' = Some x' \<longrightarrow> ka_key x = ka_key x' \<longrightarrow> j = j')"

text \<open>An address has an entry; its entry names an account.\<close>

definition has_entry :: "key_account_object table \<Rightarrow> nat \<Rightarrow> bool" where
  "has_entry t a \<longleftrightarrow> (\<exists>j x. gi_find t j = Some x \<and> ka_key x = a)"

definition names :: "key_account_object table \<Rightarrow> nat \<Rightarrow> account_id_type \<Rightarrow> bool" where
  "names t a i \<longleftrightarrow> (\<exists>j x. gi_find t j = Some x \<and> ka_key x = a \<and> i \<in> set (ka_account_ids x))"

definition addresses_of :: "(nat \<Rightarrow> nat) \<Rightarrow> database \<Rightarrow> key_id_type list \<Rightarrow> nat set" where
  "addresses_of addr_of d ks = {key_address addr_of x | k x. k \<in> set ks \<and> gi_find (keys d) k = Some x}"

definition has_address :: "(nat \<Rightarrow> nat) \<Rightarrow> database \<Rightarrow> account_id_type \<Rightarrow> nat \<Rightarrow> bool" where
  "has_address addr_of d i a \<longleftrightarrow> (\<exists>ks. get_keys_for_account i d = Some ks \<and> a \<in> addresses_of addr_of d ks)"

definition keys_known :: "database \<Rightarrow> key_id_type list \<Rightarrow> bool" where
  "keys_known d ks \<longleftrightarrow> (\<forall>k \<in> set ks. gi_find (keys d) k \<noteq> None)"

definition index_exact :: "(nat \<Rightarrow> nat) \<Rightarrow> database \<Rightarrow> key_account_object table \<Rightarrow> bool" where
  "index_exact addr_of d t \<longleftrightarrow> keys_unique t \<and> (\<forall>a i. names t a i \<longleftrightarrow> has_address addr_of d i a)"

lemma namesI: "gi_find t j = Some x \<Longrightarrow> ka_key x = a \<Longrightarrow> i \<in> set (ka_account_ids x) \<Longrightarrow> names t a i"
  by (auto simp: names_def)

lemma names_has_entry: "names t a i \<Longrightarrow> has_entry t a"
  by (auto simp: names_def has_entry_def)

lemma find_entry:
  assumes "keys_unique t"
  shows "find_first (\<lambda>x. ka_key x = a) t = None \<longleftrightarrow> \<not> has_entry t a"
proof
  assume "find_first (\<lambda>x. ka_key x = a) t = None"
  then show "\<not> has_entry t a" by (auto simp: has_entry_def dest: find_first_None)
next
  assume "\<not> has_entry t a"
  moreover have "has_entry t a" if "find_first (\<lambda>x. ka_key x = a) t = Some (j, x)" for j x
    using find_first_Some [OF _ that] assms by (auto simp: has_entry_def keys_unique_def)
  ultimately show "find_first (\<lambda>x. ka_key x = a) t = None"
    by (cases "find_first (\<lambda>x. ka_key x = a) t") auto
qed

text \<open>Changing the accounts of an entry, and nothing else of it.\<close>

lemma change_entry:
  assumes "keys_unique t" "find_first (\<lambda>x. ka_key x = a) t = Some (j, x)"
    and t': "t' = gi_modify j (\<lambda>ka. ka\<lparr>ka_account_ids := f (ka_account_ids ka)\<rparr>) t"
  shows "keys_unique t'" "has_entry t' b = has_entry t b"
    "names t' b i \<longleftrightarrow> (if b = a then i \<in> set (f (ka_account_ids x)) else names t b i)"
    "names t a i \<longleftrightarrow> i \<in> set (ka_account_ids x)"
proof -
  have x: "gi_find t j = Some x" "ka_key x = a"
    using find_first_Some [OF _ assms(2)] assms(1) by (auto simp: keys_unique_def)
  have u: "j' = j \<and> y = x" if "gi_find t j' = Some y" "ka_key y = a" for j' y
    using assms(1) that x unfolding keys_unique_def by (metis option.inject)
  have old: "\<exists>y. gi_find t m = Some y \<and> ka_key y' = ka_key y \<and>
      ka_account_ids y' = (if m = j then f (ka_account_ids y) else ka_account_ids y)" if "gi_find t' m = Some y'" for m y'
    using that x unfolding t' gi_find_modify by (auto split: if_splits)
  have new: "\<exists>y'. gi_find t' m = Some y' \<and> ka_key y' = ka_key y \<and>
      ka_account_ids y' = (if m = j then f (ka_account_ids y) else ka_account_ids y)" if "gi_find t m = Some y" for m y
    using that unfolding t' gi_find_modify by auto
  have "m = m'" if "gi_find t' m = Some y" "gi_find t' m' = Some y'" "ka_key y = ka_key y'" for m m' y y'
    using old [OF that(1)] old [OF that(2)] that(3) assms(1) by (auto simp: keys_unique_def)
  then show "keys_unique t'" using assms(1) by (auto simp: keys_unique_def t')
  show "has_entry t' b = has_entry t b"
    unfolding has_entry_def using old new by metis
  show "names t' b i \<longleftrightarrow> (if b = a then i \<in> set (f (ka_account_ids x)) else names t b i)"
  proof (cases "b = a")
    case True
    have "names t' a i" if "i \<in> set (f (ka_account_ids x))"
      using new [OF x(1)] x(2) that unfolding names_def by metis
    moreover have "i \<in> set (f (ka_account_ids x))" if "names t' a i"
      using that old u unfolding names_def by fastforce
    ultimately show ?thesis using True by auto
  next
    case False
    have "names t b i" if "names t' b i"
    proof -
      from that obtain m y' where m: "gi_find t' m = Some y'" "ka_key y' = b" "i \<in> set (ka_account_ids y')" by (auto simp: names_def)
      obtain y where "gi_find t m = Some y" "ka_key y' = ka_key y"
        "ka_account_ids y' = (if m = j then f (ka_account_ids y) else ka_account_ids y)" using old [OF m(1)] by blast
      with x m False show ?thesis by (intro namesI [of t m y]) (auto split: if_splits)
    qed
    moreover have "names t' b i" if "names t b i"
    proof -
      from that obtain m y where m: "gi_find t m = Some y" "ka_key y = b" "i \<in> set (ka_account_ids y)" by (auto simp: names_def)
      with x False have "m \<noteq> j" by auto
      with new [OF m(1)] m show ?thesis by (auto intro: namesI)
    qed
    ultimately show ?thesis using False by auto
  qed
  show "names t a i \<longleftrightarrow> i \<in> set (ka_account_ids x)"
  proof
    assume "names t a i"
    then obtain m y where "gi_find t m = Some y" "ka_key y = a" "i \<in> set (ka_account_ids y)" by (auto simp: names_def)
    with u [of m y] show "i \<in> set (ka_account_ids x)" by simp
  qed (rule namesI [OF x])
qed

lemma index_address_names:
  assumes "keys_unique t"
  obtains t' where "index_address i a t = Some t'" "keys_unique t'"
    "\<And>b. has_entry t' b \<longleftrightarrow> has_entry t b \<or> b = a" "\<And>b k. names t' b k \<longleftrightarrow> names t b k \<or> b = a \<and> k = i"
proof (cases "find_first (\<lambda>x. ka_key x = a) t")
  case None
  let ?y = "\<lparr>ka_key = a, ka_account_ids = [i]\<rparr>"
  have inv: "gi_invar t" using assms by (simp add: keys_unique_def)
  obtain n t' where t': "gi_create ?y t = Some (n, t')"
    using gi_find_next [OF inv, of "next_id t"] by (auto simp: gi_create_Some)
  note f = gi_find_create [OF t']
  have n: "gi_find t n = None" using t' by (auto simp: gi_create_Some)
  have no: "\<not> has_entry t a" using None find_entry [OF assms] by simp
  show thesis
  proof (rule that)
    show "index_address i a t = Some t'" using None t' by (simp add: index_address_def)
    have "gi_invar t'" using gi_invar_create [OF inv t'] .
    then show "keys_unique t'" using assms no unfolding keys_unique_def f has_entry_def by (auto split: if_splits)
    have new: "gi_find t' n = Some ?y" "\<And>j x. gi_find t j = Some x \<Longrightarrow> gi_find t' j = Some x" using f n by auto
    have old: "x = ?y \<or> gi_find t j = Some x" if "gi_find t' j = Some x" for j x using that f by (auto split: if_splits)
    show "has_entry t' b \<longleftrightarrow> has_entry t b \<or> b = a" for b
    proof
      show "has_entry t' b \<Longrightarrow> has_entry t b \<or> b = a" unfolding has_entry_def using old by fastforce
      show "has_entry t b \<or> b = a \<Longrightarrow> has_entry t' b" unfolding has_entry_def using new by fastforce
    qed
    show "names t' b k \<longleftrightarrow> names t b k \<or> b = a \<and> k = i" for b k
    proof
      show "names t' b k \<Longrightarrow> names t b k \<or> b = a \<and> k = i" unfolding names_def using old by fastforce
      show "names t b k \<or> b = a \<and> k = i \<Longrightarrow> names t' b k" unfolding names_def using new by fastforce
    qed
  qed
next
  case (Some jx)
  then obtain j x where jx: "find_first (\<lambda>x. ka_key x = a) t = Some (j, x)" by (cases jx) auto
  note c = change_entry [where f = "fs_insert i", OF assms jx refl]
  have e: "has_entry t a" using find_entry [OF assms, of a] jx by auto
  show thesis
    by (rule that [of "gi_modify j (\<lambda>ka. ka\<lparr>ka_account_ids := fs_insert i (ka_account_ids ka)\<rparr>) t"])
      (use c e jx in \<open>auto simp: index_address_def\<close>)
qed

lemma index_addresses_names:
  assumes "keys_unique t"
  obtains t' where "fold_opt (index_address i) as t = Some t'" "keys_unique t'"
    "\<And>b. has_entry t' b \<longleftrightarrow> has_entry t b \<or> b \<in> set as" "\<And>b k. names t' b k \<longleftrightarrow> names t b k \<or> b \<in> set as \<and> k = i"
proof -
  have "\<exists>t'. fold_opt (index_address i) as t = Some t' \<and> keys_unique t' \<and>
    (\<forall>b. has_entry t' b \<longleftrightarrow> has_entry t b \<or> b \<in> set as) \<and> (\<forall>b k. names t' b k \<longleftrightarrow> names t b k \<or> b \<in> set as \<and> k = i)"
    using assms
  proof (induction "as" arbitrary: t)
    case (Cons a "as")
    obtain t1 where t1: "index_address i a t = Some t1" "keys_unique t1"
      "\<And>b. has_entry t1 b \<longleftrightarrow> has_entry t b \<or> b = a" "\<And>b k. names t1 b k \<longleftrightarrow> names t b k \<or> b = a \<and> k = i"
      by (rule index_address_names [OF Cons.prems, of i a]) (rule that, assumption+)
    from Cons.IH [OF t1(2)] show ?case using t1 by auto
  qed auto
  with that show thesis by blast
qed

lemma insert_addresses:
  "fold_opt (insert_address addr_of d) ks s = Some as \<Longrightarrow> set as = set s \<union> addresses_of addr_of d ks"
proof (induction ks arbitrary: s)
  case (Cons k ks)
  from Cons.prems obtain s1 where s1: "insert_address addr_of d k s = Some s1" "fold_opt (insert_address addr_of d) ks s1 = Some as"
    by auto
  then obtain x where x: "gi_find (keys d) k = Some x"
    "fold_opt (insert_address addr_of d) ks (fs_insert (key_address addr_of x) s) = Some as"
    by (auto simp: insert_address_def [of addr_of d k s])
  have "addresses_of addr_of d (k # ks) = insert (key_address addr_of x) (addresses_of addr_of d ks)"
    using x(1) by (auto simp: addresses_of_def)
  then show ?case using Cons.IH [OF x(2)] by auto
qed (simp add: addresses_of_def)

lemma insert_addresses_known: "keys_known d ks \<Longrightarrow> fold_opt (insert_address addr_of d) ks s \<noteq> None"
  by (induction ks arbitrary: s) (auto simp: keys_known_def insert_address_def)

lemma index_account_keys_names:
  assumes "keys_unique t" "get_keys_for_account i d = Some ks" "keys_known d ks"
  obtains t' where "index_account_keys addr_of i d t = Some t'" "keys_unique t'"
    "\<And>b k. names t' b k \<longleftrightarrow> names t b k \<or> b \<in> addresses_of addr_of d ks \<and> k = i"
proof -
  obtain "as" where "as": "fold_opt (insert_address addr_of d) ks [] = Some as"
    using insert_addresses_known [OF assms(3)] by blast
  obtain t' where t': "fold_opt (index_address i) as t = Some t'" "keys_unique t'"
    "\<And>b k. names t' b k \<longleftrightarrow> names t b k \<or> b \<in> set as \<and> k = i"
    by (rule index_addresses_names [OF assms(1), of i "as"]) (rule that, assumption+)
  show thesis
  proof (rule that [OF _ t'(2)])
    show "index_account_keys addr_of i d t = Some t'" using t'(1) "as" assms(2) by (simp add: index_account_keys_def)
    show "names t' b k \<longleftrightarrow> names t b k \<or> b \<in> addresses_of addr_of d ks \<and> k = i" for b k
      using t'(3) insert_addresses [OF "as"] by simp
  qed
qed

lemma forget_keys_names:
  assumes "keys_unique t" "keys_known d ks" "\<And>a. a \<in> addresses_of addr_of d ks \<Longrightarrow> has_entry t a"
  obtains t' where "forget_keys addr_of i d ks t = (True, t')" "keys_unique t'"
    "\<And>b k. names t' b k \<longleftrightarrow> names t b k \<and> \<not> (b \<in> addresses_of addr_of d ks \<and> k = i)"
proof -
  have "\<exists>t'. forget_keys addr_of i d ks t = (True, t') \<and> keys_unique t' \<and>
    (\<forall>b k. names t' b k \<longleftrightarrow> names t b k \<and> \<not> (b \<in> addresses_of addr_of d ks \<and> k = i))"
    using assms
  proof (induction ks arbitrary: t)
    case (Cons k ks)
    obtain x where x: "gi_find (keys d) k = Some x" using Cons.prems(2) by (auto simp: keys_known_def)
    let ?a = "key_address addr_of x"
    have ad: "addresses_of addr_of d (k # ks) = insert ?a (addresses_of addr_of d ks)"
      using x by (auto simp: addresses_of_def)
    obtain j y where j: "find_first (\<lambda>ka. ka_key ka = ?a) t = Some (j, y)"
      using Cons.prems(3) [of ?a] find_entry [OF Cons.prems(1), of ?a] ad by auto
    let ?t = "gi_modify j (\<lambda>ka. ka\<lparr>ka_account_ids := fs_erase i (ka_account_ids ka)\<rparr>) t"
    note c = change_entry [where f = "fs_erase i", OF Cons.prems(1) j refl]
    have n: "names ?t b l \<longleftrightarrow> names t b l \<and> \<not> (b = ?a \<and> l = i)" for b l using c(3,4) by auto
    have "\<exists>t'. forget_keys addr_of i d ks ?t = (True, t') \<and> keys_unique t' \<and>
      (\<forall>b k. names t' b k \<longleftrightarrow> names ?t b k \<and> \<not> (b \<in> addresses_of addr_of d ks \<and> k = i))"
      by (rule Cons.IH) (use c(1,2) Cons.prems(2,3) ad in \<open>auto simp: keys_known_def\<close>)
    then show ?case using x j n by (auto simp: ad)
  qed (auto simp: addresses_of_def)
  with that show thesis by blast
qed

text \<open>
  Indexing an account whose addresses are unknown to the index, or known to it only by those it has now,
  makes the index exact for it.
\<close>

lemma index_exact_account:
  assumes "keys_unique t" "get_keys_for_account i d = Some ks" "keys_known d ks"
    and "\<And>a k. names t a k \<longleftrightarrow> has_address addr_of d k a \<and> (k = i \<longrightarrow> P a)"
  obtains t' where "index_account_keys addr_of i d t = Some t'" "index_exact addr_of d t'"
proof -
  obtain t' where t': "index_account_keys addr_of i d t = Some t'" "keys_unique t'"
    "\<And>b k. names t' b k \<longleftrightarrow> names t b k \<or> b \<in> addresses_of addr_of d ks \<and> k = i"
    by (rule index_account_keys_names [OF assms(1-3), of addr_of]) (rule that, assumption+)
  have "has_address addr_of d i b \<longleftrightarrow> b \<in> addresses_of addr_of d ks" for b using assms(2) by (simp add: has_address_def)
  then have "index_exact addr_of d t'" using t'(2,3) assms(4) by (auto simp: index_exact_def)
  with t'(1) show thesis by (rule that)
qed

lemma has_address_cong: "get_keys_for_account i d' = get_keys_for_account i d \<Longrightarrow> keys d' = keys d \<Longrightarrow>
    has_address addr_of d' i a = has_address addr_of d i a"
  by (simp add: has_address_def addresses_of_def)

lemma account_update_frame:
  assumes "account_update_do_apply op d = Some (r, d')"
  shows "keys d' = keys d" "get_keys_for_account j d \<noteq> None \<longleftrightarrow> get_keys_for_account j d' \<noteq> None"
    "j \<noteq> au_account op \<Longrightarrow> get_keys_for_account j d' = get_keys_for_account j d" "get_keys_for_account (au_account op) d' \<noteq> None"
proof -
  obtain t f where f: "modify_object (au_account op) (\<lambda>a. Some (f a)) (accounts d) = Some t" "d' = d\<lparr>accounts := t\<rparr>"
    using assms by (auto simp: account_update_do_apply_def)
  note g = modify_object_find [OF f(1)]
  obtain x where "gi_find (accounts d) (au_account op) = Some x" using f(1) by (auto simp: modify_object_Some)
  then show "keys d' = keys d" "get_keys_for_account j d \<noteq> None \<longleftrightarrow> get_keys_for_account j d' \<noteq> None"
    "j \<noteq> au_account op \<Longrightarrow> get_keys_for_account j d' = get_keys_for_account j d" "get_keys_for_account (au_account op) d' \<noteq> None"
    using f(2) g by (auto simp: get_keys_for_account_def)
qed

text \<open>
  C21. Updating an account keeps the index of keys exact: an address names an account if and only if it is
  the address of one of its keys, also when several of them have the same address, of which some are taken away.
\<close>

theorem account_update_keeps_index_exact:
  assumes "account_update_do_apply op d = Some (r, d')" "index_exact addr_of d t"
    and "\<forall>ks. get_keys_for_account (au_account op) d = Some ks \<longrightarrow> keys_known d ks"
    and "\<forall>ks. get_keys_for_account (au_account op) d' = Some ks \<longrightarrow> keys_known d' ks"
  shows "index_exact addr_of d' (account_update_post_evaluate addr_of [] op (account_update_pre_evaluate [] op d old) d' t)"
proof -
  let ?i = "au_account op"
  note fr = account_update_frame [OF assms(1)]
  obtain pre post where ks: "get_keys_for_account ?i d = Some pre" "get_keys_for_account ?i d' = Some post"
    using fr(2) [of ?i] fr(4) by auto
  let ?gone = "filter (\<lambda>k. k \<notin> set post) pre"
  have u: "keys_unique t" and n: "\<And>a i. names t a i \<longleftrightarrow> has_address addr_of d i a"
    using assms(2) by (simp_all add: index_exact_def)
  have known: "keys_known d' ?gone" "keys_known d' post"
    using assms(3,4) ks fr(1) by (auto simp: keys_known_def)
  have sub: "has_address addr_of d ?i a" if "a \<in> addresses_of addr_of d' ?gone" for a
    using that ks(1) fr(1) by (auto simp: has_address_def addresses_of_def)
  then have "has_entry t a" if "a \<in> addresses_of addr_of d' ?gone" for a
    using that n names_has_entry by blast
  then obtain t1 where t1: "forget_keys addr_of ?i d' ?gone t = (True, t1)" "keys_unique t1"
    "\<And>b k. names t1 b k \<longleftrightarrow> names t b k \<and> \<not> (b \<in> addresses_of addr_of d' ?gone \<and> k = ?i)"
    using forget_keys_names [OF u known(1), of addr_of ?i] by metis
  have own: "a \<in> addresses_of addr_of d' post \<or> a \<in> addresses_of addr_of d' ?gone" if "has_address addr_of d ?i a" for a
    using that ks(1) fr(1) by (auto simp: has_address_def addresses_of_def)
  have other: "has_address addr_of d' k a = has_address addr_of d k a" if "k \<noteq> ?i" for k a
    by (rule has_address_cong [OF fr(3) [OF that] fr(1)])
  have here: "has_address addr_of d' ?i a \<longleftrightarrow> a \<in> addresses_of addr_of d' post" for a
    using ks(2) by (simp add: has_address_def)
  have "names t1 a k \<longleftrightarrow> has_address addr_of d' k a \<and> (k = ?i \<longrightarrow> has_address addr_of d ?i a \<and> a \<notin> addresses_of addr_of d' ?gone)" for a k
    using t1(3) [of a k] n [of a k] own [of a] other [of k a] here [of a] by (cases "k = ?i") auto
  then obtain t2 where "index_account_keys addr_of ?i d' t1 = Some t2" "index_exact addr_of d' t2"
    by (rule index_exact_account [OF t1(2) ks(2) known(2)])
  then show ?thesis
    using t1(1) ks by (simp add: account_update_post_evaluate_def account_update_pre_evaluate_def index_or_leave_def Let_def)
qed

text \<open>A new account enters the index with all of its addresses.\<close>

lemma account_create_keeps_index_exact:
  assumes "account_create_do_apply op st d = Some (r, d')" "gi_invar (accounts d)" "index_exact addr_of d t"
    and "\<forall>ks. get_keys_for_account (next_id (accounts d)) d' = Some ks \<longrightarrow> keys_known d' ks"
  shows "index_exact addr_of d' (account_create_post_evaluate addr_of [] r d' t)"
proof -
  obtain u x i where f: "gi_create x (accounts d) = Some (i, u)" "accounts d' = u" "keys d' = keys d"
    "r = protocol_result account_object_type i"
    using assms(1) by (auto simp: account_create_do_apply_def Let_def)
  have i: "i = next_id (accounts d)" using f(1) by (simp add: gi_create_Some)
  obtain ks where ks: "get_keys_for_account i d' = Some ks" using f(2) gi_find_create [OF f(1)] by (auto simp: get_keys_for_account_def)
  have "gi_find (accounts d) i = None" using gi_find_next [OF assms(2)] i by simp
  then have no: "\<not> has_address addr_of d i a" for a by (simp add: has_address_def get_keys_for_account_def)
  have other: "has_address addr_of d' k a = has_address addr_of d k a" if "k \<noteq> i" for k a
    by (rule has_address_cong) (use that f(2,3) gi_find_create [OF f(1)] in \<open>simp_all add: get_keys_for_account_def\<close>)
  have u: "keys_unique t" using assms(3) by (simp add: index_exact_def)
  have known: "keys_known d' ks" using assms(4) ks i by auto
  have "names t a k \<longleftrightarrow> has_address addr_of d' k a \<and> (k = i \<longrightarrow> False)" for a k
    using assms(3) no other by (cases "k = i") (auto simp: index_exact_def)
  then obtain t' where "index_account_keys addr_of i d' t = Some t'" "index_exact addr_of d' t'"
    by (rule index_exact_account [where P = "\<lambda>_. False", OF u ks known])
  then show ?thesis using f(4) by (simp add: account_create_post_evaluate_def index_or_leave_def protocol_result_def oid_instance_def)
qed

subsection \<open>The lists of operations\<close>

text \<open>The nodes from one on, each with its operation; id 0 ends the list.\<close>

inductive chain :: "account_transaction_history_object table \<Rightarrow> nat \<Rightarrow> (nat \<times> nat) list \<Rightarrow> bool" for t where
  chain_end: "chain t 0 []"
| chain_node: "n \<noteq> 0 \<Longrightarrow> gi_find t n = Some x \<Longrightarrow> chain t (th_next x) xs \<Longrightarrow> chain t n ((n, th_operation_id x) # xs)"

inductive_cases chain_ConsE: "chain t n (y # xs)"
inductive_simps chain_simps: "chain t n xs"

definition account_list :: "account_id_type \<Rightarrow> database \<times> account_history \<Rightarrow> (nat \<times> nat) list \<Rightarrow> bool" where
  "account_list i = (\<lambda>(d, h) xs. \<exists>a s. gi_find (accounts d) i = Some a \<and> gi_find (statistics d) (acct_statistics a) = Some s \<and>
     chain (history_nodes h) (st_most_recent_op s) xs)"

definition history_ok :: "database \<times> account_history \<Rightarrow> bool" where
  "history_ok = (\<lambda>(d, h). gi_invar (history_nodes h) \<and> gi_invar (history_ops h) \<and>
     (\<forall>n x. gi_find (history_nodes h) n = Some x \<longrightarrow> gi_find (history_ops h) (th_operation_id x) \<noteq> None \<and>
        (th_next x = 0 \<or> th_next x < n \<and> gi_find (history_nodes h) (th_next x) \<noteq> None)) \<and>
     (\<forall>j s. gi_find (statistics d) j = Some s \<longrightarrow> st_most_recent_op s = 0 \<or> gi_find (history_nodes h) (st_most_recent_op s) \<noteq> None) \<and>
     (\<forall>i j a b. gi_find (accounts d) i = Some a \<longrightarrow> gi_find (accounts d) j = Some b \<longrightarrow> acct_statistics a = acct_statistics b \<longrightarrow> i = j))"

lemma chain_unique: "chain t n xs \<Longrightarrow> chain t n ys \<Longrightarrow> xs = ys"
proof (induction arbitrary: ys rule: chain.induct)
  case chain_end
  then show ?case by (auto elim: chain.cases)
next
  case (chain_node n x xs)
  from chain_node.prems chain_node.hyps show ?case by (cases rule: chain.cases) (auto dest: chain_node.IH)
qed

lemma chain_create:
  assumes "chain t n xs" "gi_create x t = Some (m, t')"
  shows "chain t' n xs"
  using assms(1)
proof induction
  case (chain_node n y xs)
  have "gi_find t m = None" using assms(2) by (auto simp: gi_create_Some)
  then have "n \<noteq> m" using chain_node.hyps(2) by auto
  then show ?case using chain_node by (intro chain.chain_node) (simp_all add: gi_find_create [OF assms(2)])
qed (rule chain_end)

lemma chain_below:
  assumes "chain t n xs" "\<And>n x. gi_find t n = Some x \<Longrightarrow> th_next x = 0 \<or> th_next x < n"
  shows "y \<in> set xs \<Longrightarrow> fst y \<le> n"
  using assms(1)
proof induction
  case (chain_node n x xs)
  then show ?case using assms(2) [OF chain_node.hyps(2)] by (auto elim: chain.cases)
qed simp

text \<open>There is a list for every account.\<close>

lemma chain_exists:
  assumes "\<And>n x. gi_find t n = Some x \<Longrightarrow> th_next x = 0 \<or> th_next x < n \<and> gi_find t (th_next x) \<noteq> None"
  shows "n = 0 \<or> gi_find t n \<noteq> None \<Longrightarrow> \<exists>xs. chain t n xs"
proof (induction n rule: less_induct)
  case (less n)
  show ?case
  proof (cases "n = 0")
    case False
    with less.prems obtain x where x: "gi_find t n = Some x" by auto
    have "\<exists>xs. chain t (th_next x) xs"
      using assms [OF x] less.IH [of "th_next x"] chain_end by (cases "th_next x = 0") auto
    with False x show ?thesis by (blast intro: chain_node)
  qed (blast intro: chain_end)
qed

subsection \<open>What a block adds\<close>

lemma record_history_Some:
  assumes "record_history o' i (d, h) = Some (d', h')"
  obtains a s n t u where "gi_find (accounts d) i = Some a" "gi_find (statistics d) (acct_statistics a) = Some s"
    "gi_create \<lparr>th_operation_id = o', th_next = st_most_recent_op s\<rparr> (history_nodes h) = Some (n, t)"
    "\<And>j. gi_find u j = (if j = acct_statistics a then Some (s\<lparr>st_most_recent_op := n\<rparr>) else gi_find (statistics d) j)"
    "d' = d\<lparr>statistics := u\<rparr>" "h' = h\<lparr>history_nodes := t\<rparr>"
proof -
  from assms obtain a s n t u where f: "gi_find (accounts d) i = Some a" "gi_find (statistics d) (acct_statistics a) = Some s"
    "gi_create \<lparr>th_operation_id = o', th_next = st_most_recent_op s\<rparr> (history_nodes h) = Some (n, t)"
    "modify_object (acct_statistics a) (\<lambda>s. Some (s\<lparr>st_most_recent_op := n\<rparr>)) (statistics d) = Some u"
    "d' = d\<lparr>statistics := u\<rparr>" "h' = h\<lparr>history_nodes := t\<rparr>"
    by (auto simp: record_history_def)
  from f(1-3) _ f(5,6) show thesis
    by (rule that) (use modify_object_find [OF f(4)] f(2) in auto)
qed

lemma record_history_adds:
  assumes "record_history o' i (d, h) = Some (d', h')" "history_ok (d, h)" "gi_find (history_ops h) o' \<noteq> None"
  shows "history_ok (d', h')" "accounts d' = accounts d" "history_ops h' = history_ops h" "applied_ops d' = applied_ops d"
    "next_id (history_nodes h') = Suc (next_id (history_nodes h))"
    "next_id (history_nodes h) > 0 \<Longrightarrow> account_list j (d, h) xs \<Longrightarrow>
       account_list j (d', h') (if j = i then (next_id (history_nodes h), o') # xs else xs)"
proof -
  obtain a s n t u where f: "gi_find (accounts d) i = Some a" "gi_find (statistics d) (acct_statistics a) = Some s"
    "gi_create \<lparr>th_operation_id = o', th_next = st_most_recent_op s\<rparr> (history_nodes h) = Some (n, t)"
    and u: "\<And>j. gi_find u j = (if j = acct_statistics a then Some (s\<lparr>st_most_recent_op := n\<rparr>) else gi_find (statistics d) j)"
    and e: "d' = d\<lparr>statistics := u\<rparr>" "h' = h\<lparr>history_nodes := t\<rparr>"
    by (rule record_history_Some [OF assms(1)]) (rule that, assumption+)
  note g = gi_find_create [OF f(3)]
  have n: "n = next_id (history_nodes h)" "next_id t = Suc n" using f(3) by (auto simp: gi_create_Some)
  have inv: "gi_invar (history_nodes h)" using assms(2) by (simp add: history_ok_def)
  show "accounts d' = accounts d" "history_ops h' = history_ops h" "applied_ops d' = applied_ops d"
    "next_id (history_nodes h') = Suc (next_id (history_nodes h))" using e n by simp_all
  have keep: "gi_find t m \<noteq> None" if "gi_find (history_nodes h) m \<noteq> None" for m using that g by auto
  have recent: "st_most_recent_op s = 0 \<or> gi_find (history_nodes h) (st_most_recent_op s) \<noteq> None"
    using assms(2) f(2) unfolding history_ok_def by blast
  then have below: "st_most_recent_op s = 0 \<or> st_most_recent_op s < n" using gi_find_less [OF inv] n by auto
  show "history_ok (d', h')"
    unfolding history_ok_def e prod.case
  proof (intro conjI allI impI)
    show "gi_invar (history_nodes (h\<lparr>history_nodes := t\<rparr>))" using gi_invar_create [OF inv f(3)] by simp
    show "gi_invar (history_ops (h\<lparr>history_nodes := t\<rparr>))" using assms(2) by (simp add: history_ok_def)
    show "gi_find (history_ops (h\<lparr>history_nodes := t\<rparr>)) (th_operation_id x) \<noteq> None"
      if "gi_find (history_nodes (h\<lparr>history_nodes := t\<rparr>)) m = Some x" for m x
      using that assms(2,3) g by (cases "m = n") (auto simp: history_ok_def)
    show "th_next x = 0 \<or> th_next x < m \<and> gi_find (history_nodes (h\<lparr>history_nodes := t\<rparr>)) (th_next x) \<noteq> None"
      if "gi_find (history_nodes (h\<lparr>history_nodes := t\<rparr>)) m = Some x" for m x
    proof (cases "m = n")
      case True
      then show ?thesis using that g recent below keep by auto
    next
      case False
      then have "gi_find (history_nodes h) m = Some x" using that g by simp
      then have "th_next x = 0 \<or> th_next x < m \<and> gi_find (history_nodes h) (th_next x) \<noteq> None"
        using assms(2) unfolding history_ok_def by blast
      then show ?thesis using keep by auto
    qed
    show "st_most_recent_op x = 0 \<or> gi_find (history_nodes (h\<lparr>history_nodes := t\<rparr>)) (st_most_recent_op x) \<noteq> None"
      if "gi_find (statistics (d\<lparr>statistics := u\<rparr>)) m = Some x" for m x
    proof (cases "m = acct_statistics a")
      case True
      then show ?thesis using that u g by auto
    next
      case False
      then have "gi_find (statistics d) m = Some x" using that u by simp
      then have "st_most_recent_op x = 0 \<or> gi_find (history_nodes h) (st_most_recent_op x) \<noteq> None"
        using assms(2) unfolding history_ok_def by blast
      then show ?thesis using keep [of "st_most_recent_op x"] by auto
    qed
    show "m = k" if "gi_find (accounts (d\<lparr>statistics := u\<rparr>)) m = Some x" "gi_find (accounts (d\<lparr>statistics := u\<rparr>)) k = Some y"
      "acct_statistics x = acct_statistics y" for m k x y
      using that assms(2) unfolding history_ok_def by auto
  qed
  assume pos: "next_id (history_nodes h) > 0" and l: "account_list j (d, h) xs"
  then obtain b r where b: "gi_find (accounts d) j = Some b" "gi_find (statistics d) (acct_statistics b) = Some r"
    "chain (history_nodes h) (st_most_recent_op r) xs" by (auto simp: account_list_def)
  show "account_list j (d', h') (if j = i then (next_id (history_nodes h), o') # xs else xs)"
  proof (cases "j = i")
    case True
    with b f have "b = a" "r = s" by simp_all
    then have "chain t n ((n, o') # xs)"
      using chain_node [of n t] g [of n] pos n chain_create [OF b(3) f(3)] by fastforce
    then show ?thesis using True f(1) u e n by (auto simp: account_list_def)
  next
    case False
    then have "acct_statistics b \<noteq> acct_statistics a" using assms(2) b(1) f(1) unfolding history_ok_def by blast
    then show ?thesis using False b u e chain_create [OF b(3) f(3)] by (auto simp: account_list_def)
  qed
qed

text \<open>Recording an operation for some accounts puts it at the front of their lists and leaves the others alone.\<close>

definition recorded :: "nat \<Rightarrow> account_id_type list \<Rightarrow> database \<times> account_history \<Rightarrow> database \<times> account_history \<Rightarrow> bool" where
  "recorded o' is = (\<lambda>(d, h) (d', h'). history_ok (d', h') \<and> accounts d' = accounts d \<and> applied_ops d' = applied_ops d \<and>
     history_ops h' = history_ops h \<and> next_id (history_nodes h) \<le> next_id (history_nodes h') \<and>
     (next_id (history_nodes h) > 0 \<longrightarrow> (\<forall>j xs. account_list j (d, h) xs \<longrightarrow>
       (\<exists>ys. account_list j (d', h') ys \<and> map snd ys = (if j \<in> set is then o' # map snd xs else map snd xs)))))"

lemma account_list_others [simp]:
  "account_list j (d, h\<lparr>history_keys := t\<rparr>) xs = account_list j (d, h) xs"
  "account_list j (d, h\<lparr>history_ops := u\<rparr>) xs = account_list j (d, h) xs"
  by (simp_all add: account_list_def)

lemma recorded_one:
  assumes "record_history o' i (d, h) = Some (d', h')" "history_ok (d, h)" "gi_find (history_ops h) o' \<noteq> None"
  shows "recorded o' [i] (d, h) (d', h')"
proof -
  note r = record_history_adds [OF assms]
  have "\<exists>ys. account_list j (d', h') ys \<and> map snd ys = (if j \<in> set [i] then o' # map snd xs else map snd xs)"
    if "next_id (history_nodes h) > 0" "account_list j (d, h) xs" for j xs
    using r(6) [OF that] by (cases "j = i") auto
  with r(1-5) show ?thesis by (auto simp: recorded_def)
qed

lemma recorded_tracked:
  assumes "record_tracked addr_of o' i (d, h) = Some (d', h')" "history_ok (d, h)" "gi_find (history_ops h) o' \<noteq> None"
  shows "recorded o' [i] (d, h) (d', h')"
proof -
  obtain t where t: "record_history o' i (d, h\<lparr>history_keys := t\<rparr>) = Some (d', h')"
    using assms(1) by (auto simp: record_tracked_def)
  have "recorded o' [i] (d, h\<lparr>history_keys := t\<rparr>) (d', h')"
    by (rule recorded_one [OF t]) (use assms(2,3) in \<open>simp_all add: history_ok_def\<close>)
  then show ?thesis by (simp add: recorded_def)
qed

lemma recorded_all:
  assumes "fold_opt f is st = Some st'" "history_ok st" "distinct is" "gi_find (history_ops (snd st)) o' \<noteq> None"
    and "\<And>i d h d' h'. f i (d, h) = Some (d', h') \<Longrightarrow> history_ok (d, h) \<Longrightarrow> gi_find (history_ops h) o' \<noteq> None \<Longrightarrow>
      recorded o' [i] (d, h) (d', h')"
  shows "recorded o' is st st'"
  using assms(1-4)
proof (induction "is" arbitrary: st)
  case Nil
  then show ?case by (cases st) (auto simp: recorded_def)
next
  case (Cons i "is")
  obtain d h where st: "st = (d, h)" by (cases st)
  obtain d' h' where st': "st' = (d', h')" by (cases st')
  from Cons.prems(1) st obtain d1 h1 where f: "f i (d, h) = Some (d1, h1)" "fold_opt f is (d1, h1) = Some (d', h')"
    by (auto simp: st')
  have a: "recorded o' [i] (d, h) (d1, h1)" using assms(5) [OF f(1)] Cons.prems(2,4) by (simp add: st)
  then have "recorded o' is (d1, h1) (d', h')"
    using Cons.IH [of "(d1, h1)"] f(2) Cons.prems(3,4) by (simp add: st st' recorded_def)
  note b = this
  have "\<exists>ys. account_list j (d', h') ys \<and> map snd ys = (if j \<in> set (i # is) then o' # map snd xs else map snd xs)"
    if pos: "next_id (history_nodes h) > 0" and l: "account_list j (d, h) xs" for j xs
  proof -
    obtain ys where ys: "account_list j (d1, h1) ys" "map snd ys = (if j = i then o' # map snd xs else map snd xs)"
      using a pos l by (auto simp: recorded_def)
    have "next_id (history_nodes h1) > 0" using a pos by (simp add: recorded_def)
    then obtain zs where "account_list j (d', h') zs" "map snd zs = (if j \<in> set is then o' # map snd ys else map snd ys)"
      using b ys(1) unfolding recorded_def prod.case by blast
    then show ?thesis using ys(2) Cons.prems(3) by auto
  qed
  then show ?case using a b by (auto simp: recorded_def st st')
qed

lemma distinct_fold_fs_insert [simp]: "distinct s \<Longrightarrow> distinct (fold fs_insert xs s)"
  by (induction xs arbitrary: s) simp_all

lemma distinct_required_accounts [simp]: "distinct s \<Longrightarrow> distinct (required_accounts op s)"
  by (cases op) (simp_all add: required_accounts_def Let_def)

lemma distinct_fold_required: "distinct s \<Longrightarrow> distinct (fold required_accounts ops s)"
  by (induction ops arbitrary: s) simp_all

lemma distinct_impacted: "impacted_by h = Some s \<Longrightarrow> distinct s"
  unfolding impacted_by_def
  by (cases "oh_op h") (auto simp: add_impacted_authority_def distinct_fold_required split: operation_result.splits option.splits)

definition concerns :: "tracked_accounts \<Rightarrow> account_id_type \<Rightarrow> operation_history_object \<Rightarrow> bool" where
  "concerns tracked j op \<longleftrightarrow> (\<exists>s. impacted_by op = Some s \<and> j \<in> set s) \<and> (tracked = [] \<or> j \<in> set tracked)"

text \<open>The ids, newest first, of the operations that concern an account, numbered from \<open>n\<close>.\<close>

fun concerning :: "tracked_accounts \<Rightarrow> account_id_type \<Rightarrow> nat \<Rightarrow> operation_history_object list \<Rightarrow> nat list" where
  "concerning tracked j n [] = []"
| "concerning tracked j n (op # ops) = concerning tracked j (Suc n) ops @ (if concerns tracked j op then [n] else [])"

lemma record_operation_adds:
  assumes "record_operation addr_of tracked op (d, h) = Some (d', h')" "history_ok (d, h)" "distinct tracked"
  shows "history_ok (d', h')" "accounts d' = accounts d" "next_id (history_ops h') = Suc (next_id (history_ops h))"
    "next_id (history_nodes h) \<le> next_id (history_nodes h')"
    "next_id (history_nodes h) > 0 \<Longrightarrow> account_list j (d, h) xs \<Longrightarrow>
       \<exists>ys. account_list j (d', h') ys \<and>
         map snd ys = (if concerns tracked j op then next_id (history_ops h) # map snd xs else map snd xs)"
proof -
  obtain n t imp where f: "gi_create op (history_ops h) = Some (n, t)" "impacted_by op = Some imp"
    "(if tracked = [] then fold_opt (record_history n) imp (d, h\<lparr>history_ops := t\<rparr>)
     else fold_opt (record_tracked addr_of n) (filter (\<lambda>i. i \<in> set imp) tracked) (d, h\<lparr>history_ops := t\<rparr>)) = Some (d', h')"
    using assms(1) by (auto simp: record_operation_def Let_def)
  let ?h = "h\<lparr>history_ops := t\<rparr>"
  let ?is = "if tracked = [] then imp else filter (\<lambda>i. i \<in> set imp) tracked"
  have n: "n = next_id (history_ops h)" "next_id t = Suc n" using f(1) by (auto simp: gi_create_Some)
  note g = gi_find_create [OF f(1)]
  have ok: "history_ok (d, ?h)"
    using assms(2) gi_invar_create [OF _ f(1)] g unfolding history_ok_def by (auto 0 3)
  have "recorded n ?is (d, ?h) (d', h')"
  proof (cases "tracked = []")
    case True
    with f(3) have "fold_opt (record_history n) imp (d, ?h) = Some (d', h')" by simp
    from recorded_all [OF this ok distinct_impacted [OF f(2)] _ recorded_one] show ?thesis using g True by simp
  next
    case False
    with f(3) have "fold_opt (record_tracked addr_of n) (filter (\<lambda>i. i \<in> set imp) tracked) (d, ?h) = Some (d', h')" by simp
    from recorded_all [OF this ok _ _ recorded_tracked] show ?thesis using g False assms(3) by simp
  qed
  moreover have "j \<in> set ?is \<longleftrightarrow> concerns tracked j op" for j using f(2) by (auto simp: concerns_def)
  ultimately show "history_ok (d', h')" "accounts d' = accounts d" "next_id (history_ops h') = Suc (next_id (history_ops h))"
    "next_id (history_nodes h) \<le> next_id (history_nodes h')"
    "next_id (history_nodes h) > 0 \<Longrightarrow> account_list j (d, h) xs \<Longrightarrow>
       \<exists>ys. account_list j (d', h') ys \<and>
         map snd ys = (if concerns tracked j op then next_id (history_ops h) # map snd xs else map snd xs)"
    using n by (auto simp: recorded_def)
qed

lemma record_operations_adds:
  assumes "fold_opt (record_operation addr_of tracked) ops (d, h) = Some (d', h')" "history_ok (d, h)" "distinct tracked"
  shows "history_ok (d', h') \<and> (next_id (history_nodes h) > 0 \<longrightarrow> account_list j (d, h) xs \<longrightarrow>
    (\<exists>ys. account_list j (d', h') ys \<and> map snd ys = concerning tracked j (next_id (history_ops h)) ops @ map snd xs))"
  using assms(1,2)
proof (induction ops arbitrary: d h xs)
  case Nil
  then show ?case by auto
next
  case (Cons op ops)
  then obtain d1 h1 where f: "record_operation addr_of tracked op (d, h) = Some (d1, h1)"
    "fold_opt (record_operation addr_of tracked) ops (d1, h1) = Some (d', h')" by auto
  note a = record_operation_adds [OF f(1) Cons.prems(2) assms(3)]
  show ?case
  proof (intro conjI impI)
    show "history_ok (d', h')" using Cons.IH [OF f(2) a(1)] by blast
    assume pos: "next_id (history_nodes h) > 0" and l: "account_list j (d, h) xs"
    obtain ys where ys: "account_list j (d1, h1) ys"
      "map snd ys = (if concerns tracked j op then next_id (history_ops h) # map snd xs else map snd xs)"
      using a(5) [OF pos l] by blast
    have "next_id (history_nodes h1) > 0" using a(4) pos by simp
    then obtain zs where "account_list j (d', h') zs" "map snd zs = concerning tracked j (Suc (next_id (history_ops h))) ops @ map snd ys"
      using Cons.IH [OF f(2) a(1), of ys] ys(1) a(3) by auto
    then show "\<exists>ys. account_list j (d', h') ys \<and>
        map snd ys = concerning tracked j (next_id (history_ops h)) (op # ops) @ map snd xs"
      using ys(2) by auto
  qed
qed

text \<open>
  C20. After a block the list of an account is what it was with the operations of the block that concern the
  account in front, newest first, once some node has been recorded; and the lists stay well formed.
\<close>

theorem update_account_histories_appends:
  assumes "update_account_histories addr_of tracked (d, h) = Some (d', h')" "history_ok (d, h)" "distinct tracked"
    and "next_id (history_nodes h) > 0" "account_list j (d, h) xs"
  shows "history_ok (d', h') \<and> (\<exists>ys. account_list j (d', h') ys \<and>
    map snd ys = concerning tracked j (next_id (history_ops h)) (applied_ops d) @ map snd xs)"
  using record_operations_adds [OF _ assms(2,3), of addr_of "applied_ops d" d' h' j xs] assms(1,4,5)
  by (simp add: update_account_histories_def)

subsection \<open>What is shown of a list\<close>

definition op_of :: "account_history \<Rightarrow> nat \<times> nat \<Rightarrow> operation_history_object" where
  "op_of h y = the (gi_find (history_ops h) (snd y))"

definition node_at :: "account_history \<Rightarrow> nat \<Rightarrow> (nat \<times> account_transaction_history_object) option" where
  "node_at h n = (if n = 0 then None else map_option (Pair n) (gi_find (history_nodes h) n))"

lemma history_loop_lists:
  assumes "chain (history_nodes h) n xs" "\<forall>y \<in> set xs. gi_find (history_ops h) (snd y) \<noteq> None"
  shows "history_loop h stop limit start (node_at h n) result =
    Some (result @ map (op_of h) (take (nat (uint64 limit) - length result)
      (filter (\<lambda>y. fst y \<le> start) (takeWhile (\<lambda>y. snd y > stop) xs))))"
  using assms
proof (induction arbitrary: result rule: chain.induct)
  case chain_end
  then show ?case by (subst history_loop.simps) (simp add: node_at_def)
next
  case (chain_node n x xs)
  have node: "node_at h n = Some (n, x)" using chain_node.hyps by (simp add: node_at_def)
  obtain op where op: "gi_find (history_ops h) (th_operation_id x) = Some op" using chain_node.prems by auto
  have ih: "history_loop h stop limit start (node_at h (th_next x)) r = Some (r @ map (op_of h) (take (nat (uint64 limit) - length r)
      (filter (\<lambda>y. fst y \<le> start) (takeWhile (\<lambda>y. snd y > stop) xs))))" for r
    using chain_node.IH chain_node.prems by simp
  have nat: "int k < uint64 limit \<longleftrightarrow> k < nat (uint64 limit)" for k by linarith
  show ?case
  proof (cases "th_operation_id x > stop \<and> int (length result) < uint64 limit")
    case True
    define r where "r = (if n \<le> start then result @ [op] else result)"
    have "history_loop h stop limit start (Some (n, x)) result = history_loop h stop limit start (node_at h (th_next x)) r"
      using True op by (subst history_loop.simps) (simp add: r_def node_at_def)
    moreover have "nat (uint64 limit) - length result = Suc (nat (uint64 limit) - Suc (length result))"
      using True nat [of "length result"] by simp
    ultimately show ?thesis using True op ih [of r] by (simp add: r_def op_of_def node)
  next
    case False
    then have "take (nat (uint64 limit) - length result)
      (filter (\<lambda>y. fst y \<le> start) (takeWhile (\<lambda>y. snd y > stop) ((n, th_operation_id x) # xs))) = []"
      using nat [of "length result"] by auto
    moreover have "history_loop h stop limit start (node_at h n) result = Some result"
      using False by (subst history_loop.simps) (auto simp: node)
    ultimately show ?thesis by simp
  qed
qed

lemma chain_operations_known:
  assumes "chain t n xs" "\<And>n x. gi_find t n = Some x \<Longrightarrow> P (th_operation_id x)"
  shows "\<forall>y \<in> set xs. P (snd y)"
  using assms(1) by induction (auto intro: assms(2))

lemma account_list_exists:
  assumes "history_ok (d, h)" "gi_find (accounts d) i = Some a" "gi_find (statistics d) (acct_statistics a) = Some s"
  shows "\<exists>xs. account_list i (d, h) xs"
proof -
  have "\<exists>xs. chain (history_nodes h) (st_most_recent_op s) xs"
    by (rule chain_exists) (use assms in \<open>auto simp: history_ok_def\<close>)
  with assms(2,3) show ?thesis by (auto simp: account_list_def)
qed

text \<open>
  The history of an account that is shown is the list of its operations down to \<open>stop\<close>, cut to the limit;
  but a starting point other than 0 is compared with the ids of the nodes, not of the operations, and a
  negative limit, read as an unsigned number, is none.
\<close>

theorem account_history_shown:
  assumes "history_ok (d, h)" "account_list a (d, h) xs" "limit \<le> 100"
  shows "get_account_history a stop limit start (d, h) = Some (map (op_of h) (take (nat (uint64 limit))
    (filter (\<lambda>y. start = 0 \<or> fst y \<le> start) (takeWhile (\<lambda>y. snd y > stop) xs))))"
proof -
  obtain b s where b: "gi_find (accounts d) a = Some b" "gi_find (statistics d) (acct_statistics b) = Some s"
    "chain (history_nodes h) (st_most_recent_op s) xs" using assms(2) by (auto simp: account_list_def)
  let ?n = "st_most_recent_op s"
  show ?thesis
  proof (cases "?n = 0")
    case True
    with b(3) have "xs = []" using chain_unique chain_end by metis
    with True b assms(3) show ?thesis by (simp add: get_account_history_def)
  next
    case False
    then obtain x where x: "gi_find (history_nodes h) ?n = Some x" using b(3) by (auto elim: chain.cases)
    have "\<forall>y \<in> set xs. gi_find (history_ops h) (snd y) \<noteq> None"
      by (rule chain_operations_known [OF b(3)]) (use assms(1) in \<open>auto simp: history_ok_def\<close>)
    note shown = history_loop_lists [OF b(3) this]
    have "fst y \<le> ?n" if "y \<in> set xs" for y
      by (rule chain_below [OF b(3) _ that]) (use assms(1) in \<open>auto simp: history_ok_def\<close>)
    then have "filter (\<lambda>y. fst y \<le> (if start = 0 then ?n else start)) (takeWhile (\<lambda>y. snd y > stop) xs) =
        filter (\<lambda>y. start = 0 \<or> fst y \<le> start) (takeWhile (\<lambda>y. snd y > stop) xs)"
      by (intro filter_cong) (auto dest: set_takeWhileD)
    moreover have "node_at h ?n = Some (?n, x)" using False x by (simp add: node_at_def)
    ultimately show ?thesis
      using shown [of stop limit "if start = 0 then ?n else start" "[]"] False x b(1,2) assms(3)
      by (simp add: get_account_history_def)
  qed
qed

text \<open>
  The first node ever recorded has the id that ends a list, so its operation is never shown to the account
  it was recorded for.
\<close>

theorem first_entry_not_shown:
  assumes "record_history o' i (d, h) = Some (d', h')" "next_id (history_nodes h) = 0" "limit \<le> 100"
  shows "get_account_history i stop limit start (d', h') = Some []"
proof -
  obtain a s n t u where f: "gi_find (accounts d) i = Some a" "gi_find (statistics d) (acct_statistics a) = Some s"
    "gi_create \<lparr>th_operation_id = o', th_next = st_most_recent_op s\<rparr> (history_nodes h) = Some (n, t)"
    and u: "\<And>j. gi_find u j = (if j = acct_statistics a then Some (s\<lparr>st_most_recent_op := n\<rparr>) else gi_find (statistics d) j)"
    and e: "d' = d\<lparr>statistics := u\<rparr>" "h' = h\<lparr>history_nodes := t\<rparr>"
    by (rule record_history_Some [OF assms(1)]) (rule that, assumption+)
  have "n = 0" using f(3) assms(2) by (auto simp: gi_create_Some)
  with f(1) u e assms(3) show ?thesis by (simp add: get_account_history_def)
qed

subsection \<open>Two operations and their readers\<close>

text \<open>
  Operation 0, a transfer from carol to alice, left node 0 for alice and node 1 for carol; the block at hand has
  the transfer again.
\<close>

definition sample_entry :: operation_history_object where
  "sample_entry = \<lparr>oh_op = sample_transfer, oh_result = Void_Result\<rparr>"

definition sample_history :: account_history where
  "sample_history = \<lparr>history_ops = table_of [sample_entry],
     history_nodes = table_of [\<lparr>th_operation_id = 0, th_next = 0\<rparr>, \<lparr>th_operation_id = 0, th_next = 0\<rparr>],
     history_keys = empty_table\<rparr>"

definition sample_block_db :: database where
  "sample_block_db = sample_database\<lparr>statistics := table_of (map
     (\<lambda>n. \<lparr>st_most_recent_op = n, st_total_core_in_orders = 0, st_lifetime_fees_paid = 0\<rparr>) [0, 0, 0, 1]),
     applied_ops := [sample_entry]\<rparr>"

lemma sample_history_ok: "history_ok (sample_block_db, sample_history)"
  by (auto simp: history_ok_def sample_history_def sample_block_db_def sample_defs less_Suc_eq numeral_nat nth_Cons'
      split: if_splits)

lemma sample_list: "account_list 3 (sample_block_db, sample_history) [(1, 0)]"
  using chain_node [of 1 "history_nodes sample_history" "\<lparr>th_operation_id = 0, th_next = 0\<rparr>" "[]"] chain_end
  by (auto simp: account_list_def sample_history_def sample_block_db_def sample_defs)

lemma sample_concerning: "concerning [] 3 1 [sample_entry] = [1]"
proof -
  have "(case impacted_by sample_entry of None \<Rightarrow> False | Some s \<Rightarrow> 3 \<in> set s)" by code_simp
  then show ?thesis by (auto simp: concerns_def split: option.splits)
qed

lemma sample_update:
  obtains d' h' e where "update_account_histories id [] (sample_block_db, sample_history) = Some (d', h')"
    "gi_find (history_ops h') 1 = Some e" "fee_payer (oh_op e) = 3"
proof -
  have "(case update_account_histories id [] (sample_block_db, sample_history) of None \<Rightarrow> False
      | Some (d', h') \<Rightarrow> (case gi_find (history_ops h') 1 of None \<Rightarrow> False | Some e \<Rightarrow> fee_payer (oh_op e) = 3))"
    by code_simp
  with that show thesis by (auto split: option.splits)
qed

lemma sample_distinct: "distinct ([] :: tracked_accounts)" "next_id (history_nodes sample_history) > 0"
  by (simp_all add: sample_history_def)

lemma update_account_histories_appends_witness:
  "\<exists>d' h' ys. update_account_histories id [] (sample_block_db, sample_history) = Some (d', h') \<and>
     account_list 3 (d', h') ys \<and> map snd ys = [1, 0]"
proof -
  obtain d' h' where u: "update_account_histories id [] (sample_block_db, sample_history) = Some (d', h')"
    by (rule sample_update)
  from update_account_histories_appends [OF u sample_history_ok sample_distinct sample_list]
  obtain ys where "account_list 3 (d', h') ys"
    "map snd ys = concerning [] 3 (next_id (history_ops sample_history)) (applied_ops sample_block_db) @ [0]" by auto
  moreover have "next_id (history_ops sample_history) = 1" "applied_ops sample_block_db = [sample_entry]"
    by (simp_all add: sample_history_def sample_block_db_def)
  ultimately show ?thesis using u sample_concerning by auto
qed

text \<open>Alice is shown nothing, though operation 0 was a transfer to her; carol neither, since 0 is where a history stops.\<close>

lemma account_history_shown_witness:
  "get_account_history 3 0 (- 1) 0 (sample_block_db, sample_history) = Some []"
  using account_history_shown [OF sample_history_ok sample_list, of "- 1" 0 0] by simp

lemma first_entry_not_shown_witness:
  "\<exists>d' h'. record_history 0 1 (sample_block_db, sample_history\<lparr>history_nodes := empty_table\<rparr>) = Some (d', h') \<and>
     next_id (history_nodes h') = 1 \<and> get_account_history 1 0 100 0 (d', h') = Some []"
proof -
  have "map_option (\<lambda>(d', h'). next_id (history_nodes h')) (record_history 0 1 (sample_block_db, sample_history\<lparr>history_nodes := empty_table\<rparr>)) = Some 1"
    by code_simp
  then obtain d' h' where r: "record_history 0 1 (sample_block_db, sample_history\<lparr>history_nodes := empty_table\<rparr>) = Some (d', h')"
    "next_id (history_nodes h') = 1" by auto
  with first_entry_not_shown [OF r(1), of 100 0 0] show ?thesis by (simp add: empty_table_def)
qed

text \<open>Alice replaces her key by carol's, which has the same address.\<close>

definition sample_address :: "nat \<Rightarrow> nat" where "sample_address p = (if p = 13 then 11 else p)"

definition sample_index :: "key_account_object table" where
  "sample_index = table_of [\<lparr>ka_key = 10, ka_account_ids = [0]\<rparr>, \<lparr>ka_key = 11, ka_account_ids = [1, 3]\<rparr>, \<lparr>ka_key = 12, ka_account_ids = [2]\<rparr>]"

definition sample_new_key :: account_update_operation where
  "sample_new_key = \<lparr>au_fee = mk_asset 0 0, au_account = 1, au_owner = Some \<lparr>weight_threshold = 1, auths = [(key_oid 3, 1)]\<rparr>,
     au_active = Some \<lparr>weight_threshold = 1, auths = [(key_oid 3, 1)]\<rparr>, au_voting_account = None, au_memo_key = Some (key_oid 3),
     au_vote = None, au_num_witness = 0, au_num_committee = 0, au_upgrade_to_prime = False\<rparr>"

lemma sample_keys:
  "get_keys_for_account i sample_database = (if i < 4 then Some [i] else None)"
  by (auto simp: get_keys_for_account_def sample_defs key_instances_def key_oid_def account_oid_def oid_type_def oid_instance_def
    key_object_type_def account_object_type_def less_Suc_eq numeral_nat fs_insert_def)

lemma sample_key_at: "gi_find (keys sample_database) k = (if k < 4 then Some (Public_Key (10 + k)) else None)"
  by (auto simp: sample_database_def less_Suc_eq numeral_nat)

lemma sample_key_1: "gi_find (keys sample_database) 1 \<noteq> None"
  by (simp add: sample_key_at)

lemma sample_index_at: "gi_find sample_index j = Some x \<longleftrightarrow>
    j = 0 \<and> x = \<lparr>ka_key = 10, ka_account_ids = [0]\<rparr> \<or> j = 1 \<and> x = \<lparr>ka_key = 11, ka_account_ids = [1, 3]\<rparr> \<or>
    j = 2 \<and> x = \<lparr>ka_key = 12, ka_account_ids = [2]\<rparr>"
proof -
  consider "j = 0" | "j = 1" | "j = 2" | "j \<ge> 3" by linarith
  then show ?thesis by cases (auto simp: sample_index_def)
qed

lemma sample_index_exact: "index_exact sample_address sample_database sample_index"
proof -
  have "has_address sample_address sample_database i a \<longleftrightarrow> i < 4 \<and> a = sample_address (10 + i)" for i a
    by (auto simp: has_address_def sample_keys addresses_of_def sample_key_at key_address_def)
  moreover have "i < 4 \<longleftrightarrow> i = 0 \<or> i = 1 \<or> i = 2 \<or> i = 3" for i :: nat by auto
  ultimately have "has_address sample_address sample_database i a \<longleftrightarrow>
      (i = 0 \<and> a = 10) \<or> (i = 1 \<and> a = 11) \<or> (i = 2 \<and> a = 12) \<or> (i = 3 \<and> a = 11)" for i a
    by (auto simp: sample_address_def)
  moreover have "names sample_index a i \<longleftrightarrow>
      (i = 0 \<and> a = 10) \<or> (i = 1 \<and> a = 11) \<or> (i = 2 \<and> a = 12) \<or> (i = 3 \<and> a = 11)" for i a
    unfolding names_def sample_index_at by (simp add: conj_disj_distribR ex_disj_distrib conj_assoc) auto
  moreover have "gi_invar sample_index" by (simp add: sample_index_def)
  then have "keys_unique sample_index"
    unfolding keys_unique_def sample_index_at by force
  ultimately show ?thesis by (simp add: index_exact_def)
qed

lemma account_update_keeps_index_exact_witness:
  "\<exists>r d'. account_update_do_apply sample_new_key sample_database = Some (r, d') \<and>
     index_exact sample_address d' (account_update_post_evaluate sample_address [] sample_new_key [1] d' sample_index)"
proof -
  have "map_option (\<lambda>(r, d'). (get_keys_for_account 1 d', gi_find (keys d') 3)) (account_update_do_apply sample_new_key sample_database) =
      Some (Some [3], Some (Public_Key 13))" by code_simp
  then obtain r d' where f: "account_update_do_apply sample_new_key sample_database = Some (r, d')"
    "get_keys_for_account 1 d' = Some [3]" "gi_find (keys d') 3 = Some (Public_Key 13)" by auto
  have i: "au_account sample_new_key = 1" by (simp add: sample_new_key_def)
  have p: "account_update_pre_evaluate [] sample_new_key sample_database [] = [1]"
    by (simp add: account_update_pre_evaluate_def i sample_keys)
  have "\<forall>ks. get_keys_for_account (au_account sample_new_key) sample_database = Some ks \<longrightarrow> keys_known sample_database ks"
    using sample_key_1 by (simp add: i sample_keys keys_known_def)
  moreover have "\<forall>ks. get_keys_for_account (au_account sample_new_key) d' = Some ks \<longrightarrow> keys_known d' ks"
    using f by (auto simp: i keys_known_def)
  ultimately have "index_exact sample_address d' (account_update_post_evaluate sample_address [] sample_new_key
      (account_update_pre_evaluate [] sample_new_key sample_database []) d' sample_index)"
    by (rule account_update_keeps_index_exact [OF f(1) sample_index_exact])
  with f(1) p show ?thesis by auto
qed

end
