(* ===== verification/Sync.thy ===== *)
theory Sync
  imports Chain
begin

section \<open>Serving and asking for blocks\<close>

text \<open>
  Models what a node answers its peers: the look-ups of blocks and transactions at the end of
  \<^verbatim>\<open>libraries/chain/database.cpp\<close>, and the members of \<open>application_impl\<close> (\<^verbatim>\<open>libraries/app/application.cpp\<close>) that the
  network calls. The stored blocks are in LevelDB, whose iterators go through the ids in the order of the
  comparison of \<open>fc\<close>: both the list of the stored ids in that order and the comparison are arguments, in a record.

  A node that is behind sends a synopsis of its chain; the peer looks for the last id it knows in it and answers
  with the ids from there on. The synopsis is computed for every length of the chain; and for two nodes on the same chain the answer
  starts with the head of the asking node.
\<close>

record block_store =
  stored_ids :: "block_id_type list"
  id_below :: "block_id_type \<Rightarrow> block_id_type \<Rightarrow> bool"

definition lower_bound :: "block_store \<Rightarrow> block_id_type \<Rightarrow> block_id_type option" where
  "lower_bound s lb = find (\<lambda>i. \<not> id_below s i lb) (stored_ids s)"

subsection \<open>Look-ups in the database\<close>

definition is_known_block :: "block_id_type \<Rightarrow> chain \<Rightarrow> bool" where
  "is_known_block i ch = (fork_is_known_block i (ch_fork ch) \<or> ch_blocks ch i \<noteq> None)"

definition is_known_transaction :: "nat \<Rightarrow> chain \<Rightarrow> bool" where
  "is_known_transaction i ch = (find_first (\<lambda>t. to_trx_id t = i) (transactions (ch_db ch)) \<noteq> None)"

text \<open>\<open>lb\<close> is the id whose first word holds the number; all of its other words are 0.\<close>

definition get_block_id_for_num :: "block_store \<Rightarrow> nat \<Rightarrow> block_id_type option" where
  "get_block_id_for_num s n = do {
     let lb = htonl n;
     i \<leftarrow> lower_bound s lb;
     fc_assert (hash_word i 0 = hash_word lb 0);
     Some i }"

definition fetch_block_by_id :: "block_id_type \<Rightarrow> chain \<Rightarrow> signed_block option" where
  "fetch_block_by_id i ch = (case fetch_block i (ch_fork ch) of
     None \<Rightarrow> ch_blocks ch i
   | Some a \<Rightarrow> Some (item_block (ch_fork ch) a))"

definition block_at_number :: "block_store \<Rightarrow> nat \<Rightarrow> chain \<Rightarrow> signed_block option" where
  "block_at_number s n ch = (case fetch_block_by_number n (ch_fork ch) of
     [a] \<Rightarrow> Some (item_block (ch_fork ch) a)
   | _ \<Rightarrow> do {
       i \<leftarrow> lower_bound s (htonl n);
       if hash_word i 0 = hash_word (htonl n) 0 then ch_blocks ch i else None })"

definition get_recent_transaction :: "nat \<Rightarrow> chain \<Rightarrow> signed_transaction option" where
  "get_recent_transaction i ch = map_option (\<lambda>(_, t). to_trx t) (find_first (\<lambda>t. to_trx_id t = i) (transactions (ch_db ch)))"

subsection \<open>The node's delegate\<close>

datatype item_id = Block_Item block_id_type | Trx_Item nat

datatype message = Block_Message signed_block | Trx_Message signed_transaction

definition has_item :: "item_id \<Rightarrow> chain \<Rightarrow> bool" where
  "has_item i ch = (case i of Block_Item h \<Rightarrow> is_known_block h ch | Trx_Item h \<Rightarrow> is_known_transaction h ch)"

definition get_item :: "item_id \<Rightarrow> chain \<Rightarrow> message option" where
  "get_item i ch = (case i of
     Block_Item h \<Rightarrow> map_option Block_Message (fetch_block_by_id h ch)
   | Trx_Item h \<Rightarrow> map_option Trx_Message (get_recent_transaction h ch))"

text \<open>A node that does not produce blocks trusts the signatures of the transactions in a block.\<close>

definition handle_block :: "block_env \<Rightarrow> nat \<Rightarrow> bool \<Rightarrow> signed_block \<Rightarrow> chain \<Rightarrow> (chain + bool \<times> chain) option" where
  "handle_block c depth is_block_producer b ch =
     push_block c depth (if is_block_producer then 0 else skip_transaction_signatures) b ch"

definition handle_transaction ::
  "block_env \<Rightarrow> nat \<Rightarrow> signed_transaction \<Rightarrow> chain \<Rightarrow> (chain + bool \<times> chain) option" where
  "handle_transaction c depth trx ch = do {
     r \<leftarrow> push_transaction c depth 0 trx ch;
     Some (case r of Inl ch1 \<Rightarrow> Inl ch1 | Inr (_, ch1) \<Rightarrow> Inr (False, ch1)) }"

definition last_known_block_id :: "block_id_type list \<Rightarrow> chain \<Rightarrow> block_id_type" where
  "last_known_block_id blockchain_synopsis ch =
     (case find (\<lambda>i. is_known_block i ch \<or> i = 0) (rev blockchain_synopsis) of None \<Rightarrow> 0 | Some i \<Rightarrow> i)"

function collect_ids :: "block_store \<Rightarrow> nat \<Rightarrow> nat \<Rightarrow> nat \<Rightarrow> block_id_type list \<Rightarrow> block_id_type list option" where
  "collect_ids s head_num limit num result =
     (if num \<le> head_num \<and> length result < limit then
        (if num > 0 then do {
           i \<leftarrow> get_block_id_for_num s num;
           collect_ids s head_num limit (num + 1) (result @ [i]) }
         else collect_ids s head_num limit (num + 1) result)
      else Some result)"
  by auto

termination by (relation "measure (\<lambda>(s, head_num, limit, num, result). head_num + 1 - num)") auto

declare collect_ids.simps [simp del]

text \<open>The ids and how many are left; \<open>back()\<close> of no ids at all has no value.\<close>

definition get_item_ids :: "block_store \<Rightarrow> block_id_type list \<Rightarrow> nat \<Rightarrow> chain \<Rightarrow> (block_id_type list \<times> nat) option" where
  "get_item_ids s blockchain_synopsis limit ch = (let head_num = nat (head_block_number (dprops (ch_db ch))) in
     if head_num = 0 then Some ([], 0)
     else do {
       result \<leftarrow> collect_ids s head_num limit (num_from_id (last_known_block_id blockchain_synopsis ch)) [];
       fc_assert (result \<noteq> []);
       let back = num_from_id (last result);
       Some (result, if back < head_num then head_num - back else 0) })"

text \<open>
  \<open>current\<close> is a signed number compared with an unsigned one; doubling it wraps to 0 beyond $2^{31}$, from where
  the loop does not return.
\<close>

partial_function (option) synopsis_loop :: "block_store \<Rightarrow> nat \<Rightarrow> nat \<Rightarrow> block_id_type list \<Rightarrow> block_id_type list option" where
  [code]: "synopsis_loop s head_num current result =
     (if current < head_num then do {
        i \<leftarrow> get_block_id_for_num s (head_num - current);
        synopsis_loop s head_num (current * 2 mod 2 ^ 32) (result @ [i]) }
      else Some result)"

definition get_blockchain_synopsis :: "block_store \<Rightarrow> chain \<Rightarrow> block_id_type list option" where
  "get_blockchain_synopsis s ch = do {
     let p = dprops (ch_db ch);
     result \<leftarrow> synopsis_loop s (nat (head_block_number p)) 1 [head_block_id p];
     Some (rev result) }"

definition get_block_number :: "block_id_type \<Rightarrow> nat" where
  "get_block_number = num_from_id"

text \<open>\<open>time_point_sec::min()\<close> is 0.\<close>

definition get_block_time :: "block_id_type \<Rightarrow> chain \<Rightarrow> time_point_sec" where
  "get_block_time i ch = (case fetch_block_by_id i ch of None \<Rightarrow> 0 | Some b \<Rightarrow> blk_timestamp b)"

definition get_head_block_id :: "chain \<Rightarrow> block_id_type" where
  "get_head_block_id ch = head_block_id (dprops (ch_db ch))"

subsection \<open>A node on one chain\<close>

text \<open>
  The stored blocks are the blocks 1, 2, ... of one chain up to the head, and the comparison puts an id below
  the bound for a number exactly if its own number is smaller.
\<close>

definition on_chain :: "block_store \<Rightarrow> block_id_type list \<Rightarrow> chain \<Rightarrow> bool" where
  "on_chain s ids ch \<longleftrightarrow> stored_ids s = ids \<and> length ids < 2 ^ 31 \<and>
     head_block_number (dprops (ch_db ch)) = int (length ids) \<and>
     (ids \<noteq> [] \<longrightarrow> head_block_id (dprops (ch_db ch)) = last ids) \<and>
     (\<forall>k < length ids. num_from_id (ids ! k) = Suc k \<and> is_known_block (ids ! k) ch) \<and>
     (\<forall>i n. n < 2 ^ 32 \<longrightarrow> id_below s i (htonl n) = (num_from_id i < n))"

lemma find_first_at:
  assumes "k < length xs" "P (xs ! k)" "\<And>j. j < k \<Longrightarrow> \<not> P (xs ! j)"
  shows "find P xs = Some (xs ! k)"
  using assms
proof (induction xs arbitrary: k)
  case (Cons x xs)
  show ?case
  proof (cases k)
    case 0
    with Cons.prems show ?thesis by simp
  next
    case (Suc m)
    moreover have "\<not> P x" using Cons.prems(3) [of 0] Suc by simp
    moreover have "find P xs = Some (xs ! m)"
      using Cons.prems Suc by (intro Cons.IH) (simp, simp, metis Suc_mono nth_Cons_Suc)
    ultimately show ?thesis by simp
  qed
qed simp

lemma id_for_num:
  assumes "on_chain s ids ch" "k < length ids"
  shows "get_block_id_for_num s (Suc k) = Some (ids ! k)"
proof -
  have n: "num_from_id (ids ! j) = Suc j" if "j < length ids" for j using assms(1) that by (simp add: on_chain_def)
  have b: "id_below s i (htonl (Suc k)) = (num_from_id i < Suc k)" for i
    using assms by (simp add: on_chain_def)
  have "lower_bound s (htonl (Suc k)) = Some (ids ! k)"
    unfolding lower_bound_def b using assms find_first_at [of k ids "\<lambda>i. \<not> num_from_id i < Suc k"]
    by (simp add: on_chain_def)
  moreover have "hash_word (ids ! k) 0 = hash_word (htonl (Suc k)) 0"
  proof -
    have w: "hash_word i 0 < 2 ^ 32" for i by (simp add: hash_word_def)
    have "htonl (num_from_id (ids ! k)) = hash_word (ids ! k) 0" unfolding num_from_id_def by (rule htonl_htonl [OF w])
    then show ?thesis using n [OF assms(2)] htonl_bound [of "Suc k"] by (simp add: hash_word_def)
  qed
  ultimately show ?thesis by (simp add: get_block_id_for_num_def)
qed


lemma num_from_zero: "num_from_id 0 = 0"
  by (simp add: num_from_id_def hash_word_def htonl_def)

text \<open>The ids collected are a piece of the chain.\<close>

lemma collect_piece:
  assumes "on_chain s ids ch" "num > 0" "length r \<le> limit"
  shows "collect_ids s (length ids) limit num r = Some (r @ take (limit - length r) (drop (num - 1) ids))"
  using assms(2,3)
proof (induction "length ids + 1 - num" arbitrary: num r)
  case 0
  then have "drop (num - 1) ids = []" by simp
  with 0 show ?case by (subst collect_ids.simps) simp
next
  case (Suc n)
  then have le': "num \<le> length ids" by linarith
  then have le: "num - 1 < length ids" using Suc.prems(1) by linarith
  show ?case
  proof (cases "length r < limit")
    case True
    have i: "get_block_id_for_num s num = Some (ids ! (num - 1))" using id_for_num [OF assms(1) le] Suc.prems by simp
    have "collect_ids s (length ids) limit num r = collect_ids s (length ids) limit (num + 1) (r @ [ids ! (num - 1)])"
      using True le' i Suc.prems(1) by (subst collect_ids.simps) simp
    also have "\<dots> = Some ((r @ [ids ! (num - 1)]) @ take (limit - length (r @ [ids ! (num - 1)])) (drop (num + 1 - 1) ids))"
      using Suc.hyps(2) True by (intro Suc.hyps(1)) simp_all
    also have "(r @ [ids ! (num - 1)]) @ take (limit - length (r @ [ids ! (num - 1)])) (drop (num + 1 - 1) ids) =
        r @ take (limit - length r) (drop (num - 1) ids)"
    proof -
      have d: "drop (num - 1) ids = ids ! (num - 1) # drop num ids"
        using Cons_nth_drop_Suc [OF le] Suc.prems(1) by simp
      obtain m where m: "limit - length r = Suc m" using True by (metis Suc_diff_Suc)
      then have "limit - length (r @ [ids ! (num - 1)]) = m" by simp
      moreover have "take (Suc m) (drop (num - 1) ids) = ids ! (num - 1) # take m (drop num ids)"
        by (simp only: d take_Suc_Cons)
      ultimately show ?thesis using m by simp
    qed
    finally show ?thesis .
  next
    case False
    then show ?thesis using Suc.prems by (subst collect_ids.simps) simp
  qed
qed

text \<open>
  Asked with a synopsis whose last known block has number \<open>k\<close>, a node answers with the ids of its chain from block
  \<open>k\<close> on, which the asking node has, up to the limit, and with the number of blocks after the last of them.
\<close>

lemma get_item_ids_answers:
  assumes "on_chain s ids ch" "ids \<noteq> []" "limit > 0"
    and "last_known_block_id synopsis ch = (if k = 0 then 0 else ids ! (k - 1))" "k \<le> length ids"
  shows "get_item_ids s synopsis limit ch =
    Some (take limit (drop (k - 1) ids), length ids - min (length ids) (k - 1 + limit))"
proof -
  have h: "nat (head_block_number (dprops (ch_db ch))) = length ids" using assms(1) by (simp add: on_chain_def)
  have nums: "num_from_id (ids ! j) = Suc j" if "j < length ids" for j using assms(1) that by (simp add: on_chain_def)
  have k: "num_from_id (last_known_block_id synopsis ch) = k"
    using assms(4,5) nums [of "k - 1"] num_from_zero by (cases k) simp_all
  let ?r = "take limit (drop (k - 1) ids)"
  have c: "collect_ids s (length ids) limit k [] = Some ?r"
  proof (cases "k = 0")
    case True
    have "collect_ids s (length ids) limit 0 [] = collect_ids s (length ids) limit 1 []"
      using assms(3) by (subst collect_ids.simps) simp
    also have "\<dots> = Some ?r" using collect_piece [OF assms(1), of 1 "[]" limit] True by simp
    finally show ?thesis using True by simp
  next
    case False
    then show ?thesis using collect_piece [OF assms(1), of k "[]" limit] by simp
  qed
  have less: "k - 1 < length ids" using assms(2,5) by (cases k) auto
  then have ne: "?r \<noteq> []" using assms(3) by simp
  have len: "length ?r = min limit (length ids - (k - 1))" by simp
  have "last ?r = ids ! (k - 1 + (length ?r - 1))"
  proof -
    have "length ?r - 1 < limit" using assms(3) by (auto simp: min_def)
    then have "?r ! (length ?r - 1) = drop (k - 1) ids ! (length ?r - 1)" by (rule nth_take)
    also have "\<dots> = ids ! (k - 1 + (length ?r - 1))" using less by (intro nth_drop) simp
    finally show ?thesis by (simp only: last_conv_nth [OF ne])
  qed
  then have "num_from_id (last ?r) = k - 1 + length ?r"
  proof -
    assume l: "last ?r = ids ! (k - 1 + (length ?r - 1))"
    have "length ?r > 0" "k - 1 + (length ?r - 1) < length ids" using len less assms(3) by linarith+
    then show ?thesis using nums [of "k - 1 + (length ?r - 1)"] l by simp
  qed
  moreover have "k - 1 + length ?r = min (length ids) (k - 1 + limit)" unfolding len using less by linarith
  ultimately have end_num: "num_from_id (last ?r) = min (length ids) (k - 1 + limit)" by simp
  have left: "(if n < m then m - n else 0) = m - n" for m n :: nat by simp
  have pos: "length ids \<noteq> 0" using assms(2) by simp
  show ?thesis
    unfolding get_item_ids_def Let_def h k c if_not_P [OF pos] Option.bind.simps
    using ne by (simp only: end_num left fc_assert_True Option.bind.simps if_False not_False_eq_True)
qed

text \<open>A known block need not be on the chain: when one of a fork is ahead of the head, there is no answer.\<close>

lemma no_answer_ahead_of_head:
  assumes "head_block_number (dprops (ch_db ch)) > 0"
    and "int (num_from_id (last_known_block_id synopsis ch)) > head_block_number (dprops (ch_db ch))"
  shows "get_item_ids s synopsis limit ch = None"
proof -
  let ?h = "nat (head_block_number (dprops (ch_db ch)))" and ?k = "num_from_id (last_known_block_id synopsis ch)"
  have "?h \<noteq> 0" "\<not> ?k \<le> ?h" using assms by linarith+
  moreover have "collect_ids s ?h limit ?k [] = Some []" using \<open>\<not> ?k \<le> ?h\<close> by (subst collect_ids.simps) simp
  ultimately show ?thesis by (simp add: get_item_ids_def Let_def)
qed

subsection \<open>The synopsis\<close>

text \<open>The numbers in a synopsis of \<open>n\<close> blocks, from the head back in doubling steps.\<close>

fun back_from :: "nat \<Rightarrow> nat \<Rightarrow> nat \<Rightarrow> nat list" where
  "back_from 0 n c = []"
| "back_from (Suc m) n c = (if c < n then (n - c) # back_from m n (2 * c) else [])"

definition synopsis_numbers :: "nat \<Rightarrow> nat list" where
  "synopsis_numbers n = rev (n # back_from n n 1)"

lemma back_from_enough:
  "c > 0 \<Longrightarrow> n < c * 2 ^ m \<Longrightarrow> n < c * 2 ^ l \<Longrightarrow> back_from m n c = back_from l n c"
proof (induction m arbitrary: l c)
  case 0
  then show ?case by (cases l) simp_all
next
  case (Suc m)
  show ?case
  proof (cases l)
    case 0
    then show ?thesis using Suc.prems by simp
  next
    case (Suc l')
    then show ?thesis using Suc.IH [of "2 * c" l'] Suc.prems by (simp add: mult.assoc)
  qed
qed

lemma synopsis_loop_numbers:
  assumes "on_chain s ids ch" "c > 0" "length ids < c * 2 ^ m"
  shows "synopsis_loop s (length ids) c r = Some (r @ map (\<lambda>n. ids ! (n - 1)) (back_from m (length ids) c))"
  using assms(2,3)
proof (induction m arbitrary: c r)
  case 0
  then show ?case by (subst synopsis_loop.simps) simp
next
  case (Suc m)
  show ?case
  proof (cases "c < length ids")
    case True
    have l: "length ids < 2 ^ 31" using assms(1) by (simp add: on_chain_def)
    then have w: "c * 2 mod 2 ^ 32 = 2 * c" using True by simp
    have "get_block_id_for_num s (length ids - c) = Some (ids ! (length ids - c - 1))"
      using id_for_num [OF assms(1), of "length ids - c - 1"] Suc_diff_Suc [OF True] True Suc.prems(1) by simp
    then have "synopsis_loop s (length ids) c r = synopsis_loop s (length ids) (2 * c) (r @ [ids ! (length ids - c - 1)])"
      using True w by (subst synopsis_loop.simps) simp
    then show ?thesis using Suc.IH [of "2 * c"] Suc.prems True by (simp add: mult.assoc)
  next
    case False
    then show ?thesis by (subst synopsis_loop.simps) simp
  qed
qed

lemma less_power: "n < 2 ^ n" for n :: nat by (rule less_exp)

text \<open>
  The synopsis of a chain of $n$ blocks is made of the blocks $n$, $n - 1$, $n - 2$, $n - 4$, $n - 8$ and so on: it
  ends with the head, goes back about half of the chain, and has no first block unless $n - 1$ is a power of two.
\<close>

theorem blockchain_synopsis_is:
  assumes "on_chain s ids ch" "ids \<noteq> []"
  shows "get_blockchain_synopsis s ch = Some (map (\<lambda>n. ids ! (n - 1)) (synopsis_numbers (length ids)))"
proof -
  have h: "nat (head_block_number (dprops (ch_db ch))) = length ids" "head_block_id (dprops (ch_db ch)) = ids ! (length ids - 1)"
    using assms by (simp_all add: on_chain_def last_conv_nth)
  have "synopsis_loop s (length ids) 1 [ids ! (length ids - 1)] =
      Some ([ids ! (length ids - 1)] @ map (\<lambda>n. ids ! (n - 1)) (back_from (length ids) (length ids) 1))"
    by (rule synopsis_loop_numbers [OF assms(1)]) (simp_all add: less_power)
  then show ?thesis using h by (simp add: get_blockchain_synopsis_def synopsis_numbers_def rev_map)
qed

subsection \<open>Two nodes on one chain\<close>

lemma last_known_head:
  assumes "is_known_block i ch"
  shows "last_known_block_id (xs @ [i]) ch = i"
  using assms by (simp add: last_known_block_id_def)

lemma synopsis_ends_with_head: "n > 0 \<Longrightarrow> \<exists>xs. synopsis_numbers n = xs @ [n]"
  by (simp add: synopsis_numbers_def)


subsection \<open>Six blocks\<close>

definition sample_ids :: "nat \<Rightarrow> block_id_type list" where
  "sample_ids n = map (\<lambda>k. htonl (Suc k)) [0..<n]"

definition sample_store :: "nat \<Rightarrow> block_store" where
  "sample_store n = \<lparr>stored_ids = sample_ids n, id_below = \<lambda>i j. num_from_id i < num_from_id j\<rparr>"

definition sample_synced :: "nat \<Rightarrow> chain" where
  "sample_synced n = sample_chain\<lparr>ch_db := (ch_db sample_chain)\<lparr>dprops := (dprops (ch_db sample_chain))
       \<lparr>head_block_number := int n, head_block_id := htonl n\<rparr>\<rparr>,
     ch_blocks := (\<lambda>i. if i \<in> set (sample_ids n) then Some (fork_block 0 5) else None)\<rparr>"

lemma sample_ids_list: "sample_ids 6 = map htonl [1, 2, 3, 4, 5, 6]" "sample_ids 2 = map htonl [1, 2]"
  by code_simp+

lemma num_of_number: "n < 2 ^ 32 \<Longrightarrow> num_from_id (htonl n) = n"
  using htonl_bound [of n] htonl_htonl [of n] by (simp add: num_from_id_def hash_word_def)

lemma sample_on_chain:
  assumes "0 < n" "n < 100"
  shows "on_chain (sample_store n) (sample_ids n) (sample_synced n)"
  unfolding on_chain_def
proof (intro conjI allI impI)
  show "head_block_id (dprops (ch_db (sample_synced n))) = last (sample_ids n)"
    using assms(1) by (simp add: sample_synced_def sample_ids_def last_map)
  show "num_from_id (sample_ids n ! k) = Suc k" if "k < length (sample_ids n)" for k
    using that assms(2) by (simp add: sample_ids_def num_of_number)
  show "is_known_block (sample_ids n ! k) (sample_synced n)" if "k < length (sample_ids n)" for k
    using that by (simp add: is_known_block_def sample_synced_def)
  show "id_below (sample_store n) i (htonl m) = (num_from_id i < m)" if "m < 2 ^ 32" for i m
    using that by (simp add: sample_store_def num_of_number)
qed (use assms in \<open>simp_all add: sample_store_def sample_synced_def sample_ids_def\<close>)

text \<open>The synopsis of six blocks is 2, 4, 5 and 6, although the first is said to be in every synopsis.\<close>

lemma blockchain_synopsis_is_witness:
  "get_blockchain_synopsis (sample_store 6) (sample_synced 6) = Some (map htonl [2, 4, 5, 6])"
proof -
  have "map (\<lambda>n. sample_ids 6 ! (n - 1)) (synopsis_numbers (length (sample_ids 6))) = map htonl [2, 4, 5, 6]" by code_simp
  moreover have "sample_ids 6 \<noteq> []" by (simp add: sample_ids_list)
  ultimately show ?thesis
    using blockchain_synopsis_is [OF sample_on_chain [of 6]] by simp
qed

lemma get_item_ids_answers_witness:
  "get_item_ids (sample_store 6) [] 4 (sample_synced 6) = Some (map htonl [1, 2, 3, 4], 2)"
  using get_item_ids_answers [OF sample_on_chain [of 6], of 4 "[]" 0]
  by (simp add: last_known_block_id_def sample_ids_list)


end
