(* ===== verification/Production.thy ===== *)
theory Production
  imports Chain
begin

section \<open>Producing blocks on time\<close>

text \<open>
  Models \<^verbatim>\<open>libraries/plugins/witness/witness.cpp\<close>: when the node wakes up next, whether it is its turn, and the
  production loop that generates a block. Times of the clock are readings, in seconds, of \<open>bts::time::now()\<close>, one
  for each call; the correction by \<open>ntp_error\<close>, in microseconds, is an argument. The task scheduler is left
  out: the loop is one wake-up. Private keys are numbers.

  A block is generated in the very second of its slot, for a witness of this node, after the head block, and the
  database agrees on the slot. With a block interval of one second no block is ever generated, since the loop asks
  for the slot one second ahead.
\<close>

record producer =
  production_enabled :: bool
  my_witnesses :: "witness_id_type list"
  private_keys :: "key_id_type \<rightharpoonup> nat"

text \<open>\<open>_private_keys[...]\<close> makes a default key where there is none.\<close>

definition private_key_for :: "nat \<Rightarrow> key_id_type \<Rightarrow> producer \<Rightarrow> nat" where
  "private_key_for default_key k pr = (case private_keys pr k of None \<Rightarrow> default_key | Some p \<Rightarrow> p)"

text \<open>Start-up drops the witnesses whose key is not here; a witness that does not exist throws.\<close>

fun bad_witnesses :: "database \<Rightarrow> producer \<Rightarrow> witness_id_type list \<Rightarrow> witness_id_type list option" where
  "bad_witnesses d pr [] = Some []"
| "bad_witnesses d pr (w # ws) = do {
     x \<leftarrow> get_object (witnesses d) w;
     bad \<leftarrow> bad_witnesses d pr ws;
     Some (if private_keys pr (wit_signing_key x) = None then w # bad else bad) }"

definition plugin_startup :: "database \<Rightarrow> producer \<Rightarrow> producer option" where
  "plugin_startup d pr = do {
     bad \<leftarrow> bad_witnesses d pr (my_witnesses pr);
     Some (pr\<lparr>my_witnesses := filter (\<lambda>w. w \<notin> set bad) (my_witnesses pr)\<rparr>) }"

text \<open>The next multiple of the block interval, in microseconds, corrected by the error of the clock.\<close>

definition next_block_time :: "time_point_sec \<Rightarrow> int option \<Rightarrow> chain_parameters \<Rightarrow> int option" where
  "next_block_time now ntp_error p = do {
     fc_assert (block_interval p \<noteq> 0);
     let t = 1000000 * ((now div block_interval p + 1) * block_interval p);
     Some (case ntp_error of None \<Rightarrow> t | Some e \<Rightarrow> t - e) }"

text \<open>A node is in sync when its head is within one block interval of now.\<close>

definition enable_production :: "time_point_sec \<Rightarrow> database \<Rightarrow> producer \<Rightarrow> producer" where
  "enable_production now d pr =
     (if \<not> production_enabled pr \<and> \<bar>head_block_time d - now\<bar> \<le> block_interval (parameters (gprops d))
      then pr\<lparr>production_enabled := True\<rparr> else pr)"

definition is_scheduled :: "producer \<Rightarrow> (time_point_sec \<times> witness_id_type) option \<Rightarrow> time_point_sec \<Rightarrow> database \<Rightarrow> bool" where
  "is_scheduled pr sch now d =
     (if \<not> production_enabled pr then False
      else case sch of None \<Rightarrow> False
      | Some (t, w) \<Rightarrow>
          if t \<le> head_block_time d then False
          else if w \<notin> set (my_witnesses pr) then False
          else if now - head_block_time d < 1 then False
          else \<bar>1000000 * (t - now)\<bar> \<le> 500 * 1000)"

text \<open>
  One wake-up, with the readings of the clock: the block to broadcast, if any, and the chain. An exception of
  \<open>generate_block\<close> is caught; one of the look-ups of the witness is, too.
\<close>

definition block_production_loop ::
  "block_env \<Rightarrow> nat \<Rightarrow> nat \<Rightarrow> time_point_sec \<Rightarrow> time_point_sec \<Rightarrow> time_point_sec \<Rightarrow> producer \<Rightarrow> chain \<Rightarrow>
   (producer \<times> signed_block option \<times> chain) option" where
  "block_production_loop c depth default_key now1 now2 now3 pr ch = do {
     let pr1 = enable_production now1 (ch_db ch) pr;
     sch \<leftarrow> get_scheduled_witness (uint32 (now2 + 1)) (ch_db ch);
     if is_scheduled pr1 sch now3 (ch_db ch) then
       (case sch of None \<Rightarrow> None
        | Some (t, w) \<Rightarrow>
            (case get_object (witnesses (ch_db ch)) w of None \<Rightarrow> Some (pr1, None, ch)
             | Some x \<Rightarrow> do {
                 r \<leftarrow> generate_block c depth t w (private_key_for default_key (wit_signing_key x) pr1) 0 ch;
                 Some (case r of Inl ch1 \<Rightarrow> (pr1, None, ch1) | Inr (b, ch1) \<Rightarrow> (pr1, Some b, ch1)) }))
     else Some (pr1, None, ch) }"

subsection \<open>Slots\<close>

lemma slot_le:
  fixes n :: int
  assumes "i > 0"
  shows "n div i * i \<le> n"
  using div_mult_mod_eq [of n i] pos_mod_sign [OF assms, of n] by linarith

lemma scheduled_Some:
  assumes "get_scheduled_witness when d = Some (Some (t, w))" "0 \<le> when" "when < 2 ^ 32" "block_interval (parameters (gprops d)) > 0"
  defines "i \<equiv> block_interval (parameters (gprops d))"
  shows "t = when div i * i" "when div i > head_block_time d div i" "w = active_witnesses (gprops d) ! (nat (when div i) mod length (active_witnesses (gprops d)))"
    "active_witnesses (gprops d) \<noteq> []"
proof -
  have "when div i * i \<le> when" using slot_le [OF assms(4)] by (simp add: i_def)
  moreover have "0 \<le> when div i * i" using assms(2,4) by (simp add: i_def pos_imp_zdiv_nonneg_iff)
  ultimately have "uint32 (when div i * i) = when div i * i" using assms(3) by simp
  then show "t = when div i * i" "when div i > head_block_time d div i" "w = active_witnesses (gprops d) ! (nat (when div i) mod length (active_witnesses (gprops d)))"
    "active_witnesses (gprops d) \<noteq> []"
    using assms(1) by (auto simp: get_scheduled_witness_def Let_def i_def split: if_splits)
qed

text \<open>The time of a slot is in that slot, so the database gives the same answer for it.\<close>

lemma scheduled_again:
  assumes "get_scheduled_witness when d = Some (Some (t, w))" "0 \<le> when" "when < 2 ^ 32" "block_interval (parameters (gprops d)) > 0"
  shows "get_scheduled_witness t d = Some (Some (t, w))"
proof -
  let ?i = "block_interval (parameters (gprops d))"
  note s = scheduled_Some [OF assms]
  have "t div ?i = when div ?i" using s(1) assms(4) by simp
  moreover have "uint32 (when div ?i * ?i) = t"
  proof -
    have "0 \<le> t" "t \<le> when" using s(1) assms(2,4) slot_le [OF assms(4)] by (simp_all add: pos_imp_zdiv_nonneg_iff)
    then show ?thesis using s(1) assms(3) by simp
  qed
  ultimately show ?thesis using s assms(4) by (simp add: get_scheduled_witness_def Let_def)
qed

lemma is_scheduled_Some:
  assumes "is_scheduled pr sch now d"
  obtains t w where "sch = Some (t, w)" "t = now" "t > head_block_time d" "w \<in> set (my_witnesses pr)" "production_enabled pr"
  using assms by (auto simp: is_scheduled_def split: if_splits option.splits)

text \<open>What is generated is sealed with the time and the witness the database names for that time.\<close>

lemma generate_block_sealed:
  assumes "generate_block c depth when i key skip ch = Some (Inr (b, ch'))"
  obtains t w where "get_scheduled_witness when (ch_db ch) = Some (Some (t, i))" "b = sealed_block c skip t i w key (pending_block ch)"
proof -
  let ?o = "do {
        scheduled \<leftarrow> get_scheduled_witness when (ch_db ch);
        (t, j) \<leftarrow> scheduled;
        fc_assert (j = i);
        w \<leftarrow> get_object (witnesses (ch_db ch)) i;
        _ \<leftarrow> (if has_flag skip skip_delegate_signature then Some ()
              else do { k \<leftarrow> get_object (keys (ch_db ch)) (wit_signing_key w); fc_assert (k = public_key_of c key) });
        Some (t, w) }"
  obtain t w where o: "?o = Some (t, w)"
    using assms unfolding generate_block_def by (cases ?o) auto
  then have "get_scheduled_witness when (ch_db ch) = Some (Some (t, i))" by (auto split: if_splits)
  moreover have "b = sealed_block c skip t i w key (pending_block ch)"
  proof -
    let ?b = "sealed_block c skip t i w key (pending_block ch)"
    obtain r :: "chain + bool \<times> chain" where "(case r of Inl ch2 \<Rightarrow> (Inl ch2 :: chain + signed_block \<times> chain) | Inr (_, ch2) \<Rightarrow> Inr (?b, ch2)) = Inr (b, ch')"
      using assms unfolding generate_block_def o by (auto simp: Let_def split: if_split_asm)
    then show ?thesis by (auto split: sum.split_asm)
  qed
  ultimately show thesis by (rule that)
qed

lemma sealed_block_names [simp]:
  "blk_timestamp (sealed_block c skip t i w key b) = t" "blk_witness (sealed_block c skip t i w key b) = i"
  by (simp_all add: sealed_block_def Let_def)

text \<open>
  C27. A block is produced only in the second of its slot, after the head block, by a witness of this node, and the
  database names the same witness for that time.
\<close>

theorem block_produced_in_its_slot:
  assumes "block_production_loop c depth default_key now1 now2 now3 pr ch = Some (pr', Some b, ch')"
    and "0 \<le> now2" "now2 + 1 < 2 ^ 32" "block_interval (parameters (gprops (ch_db ch))) > 0"
  shows "blk_timestamp b = now3 \<and> now3 > head_block_time (ch_db ch) \<and> blk_witness b \<in> set (my_witnesses pr) \<and>
    production_enabled pr' \<and> now3 mod block_interval (parameters (gprops (ch_db ch))) = 0 \<and>
    get_scheduled_witness now3 (ch_db ch) = Some (Some (now3, blk_witness b))"
proof -
  let ?pr = "enable_production now1 (ch_db ch) pr"
  have u: "uint32 (now2 + 1) = now2 + 1" using assms(2,3) by simp
  obtain sch where sch: "get_scheduled_witness (now2 + 1) (ch_db ch) = Some sch"
    using assms(1) u by (auto simp: block_production_loop_def Let_def)
  have turn: "is_scheduled ?pr sch now3 (ch_db ch)"
    using assms(1) sch u by (auto simp: block_production_loop_def Let_def split: if_splits)
  then obtain t w where t: "sch = Some (t, w)" "t = now3" "t > head_block_time (ch_db ch)" "w \<in> set (my_witnesses ?pr)" "production_enabled ?pr"
    by (rule is_scheduled_Some)
  obtain key r where r: "generate_block c depth t w key 0 ch = Some r"
    "(case r of Inl ch1 \<Rightarrow> (?pr, None, ch1) | Inr (b, ch1) \<Rightarrow> (?pr, Some b, ch1)) = (pr', Some b, ch')"
    using assms(1) sch u t(1) turn
    by (auto simp: block_production_loop_def Let_def split: if_splits option.splits)
  then have g: "generate_block c depth t w key 0 ch = Some (Inr (b, ch'))" "pr' = ?pr" by (auto split: sum.splits)
  note s = scheduled_again [OF sch [unfolded t(1)]] scheduled_Some [OF sch [unfolded t(1)]]
  from g(1) obtain t' x where "get_scheduled_witness t (ch_db ch) = Some (Some (t', w))"
    "b = sealed_block c 0 t' w x key (pending_block ch)" by (rule generate_block_sealed)
  then have b: "blk_timestamp b = t \<and> blk_witness b = w" using s(1) assms(2-4) by simp
  have "my_witnesses ?pr = my_witnesses pr" by (simp add: enable_production_def)
  then show ?thesis using b t g(2) s assms(2-4) by auto
qed

definition sample_producer :: producer where
  "sample_producer = \<lparr>production_enabled = False, my_witnesses = [0], private_keys = [0 \<mapsto> 10]\<rparr>"

definition sample_ready :: chain where
  "sample_ready = sample_chain\<lparr>ch_pending := fork_block 0 5\<rparr>"

lemma sample_slot: "get_scheduled_witness 5 sample_node_db = Some (Some (5, 0))" "get_scheduled_witness 6 sample_node_db = Some (Some (5, 0))"
  by (simp_all add: get_scheduled_witness_def sample_node_db_def empty_database_def empty_global_def empty_dynamic_def
    default_parameters_def head_block_time_def Let_def uint32_def)

lemma sample_sealed: "sealed_block sample_env 0 5 0 w 10 (pending_block sample_ready) = fork_block 0 5" if "wit_last_secret w = 0"
  using that by (simp add: sealed_block_def pending_block_def sample_ready_def sample_chain_def fork_block_def sample_env_def has_flag_def
    sample_node_db_def empty_database_def calculate_merkle_root_def Let_def skip_delegate_signature_def)

lemma sample_push_block: "\<exists>x ch'. push_block sample_env 3 0 (fork_block 0 5) sample_ready = Some (Inr (x, ch'))"
proof -
  obtain f h where f: "fork_push_block sample_env (fork_block 0 5) empty_fork_db = Some f" "fk_head f = Some h" "item_block f h = fork_block 0 5"
    by (simp add: fork_push_block_def empty_fork_db_def allocate_item_def insert_item_def raise_head_def Let_def new_fork_item_def
      item_block_def find_item_def)
  let ?ch = "sample_ready\<lparr>ch_fork := f\<rparr>"
  have c: "blk_transactions (ch_pending ?ch) = []" "\<not> ch_pending_session ?ch" by (simp_all add: sample_ready_def sample_chain_def fork_block_def)
  have s: "ch_db (start_session ?ch) = sample_node_db" "blk_transactions (ch_pending (start_session ?ch)) = []"
    "ch_active (start_session ?ch) = 1"
    by (simp_all add: start_session_def sample_ready_def sample_chain_def fork_block_def)
  obtain d where "apply_block sample_env 3 0 (fork_block 0 5) (start_session ?ch) = Some (Inr ((start_session ?ch)\<lparr>ch_db := d\<rparr>))"
    using sample_applied [OF s(1,2)] by blast
  then have p: "\<exists>ch'. push_next_block sample_env 3 0 (fork_block 0 5) ?ch = Some (Inr (False, ch'))" using s(3)
    by (simp add: push_next_block_def clear_pending_nothing [OF c] apply_in_session_def commit_session_def)
  have h: "blk_previous (fork_block 0 5) = head_block_id (dprops (ch_db ?ch))"
    by (simp add: fork_block_def sample_ready_def sample_chain_def sample_node_db_def empty_dynamic_def)
  have n: "\<not> has_flag 0 skip_fork_db" by (simp add: has_flag_def)
  have "ch_fork sample_ready = empty_fork_db" by (simp add: sample_ready_def sample_chain_def)
  then have "push_block sample_env 3 0 (fork_block 0 5) sample_ready = push_next_block sample_env 3 0 (fork_block 0 5) ?ch"
    using f n h by (simp add: push_block_def Let_def)
  with p show ?thesis by auto
qed

theorem block_produced_in_its_slot_witness:
  "\<exists>pr' b ch'. block_production_loop sample_env 3 0 5 5 5 sample_producer sample_ready = Some (pr', Some b, ch') \<and>
    blk_timestamp b = 5 \<and> blk_witness b \<in> {0} \<and> production_enabled pr'"
proof -
  let ?pr = "sample_producer\<lparr>production_enabled := True\<rparr>"
  obtain x ch' where p: "push_block sample_env 3 0 (fork_block 0 5) sample_ready = Some (Inr (x, ch'))" using sample_push_block by blast
  have d: "ch_db sample_ready = sample_node_db" by (simp add: sample_ready_def sample_chain_def)
  have t: "head_block_time sample_node_db = 0" "block_interval (parameters (gprops sample_node_db)) = 5"
    "maximum_block_size (parameters (gprops sample_node_db)) \<ge> 100"
    by (simp_all add: head_block_time_def sample_node_db_def empty_database_def empty_dynamic_def empty_global_def default_parameters_def)
  obtain w where w: "get_object (witnesses sample_node_db) 0 = Some w" "wit_last_secret w = 0" "wit_signing_key w = 0"
    by (simp add: sample_node_db_def get_object_def)
  have k: "get_object (keys sample_node_db) 0 = Some (Public_Key 10)" by (simp add: sample_node_db_def get_object_def)
  have e: "enable_production 5 sample_node_db sample_producer = ?pr" by (simp add: enable_production_def sample_producer_def t)
  have i: "is_scheduled ?pr (Some (5, 0)) 5 sample_node_db" by (simp add: is_scheduled_def sample_producer_def t)
  have m: "sample_node_db\<lparr>pending_timestamp := 5\<rparr> = sample_node_db" by (simp add: sample_node_db_def)
  have b: "sealed_block sample_env 0 5 0 w 10 (pending_block sample_ready) = fork_block 0 5" by (rule sample_sealed [OF w(2)])
  have o: "(do {
        scheduled \<leftarrow> get_scheduled_witness 5 (ch_db sample_ready);
        (t, j) \<leftarrow> scheduled;
        fc_assert (j = 0);
        w \<leftarrow> get_object (witnesses (ch_db sample_ready)) 0;
        _ \<leftarrow> (if has_flag 0 skip_delegate_signature then Some ()
              else do { k \<leftarrow> get_object (keys (ch_db sample_ready)) (wit_signing_key w); fc_assert (k = public_key_of sample_env 10) });
        Some (t, w) }) = Some (5, w)"
    using w k by (simp add: d sample_slot has_flag_def sample_env_def)
  have q: "pack_size sample_env (fork_block 0 5) = 100" by (simp add: sample_env_def fork_block_def)
  have c: "sample_ready\<lparr>ch_db := sample_node_db, ch_pending := (fork_block 0 5)\<lparr>blk_transactions := []\<rparr>\<rparr> = sample_ready"
    by (simp add: sample_ready_def sample_chain_def fork_block_def)
  have g: "generate_block sample_env 3 5 0 10 0 sample_ready = Some (Inr (fork_block 0 5, ch'))"
    unfolding generate_block_def o using t(3) c p by (simp add: b d m q Let_def)
  have l: "block_production_loop sample_env 3 0 5 5 5 sample_producer sample_ready = Some (?pr, Some (fork_block 0 5), ch')"
    using i w by (simp add: block_production_loop_def Let_def d e sample_slot g private_key_for_def) (simp add: sample_producer_def g)
  have h: "0 \<le> (5 :: int)" "(5 :: int) + 1 < 2 ^ 32" "block_interval (parameters (gprops (ch_db sample_ready))) > 0" by (simp_all add: d t)
  show ?thesis using block_produced_in_its_slot [OF l h] l by (simp add: sample_producer_def)
qed

text \<open>
  With a block interval of one second a node whose clock does not advance while it decides never produces a
  block: the slot it asks for is the next second, half a second too far.
\<close>

lemma one_second_interval_never_produces:
  assumes "block_interval (parameters (gprops (ch_db ch))) = 1" "0 \<le> now" "now + 1 < 2 ^ 32"
    and "block_production_loop c depth default_key now now now pr ch = Some (pr', produced, ch')"
  shows "produced = None \<and> ch' = ch"
proof -
  let ?pr = "enable_production now (ch_db ch) pr"
  have u: "uint32 (now + 1) = now + 1" using assms(2,3) by simp
  obtain sch where sch: "get_scheduled_witness (now + 1) (ch_db ch) = Some sch"
    using assms(4) u by (auto simp: block_production_loop_def Let_def)
  have "\<not> is_scheduled ?pr sch now (ch_db ch)"
  proof
    assume "is_scheduled ?pr sch now (ch_db ch)"
    then obtain t w where t: "sch = Some (t, w)" "t = now" by (rule is_scheduled_Some)
    from scheduled_Some(1) [OF sch [unfolded t(1)]] t(2) assms(1-3) show False by simp
  qed
  then show ?thesis using assms(4) sch u by (simp add: block_production_loop_def Let_def)
qed

definition one_second_db :: database where
  "one_second_db = empty_database\<lparr>gprops := empty_global\<lparr>parameters := default_parameters\<lparr>block_interval := 1\<rparr>, active_witnesses := [0]\<rparr>\<rparr>"

lemma one_second_interval_never_produces_witness:
  "get_scheduled_witness 8 one_second_db = Some (Some (8, 0)) \<and>
    (\<exists>pr'. block_production_loop sample_env 3 0 7 7 7 sample_producer (sample_ready\<lparr>ch_db := one_second_db\<rparr>) =
      Some (pr', None, sample_ready\<lparr>ch_db := one_second_db\<rparr>))"
proof -
  let ?ch = "sample_ready\<lparr>ch_db := one_second_db\<rparr>"
  have s: "get_scheduled_witness 8 one_second_db = Some (Some (8, 0))"
    by (simp add: get_scheduled_witness_def one_second_db_def empty_database_def empty_global_def empty_dynamic_def default_parameters_def
      head_block_time_def Let_def uint32_def)
  have i: "block_interval (parameters (gprops (ch_db ?ch))) = 1" by (simp add: one_second_db_def)
  have d: "ch_db ?ch = one_second_db" by simp
  have n: "\<not> is_scheduled pr (Some (8, 0)) 7 one_second_db" for pr by (simp add: is_scheduled_def)
  have u: "uint32 (7 + 1) = (8 :: int)" by (simp add: uint32_def)
  have l: "block_production_loop sample_env 3 0 7 7 7 sample_producer ?ch = Some (enable_production 7 one_second_db sample_producer, None, ?ch)"
    unfolding block_production_loop_def Let_def d u s using n by simp
  from one_second_interval_never_produces [OF i _ _ l] l s show ?thesis by auto
qed

text \<open>The time slept to is that of the next slot, at most one interval ahead.\<close>

lemma next_block_time_bounds:
  assumes "next_block_time now None p = Some t" "block_interval p > 0"
  shows "1000000 * now < t" "t \<le> 1000000 * (now + block_interval p)" "t mod (1000000 * block_interval p) = 0"
proof -
  let ?i = "block_interval p"
  have t: "t = 1000000 * ((now div ?i + 1) * ?i)" using assms(1) by (simp add: next_block_time_def Let_def)
  have m: "now = now div ?i * ?i + now mod ?i" "0 \<le> now mod ?i" "now mod ?i < ?i" using assms(2) by simp_all
  have e: "(now div ?i + 1) * ?i = now div ?i * ?i + ?i" by (simp add: algebra_simps)
  have "now div ?i * ?i \<le> now" "now < now div ?i * ?i + ?i" using m by linarith+
  then show "1000000 * now < t" "t \<le> 1000000 * (now + ?i)" unfolding t e by simp_all
  have "t = (now div ?i + 1) * (1000000 * ?i)" unfolding t by simp
  then show "t mod (1000000 * ?i) = 0" by simp
qed

end
