(* ===== verification/Persistence.thy ===== *)
theory Persistence
  imports Undo
begin

section \<open>Keeping the objects on disk\<close>

text \<open>
  Models \<^verbatim>\<open>libraries/db/object_database.cpp\<close> (\<open>open\<close>, \<open>close\<close>, \<open>flush\<close>, \<open>wipe\<close>) and \<open>primary_index::open\<close> of
  \<^verbatim>\<open>index.hpp\<close>. The store under them is LevelDB, ordered by key (\<^verbatim>\<open>level_map.hpp\<close>), and the packing of objects is
  \<open>fc\<close>'s: both are records of functions, with what is documented of them in \<open>level_map_ok\<close> and \<open>packing_ok\<close>. Keys are
  object ids, ordered like their packed numbers.

  What an opened database holds is computed for every store: an object is what the last \<open>flush\<close> saw of it, and an
  object that \<open>flush\<close> did not see is what the store held of it before, because \<open>flush\<close> never deletes. So a
  database comes back as it was if it was flushed to an empty store, while an object that was removed between two
  flushes comes back to life.
\<close>

record ('s, 'v) level_map =
  lm_new :: 's
  lm_store :: "oid \<Rightarrow> 'v \<Rightarrow> 's \<Rightarrow> 's"
  lm_fetch :: "'s \<Rightarrow> oid \<Rightarrow> 'v option"
  lm_from :: "'s \<Rightarrow> oid \<Rightarrow> (oid \<times> 'v) list" \<comment> \<open>the iterator \<open>lower_bound\<close> returns, to the end\<close>

record ('o, 'v) packing =
  pack_object :: "oid \<Rightarrow> 'o \<Rightarrow> 'v"
  unpack_object :: "index_id \<Rightarrow> 'v \<Rightarrow> (oid \<times> 'o) option"
  pack_ids :: "oid list \<Rightarrow> 'v"
  unpack_ids :: "'v \<Rightarrow> oid list option"

definition oid_less :: "oid \<Rightarrow> oid \<Rightarrow> bool" where
  "oid_less a b = (let ((s, t), i) = a; ((s', t'), i') = b in s < s' \<or> s = s' \<and> (t < t' \<or> t = t' \<and> i < i'))"

text \<open>The id under which the next ids of all indexes are stored, \<open>object_id_type()\<close>.\<close>

abbreviation null_id :: oid where
  "null_id \<equiv> ((0, 0), 0)"

subsection \<open>Flushing and opening\<close>

text \<open>\<open>ixs\<close> are the indexes that were added, in the order of \<open>_index\<close>.\<close>

definition flush_index :: "('s, 'v) level_map \<Rightarrow> ('o, 'v) packing \<Rightarrow> 'o object_db \<Rightarrow> index_id \<Rightarrow> 's \<Rightarrow> 's" where
  "flush_index l p db k = fold (\<lambda>(i, x). lm_store l (k, i) (pack_object p (k, i) x)) (entries (db k))"

definition flush :: "('s, 'v) level_map \<Rightarrow> ('o, 'v) packing \<Rightarrow> index_id list \<Rightarrow> 'o object_db \<Rightarrow> 's \<Rightarrow> 's" where
  "flush l p ixs db s =
     lm_store l null_id (pack_ids p (map (\<lambda>k. (k, next_id (db k))) ixs)) (fold (flush_index l p db) ixs s)"

definition load :: "('o, 'v) packing \<Rightarrow> index_id \<Rightarrow> 'v \<Rightarrow> 'o table \<Rightarrow> 'o table option" where
  "load p k v t = do { (i, x) \<leftarrow> unpack_object p k v; gi_insert (snd i) x t }"

definition index_open :: "('s, 'v) level_map \<Rightarrow> ('o, 'v) packing \<Rightarrow> 's \<Rightarrow> index_id \<Rightarrow> 'o table \<Rightarrow> 'o table option" where
  "index_open l p s k t =
     (let first = (k, 0); last = ((fst k, snd k + 1), 0)
      in fold_opt (\<lambda>e. load p k (snd e)) (takeWhile (\<lambda>e. oid_less (fst e) last) (lm_from l s first)) t)"

definition open_indexes ::
  "('s, 'v) level_map \<Rightarrow> ('o, 'v) packing \<Rightarrow> index_id list \<Rightarrow> 's \<Rightarrow> 'o object_db \<Rightarrow> 'o object_db option" where
  "open_indexes l p ixs s = fold_opt (\<lambda>k db. do { t \<leftarrow> index_open l p s k (db k); Some (db(k := t)) }) ixs"

text \<open>An id of an index that was never added throws, which ends the loop and is caught.\<close>

fun set_next_ids :: "index_id list \<Rightarrow> oid list \<Rightarrow> 'o object_db \<Rightarrow> 'o object_db" where
  "set_next_ids ixs [] db = db"
| "set_next_ids ixs (i # is) db =
     (if fst i \<in> set ixs then set_next_ids ixs is (db_set_next_id (fst i) (snd i) db) else db)"

definition open_objects ::
  "('s, 'v) level_map \<Rightarrow> ('o, 'v) packing \<Rightarrow> index_id list \<Rightarrow> 's \<Rightarrow> 'o object_db \<Rightarrow> 'o object_db option" where
  "open_objects l p ixs s db = do {
     db1 \<leftarrow> open_indexes l p ixs s db;
     Some (case Option.bind (lm_fetch l s null_id) (unpack_ids p) of None \<Rightarrow> db1 | Some is \<Rightarrow> set_next_ids ixs is db1) }"

record ('o, 's) object_store =
  os_objects :: "'o object_db"
  os_map :: 's
  os_is_open :: bool

definition open_database ::
  "('s, 'v) level_map \<Rightarrow> ('o, 'v) packing \<Rightarrow> index_id list \<Rightarrow> ('o, 's) object_store \<Rightarrow> ('o, 's) object_store option" where
  "open_database l p ixs st = do {
     fc_assert (\<not> os_is_open st);
     db \<leftarrow> open_objects l p ixs (os_map st) (os_objects st);
     Some (st\<lparr>os_objects := db, os_is_open := True\<rparr>) }"

definition close_database ::
  "('s, 'v) level_map \<Rightarrow> ('o, 'v) packing \<Rightarrow> index_id list \<Rightarrow> ('o, 's) object_store \<Rightarrow> ('o, 's) object_store" where
  "close_database l p ixs st =
     (if os_is_open st then st\<lparr>os_map := flush l p ixs (os_objects st) (os_map st), os_is_open := False\<rparr> else st)"

definition wipe_database ::
  "('s, 'v) level_map \<Rightarrow> ('o, 'v) packing \<Rightarrow> index_id list \<Rightarrow> ('o, 's) object_store \<Rightarrow> ('o, 's) object_store" where
  "wipe_database l p ixs st = (close_database l p ixs st)\<lparr>os_map := lm_new l\<rparr>"

text \<open>The node stops and starts again: the files stay, the objects in memory do not.\<close>

definition restart ::
  "('s, 'v) level_map \<Rightarrow> ('o, 'v) packing \<Rightarrow> index_id list \<Rightarrow> ('o, 's) object_store \<Rightarrow> ('o, 's) object_store option" where
  "restart l p ixs st = open_database l p ixs ((close_database l p ixs st)\<lparr>os_objects := \<lambda>_. empty_table\<rparr>)"

subsection \<open>What is relied on\<close>

definition level_map_ok :: "('s, 'v) level_map \<Rightarrow> bool" where
  "level_map_ok l \<longleftrightarrow>
     (\<forall>i. lm_fetch l (lm_new l) i = None) \<and>
     (\<forall>s i v j. lm_fetch l (lm_store l i v s) j = (if j = i then Some v else lm_fetch l s j)) \<and>
     (\<forall>s i. set (lm_from l s i) = {(j, v). lm_fetch l s j = Some v \<and> \<not> oid_less j i}) \<and>
     (\<forall>s i. sorted_wrt (\<lambda>a b. oid_less (fst a) (fst b)) (lm_from l s i))"

definition packing_ok :: "('o, 'v) packing \<Rightarrow> bool" where
  "packing_ok p \<longleftrightarrow> (\<forall>i x. unpack_object p (fst i) (pack_object p i x) = Some (i, x)) \<and> (\<forall>is. unpack_ids p (pack_ids p is) = Some is)"

lemmas level_mapD =
  level_map_ok_def [THEN iffD1, THEN conjunct1, rule_format]
  level_map_ok_def [THEN iffD1, THEN conjunct2, THEN conjunct1, rule_format]
  level_map_ok_def [THEN iffD1, THEN conjunct2, THEN conjunct2, THEN conjunct1, rule_format]
  level_map_ok_def [THEN iffD1, THEN conjunct2, THEN conjunct2, THEN conjunct2, rule_format]

text \<open>What a store holds of an object, and that it holds nothing else under the ids of an index.\<close>

definition stored :: "('s, 'v) level_map \<Rightarrow> ('o, 'v) packing \<Rightarrow> 's \<Rightarrow> oid \<Rightarrow> 'o option" where
  "stored l p s i = do { v \<leftarrow> lm_fetch l s i; (_, x) \<leftarrow> unpack_object p (fst i) v; Some x }"

definition well_stored :: "('s, 'v) level_map \<Rightarrow> ('o, 'v) packing \<Rightarrow> index_id list \<Rightarrow> 's \<Rightarrow> bool" where
  "well_stored l p ixs s \<longleftrightarrow>
     (\<forall>k \<in> set ixs. \<forall>i v. lm_fetch l s (k, i) = Some v \<longrightarrow> (\<exists>x. unpack_object p k v = Some ((k, i), x)))"

text \<open>No id twice in a table.\<close>

definition one_each :: "'o table \<Rightarrow> bool" where
  "one_each t \<longleftrightarrow> distinct (map fst (entries t))"

text \<open>The order of the keys is that of the packed 64-bit numbers.\<close>

lemma oid_less_number:
  assumes "t < 256" "t' < 256" "i < 2 ^ 48" "i' < 2 ^ 48"
  shows "oid_less ((s, t), i) ((s', t'), i') \<longleftrightarrow> s * 2 ^ 56 + t * 2 ^ 48 + i < s' * 2 ^ 56 + t' * 2 ^ 48 + i'"
  using assms by (auto simp: oid_less_def)

subsection \<open>What is stored\<close>

lemma fetch_stored:
  assumes "level_map_ok l" "distinct (map fst xs)"
  shows "lm_fetch l (fold (\<lambda>(i, x). lm_store l (k, i) (f i x)) xs s) j =
    (if fst j = k then case map_of xs (snd j) of None \<Rightarrow> lm_fetch l s j | Some x \<Rightarrow> Some (f (snd j) x) else lm_fetch l s j)"
  using assms(2)
proof (induction xs arbitrary: s)
  case Nil
  then show ?case by simp
next
  case (Cons e xs)
  obtain i x where e: "e = (i, x)" by fastforce
  have n: "map_of xs i = None" using Cons.prems e by (simp add: map_of_eq_None_iff)
  show ?case
    using Cons.IH [of "lm_store l (k, i) (f i x) s"] Cons.prems e n
    by (cases j) (auto simp: level_mapD(2) [OF assms(1)] split: option.splits)
qed

lemma fetch_flush_index:
  assumes "level_map_ok l" "one_each (db k)"
  shows "lm_fetch l (flush_index l p db k s) j =
    (if fst j = k then case gi_find (db k) (snd j) of None \<Rightarrow> lm_fetch l s j | Some x \<Rightarrow> Some (pack_object p j x) else lm_fetch l s j)"
  using fetch_stored [OF assms(1), of "entries (db k)" k "\<lambda>i. pack_object p (k, i)" s j] assms(2)
  by (cases j) (auto simp: flush_index_def gi_find_def one_each_def split: option.splits)

lemma fetch_flush_indexes:
  assumes "level_map_ok l" "\<And>k. k \<in> set ixs \<Longrightarrow> one_each (db k)" "distinct ixs"
  shows "lm_fetch l (fold (flush_index l p db) ixs s) j =
    (if fst j \<in> set ixs then case find_object db j of None \<Rightarrow> lm_fetch l s j | Some x \<Rightarrow> Some (pack_object p j x) else lm_fetch l s j)"
  using assms(2,3)
proof (induction ixs arbitrary: s)
  case Nil
  then show ?case by simp
next
  case (Cons k ixs)
  have "one_each (db k)" using Cons.prems by simp
  note f = fetch_flush_index [where db = db and k = k, OF assms(1) this]
  show ?case
    using Cons.IH [of "flush_index l p db k s"] Cons.prems
    by (auto simp: f find_object_def split: option.splits)
qed

lemma fetch_flush:
  assumes "level_map_ok l" "\<And>k. k \<in> set ixs \<Longrightarrow> one_each (db k)" "distinct ixs"
  shows "lm_fetch l (flush l p ixs db s) j =
    (if j = null_id then Some (pack_ids p (map (\<lambda>k. (k, next_id (db k))) ixs))
     else if fst j \<in> set ixs then case find_object db j of None \<Rightarrow> lm_fetch l s j | Some x \<Rightarrow> Some (pack_object p j x)
     else lm_fetch l s j)"
  by (simp add: flush_def level_mapD(2) [OF assms(1)] fetch_flush_indexes [OF assms])

subsection \<open>What is loaded\<close>

lemma oid_less_trans: "oid_less a b \<Longrightarrow> oid_less b c \<Longrightarrow> oid_less a c"
  by (auto simp: oid_less_def split: prod.splits)

lemma oid_less_irrefl [simp]: "\<not> oid_less a a"
  by (auto simp: oid_less_def split: prod.splits)

lemma takeWhile_sorted:
  assumes "sorted_wrt (\<lambda>a b. oid_less (fst a) (fst b)) xs"
  shows "takeWhile (\<lambda>e. oid_less (fst e) m) xs = filter (\<lambda>e. oid_less (fst e) m) xs"
  using assms
proof (induction xs)
  case (Cons e xs)
  then show ?case by (auto intro!: filter_False [symmetric] dest: oid_less_trans)
qed simp

lemma sorted_distinct:
  "sorted_wrt (\<lambda>a b. oid_less (fst a) (fst b)) xs \<Longrightarrow> distinct (map fst xs)"
  by (induction xs) auto

text \<open>The scan of an index sees exactly the entries under its ids, each once.\<close>

lemma scan_of_index:
  fixes s :: 's and k :: index_id and l :: "('s, 'v) level_map"
  assumes "level_map_ok l"
  defines "es \<equiv> takeWhile (\<lambda>e. oid_less (fst e) ((fst k, snd k + 1), 0)) (lm_from l s (k, 0))"
  shows "distinct (map fst es)" "set es = {(j, v). fst j = k \<and> lm_fetch l s j = Some v}"
proof -
  have e: "es = filter (\<lambda>e. oid_less (fst e) ((fst k, snd k + 1), 0)) (lm_from l s (k, 0))"
    unfolding es_def by (rule takeWhile_sorted) (rule level_mapD(4) [OF assms(1)])
  show "distinct (map fst es)"
    unfolding e by (rule sorted_distinct, rule sorted_wrt_filter) (rule level_mapD(4) [OF assms(1)])
  have b: "(\<not> oid_less j (k, 0)) \<and> oid_less j ((fst k, snd k + 1), 0) \<longleftrightarrow> fst j = k" for j
    by (cases j, cases k) (auto simp: oid_less_def)
  have "set es = {(j, v). lm_fetch l s j = Some v \<and> (\<not> oid_less j (k, 0)) \<and> oid_less j ((fst k, snd k + 1), 0)}"
    unfolding e set_filter level_mapD(3) [OF assms(1)] by auto
  then show "set es = {(j, v). fst j = k \<and> lm_fetch l s j = Some v}" unfolding b by auto
qed

lemma load_all:
  assumes "distinct (map fst es)"
    and "\<And>j v. (j, v) \<in> set es \<Longrightarrow> fst j = k \<and> gi_find t (snd j) = None \<and> (\<exists>x. unpack_object p k v = Some (j, x))"
  shows "\<exists>t'. fold_opt (\<lambda>e. load p k (snd e)) es t = Some t' \<and> next_id t' = next_id t \<and>
    (\<forall>i. gi_find t' i = (case map_of es (k, i) of None \<Rightarrow> gi_find t i | Some v \<Rightarrow> map_option snd (unpack_object p k v)))"
  using assms
proof (induction es arbitrary: t)
  case Nil
  then show ?case by simp
next
  case (Cons e es)
  obtain i v where e: "e = ((k, i), v)" using Cons.prems(2) [of "fst e" "snd e"] by (cases e) auto
  obtain x where x: "unpack_object p k v = Some ((k, i), x)" and f: "gi_find t i = None"
    using Cons.prems(2) [of "(k, i)" v] e by auto
  let ?t = "t\<lparr>entries := entries t @ [(i, x)]\<rparr>"
  have g: "gi_find ?t j = (if j = i then Some x else gi_find t j)" for j
    using f by (auto simp: gi_find_def map_add_def split: option.splits)
  have l: "load p k v t = Some ?t" using x f by (simp add: load_def gi_insert_def)
  have d: "distinct (map fst es)" "map_of es (k, i) = None" using Cons.prems(1) e by (auto simp: map_of_eq_None_iff)
  have "fst j = k \<and> gi_find ?t (snd j) = None \<and> (\<exists>x. unpack_object p k w = Some (j, x))" if "(j, w) \<in> set es" for j w
  proof -
    have "fst j = k" "gi_find t (snd j) = None" "\<exists>x. unpack_object p k w = Some (j, x)"
      using Cons.prems(2) [of j w] that by auto
    moreover have "snd j \<noteq> i" using that d(2) \<open>fst j = k\<close> by (auto simp: map_of_eq_None_iff) (metis fst_conv imageI prod.collapse)
    ultimately show ?thesis by (simp add: g)
  qed
  from Cons.IH [OF d(1) this] obtain t' where "fold_opt (\<lambda>e. load p k (snd e)) es ?t = Some t'" "next_id t' = next_id t"
    "\<forall>j. gi_find t' j = (case map_of es (k, j) of None \<Rightarrow> gi_find ?t j | Some v \<Rightarrow> map_option snd (unpack_object p k v))"
    by auto
  then show ?case using e l x d(2) g by (auto split: option.splits)
qed

lemma index_open_empty:
  fixes l :: "('s, 'v) level_map" and p :: "('o, 'v) packing"
  assumes "level_map_ok l" "\<forall>i v. lm_fetch l s (k, i) = Some v \<longrightarrow> (\<exists>x. unpack_object p k v = Some ((k, i), x))"
  shows "\<exists>t. index_open l p s k empty_table = Some t \<and> next_id t = 0 \<and> (\<forall>i. gi_find t i = stored l p s (k, i))"
proof -
  let ?es = "takeWhile (\<lambda>e. oid_less (fst e) ((fst k, snd k + 1), 0)) (lm_from l s (k, 0))"
  note sc = scan_of_index [OF assms(1), where k = k and s = s]
  have "\<exists>t. fold_opt (\<lambda>e. load p k (snd e)) ?es empty_table = Some t \<and> next_id t = next_id (empty_table :: 'o table) \<and>
    (\<forall>i. gi_find t i = (case map_of ?es (k, i) of None \<Rightarrow> gi_find empty_table i | Some v \<Rightarrow> map_option snd (unpack_object p k v)))"
  proof (rule load_all [OF sc(1)])
    fix j v
    assume "(j, v) \<in> set ?es"
    then show "fst j = k \<and> gi_find empty_table (snd j) = None \<and> (\<exists>x. unpack_object p k v = Some (j, x))"
      using assms(2) unfolding sc(2) by (cases j) auto
  qed
  then obtain t where t: "fold_opt (\<lambda>e. load p k (snd e)) ?es empty_table = Some t" "next_id t = next_id (empty_table :: 'o table)"
    "\<forall>i. gi_find t i = (case map_of ?es (k, i) of None \<Rightarrow> gi_find empty_table i | Some v \<Rightarrow> map_option snd (unpack_object p k v))"
    by blast
  have m: "map_of ?es (k, i) = lm_fetch l s (k, i)" for i
  proof (cases "lm_fetch l s (k, i)")
    case None
    then have "(k, i) \<notin> fst ` set ?es" unfolding sc(2) by auto
    then show ?thesis using None by (simp add: map_of_eq_None_iff)
  next
    case (Some v)
    then have "((k, i), v) \<in> set ?es" unfolding sc(2) by simp
    then show ?thesis using Some sc(1) by (simp add: map_of_eq_Some_iff)
  qed
  have "gi_find t i = stored l p s (k, i)" for i
    unfolding t(3) [rule_format] m by (cases "lm_fetch l s (k, i)") (auto simp: stored_def split: Option.bind_splits)
  then show ?thesis using t(1,2) by (auto simp: index_open_def Let_def empty_table_def)
qed

lemma open_indexes_empty:
  assumes "level_map_ok l" "well_stored l p ixs s" "distinct ixs" "\<forall>k \<in> set ixs. db k = empty_table"
  shows "\<exists>db'. open_indexes l p ixs s db = Some db' \<and>
    (\<forall>k \<in> set ixs. next_id (db' k) = 0 \<and> (\<forall>i. find_object db' (k, i) = stored l p s (k, i))) \<and>
    (\<forall>k. k \<notin> set ixs \<longrightarrow> db' k = db k)"
  using assms(2-)
proof (induction ixs arbitrary: db)
  case Nil
  then show ?case by (simp add: open_indexes_def)
next
  case (Cons k ixs)
  have "\<forall>i v. lm_fetch l s (k, i) = Some v \<longrightarrow> (\<exists>x. unpack_object p k v = Some ((k, i), x))"
    using Cons.prems(1) by (simp add: well_stored_def)
  from index_open_empty [OF assms(1) this] obtain t where t: "index_open l p s k (db k) = Some t" "next_id t = 0"
    "\<forall>i. gi_find t i = stored l p s (k, i)"
    using Cons.prems(3) by auto
  have "well_stored l p ixs s" "distinct ixs" "k \<notin> set ixs" "\<forall>j \<in> set ixs. (db(k := t)) j = empty_table"
    using Cons.prems by (auto simp: well_stored_def)
  from Cons.IH [OF this(1,2,4)] this(3) obtain db' where d: "open_indexes l p ixs s (db(k := t)) = Some db'"
    "\<forall>j \<in> set ixs. next_id (db' j) = 0 \<and> (\<forall>i. find_object db' (j, i) = stored l p s (j, i))"
    "\<forall>j. j \<notin> set ixs \<longrightarrow> db' j = (db(k := t)) j" by blast
  have "open_indexes l p (k # ixs) s db = Some db'" using t(1) d(1) by (simp add: open_indexes_def)
  moreover have "db' k = t" using d(3) \<open>k \<notin> set ixs\<close> by simp
  ultimately show ?case using d(2,3) t(2,3) by (auto simp: find_object_def)
qed

lemma set_next_ids_all:
  assumes "set ks \<subseteq> set ixs" "distinct ks"
  shows "set_next_ids ixs (map (\<lambda>k. (k, f k)) ks) db j = (if j \<in> set ks then (db j)\<lparr>next_id := f j\<rparr> else db j)"
  using assms by (induction ks arbitrary: db) (auto simp: db_set_next_id_def)

lemma find_set_next_ids:
  assumes "distinct ixs"
  shows "find_object (set_next_ids ixs (map (\<lambda>k. (k, f k)) ixs) db) i = find_object db i"
  by (simp add: find_object_def set_next_ids_all [OF subset_refl assms] gi_find_def)

lemma well_stored_flush:
  assumes "level_map_ok l" "packing_ok p" "well_stored l p ixs s" "distinct ixs" "(0, 0) \<notin> set ixs"
    "\<And>k. k \<in> set ixs \<Longrightarrow> one_each (db k)"
  shows "well_stored l p ixs (flush l p ixs db s)"
proof -
  have "\<exists>x. unpack_object p k v = Some ((k, i), x)" if "k \<in> set ixs" "lm_fetch l (flush l p ixs db s) (k, i) = Some v" for k i v
  proof -
    have packing: "unpack_object p k (pack_object p (k, i) x) = Some ((k, i), x)" for x
      using assms(2) unfolding packing_ok_def by (metis fst_conv)
    have "(k, i) \<noteq> null_id" using that(1) assms(5) by auto
    then show ?thesis
      using that assms(3) by (auto simp: fetch_flush [OF assms(1,6,4)] packing well_stored_def split: option.splits)
  qed
  then show ?thesis by (simp add: well_stored_def)
qed

lemma stored_flush:
  assumes "level_map_ok l" "packing_ok p" "distinct ixs" "(0, 0) \<notin> set ixs" "\<And>k. k \<in> set ixs \<Longrightarrow> one_each (db k)" "fst j \<in> set ixs"
  shows "stored l p (flush l p ixs db s) j = (case find_object db j of Some x \<Rightarrow> Some x | None \<Rightarrow> stored l p s j)"
proof -
  have "j \<noteq> null_id" using assms(4,6) by auto
  then show ?thesis
    using assms(2,6) by (auto simp: stored_def fetch_flush [OF assms(1,5,3)] packing_ok_def split: option.splits)
qed

lemma index_open_one_each:
  assumes "index_open l p s k t = Some t'" "one_each t"
  shows "one_each t'"
proof -
  have "one_each u \<Longrightarrow> load p k (snd e) u = Some u' \<Longrightarrow> one_each u'" for e u u'
    by (auto simp: load_def gi_insert_def one_each_def gi_find_def map_of_eq_None_iff split: Option.bind_splits)
  then show ?thesis using assms(2) fold_opt_invariant [OF assms(1) [unfolded index_open_def Let_def], of one_each] by blast
qed

lemma open_indexes_one_each:
  assumes "open_indexes l p ixs s db = Some db'" "\<forall>k. one_each (db k)"
  shows "\<forall>k. one_each (db' k)"
proof (rule fold_opt_invariant [OF assms(1) [unfolded open_indexes_def], of "\<lambda>db. \<forall>k. one_each (db k)"])
  fix k and db db' :: "'a object_db"
  assume "(do { t \<leftarrow> index_open l p s k (db k); Some (db(k := t)) }) = Some db'" "\<forall>k. one_each (db k)"
  then show "\<forall>k. one_each (db' k)" using index_open_one_each [of l p s k "db k"] by (auto split: Option.bind_splits)
qed (rule assms(2))

subsection \<open>Restarting\<close>

text \<open>
  Closing a database and opening it again gives for every index the same next id, and for every id the object
  that was there; where there was none, it gives what the store held under that id before.
\<close>

lemma restart_reads:
  assumes "level_map_ok l" "packing_ok p" "distinct ixs" "(0, 0) \<notin> set ixs" "well_stored l p ixs (os_map st)"
    and "os_is_open st" "\<And>k. k \<in> set ixs \<Longrightarrow> one_each (os_objects st k)"
  shows "\<exists>st'. restart l p ixs st = Some st' \<and> os_is_open st' \<and> os_map st' = flush l p ixs (os_objects st) (os_map st) \<and>
    (\<forall>k. one_each (os_objects st' k)) \<and>
    (\<forall>k \<in> set ixs. next_id (os_objects st' k) = next_id (os_objects st k) \<and>
      (\<forall>i. find_object (os_objects st') (k, i) =
        (case find_object (os_objects st) (k, i) of Some x \<Rightarrow> Some x | None \<Rightarrow> stored l p (os_map st) (k, i))))"
proof -
  let ?db = "os_objects st" and ?s = "flush l p ixs (os_objects st) (os_map st)"
  have "well_stored l p ixs ?s" by (rule well_stored_flush [OF assms(1,2,5,3,4,7)])
  from open_indexes_empty [OF assms(1) this assms(3), of "\<lambda>_. empty_table"] obtain db' where d:
    "open_indexes l p ixs ?s (\<lambda>_. empty_table) = Some db'" "\<forall>k \<in> set ixs. \<forall>i. find_object db' (k, i) = stored l p ?s (k, i)" by auto
  let ?db' = "set_next_ids ixs (map (\<lambda>k. (k, next_id (?db k))) ixs) db'"
  have n: "Option.bind (lm_fetch l ?s null_id) (unpack_ids p) = Some (map (\<lambda>k. (k, next_id (?db k))) ixs)"
    using assms(2) by (simp add: fetch_flush [OF assms(1,7,3)] packing_ok_def)
  have "open_objects l p ixs ?s (\<lambda>_. empty_table) = Some ?db'" unfolding open_objects_def d(1) n by simp
  then have "restart l p ixs st = Some (st\<lparr>os_objects := ?db', os_map := ?s, os_is_open := True\<rparr>)"
    using assms(6) by (simp add: restart_def close_database_def open_database_def)
  moreover have "one_each (?db' k)" for k
    using open_indexes_one_each [OF d(1)] by (simp add: set_next_ids_all [OF subset_refl assms(3)] one_each_def empty_table_def)
  moreover have "next_id (?db' k) = next_id (?db k)" if "k \<in> set ixs" for k
    using that by (simp add: set_next_ids_all [OF subset_refl assms(3)])
  moreover have "find_object ?db' (k, i) = (case find_object ?db (k, i) of Some x \<Rightarrow> Some x | None \<Rightarrow> stored l p (os_map st) (k, i))"
    if "k \<in> set ixs" for k i
    using that d(2) by (simp add: find_set_next_ids [OF assms(3)] stored_flush [OF assms(1-4,7)])
  ultimately show ?thesis by simp
qed


text \<open>
  An object that is removed after a restart is there again, as it was, after the next one: \<open>flush\<close> does not
  delete its record.
\<close>

theorem removed_object_returns:
  assumes "level_map_ok l" "packing_ok p" "distinct ixs" "(0, 0) \<notin> set ixs" "well_stored l p ixs (os_map st)"
    and "os_is_open st" "\<And>k. k \<in> set ixs \<Longrightarrow> one_each (os_objects st k)"
    and "restart l p ixs st = Some st1" "k \<in> set ixs" "find_object (os_objects st) (k, i) = Some x"
    and "db_remove (k, i) (os_objects st1) = Some db"
  shows "find_object db (k, i) = None \<and>
    (\<exists>st2. restart l p ixs (st1\<lparr>os_objects := db\<rparr>) = Some st2 \<and> find_object (os_objects st2) (k, i) = Some x)"
proof -
  from restart_reads [OF assms(1-7)] assms(8)
  have r: "os_is_open st1" "os_map st1 = flush l p ixs (os_objects st) (os_map st)" "\<forall>k. one_each (os_objects st1 k)" by auto
  have db: "db = (os_objects st1)(k := gi_remove i (os_objects st1 k))" using assms(11) by (auto simp: db_remove_def)
  have g: "find_object db (k, i) = None" by (simp add: db find_object_def gi_find_remove)
  have o: "\<And>j. j \<in> set ixs \<Longrightarrow> one_each (os_objects (st1\<lparr>os_objects := db\<rparr>) j)"
    using r(3) by (auto simp: db one_each_def gi_remove_def distinct_map intro: inj_on_subset)
  have w: "well_stored l p ixs (os_map (st1\<lparr>os_objects := db\<rparr>))"
    using well_stored_flush [OF assms(1,2,5,3,4,7)] r(2) by simp
  have s: "stored l p (os_map (st1\<lparr>os_objects := db\<rparr>)) (k, i) = Some x"
    using stored_flush [OF assms(1-4,7), where j = "(k, i)"] assms(9,10) r(2) by simp
  from restart_reads [OF assms(1-4) w _ o] r(1) obtain st2 where t: "restart l p ixs (st1\<lparr>os_objects := db\<rparr>) = Some st2"
    "\<forall>k \<in> set ixs. \<forall>i. find_object (os_objects st2) (k, i) =
      (case find_object (os_objects (st1\<lparr>os_objects := db\<rparr>)) (k, i) of Some x \<Rightarrow> Some x
       | None \<Rightarrow> stored l p (os_map (st1\<lparr>os_objects := db\<rparr>)) (k, i))" by auto
  have "find_object (os_objects st2) (k, i) = Some x" using t(2) assms(9) g s by simp
  with t(1) g show ?thesis by blast
qed

subsection \<open>A store and a packing\<close>

text \<open>The writes, newest first; an iterator runs over them sorted, without what was overwritten.\<close>

fun put_sorted :: "oid \<times> 'v \<Rightarrow> (oid \<times> 'v) list \<Rightarrow> (oid \<times> 'v) list" where
  "put_sorted e [] = [e]"
| "put_sorted e (d # ds) =
     (if oid_less (fst e) (fst d) then e # d # ds else if fst e = fst d then e # ds else d # put_sorted e ds)"

definition sample_map :: "((oid \<times> 'v) list, 'v) level_map" where
  "sample_map = \<lparr>lm_new = [], lm_store = \<lambda>i v s. (i, v) # s, lm_fetch = map_of,
     lm_from = \<lambda>s i. filter (\<lambda>e. \<not> oid_less (fst e) i) (foldr put_sorted s [])\<rparr>"

definition sample_packing :: "(nat, (oid \<times> nat) + oid list) packing" where
  "sample_packing = \<lparr>pack_object = \<lambda>i x. Inl (i, x), unpack_object = \<lambda>k v. case v of Inl e \<Rightarrow> Some e | Inr _ \<Rightarrow> None,
     pack_ids = Inr, unpack_ids = \<lambda>v. case v of Inl _ \<Rightarrow> None | Inr is \<Rightarrow> Some is\<rparr>"

lemma oid_less_total: "\<not> oid_less a b \<Longrightarrow> a \<noteq> b \<Longrightarrow> oid_less b a"
  by (auto simp: oid_less_def split: prod.splits)

lemma put_sorted_set:
  assumes "sorted_wrt (\<lambda>a b. oid_less (fst a) (fst b)) ds"
  shows "set (put_sorted e ds) = insert e {d \<in> set ds. fst d \<noteq> fst e} \<and>
    sorted_wrt (\<lambda>a b. oid_less (fst a) (fst b)) (put_sorted e ds)"
  using assms
proof (induction ds)
  case Nil
  then show ?case by simp
next
  case (Cons d ds)
  then have s: "\<forall>x \<in> set ds. oid_less (fst d) (fst x)" by simp
  show ?case
  proof (cases "oid_less (fst e) (fst d)")
    case True
    then have "\<forall>x \<in> set (d # ds). oid_less (fst e) (fst x)" using s by (auto intro: oid_less_trans)
    moreover from this have "\<forall>x \<in> set (d # ds). fst x \<noteq> fst e" by (metis oid_less_irrefl)
    ultimately show ?thesis using True Cons.prems by auto
  next
    case False
    show ?thesis
    proof (cases "fst e = fst d")
      case True
      then have "\<forall>x \<in> set ds. fst x \<noteq> fst e" using s by (metis oid_less_irrefl)
      then show ?thesis using True Cons.prems by auto
    next
      case ne: False
      then have "oid_less (fst d) (fst e)" using False oid_less_total by blast
      then show ?thesis using False ne Cons.IH Cons.prems by auto
    qed
  qed
qed

lemma sorted_writes:
  "set (foldr put_sorted s []) = {(j, v). map_of s j = Some v} \<and> sorted_wrt (\<lambda>a b. oid_less (fst a) (fst b)) (foldr put_sorted s [])"
proof (induction s)
  case Nil
  then show ?case by simp
next
  case (Cons e s)
  obtain i v where "e = (i, v)" by fastforce
  then show ?case using put_sorted_set [of "foldr put_sorted s []" e] Cons by (auto split: if_split_asm)
qed

lemma sample_map_ok: "level_map_ok sample_map"
  unfolding level_map_ok_def
proof (intro conjI allI)
  fix s :: "(oid \<times> 'v) list" and i
  show "set (lm_from sample_map s i) = {(j, v). lm_fetch sample_map s j = Some v \<and> \<not> oid_less j i}"
    using sorted_writes [of s] by (auto simp: sample_map_def)
  show "sorted_wrt (\<lambda>a b. oid_less (fst a) (fst b)) (lm_from sample_map s i)"
    using sorted_writes [of s] by (auto simp: sample_map_def intro: sorted_wrt_filter)
qed (simp_all add: sample_map_def)

lemma sample_packing_ok: "packing_ok sample_packing"
  by (simp add: packing_ok_def sample_packing_def)

text \<open>One index, with the objects 5 and 6 under the instances 2 and 3.\<close>

definition sample_store :: "(nat, (oid \<times> ((oid \<times> nat) + oid list)) list) object_store" where
  "sample_store = \<lparr>os_objects = (\<lambda>_. empty_table)((2, 7) := \<lparr>next_id = 4, entries = [(2, 5), (3, 6)]\<rparr>), os_map = [], os_is_open = True\<rparr>"

lemma sample_store_ok:
  "distinct [(2, 7) :: index_id]" "(0, 0) \<notin> set [(2, 7) :: index_id]" "well_stored sample_map sample_packing [(2, 7)] (os_map sample_store)"
  "os_is_open sample_store" "\<And>k. k \<in> set [(2, 7)] \<Longrightarrow> one_each (os_objects sample_store k)" "os_map sample_store = lm_new sample_map"
  by (simp_all add: sample_store_def well_stored_def sample_map_def one_each_def)

lemma sample_objects:
  "find_object (os_objects sample_store) ((2, 7), i) = (if i = 2 then Some 5 else if i = 3 then Some 6 else None)"
  by (simp add: sample_store_def find_object_def gi_find_def)


theorem removed_object_returns_witness:
  "\<exists>st1 db st2. restart sample_map sample_packing [(2, 7)] sample_store = Some st1 \<and> db_remove ((2, 7), 3) (os_objects st1) = Some db \<and>
    find_object db ((2, 7), 3) = None \<and> restart sample_map sample_packing [(2, 7)] (st1\<lparr>os_objects := db\<rparr>) = Some st2 \<and>
    find_object (os_objects st2) ((2, 7), 3) = Some 6"
proof -
  have f: "find_object (os_objects sample_store) ((2, 7), 3) = Some 6" "(2, 7) \<in> set [(2, 7) :: index_id]" by (simp_all add: sample_objects)
  from restart_reads [OF sample_map_ok sample_packing_ok sample_store_ok(1-5)] f obtain st1 where
    st1: "restart sample_map sample_packing [(2, 7)] sample_store = Some st1" "find_object (os_objects st1) ((2, 7), 3) = Some 6"
    by auto
  then obtain db where db: "db_remove ((2, 7), 3) (os_objects st1) = Some db" by (simp add: db_remove_def)
  from removed_object_returns [OF sample_map_ok sample_packing_ok sample_store_ok(1-5) st1(1) f(2,1) db] st1(1) db show ?thesis
    by blast
qed

end
