(* ===== verification/Replay.thy ===== *)
theory Replay
  imports Sync Genesis
begin

unbundle bit_operations_syntax

section \<open>Opening, closing and replaying a chain\<close>

text \<open>
  Models \<open>open\<close>, \<open>close\<close>, \<open>wipe\<close> and \<open>reindex\<close> of \<^verbatim>\<open>libraries/chain/database.cpp\<close>. The objects that were found on disk, if
  any, are an argument; how they are kept there is in \<^verbatim>\<open>Persistence\<close>. After \<open>wipe\<close> the objects are those of a process
  that has just started. The stored blocks are iterated in the order of \<^verbatim>\<open>Sync\<close>.

  A replay applies the blocks outside any session, and the undo database then opens a state of its own for all of
  them together: popping one block after a replay undoes the whole chain.
\<close>

definition skip_undo_transaction :: int where "skip_undo_transaction = 0x08"

definition replay_skip :: int where
  "replay_skip = skip_delegate_signature OR skip_transaction_signatures OR skip_undo_block OR skip_undo_transaction OR
     skip_transaction_dupe_check OR skip_tapos_check OR skip_authority"

subsection \<open>Operations\<close>

fun rewind :: "nat \<Rightarrow> chain \<Rightarrow> chain option" where
  "rewind 0 ch = Some ch"
| "rewind (Suc n) ch =
     (if head_block_number (dprops (ch_db ch)) > 0 then do { ch1 \<leftarrow> pop_block ch; rewind n ch1 } else Some ch)"

definition close_chain :: "nat \<Rightarrow> chain \<Rightarrow> chain option" where
  "close_chain blocks_to_rewind ch = do {
     ch1 \<leftarrow> reset_pending_session ch;
     ch2 \<leftarrow> rewind blocks_to_rewind ch1;
     Some (ch2\<lparr>ch_fork := fork_reset (ch_fork ch2)\<rparr>) }"

definition wipe_chain :: "bool \<Rightarrow> chain \<Rightarrow> chain option" where
  "wipe_chain include_blocks ch = do {
     ch1 \<leftarrow> close_chain 0 ch;
     Some (if include_blocks then ch1\<lparr>ch_blocks := \<lambda>_. None\<rparr> else ch1) }"

definition open_chain ::
  "block_env \<Rightarrow> (key_data \<Rightarrow> string) \<Rightarrow> nat \<Rightarrow> (key_data \<times> share_type) list \<Rightarrow> block_store \<Rightarrow> database option \<Rightarrow> chain \<Rightarrow> chain option" where
  "open_chain c key_text genesis_private_key initial_allocation s loaded ch = do {
     d \<leftarrow> (case loaded of Some d \<Rightarrow> Some d | None \<Rightarrow> init_genesis c key_text genesis_private_key initial_allocation);
     let ch1 = ch\<lparr>ch_db := d\<lparr>pending_previous := head_block_id (dprops d), pending_timestamp := head_block_time d\<rparr>\<rparr>;
     if stored_ids s = [] then Some ch1
     else do {
       b \<leftarrow> ch_blocks ch1 (last (stored_ids s));
       Some (ch1\<lparr>ch_fork := start_block c b (ch_fork ch1)\<rparr>) } }"

text \<open>A change of an object outside any session is recorded in a state made for it, if the stack is empty.\<close>

definition outside_session :: "chain \<Rightarrow> chain" where
  "outside_session ch = (if ch_undo ch = [] then ch\<lparr>ch_undo := [ch_db ch]\<rparr> else ch)"

fun replay_blocks :: "block_env \<Rightarrow> nat \<Rightarrow> block_id_type list \<Rightarrow> chain \<Rightarrow> chain option" where
  "replay_blocks c depth [] ch = Some ch"
| "replay_blocks c depth (i # is) ch = do {
     b \<leftarrow> ch_blocks ch i;
     r \<leftarrow> apply_block c depth replay_skip b (outside_session ch);
     case r of Inl _ \<Rightarrow> None | Inr ch1 \<Rightarrow> replay_blocks c depth is ch1 }"

definition reindex ::
  "block_env \<Rightarrow> nat \<Rightarrow> (key_data \<Rightarrow> string) \<Rightarrow> nat \<Rightarrow> (key_data \<times> share_type) list \<Rightarrow> block_store \<Rightarrow> chain \<Rightarrow> chain option" where
  "reindex c depth key_text genesis_private_key initial_allocation s ch = do {
     ch1 \<leftarrow> wipe_chain False ch;
     ch2 \<leftarrow> open_chain c key_text genesis_private_key initial_allocation s None ch1;
     replay_blocks c depth (stored_ids s) ch2 }"

subsection \<open>One state for all blocks\<close>

lemma apply_block_changes_db:
  assumes "apply_block c depth skip b ch = Some (Inr ch')" "blk_transactions (ch_pending ch) = []"
  shows "\<exists>d. ch' = ch\<lparr>ch_db := d\<rparr> \<and> pending_previous d = block_id c b"
  using assms(1) by (auto simp: apply_block_def Let_def thrown_def update_pending_nothing [OF assms(2)] split: option.splits sum.splits)

lemma replay_blocks_ConsE:
  assumes "replay_blocks c depth (i # is) ch = Some ch'"
  obtains b ch1 where "ch_blocks ch i = Some b" "apply_block c depth replay_skip b (outside_session ch) = Some (Inr ch1)"
    "replay_blocks c depth is ch1 = Some ch'"
proof -
  obtain b where b: "ch_blocks ch i = Some b" using assms by (cases "ch_blocks ch i") auto
  obtain r where r: "apply_block c depth replay_skip b (outside_session ch) = Some r"
    using assms b by (cases "apply_block c depth replay_skip b (outside_session ch)") auto
  then show thesis using assms b that by (cases r) auto
qed

lemma replay_blocks_keep:
  assumes "replay_blocks c depth is ch = Some ch'" "blk_transactions (ch_pending ch) = []" "ch_undo ch \<noteq> []"
  shows "\<exists>d. ch' = ch\<lparr>ch_db := d\<rparr>"
  using assms
proof (induction "is" arbitrary: ch)
  case Nil
  then show ?case by (intro exI [of _ "ch_db ch"]) simp
next
  case (Cons i ids)
  have o: "outside_session ch = ch" using Cons.prems(3) by (simp add: outside_session_def)
  from Cons.prems(1) obtain b ch1 where b0: "apply_block c depth replay_skip b (outside_session ch) = Some (Inr ch1)"
    and r: "replay_blocks c depth ids ch1 = Some ch'" by (rule replay_blocks_ConsE)
  note b = b0 [unfolded o]
  from apply_block_changes_db [OF b Cons.prems(2)] obtain d where d: "ch1 = ch\<lparr>ch_db := d\<rparr>" by blast
  from Cons.IH [OF r] Cons.prems(2,3) obtain d' where "ch' = ch1\<lparr>ch_db := d'\<rparr>" by (auto simp: d)
  then show ?case by (auto simp: d)
qed

lemma replay_blocks_one_state:
  assumes "replay_blocks c depth is ch = Some ch'" "is \<noteq> []" "blk_transactions (ch_pending ch) = []" "ch_undo ch = []"
  shows "\<exists>d. ch' = ch\<lparr>ch_undo := [ch_db ch], ch_db := d\<rparr>"
proof -
  obtain i ids where i: "is = i # ids" using assms(2) by (cases "is") auto
  have o: "outside_session ch = ch\<lparr>ch_undo := [ch_db ch]\<rparr>" using assms(4) by (simp add: outside_session_def)
  from assms(1) [unfolded i] obtain b ch1 where b0: "apply_block c depth replay_skip b (outside_session ch) = Some (Inr ch1)"
    and r: "replay_blocks c depth ids ch1 = Some ch'" by (rule replay_blocks_ConsE)
  note b = b0 [unfolded o]
  have "blk_transactions (ch_pending (ch\<lparr>ch_undo := [ch_db ch]\<rparr>)) = []" using assms(3) by simp
  from apply_block_changes_db [OF b this] obtain d where d: "ch1 = ch\<lparr>ch_undo := [ch_db ch], ch_db := d\<rparr>" by auto
  then have "blk_transactions (ch_pending ch1) = []" "ch_undo ch1 \<noteq> []" using assms(3) by simp_all
  from replay_blocks_keep [OF r this] d show ?thesis by auto
qed



text \<open>For the whole of \<open>reindex\<close>: the state it is taken back to is the genesis state.\<close>

lemma reindex_then_pop:
  assumes "reindex c depth key_text genesis_private_key initial_allocation s ch = Some ch'" "stored_ids s \<noteq> []"
    and "blk_transactions (ch_pending ch) = []" "ch_undo ch = []" "ch_active ch = 0" "\<not> ch_pending_session ch"
  shows "\<exists>d ch''. init_genesis c key_text genesis_private_key initial_allocation = Some d \<and> pop_block ch' = Some ch'' \<and>
    same_objects d (ch_db ch'')"
proof -
  let ?ch = "ch\<lparr>ch_fork := fork_reset (ch_fork ch)\<rparr>"
  have w: "wipe_chain False ch = Some ?ch" using assms(6) by (simp add: wipe_chain_def close_chain_def reset_pending_session_def)
  obtain ch2 where ch2: "open_chain c key_text genesis_private_key initial_allocation s None ?ch = Some ch2"
    "replay_blocks c depth (stored_ids s) ch2 = Some ch'"
    using assms(1) by (auto simp: reindex_def w split: Option.bind_splits)
  from ch2(1) obtain d b where d: "init_genesis c key_text genesis_private_key initial_allocation = Some d"
    "ch2 = ?ch\<lparr>ch_db := d\<lparr>pending_previous := head_block_id (dprops d), pending_timestamp := head_block_time d\<rparr>,
      ch_fork := start_block c b (fork_reset (ch_fork ch))\<rparr>"
    using assms(2) by (auto simp: open_chain_def Let_def split: Option.bind_splits)
  have e: "same_objects (ch_db ch2) x \<Longrightarrow> same_objects d x" for x by (simp add: d(2) same_objects_def restore_def)
  have "blk_transactions (ch_pending ch2) = []" "ch_undo ch2 = []" "ch_active ch2 = 0" "\<not> ch_pending_session ch2"
    using assms(3-6) by (simp_all add: d(2))
  note p = replay_blocks_one_state [OF ch2(2) assms(2) this(1,2)] this(3,4)
  then obtain x where x: "ch' = ch2\<lparr>ch_undo := [ch_db ch2], ch_db := x\<rparr>" by blast
  obtain ch'' where "pop_block ch' = Some ch''" "same_objects (ch_db ch2) (ch_db ch'')"
    using p(2,3) by (simp add: x pop_block_def reset_pending_session_def pop_undo_def)
  with d(1) e show ?thesis by blast
qed

end
