(* ===== verification/Memo.thy ===== *)
theory Memo
  imports Object_Id Operations
begin

unbundle bit_operations_syntax

section \<open>Memos\<close>

text \<open>
  Models \<open>memo_data::set_message\<close> and \<open>memo_data::get_message\<close> of \<^verbatim>\<open>libraries/chain/operations.cpp\<close>. The shared secret,
  the derivation of the key, AES, the packing of a \<open>memo_message\<close> and the first word of a digest are \<open>fc\<close>'s, in a
  record; keys and secrets are numbers. The clock and the hash of the fresh key are arguments of
  \<open>set_message\<close>.

  Both ends of a memo can read what was written. \<open>if( from )\<close> asks whether the id of a key is not 0; it goes through
  \<open>object_id::operator uint64_t\<close>, which puts the space and the type of the id in front of the instance, so it is
  always true, and the memos without encryption of the comment do not exist.
\<close>

record memo_scheme =
  shared_secret :: "nat \<Rightarrow> nat \<Rightarrow> nat"
  memo_key :: "int \<Rightarrow> nat \<Rightarrow> nat"
  aes_encrypt :: "nat \<Rightarrow> string \<Rightarrow> string"
  aes_decrypt :: "nat \<Rightarrow> string \<Rightarrow> string option"
  pack_memo :: "int \<times> string \<Rightarrow> string"
  unpack_memo :: "string \<Rightarrow> (int \<times> string) option"
  text_digest :: "string \<Rightarrow> int"

text \<open>\<open>key_id_type\<close> in a condition: space 1 (\<open>protocol_ids\<close>), type 2 (\<open>key_object_type\<close>).\<close>

definition key_id_test :: "key_id_type \<Rightarrow> bool option" where
  "key_id_test i = do {
     n \<leftarrow> make_object_id 1 2 (word_of_nat i);
     Some (n \<noteq> 0) }"

definition new_nonce :: "int \<Rightarrow> int \<Rightarrow> int" where
  "new_nonce key_hash now =
     (let entropy = uint64 (push_bit 32 key_hash) AND 0xff00000000000000
      in (uint64 now AND 0x00ffffffffffffff) OR entropy)"

definition set_message ::
  "memo_scheme \<Rightarrow> int \<Rightarrow> int \<Rightarrow> nat \<Rightarrow> nat \<Rightarrow> string \<Rightarrow> memo_data \<Rightarrow> memo_data option" where
  "set_message m key_hash now priv pub msg d = do {
     encrypted \<leftarrow> key_id_test (memo_from d);
     Some (if encrypted then
       let nonce = new_nonce key_hash now;
           secret = shared_secret m priv pub
       in d\<lparr>memo_nonce := nonce,
            memo_message := aes_encrypt m (memo_key m nonce secret) (pack_memo m (text_digest m msg, msg))\<rparr>
     else d\<lparr>memo_message := pack_memo m (0, msg)\<rparr>) }"

definition get_message :: "memo_scheme \<Rightarrow> nat \<Rightarrow> nat \<Rightarrow> memo_data \<Rightarrow> string option" where
  "get_message m priv pub d = do {
     encrypted \<leftarrow> key_id_test (memo_from d);
     if encrypted then do {
       let secret = shared_secret m priv pub;
       plain_text \<leftarrow> aes_decrypt m (memo_key m (memo_nonce d) secret) (memo_message d);
       (checksum, text) \<leftarrow> unpack_memo m plain_text;
       fc_assert (checksum = text_digest m text);
       Some text }
     else do {
       (_, text) \<leftarrow> unpack_memo m (memo_message d);
       Some text } }"

text \<open>What is relied on: AES decrypts what it encrypted, packing is undone, and the two ends agree on the secret.\<close>

definition memo_scheme_ok :: "memo_scheme \<Rightarrow> (nat \<Rightarrow> nat) \<Rightarrow> bool" where
  "memo_scheme_ok m public \<longleftrightarrow>
     (\<forall>k x. aes_decrypt m k (aes_encrypt m k x) = Some x) \<and> (\<forall>x. unpack_memo m (pack_memo m x) = Some x) \<and>
     (\<forall>a b. shared_secret m a (public b) = shared_secret m b (public a))"

subsection \<open>Every memo is encrypted\<close>

lemma key_id_test_true: "i < 2 ^ 48 \<Longrightarrow> key_id_test i = Some True"
proof -
  assume i: "i < 2 ^ 48"
  have "drop_bit 48 (word_of_nat i :: 64 word) = 0"
  proof (rule bit_word_eqI)
    fix n
    have "(2 :: nat) ^ 48 \<le> 2 ^ (48 + n)" by (rule power_increasing) simp_all
    with i have "i div 2 ^ (48 + n) = 0" by (intro div_less) linarith
    then have "\<not> bit i (48 + n)" by (simp add: bit_iff_odd)
    then show "bit (drop_bit 48 (word_of_nat i :: 64 word)) n = bit 0 n" by (simp add: bit_simps)
  qed
  then obtain n where n: "make_object_id 1 2 (word_of_nat i) = Some n" by (simp add: make_object_id_def)
  from object_id_fields(1) [OF n] have "n \<noteq> 0" by (auto simp: id_space_def)
  with n show ?thesis by (simp add: key_id_test_def)
qed

text \<open>
  A memo that is set is encrypted whatever \<open>from\<close> is, the key 0 of the comment included, and carries the first
  word of the digest of its text.
\<close>

lemma memo_is_never_public:
  assumes "memo_from d < 2 ^ 48"
  shows "set_message m key_hash now priv pub msg d = Some (d\<lparr>memo_nonce := new_nonce key_hash now,
    memo_message := aes_encrypt m (memo_key m (new_nonce key_hash now) (shared_secret m priv pub)) (pack_memo m (text_digest m msg, msg))\<rparr>)"
  using key_id_test_true [OF assms] by (simp add: set_message_def Let_def)

text \<open>C23. What one end writes, both ends read: with the own private key and the public key of the other end.\<close>

theorem memo_round_trip:
  assumes "memo_scheme_ok m public" "memo_from d < 2 ^ 48"
  shows "\<exists>d'. set_message m key_hash now a (public b) msg d = Some d' \<and>
    get_message m b (public a) d' = Some msg \<and> get_message m a (public b) d' = Some msg"
  using assms(1) key_id_test_true [OF assms(2)]
  by (auto simp: set_message_def get_message_def memo_scheme_ok_def Let_def)

lemma bit_nonce_masks:
  "bit (0x00ffffffffffffff :: int) n \<longleftrightarrow> n < 56" "bit (0xff00000000000000 :: int) n \<longleftrightarrow> 56 \<le> n \<and> n < 64"
proof -
  have e: "(0x00ffffffffffffff :: int) = mask 56" "(0xff00000000000000 :: int) = push_bit 56 (mask 8)"
    by (simp_all add: mask_eq_exp_minus_1 push_bit_eq_mult)
  show "bit (0x00ffffffffffffff :: int) n \<longleftrightarrow> n < 56" unfolding e by (simp only: bit_mask_iff possible_bit_int simp_thms)
  show "bit (0xff00000000000000 :: int) n \<longleftrightarrow> 56 \<le> n \<and> n < 64"
    unfolding e by (auto simp only: bit_mask_iff bit_push_bit_iff possible_bit_int simp_thms)
qed

text \<open>The nonce has a byte of entropy over 56 bits of time.\<close>

lemma nonce_fields:
  assumes "0 \<le> key_hash" "key_hash < 2 ^ 32"
  shows "new_nonce key_hash now div 2 ^ 56 = key_hash div 2 ^ 24 \<and> new_nonce key_hash now mod 2 ^ 56 = now mod 2 ^ 56"
proof -
  let ?n = "new_nonce key_hash now"
  have u: "uint64 x = take_bit 64 x" for x by (simp add: uint64_def take_bit_eq_mod)
  have k: "key_hash = take_bit 32 key_hash" using assms by (simp add: take_bit_eq_mod)
  have "drop_bit 56 ?n = drop_bit 24 (take_bit 32 key_hash)"
    by (rule bit_eqI) (auto simp: new_nonce_def Let_def u bit_simps bit_nonce_masks)
  moreover have "take_bit 56 ?n = take_bit 56 now"
    by (rule bit_eqI) (auto simp: new_nonce_def Let_def u bit_simps bit_nonce_masks)
  ultimately show ?thesis using k by (simp add: drop_bit_eq_div take_bit_eq_mod)
qed

subsection \<open>A scheme\<close>

definition sample_pack_memo :: "int \<times> string \<Rightarrow> string" where
  "sample_pack_memo x = (if fst x \<ge> 0 then CHR ''+'' else CHR ''-'') # replicate (nat \<bar>fst x\<bar>) CHR ''1'' @ CHR ''0'' # snd x"

definition sample_unpack_memo :: "string \<Rightarrow> (int \<times> string) option" where
  "sample_unpack_memo s = (let k = length (takeWhile (\<lambda>c. c = CHR ''1'') (tl s)) in
     if s = [] then None else Some (if hd s = CHR ''+'' then int k else - int k, drop (Suc k) (tl s)))"

definition sample_memo_scheme :: memo_scheme where
  "sample_memo_scheme = \<lparr>shared_secret = \<lambda>a b. a + b, memo_key = \<lambda>n s. nat n + s, aes_encrypt = \<lambda>k x. char_of k # x,
     aes_decrypt = \<lambda>k x. if x \<noteq> [] \<and> hd x = char_of k then Some (tl x) else None,
     pack_memo = sample_pack_memo, unpack_memo = sample_unpack_memo, text_digest = \<lambda>x. int (length x)\<rparr>"

lemma sample_memo_unpack: "sample_unpack_memo (sample_pack_memo x) = Some x"
proof -
  have t: "takeWhile (\<lambda>c. c = CHR ''1'') (replicate n CHR ''1'' @ CHR ''0'' # b) = replicate n CHR ''1''" for n b by (induction n) simp_all
  show ?thesis by (cases x) (simp add: sample_unpack_memo_def sample_pack_memo_def t Let_def)
qed

lemma sample_memo_ok: "memo_scheme_ok sample_memo_scheme (\<lambda>k. k)"
  by (simp add: memo_scheme_ok_def sample_memo_scheme_def sample_memo_unpack)

definition sample_memo :: memo_data where
  "sample_memo = \<lparr>memo_from = 0, memo_to = 0, memo_nonce = 0, memo_message = []\<rparr>"

lemma memo_is_never_public_witness:
  "\<exists>d. set_message sample_memo_scheme 5 9 2 3 ''hi'' sample_memo = Some d \<and>
    memo_message d \<noteq> pack_memo sample_memo_scheme (0, ''hi'')"
proof -
  have f: "memo_from sample_memo < 2 ^ 48" by (simp add: sample_memo_def)
  show ?thesis unfolding memo_is_never_public [OF f]
    by (simp add: sample_memo_scheme_def sample_pack_memo_def)
qed

theorem memo_round_trip_witness:
  "\<exists>d. set_message sample_memo_scheme 5 9 2 3 ''hi'' sample_memo = Some d \<and> get_message sample_memo_scheme 3 2 d = Some ''hi''"
  using memo_round_trip [OF sample_memo_ok, of sample_memo 5 9 2 3 "''hi''"] by (auto simp: sample_memo_def)

lemma nonce_fields_witness: "new_nonce 0x12345678 77 div 2 ^ 56 = 0x12 \<and> new_nonce 0x12345678 77 mod 2 ^ 56 = 77"
  using nonce_fields [of "0x12345678" 77] by simp

end
