(* ===== verification/Deltas.thy ===== *)
theory Deltas
  imports Transactions
begin

section \<open>Balances from operations\<close>

text \<open>
  Models \<open>get_balance_delta\<close> of every operation in \<^verbatim>\<open>libraries/chain/include/bts/chain/operations.hpp\<close>, the changes of balances
  that can be told from an operation and its result alone. \<open>balance_accumulator\<close> adds them up; here they are a list
  in the order of the calls of \<open>adjust\<close>.

  The documentation there promises that the balance of an account may be calculated from the operations that
  are relevant to it. The theorem proves this of every operation that neither trades nor executes others: applying it
  changes every balance by exactly its delta. The contract is a locale, interpreted on each evaluator.
\<close>

subsection \<open>Deltas\<close>

type_synonym balance_entry = "account_id_type \<times> asset_id_type \<times> int"

definition plus_entry :: "account_id_type \<Rightarrow> asset \<Rightarrow> balance_entry" where
  "plus_entry i x = (i, asset_id x, amount x)"

definition minus_entry :: "account_id_type \<Rightarrow> asset \<Rightarrow> balance_entry" where
  "minus_entry i x = (i, asset_id x, - amount x)"

text \<open>\<open>result.get<asset>()\<close> throws when the result is no amount.\<close>

definition result_asset :: "operation_result \<Rightarrow> asset option" where
  "result_asset r = (case r of Asset_Result x \<Rightarrow> Some x | _ \<Rightarrow> None)"

fun own_delta :: "operation \<Rightarrow> operation_result \<Rightarrow> balance_entry list option" where
  "own_delta (Witness_Withdraw_Pay_Op o') r = Some [plus_entry (ww_to_account o') (mk_asset (ww_amount o') 0)]"
| "own_delta (Transfer_Op o') r = Some [minus_entry (tr_from o') (tr_amount o'), plus_entry (tr_to o') (tr_amount o')]"
| "own_delta (Asset_Settle_Op o') r = Some [minus_entry (as_account o') (as_amount o')]"
| "own_delta (Asset_Fund_Fee_Pool_Op o') r = Some [minus_entry (ff_from_account o') (mk_asset (ff_amount o') 0)]"
| "own_delta (Asset_Issue_Op o') r = Some [plus_entry (ai_issue_to_account o') (ai_asset_to_issue o')]"
| "own_delta (Asset_Burn_Op o') r = Some [minus_entry (ab_payer o') (ab_amount_to_burn o')]"
| "own_delta (Limit_Order_Create_Op o') r = Some [minus_entry (lo_seller o') (lo_amount_to_sell o')]"
| "own_delta (Limit_Order_Cancel_Op o') r = map_option (\<lambda>x. [plus_entry (lc_fee_paying_account o') x]) (result_asset r)"
| "own_delta (Short_Order_Create_Op o') r = Some [minus_entry (so_seller o') (so_collateral o')]"
| "own_delta (Short_Order_Cancel_Op o') r = map_option (\<lambda>x. [plus_entry (sc_fee_paying_account o') x]) (result_asset r)"
| "own_delta (Call_Order_Update_Op o') r = Some [minus_entry (cu_funding_account o') (cu_collateral_to_add o'),
     minus_entry (cu_funding_account o') (cu_amount_to_cover o')]"
| "own_delta (Fill_Order_Op o') r = Some [plus_entry (fo_account_id o') (fo_receives o')]"
| "own_delta (Withdraw_Permission_Claim_Op o') r = Some [plus_entry (wpk_withdraw_to_account o') (wpk_amount_to_withdraw o'),
     minus_entry (wpk_withdraw_from_account o') (wpk_amount_to_withdraw o')]"
| "own_delta (Bond_Create_Offer_Op o') r = Some [minus_entry (bc_creator o') (bc_amount o')]"
| "own_delta (Bond_Cancel_Offer_Op o') r = Some [plus_entry (bx_creator o') (bx_refund o')]"
| "own_delta (Bond_Accept_Offer_Op o') r = Some
     [if ba_claimer o' = ba_lender o' then minus_entry (ba_claimer o') (ba_amount_borrowed o')
      else minus_entry (ba_claimer o') (ba_amount_collateral o'),
      plus_entry (ba_borrower o') (ba_amount_borrowed o')]"
| "own_delta (Bond_Claim_Collateral_Op o') r = Some [minus_entry (bl_claimer o') (bl_payoff_amount o'),
     plus_entry (bl_claimer o') (bl_collateral_claimed o'), plus_entry (bl_lender o') (bl_payoff_amount o')]"
| "own_delta (Vesting_Balance_Create_Op o') r = Some [minus_entry (vc_creator o') (vc_amount o')]"
| "own_delta (Vesting_Balance_Withdraw_Op o') r = Some [plus_entry (vw_owner o') (vw_amount o')]"
| "own_delta op r = Some []"

text \<open>The fee of \<open>fill_order_operation\<close>, which is virtual, never entered the account.\<close>

definition get_balance_delta :: "operation \<Rightarrow> operation_result \<Rightarrow> balance_entry list option" where
  "get_balance_delta op r = map_option (\<lambda>xs.
     (case op of Fill_Order_Op _ \<Rightarrow> xs | _ \<Rightarrow> minus_entry (fee_payer op) (op_fee op) # xs)) (own_delta op r)"

text \<open>What \<open>balance_accumulator\<close> holds for an account and an asset.\<close>

definition entry_at :: "balance_entry \<Rightarrow> account_id_type \<Rightarrow> asset_id_type \<Rightarrow> int" where
  "entry_at e w a = (case e of (v, b, x) \<Rightarrow> if v = w \<and> b = a then x else 0)"

definition accumulated :: "balance_entry list \<Rightarrow> account_id_type \<Rightarrow> asset_id_type \<Rightarrow> int" where
  "accumulated xs w a = sum_list (map (\<lambda>e. entry_at e w a) xs)"

subsection \<open>What moves balances\<close>

definition moved :: "balance_entry list \<Rightarrow> database \<Rightarrow> database \<Rightarrow> bool" where
  "moved xs d d' \<longleftrightarrow> balances_ok (balances d') \<and>
     (\<forall>w a. amount (get_balance w a d') = amount (get_balance w a d) + accumulated xs w a)"

lemma accumulated_simps [simp]:
  "accumulated [] w a = 0" "accumulated (e # xs) w a = entry_at e w a + accumulated xs w a"
  "accumulated (xs @ ys) w a = accumulated xs w a + accumulated ys w a"
  by (simp_all add: accumulated_def)

lemma entry_at_simps [simp]:
  "entry_at (plus_entry i x) w a = (if w = i \<and> a = asset_id x then amount x else 0)"
  "entry_at (minus_entry i x) w a = (if w = i \<and> a = asset_id x then - amount x else 0)"
  by (auto simp: entry_at_def plus_entry_def minus_entry_def)

lemma moved_same: "balances d' = balances d \<Longrightarrow> balances_ok (balances d) \<Longrightarrow> moved [] d d'"
  by (simp add: moved_def get_balance_def find_balance_def)

lemma moved_into: "moved xs d d1 \<Longrightarrow> balances d2 = balances d1 \<Longrightarrow> moved xs d d2"
  by (simp add: moved_def get_balance_def find_balance_def)

lemma moved_from: "moved xs d1 d' \<Longrightarrow> balances d1 = balances d \<Longrightarrow> moved xs d d'"
  by (simp add: moved_def get_balance_def find_balance_def)

lemma moved_adjust:
  assumes "adjust_balance i x d = Some d'" "balances_ok (balances d)"
  shows "moved [plus_entry i x] d d'"
  using balances_ok_adjust [OF assms] by (simp add: moved_def get_balance_adjust [OF assms])

lemma moved_adjust_neg:
  assumes "asset_neg x = Some n" "adjust_balance i n d = Some d'" "balances_ok (balances d)"
  shows "moved [minus_entry i x] d d'"
proof -
  have "asset_id n = asset_id x" "amount n = - amount x" using assms(1) by auto
  then show ?thesis using moved_adjust [OF assms(2,3)] by (simp add: moved_def)
qed

lemma moved_trans: "moved xs d d1 \<Longrightarrow> moved ys d1 d2 \<Longrightarrow> moved (xs @ ys) d d2"
  by (simp add: moved_def)

lemma moved_permute: "moved xs d d' \<Longrightarrow> (\<And>w a. accumulated ys w a = accumulated xs w a) \<Longrightarrow> moved ys d d'"
  by (simp add: moved_def)

lemma moved_ok: "moved xs d d' \<Longrightarrow> balances_ok (balances d')"
  by (simp add: moved_def)


lemma moved_payment:
  assumes "asset_neg x = Some n" "adjust_balance i n d = Some d1" "adjust_balance j x d1 = Some d2" "balances_ok (balances d)"
  shows "moved [minus_entry i x, plus_entry j x] d d2"
proof -
  note m = moved_adjust_neg [OF assms(1,2,4)]
  from moved_trans [OF m moved_adjust [OF assms(3) moved_ok [OF m]]] show ?thesis by simp
qed

subsection \<open>The contract of an evaluator\<close>

locale accounted_evaluator =
  fixes mk_op :: "'o \<Rightarrow> operation"
    and do_evaluate :: "'o \<Rightarrow> 'c evaluation"
    and do_apply :: "'o \<Rightarrow> 'c application"
    and own :: "'o \<Rightarrow> balance_entry list"
    and pre :: "'o \<Rightarrow> bool"
  assumes apply_moves: "pre o' \<Longrightarrow> do_apply o' c st d = Some (r, d') \<Longrightarrow> balances_ok (balances d) \<Longrightarrow> moved (own o') d d'"
begin

lemma operation_moves:
  assumes "start_evaluate (mk_op o') (do_evaluate o') (do_apply o') st d = Some (r, st', d')" "balances_ok (balances d)" "pre o'"
  shows "moved (minus_entry (fee_payer (mk_op o')) (op_fee (mk_op o')) # own o') d d'"
proof -
  let ?fee = "op_fee (mk_op o')" and ?i = "fee_payer (mk_op o')"
  obtain c core' db1 db2 neg where f: "pay_fee ?i ?fee core' d = Some db1"
    "do_apply o' c st' db1 = Some (r, db2)" "asset_neg ?fee = Some neg" "adjust_balance ?i neg db2 = Some d'"
    using assms(1) unfolding start_evaluate_def Option.bind_eq_Some_conv
    by (auto simp del: asset_neg_Some)
  have b: "balances db1 = balances d" using fees_paid_frame(3) [OF fees_paidI [OF f(1)]] .
  then have "balances_ok (balances db1)" using assms(2) by simp
  from moved_from [OF apply_moves [OF assms(3) f(2) this] b] have m: "moved (own o') d db2" .
  note t = moved_trans [OF m moved_adjust_neg [OF f(3,4) moved_ok [OF m]]]
  show ?thesis by (rule moved_permute [OF t]) simp
qed

end

subsection \<open>Operations that cost their fee only\<close>

lemma accounted_none:
  assumes "\<And>o' c st d r d'. do_apply o' c st d = Some (r, d') \<Longrightarrow> balances d' = balances d"
  shows "accounted_evaluator do_apply (\<lambda>_. []) pre"
  by unfold_locales (rule moved_same, rule assms)

interpretation acc_key_create: accounted_evaluator Key_Create_Op "\<lambda>op. reading (\<lambda>_. Some ())"
  "\<lambda>op. applying (\<lambda>_. key_create_do_apply op)" "\<lambda>_. []" "\<lambda>_. True"
  by (rule accounted_none) (auto simp: key_create_do_apply_def split: if_splits worker_initializer.splits)

interpretation acc_account_update: accounted_evaluator Account_Update_Op "\<lambda>op. reading (account_update_do_evaluate op)"
  "\<lambda>op. applying (\<lambda>_. account_update_do_apply op)" "\<lambda>_. []" "\<lambda>_. True"
  by (rule accounted_none) (auto simp: account_update_do_apply_def split: if_splits worker_initializer.splits)

interpretation acc_account_whitelist: accounted_evaluator Account_Whitelist_Op "\<lambda>op. reading (account_whitelist_do_evaluate op)"
  "\<lambda>op. applying (\<lambda>_. account_whitelist_do_apply op)" "\<lambda>_. []" "\<lambda>_. True"
  by (rule accounted_none) (auto simp: account_whitelist_do_apply_def Let_def split_beta split: if_splits worker_initializer.splits)

interpretation acc_account_create: accounted_evaluator Account_Create_Op "\<lambda>op. account_create_evaluation op"
  "\<lambda>op. \<lambda>_. account_create_do_apply op" "\<lambda>_. []" "\<lambda>_. True"
  by (rule accounted_none) (auto simp: account_create_do_apply_def Let_def split_beta split: if_splits worker_initializer.splits)

interpretation acc_asset_create: accounted_evaluator Asset_Create_Op "\<lambda>op. asset_create_evaluation op"
  "\<lambda>op. applying (\<lambda>_. asset_create_do_apply op)" "\<lambda>_. []" "\<lambda>_. True"
  by (rule accounted_none) (auto simp: asset_create_do_apply_def Let_def split_beta split: if_splits worker_initializer.splits)

interpretation acc_asset_update: accounted_evaluator Asset_Update_Op "\<lambda>op. reading (asset_update_do_evaluate op)"
  "\<lambda>op. applying (\<lambda>_. asset_update_do_apply op)" "\<lambda>_. []" "\<lambda>_. True"
  by (rule accounted_none) (auto simp: asset_update_do_apply_def split: if_splits worker_initializer.splits)

interpretation acc_asset_update_bitasset: accounted_evaluator Asset_Update_Bitasset_Op "\<lambda>op. reading (asset_update_bitasset_do_evaluate op)"
  "\<lambda>op. applying (asset_update_bitasset_do_apply op)" "\<lambda>_. []" "\<lambda>_. True"
  by (rule accounted_none) (auto simp: asset_update_bitasset_do_apply_def split: if_splits worker_initializer.splits)

interpretation acc_asset_update_feed_producers: accounted_evaluator Asset_Update_Feed_Producers_Op "\<lambda>op. reading (asset_update_feed_producers_do_evaluate op)"
  "\<lambda>op. applying (asset_update_feed_producers_do_apply op)" "\<lambda>_. []" "\<lambda>_. True"
  by (rule accounted_none) (auto simp: asset_update_feed_producers_do_apply_def split: if_splits worker_initializer.splits)

interpretation acc_asset_publish_feeds: accounted_evaluator Asset_Publish_Feed_Op "\<lambda>op. reading (asset_publish_feeds_do_evaluate op)"
  "\<lambda>op. applying (asset_publish_feeds_do_apply op)" "\<lambda>_. []" "\<lambda>_. True"
  by (rule accounted_none) (auto simp: asset_publish_feeds_do_apply_def split: if_splits worker_initializer.splits)

interpretation acc_delegate_create: accounted_evaluator Delegate_Create_Op "\<lambda>op. reading (prime_account (dc_delegate_account op))"
  "\<lambda>op. applying (\<lambda>_. delegate_create_do_apply op)" "\<lambda>_. []" "\<lambda>_. True"
  by (rule accounted_none) (auto simp: delegate_create_do_apply_def Let_def split_beta split: if_splits worker_initializer.splits)

interpretation acc_witness_create: accounted_evaluator Witness_Create_Op "\<lambda>op. reading (prime_account (wc_witness_account op))"
  "\<lambda>op. applying (\<lambda>_. witness_create_do_apply op)" "\<lambda>_. []" "\<lambda>_. True"
  by (rule accounted_none) (auto simp: witness_create_do_apply_def Let_def split_beta split: if_splits worker_initializer.splits)

interpretation acc_proposal_create: accounted_evaluator Proposal_Create_Op "\<lambda>op. reading (proposal_create_do_evaluate op)"
  "\<lambda>op. applying (proposal_create_do_apply op)" "\<lambda>_. []" "\<lambda>_. True"
  by (rule accounted_none) (auto simp: proposal_create_do_apply_def Let_def split_beta split: if_splits worker_initializer.splits)

interpretation acc_proposal_delete: accounted_evaluator Proposal_Delete_Op "\<lambda>op. reading (proposal_delete_do_evaluate op)"
  "\<lambda>op. applying (\<lambda>i. proposal_delete_do_apply i)" "\<lambda>_. []" "\<lambda>_. True"
  by (rule accounted_none) (auto simp: proposal_delete_do_apply_def split: if_splits worker_initializer.splits)

interpretation acc_withdraw_permission_create: accounted_evaluator Withdraw_Permission_Create_Op "\<lambda>op. reading (withdraw_permission_create_do_evaluate op)"
  "\<lambda>op. applying (\<lambda>_. withdraw_permission_create_do_apply op)" "\<lambda>_. []" "\<lambda>_. True"
  by (rule accounted_none) (auto simp: withdraw_permission_create_do_apply_def split: if_splits worker_initializer.splits)

interpretation acc_withdraw_permission_update: accounted_evaluator Withdraw_Permission_Update_Op "\<lambda>op. reading (withdraw_permission_update_do_evaluate op)"
  "\<lambda>op. applying (\<lambda>_. withdraw_permission_update_do_apply op)" "\<lambda>_. []" "\<lambda>_. True"
  by (rule accounted_none) (auto simp: withdraw_permission_update_do_apply_def split: if_splits worker_initializer.splits)

interpretation acc_withdraw_permission_delete: accounted_evaluator Withdraw_Permission_Delete_Op "\<lambda>op. reading (withdraw_permission_delete_do_evaluate op)"
  "\<lambda>op. applying (\<lambda>_. withdraw_permission_delete_do_apply op)" "\<lambda>_. []" "\<lambda>_. True"
  by (rule accounted_none) (auto simp: withdraw_permission_delete_do_apply_def split: if_splits worker_initializer.splits)

interpretation acc_global_parameters_update: accounted_evaluator Global_Parameters_Update_Op "\<lambda>op. global_parameters_update_evaluation op"
  "\<lambda>op. applying (\<lambda>_. global_parameters_update_do_apply op)" "\<lambda>_. []" "\<lambda>_. True"
  by (rule accounted_none) (auto simp: global_parameters_update_do_apply_def split: if_splits worker_initializer.splits)

interpretation acc_worker_create: accounted_evaluator Worker_Create_Op "\<lambda>op. reading (worker_create_do_evaluate op)"
  "\<lambda>op. applying (\<lambda>_. worker_create_do_apply op)" "\<lambda>_. []" "\<lambda>_. True"
  by (rule accounted_none) (auto simp: worker_create_do_apply_def initialize_worker_def Let_def split_beta split: if_splits worker_initializer.splits)

interpretation acc_custom: accounted_evaluator Custom_Op "\<lambda>op. reading (\<lambda>_. Some ())"
  "\<lambda>op. applying (\<lambda>_ d. Some (no_object, d))" "\<lambda>_. []" "\<lambda>_. True"
  by (rule accounted_none) (auto split: if_splits worker_initializer.splits)

subsection \<open>Operations that move balances\<close>

text \<open>A later change of another table does not matter.\<close>

lemma adjust_core_balances: "adjust_core_in_orders x y d = Some d' \<Longrightarrow> balances d' = balances d"
  by (auto simp: adjust_core_in_orders_def split: if_splits)

interpretation acc_transfer: accounted_evaluator Transfer_Op "\<lambda>op. reading (transfer_do_evaluate op)"
  "\<lambda>op. applying (\<lambda>_. transfer_do_apply op)"
  "\<lambda>op. [minus_entry (tr_from op) (tr_amount op), plus_entry (tr_to op) (tr_amount op)]" "\<lambda>_. True"
  by unfold_locales (auto simp: transfer_do_apply_def simp del: asset_neg_Some intro: moved_payment)

interpretation acc_asset_issue: accounted_evaluator Asset_Issue_Op "\<lambda>op. reading (asset_issue_do_evaluate op)"
  "\<lambda>op. applying (asset_issue_do_apply op)"
  "\<lambda>op. [plus_entry (ai_issue_to_account op) (ai_asset_to_issue op)]" "\<lambda>_. True"
  by unfold_locales (auto simp: asset_issue_do_apply_def intro!: moved_into [OF moved_adjust])

interpretation acc_asset_burn: accounted_evaluator Asset_Burn_Op "\<lambda>op. reading (asset_burn_do_evaluate op)"
  "\<lambda>op. applying (asset_burn_do_apply op)" "\<lambda>op. [minus_entry (ab_payer op) (ab_amount_to_burn op)]" "\<lambda>_. True"
  by unfold_locales (auto simp: asset_burn_do_apply_def simp del: asset_neg_Some intro!: moved_into [OF moved_adjust_neg])

interpretation acc_asset_fund_fee_pool: accounted_evaluator Asset_Fund_Fee_Pool_Op "\<lambda>op. reading (asset_fund_fee_pool_do_evaluate op)"
  "\<lambda>op. applying (asset_fund_fee_pool_do_apply op)"
  "\<lambda>op. [minus_entry (ff_from_account op) (mk_asset (ff_amount op) 0)]" "\<lambda>_. True"
proof unfold_locales
  fix op c st d r d'
  assume "applying (asset_fund_fee_pool_do_apply op) c st d = Some (r, d')" and b: "balances_ok (balances d)"
  then obtain d1 where d1: "adjust_balance (ff_from_account op) (mk_asset (- ff_amount op) 0) d = Some d1" "balances d' = balances d1"
    by (auto simp: asset_fund_fee_pool_do_apply_def)
  from moved_into [OF moved_adjust [OF d1(1) b] d1(2)]
  show "moved [minus_entry (ff_from_account op) (mk_asset (ff_amount op) 0)] d d'" by (simp add: moved_def)
qed

interpretation acc_asset_settle: accounted_evaluator Asset_Settle_Op "\<lambda>op. reading (asset_settle_do_evaluate op)"
  "\<lambda>op. applying (asset_settle_do_apply op)" "\<lambda>op. [minus_entry (as_account op) (as_amount op)]" "\<lambda>_. True"
  by unfold_locales (auto simp: asset_settle_do_apply_def simp del: asset_neg_Some intro!: moved_into [OF moved_adjust_neg])

interpretation acc_witness_withdraw_pay: accounted_evaluator Witness_Withdraw_Pay_Op
  "\<lambda>op. reading (witness_withdraw_pay_do_evaluate op)" "\<lambda>op. applying (\<lambda>_. witness_withdraw_pay_do_apply op)"
  "\<lambda>op. [plus_entry (ww_to_account op) (mk_asset (ww_amount op) 0)]" "\<lambda>_. True"
  by unfold_locales (auto simp: witness_withdraw_pay_do_apply_def intro!: moved_into [OF moved_adjust])

interpretation acc_vesting_balance_create: accounted_evaluator Vesting_Balance_Create_Op
  "\<lambda>op. reading (vesting_balance_create_do_evaluate op)" "\<lambda>op. applying (\<lambda>_. vesting_balance_create_do_apply op)"
  "\<lambda>op. [minus_entry (vc_creator op) (vc_amount op)]" "\<lambda>_. True"
  by unfold_locales (auto simp: vesting_balance_create_do_apply_def Let_def simp del: asset_neg_Some intro!: moved_into [OF moved_adjust_neg])

interpretation acc_vesting_balance_withdraw: accounted_evaluator Vesting_Balance_Withdraw_Op
  "\<lambda>op. reading (vesting_balance_withdraw_do_evaluate op)" "\<lambda>op. applying (\<lambda>_. vesting_balance_withdraw_do_apply op)"
  "\<lambda>op. [plus_entry (vw_owner op) (vw_amount op)]" "\<lambda>_. True"
  by unfold_locales (auto simp: vesting_balance_withdraw_do_apply_def intro!: moved_from [OF moved_adjust])

interpretation acc_withdraw_permission_claim: accounted_evaluator Withdraw_Permission_Claim_Op
  "\<lambda>op. reading (withdraw_permission_claim_do_evaluate op)" "\<lambda>op. applying (\<lambda>_. withdraw_permission_claim_do_apply op)"
  "\<lambda>op. [plus_entry (wpk_withdraw_to_account op) (wpk_amount_to_withdraw op),
    minus_entry (wpk_withdraw_from_account op) (wpk_amount_to_withdraw op)]" "\<lambda>_. True"
  by unfold_locales (auto simp: withdraw_permission_claim_do_apply_def Let_def simp del: asset_neg_Some
      intro!: moved_permute [OF moved_from [OF moved_payment]])

interpretation acc_bond_create_offer: accounted_evaluator Bond_Create_Offer_Op
  "\<lambda>op. reading (bond_create_offer_do_evaluate op)" "\<lambda>op. applying (\<lambda>_. bond_create_offer_do_apply op)"
  "\<lambda>op. [minus_entry (bc_creator op) (bc_amount op)]" "\<lambda>_. True"
  by unfold_locales (auto simp: bond_create_offer_do_apply_def adjust_core_balances simp del: asset_neg_Some
      intro!: moved_into [OF moved_adjust_neg])

interpretation acc_bond_cancel_offer: accounted_evaluator Bond_Cancel_Offer_Op
  "\<lambda>op. reading (bond_cancel_offer_do_evaluate op)" "\<lambda>op. applying (bond_cancel_offer_do_apply op)"
  "\<lambda>op. [plus_entry (bx_creator op) (bx_refund op)]" "\<lambda>_. True"
  by unfold_locales (auto simp: bond_cancel_offer_do_apply_def adjust_core_balances simp del: asset_neg_Some
      intro!: moved_into [OF moved_adjust])

interpretation acc_bond_accept_offer: accounted_evaluator Bond_Accept_Offer_Op
  "\<lambda>op. reading (bond_accept_offer_do_evaluate op)" "\<lambda>op. applying (bond_accept_offer_do_apply op)"
  "\<lambda>op. [if ba_claimer op = ba_lender op then minus_entry (ba_claimer op) (ba_amount_borrowed op)
      else minus_entry (ba_claimer op) (ba_amount_collateral op), plus_entry (ba_borrower op) (ba_amount_borrowed op)]"
  "\<lambda>op. ba_claimer op = ba_borrower op \<or> ba_claimer op = ba_lender op"
proof unfold_locales
  fix op :: bond_accept_offer_operation and c st d r d'
  let ?first = "if ba_claimer op = ba_lender op then minus_entry (ba_claimer op) (ba_amount_borrowed op)
      else minus_entry (ba_claimer op) (ba_amount_collateral op)"
  assume pre: "ba_claimer op = ba_borrower op \<or> ba_claimer op = ba_lender op" and b: "balances_ok (balances d)"
    and "applying (bond_accept_offer_do_apply op) c st d = Some (r, d')"
  then obtain d1 d2 where d1: "(if ba_claimer op = ba_lender op then do {
              neg \<leftarrow> asset_neg (ba_amount_borrowed op);
              adjust_balance (ba_lender op) neg d }
            else do {
              neg \<leftarrow> asset_neg (ba_amount_collateral op);
              d0 \<leftarrow> adjust_balance (ba_borrower op) neg d;
              borrower \<leftarrow> get_object (accounts d0) (ba_borrower op);
              adjust_core_in_orders borrower (ba_amount_collateral op) d0 }) = Some d1"
    "adjust_balance (ba_borrower op) (ba_amount_borrowed op) d1 = Some d2" "balances d' = balances d2"
    by (auto simp: bond_accept_offer_do_apply_def Let_def simp del: asset_neg_Some split: if_split_asm)
  have m: "moved [?first] d d1"
    using d1(1) pre b by (auto simp: adjust_core_balances simp del: asset_neg_Some
        intro: moved_adjust_neg moved_into [OF moved_adjust_neg] split: if_split_asm)
  from moved_into [OF moved_trans [OF m moved_adjust [OF d1(2) moved_ok [OF m]]] d1(3)]
  show "moved [?first, plus_entry (ba_borrower op) (ba_amount_borrowed op)] d d'" by simp
qed

interpretation acc_bond_claim_collateral: accounted_evaluator Bond_Claim_Collateral_Op
  "\<lambda>op. reading (bond_claim_collateral_do_evaluate op)" "\<lambda>op. applying (bond_claim_collateral_do_apply op)"
  "\<lambda>op. [minus_entry (bl_claimer op) (bl_payoff_amount op), plus_entry (bl_claimer op) (bl_collateral_claimed op),
    plus_entry (bl_lender op) (bl_payoff_amount op)]"
  "\<lambda>op. amount (bl_payoff_amount op) \<ge> 0"
proof unfold_locales
  fix op :: bond_claim_collateral_operation and c st d r d'
  assume pre: "amount (bl_payoff_amount op) \<ge> 0" and b: "balances_ok (balances d)"
    and a: "applying (bond_claim_collateral_do_apply op) c st d = Some (r, d')"
  obtain i interest where c: "c = (i, interest)" by fastforce
  from a [unfolded c applying_simp bond_claim_collateral_do_apply_def case_prod_conv Option.bind_eq_Some_conv option.inject prod.inject]
  obtain x y d1 d2 d3 and t :: "bond_object table" where d1: "adjust_core_in_orders x y d = Some d1"
    "(if amount (bl_payoff_amount op) > 0 then do {
              neg \<leftarrow> asset_neg (bl_payoff_amount op);
              d' \<leftarrow> adjust_balance (bl_claimer op) neg d1;
              adjust_balance (bl_lender op) (bl_payoff_amount op) d' }
            else Some d1) = Some d2"
    "adjust_balance (bl_claimer op) (bl_collateral_claimed op) d2 = Some d3" "d3\<lparr>bonds := t\<rparr> = d'"
    by (elim exE conjE) (rule that, assumption+)
  have b2: "balances d' = balances d3" using d1(4) by auto
  have b1: "balances_ok (balances d1)" using b by (simp add: adjust_core_balances [OF d1(1)])
  have m: "moved [minus_entry (bl_claimer op) (bl_payoff_amount op), plus_entry (bl_lender op) (bl_payoff_amount op)] d1 d2"
  proof (cases "amount (bl_payoff_amount op) > 0")
    case True
    then show ?thesis using d1(2) b1 by (auto simp del: asset_neg_Some intro: moved_payment)
  next
    case False
    then have "moved [] d1 d2" using d1(2) b1 by (auto intro: moved_same)
    then show ?thesis using False pre by (simp add: moved_def)
  qed
  note mt = moved_trans [OF m moved_adjust [OF d1(3) moved_ok [OF m]]]
  show "moved [minus_entry (bl_claimer op) (bl_payoff_amount op), plus_entry (bl_claimer op) (bl_collateral_claimed op),
    plus_entry (bl_lender op) (bl_payoff_amount op)] d d'"
    by (rule moved_permute [OF moved_from [OF moved_into [OF mt b2] adjust_core_balances [OF d1(1)]]]) simp
qed

subsection \<open>The balance calculation principle\<close>

text \<open>
  What trades, settles or executes others changes balances that its own delta does not tell of: fills and the
  operations of a proposal that is executed are applied operations of their own. The conditions on bonds are among
  those \<open>validate\<close> checks.
\<close>

fun accounted :: "operation \<Rightarrow> bool" where
  "accounted (Limit_Order_Create_Op o') = False"
| "accounted (Limit_Order_Cancel_Op o') = False"
| "accounted (Short_Order_Create_Op o') = False"
| "accounted (Short_Order_Cancel_Op o') = False"
| "accounted (Call_Order_Update_Op o') = False"
| "accounted (Asset_Global_Settle_Op o') = False"
| "accounted (Proposal_Update_Op o') = False"
| "accounted (Bond_Accept_Offer_Op o') = (ba_claimer o' = ba_borrower o' \<or> ba_claimer o' = ba_lender o')"
| "accounted (Bond_Claim_Collateral_Op o') = (amount (bl_payoff_amount o') \<ge> 0)"
| "accounted op = True"

lemmas operation_moves =
  acc_key_create.operation_moves acc_account_update.operation_moves acc_account_whitelist.operation_moves
  acc_account_create.operation_moves acc_asset_create.operation_moves acc_asset_update.operation_moves
  acc_asset_update_bitasset.operation_moves acc_asset_update_feed_producers.operation_moves
  acc_asset_publish_feeds.operation_moves acc_delegate_create.operation_moves acc_witness_create.operation_moves
  acc_proposal_create.operation_moves acc_proposal_delete.operation_moves acc_withdraw_permission_create.operation_moves
  acc_withdraw_permission_update.operation_moves acc_withdraw_permission_delete.operation_moves
  acc_global_parameters_update.operation_moves acc_worker_create.operation_moves acc_custom.operation_moves
  acc_transfer.operation_moves acc_asset_issue.operation_moves acc_asset_burn.operation_moves
  acc_asset_fund_fee_pool.operation_moves acc_asset_settle.operation_moves acc_witness_withdraw_pay.operation_moves
  acc_vesting_balance_create.operation_moves acc_vesting_balance_withdraw.operation_moves
  acc_withdraw_permission_claim.operation_moves acc_bond_create_offer.operation_moves acc_bond_cancel_offer.operation_moves
  acc_bond_accept_offer.operation_moves acc_bond_claim_collateral.operation_moves

lemma plain_operation_moves:
  assumes "plain_operation op st d = Some (r, st', d')" "balances_ok (balances d)" "accounted op"
  shows "\<exists>xs. own_delta op r = Some xs \<and> moved (minus_entry (fee_payer op) (op_fee op) # xs) d d'"
  using assms
  by (cases op)
    (simp_all only: plain_operation.simps accounted.simps own_delta.simps option.distinct option.inject ex_simps simp_thms,
      (rule operation_moves, assumption, assumption, (rule TrueI | assumption))+)

lemma fill_order_is_virtual: "plain_operation op st d = Some x \<Longrightarrow> op \<noteq> Fill_Order_Op o'"
  by auto

text \<open>
  C15. Applying an operation that neither trades nor executes others changes the balance of every account in every
  asset by exactly what \<open>get_balance_delta\<close> says of the operation and its result.
\<close>

theorem balance_delta_is_what_happens:
  assumes "apply_operation n st op d = Some (r, st', d')" "balances_ok (balances d)" "accounted op"
  shows "\<exists>xs. get_balance_delta op r = Some xs \<and>
    (\<forall>w a. amount (get_balance w a d') = amount (get_balance w a d) + accumulated xs w a)"
proof -
  obtain d2 where d2: "plain_operation op st (push_applied_operation op d) = Some (r, st', d2)"
    "d' = set_applied_operation_result (length (applied_ops d)) r d2"
    using assms(1,3) by (subst (asm) apply_operation.simps) (auto simp: Let_def split: operation.splits)
  have b: "balances (push_applied_operation op d) = balances d" "balances d' = balances d2"
    by (simp_all add: push_applied_operation_def d2(2) set_applied_operation_result_def)
  then have "balances_ok (balances (push_applied_operation op d))" using assms(2) by simp
  from plain_operation_moves [OF d2(1) this assms(3)] obtain xs where x: "own_delta op r = Some xs"
    "moved (minus_entry (fee_payer op) (op_fee op) # xs) (push_applied_operation op d) d2" by blast
  have "get_balance_delta op r = Some (minus_entry (fee_payer op) (op_fee op) # xs)"
    using x(1) fill_order_is_virtual [OF d2(1)] by (auto simp: get_balance_delta_def split: operation.splits)
  with moved_into [OF moved_from [OF x(2) b(1)] b(2)] show ?thesis by (auto simp: moved_def)
qed

definition sample_payer :: transaction_evaluation_state where
  "sample_payer = \<lparr>approved_by = [], operation_results = [], es_trx = sample_trx sample_payments [1],
     skip_authority_check = True, is_proposed_trx = False\<rparr>"

theorem balance_delta_is_what_happens_witness:
  "\<exists>r st' d'. apply_operation 0 sample_payer (hd sample_payments) sample_database = Some (r, st', d') \<and>
    get_balance_delta (hd sample_payments) r = Some [(1, 0, - 200000), (1, 0, - 1000), (2, 0, 1000)] \<and>
    amount (get_balance 2 0 d') = amount (get_balance 2 0 sample_database) + 1000 \<and>
    amount (get_balance 1 0 d') = amount (get_balance 1 0 sample_database) - 201000"
proof -
  have "apply_operation 0 sample_payer (hd sample_payments) sample_database \<noteq> None" by code_simp
  then obtain r st' d' where a: "apply_operation 0 sample_payer (hd sample_payments) sample_database = Some (r, st', d')" by auto
  have g: "get_balance_delta (hd sample_payments) r = Some [(1, 0, - 200000), (1, 0, - 1000), (2, 0, 1000)]"
    by (simp add: sample_payments_def get_balance_delta_def plus_entry_def minus_entry_def)
  have "balances_ok (balances sample_database)" "accounted (hd sample_payments)"
    using tables_okD(1) [OF sample_tables_ok] by (simp_all add: sample_payments_def)
  from balance_delta_is_what_happens [OF a this] g a show ?thesis by (auto simp: entry_at_def)
qed

end
