(* ===== verification/Queries.thy ===== *)
theory Queries
  imports Chain
begin

section \<open>What clients ask of the database\<close>

text \<open>
  Models the calls of \<open>database_api\<close> in \<^verbatim>\<open>libraries/app/api.cpp\<close> that decide something: the look-ups by name and symbol,
  the order book, the balances of an account, and the subscriptions to markets with what is sent for an applied block.
  An iterator that is dereferenced at the end of its index gives nothing. Marshalling and sessions are left out;
  a callback is a number.

  The order book returned is the whole of both sides, best price first, cut off at the limit. The balances of
  an account are only defined while another account with a greater id has a balance. A block with a short order makes
  the observer of applied blocks throw as soon as any market is subscribed to.
\<close>

subsection \<open>Look-ups\<close>

definition lookup_account_names :: "string list \<Rightarrow> database \<Rightarrow> account_object option list" where
  "lookup_account_names account_names d =
     map (\<lambda>n. map_option snd (find_first (\<lambda>x. acct_name x = n) (accounts d))) account_names"

definition lookup_asset_symbols :: "string list \<Rightarrow> database \<Rightarrow> asset_object option list" where
  "lookup_asset_symbols symbols d =
     map (\<lambda>s. map_option snd (find_first (\<lambda>x. ao_symbol x = s) (assets d))) symbols"

text \<open>\<open>std::string\<close> compares the codes of characters.\<close>

fun string_lt :: "string \<Rightarrow> string \<Rightarrow> bool" where
  "string_lt s [] = False"
| "string_lt [] (c # cs) = True"
| "string_lt (a # as) (c # cs) =
     (if (of_char a :: nat) = of_char c then string_lt as cs else (of_char a :: nat) < of_char c)"

definition accounts_by_name :: "database \<Rightarrow> (nat \<times> account_object) list" where
  "accounts_by_name d = sort_by (\<lambda>x y. string_lt (acct_name (snd x)) (acct_name (snd y))) (entries (accounts d))"

text \<open>The result of \<open>lookup_accounts\<close> is a map by name; a later account of the same name would replace an earlier one.\<close>

definition lookup_accounts :: "string \<Rightarrow> nat \<Rightarrow> database \<Rightarrow> (string \<rightharpoonup> account_id_type)" where
  "lookup_accounts lower_bound_name limit d =
     map_of (rev (map (\<lambda>(i, x). (acct_name x, i))
       (take limit (dropWhile (\<lambda>x. string_lt (acct_name (snd x)) lower_bound_name) (accounts_by_name d)))))"

definition list_assets :: "string \<Rightarrow> nat \<Rightarrow> database \<Rightarrow> asset_object list" where
  "list_assets lower_bound_symbol limit d =
     (case find_first (\<lambda>x. ao_symbol x = lower_bound_symbol) (assets d) of None \<Rightarrow> []
      | Some (i, _) \<Rightarrow> map snd (take limit (dropWhile (\<lambda>x. fst x \<noteq> i) (sort_by (\<lambda>x y. fst x < fst y) (entries (assets d))))))"

subsection \<open>Balances\<close>

definition balances_by_account :: "database \<Rightarrow> (nat \<times> account_balance_object) list" where
  "balances_by_account d = sort_by (\<lambda>x y. bal_owner (snd x) < bal_owner (snd y)) (entries (balances d))"

text \<open>The loop of \<open>get_account_balances\<close> has no test for the end of the index.\<close>

fun collect_balances :: "account_id_type \<Rightarrow> asset_id_type list \<Rightarrow> (nat \<times> account_balance_object) list \<Rightarrow> asset list option" where
  "collect_balances acnt wanted [] = None"
| "collect_balances acnt wanted ((i, b) # bs) =
     (if bal_owner b = acnt then do {
        rest \<leftarrow> collect_balances acnt wanted bs;
        Some (if wanted = [] \<or> bal_asset_type b \<in> set wanted
          then mk_asset (bal_balance b) (bal_asset_type b) # rest else rest) }
      else Some [])"

definition get_account_balances :: "account_id_type \<Rightarrow> asset_id_type list \<Rightarrow> database \<Rightarrow> asset list option" where
  "get_account_balances acnt wanted d =
     collect_balances acnt wanted (dropWhile (\<lambda>x. bal_owner (snd x) \<noteq> acnt) (balances_by_account d))"

subsection \<open>The order book\<close>

text \<open>What lies between two iterators.\<close>

definition entries_between :: "nat option \<Rightarrow> nat option \<Rightarrow> (nat \<times> 'a) list \<Rightarrow> (nat \<times> 'a) list" where
  "entries_between from_itr to_itr xs =
     takeWhile (\<lambda>x. Some (fst x) \<noteq> to_itr) (dropWhile (\<lambda>x. Some (fst x) \<noteq> from_itr) xs)"

definition orders_of_side :: "asset_id_type \<Rightarrow> asset_id_type \<Rightarrow> database \<Rightarrow> (nat \<times> limit_order_object) list option" where
  "orders_of_side a b d = do {
     top \<leftarrow> price_max a b;
     bottom \<leftarrow> price_min a b;
     Some (entries_between (falling_lower lim_sell_price top (limit_by_price d))
       (falling_upper lim_sell_price bottom (limit_by_price d)) (limit_by_price d)) }"

definition get_limit_orders :: "asset_id_type \<Rightarrow> asset_id_type \<Rightarrow> nat \<Rightarrow> database \<Rightarrow> limit_order_object list option" where
  "get_limit_orders a b limit d = do {
     xs \<leftarrow> orders_of_side a b d;
     ys \<leftarrow> orders_of_side b a d;
     Some (map snd (take limit xs @ take limit ys)) }"

text \<open>The next three ignore their limit.\<close>

definition get_short_orders :: "asset_id_type \<Rightarrow> nat \<Rightarrow> database \<Rightarrow> short_order_object list option" where
  "get_short_orders a limit d = do {
     mia \<leftarrow> get_object (assets d) a;
     (_, bit) \<leftarrow> bitasset_data mia d;
     top \<leftarrow> price_max a (bd_short_backing_asset bit);
     bottom \<leftarrow> price_min a (bd_short_backing_asset bit);
     Some (map snd (entries_between (falling_lower sho_sell_price top (short_by_price d))
       (falling_upper sho_sell_price bottom (short_by_price d)) (short_by_price d))) }"

definition get_call_orders :: "asset_id_type \<Rightarrow> nat \<Rightarrow> database \<Rightarrow> call_order_object list option" where
  "get_call_orders a limit d = do {
     mia \<leftarrow> get_object (assets d) a;
     (_, bit) \<leftarrow> bitasset_data mia d;
     bottom \<leftarrow> price_min (bd_short_backing_asset bit) a;
     top \<leftarrow> price_max (bd_short_backing_asset bit) a;
     Some (map snd (entries_between (rising_lower call_call_price bottom (call_by_price d))
       (rising_lower call_call_price top (call_by_price d)) (call_by_price d))) }"

definition get_settle_orders :: "asset_id_type \<Rightarrow> nat \<Rightarrow> database \<Rightarrow> force_settlement_object list option" where
  "get_settle_orders a limit d = do {
     mia \<leftarrow> get_object (assets d) a;
     let all = settlements_by_expiration d;
     Some (map snd (entries_between (first_id (\<lambda>x. \<not> settlement_asset_id (snd x) < a) all)
       (first_id (\<lambda>x. a < settlement_asset_id (snd x)) all) all)) }"


subsection \<open>Subscriptions\<close>

text \<open>
  A callback is a number; an entry of \<open>_subscriptions\<close> may hold the empty function, which \<open>operator []\<close> puts there.
  \<open>_market_subscriptions\<close> is kept in the order of its keys.
\<close>

type_synonym callback = nat
type_synonym market = "asset_id_type \<times> asset_id_type"

record api_session =
  subscriptions :: "object_id_type \<rightharpoonup> callback option"
  market_subscriptions :: "(market \<times> callback) list"

definition subscribe_to_objects :: "callback \<Rightarrow> object_id_type list \<Rightarrow> api_session \<Rightarrow> api_session" where
  "subscribe_to_objects c ids s = fold (\<lambda>i s. s\<lparr>subscriptions := (subscriptions s)(i \<mapsto> Some c)\<rparr>) ids s"

definition unsubscribe_from_objects :: "object_id_type list \<Rightarrow> api_session \<Rightarrow> api_session" where
  "unsubscribe_from_objects ids s = fold (\<lambda>i s. s\<lparr>subscriptions := (subscriptions s)(i := None)\<rparr>) ids s"

text \<open>What changed and is subscribed to is sent later, by a task of its own.\<close>

definition on_objects_changed :: "object_id_type list \<Rightarrow> api_session \<Rightarrow> object_id_type list" where
  "on_objects_changed ids s = filter (\<lambda>i. subscriptions s i \<noteq> None) ids"

text \<open>The task: an empty function throws, which ends it.\<close>

fun send_changes :: "(object_id_type \<Rightarrow> bool) \<Rightarrow> object_id_type list \<Rightarrow> api_session \<Rightarrow> (callback \<times> object_id_type) list \<times> api_session" where
  "send_changes exists_now [] s = ([], s)"
| "send_changes exists_now (i # ids) s =
     (if exists_now i then
        (case subscriptions s i of Some (Some c) \<Rightarrow> (let (xs, s') = send_changes exists_now ids s in ((c, i) # xs, s'))
         | _ \<Rightarrow> ([], s\<lparr>subscriptions := (subscriptions s)(i \<mapsto> None)\<rparr>))
      else send_changes exists_now ids s)"

definition market_of :: "asset_id_type \<Rightarrow> asset_id_type \<Rightarrow> market" where
  "market_of a b = (if a < b then (a, b) else (b, a))"

fun put_market :: "market \<Rightarrow> callback \<Rightarrow> (market \<times> callback) list \<Rightarrow> (market \<times> callback) list" where
  "put_market m c [] = [(m, c)]"
| "put_market m c ((n, e) # xs) =
     (if m = n then (m, c) # xs
      else if fst m < fst n \<or> fst m = fst n \<and> snd m < snd n then (m, c) # (n, e) # xs
      else (n, e) # put_market m c xs)"

definition subscribe_to_market :: "callback \<Rightarrow> asset_id_type \<Rightarrow> asset_id_type \<Rightarrow> api_session \<Rightarrow> api_session option" where
  "subscribe_to_market c a b s = do {
     fc_assert (a \<noteq> b);
     Some (s\<lparr>market_subscriptions := put_market (if a > b then (b, a) else (a, b)) c (market_subscriptions s)\<rparr>) }"

definition unsubscribe_from_market :: "asset_id_type \<Rightarrow> asset_id_type \<Rightarrow> api_session \<Rightarrow> api_session option" where
  "unsubscribe_from_market a b s = do {
     fc_assert (a \<noteq> b);
     Some (s\<lparr>market_subscriptions := filter (\<lambda>x. fst x \<noteq> (if a > b then (b, a) else (a, b))) (market_subscriptions s)\<rparr>) }"

text \<open>\<open>get_market\<close> of the operations that have one.\<close>

definition lo_get_market :: "limit_order_create_operation \<Rightarrow> market" where
  "lo_get_market op = market_of (asset_id (lo_amount_to_sell op)) (asset_id (lo_min_to_receive op))"

definition fo_get_market :: "fill_order_operation \<Rightarrow> market" where
  "fo_get_market op = market_of (asset_id (fo_pays op)) (asset_id (fo_receives op))"

text \<open>
  The case of \<open>short_order_create_operation\<close> reads the operation as a limit order, which throws. The market of an
  operation that has none is the default one, of the core asset with itself.
\<close>

fun applied_market :: "operation \<Rightarrow> market option" where
  "applied_market (Limit_Order_Create_Op o') = Some (lo_get_market o')"
| "applied_market (Short_Order_Create_Op o') = None"
| "applied_market (Fill_Order_Op o') = Some (fo_get_market o')"
| "applied_market op = Some (0, 0)"

fun markets_of :: "operation_history_object list \<Rightarrow> market list option" where
  "markets_of [] = Some []"
| "markets_of (h # hs) = do { m \<leftarrow> applied_market (oh_op h); ms \<leftarrow> markets_of hs; Some (m # ms) }"

text \<open>What there is to send: for each market subscribed to with operations in the block, those with their results.\<close>

type_synonym market_news = "(market \<times> (operation \<times> operation_result) list) list"

definition on_applied_block :: "api_session \<Rightarrow> database \<Rightarrow> market_news option" where
  "on_applied_block s d =
     (if market_subscriptions s = [] then Some []
      else do {
        ms \<leftarrow> markets_of (applied_ops d);
        Some (filter (\<lambda>x. snd x \<noteq> []) (map (\<lambda>(m, _).
          (m, map (\<lambda>(_, h). (oh_op h, oh_result h)) (filter (\<lambda>(n, _). n = m) (zip ms (applied_ops d)))))
          (market_subscriptions s))) })"

text \<open>The task that sends it, for the subscriptions of that time.\<close>

definition send_market_news :: "market_news \<Rightarrow> api_session \<Rightarrow> (callback \<times> (operation \<times> operation_result) list) list" where
  "send_market_news news s =
     concat (map (\<lambda>(m, xs). case map_of (market_subscriptions s) m of None \<Rightarrow> [] | Some c \<Rightarrow> [(c, xs)]) news)"


subsection \<open>Ranges of an index\<close>

lemma first_id_Cons: "first_id P (x # xs) = (if P x then Some (fst x) else first_id P xs)"
  by (simp add: first_id_def)

lemma first_id_in: "first_id P xs = Some i \<Longrightarrow> i \<in> fst ` set xs"
  by (induction xs) (auto simp: first_id_Cons first_id_def split: if_splits)

lemma dropWhile_first_id:
  "distinct (map fst xs) \<Longrightarrow> dropWhile (\<lambda>x. Some (fst x) \<noteq> first_id P xs) xs = dropWhile (\<lambda>x. \<not> P x) xs"
proof (induction xs)
  case (Cons x xs)
  then have "first_id P xs \<noteq> Some (fst x)" using first_id_in [of P xs "fst x"] by auto
  with Cons show ?case by (auto simp: first_id_Cons)
qed simp

lemma takeWhile_first_id:
  "distinct (map fst xs) \<Longrightarrow> takeWhile (\<lambda>x. Some (fst x) \<noteq> first_id P xs) xs = takeWhile (\<lambda>x. \<not> P x) xs"
proof (induction xs)
  case (Cons x xs)
  then have "first_id P xs \<noteq> Some (fst x)" using first_id_in [of P xs "fst x"] by auto
  with Cons show ?case by (auto simp: first_id_Cons)
qed simp

lemma first_id_dropWhile: "(\<And>x. x \<in> set xs \<Longrightarrow> Q x \<Longrightarrow> P x) \<Longrightarrow> first_id Q (dropWhile (\<lambda>x. \<not> P x) xs) = first_id Q xs"
  by (induction xs) (auto simp: first_id_Cons)

lemma dropWhile_suffix_closed: "sorted_wrt (\<lambda>x y. P x \<longrightarrow> P y) xs \<Longrightarrow> dropWhile (\<lambda>x. \<not> P x) xs = filter P xs"
  by (induction xs) (auto simp: filter_id_conv)

lemma takeWhile_suffix_closed: "sorted_wrt (\<lambda>x y. P x \<longrightarrow> P y) xs \<Longrightarrow> takeWhile (\<lambda>x. \<not> P x) xs = filter (\<lambda>x. \<not> P x) xs"
  by (induction xs) (auto simp: filter_empty_conv)

text \<open>Two iterators at conditions that once true stay so bound what satisfies the first but not the second.\<close>

lemma entries_between_filter:
  assumes "distinct (map fst xs)" "sorted_wrt (\<lambda>x y. P x \<longrightarrow> P y) xs" "sorted_wrt (\<lambda>x y. Q x \<longrightarrow> Q y) xs"
    and q: "\<And>x. x \<in> set xs \<Longrightarrow> Q x \<Longrightarrow> P x"
  shows "entries_between (first_id P xs) (first_id Q xs) xs = filter (\<lambda>x. P x \<and> \<not> Q x) xs"
proof -
  let ?ys = "dropWhile (\<lambda>x. \<not> P x) xs"
  have ys: "?ys = filter P xs" by (rule dropWhile_suffix_closed [OF assms(2)])
  have d: "distinct (map fst ?ys)" unfolding ys using assms(1) by (simp add: distinct_map_filter)
  have s: "sorted_wrt (\<lambda>x y. Q x \<longrightarrow> Q y) ?ys" unfolding ys by (rule sorted_wrt_filter [OF assms(3)])
  have "entries_between (first_id P xs) (first_id Q xs) xs = takeWhile (\<lambda>x. Some (fst x) \<noteq> first_id Q ?ys) ?ys"
    by (simp add: entries_between_def dropWhile_first_id [OF assms(1)] first_id_dropWhile [OF q])
  also have "\<dots> = filter (\<lambda>x. \<not> Q x) ?ys"
    by (simp only: takeWhile_first_id [OF d] takeWhile_suffix_closed [OF s])
  finally show ?thesis by (simp add: ys conj_commute)
qed

subsection \<open>Both sides of a market\<close>

text \<open>Prices whose amounts may exist, which is what lies between \<open>price::min\<close> and \<open>price::max\<close> of its market.\<close>

definition price_listed :: "price \<Rightarrow> bool" where
  "price_listed p \<longleftrightarrow> 0 < amount (base p) \<and> amount (base p) \<le> BTS_MAX_SHARE_SUPPLY \<and>
     0 < amount (quote p) \<and> amount (quote p) \<le> BTS_MAX_SHARE_SUPPLY"

definition limits_listed :: "database \<Rightarrow> bool" where
  "limits_listed d \<longleftrightarrow> gi_invar (limit_orders d) \<and>
     (\<forall>i x. gi_find (limit_orders d) i = Some x \<longrightarrow> price_listed (lim_sell_price x))"

definition sells_for :: "asset_id_type \<Rightarrow> asset_id_type \<Rightarrow> price \<Rightarrow> bool" where
  "sells_for a b p \<longleftrightarrow> asset_id (base p) = a \<and> asset_id (quote p) = b"

lemma price_listed_ok: "price_listed p \<Longrightarrow> price_ok p"
  by (simp add: price_listed_def price_ok_def BTS_MAX_SHARE_SUPPLY_def)

lemma price_le_key: "price_ok a \<Longrightarrow> price_ok b \<Longrightarrow> price_le a b \<longleftrightarrow> price_key a \<le> price_key b"
  by (simp add: price_le_not_gt price_lt_key not_less)

lemma price_extremes:
  assumes "price_max a b = Some hi" "price_min a b = Some lo"
  shows "a \<noteq> b" "hi = mk_price (mk_asset BTS_MAX_SHARE_SUPPLY a) (mk_asset 1 b)"
    "lo = mk_price (mk_asset 1 a) (mk_asset BTS_MAX_SHARE_SUPPLY b)" "price_ok hi" "price_ok lo"
  using assms by (auto simp: price_max_def price_min_def asset_div_def price_ok_def BTS_MAX_SHARE_SUPPLY_def)

lemma between_extremes:
  assumes "price_max a b = Some hi" "price_min a b = Some lo" "price_listed p"
  shows "price_le p hi \<and> price_le lo p \<longleftrightarrow> sells_for a b p"
proof
  note e = price_extremes [OF assms(1,2)]
  assume "sells_for a b p"
  then have s: "asset_id (base p) = asset_id (base hi)" "asset_id (quote p) = asset_id (quote hi)"
    "asset_id (base lo) = asset_id (base p)" "asset_id (quote lo) = asset_id (quote p)"
    by (simp_all add: sells_for_def e)
  have l: "0 < amount (base p)" "amount (base p) \<le> BTS_MAX_SHARE_SUPPLY" "0 < amount (quote p)"
    "amount (quote p) \<le> BTS_MAX_SHARE_SUPPLY" using assms(3) by (simp_all add: price_listed_def)
  have m: "(0::int) < BTS_MAX_SHARE_SUPPLY" by (simp add: BTS_MAX_SHARE_SUPPLY_def)
  have "amount (base p) * 1 \<le> BTS_MAX_SHARE_SUPPLY * amount (quote p)"
    by (rule mult_mono) (use l m in auto)
  moreover have "1 * amount (quote p) \<le> amount (base p) * BTS_MAX_SHARE_SUPPLY"
    by (rule mult_mono) (use l m in auto)
  ultimately show "price_le p hi \<and> price_le lo p"
    using price_le_same_market [OF s(1,2) price_listed_ok [OF assms(3)] e(4)]
      price_le_same_market [OF s(3,4) e(5) price_listed_ok [OF assms(3)]] by (simp add: e(2,3))
next
  note e = price_extremes [OF assms(1,2)]
  assume "price_le p hi \<and> price_le lo p"
  then show "sells_for a b p"
    by (simp add: price_le_def e(2,3) sells_for_def split: if_splits)
qed


lemma limits_listed_price:
  "limits_listed d \<Longrightarrow> x \<in> set (limit_by_price d) \<Longrightarrow> price_listed (lim_sell_price (snd x))"
  by (cases x) (auto simp: limits_listed_def limit_by_price_def gi_find_entries)

lemma falling_weak_order:
  assumes "\<And>x. x \<in> S \<Longrightarrow> price_ok (p (snd x))"
  shows "weak_order_on S (falling p)"
proof -
  have "falling p x y \<longleftrightarrow> price_key (p (snd y)) < price_key (p (snd x)) \<or>
      price_key (p (snd y)) = price_key (p (snd x)) \<and> fst x < fst y" if "x \<in> S" "y \<in> S" for x y
    using price_le_key [OF assms assms] that by (auto simp: falling_def price_gt_def)
  then show ?thesis by (auto simp: weak_order_on_def)
qed

lemma limit_by_price_sorted:
  assumes "limits_listed d"
  shows "sorted_wrt (\<lambda>x y. price_le (lim_sell_price (snd y)) (lim_sell_price (snd x))) (limit_by_price d)"
proof -
  have "weak_order_on (set (entries (limit_orders d))) (falling lim_sell_price)"
    by (rule falling_weak_order) (use limits_listed_price [OF assms] price_listed_ok in \<open>simp add: limit_by_price_def\<close>)
  from sorted_sort_by [OF this] have "sorted_by (falling lim_sell_price) (limit_by_price d)" by (simp add: limit_by_price_def)
  then show ?thesis unfolding sorted_by_def
    by (rule sorted_wrt_mono_rel [rotated]) (auto simp: falling_def price_gt_def)
qed

lemma limit_by_price_distinct: "limits_listed d \<Longrightarrow> distinct (map fst (limit_by_price d))"
  unfolding limits_listed_def gi_invar_def limit_by_price_def
  by (metis mset_eq_imp_distinct_iff mset_map mset_sort_by)

lemma orders_of_side_filter:
  assumes "limits_listed d" "a \<noteq> b"
  shows "orders_of_side a b d = Some (filter (\<lambda>x. sells_for a b (lim_sell_price (snd x))) (limit_by_price d))"
proof -
  obtain hi lo where e: "price_max a b = Some hi" "price_min a b = Some lo"
    using assms(2) by (simp add: price_max_def price_min_def asset_div_def fc_assert_def)
  note x = price_extremes [OF e]
  let ?p = "\<lambda>x. lim_sell_price (snd x)" and ?xs = "limit_by_price d"
  have ok: "y \<in> set ?xs \<Longrightarrow> price_ok (?p y)" for y using limits_listed_price [OF assms(1)] price_listed_ok by blast
  note le = price_le_key
  have s: "sorted_wrt (\<lambda>x y. price_ok (?p x) \<and> price_ok (?p y) \<and> price_le (?p y) (?p x)) ?xs"
    by (rule sorted_wrt_mono_rel [OF _ limit_by_price_sorted [OF assms(1)]]) (use ok in auto)
  have "entries_between (first_id (\<lambda>x. \<not> price_gt (?p x) hi) ?xs) (first_id (\<lambda>x. price_gt lo (?p x)) ?xs) ?xs =
      filter (\<lambda>x. \<not> price_gt (?p x) hi \<and> \<not> price_gt lo (?p x)) ?xs"
  proof (rule entries_between_filter [OF limit_by_price_distinct [OF assms(1)]])
    show "sorted_wrt (\<lambda>x y. \<not> price_gt (?p x) hi \<longrightarrow> \<not> price_gt (?p y) hi) ?xs"
      by (rule sorted_wrt_mono_rel [OF _ s]) (auto simp: price_gt_def le x(4))
    show "sorted_wrt (\<lambda>x y. price_gt lo (?p x) \<longrightarrow> price_gt lo (?p y)) ?xs"
      by (rule sorted_wrt_mono_rel [OF _ s]) (auto simp: price_gt_def le x(5))
    have lh: "price_key lo \<le> price_key hi"
      by (simp add: x(2,3) price_key_def BTS_MAX_SHARE_SUPPLY_def)
    fix y assume "y \<in> set ?xs" "price_gt lo (?p y)"
    then show "\<not> price_gt (?p y) hi" using ok [of y] lh by (simp add: price_gt_def le x(4,5))
  qed
  also have "\<dots> = filter (\<lambda>x. sells_for a b (?p x)) ?xs"
    by (rule filter_cong) (use between_extremes [OF e limits_listed_price [OF assms(1)]] in \<open>auto simp: price_gt_def\<close>)
  finally show ?thesis by (simp add: orders_of_side_def e falling_lower_def falling_upper_def)
qed

text \<open>All orders that sell one asset for another, best price first.\<close>

definition whole_side :: "asset_id_type \<Rightarrow> asset_id_type \<Rightarrow> database \<Rightarrow> limit_order_object list \<Rightarrow> bool" where
  "whole_side a b d xs \<longleftrightarrow> sorted_wrt (\<lambda>x y. price_le (lim_sell_price y) (lim_sell_price x)) xs \<and>
     mset xs = image_mset snd (filter_mset (\<lambda>x. sells_for a b (lim_sell_price (snd x))) (mset (entries (limit_orders d))))"

lemma orders_of_side_whole:
  assumes "limits_listed d" "a \<noteq> b"
  shows "\<exists>xs. orders_of_side a b d = Some xs \<and> whole_side a b d (map snd xs)"
  using sorted_wrt_filter [OF limit_by_price_sorted [OF assms(1)]]
  by (auto simp: orders_of_side_filter [OF assms] whole_side_def sorted_wrt_map mset_filter limit_by_price_def)



definition sample_news :: api_session where
  "sample_news = \<lparr>subscriptions = (\<lambda>_. None), market_subscriptions = [((0, 1), 7)]\<rparr>"

lemma sample_limits_listed: "limits_listed sample_market"
proof -
  have "gi_invar (limit_orders sample_market)" by (simp add: sample_market_defs)
  then show ?thesis
    by (auto simp: limits_listed_def sample_market_defs price_listed_def BTS_MAX_SHARE_SUPPLY_def nth_Cons' split: if_splits)
qed


subsection \<open>Balances of an account\<close>

lemma collect_balances_run:
  "collect_balances i w xs = (if dropWhile (\<lambda>x. bal_owner (snd x) = i) xs = [] then None
     else Some (map (\<lambda>x. mk_asset (bal_balance (snd x)) (bal_asset_type (snd x)))
       (filter (\<lambda>x. w = [] \<or> bal_asset_type (snd x) \<in> set w) (takeWhile (\<lambda>x. bal_owner (snd x) = i) xs))))"
  by (induction i w xs rule: collect_balances.induct) auto

lemma split_at_key:
  fixes k :: "'a \<Rightarrow> 'b::linorder"
  assumes "sorted_wrt (\<lambda>x y. k x \<le> k y) xs"
  shows "takeWhile (\<lambda>x. k x = i) (dropWhile (\<lambda>x. k x \<noteq> i) xs) = filter (\<lambda>x. k x = i) xs"
    "dropWhile (\<lambda>x. k x = i) (dropWhile (\<lambda>x. k x \<noteq> i) xs) = [] \<longleftrightarrow> \<not> ((\<exists>x \<in> set xs. k x = i) \<and> (\<exists>x \<in> set xs. k x > i))"
proof -
  have run: "takeWhile (\<lambda>x. k x = i) ys = filter (\<lambda>x. k x = i) ys" if "sorted_wrt (\<lambda>x y. k x \<le> k y) ys" "\<And>y. y \<in> set ys \<Longrightarrow> i \<le> k y" for ys
    using that by (induction ys) (fastforce simp: empty_filter_conv)+
  have rest: "dropWhile (\<lambda>x. k x = i) ys = [] \<longleftrightarrow> \<not> (\<exists>x \<in> set ys. k x > i)" if "\<And>y. y \<in> set ys \<Longrightarrow> i \<le> k y" for ys
    using that by (induction ys) (auto simp: less_le)
  have "takeWhile (\<lambda>x. k x = i) (dropWhile (\<lambda>x. k x \<noteq> i) xs) = filter (\<lambda>x. k x = i) xs \<and>
    (dropWhile (\<lambda>x. k x = i) (dropWhile (\<lambda>x. k x \<noteq> i) xs) = [] \<longleftrightarrow> \<not> ((\<exists>x \<in> set xs. k x = i) \<and> (\<exists>x \<in> set xs. k x > i)))"
    using assms
  proof (induction xs)
    case (Cons x xs)
    show ?case
    proof (cases "k x = i")
      case True
      then have "\<And>y. y \<in> set (x # xs) \<Longrightarrow> i \<le> k y" using Cons.prems by auto
      with run [OF Cons.prems this] rest [of "x # xs"] True show ?thesis by auto
    next
      case False
      have "k x \<le> k y" if "y \<in> set xs" for y using Cons.prems that by simp
      then have "(\<exists>y \<in> set (x # xs). k y = i) \<and> (\<exists>y \<in> set (x # xs). k y > i) \<longleftrightarrow>
          (\<exists>y \<in> set xs. k y = i) \<and> (\<exists>y \<in> set xs. k y > i)"
        using False by (auto dest: leD)
      with Cons False show ?thesis by simp
    qed
  qed simp
  then show "takeWhile (\<lambda>x. k x = i) (dropWhile (\<lambda>x. k x \<noteq> i) xs) = filter (\<lambda>x. k x = i) xs"
    "dropWhile (\<lambda>x. k x = i) (dropWhile (\<lambda>x. k x \<noteq> i) xs) = [] \<longleftrightarrow> \<not> ((\<exists>x \<in> set xs. k x = i) \<and> (\<exists>x \<in> set xs. k x > i))"
    by blast+
qed

lemma balances_by_account_sorted: "sorted_wrt (\<lambda>x y. bal_owner (snd x) \<le> bal_owner (snd y)) (balances_by_account d)"
proof -
  have "weak_order_on (set (entries (balances d))) (\<lambda>x y. bal_owner (snd x) < bal_owner (snd y))"
    by (auto simp: weak_order_on_def)
  from sorted_sort_by [OF this] show ?thesis by (simp add: balances_by_account_def sorted_by_def not_less)
qed

text \<open>
  The balances of an account are those of its balance objects in the assets asked for, but only if it has one at all and an
  account with a greater id has one too: otherwise the loop reads past the end of the index.
\<close>

theorem get_account_balances_reads_past_end:
  "get_account_balances i w d =
     (if (\<exists>x \<in> set (entries (balances d)). bal_owner (snd x) = i) \<and> (\<exists>x \<in> set (entries (balances d)). bal_owner (snd x) > i)
      then Some (map (\<lambda>x. mk_asset (bal_balance (snd x)) (bal_asset_type (snd x)))
        (filter (\<lambda>x. bal_owner (snd x) = i \<and> (w = [] \<or> bal_asset_type (snd x) \<in> set w)) (balances_by_account d)))
      else None)"
proof -
  have s: "set (balances_by_account d) = set (entries (balances d))" by (simp add: balances_by_account_def)
  show ?thesis
    unfolding get_account_balances_def collect_balances_run split_at_key [OF balances_by_account_sorted] s
    by (auto simp: conj_commute)
qed

theorem get_account_balances_reads_past_end_witness:
  "get_account_balances 1 [] sample_database \<noteq> None \<and> get_account_balances 9 [] sample_database = None"
proof
  have "\<exists>x \<in> set (entries (balances sample_database)). bal_owner (snd x) = 1" "\<exists>x \<in> set (entries (balances sample_database)). bal_owner (snd x) > 1"
    by code_simp+
  then show "get_account_balances 1 [] sample_database \<noteq> None" by (simp add: get_account_balances_reads_past_end)
  have "\<not> (\<exists>x \<in> set (entries (balances sample_database)). bal_owner (snd x) = 9)" by code_simp
  then show "get_account_balances 9 [] sample_database = None" by (simp add: get_account_balances_reads_past_end)
qed

subsection \<open>News of a market\<close>

lemma markets_of_None: "markets_of hs = None \<longleftrightarrow> (\<exists>h \<in> set hs. applied_market (oh_op h) = None)"
  by (induction hs) (auto split: Option.bind_splits)

lemma applied_market_None: "applied_market op = None \<longleftrightarrow> (\<exists>o'. op = Short_Order_Create_Op o')"
  by (cases op) auto


lemma zip_markets:
  "markets_of hs = Some ms \<Longrightarrow> map (\<lambda>(_, h). f h) (filter (\<lambda>(n, _). n = m) (zip ms hs)) =
     map f (filter (\<lambda>h. applied_market (oh_op h) = Some m) hs)"
  by (induction hs arbitrary: ms) (auto split: Option.bind_splits)

lemma market_news_is:
  assumes "on_applied_block s d = Some news" "market_subscriptions s \<noteq> []"
  shows "(m, xs) \<in> set news \<longleftrightarrow> m \<in> fst ` set (market_subscriptions s) \<and> xs \<noteq> [] \<and>
    xs = map (\<lambda>h. (oh_op h, oh_result h)) (filter (\<lambda>h. applied_market (oh_op h) = Some m) (applied_ops d))"
proof -
  obtain ms where ms: "markets_of (applied_ops d) = Some ms"
    and n: "news = filter (\<lambda>x. snd x \<noteq> []) (map (\<lambda>(m, _). (m, map (\<lambda>(_, h). (oh_op h, oh_result h))
      (filter (\<lambda>(n, _). n = m) (zip ms (applied_ops d))))) (market_subscriptions s))"
    using assms by (auto simp: on_applied_block_def split: Option.bind_splits)
  note z = zip_markets [OF ms, of "\<lambda>h. (oh_op h, oh_result h)"]
  show ?thesis unfolding n z by force
qed

text \<open>An object unsubscribed between its change and the broadcast leaves an empty function, at which every later broadcast stops.\<close>

lemma empty_function_stays:
  assumes "subscriptions s i = None" "exists_now i" "send_changes exists_now (i # ids) s = (xs, s')"
  shows "xs = [] \<and> on_objects_changed [i] s' = [i] \<and> send_changes exists_now (i # js) s' = ([], s')"
  using assms by (auto simp: on_objects_changed_def)

end
