(* ===== verification/Message_Cache.thy ===== *)
theory Message_Cache
  imports Prelude
begin

section \<open>The cache of messages that were relayed\<close>

text \<open>
  Models \<open>blockchain_tied_message_cache\<close> of \<^verbatim>\<open>libraries/net/node.cpp\<close>: the messages a node has relayed, kept by their hash
  so that peers can fetch them, with a clock that counts accepted blocks. The three indexes of the container are one
  list in the order of insertion, in which hashes are unique; equal contents are found in that order.

  A message is answered from the cache until the clock has advanced by more than \<open>cache_duration_in_blocks\<close>, and from
  then on no more. Caching the same message again does not extend its life.
\<close>

subsection \<open>The cache\<close>

record message_propagation_data =
  received_time :: int
  validated_time :: int
  originating_peer :: nat

record 'm message_info =
  message_hash :: nat
  message_body :: 'm
  block_clock_when_received :: nat
  propagation_data :: message_propagation_data
  message_contents_hash :: nat

record 'm cache =
  cached :: "'m message_info list"
  block_clock :: nat

definition cache_duration_in_blocks :: nat where
  "cache_duration_in_blocks = 2"

definition empty_cache :: "'m cache" where
  "empty_cache = \<lparr>cached = [], block_clock = 0\<rparr>"

text \<open>The clock is an \<open>uint32_t\<close>.\<close>

definition block_accepted :: "'m cache \<Rightarrow> 'm cache" where
  "block_accepted c = (let clock = (block_clock c + 1) mod 2 ^ 32 in
     if clock > cache_duration_in_blocks
     then c\<lparr>block_clock := clock, cached := filter (\<lambda>m. \<not> block_clock_when_received m < clock - cache_duration_in_blocks) (cached c)\<rparr>
     else c\<lparr>block_clock := clock\<rparr>)"

text \<open>Inserting a message whose hash is there already has no effect.\<close>

definition cache_message :: "'m \<Rightarrow> nat \<Rightarrow> message_propagation_data \<Rightarrow> nat \<Rightarrow> 'm cache \<Rightarrow> 'm cache" where
  "cache_message body h p contents c =
     (if h \<in> message_hash ` set (cached c) then c
      else c\<lparr>cached := cached c @ [\<lparr>message_hash = h, message_body = body, block_clock_when_received = block_clock c,
        propagation_data = p, message_contents_hash = contents\<rparr>]\<rparr>)"

definition cached_message :: "nat \<Rightarrow> 'm cache \<Rightarrow> 'm option" where
  "cached_message h c = map_option message_body (List.find (\<lambda>m. message_hash m = h) (cached c))"

definition get_message_propagation_data :: "nat \<Rightarrow> 'm cache \<Rightarrow> message_propagation_data option" where
  "get_message_propagation_data h c =
     (if h \<noteq> 0 then map_option propagation_data (List.find (\<lambda>m. message_contents_hash m = h) (cached c)) else None)"

subsection \<open>What is in the cache\<close>

text \<open>Hashes are unique, and what is cached is at most as many blocks old as the duration says.\<close>

definition relayed_ok :: "'m cache \<Rightarrow> bool" where
  "relayed_ok c \<longleftrightarrow> distinct (map message_hash (cached c)) \<and>
     (\<forall>m \<in> set (cached c). block_clock_when_received m \<le> block_clock c \<and>
        block_clock c \<le> block_clock_when_received m + cache_duration_in_blocks)"

lemma empty_relayed_ok: "relayed_ok empty_cache"
  by (simp add: relayed_ok_def empty_cache_def)

lemma cache_message_relayed_ok: "relayed_ok c \<Longrightarrow> relayed_ok (cache_message b h p ct c)"
  by (auto simp: relayed_ok_def cache_message_def)

lemma block_accepted_ok:
  assumes "relayed_ok c" "block_clock c + 1 < 2 ^ 32"
  shows "relayed_ok (block_accepted c)"
  using assms by (auto simp: relayed_ok_def block_accepted_def Let_def distinct_map_filter)

lemma find_filter: "List.find P (filter Q xs) = List.find (\<lambda>x. P x \<and> Q x) xs"
  by (induction xs) auto

lemma find_append: "List.find P (xs @ ys) = (case List.find P xs of None \<Rightarrow> List.find P ys | Some x \<Rightarrow> Some x)"
  by (induction xs) auto

lemma find_unique:
  assumes "distinct (map f xs)" "x \<in> set xs" "f x = k"
  shows "List.find (\<lambda>y. f y = k) xs = Some x"
  using assms by (induction xs) (auto simp: image_iff)

lemma find_none: "List.find P xs = None \<longleftrightarrow> (\<forall>x \<in> set xs. \<not> P x)"
  by (induction xs) auto

text \<open>The message of a hash and when it came.\<close>

definition holds :: "nat \<Rightarrow> 'm \<Rightarrow> nat \<Rightarrow> 'm cache \<Rightarrow> bool" where
  "holds h body t c \<longleftrightarrow> (\<exists>m \<in> set (cached c). message_hash m = h \<and> message_body m = body \<and> block_clock_when_received m = t)"

lemma holds_found: "relayed_ok c \<Longrightarrow> holds h body t c \<Longrightarrow> cached_message h c = Some body"
  using find_unique [of message_hash "cached c"] by (fastforce simp: relayed_ok_def holds_def cached_message_def)

subsection \<open>The life of a message\<close>

text \<open>What happens to a cache.\<close>

datatype 'm cache_event = Block_Accepted | Cache 'm nat message_propagation_data nat

fun cache_step :: "'m cache_event \<Rightarrow> 'm cache \<Rightarrow> 'm cache" where
  "cache_step Block_Accepted c = block_accepted c"
| "cache_step (Cache b h p ct) c = cache_message b h p ct c"

definition blocks_in :: "'m cache_event list \<Rightarrow> nat" where
  "blocks_in es = length (filter (\<lambda>e. case e of Block_Accepted \<Rightarrow> True | _ \<Rightarrow> False) es)"

fun caches :: "nat \<Rightarrow> 'm cache_event \<Rightarrow> bool" where
  "caches h (Cache b k p ct) = (k = h)"
| "caches h Block_Accepted = False"


text \<open>After some blocks the message is there with the time it came, or nothing of its hash.\<close>

definition aged :: "nat \<Rightarrow> 'm \<Rightarrow> nat \<Rightarrow> nat \<Rightarrow> 'm cache \<Rightarrow> bool" where
  "aged h body t k c \<longleftrightarrow> relayed_ok c \<and> block_clock c = t + k \<and>
     (if k \<le> cache_duration_in_blocks then holds h body t c else h \<notin> message_hash ` set (cached c))"

lemma aged_cache_other:
  assumes "aged h body t k c" "h' \<noteq> h"
  shows "aged h body t k (cache_message b h' p ct c)"
proof -
  have "relayed_ok (cache_message b h' p ct c)" using assms(1) cache_message_relayed_ok by (auto simp: aged_def)
  moreover have "block_clock (cache_message b h' p ct c) = block_clock c" by (simp add: cache_message_def)
  moreover have "holds h body t c \<Longrightarrow> holds h body t (cache_message b h' p ct c)"
    by (auto simp: holds_def cache_message_def)
  moreover have "h \<notin> message_hash ` set (cached c) \<Longrightarrow> h \<notin> message_hash ` set (cached (cache_message b h' p ct c))"
    using assms(2) by (auto simp: cache_message_def)
  ultimately show ?thesis using assms(1) by (auto simp: aged_def)
qed

lemma aged_block:
  assumes a: "aged h body t k c" and "t + k + 1 < 2 ^ 32"
  shows "aged h body t (k + 1) (block_accepted c)"
proof -
  have ok: "relayed_ok (block_accepted c)" using block_accepted_ok [of c] assms by (simp add: aged_def)
  have clock: "block_clock (block_accepted c) = t + (k + 1)"
    using assms by (simp add: aged_def block_accepted_def Let_def)
  have keeps: "m \<in> set (cached (block_accepted c)) \<Longrightarrow> m \<in> set (cached c) \<and> t + (k + 1) \<le> block_clock_when_received m + cache_duration_in_blocks" for m
    using ok clock by (auto simp: relayed_ok_def block_accepted_def Let_def split: if_splits)
  show ?thesis
  proof (cases "k + 1 \<le> cache_duration_in_blocks")
    case True
    then have "holds h body t c" using a by (simp add: aged_def)
    then have "holds h body t (block_accepted c)" using True a assms(2)
      by (auto simp: holds_def block_accepted_def Let_def aged_def)
    with ok clock True show ?thesis by (simp add: aged_def)
  next
    case False
    have "h \<notin> message_hash ` set (cached (block_accepted c))"
    proof
      assume "h \<in> message_hash ` set (cached (block_accepted c))"
      then obtain m where m: "m \<in> set (cached (block_accepted c))" "message_hash m = h" by auto
      note o = keeps [OF m(1)]
      show False
      proof (cases "k \<le> cache_duration_in_blocks")
        case True
        then obtain m' where "m' \<in> set (cached c)" "message_hash m' = h" "block_clock_when_received m' = t"
          using a by (auto simp: aged_def holds_def)
        moreover have "inj_on message_hash (set (cached c))" using a by (auto simp: aged_def relayed_ok_def distinct_map)
        ultimately have "block_clock_when_received m = t" using o m(2) by (metis inj_onD)
        with o False show False by simp
      next
        case False
        then show False using a o m(2) by (auto simp: aged_def)
      qed
    qed
    with ok clock False show ?thesis by (simp add: aged_def)
  qed
qed

lemma aged_steps:
  assumes "aged h body t 0 c" "t + blocks_in es < 2 ^ 32" "\<forall>e \<in> set es. \<not> caches h e"
  shows "aged h body t (blocks_in es) (fold cache_step es c)"
  using assms(2,3)
proof (induction es rule: rev_induct)
  case Nil
  then show ?case using assms(1) by (simp add: blocks_in_def)
next
  case (snoc e es)
  then have a: "aged h body t (blocks_in es) (fold cache_step es c)" by (simp add: blocks_in_def)
  with snoc.prems show ?case by (cases e) (auto simp: blocks_in_def intro: aged_block [simplified] aged_cache_other)
qed

text \<open>
  C38. A message that was not in the cache is answered from it after it was cached until two more blocks were accepted, whatever
  else is cached meanwhile, and no longer once there were more than two.
\<close>

theorem cached_message_lives_two_blocks:
  assumes "relayed_ok c" "cached_message h c = None" "block_clock c + blocks_in es < 2 ^ 32" "\<forall>e \<in> set es. \<not> caches h e"
  shows "cached_message h (fold cache_step es (cache_message body h p ct c)) = (if blocks_in es \<le> 2 then Some body else None)"
proof -
  have new: "h \<notin> message_hash ` set (cached c)" using assms(2) by (auto simp: cached_message_def find_none)
  then have "aged h body (block_clock c) 0 (cache_message body h p ct c)"
    using cache_message_relayed_ok [OF assms(1), of body h p ct] by (auto simp: aged_def holds_def cache_message_def)
  from aged_steps [OF this assms(3,4)] show ?thesis
    by (auto simp: aged_def cache_duration_in_blocks_def holds_found) (auto simp: cached_message_def find_none)
qed

definition sample_propagation :: message_propagation_data where
  "sample_propagation = \<lparr>received_time = 0, validated_time = 0, originating_peer = 1\<rparr>"

definition sample_relayed :: "string cache_event list" where
  "sample_relayed = [Block_Accepted, Cache ''other'' 5 sample_propagation 9, Block_Accepted]"

theorem cached_message_lives_two_blocks_witness:
  "cached_message 7 (fold cache_step sample_relayed (cache_message ''block'' 7 sample_propagation 8 empty_cache)) = Some ''block'' \<and>
   cached_message 7 (fold cache_step (sample_relayed @ [Block_Accepted]) (cache_message ''block'' 7 sample_propagation 8 empty_cache)) = None"
  using cached_message_lives_two_blocks [OF empty_relayed_ok, of 7 sample_relayed "''block''" sample_propagation 8]
    cached_message_lives_two_blocks [OF empty_relayed_ok, of 7 "sample_relayed @ [Block_Accepted]" "''block''" sample_propagation 8]
  by (simp add: sample_relayed_def blocks_in_def empty_cache_def cached_message_def)

end
