(* ===== verification/Peers.thy ===== *)
theory Peers
  imports Message_Cache Chain_Types
begin

section \<open>Connections and what a node keeps of them\<close>

text \<open>
  Models the state of a node of the network and of its connections (\<^verbatim>\<open>libraries/net/node.cpp\<close>,
  \<^verbatim>\<open>libraries/net/peer_connection.cpp\<close>) as far as blocks and transactions are exchanged. The sets of handshaking, active, closing and
  terminating connections are one list with a field; the order of the list stands for the order of the
  hash sets. Sets and maps are lists, hashes and ids are numbers, 0 the null hash.

  The node's tasks do not yield in the parts modelled, so a handler is one function; what it sends is appended to an outbox, and
  waking another task sets a flag. The client, which is the abstract class \<open>node_delegate\<close>, is a record of functions. Logging is left out.
\<close>

subsection \<open>Messages\<close>

text \<open>An item: its type and its hash.\<close>

type_synonym net_item = "nat \<times> nat"

definition trx_message_type :: nat where "trx_message_type = 1000"
definition block_message_type :: nat where "block_message_type = 1001"

text \<open>What the node reads of a block message.\<close>

record block_message =
  bm_block_id :: nat
  bm_block_num :: nat
  bm_timestamp :: int

datatype wire =
    Block_Msg block_message
  | Trx_Msg nat
  | Fetch_Items_Msg nat "nat list"
  | Fetch_Item_Ids_Msg nat "nat list"
  | Blockchain_Inventory_Msg nat nat "nat list"
  | Inventory_Msg nat "nat list"
  | Item_Not_Available_Msg net_item
  | Closing_Msg bool
  | Time_Request_Msg
  | Connection_Accepted_Msg
  | Connection_Rejected_Msg nat
  | Address_Request_Msg
  | Address_Msg "nat list"
  | Queued_Item net_item

text \<open>What the client does with a message: it accepts it, or throws one of the exceptions that are told apart.\<close>

datatype verdict = Accepted | Too_Old | Low_Fee | Refused

record client =
  cl_has_item :: "net_item \<Rightarrow> bool"
  cl_block_time :: "nat \<Rightarrow> int"
  cl_block_number :: "nat \<Rightarrow> nat"
  cl_synopsis :: "nat \<Rightarrow> nat \<Rightarrow> nat \<Rightarrow> nat list"
  cl_item_ids :: "nat \<Rightarrow> nat list \<Rightarrow> nat list \<times> nat"
  cl_item :: "net_item \<Rightarrow> wire option"
  cl_now :: int
  cl_head_block_id :: nat
  cl_estimate_last_known_fork :: "int \<Rightarrow> nat"
  cl_message_hash :: "wire \<Rightarrow> nat"

subsection \<open>Connections\<close>

datatype connection_list = Handshaking | Active | Closing | Terminating

datatype connection_state = Disconnected | Just_Connected | Connection_Accepted | Connection_Rejected

record peer =
  pc_id :: nat
  pc_list :: connection_list
  is_inbound :: bool
  our_state :: connection_state
  their_state :: connection_state
  pc_node_id :: nat
  they_have_requested_close :: bool
  we_have_requested_close :: bool
  connection_initiation_time :: int
  last_message_received_time :: int
  last_message_sent_time :: int
  connection_closed_time :: int
  connection_terminated_time :: int
  ids_of_items_to_get :: "nat list"
  ids_of_items_being_processed :: "nat list"
  number_of_unfetched_item_ids :: nat
  peer_needs_sync_items_from_us :: bool
  we_need_sync_items_from_peer :: bool
  item_ids_requested_from_peer :: "(net_item \<times> int) option"
  sync_items_requested_from_peer :: "(nat \<times> int) list"
  last_block_number_delegate_has_seen :: nat
  last_block_delegate_has_seen :: nat
  last_block_time_delegate_has_seen :: int
  inhibit_fetching_sync_blocks :: bool
  inventory_peer_advertised_to_us :: "(net_item \<times> int) list"
  inventory_advertised_to_peer :: "(net_item \<times> int) list"
  items_requested_from_peer :: "(net_item \<times> int) list"
  transaction_fetching_inhibited_until :: int
  last_known_fork_block_number :: nat

definition busy :: "peer \<Rightarrow> bool" where
  "busy p \<longleftrightarrow> items_requested_from_peer p \<noteq> [] \<or> sync_items_requested_from_peer p \<noteq> [] \<or> item_ids_requested_from_peer p \<noteq> None"

definition idle :: "peer \<Rightarrow> bool" where
  "idle p \<longleftrightarrow> \<not> busy p"

text \<open>Times are in whole seconds; a transaction is not fetched before the time given.\<close>

definition is_transaction_fetching_inhibited :: "int \<Rightarrow> peer \<Rightarrow> bool" where
  "is_transaction_fetching_inhibited now p \<longleftrightarrow> transaction_fetching_inhibited_until p > now"

definition BTS_NET_MAX_INVENTORY_SIZE_IN_MINUTES :: int where "BTS_NET_MAX_INVENTORY_SIZE_IN_MINUTES = 2"
definition BTS_NET_MAX_TRX_PER_SECOND :: int where "BTS_NET_MAX_TRX_PER_SECOND = 1000"

definition clear_old_inventory :: "int \<Rightarrow> peer \<Rightarrow> peer" where
  "clear_old_inventory now p = (let oldest = now - BTS_NET_MAX_INVENTORY_SIZE_IN_MINUTES * 60 in
     p\<lparr>inventory_advertised_to_peer := filter (\<lambda>x. snd x \<ge> oldest) (inventory_advertised_to_peer p),
       inventory_peer_advertised_to_us := filter (\<lambda>x. snd x \<ge> oldest) (inventory_peer_advertised_to_us p)\<rparr>)"

definition is_inventory_advertised_to_us_list_full_for_transactions :: "peer \<Rightarrow> bool" where
  "is_inventory_advertised_to_us_list_full_for_transactions p \<longleftrightarrow> int (length (inventory_peer_advertised_to_us p)) >
     BTS_NET_MAX_INVENTORY_SIZE_IN_MINUTES * BTS_NET_MAX_TRX_PER_SECOND * 60"

definition is_inventory_advertised_to_us_list_full :: "peer \<Rightarrow> bool" where
  "is_inventory_advertised_to_us_list_full p \<longleftrightarrow> int (length (inventory_peer_advertised_to_us p)) >
     BTS_NET_MAX_INVENTORY_SIZE_IN_MINUTES * BTS_NET_MAX_TRX_PER_SECOND * 60 +
     (BTS_NET_MAX_INVENTORY_SIZE_IN_MINUTES + 1) * 60 div BTS_MAX_BLOCK_INTERVAL"

text \<open>Insertion in a map or a set with unique keys: what is there stays.\<close>

definition insert_new :: "'k \<Rightarrow> 'v \<Rightarrow> ('k \<times> 'v) list \<Rightarrow> ('k \<times> 'v) list" where
  "insert_new k v xs = (if k \<in> fst ` set xs then xs else xs @ [(k, v)])"

definition erase_key :: "'k \<Rightarrow> ('k \<times> 'v) list \<Rightarrow> ('k \<times> 'v) list" where
  "erase_key k xs = filter (\<lambda>x. fst x \<noteq> k) xs"

lemma keys_insert_new [simp]: "fst ` set (insert_new k v xs) = insert k (fst ` set xs)"
  by (auto simp: insert_new_def)

lemma keys_erase_key [simp]: "fst ` set (erase_key k xs) = fst ` set xs - {k}"
  by (auto simp: erase_key_def)

subsection \<open>The node\<close>

text \<open>The tasks that hand a block to the client and are not done yet are listed by their block.\<close>

record node =
  peers :: "peer list"
  active_sync_requests :: "(nat \<times> int) list"
  new_received_sync_items :: "block_message list"
  received_sync_items :: "block_message list"
  handle_message_calls_in_progress :: "block_message list"
  suspend_fetching_sync_blocks :: bool
  most_recent_blocks_accepted :: "nat list"
  blocks_accepted_capacity :: nat
  total_number_of_unfetched_items :: int
  maximum_number_of_blocks_to_handle_at_one_time :: nat
  maximum_number_of_sync_blocks_to_prefetch :: nat
  maximum_blocks_per_peer_during_syncing :: nat
  peer_inactivity_timeout :: int
  maximum_number_of_connections :: nat
  my_node_id :: nat
  my_chain_id :: nat
  peer_advertising_disabled :: bool
  hard_fork_block_numbers :: "nat list"
  sync_item_type :: nat
  items_to_fetch :: "(net_item \<times> int) list"
  items_to_fetch_sequence_counter :: int
  new_inventory :: "net_item list"
  message_cache :: "wire cache"
  sync_items_to_fetch_updated :: bool
  items_to_fetch_updated :: bool
  process_backlog_scheduled :: bool
  outbox :: "(nat \<times> wire) list"

definition find_peer :: "nat \<Rightarrow> node \<Rightarrow> peer option" where
  "find_peer i n = List.find (\<lambda>p. pc_id p = i) (peers n)"

definition upd_peer :: "nat \<Rightarrow> (peer \<Rightarrow> peer) \<Rightarrow> node \<Rightarrow> node" where
  "upd_peer i f n = n\<lparr>peers := map (\<lambda>p. if pc_id p = i then f p else p) (peers n)\<rparr>"

definition active_connections :: "node \<Rightarrow> peer list" where
  "active_connections n = filter (\<lambda>p. pc_list p = Active) (peers n)"

definition upd_active :: "(peer \<Rightarrow> peer) \<Rightarrow> node \<Rightarrow> node" where
  "upd_active f n = n\<lparr>peers := map (\<lambda>p. if pc_list p = Active then f p else p) (peers n)\<rparr>"

definition send_message :: "nat \<Rightarrow> wire \<Rightarrow> node \<Rightarrow> node" where
  "send_message i m n = n\<lparr>outbox := outbox n @ [(i, m)]\<rparr>"

definition trigger_fetch_sync_items_loop :: "node \<Rightarrow> node" where
  "trigger_fetch_sync_items_loop n = n\<lparr>sync_items_to_fetch_updated := True\<rparr>"

definition trigger_fetch_items_loop :: "node \<Rightarrow> node" where
  "trigger_fetch_items_loop n = n\<lparr>items_to_fetch_updated := True\<rparr>"

definition trigger_process_backlog :: "node \<Rightarrow> node" where
  "trigger_process_backlog n = n\<lparr>process_backlog_scheduled := True\<rparr>"

text \<open>\<open>boost::circular_buffer::push_back\<close>: the oldest entry goes when the buffer is full.\<close>

definition remember_block :: "nat \<Rightarrow> node \<Rightarrow> node" where
  "remember_block b n = n\<lparr>most_recent_blocks_accepted :=
     (let xs = most_recent_blocks_accepted n @ [b] in drop (length xs - blocks_accepted_capacity n) xs)\<rparr>"

text \<open>
  \<open>disconnect_from_peer\<close>. A connection whose other end has asked to close is closed at once: that happens in
  \<open>on_connection_closed\<close> later. \<open>close_connection\<close> sets the time of the termination only if it is set already.
\<close>

definition time_min :: int where "time_min = - (2 ^ 63)"

definition close_connection :: "int \<Rightarrow> peer \<Rightarrow> peer" where
  "close_connection now p =
     (if connection_terminated_time p \<noteq> time_min then p\<lparr>connection_terminated_time := now\<rparr> else p)"

definition disconnect_from_peer :: "int \<Rightarrow> bool \<Rightarrow> nat \<Rightarrow> node \<Rightarrow> node" where
  "disconnect_from_peer now caused_by_error i n =
     (case find_peer i n of None \<Rightarrow> n
      | Some p \<Rightarrow> let n1 = upd_peer i (\<lambda>p. p\<lparr>pc_list := Closing\<rparr>) n in
          if they_have_requested_close p then upd_peer i (close_connection now) n1
          else send_message i (Closing_Msg caused_by_error)
            (upd_peer i (\<lambda>p. p\<lparr>we_have_requested_close := True, connection_closed_time := now\<rparr>) n1))"

definition is_hard_fork_block :: "nat \<Rightarrow> node \<Rightarrow> bool" where
  "is_hard_fork_block k n \<longleftrightarrow> k \<in> set (hard_fork_block_numbers n)"

text \<open>The list of hard forks is sorted; 0 if there is none later.\<close>

definition get_next_known_hard_fork_block_number :: "nat \<Rightarrow> node \<Rightarrow> nat" where
  "get_next_known_hard_fork_block_number k n =
     (case List.find (\<lambda>j. j > k) (hard_fork_block_numbers n) of None \<Rightarrow> 0 | Some j \<Rightarrow> j)"

definition too_old_for_fork :: "nat \<Rightarrow> node \<Rightarrow> peer \<Rightarrow> bool" where
  "too_old_for_fork k n p \<longleftrightarrow> is_hard_fork_block k n \<and> last_known_fork_block_number p \<noteq> 0 \<and>
     (let next_fork = get_next_known_hard_fork_block_number (last_known_fork_block_number p) n in next_fork \<noteq> 0 \<and> next_fork \<le> k)"

definition calculate_unsynced_block_count_from_all_peers :: "node \<Rightarrow> nat" where
  "calculate_unsynced_block_count_from_all_peers n =
     fold max (map (\<lambda>p. length (ids_of_items_to_get p) + number_of_unfetched_item_ids p) (active_connections n)) 0"

end
