(* ===== verification/Download.thy ===== *)
theory Download
  imports Peers
begin

section \<open>Downloading the blocks of other nodes\<close>

text \<open>
  Models the synchronisation of \<^verbatim>\<open>libraries/net/node.cpp\<close>: asking a peer for the ids of the blocks it has after a synopsis of one's own chain,
  distributing the blocks among the peers that offer them, keeping those that arrive until their turn, handing them to
  the client and acting on its verdict. Block numbers and counts stay below \<open>2 ^ 32\<close>.

  Every handler here keeps the account of the requests that are out: each is listed with exactly one
  connection and with the node, except for those the other end said it cannot serve.
\<close>

subsection \<open>Asking for ids\<close>

text \<open>The block numbers of a synopsis that ends at \<open>high\<close>: the loop \<open>do ... while\<close>.\<close>

function synopsis_steps :: "nat \<Rightarrow> nat \<Rightarrow> nat list" where
  "synopsis_steps low high = low # (let next_low = low + (high + 2 - low) div 2 in
     if low < next_low \<and> next_low \<le> high then synopsis_steps next_low high else [])"
  by pat_completeness auto
termination by (relation "measure (\<lambda>(low, high). high - low)") auto

declare synopsis_steps.simps [simp del]

definition create_blockchain_synopsis_for_peer :: "client \<Rightarrow> node \<Rightarrow> peer \<Rightarrow> nat list" where
  "create_blockchain_synopsis_for_peer cl n p =
     (let reference_point_block_num = last_block_number_delegate_has_seen p;
          k = length (ids_of_items_to_get p);
          synopsis = cl_synopsis cl (sync_item_type n) (last_block_delegate_has_seen p) k
      in if k \<noteq> 0 then synopsis @ map (\<lambda>low. ids_of_items_to_get p ! (low - reference_point_block_num - 1))
             (filter (\<lambda>low. low > reference_point_block_num) (synopsis_steps 1 (reference_point_block_num + k)))
         else synopsis)"

definition reset_fork_tracking :: "client \<Rightarrow> peer \<Rightarrow> peer" where
  "reset_fork_tracking cl p = p\<lparr>last_block_delegate_has_seen := 0, last_block_number_delegate_has_seen := 0,
     last_block_time_delegate_has_seen := cl_block_time cl 0\<rparr>"

definition fetch_next_batch_of_item_ids_from_peer :: "client \<Rightarrow> int \<Rightarrow> nat \<Rightarrow> bool \<Rightarrow> node \<Rightarrow> node" where
  "fetch_next_batch_of_item_ids_from_peer cl now i reset_fork_tracking_data n =
     (let n0 = (if reset_fork_tracking_data then upd_peer i (reset_fork_tracking cl) n else n) in
      case find_peer i n0 of None \<Rightarrow> n0
      | Some p \<Rightarrow> let synopsis = create_blockchain_synopsis_for_peer cl n0 p;
            last_item_seen = (if synopsis = [] then 0 else last synopsis) in
          send_message i (Fetch_Item_Ids_Msg (sync_item_type n0) synopsis)
            (upd_peer i (\<lambda>p. p\<lparr>item_ids_requested_from_peer := Some ((sync_item_type n0, last_item_seen), now)\<rparr>) n0))"

definition start_synchronizing_with_peer :: "client \<Rightarrow> int \<Rightarrow> nat \<Rightarrow> node \<Rightarrow> node" where
  "start_synchronizing_with_peer cl now i n = fetch_next_batch_of_item_ids_from_peer cl now i False
     (upd_peer i (\<lambda>p. (reset_fork_tracking cl p)\<lparr>ids_of_items_to_get := [], number_of_unfetched_item_ids := 0,
        we_need_sync_items_from_peer := True, inhibit_fetching_sync_blocks := False\<rparr>) n)"

definition new_peer_just_added :: "client \<Rightarrow> int \<Rightarrow> nat \<Rightarrow> node \<Rightarrow> node" where
  "new_peer_just_added cl now i n = start_synchronizing_with_peer cl now i (send_message i Time_Request_Msg n)"

definition start_synchronizing :: "client \<Rightarrow> int \<Rightarrow> node \<Rightarrow> node" where
  "start_synchronizing cl now n = fold (\<lambda>p. start_synchronizing_with_peer cl now (pc_id p)) (active_connections n) n"

subsection \<open>Answering with ids\<close>

text \<open>
  A peer whose newest block is unknown here is synchronised with again. A peer that is handshaking becomes active
  when it first asks (inbound connections only).
\<close>

definition on_fetch_blockchain_item_ids :: "client \<Rightarrow> int \<Rightarrow> nat \<Rightarrow> nat \<Rightarrow> nat list \<Rightarrow> node \<Rightarrow> node" where
  "on_fetch_blockchain_item_ids cl now i item_type synopsis n =
     (case find_peer i n of None \<Rightarrow> n
      | Some p \<Rightarrow>
          let (available, remaining) = cl_item_ids cl item_type synopsis;
              in_sync = (available = [] \<or> synopsis \<noteq> [] \<and> length available = 1 \<and> last available \<in> set synopsis);
              disconnect = (available \<noteq> [] \<and> in_sync \<and> inhibit_fetching_sync_blocks p);
              n1 = upd_peer i (\<lambda>p. p\<lparr>peer_needs_sync_items_from_us := \<not> in_sync\<rparr>) n;
              n2 = (if \<not> we_need_sync_items_from_peer p \<and> synopsis \<noteq> [] \<and> \<not> cl_has_item cl (item_type, last synopsis)
                    then start_synchronizing_with_peer cl now i n1 else n1);
              n3 = send_message i (Blockchain_Inventory_Msg remaining item_type available) n2
          in if disconnect then disconnect_from_peer now False i n3
             else if is_inbound p \<and> pc_list p = Handshaking
             then new_peer_just_added cl now i (upd_peer i (\<lambda>p. p\<lparr>pc_list := Active\<rparr>) n3)
             else n3)"

subsection \<open>Receiving ids\<close>

definition BTS_NET_FUTURE_SYNC_BLOCKS_GRACE_PERIOD_SEC :: int where
  "BTS_NET_FUTURE_SYNC_BLOCKS_GRACE_PERIOD_SEC = 3600"

definition BTS_NET_MIN_BLOCK_IDS_TO_PREFETCH :: int where "BTS_NET_MIN_BLOCK_IDS_TO_PREFETCH = 10000"

definition seen_block :: "client \<Rightarrow> nat \<Rightarrow> nat \<Rightarrow> peer \<Rightarrow> peer" where
  "seen_block cl b k p = p\<lparr>last_block_delegate_has_seen := b, last_block_number_delegate_has_seen := k,
     last_block_time_delegate_has_seen := cl_block_time cl b\<rparr>"

text \<open>The ids at the front that the client knows are dropped, each moving the record of what it has seen.\<close>

fun skip_known :: "client \<Rightarrow> nat \<Rightarrow> nat list \<Rightarrow> peer \<Rightarrow> nat list \<times> peer" where
  "skip_known cl t [] p = ([], p)"
| "skip_known cl t (h # hs) p =
     (if cl_has_item cl (t, h) then skip_known cl t hs (seen_block cl h (last_block_number_delegate_has_seen p + 1) p)
      else (h # hs, p))"

text \<open>
  A list that follows an earlier one starts with the last id of that; if the peer has switched to another fork what the old list
  has after the first id of the new one is dropped.
\<close>

definition join_lists :: "client \<Rightarrow> nat list \<Rightarrow> peer \<Rightarrow> nat list \<times> peer" where
  "join_lists cl ids p =
     (let kept = rev (dropWhile (\<lambda>x. x \<noteq> hd ids) (rev (ids_of_items_to_get p))) in
      if kept = [] then (tl ids, seen_block cl (hd ids) (cl_block_number cl (hd ids)) (p\<lparr>ids_of_items_to_get := []\<rparr>))
      else (ids, p\<lparr>ids_of_items_to_get := butlast kept\<rparr>))"

text \<open>What is appended to the list of the peer: without the duplicate in the common case.\<close>

definition take_over_ids :: "client \<Rightarrow> node \<Rightarrow> nat \<Rightarrow> nat \<Rightarrow> nat \<Rightarrow> nat list \<Rightarrow> peer \<Rightarrow> peer" where
  "take_over_ids cl n t remaining i ids p =
     (let p0 = p\<lparr>number_of_unfetched_item_ids := remaining\<rparr>;
          (new_ids, p1) =
            (if ids = [] then (ids, p0)
             else if ids_of_items_to_get p0 = [] then
               (if \<exists>q \<in> set (active_connections n). pc_id q \<noteq> i \<and> ids_of_items_to_get q \<noteq> [] \<and> hd (ids_of_items_to_get q) = hd ids
                then (ids, p0) else skip_known cl t ids p0)
             else join_lists cl ids p0)
      in p1\<lparr>ids_of_items_to_get := ids_of_items_to_get p1 @ new_ids\<rparr>)"

text \<open>Seconds are added in 32 bits.\<close>

definition minimum_time_of_last_offered_block :: "peer \<Rightarrow> int" where
  "minimum_time_of_last_offered_block p =
     uint32 (last_block_time_delegate_has_seen p + uint32 (int (number_of_unfetched_item_ids p) * BTS_MAX_BLOCK_INTERVAL))"

definition on_blockchain_item_ids_inventory :: "client \<Rightarrow> int \<Rightarrow> nat \<Rightarrow> nat \<Rightarrow> nat \<Rightarrow> nat list \<Rightarrow> node \<Rightarrow> node" where
  "on_blockchain_item_ids_inventory cl now i remaining t ids n =
     (case find_peer i n of None \<Rightarrow> n
      | Some p \<Rightarrow>
          if item_ids_requested_from_peer p = None then n
          else let n0 = upd_peer i (\<lambda>p. p\<lparr>item_ids_requested_from_peer := None\<rparr>) n in
            if remaining = 0 \<and> (ids = [] \<or> length ids = 1 \<and> cl_has_item cl (t, hd ids)) \<and>
               ids_of_items_to_get p = [] \<and> number_of_unfetched_item_ids p = 0
            then let n1 = upd_peer i (\<lambda>p. p\<lparr>we_need_sync_items_from_peer := False\<rparr>) n0 in
              n1\<lparr>total_number_of_unfetched_items := int (calculate_unsynced_block_count_from_all_peers n1)\<rparr>
            else let n1 = upd_peer i (take_over_ids cl n0 t remaining i ids) n0;
                p1 = take_over_ids cl n0 t remaining i ids (p\<lparr>item_ids_requested_from_peer := None\<rparr>) in
              if minimum_time_of_last_offered_block p1 > uint32 (cl_now cl + BTS_NET_FUTURE_SYNC_BLOCKS_GRACE_PERIOD_SEC)
              then disconnect_from_peer now True i n1
              else let n2 = n1\<lparr>total_number_of_unfetched_items := int (calculate_unsynced_block_count_from_all_peers n1)\<rparr> in
                if remaining \<noteq> 0 \<and> int (length (ids_of_items_to_get p1)) > BTS_NET_MIN_BLOCK_IDS_TO_PREFETCH \<or>
                   remaining = 0 \<and> ids_of_items_to_get p1 \<noteq> []
                then trigger_fetch_sync_items_loop n2
                else fetch_next_batch_of_item_ids_from_peer cl now i False n2)"


subsection \<open>Asking for blocks\<close>

definition have_already_received_sync_item :: "nat \<Rightarrow> node \<Rightarrow> bool" where
  "have_already_received_sync_item h n \<longleftrightarrow>
     h \<in> bm_block_id ` set (received_sync_items n) \<or> h \<in> bm_block_id ` set (new_received_sync_items n)"

definition request_sync_item_from_peer :: "int \<Rightarrow> nat \<Rightarrow> nat \<Rightarrow> node \<Rightarrow> node" where
  "request_sync_item_from_peer now i h n = send_message i (Fetch_Items_Msg block_message_type [h])
     (upd_peer i (\<lambda>p. p\<lparr>sync_items_requested_from_peer := insert_new h now (sync_items_requested_from_peer p)\<rparr>)
       (n\<lparr>active_sync_requests := insert_new h now (active_sync_requests n)\<rparr>))"

definition request_sync_items_from_peer :: "int \<Rightarrow> nat \<Rightarrow> nat list \<Rightarrow> node \<Rightarrow> node" where
  "request_sync_items_from_peer now i items n = send_message i (Fetch_Items_Msg block_message_type items)
     (upd_peer i (\<lambda>p. p\<lparr>sync_items_requested_from_peer := fold (\<lambda>h. insert_new h now) items (sync_items_requested_from_peer p)\<rparr>)
       (n\<lparr>active_sync_requests := fold (\<lambda>h. insert_new h now) items (active_sync_requests n)\<rparr>))"

text \<open>
  The items to request of one peer: those not excluded, each once, in the order of its list, at most as many as the limit (at least
  one, since the limit is tested after an item was taken).
\<close>

fun pick_items :: "nat \<Rightarrow> (nat \<Rightarrow> bool) \<Rightarrow> nat list \<Rightarrow> nat list \<Rightarrow> nat list" where
  "pick_items limit excluded picked [] = picked"
| "pick_items limit excluded picked (h # hs) =
     (if \<not> excluded h \<and> h \<notin> set picked
      then if length (picked @ [h]) \<ge> limit then picked @ [h] else pick_items limit excluded (picked @ [h]) hs
      else pick_items limit excluded picked hs)"

text \<open>The requests of one round, for the peers in turn; \<open>taken\<close> is what was scheduled for earlier ones.\<close>

fun schedule_requests :: "node \<Rightarrow> nat list \<Rightarrow> peer list \<Rightarrow> (nat \<times> nat list) list" where
  "schedule_requests n taken [] = []"
| "schedule_requests n taken (p # ps) =
     (if we_need_sync_items_from_peer p \<and> idle p \<and> \<not> inhibit_fetching_sync_blocks p
      then let items = pick_items (maximum_blocks_per_peer_during_syncing n)
               (\<lambda>h. have_already_received_sync_item h n \<or> h \<in> set taken \<or> h \<in> fst ` set (active_sync_requests n))
               [] (ids_of_items_to_get p) in
        (if items = [] then [] else [(pc_id p, items)]) @ schedule_requests n (taken @ items) ps
      else schedule_requests n taken ps)"

text \<open>One iteration of \<open>fetch_sync_items_loop\<close>.\<close>

definition fetch_sync_items :: "int \<Rightarrow> node \<Rightarrow> node" where
  "fetch_sync_items now n =
     (let n0 = n\<lparr>sync_items_to_fetch_updated := False\<rparr> in
      if suspend_fetching_sync_blocks n0 then n0
      else fold (\<lambda>(i, items). request_sync_items_from_peer now i items) (schedule_requests n0 [] (active_connections n0)) n0)"

subsection \<open>Blocks that arrive\<close>

definition process_block_during_sync :: "block_message \<Rightarrow> node \<Rightarrow> node" where
  "process_block_during_sync b n = trigger_process_backlog (n\<lparr>new_received_sync_items := b # new_received_sync_items n\<rparr>)"

text \<open>A block that was requested from the peer for synchronisation (the second half of \<open>process_block_message\<close>).\<close>

definition receive_sync_block :: "client \<Rightarrow> int \<Rightarrow> nat \<Rightarrow> block_message \<Rightarrow> node \<Rightarrow> node" where
  "receive_sync_block cl now i b n =
     (let n1 = process_block_during_sync b
            ((upd_peer i (\<lambda>p. p\<lparr>sync_items_requested_from_peer := erase_key (bm_block_id b) (sync_items_requested_from_peer p)\<rparr>) n)
              \<lparr>active_sync_requests := erase_key (bm_block_id b) (active_sync_requests n)\<rparr>) in
      case find_peer i n1 of None \<Rightarrow> n1
      | Some p \<Rightarrow>
          if idle p then
            if number_of_unfetched_item_ids p > 0 \<and> int (length (ids_of_items_to_get p)) < BTS_NET_MIN_BLOCK_IDS_TO_PREFETCH
            then fetch_next_batch_of_item_ids_from_peer cl now i False n1
            else trigger_fetch_sync_items_loop n1
          else n1)"

text \<open>\<open>process_backlog_of_sync_blocks\<close>: a block is taken up when a peer lists it first.\<close>

definition offered_first :: "nat \<Rightarrow> peer \<Rightarrow> bool" where
  "offered_first h p \<longleftrightarrow> ids_of_items_to_get p \<noteq> [] \<and> hd (ids_of_items_to_get p) = h"

definition take_up :: "nat \<Rightarrow> peer \<Rightarrow> peer" where
  "take_up h p = (if offered_first h p
     then p\<lparr>ids_of_items_to_get := tl (ids_of_items_to_get p),
       ids_of_items_being_processed := (if h \<in> set (ids_of_items_being_processed p) then ids_of_items_being_processed p
         else ids_of_items_being_processed p @ [h])\<rparr>
     else p)"

definition next_in_line :: "node \<Rightarrow> block_message option" where
  "next_in_line n = List.find (\<lambda>b. \<exists>p \<in> set (active_connections n). offered_first (bm_block_id b) p) (received_sync_items n)"

text \<open>
  A block accepted already is not handed to the client again; it stays in the list and with the peers, and the loop ends.
\<close>

definition merge_new_blocks :: "node \<Rightarrow> node" where
  "merge_new_blocks n = n\<lparr>received_sync_items := rev (new_received_sync_items n) @ received_sync_items n, new_received_sync_items := []\<rparr>"

definition hand_over :: "block_message \<Rightarrow> node \<Rightarrow> node" where
  "hand_over b n = n\<lparr>received_sync_items := remove1 b (received_sync_items n),
     handle_message_calls_in_progress := handle_message_calls_in_progress n @ [b]\<rparr>"

lemma next_in_line_in: "next_in_line n = Some b \<Longrightarrow> b \<in> set (received_sync_items n)"
  by (auto simp: next_in_line_def find_Some_iff in_set_conv_nth)

function process_blocks :: "node \<Rightarrow> node" where
  "process_blocks n0 =
     (let n = merge_new_blocks n0;
          full = (\<lambda>n. length (handle_message_calls_in_progress n) \<ge> maximum_number_of_blocks_to_handle_at_one_time n);
          stop = (\<lambda>n. if length (received_sync_items n) \<ge> maximum_number_of_sync_blocks_to_prefetch n
            then n\<lparr>suspend_fetching_sync_blocks := True\<rparr> else n)
      in case next_in_line n of None \<Rightarrow> if full n then stop n else n
         | Some b \<Rightarrow> let n1 = upd_active (take_up (bm_block_id b)) n in
             if bm_block_id b \<in> set (most_recent_blocks_accepted n) then if full n1 then stop n1 else n1
             else let n2 = hand_over b n1 in if full n2 then stop n2 else process_blocks n2)"
  by pat_completeness auto

termination process_blocks
proof (relation "measure (\<lambda>n. length (received_sync_items n) + length (new_received_sync_items n))")
  fix n0 n full stop b n1 n2
  assume "n = merge_new_blocks n0" "next_in_line n = Some b" "n1 = upd_active (take_up (bm_block_id b)) n" "n2 = hand_over b n1"
  then have m: "b \<in> set (received_sync_items n)" "received_sync_items n2 = remove1 b (received_sync_items n)" "new_received_sync_items n2 = []"
    "length (received_sync_items n) = length (received_sync_items n0) + length (new_received_sync_items n0)"
    using next_in_line_in [of n b] by (simp_all add: merge_new_blocks_def upd_active_def hand_over_def)
  then show "(n2, n0) \<in> measure (\<lambda>n. length (received_sync_items n) + length (new_received_sync_items n))"
    using length_pos_if_in_set [OF m(1)] by (simp add: length_remove1)
qed auto

declare process_blocks.simps [simp del]

definition process_backlog_of_sync_blocks :: "node \<Rightarrow> node" where
  "process_backlog_of_sync_blocks n =
     (let n0 = n\<lparr>process_backlog_scheduled := False\<rparr> in
      if length (handle_message_calls_in_progress n0) \<ge> maximum_number_of_blocks_to_handle_at_one_time n0 then n0
      else let n1 = process_blocks (n0\<lparr>suspend_fetching_sync_blocks := False\<rparr>) in
        if suspend_fetching_sync_blocks n1 then n1 else trigger_fetch_sync_items_loop n1)"


subsection \<open>The verdict of the client\<close>

text \<open>
  What remains of \<open>send_sync_block_to_node_delegate\<close> when \<open>handle_block\<close> has returned or thrown. The peers are visited without
  yielding; what has to be sent is done afterwards: first the disconnects, then the requests for more ids, then the restarts.
\<close>

definition processed_by :: "block_message \<Rightarrow> node \<Rightarrow> peer \<Rightarrow> peer" where
  "processed_by b n p =
     (if \<not> too_old_for_fork (bm_block_num b) n p \<and> bm_block_id b \<in> set (ids_of_items_being_processed p)
      then p\<lparr>last_block_delegate_has_seen := bm_block_id b, last_block_number_delegate_has_seen := bm_block_num b,
        last_block_time_delegate_has_seen := bm_timestamp b,
        ids_of_items_being_processed := removeAll (bm_block_id b) (ids_of_items_being_processed p)\<rparr>
      else p)"

definition lists_empty :: "peer \<Rightarrow> bool" where
  "lists_empty p \<longleftrightarrow> ids_of_items_to_get p = [] \<and> ids_of_items_being_processed p = []"

definition needs_restart :: "block_message \<Rightarrow> node \<Rightarrow> peer \<Rightarrow> bool" where
  "needs_restart b n p \<longleftrightarrow> \<not> too_old_for_fork (bm_block_num b) n p \<and> lists_empty p \<and>
     \<not> peer_needs_sync_items_from_us p \<and> \<not> we_need_sync_items_from_peer p"

definition newly_empty :: "block_message \<Rightarrow> node \<Rightarrow> peer \<Rightarrow> bool" where
  "newly_empty b n p \<longleftrightarrow> \<not> too_old_for_fork (bm_block_num b) n p \<and> bm_block_id b \<in> set (ids_of_items_being_processed p) \<and>
     lists_empty (processed_by b n p) \<and> number_of_unfetched_item_ids p = 0"

definition active_where :: "(peer \<Rightarrow> bool) \<Rightarrow> node \<Rightarrow> nat list" where
  "active_where P n = map pc_id (filter P (active_connections n))"

definition after_accepted :: "client \<Rightarrow> int \<Rightarrow> block_message \<Rightarrow> node \<Rightarrow> node" where
  "after_accepted cl now b n0 =
     (let n = (remember_block (bm_block_id b) n0)\<lparr>total_number_of_unfetched_items := uint32 (total_number_of_unfetched_items n0 - 1)\<rparr>;
          n1 = upd_active (processed_by b n) n;
          n2 = fold (disconnect_from_peer now True) (active_where (too_old_for_fork (bm_block_num b) n) n) n1;
          n3 = fold (\<lambda>i. fetch_next_batch_of_item_ids_from_peer cl now i False) (active_where (newly_empty b n) n) n2
      in fold (start_synchronizing_with_peer cl now) (active_where (needs_restart b n) n) n3)"

definition after_refused :: "int \<Rightarrow> bool \<Rightarrow> block_message \<Rightarrow> node \<Rightarrow> node" where
  "after_refused now discontinue b n =
     (let offering = (\<lambda>p. bm_block_id b \<in> set (ids_of_items_being_processed p)) in
      if discontinue then upd_active (\<lambda>p. if offering p then p\<lparr>inhibit_fetching_sync_blocks := True\<rparr> else p) n
      else fold (disconnect_from_peer now True) (active_where offering n) n)"

definition finish_sync_block :: "client \<Rightarrow> int \<Rightarrow> block_message \<Rightarrow> verdict \<Rightarrow> node \<Rightarrow> node" where
  "finish_sync_block cl now b v n =
     (let n1 = (if v = Accepted then after_accepted cl now b n else after_refused now (v = Too_Old) b n) in
      trigger_process_backlog (n1\<lparr>handle_message_calls_in_progress := remove1 b (handle_message_calls_in_progress n1)\<rparr>))"

subsection \<open>Items that are not available, connections that end\<close>

text \<open>
  The second half of \<open>on_item_not_available_message\<close>, for an item that was requested for synchronisation: it is
  taken off the list of the connection, but not off the node's.
\<close>

definition sync_item_not_available :: "int \<Rightarrow> nat \<Rightarrow> nat \<Rightarrow> node \<Rightarrow> node" where
  "sync_item_not_available now i h n =
     (case find_peer i n of None \<Rightarrow> n
      | Some p \<Rightarrow>
          let n1 = upd_peer i (\<lambda>p. p\<lparr>sync_items_requested_from_peer := erase_key h (sync_items_requested_from_peer p)\<rparr>) n;
              n2 = (if peer_needs_sync_items_from_us p then upd_peer i (\<lambda>p. p\<lparr>inhibit_fetching_sync_blocks := True\<rparr>) n1
                    else disconnect_from_peer now True i n1)
          in trigger_fetch_sync_items_loop n2)"

text \<open>What \<open>on_connection_closed\<close> does about the sync items requested.\<close>

definition reschedule_sync_items :: "peer \<Rightarrow> node \<Rightarrow> node" where
  "reschedule_sync_items p n =
     (if sync_items_requested_from_peer p \<noteq> []
      then trigger_fetch_sync_items_loop
        (n\<lparr>active_sync_requests := fold erase_key (map fst (sync_items_requested_from_peer p)) (active_sync_requests n)\<rparr>)
      else n)"


subsection \<open>The account of the requests\<close>

text \<open>Which blocks are requested of which connection, and which the node lists as requested.\<close>

definition asked :: "node \<Rightarrow> (nat \<times> nat list) list" where
  "asked n = map (\<lambda>p. (pc_id p, map fst (sync_items_requested_from_peer p))) (peers n)"

definition listed :: "node \<Rightarrow> nat set" where
  "listed n = fst ` set (active_sync_requests n)"

definition requests :: "node \<Rightarrow> (nat \<times> nat list) list \<times> nat set" where
  "requests n = (asked n, listed n)"

definition keeps_requests :: "(peer \<Rightarrow> peer) \<Rightarrow> bool" where
  "keeps_requests f \<longleftrightarrow> (\<forall>p. pc_id (f p) = pc_id p \<and> sync_items_requested_from_peer (f p) = sync_items_requested_from_peer p)"

lemma requests_upd_peer [simp]: "keeps_requests f \<Longrightarrow> requests (upd_peer i f n) = requests n"
  by (auto simp: requests_def asked_def listed_def upd_peer_def keeps_requests_def)

lemma requests_upd_active [simp]: "keeps_requests f \<Longrightarrow> requests (upd_active f n) = requests n"
  by (auto simp: requests_def asked_def listed_def upd_active_def keeps_requests_def)

lemma requests_send [simp]: "requests (send_message i m n) = requests n"
  by (simp add: requests_def asked_def listed_def send_message_def)

lemma requests_triggers [simp]:
  "requests (trigger_fetch_sync_items_loop n) = requests n" "requests (trigger_fetch_items_loop n) = requests n"
  "requests (trigger_process_backlog n) = requests n" "requests (remember_block b n) = requests n"
  by (simp_all add: requests_def asked_def listed_def trigger_fetch_sync_items_loop_def trigger_fetch_items_loop_def
    trigger_process_backlog_def remember_block_def)

lemma requests_fields [simp]:
  "requests (n\<lparr>new_received_sync_items := x1\<rparr>) = requests n" "requests (n\<lparr>received_sync_items := x2\<rparr>) = requests n"
  "requests (n\<lparr>handle_message_calls_in_progress := x3\<rparr>) = requests n" "requests (n\<lparr>suspend_fetching_sync_blocks := x4\<rparr>) = requests n"
  "requests (n\<lparr>total_number_of_unfetched_items := x5\<rparr>) = requests n" "requests (n\<lparr>sync_items_to_fetch_updated := x6\<rparr>) = requests n"
  "requests (n\<lparr>process_backlog_scheduled := x7\<rparr>) = requests n" "requests (n\<lparr>items_to_fetch := x8\<rparr>) = requests n"
  "requests (n\<lparr>items_to_fetch_sequence_counter := x9\<rparr>) = requests n" "requests (n\<lparr>new_inventory := x10\<rparr>) = requests n"
  "requests (n\<lparr>message_cache := x11\<rparr>) = requests n" "requests (n\<lparr>items_to_fetch_updated := x12\<rparr>) = requests n"
  by (simp_all add: requests_def asked_def listed_def)

lemma requests_fold: "(\<And>x n. requests (f x n) = requests n) \<Longrightarrow> requests (fold f xs n) = requests n"
  by (induction xs arbitrary: n) simp_all

lemma requests_disconnect [simp]: "requests (disconnect_from_peer now e i n) = requests n"
  by (simp add: disconnect_from_peer_def Let_def keeps_requests_def close_connection_def split: option.splits)

lemma requests_fetch_ids [simp]: "requests (fetch_next_batch_of_item_ids_from_peer cl now i r n) = requests n"
  by (simp add: fetch_next_batch_of_item_ids_from_peer_def Let_def keeps_requests_def reset_fork_tracking_def split: option.splits)

lemma requests_start [simp]: "requests (start_synchronizing_with_peer cl now i n) = requests n"
  by (simp add: start_synchronizing_with_peer_def keeps_requests_def reset_fork_tracking_def)

lemma requests_start_all [simp]: "requests (start_synchronizing cl now n) = requests n"
  by (simp add: start_synchronizing_def requests_fold)

lemma requests_added [simp]: "requests (new_peer_just_added cl now i n) = requests n"
  by (simp add: new_peer_just_added_def)

lemma requests_answer_ids [simp]: "requests (on_fetch_blockchain_item_ids cl now i t s n) = requests n"
  by (simp add: on_fetch_blockchain_item_ids_def Let_def keeps_requests_def split: option.splits prod.splits)

lemma skip_known_requests:
  "skip_known cl t hs p = (xs, q) \<Longrightarrow> pc_id q = pc_id p \<and> sync_items_requested_from_peer q = sync_items_requested_from_peer p"
  by (induction cl t hs p rule: skip_known.induct) (auto simp: seen_block_def split: if_splits)

lemma take_over_keeps [simp]: "keeps_requests (take_over_ids cl n t r i ids)"
  by (auto simp: keeps_requests_def take_over_ids_def Let_def join_lists_def seen_block_def split: prod.splits if_splits
    dest!: skip_known_requests)

lemma requests_receive_ids [simp]: "requests (on_blockchain_item_ids_inventory cl now i r t ids n) = requests n"
proof -
  have "keeps_requests (\<lambda>p. p\<lparr>item_ids_requested_from_peer := None\<rparr>)" "keeps_requests (\<lambda>p. p\<lparr>we_need_sync_items_from_peer := False\<rparr>)"
    by (simp_all add: keeps_requests_def)
  then show ?thesis by (simp add: on_blockchain_item_ids_inventory_def Let_def split: option.splits)
qed

lemma take_up_keeps [simp]: "keeps_requests (take_up h)"
  by (simp add: keeps_requests_def take_up_def)

lemma requests_hand_over [simp]: "requests (hand_over b n) = requests n" "requests (merge_new_blocks n) = requests n"
  by (simp_all add: hand_over_def merge_new_blocks_def requests_def asked_def listed_def)

lemma requests_process_blocks [simp]: "requests (process_blocks n) = requests n"
  by (induction n rule: process_blocks.induct) (subst process_blocks.simps, auto simp: Let_def split: option.splits)

lemma requests_backlog [simp]: "requests (process_backlog_of_sync_blocks n) = requests n"
  by (simp add: process_backlog_of_sync_blocks_def Let_def)

lemma requests_finish [simp]: "requests (finish_sync_block cl now b v n) = requests n"
proof -
  have "keeps_requests (processed_by b m)" for m by (simp add: keeps_requests_def processed_by_def)
  moreover have "keeps_requests (\<lambda>p. if P p then p\<lparr>inhibit_fetching_sync_blocks := True\<rparr> else p)" for P by (simp add: keeps_requests_def)
  ultimately show ?thesis
    by (simp add: finish_sync_block_def after_accepted_def after_refused_def Let_def requests_fold)
qed

end
