(* ===== verification/Gossip.thy ===== *)
theory Gossip
  imports Download
begin

section \<open>Passing on transactions and blocks\<close>

text \<open>
  Models normal operation in \<^verbatim>\<open>libraries/net/node.cpp\<close>: advertising what was accepted, fetching what peers advertise, serving what they ask
  for, and handing new blocks and transactions to the client; also the end of connections, where the requests that were
  out are rescheduled. When a task waits and for how long is left out: it runs when its flag says so.

  What was just advertised to a peer is not advertised to it again.
\<close>

subsection \<open>Advertising\<close>

definition wire_type :: "wire \<Rightarrow> nat" where
  "wire_type m = (case m of Block_Msg _ \<Rightarrow> block_message_type | Trx_Msg _ \<Rightarrow> trx_message_type
     | Inventory_Msg _ _ \<Rightarrow> 5001 | Blockchain_Inventory_Msg _ _ _ \<Rightarrow> 5002 | Fetch_Item_Ids_Msg _ _ \<Rightarrow> 5003
     | Fetch_Items_Msg _ _ \<Rightarrow> 5004 | Item_Not_Available_Msg _ \<Rightarrow> 5005 | Connection_Accepted_Msg \<Rightarrow> 5007
     | Connection_Rejected_Msg _ \<Rightarrow> 5008 | Address_Request_Msg \<Rightarrow> 5009 | Address_Msg _ \<Rightarrow> 5010 | Closing_Msg _ \<Rightarrow> 5011 | Time_Request_Msg \<Rightarrow> 5012
     | Queued_Item (t, _) \<Rightarrow> t)"

definition broadcast :: "client \<Rightarrow> message_propagation_data \<Rightarrow> wire \<Rightarrow> node \<Rightarrow> node" where
  "broadcast cl prop m n =
     (let (contents, n1) = (case m of Block_Msg b \<Rightarrow> (bm_block_id b, remember_block (bm_block_id b) n) | Trx_Msg t \<Rightarrow> (t, n) | _ \<Rightarrow> (0, n));
          h = cl_message_hash cl m;
          item = (wire_type m, h)
      in n1\<lparr>message_cache := cache_message m h prop contents (message_cache n1),
           new_inventory := (if item \<in> set (new_inventory n1) then new_inventory n1 else new_inventory n1 @ [item])\<rparr>)"

text \<open>What of the new inventory a peer is told: nothing while it still synchronises from us.\<close>

definition to_advertise :: "net_item list \<Rightarrow> peer \<Rightarrow> net_item list" where
  "to_advertise news p = (if peer_needs_sync_items_from_us p then []
     else filter (\<lambda>x. x \<notin> fst ` set (inventory_advertised_to_peer p) \<and> x \<notin> fst ` set (inventory_peer_advertised_to_us p)) news)"

text \<open>One message for each type, by rising type.\<close>

definition inventory_messages :: "net_item list \<Rightarrow> wire list" where
  "inventory_messages items = map (\<lambda>t. Inventory_Msg t (map snd (filter (\<lambda>x. fst x = t) items))) (sorted_list_of_set (fst ` set items))"

definition advertise_to :: "int \<Rightarrow> net_item list \<Rightarrow> peer \<Rightarrow> peer" where
  "advertise_to now news p = clear_old_inventory now
     (p\<lparr>inventory_advertised_to_peer := inventory_advertised_to_peer p @ map (\<lambda>x. (x, now)) (to_advertise news p)\<rparr>)"

definition advertise_inventory :: "int \<Rightarrow> node \<Rightarrow> node" where
  "advertise_inventory now n =
     (let news = new_inventory n;
          messages = concat (map (\<lambda>p. map (\<lambda>m. (pc_id p, m)) (inventory_messages (to_advertise news p))) (active_connections n));
          n1 = upd_active (advertise_to now news) (n\<lparr>new_inventory := []\<rparr>)
      in n1\<lparr>outbox := outbox n1 @ messages\<rparr>)"

subsection \<open>Fetching\<close>

text \<open>Blocks come before transactions, older entries before newer ones by a difference that may wrap.\<close>

definition signed32 :: "int \<Rightarrow> int" where
  "signed32 x = (x + 2 ^ 31) mod 2 ^ 32 - 2 ^ 31"

definition prioritized_before :: "net_item \<times> int \<Rightarrow> net_item \<times> int \<Rightarrow> bool" where
  "prioritized_before x y \<longleftrightarrow> (if fst (fst x) \<noteq> fst (fst y) then fst (fst x) > fst (fst y) else signed32 (snd y - snd x) > 0)"

fun insert_prioritized :: "net_item \<times> int \<Rightarrow> (net_item \<times> int) list \<Rightarrow> (net_item \<times> int) list" where
  "insert_prioritized x [] = [x]"
| "insert_prioritized x (y # ys) = (if prioritized_before x y then x # y # ys else y # insert_prioritized x ys)"

text \<open>The number is used up also when the item is listed already.\<close>

definition add_item_to_fetch :: "net_item \<Rightarrow> node \<Rightarrow> node" where
  "add_item_to_fetch x n = n\<lparr>
     items_to_fetch := (if x \<in> fst ` set (items_to_fetch n) then items_to_fetch n
       else insert_prioritized (x, items_to_fetch_sequence_counter n) (items_to_fetch n)),
     items_to_fetch_sequence_counter := uint32 (items_to_fetch_sequence_counter n + 1)\<rparr>"

definition is_item_in_any_peers_inventory :: "net_item \<Rightarrow> node \<Rightarrow> bool" where
  "is_item_in_any_peers_inventory x n \<longleftrightarrow> (\<exists>p \<in> set (active_connections n). x \<in> fst ` set (inventory_peer_advertised_to_us p))"

text \<open>The items an inventory message lists, one after the other; a full inventory ends the loop.\<close>

fun note_inventory :: "int \<Rightarrow> nat \<Rightarrow> net_item list \<Rightarrow> node \<Rightarrow> node" where
  "note_inventory now i [] n = n"
| "note_inventory now i (x # xs) n =
     (if \<exists>p \<in> set (active_connections n). x \<in> fst ` set (inventory_advertised_to_peer p) then note_inventory now i xs n
      else case find_peer i n of None \<Rightarrow> n
      | Some q \<Rightarrow>
          if fst x = trx_message_type \<and> is_inventory_advertised_to_us_list_full_for_transactions q \<or> is_inventory_advertised_to_us_list_full q
          then n
          else let requested = (\<exists>p \<in> set (active_connections n). x \<in> fst ` set (items_requested_from_peer p));
                n1 = upd_peer i (\<lambda>p. p\<lparr>inventory_peer_advertised_to_us := insert_new x now (inventory_peer_advertised_to_us p)\<rparr>) n;
                n2 = (if requested then n1
                  else let n3 = add_item_to_fetch x n1 in
                    if x \<in> fst ` set (items_to_fetch n) then n3 else trigger_fetch_items_loop n3)
            in note_inventory now i xs n2)"

definition on_item_ids_inventory :: "int \<Rightarrow> nat \<Rightarrow> nat \<Rightarrow> nat list \<Rightarrow> node \<Rightarrow> node" where
  "on_item_ids_inventory now i t hashes n =
     note_inventory now i (map (\<lambda>h. (t, h)) hashes) (upd_peer i (clear_old_inventory now) n)"

text \<open>The first peer that is idle and has advertised the item; transactions are not fetched where that is inhibited.\<close>

definition can_serve :: "int \<Rightarrow> net_item \<Rightarrow> peer \<Rightarrow> bool" where
  "can_serve now x p \<longleftrightarrow> idle p \<and> x \<in> fst ` set (inventory_peer_advertised_to_us p) \<and>
     \<not> (is_transaction_fetching_inhibited now p \<and> fst x = trx_message_type)"

definition request_item :: "int \<Rightarrow> nat \<Rightarrow> net_item \<Rightarrow> node \<Rightarrow> node" where
  "request_item now i x n =
     (upd_peer i (\<lambda>p. p\<lparr>items_requested_from_peer := insert_new x now (items_requested_from_peer p)\<rparr>) n)
       \<lparr>items_to_fetch := erase_key x (items_to_fetch n)\<rparr>"

fun assign_items :: "int \<Rightarrow> net_item list \<Rightarrow> node \<Rightarrow> (nat \<times> net_item) list \<times> node" where
  "assign_items now [] n = ([], n)"
| "assign_items now (x # xs) n =
     (case List.find (can_serve now x) (active_connections n) of None \<Rightarrow> assign_items now xs n
      | Some p \<Rightarrow> let (ms, n1) = assign_items now xs (request_item now (pc_id p) x n) in ((pc_id p, x) # ms, n1))"

text \<open>One iteration of \<open>fetch_items_loop\<close>; the messages go out in the reverse order.\<close>

definition fetch_items :: "int \<Rightarrow> node \<Rightarrow> node" where
  "fetch_items now n =
     (let (ms, n1) = assign_items now (map fst (items_to_fetch n)) (n\<lparr>items_to_fetch_updated := False\<rparr>) in
      n1\<lparr>outbox := outbox n1 @ rev (map (\<lambda>(i, x). (i, Fetch_Items_Msg (fst x) [snd x])) ms)\<rparr>)"


subsection \<open>Serving\<close>

definition get_message_for_item :: "client \<Rightarrow> net_item \<Rightarrow> node \<Rightarrow> wire" where
  "get_message_for_item cl x n = (case cached_message (snd x) (message_cache n) of Some m \<Rightarrow> m
     | None \<Rightarrow> (case cl_item cl x of Some m \<Rightarrow> m | None \<Rightarrow> Item_Not_Available_Msg x))"

text \<open>
  The replies to a request in turn. The last block sent moves the record of what the peer has seen; reading a message that is
  no block as one throws. A block is queued by its id and looked up when it is sent.
\<close>

definition on_fetch_items :: "client \<Rightarrow> nat \<Rightarrow> nat \<Rightarrow> nat list \<Rightarrow> node \<Rightarrow> node option" where
  "on_fetch_items cl i t hashes n =
     (let found = (\<lambda>h. case cached_message h (message_cache n) of Some m \<Rightarrow> Some m | None \<Rightarrow> cl_item cl (t, h));
          replies = map (\<lambda>h. case found h of Some m \<Rightarrow> m | None \<Rightarrow> Item_Not_Available_Msg (t, h)) hashes;
          blocks = (if t = block_message_type then filter (\<lambda>h. found h \<noteq> None) hashes else []);
          send = (\<lambda>n. fold (\<lambda>m. send_message i (case m of Block_Msg b \<Rightarrow> Queued_Item (block_message_type, bm_block_id b) | _ \<Rightarrow> m)) replies n)
      in if blocks = [] then Some (send n)
         else (case found (last blocks) of
             Some (Block_Msg b) \<Rightarrow> Some (send (upd_peer i (seen_block cl (bm_block_id b) (cl_block_number cl (bm_block_id b))) n))
           | _ \<Rightarrow> None))"

subsection \<open>What arrives\<close>

definition BTS_NET_INSUFFICIENT_RELAY_FEE_PENALTY_SEC :: int where
  "BTS_NET_INSUFFICIENT_RELAY_FEE_PENALTY_SEC = 15"

definition erase_request :: "net_item \<Rightarrow> peer \<Rightarrow> peer" where
  "erase_request x p = p\<lparr>items_requested_from_peer := erase_key x (items_requested_from_peer p)\<rparr>"

definition trigger_if_idle :: "nat \<Rightarrow> node \<Rightarrow> node" where
  "trigger_if_idle i n = (case find_peer i n of Some p \<Rightarrow> (if idle p then trigger_fetch_items_loop n else n) | None \<Rightarrow> n)"

definition process_ordinary_message :: "client \<Rightarrow> int \<Rightarrow> nat \<Rightarrow> wire \<Rightarrow> verdict \<Rightarrow> node \<Rightarrow> node" where
  "process_ordinary_message cl now i m v n =
     (let x = (wire_type m, cl_message_hash cl m) in
      case find_peer i n of None \<Rightarrow> n
      | Some p \<Rightarrow>
          if x \<notin> fst ` set (items_requested_from_peer p) then disconnect_from_peer now True i n
          else let n1 = trigger_if_idle i (upd_peer i (erase_request x) n) in
            case v of Accepted \<Rightarrow> broadcast cl \<lparr>received_time = now, validated_time = now, originating_peer = i\<rparr> m n1
            | Low_Fee \<Rightarrow> if wire_type m = trx_message_type
                then upd_peer i (\<lambda>p. p\<lparr>transaction_fetching_inhibited_until := now + BTS_NET_INSUFFICIENT_RELAY_FEE_PENALTY_SEC\<rparr>) n1
                else n1
            | _ \<Rightarrow> n1)"

definition block_seen_from :: "int \<Rightarrow> net_item \<Rightarrow> block_message \<Rightarrow> peer \<Rightarrow> peer" where
  "block_seen_from now x b p = clear_old_inventory now
     (if x \<in> fst ` set (inventory_peer_advertised_to_us p)
      then p\<lparr>last_block_delegate_has_seen := bm_block_id b, last_block_number_delegate_has_seen := bm_block_num b,
        last_block_time_delegate_has_seen := bm_timestamp b\<rparr>
      else p)"

text \<open>A block accepted already counts as accepted whatever the client would say; a verdict other than acceptance is an exception.\<close>

definition process_block_during_normal_operation :: "client \<Rightarrow> int \<Rightarrow> nat \<Rightarrow> block_message \<Rightarrow> nat \<Rightarrow> verdict \<Rightarrow> node \<Rightarrow> node" where
  "process_block_during_normal_operation cl now i b h v n =
     (let known = bm_block_id b \<in> set (most_recent_blocks_accepted n) in
      if known \<or> v = Accepted then
        let n1 = (if known then n else remember_block (bm_block_id b) n);
            n2 = upd_active (block_seen_from now (block_message_type, h) b) n1;
            n3 = broadcast cl \<lparr>received_time = now, validated_time = now, originating_peer = i\<rparr> (Block_Msg b) n2;
            n4 = n3\<lparr>message_cache := block_accepted (message_cache n3)\<rparr>
        in fold (disconnect_from_peer now True) (active_where (too_old_for_fork (bm_block_num b) n4) n4) n4
      else fold (disconnect_from_peer now True) (active_where (offered_first (bm_block_id b)) n) n)"

definition process_block_message :: "client \<Rightarrow> int \<Rightarrow> nat \<Rightarrow> block_message \<Rightarrow> verdict \<Rightarrow> node \<Rightarrow> node" where
  "process_block_message cl now i b v n =
     (let h = cl_message_hash cl (Block_Msg b); x = (block_message_type, h) in
      case find_peer i n of None \<Rightarrow> n
      | Some p \<Rightarrow>
          if x \<in> fst ` set (items_requested_from_peer p)
          then trigger_if_idle i (process_block_during_normal_operation cl now i b h v (upd_peer i (erase_request x) n))
          else if bm_block_id b \<in> fst ` set (sync_items_requested_from_peer p) then receive_sync_block cl now i b n
          else disconnect_from_peer now True i n)"

definition on_item_not_available :: "int \<Rightarrow> nat \<Rightarrow> net_item \<Rightarrow> node \<Rightarrow> node" where
  "on_item_not_available now i x n =
     (case find_peer i n of None \<Rightarrow> n
      | Some p \<Rightarrow>
          if x \<in> fst ` set (items_requested_from_peer p) then
            let n1 = upd_peer i (\<lambda>p. (erase_request x p)
                  \<lparr>inventory_peer_advertised_to_us := erase_key x (inventory_peer_advertised_to_us p)\<rparr>) n;
                n2 = (if is_item_in_any_peers_inventory x n1 then add_item_to_fetch x n1 else n1)
            in trigger_fetch_items_loop n2
          else if fst x = block_message_type \<and> snd x \<in> fst ` set (sync_items_requested_from_peer p)
          then sync_item_not_available now i (snd x) n
          else n)"

subsection \<open>The end of connections\<close>

definition on_closing_connection :: "int \<Rightarrow> nat \<Rightarrow> node \<Rightarrow> node" where
  "on_closing_connection now i n = upd_peer i (\<lambda>p. let q = p\<lparr>they_have_requested_close := True\<rparr> in
     if we_have_requested_close q then close_connection now q else q) n"

definition remove_peer :: "nat \<Rightarrow> node \<Rightarrow> node" where
  "remove_peer i n = n\<lparr>peers := filter (\<lambda>p. pc_id p \<noteq> i) (peers n)\<rparr>"

definition on_connection_closed :: "nat \<Rightarrow> node \<Rightarrow> node" where
  "on_connection_closed i n =
     (case find_peer i n of None \<Rightarrow> n
      | Some p \<Rightarrow>
          let n1 = reschedule_sync_items p (remove_peer i n);
              n2 = fold (\<lambda>x n. if is_item_in_any_peers_inventory x n then add_item_to_fetch x n else n)
                (map fst (items_requested_from_peer p)) n1
          in if items_requested_from_peer p = [] then n2 else trigger_fetch_items_loop n2)"

text \<open>
  \<open>terminate_inactive_connections_loop\<close>, which runs every few seconds: connections that stay silent or leave a request unanswered are
  closed, those that do not close are removed without telling the rest.
\<close>

definition active_disconnect_timeout :: int where
  "active_disconnect_timeout = max (5 * BTS_MAX_BLOCK_INTERVAL div 2) 30"

definition active_send_keepalive_timeout :: int where
  "active_send_keepalive_timeout = max (active_disconnect_timeout div 2) 11"

definition active_ignored_request_timeout :: int where
  "active_ignored_request_timeout = max (BTS_MAX_BLOCK_INTERVAL div 4) 10"

definition silent_since :: "int \<Rightarrow> peer \<Rightarrow> bool" where
  "silent_since t p \<longleftrightarrow> connection_initiation_time p < t \<and> last_message_received_time p < t"

definition ignores_request :: "int \<Rightarrow> peer \<Rightarrow> bool" where
  "ignores_request t p \<longleftrightarrow> (\<exists>x \<in> set (sync_items_requested_from_peer p). snd x < t) \<or>
     (case item_ids_requested_from_peer p of Some (_, s) \<Rightarrow> s < t | None \<Rightarrow> False) \<or>
     (\<exists>x \<in> set (items_requested_from_peer p). snd x < t)"

definition terminate_inactive_connections :: "int \<Rightarrow> node \<Rightarrow> node" where
  "terminate_inactive_connections now n =
     (let ids = (\<lambda>P. map pc_id (filter P (peers n)));
          shaking = (\<lambda>p. pc_list p = Handshaking \<and> silent_since (now - peer_inactivity_timeout n) p \<and>
            last_message_sent_time p < now - peer_inactivity_timeout n);
          gently = (\<lambda>p. pc_list p = Active \<and> silent_since (now - active_disconnect_timeout) p);
          ignoring = (\<lambda>p. pc_list p = Active \<and> \<not> gently p \<and> ignores_request (now - active_ignored_request_timeout) p);
          keep_alive = (\<lambda>p. pc_list p = Active \<and> \<not> gently p \<and> \<not> ignoring p \<and> silent_since (now - active_send_keepalive_timeout) p);
          closing = (\<lambda>p. pc_list p = Closing \<and> connection_closed_time p < now - 20);
          terminated = (\<lambda>p. pc_list p = Terminating \<and> connection_terminated_time p \<noteq> time_min \<and> connection_terminated_time p < now - 120);
          n1 = fold (disconnect_from_peer now False) (ids gently) n;
          n2 = fold (\<lambda>i. upd_peer i (\<lambda>p. close_connection now (p\<lparr>pc_list := Terminating\<rparr>)))
            (ids shaking @ ids ignoring @ ids closing) n1;
          n3 = fold (\<lambda>i. send_message i Time_Request_Msg) (ids keep_alive) n2
      in fold remove_peer (ids terminated) n3)"


subsection \<open>What is sent\<close>

text \<open>What a peer was just told it is not told again.\<close>

lemma advertised_not_again:
  "set (to_advertise news p) \<inter> set (to_advertise more_news (advertise_to now news p)) = {}"
proof -
  have "x \<in> fst ` set (inventory_advertised_to_peer (advertise_to now news p))" if "x \<in> set (to_advertise news p)" for x
  proof -
    have "(x, now) \<in> set (inventory_advertised_to_peer (advertise_to now news p))"
      using that by (simp add: advertise_to_def clear_old_inventory_def Let_def BTS_NET_MAX_INVENTORY_SIZE_IN_MINUTES_def)
    then show ?thesis by force
  qed
  then show ?thesis by (auto simp: to_advertise_def)
qed

lemma active_request_item:
  "q \<in> set (active_connections (request_item now i x n)) \<Longrightarrow> idle q \<Longrightarrow> pc_id q \<noteq> i \<and> q \<in> set (active_connections n)"
  by (auto simp: request_item_def upd_peer_def active_connections_def idle_def busy_def insert_new_def split: if_splits)

end
