(* ===== verification/Handshake.thy ===== *)
theory Handshake
  imports Gossip
begin

section \<open>Accepting connections\<close>

text \<open>
  Models the handshake in \<^verbatim>\<open>libraries/net/node.cpp\<close>: the \<open>hello\<close> message with the reasons to reject a connection, and how a
  connection gets from the handshaking to the active ones. The signature of the hello over the shared secret, of which the key exchange is part
  of \<open>fc\<close>, is a flag of the message. The database of potential peers, the detection of firewalls and the versions of the software are
  left out, but for the last hard fork they know.

  A connection that was rejected, or never said hello, becomes active all the same when it asks for block ids.
\<close>

subsection \<open>Hello\<close>

record hello_message =
  hm_node_public_key :: nat
  hm_signature_valid :: bool
  hm_chain_id :: nat
  hm_node_id :: "nat option"
  hm_last_known_fork :: "nat option"
  hm_revision_time :: "int option"

definition hello_node_id :: "hello_message \<Rightarrow> nat" where
  "hello_node_id m = (case hm_node_id m of Some i \<Rightarrow> i | None \<Rightarrow> hm_node_public_key m)"

definition get_number_of_connections :: "node \<Rightarrow> nat" where
  "get_number_of_connections n = length (filter (\<lambda>p. pc_list p = Handshaking \<or> pc_list p = Active) (peers n))"

definition is_accepting_new_connections :: "node \<Rightarrow> bool" where
  "is_accepting_new_connections n \<longleftrightarrow> get_number_of_connections n \<le> maximum_number_of_connections n"

definition is_already_connected_to_id :: "nat \<Rightarrow> node \<Rightarrow> bool" where
  "is_already_connected_to_id k n \<longleftrightarrow> k = my_node_id n \<or>
     (\<exists>p \<in> set (peers n). (pc_list p = Active \<or> pc_list p = Handshaking) \<and> pc_node_id p = k)"

text \<open>The codes of the reasons, in the order of the enumeration.\<close>

datatype rejection = Outdated | Different_Chain | Already_Connected | Connected_To_Self | Not_Accepting | Invalid_Hello

definition rejection_code :: "rejection \<Rightarrow> nat" where
  "rejection_code r = (case r of Outdated \<Rightarrow> 0 | Different_Chain \<Rightarrow> 1 | Already_Connected \<Rightarrow> 2 | Connected_To_Self \<Rightarrow> 3
     | Not_Accepting \<Rightarrow> 4 | Invalid_Hello \<Rightarrow> 6)"

text \<open>Which of the reasons end the connection at once.\<close>

definition disconnects :: "rejection \<Rightarrow> bool" where
  "disconnects r \<longleftrightarrow> r \<in> {Outdated, Different_Chain, Invalid_Hello}"

definition reject :: "int \<Rightarrow> nat \<Rightarrow> rejection \<Rightarrow> node \<Rightarrow> node" where
  "reject now i r n =
     (let n1 = send_message i (Connection_Rejected_Msg (rejection_code r)) (upd_peer i (\<lambda>p. p\<lparr>their_state := Connection_Rejected\<rparr>) n) in
      if disconnects r then disconnect_from_peer now False i n1 else n1)"

definition outdated :: "client \<Rightarrow> node \<Rightarrow> peer \<Rightarrow> bool" where
  "outdated cl n p \<longleftrightarrow> last_known_fork_block_number p \<noteq> 0 \<and>
     (let next_fork = get_next_known_hard_fork_block_number (last_known_fork_block_number p) n in
      next_fork \<noteq> 0 \<and> next_fork < cl_block_number cl (cl_head_block_id cl))"

definition store_hello :: "client \<Rightarrow> hello_message \<Rightarrow> peer \<Rightarrow> peer" where
  "store_hello cl m p =
     (let q = p\<lparr>pc_node_id := hello_node_id m,
            last_known_fork_block_number := (case hm_last_known_fork m of Some k \<Rightarrow> k | None \<Rightarrow> last_known_fork_block_number p)\<rparr> in
      case hm_revision_time m of Some t \<Rightarrow>
          if last_known_fork_block_number q = 0 then q\<lparr>last_known_fork_block_number := cl_estimate_last_known_fork cl t\<rparr> else q
        | None \<Rightarrow> q)"

definition on_hello :: "client \<Rightarrow> int \<Rightarrow> nat \<Rightarrow> hello_message \<Rightarrow> node \<Rightarrow> node" where
  "on_hello cl now i m n0 =
     (case find_peer i n0 of None \<Rightarrow> n0
      | Some p0 \<Rightarrow>
          let already_connected = is_already_connected_to_id (hello_node_id m) n0;
              n = upd_peer i (store_hello cl m) n0;
              p = store_hello cl m p0
          in if their_state p \<noteq> Just_Connected then disconnect_from_peer now False i n
             else if \<not> hm_signature_valid m then reject now i Invalid_Hello n
             else if hm_chain_id m \<noteq> my_chain_id n then reject now i Different_Chain n
             else if outdated cl n p then reject now i Outdated n
             else if already_connected then reject now i (if my_node_id n = pc_node_id p then Connected_To_Self else Already_Connected) n
             else if \<not> is_accepting_new_connections n then reject now i Not_Accepting n
             else send_message i Connection_Accepted_Msg (upd_peer i (\<lambda>p. p\<lparr>their_state := Connection_Accepted\<rparr>) n))"

subsection \<open>The answers to a hello\<close>

definition on_connection_accepted :: "nat \<Rightarrow> node \<Rightarrow> node" where
  "on_connection_accepted i n =
     send_message i Address_Request_Msg (upd_peer i (\<lambda>p. p\<lparr>our_state := Connection_Accepted\<rparr>) n)"

definition on_connection_rejected :: "int \<Rightarrow> nat \<Rightarrow> nat \<Rightarrow> node \<Rightarrow> node option" where
  "on_connection_rejected now i code n =
     (case find_peer i n of None \<Rightarrow> None
      | Some p \<Rightarrow>
          if our_state p = Just_Connected then
            let n1 = (if code = rejection_code Connected_To_Self
                  then upd_peer i (\<lambda>p. close_connection now (p\<lparr>pc_list := Closing\<rparr>)) n else n)
            in Some (send_message i Address_Request_Msg (upd_peer i (\<lambda>p. p\<lparr>our_state := Connection_Rejected\<rparr>) n1))
          else None)"

definition on_address_request :: "nat \<Rightarrow> node \<Rightarrow> node" where
  "on_address_request i n =
     send_message i (Address_Msg (if peer_advertising_disabled n then [] else map pc_node_id (active_connections n))) n"

definition on_address :: "client \<Rightarrow> int \<Rightarrow> nat \<Rightarrow> node \<Rightarrow> node" where
  "on_address cl now i n =
     (case find_peer i n of None \<Rightarrow> n
      | Some p \<Rightarrow>
          if pc_list p = Handshaking then
            if our_state p = Connection_Rejected \<or> their_state p = Connection_Rejected then disconnect_from_peer now False i n
            else new_peer_just_added cl now i (upd_peer i (\<lambda>p. p\<lparr>pc_list := Active\<rparr>) n)
          else n)"

subsection \<open>New connections\<close>

text \<open>A connection as it is when the key exchange is done; numbers of connections are not used again.\<close>

definition fresh_peer :: "nat \<Rightarrow> bool \<Rightarrow> int \<Rightarrow> peer" where
  "fresh_peer i inbound now = \<lparr>pc_id = i, pc_list = Handshaking, is_inbound = inbound, our_state = Just_Connected,
     their_state = Just_Connected, pc_node_id = 0, they_have_requested_close = False, we_have_requested_close = False,
     connection_initiation_time = now, last_message_received_time = 0, last_message_sent_time = 0, connection_closed_time = 0,
     connection_terminated_time = 0, ids_of_items_to_get = [], ids_of_items_being_processed = [], number_of_unfetched_item_ids = 0,
     peer_needs_sync_items_from_us = True, we_need_sync_items_from_peer = True, item_ids_requested_from_peer = None,
     sync_items_requested_from_peer = [], last_block_number_delegate_has_seen = 0, last_block_delegate_has_seen = 0,
     last_block_time_delegate_has_seen = 0, inhibit_fetching_sync_blocks = False, inventory_peer_advertised_to_us = [],
     inventory_advertised_to_peer = [], items_requested_from_peer = [], transaction_fetching_inhibited_until = time_min,
     last_known_fork_block_number = 0\<rparr>"

definition add_connection :: "nat \<Rightarrow> bool \<Rightarrow> int \<Rightarrow> node \<Rightarrow> node" where
  "add_connection i inbound now n = n\<lparr>peers := peers n @ [fresh_peer i inbound now]\<rparr>"

definition node_at_start :: "nat \<Rightarrow> nat \<Rightarrow> nat list \<Rightarrow> node" where
  "node_at_start own_id chain forks = \<lparr>peers = [], active_sync_requests = [], new_received_sync_items = [], received_sync_items = [],
     handle_message_calls_in_progress = [], suspend_fetching_sync_blocks = False, most_recent_blocks_accepted = [],
     blocks_accepted_capacity = 200, total_number_of_unfetched_items = 0, maximum_number_of_blocks_to_handle_at_one_time = 200,
     maximum_number_of_sync_blocks_to_prefetch = 2000, maximum_blocks_per_peer_during_syncing = 100, peer_inactivity_timeout = 5,
     maximum_number_of_connections = 200, my_node_id = own_id, my_chain_id = chain, peer_advertising_disabled = False,
     hard_fork_block_numbers = forks, sync_item_type = block_message_type, items_to_fetch = [], items_to_fetch_sequence_counter = 0,
     new_inventory = [], message_cache = empty_cache, sync_items_to_fetch_updated = False, items_to_fetch_updated = False,
     process_backlog_scheduled = False, outbox = []\<rparr>"

definition sync_from :: "net_item \<Rightarrow> nat list \<Rightarrow> node \<Rightarrow> node" where
  "sync_from current_head_block forks n = n\<lparr>most_recent_blocks_accepted := [snd current_head_block],
     sync_item_type := fst current_head_block, hard_fork_block_numbers := forks\<rparr>"

end
