(* ===== verification/Network.thy ===== *)
theory Network
  imports Handshake
begin

section \<open>A node among its peers\<close>

text \<open>
  Puts the handlers of \<^verbatim>\<open>libraries/net/node.cpp\<close> together: a step of a node is a message of a connection, the answer of the client to a block, an
  iteration of one of the loops, or a connection that begins or ends. Other ends may send anything at any time, and the
  client is any function; it may answer differently at every step.

  Shown by rule induction over the steps: a block is never requested of two connections at once; what the node has asked for
  and the other end did not have is never asked for again. Shown of single handlers: the backlog is worked off as far as the limit
  allows; an inbound connection becomes active whatever the handshake said.
\<close>

subsection \<open>Steps\<close>

inductive node_step :: "node \<Rightarrow> node \<Rightarrow> bool" where
  connect: "i \<notin> pc_id ` set (peers n) \<Longrightarrow> node_step n (add_connection i inbound now n)"
| hello: "node_step n (on_hello cl now i m n)"
| accepted: "node_step n (on_connection_accepted i n)"
| rejected: "on_connection_rejected now i code n = Some n' \<Longrightarrow> node_step n n'"
| address_request: "node_step n (on_address_request i n)"
| address: "node_step n (on_address cl now i n)"
| fetch_ids: "node_step n (on_fetch_blockchain_item_ids cl now i t synopsis n)"
| receive_ids: "node_step n (on_blockchain_item_ids_inventory cl now i remaining t ids n)"
| serve: "on_fetch_items cl i t hashes n = Some n' \<Longrightarrow> node_step n n'"
| not_available: "node_step n (on_item_not_available now i x n)"
| inventory: "node_step n (on_item_ids_inventory now i t hashes n)"
| closing: "node_step n (on_closing_connection now i n)"
| block: "node_step n (process_block_message cl now i b v n)"
| ordinary: "node_step n (process_ordinary_message cl now i m v n)"
| closed: "node_step n (on_connection_closed i n)"
| client_done: "node_step n (finish_sync_block cl now b v n)"
| backlog: "node_step n (process_backlog_of_sync_blocks n)"
| sync_loop: "node_step n (fetch_sync_items now n)"
| fetch_loop: "node_step n (fetch_items now n)"
| advertise_loop: "node_step n (advertise_inventory now n)"
| terminate_loop: "node_step n (terminate_inactive_connections now n)"
| local_broadcast: "node_step n (broadcast cl prop m n)"
| resync: "node_step n (sync_from head forks n)"
| start_sync: "node_step n (start_synchronizing cl now n)"
| heard: "node_step n (upd_peer i (\<lambda>p. p\<lparr>last_message_received_time := now\<rparr>) n)"
| spoke: "node_step n (upd_peer i (\<lambda>p. p\<lparr>last_message_sent_time := now\<rparr>) n)"

inductive reachable :: "node \<Rightarrow> bool" where
  start: "reachable (node_at_start own chain forks)"
| step: "reachable n \<Longrightarrow> node_step n n' \<Longrightarrow> reachable n'"

inductive later :: "node \<Rightarrow> node \<Rightarrow> bool" where
  now: "later n n"
| then_step: "later n n' \<Longrightarrow> node_step n' n'' \<Longrightarrow> later n n''"

subsection \<open>Handlers that leave the requests for blocks alone\<close>

lemma requests_broadcast [simp]: "requests (broadcast cl prop m n) = requests n"
  by (simp add: broadcast_def Let_def split: wire.splits)

lemma requests_advertise [simp]: "requests (advertise_inventory now n) = requests n"
proof -
  have "keeps_requests (advertise_to now items)" for items by (simp add: keeps_requests_def advertise_to_def clear_old_inventory_def Let_def)
  then have "requests (upd_active (advertise_to now (new_inventory n)) (n\<lparr>new_inventory := []\<rparr>)) = requests n" by simp
  then show ?thesis by (simp add: advertise_inventory_def Let_def requests_def asked_def listed_def)
qed

lemma requests_add_item [simp]: "requests (add_item_to_fetch x n) = requests n"
  by (simp add: add_item_to_fetch_def)

lemma requests_note_inventory [simp]: "requests (note_inventory now i xs n) = requests n"
  by (induction now i xs n rule: note_inventory.induct) (auto simp: Let_def keeps_requests_def split: option.splits)

lemma requests_inventory [simp]: "requests (on_item_ids_inventory now i t hashes n) = requests n"
  by (simp add: on_item_ids_inventory_def keeps_requests_def clear_old_inventory_def Let_def)

lemma requests_request_item [simp]: "requests (request_item now i x n) = requests n"
  by (simp add: request_item_def keeps_requests_def)

lemma requests_assign: "requests (snd (assign_items now xs n)) = requests n"
  by (induction xs arbitrary: n) (auto simp: Let_def split: option.splits prod.splits, metis requests_request_item snd_conv)

lemma requests_fetch_items [simp]: "requests (fetch_items now n) = requests n"
proof -
  have "requests (m\<lparr>outbox := x\<rparr>) = requests m" for m x by (simp add: requests_def asked_def listed_def)
  then show ?thesis
    using requests_assign [of now _ "n\<lparr>items_to_fetch_updated := False\<rparr>"] by (simp add: fetch_items_def Let_def split: prod.splits)
      (metis snd_conv)
qed

lemma requests_serve: "on_fetch_items cl i t hashes n = Some n' \<Longrightarrow> requests n' = requests n"
  by (auto simp: on_fetch_items_def Let_def requests_fold keeps_requests_def seen_block_def split: if_splits option.splits wire.splits)

lemma requests_trigger_if_idle [simp]: "requests (trigger_if_idle i n) = requests n"
  by (simp add: trigger_if_idle_def split: option.splits)

lemma erase_request_keeps [simp]: "keeps_requests (erase_request x)"
  by (simp add: keeps_requests_def erase_request_def)

lemma requests_ordinary [simp]: "requests (process_ordinary_message cl now i m v n) = requests n"
  by (simp add: process_ordinary_message_def Let_def keeps_requests_def erase_request_def split: option.splits verdict.splits)

lemma requests_normal_block [simp]: "requests (process_block_during_normal_operation cl now i b h v n) = requests n"
proof -
  have "keeps_requests (block_seen_from now x b)" for x by (simp add: keeps_requests_def block_seen_from_def clear_old_inventory_def Let_def)
  then show ?thesis by (simp add: process_block_during_normal_operation_def Let_def requests_fold)
qed

lemma requests_closing [simp]: "requests (on_closing_connection now i n) = requests n"
  by (simp add: on_closing_connection_def keeps_requests_def close_connection_def Let_def)

lemma requests_hello [simp]: "requests (on_hello cl now i m n) = requests n"
proof -
  have "keeps_requests (store_hello cl m)" by (simp add: keeps_requests_def store_hello_def Let_def split: option.splits)
  moreover have "keeps_requests (\<lambda>p. p\<lparr>their_state := s\<rparr>)" for s by (simp add: keeps_requests_def)
  ultimately show ?thesis by (simp add: on_hello_def reject_def Let_def split: option.splits)
qed

lemma requests_accepted [simp]: "requests (on_connection_accepted i n) = requests n"
  by (simp add: on_connection_accepted_def keeps_requests_def)

lemma requests_rejected: "on_connection_rejected now i code n = Some n' \<Longrightarrow> requests n' = requests n"
  by (auto simp: on_connection_rejected_def Let_def keeps_requests_def close_connection_def split: option.splits if_splits)

lemma requests_address [simp]: "requests (on_address cl now i n) = requests n" "requests (on_address_request i n) = requests n"
  by (simp_all add: on_address_def on_address_request_def keeps_requests_def split: option.splits)

lemma requests_sync_from [simp]: "requests (sync_from head forks n) = requests n"
  by (simp add: sync_from_def requests_def asked_def listed_def)


subsection \<open>Handlers that change the requests for blocks\<close>

text \<open>Each block is requested of at most one connection, and everything requested is on the list of the node.\<close>

definition well_asked :: "(nat \<times> nat list) list \<times> nat set \<Rightarrow> bool" where
  "well_asked r \<longleftrightarrow> distinct (map fst (fst r)) \<and> (\<forall>x \<in> set (fst r). set (snd x) \<subseteq> snd r) \<and>
     (\<forall>x \<in> set (fst r). \<forall>y \<in> set (fst r). fst x \<noteq> fst y \<longrightarrow> set (snd x) \<inter> set (snd y) = {})"

text \<open>A block on the list of the node that is requested of nobody.\<close>

definition nobody_asked :: "nat \<Rightarrow> (nat \<times> nat list) list \<times> nat set \<Rightarrow> bool" where
  "nobody_asked h r \<longleftrightarrow> h \<in> snd r \<and> (\<forall>x \<in> set (fst r). h \<notin> set (snd x))"

definition change_asked :: "nat \<Rightarrow> (nat list \<Rightarrow> nat list) \<Rightarrow> (nat \<times> nat list) list \<Rightarrow> (nat \<times> nat list) list" where
  "change_asked i g xs = map (\<lambda>(j, hs). if j = i then (j, g hs) else (j, hs)) xs"

lemma fst_change_asked [simp]: "map fst (change_asked i g xs) = map fst xs"
  by (auto simp: change_asked_def)

lemma change_asked_in: "(j, hs) \<in> set (change_asked i g xs) \<Longrightarrow> \<exists>ks. (j, ks) \<in> set xs \<and> hs = (if j = i then g ks else ks)"
  by (auto simp: change_asked_def split: if_splits)

lemma asked_unique: "well_asked r \<Longrightarrow> x \<in> set (fst r) \<Longrightarrow> y \<in> set (fst r) \<Longrightarrow> fst x = fst y \<Longrightarrow> x = y"
  by (metis distinct_map inj_onD well_asked_def)

lemma requests_upd_requested:
  assumes "\<And>p. pc_id (f p) = pc_id p" "\<And>p. map fst (sync_items_requested_from_peer (f p)) = g (map fst (sync_items_requested_from_peer p))"
  shows "requests (upd_peer i f n) = (change_asked i g (asked n), listed n)"
  using assms by (auto simp: requests_def asked_def listed_def upd_peer_def change_asked_def)

lemma requests_set_active: "requests (n\<lparr>active_sync_requests := xs\<rparr>) = (asked n, fst ` set xs)"
  by (simp add: requests_def asked_def listed_def)

lemma set_keys_fold_insert: "fst ` set (fold (\<lambda>h. insert_new h now) items xs) = fst ` set xs \<union> set items"
  by (induction items arbitrary: xs) auto

lemma map_keys_fold_insert:
  "map fst (fold (\<lambda>h. insert_new h now) items xs) = fold (\<lambda>h hs. if h \<in> set hs then hs else hs @ [h]) items (map fst xs)"
  by (induction items arbitrary: xs) (auto simp: insert_new_def)

lemma set_fold_add: "set (fold (\<lambda>h hs. if h \<in> set hs then hs else hs @ [h]) items hs) = set hs \<union> set items"
  by (induction items arbitrary: hs) auto

lemma requests_request_sync_items:
  "requests (request_sync_items_from_peer now i items n) =
     (change_asked i (fold (\<lambda>h hs. if h \<in> set hs then hs else hs @ [h]) items) (asked n), listed n \<union> set items)"
proof -
  let ?f = "\<lambda>p. p\<lparr>sync_items_requested_from_peer := fold (\<lambda>h. insert_new h now) items (sync_items_requested_from_peer p)\<rparr>"
  let ?n = "n\<lparr>active_sync_requests := fold (\<lambda>h. insert_new h now) items (active_sync_requests n)\<rparr>"
  have "requests (upd_peer i ?f ?n) = (change_asked i (fold (\<lambda>h hs. if h \<in> set hs then hs else hs @ [h]) items) (asked ?n), listed ?n)"
    by (rule requests_upd_requested) (simp_all add: map_keys_fold_insert)
  moreover have "asked ?n = asked n" "listed ?n = listed n \<union> set items" by (simp_all add: asked_def listed_def set_keys_fold_insert)
  ultimately show ?thesis by (simp add: request_sync_items_from_peer_def)
qed

lemma pick_items_in: "set (pick_items limit excluded picked hs) \<subseteq> set picked \<union> {h \<in> set hs. \<not> excluded h}"
  by (induction limit excluded picked hs rule: pick_items.induct) (auto simp: subset_iff)

text \<open>The items for the first peer are new, and those for the others are scheduled with these taken.\<close>

definition picked_for :: "node \<Rightarrow> nat list \<Rightarrow> peer \<Rightarrow> nat list" where
  "picked_for n taken p = (if we_need_sync_items_from_peer p \<and> idle p \<and> \<not> inhibit_fetching_sync_blocks p
     then pick_items (maximum_blocks_per_peer_during_syncing n)
       (\<lambda>h. have_already_received_sync_item h n \<or> h \<in> set taken \<or> h \<in> fst ` set (active_sync_requests n)) [] (ids_of_items_to_get p)
     else [])"

lemma schedule_requests_Cons:
  "schedule_requests n taken (p # ps) =
     (if picked_for n taken p = [] then [] else [(pc_id p, picked_for n taken p)]) @ schedule_requests n (taken @ picked_for n taken p) ps"
  by (auto simp: picked_for_def Let_def)

lemma picked_for_new: "set (picked_for n taken p) \<inter> (set taken \<union> listed n) = {}"
  using pick_items_in [of "maximum_blocks_per_peer_during_syncing n"
    "\<lambda>h. have_already_received_sync_item h n \<or> h \<in> set taken \<or> h \<in> fst ` set (active_sync_requests n)" "[]" "ids_of_items_to_get p"]
  by (auto simp: picked_for_def listed_def)

lemma schedule_requests_new:
  "x \<in> set (schedule_requests n taken ps) \<Longrightarrow> set (snd x) \<inter> (set taken \<union> listed n) = {}"
proof (induction ps arbitrary: taken)
  case (Cons p ps)
  from Cons.prems consider "x = (pc_id p, picked_for n taken p)" | "x \<in> set (schedule_requests n (taken @ picked_for n taken p) ps)"
    unfolding schedule_requests_Cons by (auto split: if_splits)
  then show ?case
  proof cases
    case 1
    then show ?thesis using picked_for_new by simp
  next
    case 2
    from Cons.IH [OF this] show ?thesis by auto
  qed
qed simp

lemma schedule_requests_disjoint:
  "sorted_wrt (\<lambda>x y. set (snd x) \<inter> set (snd y) = {}) (schedule_requests n taken ps)"
proof (induction ps arbitrary: taken)
  case (Cons p ps)
  have "set (picked_for n taken p) \<inter> set (snd y) = {}"
    if "y \<in> set (schedule_requests n (taken @ picked_for n taken p) ps)" for y
    using schedule_requests_new [OF that] by auto
  with Cons.IH show ?case unfolding schedule_requests_Cons by simp
qed simp


lemma well_askedD:
  assumes "well_asked r"
  shows "distinct (map fst (fst r))" "(j, hs) \<in> set (fst r) \<Longrightarrow> set hs \<subseteq> snd r"
    "(j, hs) \<in> set (fst r) \<Longrightarrow> (k, ks) \<in> set (fst r) \<Longrightarrow> j \<noteq> k \<Longrightarrow> set hs \<inter> set ks = {}"
  using assms unfolding well_asked_def by (force, fastforce, fastforce)

lemma well_askedI:
  assumes "distinct (map fst xs)" "\<And>j hs. (j, hs) \<in> set xs \<Longrightarrow> set hs \<subseteq> L"
    and "\<And>j hs k ks. (j, hs) \<in> set xs \<Longrightarrow> (k, ks) \<in> set xs \<Longrightarrow> j \<noteq> k \<Longrightarrow> set hs \<inter> set ks = {}"
  shows "well_asked (xs, L)"
  unfolding well_asked_def using assms by (metis fst_conv snd_conv surj_pair)

text \<open>Asking one connection for blocks that are not on the list.\<close>

lemma well_asked_add:
  assumes "well_asked (xs, L)" "set items \<inter> L = {}" "\<And>hs. set (g hs) = set hs \<union> set items"
  shows "well_asked (change_asked i g xs, L \<union> set items)"
proof (rule well_askedI)
  note w = well_askedD [OF assms(1), unfolded fst_conv snd_conv]
  show "distinct (map fst (change_asked i g xs))" using w(1) by simp
  fix j hs assume "(j, hs) \<in> set (change_asked i g xs)"
  then obtain hs' where j: "(j, hs') \<in> set xs" "hs = (if j = i then g hs' else hs')" by (blast dest: change_asked_in)
  then show "set hs \<subseteq> L \<union> set items" using w(2) [OF j(1)] assms(3) by auto
  fix k ks assume "(k, ks) \<in> set (change_asked i g xs)" "j \<noteq> k"
  then obtain ks' where k: "(k, ks') \<in> set xs" "ks = (if k = i then g ks' else ks')" by (blast dest: change_asked_in)
  show "set hs \<inter> set ks = {}"
    using w(3) [OF j(1) k(1) \<open>j \<noteq> k\<close>] w(2) [OF j(1)] w(2) [OF k(1)] assms(2,3) j(2) k(2) \<open>j \<noteq> k\<close> by auto
qed

text \<open>Taking a block off one connection, and possibly off the list if no other has it.\<close>

lemma well_asked_erase:
  assumes "well_asked (xs, L)" "L - {h} \<subseteq> L'" "\<And>hs. set (g hs) = set hs - {h}"
    and "\<And>j hs. (j, hs) \<in> set xs \<Longrightarrow> j \<noteq> i \<Longrightarrow> h \<in> set hs \<Longrightarrow> h \<in> L'"
  shows "well_asked (change_asked i g xs, L')"
proof (rule well_askedI)
  note w = well_askedD [OF assms(1), unfolded fst_conv snd_conv]
  show "distinct (map fst (change_asked i g xs))" using w(1) by simp
  fix j hs assume "(j, hs) \<in> set (change_asked i g xs)"
  then obtain hs' where j: "(j, hs') \<in> set xs" "hs = (if j = i then g hs' else hs')" by (blast dest: change_asked_in)
  show "set hs \<subseteq> L'"
  proof
    fix t assume "t \<in> set hs"
    then show "t \<in> L'" using w(2) [OF j(1)] assms(2,3) assms(4) [OF j(1)] j(2) by (cases "j = i"; cases "t = h") auto
  qed
  fix k ks assume "(k, ks) \<in> set (change_asked i g xs)" "j \<noteq> k"
  then obtain ks' where k: "(k, ks') \<in> set xs" "ks = (if k = i then g ks' else ks')" by (blast dest: change_asked_in)
  show "set hs \<inter> set ks = {}"
    using w(3) [OF j(1) k(1) \<open>j \<noteq> k\<close>] assms(3) j(2) k(2) by auto
qed

lemma well_asked_remove:
  assumes "well_asked (xs, L)" "set ys \<subseteq> set xs" "distinct (map fst ys)" "\<And>j hs. (j, hs) \<in> set ys \<Longrightarrow> set hs \<subseteq> L'"
  shows "well_asked (ys, L')"
proof (rule well_askedI)
  note w = well_askedD [OF assms(1), unfolded fst_conv snd_conv]
  fix j hs k ks assume "(j, hs) \<in> set ys" "(k, ks) \<in> set ys" "j \<noteq> k"
  then show "set hs \<inter> set ks = {}" using w(3) [of j hs k ks] assms(2) by blast
qed (use assms in auto)

lemma stuck_change:
  assumes "nobody_asked h (xs, L)" "h \<in> L'" "\<And>hs. h \<notin> set hs \<Longrightarrow> h \<notin> set (g hs)"
  shows "nobody_asked h (change_asked i g xs, L')"
proof -
  have "h \<notin> set hs" if "(j, hs) \<in> set (change_asked i g xs)" for j hs
  proof -
    obtain ks where "(j, ks) \<in> set xs" "hs = (if j = i then g ks else ks)" using change_asked_in [OF \<open>(j, hs) \<in> _\<close>] by blast
    moreover then have "h \<notin> set ks" using assms(1) by (auto simp: nobody_asked_def)
    ultimately show ?thesis using assms(3) by simp
  qed
  with assms(2) show ?thesis by (auto simp: nobody_asked_def)
qed

text \<open>The connection a handler is about.\<close>

lemma find_peer_Some: "find_peer i n = Some p \<Longrightarrow> p \<in> set (peers n) \<and> pc_id p = i"
  by (auto simp: find_peer_def find_Some_iff in_set_conv_nth)

lemma asked_peer: "find_peer i n = Some p \<Longrightarrow> (i, map fst (sync_items_requested_from_peer p)) \<in> set (asked n)"
  using find_peer_Some [of i n p] by (auto simp: asked_def)

lemma asked_other:
  assumes "well_asked (requests n)" "find_peer i n = Some p" "h \<in> fst ` set (sync_items_requested_from_peer p)"
    and "(j, hs) \<in> set (asked n)" "j \<noteq> i"
  shows "h \<notin> set hs"
  using well_askedD(3) [OF assms(1), of i _ j hs] asked_peer [OF assms(2)] assms(3-5) by (force simp: requests_def)


subsection \<open>Every step keeps the account\<close>

definition sound_step :: "node \<Rightarrow> node \<Rightarrow> bool" where
  "sound_step n n' \<longleftrightarrow> (well_asked (requests n) \<longrightarrow> well_asked (requests n') \<and> (\<forall>h. nobody_asked h (requests n) \<longrightarrow> nobody_asked h (requests n')))"

lemma sound_same: "requests n' = requests n \<Longrightarrow> sound_step n n'"
  by (simp add: sound_step_def)

lemma sound_trans: "sound_step n n1 \<Longrightarrow> sound_step n1 n2 \<Longrightarrow> sound_step n n2"
  by (simp add: sound_step_def)

lemma sound_request:
  assumes "set items \<inter> listed n = {}"
  shows "sound_step n (request_sync_items_from_peer now i items n)"
proof -
  let ?g = "fold (\<lambda>h hs. if h \<in> set hs then hs else hs @ [h]) items"
  have "well_asked (change_asked i ?g (asked n), listed n \<union> set items)" if "well_asked (asked n, listed n)"
    by (rule well_asked_add [OF that assms set_fold_add])
  moreover have "nobody_asked h (change_asked i ?g (asked n), listed n \<union> set items)" if "nobody_asked h (asked n, listed n)" for h
  proof (rule stuck_change [OF that])
    have "h \<in> listed n" using that by (simp add: nobody_asked_def)
    then show "h \<in> listed n \<union> set items" by simp
    fix hs :: "nat list" assume "h \<notin> set hs"
    then show "h \<notin> set (?g hs)" using \<open>h \<in> listed n\<close> assms by (auto simp: set_fold_add)
  qed
  ultimately show ?thesis by (simp add: sound_step_def requests_request_sync_items requests_def [of n])
qed

lemma listed_request: "listed (request_sync_items_from_peer now i items n) = listed n \<union> set items"
  using requests_request_sync_items [of now i items n] by (simp add: requests_def)

lemma sound_requests:
  assumes "\<forall>x \<in> set rs. set (snd x) \<inter> listed n = {}" "sorted_wrt (\<lambda>x y. set (snd x) \<inter> set (snd y) = {}) rs"
  shows "sound_step n (fold (\<lambda>(i, items). request_sync_items_from_peer now i items) rs n)"
  using assms
proof (induction rs arbitrary: n)
  case (Cons r rs)
  obtain i items where r: "r = (i, items)" by (cases r)
  let ?n = "request_sync_items_from_peer now i items n"
  have "sound_step n ?n" using Cons.prems(1) by (simp add: sound_request r)
  moreover have "sound_step ?n (fold (\<lambda>(i, items). request_sync_items_from_peer now i items) rs ?n)"
    by (rule Cons.IH) (use Cons.prems in \<open>auto simp: listed_request r\<close>)
  ultimately show ?case using sound_trans by (simp add: r)
qed (simp add: sound_same)

lemma sound_fetch_sync_items: "sound_step n (fetch_sync_items now n)"
proof -
  let ?n = "n\<lparr>sync_items_to_fetch_updated := False\<rparr>"
  have "sound_step ?n (fold (\<lambda>(i, items). request_sync_items_from_peer now i items) (schedule_requests ?n [] (active_connections ?n)) ?n)"
    by (rule sound_requests) (use schedule_requests_new schedule_requests_disjoint in fastforce)+
  moreover have "sound_step n ?n" by (simp add: sound_same)
  ultimately show ?thesis using sound_trans by (auto simp: fetch_sync_items_def Let_def)
qed

lemma map_erase_key: "map fst (erase_key h xs) = filter (\<lambda>k. k \<noteq> h) (map fst xs)"
  by (simp add: erase_key_def filter_map o_def)

lemma requests_erase:
  "requests (upd_peer i (\<lambda>p. p\<lparr>sync_items_requested_from_peer := erase_key h (sync_items_requested_from_peer p)\<rparr>) n) =
     (change_asked i (filter (\<lambda>k. k \<noteq> h)) (asked n), listed n)"
  by (rule requests_upd_requested) (simp_all add: map_erase_key)

lemma sound_erase:
  assumes "requests n' = (change_asked i (filter (\<lambda>k. k \<noteq> h)) (asked n), L)" "L = listed n \<or> L = listed n - {h}"
    and "find_peer i n = Some p" "h \<in> fst ` set (sync_items_requested_from_peer p)"
  shows "sound_step n n'"
proof -
  have "well_asked (requests n')" if w: "well_asked (requests n)"
    unfolding assms(1)
  proof (rule well_asked_erase)
    show "well_asked (asked n, listed n)" using w by (simp add: requests_def)
    show "listed n - {h} \<subseteq> L" using assms(2) by auto
    show "set (filter (\<lambda>k. k \<noteq> h) hs) = set hs - {h}" for hs by auto
    show "h \<in> L" if "(j, hs) \<in> set (asked n)" "j \<noteq> i" "h \<in> set hs" for j hs
      using asked_other [OF w assms(3,4) that(1,2)] that(3) by simp
  qed
  moreover have "nobody_asked k (requests n')" if k: "nobody_asked k (requests n)" for k
    unfolding assms(1)
  proof (rule stuck_change)
    show "nobody_asked k (asked n, listed n)" using k by (simp add: requests_def)
    have "k \<notin> set (snd (i, map fst (sync_items_requested_from_peer p)))"
      using k asked_peer [OF assms(3)] unfolding nobody_asked_def requests_def fst_conv by blast
    then have "k \<noteq> h" using assms(4) by auto
    then show "k \<in> L" using k assms(2) by (auto simp: nobody_asked_def requests_def)
  qed auto
  ultimately show ?thesis by (simp add: sound_step_def)
qed

lemma sound_receive_block:
  assumes "find_peer i n = Some p" "bm_block_id b \<in> fst ` set (sync_items_requested_from_peer p)"
  shows "sound_step n (receive_sync_block cl now i b n)"
proof (rule sound_erase [OF _ _ assms])
  let ?m = "(upd_peer i (\<lambda>p. p\<lparr>sync_items_requested_from_peer := erase_key (bm_block_id b) (sync_items_requested_from_peer p)\<rparr>) n)
    \<lparr>active_sync_requests := erase_key (bm_block_id b) (active_sync_requests n)\<rparr>"
  have "requests (receive_sync_block cl now i b n) = requests ?m"
    by (simp add: receive_sync_block_def process_block_during_sync_def Let_def split: option.splits)
  also have "\<dots> = (change_asked i (filter (\<lambda>k. k \<noteq> bm_block_id b)) (asked n), listed n - {bm_block_id b})"
    using requests_erase [of i "bm_block_id b" n] unfolding requests_set_active by (simp add: requests_def listed_def)
  finally show "requests (receive_sync_block cl now i b n) = \<dots>" .
qed simp

lemma requests_unavailable:
  "requests (sync_item_not_available now i h n) = (if find_peer i n = None then requests n
     else (change_asked i (filter (\<lambda>k. k \<noteq> h)) (asked n), listed n))"
  by (auto simp: sync_item_not_available_def Let_def keeps_requests_def requests_erase split: option.splits)

lemma sound_unavailable:
  assumes "find_peer i n = Some p" "h \<in> fst ` set (sync_items_requested_from_peer p)"
  shows "sound_step n (sync_item_not_available now i h n)"
  by (rule sound_erase [OF _ _ assms, of _ "listed n"]) (simp_all add: requests_unavailable assms(1))


lemma asked_remove: "asked (remove_peer i n) = filter (\<lambda>x. fst x \<noteq> i) (asked n)" "listed (remove_peer i n) = listed n"
  by (simp_all add: asked_def listed_def remove_peer_def filter_map o_def)

lemma keys_fold_erase: "fst ` set (fold erase_key hs xs) = fst ` set xs - set hs"
  by (induction hs arbitrary: xs) auto

lemma sound_remove:
  assumes "requests n' = (filter (\<lambda>x. fst x \<noteq> i) (asked n), L)"
    and "L = listed n \<or> (\<exists>p. find_peer i n = Some p \<and> L = listed n - fst ` set (sync_items_requested_from_peer p))"
  shows "sound_step n n'"
proof -
  have gone: "h \<in> L" if "h \<in> listed n" "\<And>p. find_peer i n = Some p \<Longrightarrow> h \<notin> fst ` set (sync_items_requested_from_peer p)" for h
    using assms(2) that by auto
  have "well_asked (requests n')" if w: "well_asked (requests n)"
    unfolding assms(1)
  proof (rule well_asked_remove)
    show w': "well_asked (asked n, listed n)" using w by (simp add: requests_def)
    show "set (filter (\<lambda>x. fst x \<noteq> i) (asked n)) \<subseteq> set (asked n)" by auto
    show "distinct (map fst (filter (\<lambda>x. fst x \<noteq> i) (asked n)))" using well_askedD(1) [OF w'] by (simp add: distinct_map_filter)
    fix j hs assume j: "(j, hs) \<in> set (filter (\<lambda>x. fst x \<noteq> i) (asked n))"
    show "set hs \<subseteq> L"
    proof
      fix h assume h: "h \<in> set hs"
      show "h \<in> L"
      proof (rule gone)
        show "h \<in> listed n" using well_askedD(2) [OF w', of j hs] j h by auto
        show "h \<notin> fst ` set (sync_items_requested_from_peer p)" if "find_peer i n = Some p" for p
          using asked_other [OF w that, of h j hs] j h by auto
      qed
    qed
  qed
  moreover have "nobody_asked h (requests n')" if "nobody_asked h (requests n)" for h
  proof -
    have "h \<in> L"
    proof (rule gone)
      show "h \<in> listed n" using that by (simp add: nobody_asked_def requests_def)
      show "h \<notin> fst ` set (sync_items_requested_from_peer p)" if "find_peer i n = Some p" for p
        using asked_peer [OF that] \<open>nobody_asked h (requests n)\<close> by (force simp: nobody_asked_def requests_def)
    qed
    moreover have "\<forall>x \<in> set (asked n). h \<notin> set (snd x)" using that by (simp add: nobody_asked_def requests_def)
    ultimately show ?thesis by (simp add: nobody_asked_def assms(1))
  qed
  ultimately show ?thesis by (simp add: sound_step_def)
qed

lemma sound_closed: "sound_step n (on_connection_closed i n)"
proof (cases "find_peer i n")
  case (Some p)
  let ?n1 = "reschedule_sync_items p (remove_peer i n)"
  have "requests (on_connection_closed i n) = requests ?n1"
    by (auto simp: on_connection_closed_def Some Let_def intro!: requests_fold)
  also have "\<dots> = (filter (\<lambda>x. fst x \<noteq> i) (asked n), listed n - fst ` set (sync_items_requested_from_peer p))"
  proof (cases "sync_items_requested_from_peer p = []")
    case True
    then show ?thesis by (simp add: reschedule_sync_items_def requests_def asked_remove)
  next
    case False
    then have "requests ?n1 = (asked (remove_peer i n),
        fst ` set (fold erase_key (map fst (sync_items_requested_from_peer p)) (active_sync_requests (remove_peer i n))))"
      by (simp add: reschedule_sync_items_def requests_set_active)
    also have "fst ` set (fold erase_key (map fst (sync_items_requested_from_peer p)) (active_sync_requests (remove_peer i n))) =
        listed n - fst ` set (sync_items_requested_from_peer p)"
      by (simp only: keys_fold_erase set_map) (simp add: listed_def remove_peer_def)
    finally show ?thesis by (simp add: asked_remove)
  qed
  finally show ?thesis by (rule sound_remove) (use Some in auto)
qed (simp add: on_connection_closed_def sound_same)

lemma sound_fold: "(\<And>x n. sound_step n (f x n)) \<Longrightarrow> sound_step n (fold f xs n)"
proof (induction xs arbitrary: n)
  case (Cons x xs)
  then have "sound_step n (f x n)" "sound_step (f x n) (fold f xs (f x n))" by blast+
  then show ?case using sound_trans by simp
qed (simp add: sound_same)

lemma sound_remove_peer: "sound_step n (remove_peer i n)"
  by (rule sound_remove [where L = "listed n"]) (simp_all add: requests_def asked_remove)

lemma sound_terminate: "sound_step n (terminate_inactive_connections now n)"
proof -
  have k: "keeps_requests (\<lambda>p. close_connection now (p\<lparr>pc_list := Terminating\<rparr>))" by (simp add: keeps_requests_def close_connection_def)
  show ?thesis
    unfolding terminate_inactive_connections_def Let_def
    by (rule sound_trans [OF sound_same sound_fold [OF sound_remove_peer]]) (simp add: requests_fold k)
qed

lemma sound_connect:
  assumes "i \<notin> pc_id ` set (peers n)"
  shows "sound_step n (add_connection i inbound now n)"
proof -
  have r: "requests (add_connection i inbound now n) = (asked n @ [(i, [])], listed n)"
    by (simp add: requests_def asked_def listed_def add_connection_def fresh_peer_def)
  have i: "i \<notin> fst ` set (asked n)" using assms by (auto simp: asked_def)
  have "well_asked (asked n @ [(i, [])], listed n)" if w: "well_asked (asked n, listed n)"
  proof (rule well_askedI)
    note w = well_askedD [OF that, unfolded fst_conv snd_conv]
    show "distinct (map fst (asked n @ [(i, [])]))" using w(1) i by simp
    fix j hs assume j: "(j, hs) \<in> set (asked n @ [(i, [])])"
    then show "set hs \<subseteq> listed n" using w(2) by fastforce
    fix k ks assume "(k, ks) \<in> set (asked n @ [(i, [])])" "j \<noteq> k"
    with j show "set hs \<inter> set ks = {}" using w(3) by fastforce
  qed
  moreover have "nobody_asked h (asked n @ [(i, [])], listed n)" if "nobody_asked h (asked n, listed n)" for h
    using that by (auto simp: nobody_asked_def)
  ultimately show ?thesis by (simp add: sound_step_def r requests_def [of n])
qed

lemma sound_block: "sound_step n (process_block_message cl now i b v n)"
proof (cases "find_peer i n")
  case (Some p)
  then show ?thesis
    using sound_receive_block [OF Some, of b cl now] by (simp add: process_block_message_def Let_def sound_same)
qed (simp add: process_block_message_def sound_same Let_def)

lemma sound_not_available: "sound_step n (on_item_not_available now i x n)"
proof (cases "find_peer i n")
  case (Some p)
  have "keeps_requests (\<lambda>p. (erase_request x p)\<lparr>inventory_peer_advertised_to_us := erase_key x (inventory_peer_advertised_to_us p)\<rparr>)"
    by (simp add: keeps_requests_def erase_request_def)
  with Some show ?thesis
    using sound_unavailable [OF Some, of "snd x" now] by (simp add: on_item_not_available_def Let_def sound_same)
qed (simp add: on_item_not_available_def sound_same Let_def)

lemma sound_node_step: "node_step n n' \<Longrightarrow> sound_step n n'"
proof (induction rule: node_step.induct)
  case (connect i n inbound now)
  then show ?case by (rule sound_connect)
next
  case (heard n i now)
  then show ?case by (simp add: sound_same keeps_requests_def)
next
  case (spoke n i now)
  then show ?case by (simp add: sound_same keeps_requests_def)
qed (simp_all add: sound_same requests_rejected requests_serve sound_not_available sound_block sound_closed sound_fetch_sync_items sound_terminate)

lemma start_well_asked: "well_asked (requests (node_at_start own chain forks))"
  by (simp add: well_asked_def requests_def asked_def listed_def node_at_start_def)

lemma reachable_well_asked: "reachable n \<Longrightarrow> well_asked (requests n)"
proof (induction rule: reachable.induct)
  case (step n n')
  then show ?case using sound_node_step [OF step(2)] by (simp add: sound_step_def)
qed (rule start_well_asked)

lemma later_stuck:
  assumes "later n n'" "well_asked (requests n)" "nobody_asked h (requests n)"
  shows "nobody_asked h (requests n') \<and> well_asked (requests n')"
  using assms by (induction rule: later.induct) (auto dest!: sound_node_step simp: sound_step_def)


subsection \<open>Requests\<close>

text \<open>
  C25. Whatever the peers, the client and the loops do, a block is never requested from two connections at the same time.
\<close>

theorem one_request_at_a_time:
  assumes "reachable n" "p \<in> set (peers n)" "q \<in> set (peers n)" "pc_id p \<noteq> pc_id q"
    and "h \<in> fst ` set (sync_items_requested_from_peer p)"
  shows "h \<notin> fst ` set (sync_items_requested_from_peer q)"
proof -
  have "(pc_id p, map fst (sync_items_requested_from_peer p)) \<in> set (fst (requests n))"
    "(pc_id q, map fst (sync_items_requested_from_peer q)) \<in> set (fst (requests n))"
    using assms(2,3) by (auto simp: asked_def requests_def)
  from well_askedD(3) [OF reachable_well_asked [OF assms(1)] this assms(4)] assms(5) show ?thesis by (simp add: disjoint_iff)
qed

lemma unavailable_stuck:
  assumes "reachable n" "find_peer i n = Some p" "h \<in> fst ` set (sync_items_requested_from_peer p)"
  shows "nobody_asked h (requests (sync_item_not_available now i h n))"
proof -
  note w = reachable_well_asked [OF assms(1)]
  have "set (map fst (sync_items_requested_from_peer p)) \<subseteq> listed n"
    using well_askedD(2) [OF w, of i] asked_peer [OF assms(2)] by (simp only: requests_def fst_conv snd_conv)
  then have l: "h \<in> listed n" using assms(3) by (simp only: set_map subset_iff)
  have "h \<notin> set hs" if j: "(j, hs) \<in> set (change_asked i (filter (\<lambda>k. k \<noteq> h)) (asked n))" for j hs
  proof -
    obtain ks where k: "(j, ks) \<in> set (asked n)" "hs = (if j = i then filter (\<lambda>k. k \<noteq> h) ks else ks)"
      using change_asked_in [OF j] by blast
    then show ?thesis using asked_other [OF w assms(2,3) k(1)] by auto
  qed
  with l assms(2) show ?thesis by (auto simp: requests_unavailable nobody_asked_def)
qed

text \<open>
  C26. Once a peer has answered that it does not have a block it was asked for during synchronisation, the node never asks anybody for
  that block again, because it stays on the list of the requests that are out.
\<close>

theorem unavailable_block_never_requested_again:
  assumes "reachable n" "find_peer i n = Some p" "h \<in> fst ` set (sync_items_requested_from_peer p)"
    and "(block_message_type, h) \<notin> fst ` set (items_requested_from_peer p)"
    and "later (on_item_not_available now i (block_message_type, h) n) n'" "q \<in> set (peers n')"
  shows "h \<notin> fst ` set (sync_items_requested_from_peer q) \<and> h \<in> fst ` set (active_sync_requests n')"
proof -
  have u: "on_item_not_available now i (block_message_type, h) n = sync_item_not_available now i h n"
    using assms(2-4) by (simp add: on_item_not_available_def)
  have "well_asked (requests (sync_item_not_available now i h n))"
    using sound_unavailable [OF assms(2,3)] reachable_well_asked [OF assms(1)] by (simp add: sound_step_def)
  from later_stuck [OF assms(5) [unfolded u] this unavailable_stuck [OF assms(1-3)]]
  have s: "nobody_asked h (requests n')" by simp
  have "(pc_id q, map fst (sync_items_requested_from_peer q)) \<in> set (asked n')" using assms(6) by (auto simp: asked_def)
  with s show ?thesis by (force simp: nobody_asked_def requests_def listed_def)
qed

subsection \<open>The backlog\<close>

lemma process_blocks_runs_dry:
  "length (handle_message_calls_in_progress (process_blocks n)) \<ge> maximum_number_of_blocks_to_handle_at_one_time (process_blocks n) \<or>
   next_in_line (process_blocks n) = None \<or>
   (\<exists>b \<in> set (received_sync_items (process_blocks n)). bm_block_id b \<in> set (most_recent_blocks_accepted (process_blocks n)))"
proof (induction n rule: process_blocks.induct)
  case (1 n0)
  let ?n = "merge_new_blocks n0"
  let ?stop = "\<lambda>n. if length (received_sync_items n) \<ge> maximum_number_of_sync_blocks_to_prefetch n
    then n\<lparr>suspend_fetching_sync_blocks := True\<rparr> else n"
  show ?case
  proof (cases "next_in_line ?n")
    case None
    moreover have "next_in_line (?n\<lparr>suspend_fetching_sync_blocks := True\<rparr>) = next_in_line ?n"
      by (simp add: next_in_line_def active_connections_def)
    ultimately show ?thesis by (subst (1 2 3 4 5) process_blocks.simps) (simp add: Let_def)
  next
    case (Some b)
    then have in_r: "b \<in> set (received_sync_items ?n)" by (rule next_in_line_in)
    let ?n1 = "upd_active (take_up (bm_block_id b)) ?n"
    show ?thesis
    proof (cases "bm_block_id b \<in> set (most_recent_blocks_accepted ?n)")
      case True
      have "b \<in> set (received_sync_items ?n1)" "bm_block_id b \<in> set (most_recent_blocks_accepted ?n1)"
        using in_r True by (simp_all add: upd_active_def)
      then show ?thesis by (subst (1 2 3 4 5) process_blocks.simps) (auto simp: Let_def Some True)
    next
      case False
      let ?n2 = "hand_over b ?n1"
      show ?thesis
      proof (cases "length (handle_message_calls_in_progress ?n2) \<ge> maximum_number_of_blocks_to_handle_at_one_time ?n2")
        case full: True
        then show ?thesis by (subst (1 2 3 4 5) process_blocks.simps) (simp add: Let_def Some False)
      next
        case more: False
        then have "process_blocks n0 = process_blocks ?n2"
          by (subst process_blocks.simps) (simp add: Let_def Some False)
        with 1 [OF refl refl refl Some refl False refl more] show ?thesis by simp
      qed
    qed
  qed
qed

text \<open>
  C37. After the node has gone through the blocks it has received, either it has handed as many to the client as it may at a time, or no
  block it has is the next one any peer lists, or one of those it has was accepted already, at which it stopped.
\<close>

theorem backlog_runs_dry:
  assumes "length (handle_message_calls_in_progress n) < maximum_number_of_blocks_to_handle_at_one_time n"
    and "n' = process_backlog_of_sync_blocks n"
  shows "length (handle_message_calls_in_progress n') \<ge> maximum_number_of_blocks_to_handle_at_one_time n' \<or>
    (\<forall>b \<in> set (received_sync_items n'). \<forall>p \<in> set (active_connections n'). \<not> offered_first (bm_block_id b) p) \<or>
    (\<exists>b \<in> set (received_sync_items n'). bm_block_id b \<in> set (most_recent_blocks_accepted n'))"
proof -
  have line: "next_in_line m = None \<longleftrightarrow>
      (\<forall>b \<in> set (received_sync_items m). \<forall>p \<in> set (active_connections m). \<not> offered_first (bm_block_id b) p)" for m
    by (auto simp: next_in_line_def find_none)
  let ?m = "process_blocks (n\<lparr>process_backlog_scheduled := False, suspend_fetching_sync_blocks := False\<rparr>)"
  have "n' = (if suspend_fetching_sync_blocks ?m then ?m else trigger_fetch_sync_items_loop ?m)"
    using assms by (simp add: process_backlog_of_sync_blocks_def Let_def)
  with process_blocks_runs_dry [of "n\<lparr>process_backlog_scheduled := False, suspend_fetching_sync_blocks := False\<rparr>"]
  show ?thesis unfolding line by (auto simp: trigger_fetch_sync_items_loop_def active_connections_def)
qed


subsection \<open>Fetching what was advertised\<close>

text \<open>
  C36. In one round of fetching, an item is asked of one connection, a connection is asked for one item, and only for an item
  it has advertised while nothing else was asked of it.
\<close>

theorem fetch_round_asks_advertisers:
  assumes "assign_items now xs n = (ms, n')" "distinct xs"
  shows "distinct (map fst ms) \<and> distinct (map snd ms) \<and> set (map snd ms) \<subseteq> set xs \<and>
    (\<forall>m \<in> set ms. \<exists>p \<in> set (active_connections n). pc_id p = fst m \<and> idle p \<and>
      snd m \<in> fst ` set (inventory_peer_advertised_to_us p))"
  using assms
proof (induction xs arbitrary: n ms)
  case (Cons x xs)
  show ?case
  proof (cases "List.find (can_serve now x) (active_connections n)")
    case None
    with Cons.prems have "assign_items now xs n = (ms, n')" "distinct xs" by simp_all
    from Cons.IH [OF this] show ?thesis by auto
  next
    case (Some p)
    then have p: "p \<in> set (active_connections n)" "can_serve now x p" by (auto simp: find_Some_iff in_set_conv_nth)
    let ?n = "request_item now (pc_id p) x n"
    obtain ms1 where m: "assign_items now xs ?n = (ms1, n')" "ms = (pc_id p, x) # ms1"
      using Cons.prems(1) by (auto simp: Some Let_def split: prod.splits)
    have "distinct xs" using Cons.prems(2) by simp
    note ih = Cons.IH [OF m(1) this]
    have old: "\<exists>q \<in> set (active_connections n). pc_id q = fst k \<and> idle q \<and> snd k \<in> fst ` set (inventory_peer_advertised_to_us q) \<and>
        fst k \<noteq> pc_id p" if "k \<in> set ms1" for k
    proof -
      obtain q where "q \<in> set (active_connections ?n)" "pc_id q = fst k" "idle q"
        "snd k \<in> fst ` set (inventory_peer_advertised_to_us q)" using ih \<open>k \<in> set ms1\<close> by blast
      then show ?thesis using active_request_item [of q now "pc_id p" x n] by auto
    qed
    then have "pc_id p \<notin> fst ` set ms1" by force
    moreover have "x \<notin> snd ` set ms1" using ih Cons.prems(2) by auto
    moreover have "\<exists>q \<in> set (active_connections n). pc_id q = fst k \<and> idle q \<and> snd k \<in> fst ` set (inventory_peer_advertised_to_us q)"
      if "k \<in> set ms" for k
    proof (cases "k = (pc_id p, x)")
      case True
      then show ?thesis using p by (auto simp: can_serve_def)
    next
      case False
      then have "k \<in> set ms1" using that by (simp add: m(2))
      from old [OF this] show ?thesis by blast
    qed
    ultimately show ?thesis using ih by (simp add: m(2) subset_insertI2)
  qed
qed simp

subsection \<open>Two slips\<close>

text \<open>Counting in 32 bits, a peer that offers 143 million more blocks is found plausible.\<close>

lemma implausible_count_passes:
  "minimum_time_of_last_offered_block (p\<lparr>last_block_time_delegate_has_seen := 0, number_of_unfetched_item_ids := 143165577\<rparr>) = 14"
  by (simp add: minimum_time_of_last_offered_block_def BTS_MAX_BLOCK_INTERVAL_def uint32_def)

text \<open>A block the client has accepted already is taken up by the peers that list it but is neither removed nor ever marked as processed.\<close>

lemma accepted_block_lingers:
  assumes "next_in_line (merge_new_blocks n) = Some b" "bm_block_id b \<in> set (most_recent_blocks_accepted n)"
    and "p \<in> set (active_connections n)" "offered_first (bm_block_id b) p"
  shows "b \<in> set (received_sync_items (process_blocks n)) \<and>
    (\<exists>q \<in> set (peers (process_blocks n)). pc_id q = pc_id p \<and> bm_block_id b \<in> set (ids_of_items_being_processed q))"
proof -
  let ?n1 = "upd_active (take_up (bm_block_id b)) (merge_new_blocks n)"
  have "b \<in> set (received_sync_items ?n1)" using next_in_line_in [OF assms(1)] by (simp add: upd_active_def)
  moreover have "take_up (bm_block_id b) p \<in> set (peers ?n1)"
    using assms(3) by (auto simp: upd_active_def merge_new_blocks_def active_connections_def image_iff)
  moreover have "pc_id (take_up (bm_block_id b) p) = pc_id p \<and>
      bm_block_id b \<in> set (ids_of_items_being_processed (take_up (bm_block_id b) p))"
    using assms(4) by (simp add: take_up_def)
  moreover have "received_sync_items (process_blocks n) = received_sync_items ?n1 \<and> peers (process_blocks n) = peers ?n1"
    using assms(1,2) by (subst (1 2) process_blocks.simps) (simp add: Let_def merge_new_blocks_def)
  ultimately show ?thesis by auto
qed

subsection \<open>Handshakes that do not matter\<close>

lemma find_upd_peer:
  assumes "\<And>p. pc_id (f p) = pc_id p"
  shows "find_peer j (upd_peer i f n) = (if j = i then map_option f (find_peer i n) else find_peer j n)"
proof -
  have "List.find (\<lambda>p. pc_id p = j) (map (\<lambda>p. if pc_id p = i then f p else p) ps) =
      (if j = i then map_option f (List.find (\<lambda>p. pc_id p = i) ps) else List.find (\<lambda>p. pc_id p = j) ps)" for ps
    using assms by (induction ps) auto
  then show ?thesis by (simp add: find_peer_def upd_peer_def)
qed

lemma find_send [simp]: "find_peer j (send_message i m n) = find_peer j n"
  by (simp add: find_peer_def send_message_def)

text \<open>What asking a connection for its ids leaves as it is.\<close>

lemma start_keeps_states:
  assumes "find_peer i n = Some p"
  shows "\<exists>q. find_peer i (start_synchronizing_with_peer cl now i n) = Some q \<and> pc_list q = pc_list p \<and> their_state q = their_state p \<and>
    inhibit_fetching_sync_blocks q = False"
  using assms by (simp add: start_synchronizing_with_peer_def fetch_next_batch_of_item_ids_from_peer_def Let_def find_upd_peer reset_fork_tracking_def)

text \<open>
  C35. An inbound connection that is still handshaking becomes active when it asks for block ids, whatever became of its hello: also if
  that was rejected or never came.
\<close>

theorem asking_for_ids_ends_handshake:
  assumes "find_peer i n = Some p" "is_inbound p" "pc_list p = Handshaking" "\<not> inhibit_fetching_sync_blocks p"
  shows "\<exists>q. find_peer i (on_fetch_blockchain_item_ids cl now i t synopsis n) = Some q \<and> pc_list q = Active \<and>
    their_state q = their_state p"
proof -
  obtain available remaining where a: "cl_item_ids cl t synopsis = (available, remaining)" by force
  let ?in_sync = "available = [] \<or> synopsis \<noteq> [] \<and> length available = 1 \<and> last available \<in> set synopsis"
  let ?n1 = "upd_peer i (\<lambda>p. p\<lparr>peer_needs_sync_items_from_us := \<not> ?in_sync\<rparr>) n"
  let ?n2 = "if \<not> we_need_sync_items_from_peer p \<and> synopsis \<noteq> [] \<and> \<not> cl_has_item cl (t, last synopsis)
    then start_synchronizing_with_peer cl now i ?n1 else ?n1"
  let ?n3 = "send_message i (Blockchain_Inventory_Msg remaining t available) ?n2"
  have "find_peer i ?n1 = Some (p\<lparr>peer_needs_sync_items_from_us := \<not> ?in_sync\<rparr>)" by (subst find_upd_peer) (simp_all add: assms(1))
  note n1 = this
  obtain q where q: "find_peer i ?n2 = Some q" "their_state q = their_state p"
  proof (cases "\<not> we_need_sync_items_from_peer p \<and> synopsis \<noteq> [] \<and> \<not> cl_has_item cl (t, last synopsis)")
    case True
    obtain q where "find_peer i (start_synchronizing_with_peer cl now i ?n1) = Some q" "their_state q = their_state p"
      using start_keeps_states [OF n1, of cl now] by force
    then show ?thesis using that True by (simp only: if_True simp_thms)
  next
    case False
    show ?thesis
    proof (rule that)
      show "find_peer i ?n2 = Some (p\<lparr>peer_needs_sync_items_from_us := \<not> ?in_sync\<rparr>)" using n1 by (simp only: if_not_P [OF False])
    qed simp
  qed
  then have "find_peer i (upd_peer i (\<lambda>p. p\<lparr>pc_list := Active\<rparr>) ?n3) = Some (q\<lparr>pc_list := Active\<rparr>)"
    by (subst find_upd_peer) simp_all
  then have "find_peer i (send_message i Time_Request_Msg (upd_peer i (\<lambda>p. p\<lparr>pc_list := Active\<rparr>) ?n3)) = Some (q\<lparr>pc_list := Active\<rparr>)"
    by simp
  moreover have "on_fetch_blockchain_item_ids cl now i t synopsis n =
      start_synchronizing_with_peer cl now i (send_message i Time_Request_Msg (upd_peer i (\<lambda>p. p\<lparr>pc_list := Active\<rparr>) ?n3))"
    unfolding on_fetch_blockchain_item_ids_def Let_def new_peer_just_added_def assms(1) a option.case prod.case
    by (simp only: assms(2-4) simp_thms if_False if_True)
  ultimately show ?thesis
    using start_keeps_states [of i "send_message i Time_Request_Msg (upd_peer i (\<lambda>p. p\<lparr>pc_list := Active\<rparr>) ?n3)" _ cl now] q(2) by force
qed


subsection \<open>A concrete node\<close>

definition sample_client :: client where
  "sample_client = \<lparr>cl_has_item = (\<lambda>_. False), cl_block_time = (\<lambda>_. 0), cl_block_number = (\<lambda>_. 0), cl_synopsis = (\<lambda>_ _ _. []),
     cl_item_ids = (\<lambda>_ _. ([], 0)), cl_item = (\<lambda>_. None), cl_now = 1000, cl_head_block_id = 0,
     cl_estimate_last_known_fork = (\<lambda>_. 0), cl_message_hash = (\<lambda>_. 99)\<rparr>"

text \<open>Two connections, of which the second is rejected since it says the same id as the first; both end up active all the same.\<close>

definition sample_hello :: hello_message where
  "sample_hello = \<lparr>hm_node_public_key = 4, hm_signature_valid = True, hm_chain_id = 7, hm_node_id = None,
     hm_last_known_fork = None, hm_revision_time = None\<rparr>"

definition sample_greeted :: node where
  "sample_greeted = on_hello sample_client 0 2 sample_hello (on_hello sample_client 0 1 sample_hello
     (add_connection 2 True 0 (add_connection 1 True 0 (node_at_start 9 7 []))))"

definition sample_joined :: node where
  "sample_joined = on_fetch_blockchain_item_ids sample_client 0 2 block_message_type []
     (on_address sample_client 0 1 sample_greeted)"

text \<open>Both offer two blocks.\<close>

definition sample_offered :: node where
  "sample_offered = on_blockchain_item_ids_inventory sample_client 0 2 0 block_message_type [5, 6]
     (on_blockchain_item_ids_inventory sample_client 0 1 0 block_message_type [5, 6] sample_joined)"

definition sample_requested :: node where
  "sample_requested = fetch_sync_items 0 sample_offered"

lemma sample_greeted_reachable: "reachable sample_greeted"
proof -
  have "reachable (add_connection 1 True 0 (node_at_start 9 7 []))"
    by (rule reachable.step [OF reachable.start connect]) (simp add: node_at_start_def)
  then have "reachable (add_connection 2 True 0 (add_connection 1 True 0 (node_at_start 9 7 [])))"
    by (rule reachable.step [OF _ connect]) (simp add: node_at_start_def add_connection_def fresh_peer_def)
  then show ?thesis unfolding sample_greeted_def by (rule reachable.step [OF reachable.step [OF _ hello] hello])
qed

lemma sample_requested_reachable: "reachable sample_requested"
proof -
  have "reachable sample_joined"
    unfolding sample_joined_def by (rule reachable.step [OF reachable.step [OF sample_greeted_reachable address] fetch_ids])
  then have "reachable sample_offered"
    unfolding sample_offered_def by (rule reachable.step [OF reachable.step [OF _ receive_ids] receive_ids])
  then show ?thesis unfolding sample_requested_def by (rule reachable.step [OF _ sync_loop])
qed

lemma sample_requests:
  "map (\<lambda>p. (pc_id p, map fst (sync_items_requested_from_peer p), items_requested_from_peer p, pc_list p, their_state p))
    (peers sample_requested) = [(1, [5, 6], [], Active, Connection_Accepted), (2, [], [], Active, Connection_Rejected)]"
  by code_simp

lemma sample_peers:
  obtains p q where "peers sample_requested = [p, q]" "pc_id p = 1" "pc_id q = 2"
    "map fst (sync_items_requested_from_peer p) = [5, 6]" "items_requested_from_peer p = []"
  using sample_requests by (auto simp: map_eq_Cons_conv)

theorem one_request_at_a_time_witness:
  "\<exists>p q. p \<in> set (peers sample_requested) \<and> q \<in> set (peers sample_requested) \<and> pc_id p \<noteq> pc_id q \<and>
     5 \<in> fst ` set (sync_items_requested_from_peer p) \<and> 5 \<notin> fst ` set (sync_items_requested_from_peer q)"
proof -
  obtain p q where s: "peers sample_requested = [p, q]" "pc_id p = 1" "pc_id q = 2"
    "map fst (sync_items_requested_from_peer p) = [5, 6]" by (rule sample_peers)
  have "5 \<in> set (map fst (sync_items_requested_from_peer p))" unfolding s(4) by simp
  then have h: "5 \<in> fst ` set (sync_items_requested_from_peer p)" by simp
  have "5 \<notin> fst ` set (sync_items_requested_from_peer q)"
    by (rule one_request_at_a_time [OF sample_requested_reachable _ _ _ h]) (simp_all add: s)
  with s h show ?thesis by (intro exI [of _ p] exI [of _ q]) simp
qed

theorem unavailable_block_never_requested_again_witness:
  "5 \<in> fst ` set (active_sync_requests (on_item_not_available 0 1 (block_message_type, 5) sample_requested)) \<and>
   (\<exists>q \<in> set (peers (on_item_not_available 0 1 (block_message_type, 5) sample_requested)).
     5 \<notin> fst ` set (sync_items_requested_from_peer q))"
proof -
  obtain p q where s: "peers sample_requested = [p, q]" "pc_id p = 1" "pc_id q = 2"
    "map fst (sync_items_requested_from_peer p) = [5, 6]" "items_requested_from_peer p = []" by (rule sample_peers)
  let ?n = "on_item_not_available 0 1 (block_message_type, 5) sample_requested"
  have f: "find_peer 1 sample_requested = Some p" using s by (simp add: find_peer_def)
  have "5 \<in> set (map fst (sync_items_requested_from_peer p))" unfolding s(4) by simp
  then have h: "5 \<in> fst ` set (sync_items_requested_from_peer p)" by simp
  have i: "(block_message_type, 5) \<notin> fst ` set (items_requested_from_peer p)" by (simp add: s(5))
  have "map pc_id (peers ?n) = [1, 2]" by code_simp
  then obtain r where r: "r \<in> set (peers ?n)" by (cases "peers ?n") auto
  from unavailable_block_never_requested_again [OF sample_requested_reachable f h i later.now r] r show ?thesis by blast
qed

text \<open>The second block arrives first and waits for the other.\<close>

definition sample_waiting :: node where
  "sample_waiting = receive_sync_block sample_client 0 1 \<lparr>bm_block_id = 5, bm_block_num = 1, bm_timestamp = 0\<rparr>
     (receive_sync_block sample_client 0 1 \<lparr>bm_block_id = 6, bm_block_num = 2, bm_timestamp = 0\<rparr> sample_requested)"

theorem backlog_runs_dry_witness:
  "length (handle_message_calls_in_progress (process_backlog_of_sync_blocks sample_waiting)) = 2 \<and>
   (length (handle_message_calls_in_progress (process_backlog_of_sync_blocks sample_waiting)) \<ge>
      maximum_number_of_blocks_to_handle_at_one_time (process_backlog_of_sync_blocks sample_waiting) \<or>
    (\<forall>b \<in> set (received_sync_items (process_backlog_of_sync_blocks sample_waiting)).
      \<forall>p \<in> set (active_connections (process_backlog_of_sync_blocks sample_waiting)). \<not> offered_first (bm_block_id b) p) \<or>
    (\<exists>b \<in> set (received_sync_items (process_backlog_of_sync_blocks sample_waiting)).
      bm_block_id b \<in> set (most_recent_blocks_accepted (process_backlog_of_sync_blocks sample_waiting))))"
proof
  show "length (handle_message_calls_in_progress (process_backlog_of_sync_blocks sample_waiting)) = 2" by code_simp
  have "length (handle_message_calls_in_progress sample_waiting) < maximum_number_of_blocks_to_handle_at_one_time sample_waiting"
    by code_simp
  from backlog_runs_dry [OF this refl] show "length (handle_message_calls_in_progress (process_backlog_of_sync_blocks sample_waiting)) \<ge>
      maximum_number_of_blocks_to_handle_at_one_time (process_backlog_of_sync_blocks sample_waiting) \<or>
    (\<forall>b \<in> set (received_sync_items (process_backlog_of_sync_blocks sample_waiting)).
      \<forall>p \<in> set (active_connections (process_backlog_of_sync_blocks sample_waiting)). \<not> offered_first (bm_block_id b) p) \<or>
    (\<exists>b \<in> set (received_sync_items (process_backlog_of_sync_blocks sample_waiting)).
      bm_block_id b \<in> set (most_recent_blocks_accepted (process_backlog_of_sync_blocks sample_waiting)))" .
qed

theorem asking_for_ids_ends_handshake_witness:
  "\<exists>q. find_peer 2 (on_fetch_blockchain_item_ids sample_client 0 2 block_message_type [] sample_greeted) = Some q \<and>
     pc_list q = Active \<and> their_state q = Connection_Rejected"
proof -
  have "map_option (\<lambda>p. (is_inbound p, pc_list p, their_state p, inhibit_fetching_sync_blocks p)) (find_peer 2 sample_greeted) =
      Some (True, Handshaking, Connection_Rejected, False)" by code_simp
  then obtain p where p: "find_peer 2 sample_greeted = Some p" "is_inbound p" "pc_list p = Handshaking" "\<not> inhibit_fetching_sync_blocks p"
    "their_state p = Connection_Rejected" by auto
  from asking_for_ids_ends_handshake [OF p(1-4), of sample_client 0 block_message_type "[]"] p(5) show ?thesis by simp
qed

definition sample_gossiping :: node where
  "sample_gossiping = on_item_ids_inventory 5 2 trx_message_type [8, 9] (on_item_ids_inventory 5 1 trx_message_type [8]
     (on_blockchain_item_ids_inventory sample_client 0 2 0 block_message_type []
       (on_blockchain_item_ids_inventory sample_client 0 1 0 block_message_type [] sample_joined)))"

theorem fetch_round_asks_advertisers_witness:
  "fst (assign_items 5 (map fst (items_to_fetch sample_gossiping)) sample_gossiping) = [(1, trx_message_type, 8), (2, trx_message_type, 9)] \<and>
   (\<exists>p \<in> set (active_connections sample_gossiping). pc_id p = 2 \<and> idle p \<and>
     (trx_message_type, 9) \<in> fst ` set (inventory_peer_advertised_to_us p))"
proof -
  let ?xs = "map fst (items_to_fetch sample_gossiping)"
  have a: "fst (assign_items 5 ?xs sample_gossiping) = [(1, trx_message_type, 8), (2, trx_message_type, 9)]" by code_simp
  have "distinct ?xs" by code_simp
  moreover obtain ms n' where m: "assign_items 5 ?xs sample_gossiping = (ms, n')" by force
  ultimately have "\<forall>k \<in> set ms. \<exists>p \<in> set (active_connections sample_gossiping). pc_id p = fst k \<and> idle p \<and>
      snd k \<in> fst ` set (inventory_peer_advertised_to_us p)" using fetch_round_asks_advertisers by blast
  moreover have "(2, trx_message_type, 9) \<in> set ms" using a unfolding m fst_conv by simp
  ultimately show ?thesis using a by (metis fst_conv snd_conv)
qed

end
