(* ===== verification/Spec2Isabelle.thy ===== *)
theory Spec2Isabelle
  imports Feeds Undo Names Op_Rules Transactions Book Budget Voting Chain Genesis Account_History Sync Production
    Persistence Replay Memo Deltas Queries Network
begin

chapter \<open>The chain library of the BitShares toolkit\<close>

text \<open>
  A model of \<^verbatim>\<open>src/libraries/chain\<close> and of the object store \<^verbatim>\<open>src/libraries/db\<close> under it: what a node computes
  from the blocks and transactions it is given, and what makes that computation correct.

  \<^bold>\<open>The program.\<close> A database of objects, kept in one index per class, is changed by operations. A transaction
  is a list of operations with signatures; the operations are validated, checked for the authority of the
  accounts they need, charged a fee and applied by one evaluator each. Blocks are lists of transactions with a
  header made by the witness whose turn it is. At the end of a block what has expired is cleared, and once in a
  maintenance interval votes are counted, witnesses and delegates elected, parameters adopted and the
  budget spent. Every change is made in a session of the undo database, so that a transaction or block that
  throws leaves nothing behind and blocks can be popped when a longer fork appears.

  \<^bold>\<open>How code becomes definitions.\<close> A class is a record with the fields of the source, an enumeration or
  \<open>static_variant\<close> a datatype. A function that may throw returns an option, \<open>None\<close> being the exception; one
  whose caller catches, or that leaves a changed state behind when it throws, returns a sum. Machine integers are
  \<open>int\<close> or \<open>nat\<close> with the reduction written out (\<open>uint64\<close>, \<open>uint32\<close>, \<open>u128\<close>), and \<open>share\<close> is the checked 64-bit
  addition of amounts; object and vote ids and shift-and-mask code are words. The objects of a class are a
  table (an association list with a next id) in one record \<open>database\<close>. Iteration orders of the indexes are
  written as stable sorts by the key of the index. Hashes, signatures, block packing and key derivation, which
  the absent submodule \<open>fc\<close> provides, are functions in a record (\<open>crypto\<close>, \<open>block_crypto\<close>, \<open>block_env\<close>) that the
  definitions take as an argument, and nothing is assumed of them unless a theorem says so.

  \<^bold>\<open>The theories, bottom up.\<close>
  \<^item> \<open>Prelude\<close>: exceptions, checked integers and the lemmas about them.
  \<^item> \<open>Object_Id\<close>, \<open>Index\<close>, \<open>Undo\<close>: ids packed in 64 bits; the three index classes of \<^verbatim>\<open>libraries/db\<close>, each an
    interpretation of one locale of laws; \<^verbatim>\<open>undo_database.cpp\<close> with its refinement to a plain stack of saved
    databases.
  \<^item> \<open>Asset\<close>, \<open>Chain_Types\<close>, \<open>Names\<close>, \<open>Operations\<close>, \<open>Op_Rules\<close>, \<open>Chain_State\<close>: amounts and prices; parameters, fee
    schedule and authorities (\<^verbatim>\<open>types.hpp\<close>); the scanners for names and symbols against what they should
    accept; every operation of \<^verbatim>\<open>operations.hpp\<close> with its fee, authorities and validation; every object class.
  \<^item> \<open>Ledger\<close>, \<open>Fees\<close>, \<open>Vesting\<close>: balances and the accounting all conservation theorems use (\<open>imbalance\<close>: the
    supply of an asset minus all that is held of it; \<open>moves\<close>: what a function adds to it); fees and their split;
    vesting balances against a contract that one policy keeps and the other breaks.
  \<^item> \<open>Evaluator\<close>, \<open>Asset_Ops\<close>, \<open>Account_Ops\<close>, \<open>Contract_Ops\<close>, \<open>Market_Ops\<close>: \<open>generic_evaluator\<close> and the evaluators
    of all operations, as interpretations of a locale whose law is that the books are kept.
  \<^item> \<open>Feeds\<close>, \<open>Market\<close>, \<open>Margin\<close>, \<open>Book\<close>: median feeds; filling and matching in one locale for every pair of
    order kinds; margin calls and global settlement; a new order against the whole book.
  \<^item> \<open>Authority\<close>, \<open>Transactions\<close>: the authority check with its cache and recursion, sound for an inductive relation
    that says who has authorised what; transactions and proposals.
  \<^item> \<open>Deltas\<close>: \<open>get_balance_delta\<close> of every operation, and that applying one that neither trades nor executes
    others changes balances by exactly that; one interpretation of its contract for each evaluator.
  \<^item> \<open>Budget\<close>, \<open>Schedule\<close>, \<open>Voting\<close>: maintenance and the random schedule.
  \<^item> \<open>Block\<close>, \<open>Fork_Db\<close>, \<open>Expiry\<close>, \<open>Chain\<close>: block ids and merkle roots; the fork database as a store of linked items;
    what expires; \<open>apply_block\<close>, \<open>push_block\<close>, \<open>pop_block\<close> and \<open>generate_block\<close> composed of all of the above.
  \<^item> \<open>Genesis\<close>: the state a chain starts from, and that its books balance.
  \<^item> \<open>Account_History\<close>: the plugin that keeps the operations of every account and an index of keys, and the API
    call that reads a history, as linked lists refined to plain ones.
  \<^item> \<open>Persistence\<close>, \<open>Replay\<close>: the object database on disk (\<^verbatim>\<open>object_database.cpp\<close>), which comes back as it was but for the
    objects that were removed; opening, closing and replaying a chain, and what popping a block then does.
  \<^item> \<open>Memo\<close>: what \<open>set_message\<close> writes \<open>get_message\<close> reads.
  \<^item> \<open>Sync\<close>, \<open>Production\<close>: what a node answers its peers (\<^verbatim>\<open>application.cpp\<close> and the look-ups of blocks), so that a
    node that is behind is sent what follows its head; when a witness produces a block (\<^verbatim>\<open>witness.cpp\<close>).
  \<^item> \<open>Queries\<close>: the look-ups and subscriptions of \<^verbatim>\<open>app/api.cpp\<close>; the order book a client is given is the book, and which
    calls read or call what is not there.
  \<^item> \<open>Message_Cache\<close>, \<open>Peers\<close>, \<open>Download\<close>, \<open>Gossip\<close>, \<open>Handshake\<close>, \<open>Network\<close>: the node of \<^verbatim>\<open>net/node.cpp\<close> and \<^verbatim>\<open>peer_connection.cpp\<close>:
    the cache of relayed messages; the lists of connections and what a node keeps for each; the exchange of block ids,
    the download of blocks and their backlog; ordinary items; the handshake; and all of it as one step relation, a step
    being a message, a round of a loop or an answer of the chain (\<open>client\<close>, a record of functions), with the
    invariants of its reachable states.

  \<^bold>\<open>What is shown.\<close> Undo restores exactly (refinement, by induction over the calls in a session); the books of
  every asset stay balanced through fees, transfers, orders, matches, margin calls and the other operations,
  with the exact deviation stated where the code breaks them (bonds, margin updates, the budget); the authority
  check is sound, and complete for signatures that suffice; scanners, merkle root, random generator and vote
  counting equal their specifications; loops end; a refused block leaves nothing and a popped one is undone.
  Theorems that state a defect are findings: they are theorems about what the code does.

  \<^bold>\<open>Bounds and fuel.\<close> The only fuel is the nesting depth of proposals that execute proposals (\<open>depth\<close> in
  \<open>apply_operation\<close>): one level is used up by each proposal executed inside another, and since the code recurses
  natively, running out stands for the stack overflow of a proposal that executes itself. The recursion of the
  authority check is bounded by the code's own limit. Loops that need not end are partial functions whose \<open>None\<close>
  is no result (\<open>draw_below\<close>, \<open>call_loop\<close>, \<open>walk_down\<close>, \<open>walk_both\<close>, \<open>pop_blocks_to\<close>, \<open>history_loop\<close>, \<open>synopsis_loop\<close>
  and the clearing loops of \<open>Expiry\<close>); theorems that they end are stated as such.

  \<^bold>\<open>Not modelled.\<close> \<open>fc\<close> (serialisation, hashing, elliptic curves, AES, time), which is not in the repository; LevelDB,
  of which only the order and what is stored and read matters (\<open>Persistence\<close>, \<open>Sync\<close>); logging, \<open>debug_dump\<close> and signals to observers
  other than the account history and the API; the position fields of an entry of \<open>_applied_ops\<close>, and the entries a proposal leaves there
  when its execution throws; addresses; the wallet, JSON-RPC and program start-up, which call the library and decide no rule of the chain. Of the
  network: sockets and key exchange, the connect loop and its database of addresses, firewall checks, clock and
  bandwidth measurement, shutdown, and the points inside one handler at which a fiber may give way to another. Plain \<open>assert\<close>s, which
  release builds drop. In \<open>Chain\<close> the undo stack is the one \<open>Undo\<close> refines to, so the fault of \<open>merge\<close> shown there
  is not repeated in it.
\<close>

end
